(* ===== verification/GoStd.thy ===== *)
theory GoStd
  imports
    Main
    "HOL-Library.Word"
    "HOL-Library.Char_ord"
    "HOL-Library.List_Lexorder"
    "HOL-Library.Product_Lexorder"
    "HOL-Library.Multiset"
begin

text \<open>
  The prelude: the parts of the Go language and of its standard library that the modelled
  packages use, with the lemmas the components share.

  \<^item> A Go \<open>string\<close> is its byte sequence, a HOL \<open>string\<close>; \<open><\<close> on strings is Go's byte-wise
    order (\<open>List_Lexorder\<close> over \<open>Char_ord\<close>).
  \<^item> \<open>TrimSpace\<close> recognises the UTF-8 encoding of every code point of \<open>unicode.IsSpace\<close>.
    \<open>ToLower\<close>, \<open>ToUpper\<close> and \<open>EqualFold\<close> act on the ASCII letters and leave every other byte
    alone: they are Go's functions on strings without non-ASCII letters.
  \<^item> \<open>sort.Slice\<close>, \<open>sort.SliceStable\<close> and \<open>sort.Strings\<close> are the stable \<open>sort_key\<close>.
  \<^item> \<open>encoding/json.Marshal\<close> is \<open>json_encode\<close> over a syntax tree of the encoded struct, and
    \<open>crypto/sha256\<close> with \<open>encoding/hex\<close> is the executable \<open>sha256_hex\<close>.
  \<^item> A \<open>time.Time\<close> is the instant in nanoseconds since Go's zero time, so \<open>IsZero\<close> is
    equality with 0 and \<open>UTC()\<close> is the identity; a \<open>time.Duration\<close> is its nanoseconds.
  \<^item> A \<open>uuid.UUID\<close> is its 128 bits, \<open>uuid.Nil\<close> is 0.
\<close>

unbundle bit_operations_syntax

named_theorems go_str \<open>unfolding rules of the string library\<close>
named_theorems go_res \<open>inversion rules of the result type\<close>

subsection \<open>Names of the model's basic types\<close>

type_synonym uuid = "128 word"
type_synonym gotime = int
type_synonym duration = int

abbreviation uuid_Nil :: uuid where
  "uuid_Nil \<equiv> 0"

abbreviation second :: duration where
  "second \<equiv> 1000000000"

abbreviation minute :: duration where
  "minute \<equiv> 60000000000"

abbreviation hour :: duration where
  "hour \<equiv> 3600000000000"

abbreviation isZero :: "gotime \<Rightarrow> bool" where
  "isZero t \<equiv> t = 0"

abbreviation MaxInt64 :: int where
  "MaxInt64 \<equiv> 9223372036854775807"

subsection \<open>Errors as values\<close>

definition bindE :: "'e + 'a \<Rightarrow> ('a \<Rightarrow> 'e + 'b) \<Rightarrow> 'e + 'b" where
  "bindE r k = (case r of Inl e \<Rightarrow> Inl e | Inr x \<Rightarrow> k x)"

definition isOk :: "'e + 'a \<Rightarrow> bool" where
  "isOk r = (case r of Inl _ \<Rightarrow> False | Inr _ \<Rightarrow> True)"

definition fromOption :: "'e \<Rightarrow> 'a option \<Rightarrow> 'e + 'a" where
  "fromOption e r = (case r of None \<Rightarrow> Inl e | Some x \<Rightarrow> Inr x)"

subsection \<open>Package strings\<close>

definition space_runes :: "string list" where
  "space_runes =
     [[CHR 0x09], [CHR 0x0A], [CHR 0x0B], [CHR 0x0C], [CHR 0x0D], [CHR 0x20],
      [CHR 0xC2, CHR 0x85], [CHR 0xC2, CHR 0xA0], [CHR 0xE1, CHR 0x9A, CHR 0x80],
      [CHR 0xE2, CHR 0x80, CHR 0x80], [CHR 0xE2, CHR 0x80, CHR 0x81],
      [CHR 0xE2, CHR 0x80, CHR 0x82], [CHR 0xE2, CHR 0x80, CHR 0x83],
      [CHR 0xE2, CHR 0x80, CHR 0x84], [CHR 0xE2, CHR 0x80, CHR 0x85],
      [CHR 0xE2, CHR 0x80, CHR 0x86], [CHR 0xE2, CHR 0x80, CHR 0x87],
      [CHR 0xE2, CHR 0x80, CHR 0x88], [CHR 0xE2, CHR 0x80, CHR 0x89],
      [CHR 0xE2, CHR 0x80, CHR 0x8A], [CHR 0xE2, CHR 0x80, CHR 0xA8],
      [CHR 0xE2, CHR 0x80, CHR 0xA9], [CHR 0xE2, CHR 0x80, CHR 0xAF],
      [CHR 0xE2, CHR 0x81, CHR 0x9F], [CHR 0xE3, CHR 0x80, CHR 0x80]]"

text \<open>The length of the pattern a string starts with, 0 when it starts with none.\<close>

definition lead :: "string list \<Rightarrow> string \<Rightarrow> nat" where
  "lead pats s =
     (case filter (\<lambda>p. p \<noteq> [] \<and> take (length p) s = p) pats of
        [] \<Rightarrow> 0
      | p # _ \<Rightarrow> length p)"

lemma lead_le: "lead pats s \<le> length s"
proof (cases "filter (\<lambda>p. p \<noteq> [] \<and> take (length p) s = p) pats")
  case Nil
  then show ?thesis by (simp add: lead_def)
next
  case (Cons p ps)
  then have "p \<in> set (filter (\<lambda>p. p \<noteq> [] \<and> take (length p) s = p) pats)" by simp
  then have "take (length p) s = p" by simp
  then have "length p \<le> length s" by (metis length_take min.cobounded1)
  with Cons show ?thesis by (simp add: lead_def)
qed

function drop_lead :: "string list \<Rightarrow> string \<Rightarrow> string" where
  "drop_lead pats s =
     (if lead pats s = 0 then s else drop_lead pats (drop (lead pats s) s))"
  by pat_completeness auto
termination
proof (relation "measure (\<lambda>(pats, s). length s)")
  fix pats :: "string list" and s :: string
  assume "lead pats s \<noteq> 0"
  with lead_le [of pats s] have "length (drop (lead pats s) s) < length s" by simp
  then show "((pats, drop (lead pats s) s), pats, s) \<in> measure (\<lambda>(pats, s). length s)"
    by simp
qed simp

declare drop_lead.simps [simp del]

definition TrimSpace :: "string \<Rightarrow> string" where
  "TrimSpace s = rev (drop_lead (map rev space_runes) (rev (drop_lead space_runes s)))"

definition lower_char :: "char \<Rightarrow> char" where
  "lower_char c =
     (if CHR ''A'' \<le> c \<and> c \<le> CHR ''Z'' then char_of (of_char c + 32 :: nat) else c)"

definition upper_char :: "char \<Rightarrow> char" where
  "upper_char c =
     (if CHR ''a'' \<le> c \<and> c \<le> CHR ''z'' then char_of (of_char c - 32 :: nat) else c)"

definition ToLower :: "string \<Rightarrow> string" where
  "ToLower s = map lower_char s"

definition ToUpper :: "string \<Rightarrow> string" where
  "ToUpper s = map upper_char s"

definition EqualFold :: "string \<Rightarrow> string \<Rightarrow> bool" where
  "EqualFold s t = (ToLower s = ToLower t)"

definition HasPrefix :: "string \<Rightarrow> string \<Rightarrow> bool" where
  "HasPrefix s p = (take (length p) s = p)"

definition HasSuffix :: "string \<Rightarrow> string \<Rightarrow> bool" where
  "HasSuffix s p = HasPrefix (rev s) (rev p)"

definition TrimPrefix :: "string \<Rightarrow> string \<Rightarrow> string" where
  "TrimPrefix s p = (if HasPrefix s p then drop (length p) s else s)"

definition TrimSuffix :: "string \<Rightarrow> string \<Rightarrow> string" where
  "TrimSuffix s p = (if HasSuffix s p then take (length s - length p) s else s)"

fun Contains :: "string \<Rightarrow> string \<Rightarrow> bool" where
  "Contains [] sub = (sub = [])"
| "Contains (c # cs) sub = (HasPrefix (c # cs) sub \<or> Contains cs sub)"

definition ContainsAny :: "string \<Rightarrow> string \<Rightarrow> bool" where
  "ContainsAny s chars = list_ex (\<lambda>c. c \<in> set chars) s"

text \<open>\<open>strings.Split\<close> at a one-byte separator.\<close>

fun Split :: "string \<Rightarrow> char \<Rightarrow> string list" where
  "Split [] sep = [[]]"
| "Split (c # cs) sep =
     (if c = sep then [] # Split cs sep
      else (case Split cs sep of [] \<Rightarrow> [[c]] | p # ps \<Rightarrow> (c # p) # ps))"

text \<open>A control character of the validators: \<open>character < 0x20 || character == 0x7f\<close>.\<close>

definition control_char :: "char \<Rightarrow> bool" where
  "control_char c = (c < CHR 0x20 \<or> c = CHR 0x7F)"

subsection \<open>Package regexp: the character classes of the anchored patterns\<close>

definition digit_char :: "char \<Rightarrow> bool" where
  "digit_char c = (CHR ''0'' \<le> c \<and> c \<le> CHR ''9'')"

definition lower_letter :: "char \<Rightarrow> bool" where
  "lower_letter c = (CHR ''a'' \<le> c \<and> c \<le> CHR ''z'')"

definition upper_letter :: "char \<Rightarrow> bool" where
  "upper_letter c = (CHR ''A'' \<le> c \<and> c \<le> CHR ''Z'')"

definition alnum_char :: "char \<Rightarrow> bool" where
  "alnum_char c = (digit_char c \<or> lower_letter c \<or> upper_letter c)"

text \<open>The pattern \<open>^[first][rest]{0,n}$\<close>.\<close>

definition head_tail_match ::
  "(char \<Rightarrow> bool) \<Rightarrow> (char \<Rightarrow> bool) \<Rightarrow> nat \<Rightarrow> string \<Rightarrow> bool" where
  "head_tail_match first rest n s =
     (case s of [] \<Rightarrow> False | c # cs \<Rightarrow> first c \<and> list_all rest cs \<and> length cs \<le> n)"

definition lower_hex_char :: "char \<Rightarrow> bool" where
  "lower_hex_char c = (digit_char c \<or> CHR ''a'' \<le> c \<and> c \<le> CHR ''f'')"

definition hex_char :: "char \<Rightarrow> bool" where
  "hex_char c = (lower_hex_char c \<or> CHR ''A'' \<le> c \<and> c \<le> CHR ''F'')"

text \<open>\<open>hex.DecodeString\<close> returns no error.\<close>

definition hex_decodable :: "string \<Rightarrow> bool" where
  "hex_decodable s = (even (length s) \<and> list_all hex_char s)"

text \<open>The pattern \<open>^[a-f0-9]{64}$\<close>.\<close>

definition digest_match :: "string \<Rightarrow> bool" where
  "digest_match s = (length s = 64 \<and> list_all lower_hex_char s)"

subsection \<open>Package fmt: decimal numbers\<close>

definition digit_of :: "nat \<Rightarrow> char" where
  "digit_of n = char_of (48 + n)"

fun show_nat :: "nat \<Rightarrow> string" where
  "show_nat n = (if n < 10 then [digit_of n] else show_nat (n div 10) @ [digit_of (n mod 10)])"

declare show_nat.simps [simp del]

definition show_int :: "int \<Rightarrow> string" where
  "show_int i = (if i < 0 then CHR ''-'' # show_nat (nat (- i)) else show_nat (nat i))"

text \<open>Zero-padded to a width, as \<open>%02d\<close> does for a non-negative number.\<close>

definition pad_int :: "nat \<Rightarrow> int \<Rightarrow> string" where
  "pad_int w i = (let s = show_int i in replicate (w - length s) CHR ''0'' @ s)"

subsection \<open>Package time: RFC 3339 text of an instant\<close>

text \<open>Year, month and day of a day number counted from 0001-01-01, proleptic Gregorian.\<close>

definition civil_of_days :: "int \<Rightarrow> int \<times> int \<times> int" where
  "civil_of_days d =
     (let z = d + 306;
          era = z div 146097;
          doe = z mod 146097;
          yoe = (doe - doe div 1460 + doe div 36524 - doe div 146096) div 365;
          doy = doe - (365 * yoe + yoe div 4 - yoe div 100);
          mp = (5 * doy + 2) div 153;
          dd = doy - (153 * mp + 2) div 5 + 1;
          mm = (if mp < 10 then mp + 3 else mp - 9);
          yy = yoe + era * 400 + (if mm \<le> 2 then 1 else 0)
      in (yy, mm, dd))"

fun trim_zeros :: "string \<Rightarrow> string" where
  "trim_zeros [] = []"
| "trim_zeros (c # cs) = (if c = CHR ''0'' then trim_zeros cs else c # cs)"

text \<open>
  \<open>Time.MarshalJSON\<close> of a UTC instant without its quotes: RFC 3339 with nanoseconds, trailing
  zeros of the fraction dropped; no text for a year outside 0 to 9999.
\<close>

definition rfc3339_nano :: "gotime \<Rightarrow> string option" where
  "rfc3339_nano t =
     (let secs = t div 1000000000; ns = t mod 1000000000;
          (y, m, d) = civil_of_days (secs div 86400);
          sod = secs mod 86400;
          frac = rev (trim_zeros (rev (pad_int 9 ns)))
      in if y < 0 \<or> y > 9999 then None
         else Some (pad_int 4 y @ ''-'' @ pad_int 2 m @ ''-'' @ pad_int 2 d @ ''T'' @
           pad_int 2 (sod div 3600) @ '':'' @ pad_int 2 (sod div 60 mod 60) @ '':'' @
           pad_int 2 (sod mod 60) @ (if ns = 0 then [] else ''.'' @ frac) @ ''Z''))"

subsection \<open>Package encoding/json\<close>

datatype json =
    JStr string
  | JInt int
  | JBool bool
  | JNull
  | JArr "json list"
  | JObj "(string \<times> json) list"

text \<open>Bytes of the well-formed UTF-8 sequence a string starts with, 0 when there is none.\<close>

definition cont_byte :: "char \<Rightarrow> bool" where
  "cont_byte c = (CHR 0x80 \<le> c \<and> c \<le> CHR 0xBF)"

fun utf8_width :: "string \<Rightarrow> nat" where
  "utf8_width [] = 0"
| "utf8_width (a # r) =
     (if a < CHR 0x80 then 1
      else case r of
        [] \<Rightarrow> 0
      | b # r2 \<Rightarrow>
          if CHR 0xC2 \<le> a \<and> a \<le> CHR 0xDF then (if cont_byte b then 2 else 0)
          else case r2 of
            [] \<Rightarrow> 0
          | c # r3 \<Rightarrow>
              if CHR 0xE0 \<le> a \<and> a \<le> CHR 0xEF then
                (if cont_byte b \<and> cont_byte c
                    \<and> (a = CHR 0xE0 \<longrightarrow> CHR 0xA0 \<le> b) \<and> (a = CHR 0xED \<longrightarrow> b \<le> CHR 0x9F)
                 then 3 else 0)
              else case r3 of
                [] \<Rightarrow> 0
              | d # _ \<Rightarrow>
                  if CHR 0xF0 \<le> a \<and> a \<le> CHR 0xF4 \<and> cont_byte b \<and> cont_byte c \<and> cont_byte d
                    \<and> (a = CHR 0xF0 \<longrightarrow> CHR 0x90 \<le> b) \<and> (a = CHR 0xF4 \<longrightarrow> b \<le> CHR 0x8F)
                  then 4 else 0)"

definition hex_digit :: "nat \<Rightarrow> char" where
  "hex_digit n = (if n < 10 then char_of (48 + n) else char_of (87 + n))"

definition json_escape :: "char \<Rightarrow> string" where
  "json_escape c =
     (let n = (of_char c :: nat)
      in if n = 34 then [CHR 0x5C, CHR 0x22]
         else if n = 92 then [CHR 0x5C, CHR 0x5C]
         else if n = 8 then CHR 0x5C # ''b''
         else if n = 12 then CHR 0x5C # ''f''
         else if n = 10 then CHR 0x5C # ''n''
         else if n = 13 then CHR 0x5C # ''r''
         else if n = 9 then CHR 0x5C # ''t''
         else if n < 32 \<or> n = 60 \<or> n = 62 \<or> n = 38
         then CHR 0x5C # ''u00'' @ [hex_digit (n div 16), hex_digit (n mod 16)]
         else [c])"

function json_chars :: "string \<Rightarrow> string" where
  "json_chars [] = []"
| "json_chars (c # cs) =
     (if c < CHR 0x80 then json_escape c @ json_chars cs
      else let w = utf8_width (c # cs)
        in if w = 0 then CHR 0x5C # ''ufffd'' @ json_chars cs
           else (let r = take w (c # cs)
             in (if r = [CHR 0xE2, CHR 0x80, CHR 0xA8] then CHR 0x5C # ''u2028''
                 else if r = [CHR 0xE2, CHR 0x80, CHR 0xA9] then CHR 0x5C # ''u2029''
                 else r) @ json_chars (drop (w - 1) cs)))"
  by pat_completeness auto
termination
  by (relation "measure length") auto

definition json_string :: "string \<Rightarrow> string" where
  "json_string s = [CHR 0x22] @ json_chars s @ [CHR 0x22]"

fun join_with :: "string \<Rightarrow> string list \<Rightarrow> string" where
  "join_with sep [] = []"
| "join_with sep [x] = x"
| "join_with sep (x # y # zs) = x @ sep @ join_with sep (y # zs)"

fun json_encode :: "json \<Rightarrow> string"
  and json_items :: "json list \<Rightarrow> string list"
  and json_fields :: "(string \<times> json) list \<Rightarrow> string list" where
  "json_encode (JStr s) = json_string s"
| "json_encode (JInt i) = show_int i"
| "json_encode (JBool b) = (if b then ''true'' else ''false'')"
| "json_encode JNull = ''null''"
| "json_encode (JArr xs) = ''['' @ join_with '','' (json_items xs) @ '']''"
| "json_encode (JObj fs) = ''{'' @ join_with '','' (json_fields fs) @ ''}''"
| "json_items [] = []"
| "json_items (x # xs) = json_encode x # json_items xs"
| "json_fields [] = []"
| "json_fields ((k, v) # fs) = (json_string k @ '':'' @ json_encode v) # json_fields fs"

text \<open>The \<open>omitempty\<close> option on a string field.\<close>

definition omit_empty :: "string \<Rightarrow> string \<Rightarrow> (string \<times> json) list" where
  "omit_empty k s = (if s = [] then [] else [(k, JStr s)])"

section \<open>Lemmas the components share\<close>

subsection \<open>Results\<close>

lemma bindE_simps [simp]:
  "bindE (Inl e) k = Inl e"
  "bindE (Inr x) k = k x"
  by (simp_all add: bindE_def)

lemma bindE_Inr_iff [go_res]:
  "bindE r k = Inr y \<longleftrightarrow> (\<exists>x. r = Inr x \<and> k x = Inr y)"
  by (cases r) auto

lemma bindE_Inl_iff [go_res]:
  "bindE r k = Inl e \<longleftrightarrow> r = Inl e \<or> (\<exists>x. r = Inr x \<and> k x = Inl e)"
  by (cases r) auto

lemma isOk_simps [simp]:
  "isOk (Inr x)"
  "\<not> isOk (Inl e)"
  by (simp_all add: isOk_def)

lemma isOk_iff [go_res]: "isOk r \<longleftrightarrow> (\<exists>x. r = Inr x)"
  by (cases r) auto

lemma fromOption_Inr_iff [go_res]: "fromOption e r = Inr x \<longleftrightarrow> r = Some x"
  by (cases r) (auto simp: fromOption_def)

lemma fromOption_Inl_iff [go_res]: "fromOption e r = Inl e' \<longleftrightarrow> r = None \<and> e' = e"
  by (cases r) (auto simp: fromOption_def)

lemma if_Inl_eq_Inr_iff [go_res]:
  "(if b then Inl e else r) = Inr x \<longleftrightarrow> \<not> b \<and> r = Inr x"
  by auto

lemma relabel_Inr: "(case x of Inl e \<Rightarrow> Inl (f e) | Inr a \<Rightarrow> g a) = Inr y \<longleftrightarrow> (\<exists>a. x = Inr a \<and> g a = Inr y)"
  by (cases x) simp_all

lemma found_Inr: "(case x of None \<Rightarrow> Inl e | Some a \<Rightarrow> g a) = Inr y \<longleftrightarrow> (\<exists>a. x = Some a \<and> g a = Inr y)"
  by (cases x) simp_all

text \<open>What a function that returns normally has passed through.\<close>

lemmas returns_Inr = if_Inl_eq_Inr_iff relabel_Inr found_Inr bindE_Inr_iff

subsection \<open>Trimming\<close>

lemma lead_eq_0_iff: "lead pats s = 0 \<longleftrightarrow> (\<forall>p \<in> set pats. p \<noteq> [] \<longrightarrow> take (length p) s \<noteq> p)"
proof (cases "filter (\<lambda>p. p \<noteq> [] \<and> take (length p) s = p) pats")
  case Nil
  then have "\<forall>p \<in> set pats. p \<noteq> [] \<longrightarrow> take (length p) s \<noteq> p"
    unfolding filter_empty_conv by blast
  with Nil show ?thesis by (simp add: lead_def)
next
  case (Cons p ps)
  then have "p \<in> set (filter (\<lambda>p. p \<noteq> [] \<and> take (length p) s = p) pats)" by simp
  then have p: "p \<in> set pats" "p \<noteq> []" "take (length p) s = p" by simp_all
  from Cons p(2) have "lead pats s \<noteq> 0" by (simp add: lead_def)
  with p show ?thesis by blast
qed

lemma drop_lead_lead: "lead pats (drop_lead pats s) = 0"
proof (induction pats s rule: drop_lead.induct)
  case (1 pats s)
  then show ?case by (cases "lead pats s = 0") (simp_all add: drop_lead.simps [of pats s])
qed

lemma drop_lead_id: "lead pats s = 0 \<Longrightarrow> drop_lead pats s = s"
  by (simp add: drop_lead.simps)

lemma drop_lead_suffix: "\<exists>n. drop_lead pats s = drop n s"
proof (induction pats s rule: drop_lead.induct)
  case (1 pats s)
  show ?case
  proof (cases "lead pats s = 0")
    case True
    then show ?thesis by (metis drop_0 drop_lead_id)
  next
    case False
    with "1" obtain n where "drop_lead pats (drop (lead pats s) s) = drop n (drop (lead pats s) s)"
      by blast
    with False have "drop_lead pats s = drop (n + lead pats s) s"
      by (simp add: drop_lead.simps [of pats s])
    then show ?thesis ..
  qed
qed

lemma lead_take_0: "lead pats s = 0 \<Longrightarrow> lead pats (take n s) = 0"
  unfolding lead_eq_0_iff by (metis length_take min.cobounded1 min.absorb1 take_take)

lemma TrimSpace_lead: "lead space_runes (TrimSpace s) = 0"
proof -
  let ?l = "drop_lead space_runes s"
  obtain n where "drop_lead (map rev space_runes) (rev ?l) = drop n (rev ?l)"
    using drop_lead_suffix by blast
  then have "TrimSpace s = take (length ?l - n) ?l"
    by (simp add: TrimSpace_def rev_drop)
  then show ?thesis by (simp add: lead_take_0 drop_lead_lead)
qed

lemma TrimSpace_trail: "lead (map rev space_runes) (rev (TrimSpace s)) = 0"
  by (simp add: TrimSpace_def drop_lead_lead)

lemma TrimSpace_idem [simp]: "TrimSpace (TrimSpace s) = TrimSpace s"
proof -
  have "drop_lead space_runes (TrimSpace s) = TrimSpace s"
    by (rule drop_lead_id [OF TrimSpace_lead])
  moreover have "drop_lead (map rev space_runes) (rev (TrimSpace s)) = rev (TrimSpace s)"
    by (rule drop_lead_id [OF TrimSpace_trail])
  ultimately show ?thesis by (simp add: TrimSpace_def [of "TrimSpace s"])
qed

text \<open>Visible ASCII characters are never trimmed.\<close>

definition graph_char :: "char \<Rightarrow> bool" where
  "graph_char c = (CHR 0x21 \<le> c \<and> c \<le> CHR 0x7E)"

lemma space_runes_not_graph:
  "p \<in> set space_runes \<Longrightarrow> p \<noteq> [] \<and> \<not> graph_char (hd p) \<and> \<not> graph_char (last p)"
  unfolding space_runes_def by (auto simp: graph_char_def less_eq_char_def)

lemma TrimSpace_graph:
  assumes "s \<noteq> [] \<longrightarrow> graph_char (hd s) \<and> graph_char (last s)"
  shows "TrimSpace s = s"
proof -
  have l: "lead space_runes s = 0"
  proof (unfold lead_eq_0_iff, intro ballI impI notI)
    fix p assume p: "p \<in> set space_runes" "p \<noteq> []" "take (length p) s = p"
    then have "s \<noteq> []" by auto
    with p have "hd p = hd s" by (metis hd_take length_greater_0_conv)
    with p assms \<open>s \<noteq> []\<close> show False using space_runes_not_graph by metis
  qed
  have r: "lead (map rev space_runes) (rev s) = 0"
  proof (unfold lead_eq_0_iff, intro ballI impI notI)
    fix q assume q: "q \<in> set (map rev space_runes)" "q \<noteq> []" "take (length q) (rev s) = q"
    then obtain p where p: "p \<in> set space_runes" "q = rev p" by auto
    from q have "s \<noteq> []" by auto
    with q have "hd q = hd (rev s)" by (metis hd_take length_greater_0_conv)
    with p q \<open>s \<noteq> []\<close> have "last p = last s" by (simp add: hd_rev)
    with p assms \<open>s \<noteq> []\<close> show False using space_runes_not_graph by metis
  qed
  show ?thesis by (simp add: TrimSpace_def drop_lead_id l r)
qed

lemma TrimSpace_all_graph: "list_all graph_char s \<Longrightarrow> TrimSpace s = s"
  by (rule TrimSpace_graph) (metis hd_in_set last_in_set list_all_iff)

subsection \<open>Letter case\<close>

lemma of_char_lower:
  "CHR ''A'' \<le> c \<Longrightarrow> c \<le> CHR ''Z'' \<Longrightarrow> of_char (lower_char c) = (of_char c + 32 :: nat)"
  by (simp add: lower_char_def less_eq_char_def)

lemma lower_char_idem [simp]: "lower_char (lower_char c) = lower_char c"
proof (cases "CHR ''A'' \<le> c \<and> c \<le> CHR ''Z''")
  case True
  then have "of_char (lower_char c) = (of_char c + 32 :: nat)" by (simp add: of_char_lower)
  with True have "\<not> lower_char c \<le> CHR ''Z''" by (simp add: less_eq_char_def)
  then show ?thesis by (simp add: lower_char_def [of "lower_char c"])
next
  case False
  then show ?thesis by (auto simp: lower_char_def)
qed

lemma ToLower_idem [simp]: "ToLower (ToLower s) = ToLower s"
  by (simp add: ToLower_def)

lemma length_ToLower [simp]: "length (ToLower s) = length s"
  by (simp add: ToLower_def)

lemma ToLower_Nil [simp]: "ToLower [] = []" "ToLower s = [] \<longleftrightarrow> s = []"
  by (simp_all add: ToLower_def)

lemma EqualFold_refl [simp]: "EqualFold s s"
  by (simp add: EqualFold_def)

lemma EqualFold_sym: "EqualFold s t \<Longrightarrow> EqualFold t s"
  by (simp add: EqualFold_def)

lemma EqualFold_trans: "EqualFold s t \<Longrightarrow> EqualFold t u \<Longrightarrow> EqualFold s u"
  by (simp add: EqualFold_def)

lemma lower_hex_char_lower [simp]: "lower_hex_char c \<Longrightarrow> lower_char c = c"
  by (auto simp: lower_hex_char_def digit_char_def lower_char_def less_eq_char_def)

lemma lower_hex_char_graph: "lower_hex_char c \<Longrightarrow> graph_char c"
  by (auto simp: lower_hex_char_def digit_char_def graph_char_def less_eq_char_def)

lemma digest_match_ToLower: "digest_match s \<Longrightarrow> ToLower s = s"
  unfolding digest_match_def ToLower_def list_all_iff by (simp add: map_idI)

lemma digest_match_TrimSpace: "digest_match s \<Longrightarrow> TrimSpace s = s"
  by (rule TrimSpace_all_graph) (auto simp: digest_match_def list_all_iff lower_hex_char_graph)

subsection \<open>Sorting by a key that tells the elements apart\<close>

lemma sort_key_perm_eq:
  assumes "mset xs = mset ys" and "inj_on f (set xs)"
  shows "sort_key f xs = sort_key f ys"
proof (rule sort_key_inj_key_eq)
  show "mset xs = mset (sort_key f ys)" using assms(1) by simp
  show "inj_on f (set xs)" by (rule assms(2))
  show "sorted (map f (sort_key f ys))" by simp
qed

lemma distinct_map_inj_on: "distinct (map f xs) \<Longrightarrow> inj_on f (set xs)"
  by (simp add: distinct_map)

subsection \<open>Association lists\<close>

lemma map_of_append_fresh:
  "k \<notin> fst ` set m \<Longrightarrow> map_of (m @ [(k, v)]) = (map_of m)(k \<mapsto> v)"
  by (force simp: fun_eq_iff map_add_def split: option.split dest: map_of_SomeD)

lemma map_of_isSome_iff: "(\<exists>v. map_of m k = Some v) \<longleftrightarrow> k \<in> fst ` set m"
  by (metis domIff dom_map_of_conv_image_fst not_None_eq)

subsection \<open>Searching rows\<close>

lemma find_append: "find P (xs @ ys) = (case find P xs of None \<Rightarrow> find P ys | Some x \<Rightarrow> Some x)"
  by (induction xs) auto

lemma find_mem: "find P xs = Some x \<Longrightarrow> x \<in> set xs \<and> P x"
  by (induction xs) (auto split: if_splits)

subsection \<open>Permuted lists\<close>

lemma permuted_set: "mset xs = mset ys \<Longrightarrow> set xs = set ys"
  by (metis set_mset_mset)

lemma permuted_map: "mset xs = mset ys \<Longrightarrow> mset (map f xs) = mset (map f ys)"
  by simp

lemma permuted_map_of:
  assumes "mset xs = mset ys" "distinct (map fst ys)"
  shows "map_of xs = map_of ys"
proof -
  have "distinct (map fst xs)"
    using mset_eq_imp_distinct_iff [OF permuted_map [OF assms(1), of fst]] assms(2) by blast
  with assms(2) permuted_set [OF assms(1)] show ?thesis by (simp add: map_of_inject_set)
qed

lemma permuted_concat:
  assumes "mset xs = mset ys"
  shows "mset (concat (map f xs)) = mset (concat (map f ys))"
proof -
  have "mset (concat (map f zs)) = sum_mset (image_mset (mset \<circ> f) (mset zs))" for zs
    by (induction zs) simp_all
  with assms show ?thesis by simp
qed

lemma distinct_submset:
  assumes "mset xs \<subseteq># mset ys" "distinct ys"
  shows "distinct xs"
proof -
  obtain C where "mset ys = mset xs + C" using assms(1) by (metis subset_mset.le_iff_add)
  moreover obtain zs where "mset zs = C" using ex_mset by blast
  ultimately have "mset (xs @ zs) = mset ys" by simp
  from mset_eq_imp_distinct_iff [OF this] assms(2) show ?thesis by simp
qed

subsection \<open>A supply of identities\<close>

lemma uuid_supply_inj: "inj_on (of_nat :: nat \<Rightarrow> uuid) {..<1000000}"
proof (rule inj_on_inverseI [where g = unat])
  fix n :: nat assume "n \<in> {..<1000000}"
  then have "n < 2 ^ 128" by simp
  then show "unat (of_nat n :: uuid) = n" by (simp add: unat_of_nat)
qed

end
