(* ===== verification/StepSystem.thy ===== *)
theory StepSystem
  imports Main
begin

text \<open>
  Interfaces every stateful component of the development offers to its clients: a step
  relation with a property its steps keep (\<open>invariant_system\<close>), and a step relation whose
  steps only move forward in a preorder (\<open>forward_system\<close>). Each component interprets them
  with its own step relation, in its own theory; the lemmas below then lift its one-step
  lemma to every finite run.
\<close>

locale invariant_system =
  fixes step :: "'s \<Rightarrow> 's \<Rightarrow> bool"
    and inv :: "'s \<Rightarrow> bool"
  assumes inv_step: "step s t \<Longrightarrow> inv s \<Longrightarrow> inv t"
begin

lemma inv_run: "step\<^sup>*\<^sup>* s t \<Longrightarrow> inv s \<Longrightarrow> inv t"
  by (induction rule: rtranclp_induct) (auto dest: inv_step)

end

locale forward_system =
  fixes step :: "'s \<Rightarrow> 's \<Rightarrow> bool"
    and inv :: "'s \<Rightarrow> bool"
    and before :: "'s \<Rightarrow> 's \<Rightarrow> bool"
  assumes inv_fstep: "step s t \<Longrightarrow> inv s \<Longrightarrow> inv t"
    and before_refl: "before s s"
    and before_trans: "before s t \<Longrightarrow> before t u \<Longrightarrow> before s u"
    and before_step: "step s t \<Longrightarrow> inv s \<Longrightarrow> before s t"
begin

lemma before_run_inv: "step\<^sup>*\<^sup>* s t \<Longrightarrow> inv s \<Longrightarrow> before s t \<and> inv t"
  by (induction rule: rtranclp_induct)
    (auto intro: before_refl before_trans before_step inv_fstep)

lemma before_run: "step\<^sup>*\<^sup>* s t \<Longrightarrow> inv s \<Longrightarrow> before s t"
  by (simp add: before_run_inv)

end

text \<open>A forward system keeps its invariant on every run.\<close>

sublocale forward_system \<subseteq> fwd: invariant_system step inv
  by unfold_locales (rule inv_fstep)

end
