(* ===== verification/DeliveryWorkflow.thy ===== *)
theory DeliveryWorkflow
  imports GoStd StepSystem "HOL-Library.Sublist"
begin

text \<open>
  The human-gated lifecycle of a delivery work item: services/deliveryworkflow/workflow.go with
  the rows it reads and writes, \<open>DeliveryWorkItem\<close> and \<open>DeliveryGate\<close> of
  models/DeliveryWorkflow.go (the columns the workflow touches; it leaves every other column
  alone). \<open>Advance\<close> returns the updated item and gate or the error; on an error neither row
  changes. The step relation \<open>wf_step\<close> is one successful call, with the gate it recorded
  appended to a log, so that the order of approvals along a history can be stated.
\<close>

subsection \<open>Rows\<close>

record work_item =
  wi_ID :: uuid
  wi_State :: string

record delivery_gate =
  g_ID :: uuid
  g_WorkItemID :: uuid
  g_Kind :: string
  g_Decision :: string
  g_Authority :: string
  g_DecidedBy :: string
  g_DecidedAt :: gotime

subsection \<open>States, gates, decisions and actions\<close>

definition StatePlanning :: string where "StatePlanning = ''planning''"
definition StatePlanReview :: string where "StatePlanReview = ''plan_review''"
definition StateImplementation :: string where "StateImplementation = ''implementation''"
definition StateCodeReview :: string where "StateCodeReview = ''code_review''"
definition StatePreviewPending :: string where "StatePreviewPending = ''preview_pending''"
definition StateQARunning :: string where "StateQARunning = ''qa_running''"
definition StateQAReview :: string where "StateQAReview = ''qa_review''"
definition StateReleaseReview :: string where "StateReleaseReview = ''release_review''"
definition StateReleased :: string where "StateReleased = ''released''"
definition StateAssessed :: string where "StateAssessed = ''assessed''"
definition StateBlocked :: string where "StateBlocked = ''blocked''"
definition StateCancelled :: string where "StateCancelled = ''cancelled''"

definition GatePlan :: string where "GatePlan = ''plan''"
definition GateCodeReview :: string where "GateCodeReview = ''code_review''"
definition GateQAReview :: string where "GateQAReview = ''qa_review''"
definition GateRelease :: string where "GateRelease = ''release''"

definition DecisionApproved :: string where "DecisionApproved = ''approved''"
definition DecisionChangesRequested :: string where "DecisionChangesRequested = ''changes_requested''"

definition ActionSubmitPlan :: string where "ActionSubmitPlan = ''submit_plan''"
definition ActionApprovePlan :: string where "ActionApprovePlan = ''approve_plan''"
definition ActionRequestPlanChanges :: string where "ActionRequestPlanChanges = ''request_plan_changes''"
definition ActionSubmitCodeReview :: string where "ActionSubmitCodeReview = ''submit_code_review''"
definition ActionApproveCodeReview :: string where "ActionApproveCodeReview = ''approve_code_review''"
definition ActionRequestCodeChanges :: string where "ActionRequestCodeChanges = ''request_code_changes''"
definition ActionPreviewReady :: string where "ActionPreviewReady = ''preview_ready''"
definition ActionSubmitQA :: string where "ActionSubmitQA = ''submit_qa''"
definition ActionApproveQA :: string where "ActionApproveQA = ''approve_qa''"
definition ActionRequestQAChanges :: string where "ActionRequestQAChanges = ''request_qa_changes''"
definition ActionApproveRelease :: string where "ActionApproveRelease = ''approve_release''"
definition ActionSubmitAssessment :: string where "ActionSubmitAssessment = ''submit_assessment''"
definition ActionBlock :: string where "ActionBlock = ''block''"
definition ActionCancel :: string where "ActionCancel = ''cancel''"

lemmas workflow_names =
  StatePlanning_def StatePlanReview_def StateImplementation_def StateCodeReview_def
  StatePreviewPending_def StateQARunning_def StateQAReview_def StateReleaseReview_def
  StateReleased_def StateAssessed_def StateBlocked_def StateCancelled_def
  GatePlan_def GateCodeReview_def GateQAReview_def GateRelease_def
  DecisionApproved_def DecisionChangesRequested_def
  ActionSubmitPlan_def ActionApprovePlan_def ActionRequestPlanChanges_def
  ActionSubmitCodeReview_def ActionApproveCodeReview_def ActionRequestCodeChanges_def
  ActionPreviewReady_def ActionSubmitQA_def ActionApproveQA_def ActionRequestQAChanges_def
  ActionApproveRelease_def ActionSubmitAssessment_def ActionBlock_def ActionCancel_def

subsection \<open>The transition table\<close>

record transition =
  tr_from :: string
  tr_to :: string
  tr_gateKind :: string
  tr_decision :: string

abbreviation plain_rule :: "string \<Rightarrow> string \<Rightarrow> transition" where
  "plain_rule f t \<equiv> \<lparr>tr_from = f, tr_to = t, tr_gateKind = [], tr_decision = []\<rparr>"

abbreviation gate_rule :: "string \<Rightarrow> string \<Rightarrow> string \<Rightarrow> string \<Rightarrow> transition" where
  "gate_rule f t k d \<equiv> \<lparr>tr_from = f, tr_to = t, tr_gateKind = k, tr_decision = d\<rparr>"

definition transitions :: "(string \<times> transition) list" where
  "transitions =
     [(ActionSubmitPlan, plain_rule StatePlanning StatePlanReview),
      (ActionApprovePlan, gate_rule StatePlanReview StateImplementation GatePlan DecisionApproved),
      (ActionRequestPlanChanges, gate_rule StatePlanReview StatePlanning GatePlan DecisionChangesRequested),
      (ActionSubmitCodeReview, plain_rule StateImplementation StateCodeReview),
      (ActionApproveCodeReview, gate_rule StateCodeReview StatePreviewPending GateCodeReview DecisionApproved),
      (ActionRequestCodeChanges, gate_rule StateCodeReview StateImplementation GateCodeReview DecisionChangesRequested),
      (ActionPreviewReady, plain_rule StatePreviewPending StateQARunning),
      (ActionSubmitQA, plain_rule StateQARunning StateQAReview),
      (ActionApproveQA, gate_rule StateQAReview StateReleaseReview GateQAReview DecisionApproved),
      (ActionRequestQAChanges, gate_rule StateQAReview StateImplementation GateQAReview DecisionChangesRequested),
      (ActionApproveRelease, gate_rule StateReleaseReview StateReleased GateRelease DecisionApproved),
      (ActionSubmitAssessment, plain_rule StateImplementation StateAssessed)]"

subsection \<open>Operations\<close>

datatype advance_error =
    ItemRequired
  | BlockTerminal string
  | CancelTerminal string
  | UnsupportedAction string
  | NotAllowedFrom string string
  | GateNotAccepted
  | GateRequired string
  | GateForeign
  | GateMismatch string string
  | DeciderRequired
  | AuthorityInvalid

definition isTerminal :: "string \<Rightarrow> bool" where
  "isTerminal state = (state = StateReleased \<or> state = StateAssessed \<or> state = StateCancelled)"

text \<open>The gate as the function leaves it: defaulted authority, decision time filled in.\<close>

definition validateGate ::
  "work_item \<Rightarrow> delivery_gate option \<Rightarrow> transition \<Rightarrow> gotime \<Rightarrow> advance_error + delivery_gate option" where
  "validateGate item gate rule now =
     (if tr_gateKind rule = [] then
        (if gate \<noteq> None then Inl GateNotAccepted else Inr None)
      else case gate of
        None \<Rightarrow> Inl (GateRequired (tr_gateKind rule))
      | Some g \<Rightarrow>
          if g_WorkItemID g \<noteq> wi_ID item then Inl GateForeign
          else if TrimSpace (g_Kind g) \<noteq> tr_gateKind rule \<or> TrimSpace (g_Decision g) \<noteq> tr_decision rule
          then Inl (GateMismatch (tr_gateKind rule) (tr_decision rule))
          else if TrimSpace (g_DecidedBy g) = [] then Inl DeciderRequired
          else let blank = (ToLower (TrimSpace (g_Authority g)) = []);
                   authority = (if blank then ''human'' else ToLower (TrimSpace (g_Authority g)));
                   g1 = (if blank then g\<lparr>g_Authority := ''human''\<rparr> else g)
            in if authority \<noteq> ''human'' \<and> authority \<noteq> ''delegated'' then Inl AuthorityInvalid
               else Inr (Some (if isZero (g_DecidedAt g1) then g1\<lparr>g_DecidedAt := now\<rparr> else g1)))"

definition Advance ::
  "work_item option \<Rightarrow> string \<Rightarrow> delivery_gate option \<Rightarrow> gotime
     \<Rightarrow> advance_error + work_item \<times> delivery_gate option" where
  "Advance itemp action gate now =
     (case itemp of
        None \<Rightarrow> Inl ItemRequired
      | Some item \<Rightarrow>
          let trimmed = TrimSpace (wi_State item);
              state = (if trimmed = [] then StatePlanning else trimmed)
          in if action = ActionBlock then
               (if isTerminal state then Inl (BlockTerminal state)
                else Inr (item\<lparr>wi_State := StateBlocked\<rparr>, gate))
             else if action = ActionCancel then
               (if isTerminal state then Inl (CancelTerminal state)
                else Inr (item\<lparr>wi_State := StateCancelled\<rparr>, gate))
             else case map_of transitions action of
                 None \<Rightarrow> Inl (UnsupportedAction action)
               | Some rule \<Rightarrow>
                   if state \<noteq> tr_from rule then Inl (NotAllowedFrom action state)
                   else bindE (validateGate item gate rule now)
                     (\<lambda>gate'. Inr (item\<lparr>wi_State := tr_to rule\<rparr>, gate')))"

subsection \<open>Histories\<close>

text \<open>The state an item is in for the workflow: its trimmed column, planning when blank.\<close>

definition wf_state :: "work_item \<Rightarrow> string" where
  "wf_state item = (if TrimSpace (wi_State item) = [] then StatePlanning else TrimSpace (wi_State item))"

text \<open>A gate decision that a transition recorded.\<close>

definition recorded :: "string \<Rightarrow> delivery_gate option \<Rightarrow> delivery_gate list" where
  "recorded action gate =
     (case map_of transitions action of
        None \<Rightarrow> []
      | Some _ \<Rightarrow> (case gate of None \<Rightarrow> [] | Some g \<Rightarrow> [g]))"

text \<open>An item with the log of the gate decisions taken so far, and one successful call.\<close>

type_synonym wf_history = "work_item \<times> delivery_gate list"

inductive wf_step :: "wf_history \<Rightarrow> wf_history \<Rightarrow> bool" where
  wf_advance: "Advance (Some item) action gate now = Inr (item', gate')
    \<Longrightarrow> wf_step (item, log) (item', log @ recorded action gate')"

inductive_cases wf_stepE: "wf_step h h'"

text \<open>The gate kinds, in order, that must have been approved before a state is reached.\<close>

definition required_gates :: "string \<Rightarrow> string list" where
  "required_gates st =
     (if st = StateImplementation \<or> st = StateCodeReview \<or> st = StateAssessed then [GatePlan]
      else if st = StatePreviewPending \<or> st = StateQARunning \<or> st = StateQAReview
      then [GatePlan, GateCodeReview]
      else if st = StateReleaseReview then [GatePlan, GateCodeReview, GateQAReview]
      else if st = StateReleased then [GatePlan, GateCodeReview, GateQAReview, GateRelease]
      else [])"

definition approved_kinds :: "delivery_gate list \<Rightarrow> string list" where
  "approved_kinds log =
     map (\<lambda>g. TrimSpace (g_Kind g)) (filter (\<lambda>g. TrimSpace (g_Decision g) = DecisionApproved) log)"

text \<open>A gate a transition may rest on: of this item, decided by someone with an authority.\<close>

definition sound_gate :: "uuid \<Rightarrow> delivery_gate \<Rightarrow> bool" where
  "sound_gate wid g =
     (g_WorkItemID g = wid \<and> TrimSpace (g_DecidedBy g) \<noteq> []
      \<and> ToLower (TrimSpace (g_Authority g)) \<in> {''human'', ''delegated''}
      \<and> TrimSpace (g_Kind g) \<in> {GatePlan, GateCodeReview, GateQAReview, GateRelease}
      \<and> TrimSpace (g_Decision g) \<in> {DecisionApproved, DecisionChangesRequested})"

definition wf_inv :: "wf_history \<Rightarrow> bool" where
  "wf_inv h =
     (subseq (required_gates (wf_state (fst h))) (approved_kinds (snd h))
      \<and> (\<forall>g \<in> set (snd h). sound_gate (wi_ID (fst h)) g))"

section \<open>Lemmas\<close>

lemma workflow_names_trim [simp]:
  "TrimSpace StatePlanning = StatePlanning" "TrimSpace StatePlanReview = StatePlanReview"
  "TrimSpace StateImplementation = StateImplementation" "TrimSpace StateCodeReview = StateCodeReview"
  "TrimSpace StatePreviewPending = StatePreviewPending" "TrimSpace StateQARunning = StateQARunning"
  "TrimSpace StateQAReview = StateQAReview" "TrimSpace StateReleaseReview = StateReleaseReview"
  "TrimSpace StateReleased = StateReleased" "TrimSpace StateAssessed = StateAssessed"
  "TrimSpace StateBlocked = StateBlocked" "TrimSpace StateCancelled = StateCancelled"
  by (simp_all add: TrimSpace_all_graph graph_char_def less_eq_char_def workflow_names)

lemma transitions_cases:
  assumes "map_of transitions action = Some rule"
  shows "(action, rule) \<in> set transitions"
  using assms by (rule map_of_SomeD)

text \<open>Facts of every row of the table, checked row by row.\<close>

definition rule_ok :: "string \<times> transition \<Rightarrow> bool" where
  "rule_ok ar =
     (let r = snd ar
      in tr_to r \<noteq> [] \<and> list_all graph_char (tr_to r)
        \<and> \<not> isTerminal (tr_from r) \<and> tr_from r \<noteq> StateBlocked
        \<and> (if tr_gateKind r = [] then required_gates (tr_to r) = required_gates (tr_from r)
           else List.member [GatePlan, GateCodeReview, GateQAReview, GateRelease] (tr_gateKind r)
             \<and> (if tr_decision r = DecisionApproved
                then required_gates (tr_to r) = required_gates (tr_from r) @ [tr_gateKind r]
                else tr_decision r = DecisionChangesRequested
                  \<and> prefix (required_gates (tr_to r)) (required_gates (tr_from r)))))"

lemma rule_okD:
  assumes "(action, rule) \<in> set transitions"
  shows "rule_ok (action, rule)"
proof -
  have "list_all rule_ok transitions" by code_simp
  with assms show ?thesis by (simp add: list_all_iff)
qed

text \<open>Each rule ends in a trimmed, non-blank state, and starts in one that is still open.\<close>

lemma rule_target:
  assumes "(action, rule) \<in> set transitions"
  shows "tr_to rule \<noteq> []" "TrimSpace (tr_to rule) = tr_to rule" "\<not> isTerminal (tr_from rule)"
    and "tr_from rule \<noteq> StateBlocked"
  using rule_okD [OF assms] unfolding rule_ok_def Let_def snd_conv
  by (simp_all add: TrimSpace_all_graph)

lemma rule_gate:
  assumes "(action, rule) \<in> set transitions" "tr_gateKind rule \<noteq> []"
  shows "tr_gateKind rule \<in> {GatePlan, GateCodeReview, GateQAReview, GateRelease}"
    and "tr_decision rule \<in> {DecisionApproved, DecisionChangesRequested}"
  using rule_okD [OF assms(1)] assms(2) unfolding rule_ok_def Let_def snd_conv
  by (auto split: if_splits)

text \<open>
  How a rule changes the approvals its target presupposes: an ungated rule keeps them, a
  rejection drops some at the end, an approval adds its own kind at the end.
\<close>

lemma rule_required:
  assumes "(action, rule) \<in> set transitions"
  shows "tr_gateKind rule = [] \<Longrightarrow> required_gates (tr_to rule) = required_gates (tr_from rule)"
    and "tr_gateKind rule \<noteq> [] \<Longrightarrow> tr_decision rule = DecisionApproved \<Longrightarrow>
      required_gates (tr_to rule) = required_gates (tr_from rule) @ [tr_gateKind rule]"
    and "tr_gateKind rule \<noteq> [] \<Longrightarrow> tr_decision rule \<noteq> DecisionApproved \<Longrightarrow>
      prefix (required_gates (tr_to rule)) (required_gates (tr_from rule))"
  using rule_okD [OF assms] unfolding rule_ok_def Let_def snd_conv
  by simp_all

lemma wf_state_update [simp]: "TrimSpace st = st \<Longrightarrow> st \<noteq> [] \<Longrightarrow> wf_state (item\<lparr>wi_State := st\<rparr>) = st"
  by (simp add: wf_state_def)


lemma validateGate_Inr:
  "validateGate item gate rule now = Inr gate' \<longleftrightarrow>
     (tr_gateKind rule = [] \<and> gate = None \<and> gate' = None)
   \<or> (tr_gateKind rule \<noteq> [] \<and> (\<exists>g. gate = Some g \<and> g_WorkItemID g = wi_ID item
        \<and> TrimSpace (g_Kind g) = tr_gateKind rule \<and> TrimSpace (g_Decision g) = tr_decision rule
        \<and> TrimSpace (g_DecidedBy g) \<noteq> []
        \<and> ToLower (TrimSpace (g_Authority g)) \<in> {[], ''human'', ''delegated''}
        \<and> gate' = Some (g\<lparr>g_Authority := (if ToLower (TrimSpace (g_Authority g)) = [] then ''human'' else g_Authority g),
                         g_DecidedAt := (if isZero (g_DecidedAt g) then now else g_DecidedAt g)\<rparr>)))"
proof (cases gate)
  case None
  then show ?thesis by (simp add: validateGate_def) blast
next
  case (Some g)
  show ?thesis
    unfolding validateGate_def Some option.case Let_def
    by (cases "TrimSpace (g_Authority g) = []"; cases "g_DecidedAt g = 0"; cases "tr_gateKind rule = []")
      (auto split: if_splits)
qed

lemma Advance_Inr:
  "Advance (Some item) action gate now = Inr (item', gate') \<longleftrightarrow>
     (action = ActionBlock \<and> \<not> isTerminal (wf_state item)
        \<and> item' = item\<lparr>wi_State := StateBlocked\<rparr> \<and> gate' = gate)
   \<or> (action = ActionCancel \<and> \<not> isTerminal (wf_state item)
        \<and> item' = item\<lparr>wi_State := StateCancelled\<rparr> \<and> gate' = gate)
   \<or> (action \<noteq> ActionBlock \<and> action \<noteq> ActionCancel \<and> (\<exists>rule. map_of transitions action = Some rule
        \<and> wf_state item = tr_from rule \<and> validateGate item gate rule now = Inr gate'
        \<and> item' = item\<lparr>wi_State := tr_to rule\<rparr>))"
proof -
  have ne: "ActionBlock \<noteq> ActionCancel" by (simp add: workflow_names)
  have eq: "Advance (Some item) action gate now =
     (if action = ActionBlock then
        (if isTerminal (wf_state item) then Inl (BlockTerminal (wf_state item))
         else Inr (item\<lparr>wi_State := StateBlocked\<rparr>, gate))
      else if action = ActionCancel then
        (if isTerminal (wf_state item) then Inl (CancelTerminal (wf_state item))
         else Inr (item\<lparr>wi_State := StateCancelled\<rparr>, gate))
      else case map_of transitions action of
          None \<Rightarrow> Inl (UnsupportedAction action)
        | Some rule \<Rightarrow>
            if wf_state item \<noteq> tr_from rule then Inl (NotAllowedFrom action (wf_state item))
            else bindE (validateGate item gate rule now)
              (\<lambda>gate'. Inr (item\<lparr>wi_State := tr_to rule\<rparr>, gate')))"
    unfolding Advance_def wf_state_def [symmetric] by (simp only: option.case Let_def wf_state_def)
  show ?thesis
    unfolding eq using ne
    by (cases "action = ActionBlock"; cases "action = ActionCancel"; cases "map_of transitions action")
      (auto simp: bindE_Inr_iff)
qed

lemma free_action_recorded [simp]:
  "recorded ActionBlock g = []" "recorded ActionCancel g = []"
  by (simp_all add: recorded_def transitions_def workflow_names)

lemma approved_kinds_append [simp]:
  "approved_kinds (xs @ ys) = approved_kinds xs @ approved_kinds ys"
  by (simp add: approved_kinds_def)

lemma required_free [simp]:
  "required_gates StateBlocked = []" "required_gates StateCancelled = []"
  "required_gates StatePlanning = []"
  by (simp_all add: required_gates_def workflow_names)

lemma human_trim [simp]: "TrimSpace ''human'' = ''human''"
  by (simp add: TrimSpace_all_graph graph_char_def less_eq_char_def)

lemma human_lower [simp]: "ToLower ''human'' = ''human''"
  by code_simp

text \<open>The gate a rule records is sound and carries the rule's kind and decision.\<close>

lemma rule_step_gate:
  assumes "map_of transitions action = Some rule" "tr_gateKind rule \<noteq> []"
    and "validateGate item gate rule now = Inr gate'"
  obtains g where "gate' = Some g" "recorded action gate' = [g]" "sound_gate (wi_ID item) g"
    "TrimSpace (g_Kind g) = tr_gateKind rule" "TrimSpace (g_Decision g) = tr_decision rule"
proof -
  from assms(3) obtain g0 where "gate = Some g0" and g0: "g_WorkItemID g0 = wi_ID item"
    "TrimSpace (g_Kind g0) = tr_gateKind rule" "TrimSpace (g_Decision g0) = tr_decision rule"
    "TrimSpace (g_DecidedBy g0) \<noteq> []"
    and a: "ToLower (TrimSpace (g_Authority g0)) \<in> {[], ''human'', ''delegated''}"
    and gate': "gate' = Some (g0\<lparr>g_Authority := (if ToLower (TrimSpace (g_Authority g0)) = []
        then ''human'' else g_Authority g0),
        g_DecidedAt := (if isZero (g_DecidedAt g0) then now else g_DecidedAt g0)\<rparr>)"
    using assms(2) by (auto simp: validateGate_Inr)
  from assms(1) have mem: "(action, rule) \<in> set transitions" by (rule transitions_cases)
  from rule_gate [OF mem assms(2)] g0 a have "sound_gate (wi_ID item) (the gate')"
    by (auto simp: gate' sound_gate_def)
  with g0 show thesis
    by (intro that [of "the gate'"]) (simp_all add: gate' recorded_def assms(1))
qed

lemma Advance_keeps_ID: "Advance (Some item) action gate now = Inr (item', gate') \<Longrightarrow> wi_ID item' = wi_ID item"
  by (auto simp: Advance_Inr)

lemma wf_inv_free:
  assumes "wf_inv (item, log)" "st = StateBlocked \<or> st = StateCancelled"
  shows "wf_inv (item\<lparr>wi_State := st\<rparr>, log)"
proof -
  have "StateBlocked \<noteq> []" "StateCancelled \<noteq> []" by (simp_all add: workflow_names)
  with assms(2) have "required_gates (wf_state (item\<lparr>wi_State := st\<rparr>)) = []" by auto
  with assms(1) show ?thesis by (simp add: wf_inv_def)
qed

lemma subseq_approved_more:
  "subseq ks (approved_kinds log) \<Longrightarrow> subseq ks (approved_kinds (log @ gs))"
  by (simp add: subseq_rev_drop_many)

lemma wf_inv_rule:
  assumes inv: "wf_inv (item, log)" and r: "map_of transitions action = Some r"
    and frm: "wf_state item = tr_from r" and gate: "validateGate item gate r now = Inr gate'"
  shows "wf_inv (item\<lparr>wi_State := tr_to r\<rparr>, log @ recorded action gate')"
proof -
  from r have mem: "(action, r) \<in> set transitions" by (rule transitions_cases)
  have st: "wf_state (item\<lparr>wi_State := tr_to r\<rparr>) = tr_to r"
    using rule_target [OF mem] by simp
  from inv frm have old: "subseq (required_gates (tr_from r)) (approved_kinds log)"
    "\<forall>g \<in> set log. sound_gate (wi_ID item) g" by (simp_all add: wf_inv_def)
  show ?thesis
  proof (cases "tr_gateKind r = []")
    case True
    with gate have "recorded action gate' = []"
      by (simp add: validateGate_Inr recorded_def split: option.split)
    with old st rule_required(1) [OF mem True] show ?thesis by (simp add: wf_inv_def)
  next
    case False
    obtain g where g: "recorded action gate' = [g]" "sound_gate (wi_ID item) g"
      "TrimSpace (g_Kind g) = tr_gateKind r" "TrimSpace (g_Decision g) = tr_decision r"
      using rule_step_gate [OF r False gate] by metis
    have "subseq (required_gates (tr_to r)) (approved_kinds (log @ [g]))"
    proof (cases "tr_decision r = DecisionApproved")
      case True
      with g have "approved_kinds [g] = [tr_gateKind r]" by (simp add: approved_kinds_def)
      with old(1) rule_required(2) [OF mem False True] show ?thesis
        by (simp add: list_emb_append_mono)
    next
      case napp: False
      then have "subseq (required_gates (tr_to r)) (required_gates (tr_from r))"
        using rule_required(3) [OF mem False] by (blast intro: prefix_imp_subseq)
      with old(1) have "subseq (required_gates (tr_to r)) (approved_kinds log)"
        by (rule subseq_order.order_trans [rotated])
      then show ?thesis by (rule subseq_approved_more)
    qed
    with old(2) g(1,2) st show ?thesis by (simp add: wf_inv_def)
  qed
qed

lemma wf_inv_step: "wf_step h h' \<Longrightarrow> wf_inv h \<Longrightarrow> wf_inv h'"
  by (elim wf_stepE) (auto simp: Advance_Inr wf_inv_free wf_inv_rule)

interpretation wf: invariant_system wf_step wf_inv
  by unfold_locales (rule wf_inv_step)

text \<open>Blocked work can only be blocked again or cancelled; terminal work does not move at all.\<close>

definition wf_stuck :: "wf_history \<Rightarrow> bool" where
  "wf_stuck h = (wf_state (fst h) \<in> {StateBlocked, StateCancelled})"

lemma wf_stuck_step: "wf_step h h' \<Longrightarrow> wf_stuck h \<Longrightarrow> wf_stuck h'"
proof (elim wf_stepE)
  fix item action gate now item' gate' log
  assume h: "h = (item, log)" "h' = (item', log @ recorded action gate')"
    and adv: "Advance (Some item) action gate now = Inr (item', gate')" and stuck: "wf_stuck h"
  have ne: "StateBlocked \<noteq> []" "StateCancelled \<noteq> []" by (simp_all add: workflow_names)
  have "\<not> (map_of transitions action = Some r \<and> wf_state item = tr_from r)" for r
    using stuck rule_target(3,4) [OF transitions_cases, of action r] h
    by (auto simp: wf_stuck_def isTerminal_def)
  with adv h ne show "wf_stuck h'" by (auto simp: Advance_Inr wf_stuck_def)
qed

interpretation stuck: invariant_system wf_step wf_stuck
  by unfold_locales (rule wf_stuck_step)

lemma Advance_terminal:
  assumes "isTerminal (wf_state item)"
  shows "\<exists>e. Advance (Some item) action gate now = Inl e"
proof (rule ccontr)
  assume "\<not> ?thesis"
  then obtain item' gate' where "Advance (Some item) action gate now = Inr (item', gate')"
    by (metis obj_sumE surj_pair)
  with assms show False
    using rule_target(3) [OF transitions_cases] by (fastforce simp: Advance_Inr)
qed

text \<open>Running a list of calls, each with its gate and clock; None at the first error.\<close>

fun wf_run :: "wf_history \<Rightarrow> (string \<times> delivery_gate option \<times> gotime) list \<Rightarrow> wf_history option" where
  "wf_run h [] = Some h"
| "wf_run (item, log) ((action, gate, now) # cs) =
     (case Advance (Some item) action gate now of
        Inl _ \<Rightarrow> None
      | Inr (item', gate') \<Rightarrow> wf_run (item', log @ recorded action gate') cs)"

lemma wf_run_steps: "wf_run h cs = Some h' \<Longrightarrow> wf_step\<^sup>*\<^sup>* h h'"
proof (induction h cs rule: wf_run.induct)
  case (2 item log action gate now cs)
  then obtain item' gate' where adv: "Advance (Some item) action gate now = Inr (item', gate')"
    by (auto split: sum.splits)
  with 2 have "wf_step\<^sup>*\<^sup>* (item', log @ recorded action gate') h'" by simp
  moreover from adv have "wf_step (item, log) (item', log @ recorded action gate')"
    by (rule wf_advance)
  ultimately show ?case by (rule converse_rtranclp_into_rtranclp [rotated])
qed simp

section \<open>Properties of the lifecycle\<close>

text \<open>
  C4. No work item is released without its four human gates, in order: along any sequence of
  successful \<open>Advance\<close> calls that takes an item from planning to released, the recorded gate
  decisions contain an approved plan gate, then an approved code-review gate, then an approved
  QA gate, then an approved release gate, and every recorded gate belongs to the item, names
  its decider and carries human or delegated authority.
\<close>

theorem released_after_every_gate:
  assumes "wf_step\<^sup>*\<^sup>* (item, []) (item', log)"
    and "wf_state item = StatePlanning" and "wf_state item' = StateReleased"
  shows "subseq [GatePlan, GateCodeReview, GateQAReview, GateRelease] (approved_kinds log)
    \<and> (\<forall>g \<in> set log. sound_gate (wi_ID item') g)"
proof -
  from assms(2) have "wf_inv (item, [])" by (simp add: wf_inv_def)
  with assms(1) have "wf_inv (item', log)" by (rule wf.inv_run)
  moreover have "required_gates StateReleased = [GatePlan, GateCodeReview, GateQAReview, GateRelease]"
    by (simp add: required_gates_def workflow_names)
  ultimately show ?thesis using assms(3) by (simp add: wf_inv_def)
qed

definition wit_item :: work_item where
  "wit_item = \<lparr>wi_ID = 7, wi_State = '' planning ''\<rparr>"

definition wit_gate :: "string \<Rightarrow> string \<Rightarrow> delivery_gate" where
  "wit_gate kind authority = \<lparr>g_ID = 1, g_WorkItemID = 7, g_Kind = kind, g_Decision = ''approved'',
     g_Authority = authority, g_DecidedBy = ''ana'', g_DecidedAt = 0\<rparr>"

definition wit_calls :: "(string \<times> delivery_gate option \<times> gotime) list" where
  "wit_calls =
     [(''submit_plan'', None, 1), (''approve_plan'', Some (wit_gate ''plan'' []), 2),
      (''submit_code_review'', None, 3), (''approve_code_review'', Some (wit_gate '' code_review'' ''Human''), 4),
      (''preview_ready'', None, 5), (''submit_qa'', None, 6),
      (''approve_qa'', Some (wit_gate ''qa_review'' ''delegated''), 7),
      (''approve_release'', Some (wit_gate ''release'' ''human''), 8)]"

definition wit_end :: wf_history where
  "wit_end = (case wf_run (wit_item, []) wit_calls of Some h \<Rightarrow> h | None \<Rightarrow> (wit_item, []))"

theorem released_after_every_gate_witness:
  "wf_state (fst wit_end) = StateReleased
   \<and> subseq [GatePlan, GateCodeReview, GateQAReview, GateRelease] (approved_kinds (snd wit_end))"
proof -
  have ok: "(case wf_run (wit_item, []) wit_calls of Some h \<Rightarrow> True | None \<Rightarrow> False)" by code_simp
  then have "wf_run (wit_item, []) wit_calls = Some wit_end"
    by (auto simp: wit_end_def split: option.splits)
  then have run: "wf_step\<^sup>*\<^sup>* (wit_item, []) (fst wit_end, snd wit_end)"
    by (simp add: wf_run_steps)
  have st: "wf_state wit_item = StatePlanning" "wf_state (fst wit_end) = StateReleased"
    by code_simp+
  from released_after_every_gate [OF run st] st show ?thesis by simp
qed

text \<open>
  Terminal and blocked work stays put: from a released, assessed or cancelled item every
  action is an error, and whatever calls succeed on a blocked item leave it blocked or
  cancelled, so blocked work can never reach a release or an assessment through the workflow.
\<close>

theorem closed_work_stays_closed:
  "(isTerminal (wf_state item) \<longrightarrow> (\<exists>e. Advance (Some item) action gate now = Inl e))
   \<and> (wf_state blocked = StateBlocked \<and> wf_step\<^sup>*\<^sup>* (blocked, log) (item', log')
      \<longrightarrow> wf_state item' = StateBlocked \<or> wf_state item' = StateCancelled)"
proof (intro conjI impI)
  assume "isTerminal (wf_state item)"
  then show "\<exists>e. Advance (Some item) action gate now = Inl e" by (rule Advance_terminal)
next
  assume h: "wf_state blocked = StateBlocked \<and> wf_step\<^sup>*\<^sup>* (blocked, log) (item', log')"
  then have "wf_stuck (blocked, log)" by (simp add: wf_stuck_def)
  with h have "wf_stuck (item', log')" by (blast intro: stuck.inv_run)
  then show "wf_state item' = StateBlocked \<or> wf_state item' = StateCancelled"
    by (simp add: wf_stuck_def)
qed

definition wit_blocked :: work_item where
  "wit_blocked = \<lparr>wi_ID = 7, wi_State = ''blocked''\<rparr>"

theorem closed_work_stays_closed_witness:
  "isTerminal (wf_state (fst wit_end))
   \<and> (\<exists>e. Advance (Some (fst wit_end)) ActionBlock None 9 = Inl e)
   \<and> wf_run (wit_blocked, []) [(''cancel'', None, 9)] = Some (\<lparr>wi_ID = 7, wi_State = ''cancelled''\<rparr>, [])
   \<and> wf_state \<lparr>wi_ID = 7, wi_State = ''cancelled''\<rparr> = StateCancelled"
proof -
  have t: "isTerminal (wf_state (fst wit_end))" by code_simp
  have run: "wf_run (wit_blocked, []) [(''cancel'', None, 9)]
      = Some (\<lparr>wi_ID = 7, wi_State = ''cancelled''\<rparr>, [])"
    by code_simp
  have b: "wf_state wit_blocked = StateBlocked" by code_simp
  have "\<not> wf_state \<lparr>wi_ID = 7, wi_State = ''cancelled''\<rparr> = StateBlocked" by code_simp
  with closed_work_stays_closed [of "fst wit_end" ActionBlock None 9 wit_blocked "[]"
      "\<lparr>wi_ID = 7, wi_State = ''cancelled''\<rparr>" "[]"]
    t run b wf_run_steps [OF run]
  show ?thesis by blast
qed

end
