(* ===== verification/PlanRows.thy ===== *)
theory PlanRows
  imports GoStd
begin

text \<open>
  The rows of the delivery-plan tables, from models/DeliveryWorkflow.go,
  models/DeliveryPlanStep.go, models/DeliveryPlanStepEvent.go, models/DeliveryPlanExecution.go,
  models/DeliveryPlanStepAssignment.go and models/AutomationTask.go, with the columns the
  plan-step service reads or writes. A nullable column is an \<open>option\<close>; GORM association fields
  (other rows joined in memory) are not columns and have no counterpart. Status columns keep
  their text, with the constants of the models package as names.
\<close>

subsection \<open>Status names\<close>

definition DeliveryPlanStepRoleImplementation :: string where
  "DeliveryPlanStepRoleImplementation = ''implementation''"
definition DeliveryPlanStepRoleIntegration :: string where
  "DeliveryPlanStepRoleIntegration = ''integration''"

definition DeliveryPlanStepPlanned :: string where "DeliveryPlanStepPlanned = ''planned''"
definition DeliveryPlanStepReady :: string where "DeliveryPlanStepReady = ''ready''"
definition DeliveryPlanStepRunning :: string where "DeliveryPlanStepRunning = ''running''"
definition DeliveryPlanStepBlocked :: string where "DeliveryPlanStepBlocked = ''blocked''"
definition DeliveryPlanStepCompleted :: string where "DeliveryPlanStepCompleted = ''completed''"
definition DeliveryPlanStepFailed :: string where "DeliveryPlanStepFailed = ''failed''"
definition DeliveryPlanStepSkipped :: string where "DeliveryPlanStepSkipped = ''skipped''"

definition DeliveryPlanStepEventReady :: string where "DeliveryPlanStepEventReady = ''step_ready''"
definition DeliveryPlanStepEventClaimed :: string where "DeliveryPlanStepEventClaimed = ''step_claimed''"
definition DeliveryPlanStepEventLeaseReclaimed :: string where
  "DeliveryPlanStepEventLeaseReclaimed = ''lease_reclaimed''"
definition DeliveryPlanStepEventLeaseRenewed :: string where
  "DeliveryPlanStepEventLeaseRenewed = ''lease_renewed''"
definition DeliveryPlanStepEventTransitioned :: string where
  "DeliveryPlanStepEventTransitioned = ''status_transitioned''"

definition DeliveryPlanExecutionPending :: string where "DeliveryPlanExecutionPending = ''pending''"
definition DeliveryPlanExecutionDispatching :: string where
  "DeliveryPlanExecutionDispatching = ''dispatching''"
definition DeliveryPlanExecutionRunning :: string where "DeliveryPlanExecutionRunning = ''running''"
definition DeliveryPlanExecutionMaxConcurrency :: int where
  "DeliveryPlanExecutionMaxConcurrency = 64"

definition DeliveryPlanStepAssignmentPending :: string where
  "DeliveryPlanStepAssignmentPending = ''pending''"
definition DeliveryPlanStepAssignmentQueued :: string where
  "DeliveryPlanStepAssignmentQueued = ''queued''"
definition DeliveryPlanStepAssignmentDispatched :: string where
  "DeliveryPlanStepAssignmentDispatched = ''dispatched''"
definition DeliveryPlanStepAssignmentRunning :: string where
  "DeliveryPlanStepAssignmentRunning = ''running''"
definition DeliveryPlanStepAssignmentBlocked :: string where
  "DeliveryPlanStepAssignmentBlocked = ''blocked''"
definition DeliveryPlanStepAssignmentCompleted :: string where
  "DeliveryPlanStepAssignmentCompleted = ''completed''"
definition DeliveryPlanStepAssignmentFailed :: string where
  "DeliveryPlanStepAssignmentFailed = ''failed''"
definition DeliveryPlanStepAssignmentCancelled :: string where
  "DeliveryPlanStepAssignmentCancelled = ''cancelled''"

lemmas step_status_names =
  DeliveryPlanStepPlanned_def DeliveryPlanStepReady_def DeliveryPlanStepRunning_def
  DeliveryPlanStepBlocked_def DeliveryPlanStepCompleted_def DeliveryPlanStepFailed_def
  DeliveryPlanStepSkipped_def

lemmas assignment_status_names =
  DeliveryPlanStepAssignmentPending_def DeliveryPlanStepAssignmentQueued_def
  DeliveryPlanStepAssignmentDispatched_def DeliveryPlanStepAssignmentRunning_def
  DeliveryPlanStepAssignmentBlocked_def DeliveryPlanStepAssignmentCompleted_def
  DeliveryPlanStepAssignmentFailed_def DeliveryPlanStepAssignmentCancelled_def

subsection \<open>Tables\<close>

record delivery_plan =
  dp_ID :: uuid
  dp_WorkItemID :: uuid
  dp_Version :: int
  dp_Status :: string
  dp_ApprovedGateID :: "uuid option"

record plan_step =
  st_ID :: uuid
  st_PlanID :: uuid
  st_StepKey :: string
  st_IdempotencyKey :: string
  st_Role :: string
  st_DisplayOrder :: int
  st_Title :: string
  st_Objective :: string
  st_AcceptanceCriteriaJSON :: string
  st_EvidenceRequirementsJSON :: string
  st_Status :: string
  st_AgentKey :: string
  st_WorkerID :: string
  st_MachineID :: string
  st_AutomationTaskID :: "uuid option"
  st_AutomationExecutionID :: "uuid option"
  st_RunID :: string
  st_LeaseFence :: int
  st_LeaseExpiresAt :: "gotime option"
  st_CreatedBy :: string
  st_StartedAt :: "gotime option"
  st_CompletedAt :: "gotime option"
  st_CreatedAt :: gotime
  st_UpdatedAt :: gotime

record step_dependency =
  sd_ID :: uuid
  sd_PlanID :: uuid
  sd_StepID :: uuid
  sd_DependsOnStepID :: uuid
  sd_CreatedAt :: gotime

record step_event =
  ev_ID :: uuid
  ev_PlanID :: uuid
  ev_StepID :: uuid
  ev_EventType :: string
  ev_FromStatus :: string
  ev_ToStatus :: string
  ev_AutomationTaskID :: uuid
  ev_RunID :: string
  ev_WorkerID :: string
  ev_AgentKey :: string
  ev_MachineID :: string
  ev_AgentInstanceID :: "uuid option"
  ev_LeaseFence :: int
  ev_Summary :: string
  ev_OccurredAt :: gotime
  ev_CreatedAt :: gotime

record automation_task =
  at_ID :: uuid
  at_DeliveryWorkItemID :: "uuid option"
  at_WorkerID :: string
  at_AgentKey :: string
  at_MachineID :: string
  at_Status :: string
  at_RunID :: string
  at_LeaseExpiresAt :: "gotime option"

record plan_execution =
  ex_ID :: uuid
  ex_AutomationTaskID :: uuid
  ex_IdempotencyKey :: string
  ex_PlanID :: uuid
  ex_PlanVersion :: int
  ex_ApprovedGateID :: uuid
  ex_PlanHash :: string
  ex_MaxConcurrency :: int
  ex_Status :: string
  ex_DispatchedAt :: "gotime option"
  ex_StartedAt :: "gotime option"
  ex_CompletedAt :: "gotime option"
  ex_CreatedAt :: gotime
  ex_UpdatedAt :: gotime

record step_assignment =
  as_ID :: uuid
  as_ExecutionID :: uuid
  as_DeliveryPlanStepID :: uuid
  as_ChildAutomationTaskID :: uuid
  as_TargetMachineID :: string
  as_TargetAgentKey :: string
  as_Status :: string
  as_QueuedAt :: "gotime option"
  as_DispatchedAt :: "gotime option"
  as_StartedAt :: "gotime option"
  as_CompletedAt :: "gotime option"
  as_CreatedAt :: gotime
  as_UpdatedAt :: gotime

subsection \<open>The database\<close>

text \<open>
  A table is the list of its rows. The tables of the plan service are read and written by every
  component below; the lease protocol and the orchestration add theirs.
\<close>

record plan_tables =
  pt_plans :: "delivery_plan list"
  pt_steps :: "plan_step list"
  pt_dependencies :: "step_dependency list"

record lease_tables = plan_tables +
  lt_tasks :: "automation_task list"
  lt_events :: "step_event list"

text \<open>Whether a nullable instant is set and later than another one.\<close>

definition live_at :: "gotime option \<Rightarrow> gotime \<Rightarrow> bool" where
  "live_at expiry now = (case expiry of None \<Rightarrow> False | Some t \<Rightarrow> now < t)"

lemma live_at_simps [simp]: "\<not> live_at None now" "live_at (Some t) now \<longleftrightarrow> now < t"
  by (simp_all add: live_at_def)

end
