(* ===== verification/PlanSteps.thy ===== *)
theory PlanSteps
  imports PlanRows
begin

text \<open>
  The normalized step graph of a delivery plan: services/deliveryplansteps/steps.go. \<open>Normalize\<close>
  checks keys, bounds, uniqueness, the dependency graph and the integration step, and builds
  the rows. Go maps are association lists; a \<open>range\<close> over one visits the pairs in list order, and
  the order Go chooses for the \<open>i\<close>-th traversal is \<open>iter i\<close>, an argument of \<open>Normalize\<close>. \<open>uuid.NewV4\<close> is a supply \<open>ids\<close> of
  identities, \<open>time.Now\<close> the argument \<open>clock\<close>. \<open>json.Unmarshal\<close> of stored evidence requirements
  is the argument \<open>decode\<close>.
\<close>

subsection \<open>Bounds and patterns\<close>

definition MaxStepsPerPlan :: nat where "MaxStepsPerPlan = 100"
definition MaxDependenciesPerPlan :: nat where "MaxDependenciesPerPlan = 500"
definition MaxAcceptanceCriteria :: nat where "MaxAcceptanceCriteria = 12"
definition MaxEvidenceRequirements :: nat where "MaxEvidenceRequirements = 8"
definition MaxEvidenceTypesPerRequirement :: nat where "MaxEvidenceTypesPerRequirement = 6"
definition MaxEvidenceRequirementKeyBytes :: nat where "MaxEvidenceRequirementKeyBytes = 48"
definition MaxEvidenceRequirementTitleBytes :: nat where "MaxEvidenceRequirementTitleBytes = 120"
definition MaxEvidenceRequirementDescriptionBytes :: nat where
  "MaxEvidenceRequirementDescriptionBytes = 400"
definition MaxStepEvidenceBytes :: int where "MaxStepEvidenceBytes = 1048576"

abbreviation StepRoleImplementation :: string where
  "StepRoleImplementation \<equiv> DeliveryPlanStepRoleImplementation"
abbreviation StepRoleIntegration :: string where
  "StepRoleIntegration \<equiv> DeliveryPlanStepRoleIntegration"

definition slug_char :: "char \<Rightarrow> bool" where
  "slug_char c = (lower_letter c \<or> digit_char c \<or> c = CHR ''_'' \<or> c = CHR ''-'')"

definition stepKeyPattern :: "string \<Rightarrow> bool" where
  "stepKeyPattern = head_tail_match lower_letter slug_char 63"

definition evidenceRequirementKeyPattern :: "string \<Rightarrow> bool" where
  "evidenceRequirementKeyPattern = head_tail_match lower_letter slug_char 47"

definition idempotencyKeyPattern :: "string \<Rightarrow> bool" where
  "idempotencyKeyPattern =
     head_tail_match alnum_char (\<lambda>c. alnum_char c \<or> c \<in> set ''_.:-'') 127"

definition allowedStepEvidenceContentTypes :: "string list" where
  "allowedStepEvidenceContentTypes =
     [''application/json'', ''image/jpeg'', ''image/png'', ''text/csv'', ''text/markdown'', ''text/plain'']"

subsection \<open>Requests\<close>

record evidence_requirement =
  er_Key :: string
  er_Title :: string
  er_Description :: string
  er_Required :: bool
  er_ContentTypes :: "string list"
  er_MaxBytes :: int

record step_input =
  si_Key :: string
  si_Role :: string
  si_Order :: int
  si_Title :: string
  si_Objective :: string
  si_AcceptanceCriteria :: "string list"
  si_EvidenceRequirements :: "evidence_requirement list"
  si_DependsOn :: "string list"
  si_IdempotencyKey :: string

record normalized_plan =
  np_Steps :: "plan_step list"
  np_Dependencies :: "step_dependency list"

datatype plan_error =
    TooManyRequirements
  | RequirementKeyInvalid
  | RequirementKeyDuplicate
  | RequirementTextBounds
  | RequirementMaxBytes
  | RequirementContentTypes
  | ContentTypeNotAllowed string
  | ContentTypeDuplicate
  | PlanNotPersisted
  | TooManySteps
  | CreatedByTooLong
  | StepKeyInvalid
  | RoleInvalid string
  | TitleOrObjectiveBounds
  | OrderNegative
  | StepKeyDuplicate string
  | OrderDuplicate int
  | IdempotencyKeyInvalid
  | IdempotencyKeyRepeated
  | CriteriaCount string
  | RequirementError string plan_error
  | CriterionBounds string
  | CriterionRepeated string
  | DependencyRepeated string string
  | TooManyDependencies
  | DependencyCycle
  | DependencyUnknown string string
  | DependencySelf
  | IntegrationDuplicate
  | RoleUnsupported string
  | CriterionOwnerDuplicate
  | DependsOnIntegration
  | IntegrationMissing
  | IntegrationNotLast
  | IntegrationCriteriaMismatch
  | IntegrationDependsOnNonBranch
  | IntegrationMissesBranch
  | OutOfFuel

subsection \<open>Evidence requirements\<close>

fun normalizeContentTypes :: "string list \<Rightarrow> string list \<Rightarrow> plan_error + string list" where
  "normalizeContentTypes seen [] = Inr seen"
| "normalizeContentTypes seen (ct # cts) =
     (let t = ToLower (TrimSpace (takeWhile (\<lambda>c. c \<noteq> CHR '';'') ct))
      in if t \<notin> set allowedStepEvidenceContentTypes then Inl (ContentTypeNotAllowed t)
         else if t \<in> set seen then Inl ContentTypeDuplicate
         else normalizeContentTypes (seen @ [t]) cts)"

definition normalizeRequirement ::
  "string list \<Rightarrow> evidence_requirement \<Rightarrow> plan_error + evidence_requirement" where
  "normalizeRequirement seenKeys r0 =
     (let r = r0\<lparr>er_Key := TrimSpace (er_Key r0), er_Title := TrimSpace (er_Title r0),
                 er_Description := TrimSpace (er_Description r0)\<rparr>
      in if \<not> evidenceRequirementKeyPattern (er_Key r)
            \<or> length (er_Key r) > MaxEvidenceRequirementKeyBytes
         then Inl RequirementKeyInvalid
         else if er_Key r \<in> set seenKeys then Inl RequirementKeyDuplicate
         else if er_Title r = [] \<or> length (er_Title r) > MaxEvidenceRequirementTitleBytes
            \<or> length (er_Description r) > MaxEvidenceRequirementDescriptionBytes
         then Inl RequirementTextBounds
         else if er_MaxBytes r < 1 \<or> er_MaxBytes r > MaxStepEvidenceBytes
         then Inl RequirementMaxBytes
         else if er_ContentTypes r = [] \<or> length (er_ContentTypes r) > MaxEvidenceTypesPerRequirement
         then Inl RequirementContentTypes
         else bindE (normalizeContentTypes [] (er_ContentTypes r))
           (\<lambda>types. Inr (r\<lparr>er_ContentTypes := sort types\<rparr>)))"

fun normalizeRequirements ::
  "evidence_requirement list \<Rightarrow> evidence_requirement list \<Rightarrow> plan_error + evidence_requirement list" where
  "normalizeRequirements done [] = Inr done"
| "normalizeRequirements done (r # rs) =
     bindE (normalizeRequirement (map er_Key done) r) (\<lambda>r'. normalizeRequirements (done @ [r']) rs)"

definition normalizeEvidenceRequirements ::
  "evidence_requirement list \<Rightarrow> plan_error + evidence_requirement list" where
  "normalizeEvidenceRequirements requirements =
     (if length requirements > MaxEvidenceRequirements then Inl TooManyRequirements
      else normalizeRequirements [] requirements)"

text \<open>\<open>decode\<close> is the strict JSON decoding of one document, None for its errors.\<close>

definition parseStoredEvidenceRequirements ::
  "(string \<Rightarrow> evidence_requirement list option) \<Rightarrow> string \<Rightarrow> evidence_requirement list option" where
  "parseStoredEvidenceRequirements decode raw =
     (if TrimSpace raw = [] \<or> TrimSpace raw = ''null'' then Some []
      else case decode raw of
          None \<Rightarrow> None
        | Some requirements \<Rightarrow>
            (case normalizeEvidenceRequirements requirements of Inl _ \<Rightarrow> None | Inr rs \<Rightarrow> Some rs))"

definition requirement_json :: "evidence_requirement \<Rightarrow> json" where
  "requirement_json r =
     JObj ([(''key'', JStr (er_Key r)), (''title'', JStr (er_Title r))]
       @ omit_empty ''description'' (er_Description r)
       @ [(''required'', JBool (er_Required r)),
          (''content_types'', JArr (map JStr (er_ContentTypes r))),
          (''max_bytes'', JInt (er_MaxBytes r))])"

definition requirements_json :: "evidence_requirement list \<Rightarrow> string" where
  "requirements_json rs = json_encode (JArr (map requirement_json rs))"

definition canonicalStoredEvidenceRequirements ::
  "(string \<Rightarrow> evidence_requirement list option) \<Rightarrow> string \<Rightarrow> string" where
  "canonicalStoredEvidenceRequirements decode raw =
     (case parseStoredEvidenceRequirements decode raw of
        None \<Rightarrow> ''<invalid>''
      | Some rs \<Rightarrow> requirements_json rs)"

subsection \<open>One step of the request\<close>

fun normalizeCriteria :: "string \<Rightarrow> string list \<Rightarrow> string list \<Rightarrow> plan_error + string list" where
  "normalizeCriteria key seen [] = Inr seen"
| "normalizeCriteria key seen (c # cs) =
     (let t = TrimSpace c
      in if t = [] \<or> length t > 400 then Inl (CriterionBounds key)
         else if t \<in> set seen then Inl (CriterionRepeated key)
         else normalizeCriteria key (seen @ [t]) cs)"

fun normalizeDependsOn :: "string \<Rightarrow> string list \<Rightarrow> string list \<Rightarrow> plan_error + string list" where
  "normalizeDependsOn key seen [] = Inr seen"
| "normalizeDependsOn key seen (d # ds) =
     (let t = TrimSpace d
      in if t \<in> set seen then Inl (DependencyRepeated key t)
         else normalizeDependsOn key (seen @ [t]) ds)"

text \<open>\<open>done\<close> holds the inputs before this one, already normalized.\<close>

definition normalizeStepInput :: "step_input list \<Rightarrow> step_input \<Rightarrow> plan_error + step_input" where
  "normalizeStepInput done input0 =
     (let input = input0\<lparr>si_Key := TrimSpace (si_Key input0),
                        si_Role := TrimSpace (ToLower (si_Role input0)),
                        si_Title := TrimSpace (si_Title input0),
                        si_Objective := TrimSpace (si_Objective input0)\<rparr>;
          key = si_Key input;
          trimmedIdem = TrimSpace (si_IdempotencyKey input0);
          idem = (if trimmedIdem = [] then ''step:'' @ key else trimmedIdem);
          previous = map_of (rev (map (\<lambda>d. (si_IdempotencyKey d, si_Key d)) done)) idem
      in if \<not> stepKeyPattern key then Inl StepKeyInvalid
         else if si_Role input \<noteq> StepRoleImplementation \<and> si_Role input \<noteq> StepRoleIntegration
         then Inl (RoleInvalid key)
         else if si_Title input = [] \<or> length (si_Title input) > 240 \<or> length (si_Objective input) > 5000
         then Inl TitleOrObjectiveBounds
         else if si_Order input < 0 then Inl OrderNegative
         else if key \<in> set (map si_Key done) then Inl (StepKeyDuplicate key)
         else if si_Order input \<in> set (map si_Order done) then Inl (OrderDuplicate (si_Order input))
         else if \<not> idempotencyKeyPattern idem then Inl IdempotencyKeyInvalid
         else if previous \<noteq> None \<and> previous \<noteq> Some key then Inl IdempotencyKeyRepeated
         else if si_AcceptanceCriteria input = []
            \<or> length (si_AcceptanceCriteria input) > MaxAcceptanceCriteria
         then Inl (CriteriaCount key)
         else case normalizeEvidenceRequirements (si_EvidenceRequirements input) of
             Inl e \<Rightarrow> Inl (RequirementError key e)
           | Inr requirements \<Rightarrow>
               bindE (normalizeCriteria key [] (si_AcceptanceCriteria input)) (\<lambda>criteria.
               bindE (normalizeDependsOn key [] (si_DependsOn input)) (\<lambda>deps.
               Inr (input\<lparr>si_IdempotencyKey := idem, si_EvidenceRequirements := requirements,
                         si_AcceptanceCriteria := criteria, si_DependsOn := deps\<rparr>))))"

fun normalizeInputs :: "step_input list \<Rightarrow> step_input list \<Rightarrow> plan_error + step_input list" where
  "normalizeInputs done [] = Inr done"
| "normalizeInputs done (i # is) =
     bindE (normalizeStepInput done i) (\<lambda>i'. normalizeInputs (done @ [i']) is)"

subsection \<open>The dependency graph: validateDAG\<close>

type_synonym by_key = "(string \<times> step_input) list"

definition by_key_of :: "step_input list \<Rightarrow> by_key" where
  "by_key_of inputs = map (\<lambda>i. (si_Key i, i)) inputs"

text \<open>\<open>byKey[key].DependsOn\<close>, empty for a missing key as Go's zero value is.\<close>

definition depsOf :: "by_key \<Rightarrow> string \<Rightarrow> string list" where
  "depsOf byKey key = (case map_of byKey key of None \<Rightarrow> [] | Some i \<Rightarrow> si_DependsOn i)"

definition roleOf :: "by_key \<Rightarrow> string \<Rightarrow> string" where
  "roleOf byKey key = (case map_of byKey key of None \<Rightarrow> [] | Some i \<Rightarrow> si_Role i)"

text \<open>The closure's variables: the colour of each key (0, 1 or 2) and the edges seen.\<close>

record dfs =
  df_state :: "string \<Rightarrow> nat"
  df_seenEdges :: "string list"

definition edgeKey :: "string \<Rightarrow> string \<Rightarrow> string" where
  "edgeKey key dependency = key @ [CHR 0x00] @ dependency"

text \<open>Fuel bounds the depth of the recursion; \<open>validateDAG\<close> gives one more than there are keys.\<close>

function (sequential) visit :: "nat \<Rightarrow> by_key \<Rightarrow> string \<Rightarrow> dfs \<Rightarrow> plan_error + dfs"
  and visitDeps :: "nat \<Rightarrow> by_key \<Rightarrow> string \<Rightarrow> string list \<Rightarrow> dfs \<Rightarrow> plan_error + dfs" where
  "visit 0 byKey key d = Inl OutOfFuel"
| "visit (Suc n) byKey key d =
     (if df_state d key = 1 then Inl DependencyCycle
      else if df_state d key = 2 then Inr d
      else bindE (visitDeps n byKey key (depsOf byKey key) (d\<lparr>df_state := (df_state d)(key := 1)\<rparr>))
        (\<lambda>d'. Inr (d'\<lparr>df_state := (df_state d')(key := 2)\<rparr>)))"
| "visitDeps n byKey key [] d = Inr d"
| "visitDeps n byKey key (dependency # rest) d =
     (if map_of byKey dependency = None then Inl (DependencyUnknown key dependency)
      else if dependency = key then Inl DependencySelf
      else if edgeKey key dependency \<in> set (df_seenEdges d) then Inl (DependencyRepeated key dependency)
      else bindE (visit n byKey dependency
          (d\<lparr>df_seenEdges := df_seenEdges d @ [edgeKey key dependency]\<rparr>))
        (\<lambda>d'. visitDeps n byKey key rest d'))"
  by pat_completeness auto
termination
  by (relation "measures [\<lambda>x. (case x of Inl (n, _) \<Rightarrow> n | Inr (n, _) \<Rightarrow> n),
      \<lambda>x. (case x of Inl _ \<Rightarrow> 0 | Inr (_, _, _, ds, _) \<Rightarrow> Suc (length ds))]") auto

fun visitAll :: "nat \<Rightarrow> by_key \<Rightarrow> string list \<Rightarrow> dfs \<Rightarrow> plan_error + dfs" where
  "visitAll n byKey [] d = Inr d"
| "visitAll n byKey (key # keys) d = bindE (visit n byKey key d) (\<lambda>d'. visitAll n byKey keys d')"

definition dfs_init :: dfs where
  "dfs_init = \<lparr>df_state = (\<lambda>_. 0), df_seenEdges = []\<rparr>"

definition validateDAG :: "by_key \<Rightarrow> plan_error + unit" where
  "validateDAG byKey =
     bindE (visitAll (Suc (length byKey)) byKey (map fst byKey) dfs_init) (\<lambda>_. Inr ())"

subsection \<open>The integration step: validateIntegrationGraph\<close>

record integration_scan =
  is_integration :: "step_input option"
  is_producerCriteria :: "string list"
  is_maxProducerOrder :: int
  is_successors :: "string list"

fun addCriteria :: "string list \<Rightarrow> string list \<Rightarrow> plan_error + string list" where
  "addCriteria seen [] = Inr seen"
| "addCriteria seen (c # cs) =
     (if c \<in> set seen then Inl CriterionOwnerDuplicate else addCriteria (seen @ [c]) cs)"

fun addSuccessors :: "by_key \<Rightarrow> string list \<Rightarrow> string list \<Rightarrow> plan_error + string list" where
  "addSuccessors byKey succs [] = Inr succs"
| "addSuccessors byKey succs (d # ds) =
     (if roleOf byKey d = StepRoleIntegration then Inl DependsOnIntegration
      else addSuccessors byKey (succs @ [d]) ds)"

fun scanSteps :: "by_key \<Rightarrow> by_key \<Rightarrow> integration_scan \<Rightarrow> plan_error + integration_scan" where
  "scanSteps byKey [] s = Inr s"
| "scanSteps byKey ((key, step) # rest) s =
     (if si_Role step = StepRoleIntegration then
        (if is_integration s \<noteq> None then Inl IntegrationDuplicate
         else scanSteps byKey rest (s\<lparr>is_integration := Some step\<rparr>))
      else if si_Role step \<noteq> StepRoleImplementation then Inl (RoleUnsupported key)
      else
        bindE (addCriteria (is_producerCriteria s) (si_AcceptanceCriteria step)) (\<lambda>criteria.
        bindE (addSuccessors byKey (is_successors s) (si_DependsOn step)) (\<lambda>succs.
        scanSteps byKey rest
          (s\<lparr>is_maxProducerOrder := max (is_maxProducerOrder s) (si_Order step),
             is_producerCriteria := criteria, is_successors := succs\<rparr>))))"

text \<open>\<open>terminalBranches\<close>: implementation steps no implementation step depends on.\<close>

definition terminalBranches :: "by_key \<Rightarrow> string list \<Rightarrow> string list" where
  "terminalBranches byKey succs =
     map fst (filter (\<lambda>(key, step). si_Role step = StepRoleImplementation \<and> key \<notin> set succs) byKey)"

text \<open>The checks after the scan, for the integration step it found.\<close>

definition checkIntegration :: "by_key \<Rightarrow> integration_scan \<Rightarrow> step_input \<Rightarrow> plan_error + unit" where
  "checkIntegration byKey s integration =
     (let criteria = remdups (si_AcceptanceCriteria integration);
          terminal = terminalBranches byKey (is_successors s);
          dependencies = remdups (si_DependsOn integration)
      in if is_producerCriteria s = [] then Inl IntegrationMissing
         else if si_Order integration \<le> is_maxProducerOrder s then Inl IntegrationNotLast
         else if length criteria \<noteq> length (is_producerCriteria s) then Inl IntegrationCriteriaMismatch
         else if list_ex (\<lambda>c. c \<notin> set criteria) (is_producerCriteria s)
         then Inl IntegrationCriteriaMismatch
         else if list_ex (\<lambda>d. roleOf byKey d \<noteq> StepRoleImplementation) (si_DependsOn integration)
         then Inl IntegrationDependsOnNonBranch
         else if length dependencies < length terminal then Inl IntegrationMissesBranch
         else if list_ex (\<lambda>k. k \<notin> set dependencies) terminal then Inl IntegrationMissesBranch
         else Inr ())"

definition scan_init :: integration_scan where
  "scan_init = \<lparr>is_integration = None, is_producerCriteria = [], is_maxProducerOrder = -1, is_successors = []\<rparr>"

definition validateIntegrationGraph :: "by_key \<Rightarrow> plan_error + unit" where
  "validateIntegrationGraph byKey =
     (if byKey = [] then Inr ()
      else bindE (scanSteps byKey byKey scan_init)
        (\<lambda>s. case is_integration s of
           None \<Rightarrow> Inl IntegrationMissing
         | Some integration \<Rightarrow> checkIntegration byKey s integration))"

subsection \<open>Building the rows: Normalize\<close>

definition build_step ::
  "delivery_plan \<Rightarrow> string \<Rightarrow> gotime \<Rightarrow> uuid \<Rightarrow> step_input \<Rightarrow> plan_step" where
  "build_step plan createdBy now newID input =
     \<lparr>st_ID = newID, st_PlanID = dp_ID plan, st_StepKey = si_Key input,
      st_IdempotencyKey = si_IdempotencyKey input, st_Role = si_Role input,
      st_DisplayOrder = si_Order input, st_Title = si_Title input, st_Objective = si_Objective input,
      st_AcceptanceCriteriaJSON = json_encode (JArr (map JStr (si_AcceptanceCriteria input))),
      st_EvidenceRequirementsJSON = requirements_json (si_EvidenceRequirements input),
      st_Status = DeliveryPlanStepPlanned, st_AgentKey = [], st_WorkerID = [], st_MachineID = [],
      st_AutomationTaskID = None, st_AutomationExecutionID = None, st_RunID = [], st_LeaseFence = 0,
      st_LeaseExpiresAt = None, st_CreatedBy = createdBy, st_StartedAt = None, st_CompletedAt = None,
      st_CreatedAt = now, st_UpdatedAt = now\<rparr>"

text \<open>The edges of the ordered inputs, each step's dependencies sorted.\<close>

definition ordered_edges :: "step_input list \<Rightarrow> (string \<times> string) list" where
  "ordered_edges ordered =
     concat (map (\<lambda>i. map (\<lambda>d. (si_Key i, d)) (sort (si_DependsOn i))) ordered)"

definition idByKey :: "(string \<times> uuid) list \<Rightarrow> string \<Rightarrow> uuid" where
  "idByKey idsByKey key = (case map_of idsByKey key of None \<Rightarrow> uuid_Nil | Some i \<Rightarrow> i)"

definition build_dependency ::
  "delivery_plan \<Rightarrow> gotime \<Rightarrow> (string \<times> uuid) list \<Rightarrow> uuid \<Rightarrow> string \<times> string \<Rightarrow> step_dependency" where
  "build_dependency plan now idsByKey newID edge =
     \<lparr>sd_ID = newID, sd_PlanID = dp_ID plan, sd_StepID = idByKey idsByKey (fst edge),
      sd_DependsOnStepID = idByKey idsByKey (snd edge), sd_CreatedAt = now\<rparr>"

definition build_plan ::
  "delivery_plan \<Rightarrow> string \<Rightarrow> gotime \<Rightarrow> (nat \<Rightarrow> uuid) \<Rightarrow> step_input list \<Rightarrow> normalized_plan" where
  "build_plan plan createdBy now ids inputs =
     (let ordered = sort_key si_Order inputs;
          n = length ordered;
          steps = map2 (build_step plan createdBy now) (map ids [0..<n]) ordered;
          idsByKey = rev (zip (map si_Key ordered) (map ids [0..<n]));
          edges = ordered_edges ordered
      in \<lparr>np_Steps = steps,
          np_Dependencies =
            map2 (build_dependency plan now idsByKey) (map ids [n..<n + length edges]) edges\<rparr>)"

text \<open>
  The normalized plan and the caller's slice as the call leaves it (its elements are normalized
  in place).
\<close>

definition Normalize ::
  "(nat \<Rightarrow> by_key \<Rightarrow> by_key) \<Rightarrow> (nat \<Rightarrow> uuid) \<Rightarrow> gotime \<Rightarrow> delivery_plan \<Rightarrow> string \<Rightarrow> step_input list \<Rightarrow> gotime
     \<Rightarrow> plan_error + normalized_plan \<times> step_input list" where
  "Normalize iter ids clock plan createdBy0 inputs now0 =
     (if dp_ID plan = uuid_Nil \<or> dp_WorkItemID plan = uuid_Nil \<or> dp_Version plan < 1
      then Inl PlanNotPersisted
      else if length inputs > MaxStepsPerPlan then Inl TooManySteps
      else let createdBy = TrimSpace createdBy0;
               now = (if isZero now0 then clock else now0)
        in if length createdBy > 128 then Inl CreatedByTooLong
           else bindE (normalizeInputs [] inputs) (\<lambda>inputs'.
             if sum_list (map (\<lambda>i. length (si_DependsOn i)) inputs') > MaxDependenciesPerPlan
             then Inl TooManyDependencies
             else bindE (validateDAG (iter 0 (by_key_of inputs'))) (\<lambda>_.
                  bindE (validateIntegrationGraph (iter 1 (by_key_of inputs'))) (\<lambda>_.
                  Inr (build_plan plan createdBy now ids inputs', inputs')))))"

subsection \<open>The step lifecycle\<close>

definition stepTransitions :: "(string \<times> string list) list" where
  "stepTransitions =
     [(DeliveryPlanStepPlanned,
        [DeliveryPlanStepPlanned, DeliveryPlanStepReady, DeliveryPlanStepBlocked, DeliveryPlanStepSkipped]),
      (DeliveryPlanStepReady,
        [DeliveryPlanStepReady, DeliveryPlanStepRunning, DeliveryPlanStepBlocked, DeliveryPlanStepSkipped]),
      (DeliveryPlanStepRunning,
        [DeliveryPlanStepRunning, DeliveryPlanStepCompleted, DeliveryPlanStepBlocked, DeliveryPlanStepFailed]),
      (DeliveryPlanStepBlocked,
        [DeliveryPlanStepBlocked, DeliveryPlanStepReady, DeliveryPlanStepSkipped]),
      (DeliveryPlanStepFailed,
        [DeliveryPlanStepFailed, DeliveryPlanStepReady, DeliveryPlanStepSkipped]),
      (DeliveryPlanStepCompleted, [DeliveryPlanStepCompleted]),
      (DeliveryPlanStepSkipped, [DeliveryPlanStepSkipped])]"

definition CanTransitionStatus :: "string \<Rightarrow> string \<Rightarrow> bool" where
  "CanTransitionStatus current next =
     (case map_of stepTransitions (TrimSpace (ToLower current)) of
        None \<Rightarrow> False
      | Some targets \<Rightarrow> TrimSpace (ToLower next) \<in> set targets)"

subsection \<open>Materialising a plan: EnsureInTransaction\<close>

definition map_of_last :: "('k \<times> 'v) list \<Rightarrow> 'k \<Rightarrow> 'v option" where
  "map_of_last kvs = map_of (rev kvs)"

definition same_step ::
  "(string \<Rightarrow> evidence_requirement list option) \<Rightarrow> plan_step \<Rightarrow> plan_step \<Rightarrow> bool" where
  "same_step decode r e =
     (st_IdempotencyKey r = st_IdempotencyKey e \<and> st_Role r = st_Role e
      \<and> st_DisplayOrder r = st_DisplayOrder e \<and> st_Title r = st_Title e
      \<and> st_Objective r = st_Objective e
      \<and> st_AcceptanceCriteriaJSON r = st_AcceptanceCriteriaJSON e
      \<and> st_EvidenceRequirementsJSON r
          = canonicalStoredEvidenceRequirements decode (st_EvidenceRequirementsJSON e))"

definition edge_text :: "(uuid \<times> string) list \<Rightarrow> step_dependency \<Rightarrow> string" where
  "edge_text keyByID e =
     (case map_of_last keyByID (sd_StepID e) of None \<Rightarrow> [] | Some k \<Rightarrow> k) @ [CHR 0x00] @
     (case map_of_last keyByID (sd_DependsOnStepID e) of None \<Rightarrow> [] | Some k \<Rightarrow> k)"

definition samePlanContent ::
  "(string \<Rightarrow> evidence_requirement list option) \<Rightarrow> normalized_plan \<Rightarrow> plan_step list
     \<Rightarrow> step_dependency list \<Rightarrow> bool" where
  "samePlanContent decode requested existing existingDependencies =
     (if length (np_Steps requested) \<noteq> length existing
        \<or> length (np_Dependencies requested) \<noteq> length existingDependencies
      then False
      else let requestedByKey = map (\<lambda>s. (st_StepKey s, s)) (np_Steps requested);
               existingByKey = map (\<lambda>s. (st_StepKey s, s)) existing;
               requestedKeyByID = map (\<lambda>s. (st_ID s, st_StepKey s)) (np_Steps requested);
               existingKeyByID = map (\<lambda>s. (st_ID s, st_StepKey s)) existing
        in list_all (\<lambda>key. case map_of_last existingByKey key of
               None \<Rightarrow> False
             | Some e \<Rightarrow> (case map_of_last requestedByKey key of
                   None \<Rightarrow> False | Some r \<Rightarrow> same_step decode r e)) (map fst requestedByKey)
           \<and> list_all (\<lambda>e. map_of_last existingKeyByID (sd_StepID e) \<noteq> None
               \<and> map_of_last existingKeyByID (sd_DependsOnStepID e) \<noteq> None
               \<and> (case np_Steps requested of [] \<Rightarrow> False | s # _ \<Rightarrow> sd_PlanID e = st_PlanID s))
               existingDependencies
           \<and> sort (map (edge_text requestedKeyByID) (np_Dependencies requested))
             = sort (map (edge_text existingKeyByID) existingDependencies))"

datatype ensure_error = PlanRecordNotFound | NormalizeFailed plan_error | ErrPlanStepsConflict

text \<open>
  The result rows, whether they were created, and the tables after the call. Reading the steps of
  the plan orders them by display order; \<open>store\<close> is what a jsonb column gives back for the text
  that was written to it.
\<close>

definition stored_step :: "(string \<Rightarrow> string) \<Rightarrow> plan_step \<Rightarrow> plan_step" where
  "stored_step store s =
     s\<lparr>st_AcceptanceCriteriaJSON := store (st_AcceptanceCriteriaJSON s),
       st_EvidenceRequirementsJSON := store (st_EvidenceRequirementsJSON s)\<rparr>"

definition EnsureInTransaction ::
  "(string \<Rightarrow> evidence_requirement list option) \<Rightarrow> (string \<Rightarrow> string) \<Rightarrow> (nat \<Rightarrow> by_key \<Rightarrow> by_key)
     \<Rightarrow> (nat \<Rightarrow> uuid) \<Rightarrow> gotime \<Rightarrow> 'a plan_tables_scheme \<Rightarrow> uuid \<Rightarrow> string \<Rightarrow> step_input list \<Rightarrow> gotime
     \<Rightarrow> ensure_error + plan_step list \<times> bool \<times> 'a plan_tables_scheme" where
  "EnsureInTransaction decode store iter ids clock db planID actor inputs now =
     (case find (\<lambda>p. dp_ID p = planID) (pt_plans db) of
        None \<Rightarrow> Inl PlanRecordNotFound
      | Some plan \<Rightarrow>
          (case Normalize iter ids clock plan actor inputs now of
             Inl e \<Rightarrow> Inl (NormalizeFailed e)
           | Inr (normalized, _) \<Rightarrow>
               let existing = sort_key st_DisplayOrder (filter (\<lambda>s. st_PlanID s = dp_ID plan) (pt_steps db));
                   existingDependencies = filter (\<lambda>e. sd_PlanID e = dp_ID plan) (pt_dependencies db)
               in if existing \<noteq> [] then
                    (if \<not> samePlanContent decode normalized existing existingDependencies
                     then Inl ErrPlanStepsConflict
                     else Inr (existing, False, db))
                  else if np_Steps normalized = [] then Inr ([], False, db)
                  else Inr (np_Steps normalized, True,
                    db\<lparr>pt_steps := pt_steps db @ map (stored_step store) (np_Steps normalized),
                       pt_dependencies := pt_dependencies db @ np_Dependencies normalized\<rparr>)))"

end
