(* ===== verification/PlanGraph.thy ===== *)
theory PlanGraph
  imports PlanSteps
begin

text \<open>
  What \<open>validateDAG\<close> decides: the depth-first search of the code accepts exactly the graphs whose
  dependencies are known, not repeated and acyclic, and its recursion never needs more fuel than
  it is given.
\<close>

definition edges :: "by_key \<Rightarrow> (string \<times> string) set" where
  "edges byKey = {(k, d). d \<in> set (depsOf byKey k)}"

definition known_keys :: "by_key \<Rightarrow> string set" where
  "known_keys byKey = fst ` set byKey"

definition sound_graph :: "by_key \<Rightarrow> bool" where
  "sound_graph byKey \<longleftrightarrow>
     (\<forall>k. distinct (depsOf byKey k) \<and> set (depsOf byKey k) \<subseteq> known_keys byKey)
     \<and> acyclic (edges byKey)"

definition black :: "dfs \<Rightarrow> string set" where "black d = {k. df_state d k = 2}"
definition grey :: "dfs \<Rightarrow> string set" where "grey d = {k. df_state d k = 1}"
definition white :: "by_key \<Rightarrow> dfs \<Rightarrow> string set" where
  "white byKey d = {k \<in> known_keys byKey. df_state d k = 0}"

lemma known_keys_iff: "k \<in> known_keys byKey \<longleftrightarrow> map_of byKey k \<noteq> None"
  by (simp add: known_keys_def map_of_eq_None_iff)

lemma finite_white [simp]: "finite (white byKey d)"
  by (simp add: white_def known_keys_def)

lemma depsOf_unknown: "k \<notin> known_keys byKey \<Longrightarrow> depsOf byKey k = []"
  by (simp add: known_keys_iff depsOf_def)

lemma edgeKey_right [simp]: "edgeKey k x = edgeKey k y \<longleftrightarrow> x = y"
  by (simp add: edgeKey_def)

lemma edgeKey_left:
  assumes "edgeKey k x = edgeKey l y" "CHR 0x00 \<notin> set k" "CHR 0x00 \<notin> set l"
  shows "k = l"
proof -
  have "takeWhile (\<lambda>c. c \<noteq> CHR 0x00) (edgeKey k x) = k" if "CHR 0x00 \<notin> set k" for k x
    unfolding edgeKey_def using that by (subst takeWhile_append2) auto
  with assms show ?thesis by metis
qed

subsection \<open>An accepted graph is sound\<close>

definition settled :: "by_key \<Rightarrow> dfs \<Rightarrow> bool" where
  "settled byKey d \<longleftrightarrow>
     (\<forall>k \<in> black d. distinct (depsOf byKey k) \<and> set (depsOf byKey k) \<subseteq> known_keys byKey \<inter> black d
        \<and> (k, k) \<notin> (edges byKey)\<^sup>+)"

lemma settled_closed:
  assumes "settled byKey d" "(k, l) \<in> (edges byKey)\<^sup>+" "k \<in> black d"
  shows "l \<in> black d"
  using assms(2,3)
  by (induction rule: trancl_induct) (use assms(1) in \<open>auto simp: settled_def edges_def\<close>)

lemma settled_blacken:
  assumes "settled byKey d" "key \<notin> black d" "distinct (depsOf byKey key)"
    "set (depsOf byKey key) \<subseteq> known_keys byKey \<inter> black d"
  shows "settled byKey (d\<lparr>df_state := (df_state d)(key := 2)\<rparr>)"
proof -
  have "(key, key) \<notin> (edges byKey)\<^sup>+"
  proof
    assume "(key, key) \<in> (edges byKey)\<^sup>+"
    then obtain x where x: "(key, x) \<in> edges byKey" "x = key \<or> (x, key) \<in> (edges byKey)\<^sup>+"
      by (metis tranclD rtrancl_eq_or_trancl)
    then have "x \<in> black d" using assms(4) by (auto simp: edges_def)
    with x(2) settled_closed [OF assms(1)] assms(2) show False by blast
  qed
  with assms show ?thesis by (auto simp: settled_def black_def)
qed

lemma visit_sound:
  "visit n byKey key d = Inr d' \<Longrightarrow> settled byKey d \<Longrightarrow>
     settled byKey d' \<and> key \<in> black d' \<and> grey d' = grey d \<and> black d \<subseteq> black d'
     \<and> set (df_seenEdges d) \<subseteq> set (df_seenEdges d')"
  "visitDeps n byKey key ds d = Inr d' \<Longrightarrow> settled byKey d \<Longrightarrow>
     settled byKey d' \<and> set ds \<subseteq> known_keys byKey \<inter> black d' \<and> distinct ds \<and> grey d' = grey d
     \<and> black d \<subseteq> black d' \<and> set (df_seenEdges d) \<subseteq> set (df_seenEdges d')
     \<and> (\<forall>x \<in> set ds. edgeKey key x \<notin> set (df_seenEdges d))"
proof (induction n byKey key d and n byKey key ds d arbitrary: d' and d' rule: visit_visitDeps.induct)
  case (2 n byKey key d)
  show ?case
  proof (cases "df_state d key = 1 \<or> df_state d key = 2")
    case True
    with 2(2,3) show ?thesis by (auto simp: black_def)
  next
    case False
    let ?d = "d\<lparr>df_state := (df_state d)(key := 1)\<rparr>"
    from 2(2) False obtain e where e: "visitDeps n byKey key (depsOf byKey key) ?d = Inr e"
      and d': "d' = e\<lparr>df_state := (df_state e)(key := 2)\<rparr>"
      by (auto simp: bindE_Inr_iff)
    have b: "black ?d = black d" and g: "grey ?d = insert key (grey d)" and "key \<notin> grey d"
      using False by (auto simp: black_def grey_def)
    have "settled byKey ?d" using 2(3) unfolding settled_def b .
    from 2(1) [OF _ _ e this] False
    have ih: "settled byKey e" "set (depsOf byKey key) \<subseteq> known_keys byKey \<inter> black e"
      "distinct (depsOf byKey key)" "grey e = grey ?d" "black ?d \<subseteq> black e"
      "set (df_seenEdges d) \<subseteq> set (df_seenEdges e)"
      by auto
    have "key \<in> grey e" using ih(4) g by simp
    then have "key \<notin> black e" by (simp add: black_def grey_def)
    from settled_blacken [OF ih(1) this ih(3,2)] have "settled byKey d'" by (simp add: d')
    moreover have "grey d' = grey d" using ih(4) g \<open>key \<notin> grey d\<close> by (auto simp: d' grey_def)
    moreover have "black d \<subseteq> black d'" "key \<in> black d'" using ih(5) b by (auto simp: d' black_def)
    ultimately show ?thesis using ih(6) by (simp add: d')
  qed
next
  case (4 n byKey key dep rest d)
  let ?d = "d\<lparr>df_seenEdges := df_seenEdges d @ [edgeKey key dep]\<rparr>"
  from 4(3) obtain e where k: "map_of byKey dep \<noteq> None" and ne: "dep \<noteq> key"
    and fresh: "edgeKey key dep \<notin> set (df_seenEdges d)"
    and e: "visit n byKey dep ?d = Inr e" and r: "visitDeps n byKey key rest e = Inr d'"
    by (auto simp: bindE_Inr_iff split: if_splits)
  have "settled byKey ?d" using 4(4) by (simp add: settled_def black_def)
  from 4(1) [OF k ne fresh e this]
  have v: "settled byKey e" "dep \<in> black e" "grey e = grey d" "black d \<subseteq> black e"
    "set (df_seenEdges ?d) \<subseteq> set (df_seenEdges e)"
    by (auto simp: grey_def black_def)
  from 4(2) [OF k ne fresh r v(1)] v k fresh show ?case
    by (auto simp: known_keys_iff)
qed simp_all

lemma visitAll_sound:
  "visitAll n byKey keys d = Inr d' \<Longrightarrow> settled byKey d \<Longrightarrow>
     settled byKey d' \<and> set keys \<subseteq> black d' \<and> black d \<subseteq> black d'"
proof (induction keys arbitrary: d)
  case (Cons k ks)
  then obtain e where e: "visit n byKey k d = Inr e" and r: "visitAll n byKey ks e = Inr d'"
    by (auto simp: bindE_Inr_iff)
  from visit_sound(1) [OF e Cons.prems(2)] Cons.IH [OF r] show ?case by auto
qed simp

lemma validateDAG_sound: "validateDAG byKey = Inr () \<Longrightarrow> sound_graph byKey"
proof -
  assume "validateDAG byKey = Inr ()"
  then obtain d' where "visitAll (Suc (length byKey)) byKey (map fst byKey) dfs_init = Inr d'"
    by (auto simp: validateDAG_def bindE_Inr_iff)
  from visitAll_sound [OF this] have s: "settled byKey d'" and all: "known_keys byKey \<subseteq> black d'"
    by (auto simp: settled_def black_def dfs_init_def known_keys_def)
  have "(k, k) \<notin> (edges byKey)\<^sup>+" for k
  proof (cases "k \<in> known_keys byKey")
    case True
    with s all show ?thesis by (auto simp: settled_def)
  next
    case False
    then show ?thesis by (auto simp: edges_def depsOf_unknown dest: tranclD)
  qed
  moreover have "distinct (depsOf byKey k) \<and> set (depsOf byKey k) \<subseteq> known_keys byKey" for k
    using s all depsOf_unknown [of k byKey] by (cases "k \<in> known_keys byKey") (auto simp: settled_def)
  ultimately show ?thesis by (simp add: sound_graph_def acyclic_def)
qed

subsection \<open>The recursion has enough fuel\<close>

definition advanced :: "dfs \<Rightarrow> dfs \<Rightarrow> bool" where
  "advanced d e \<longleftrightarrow> (\<forall>k. df_state d k \<noteq> 0 \<longrightarrow> df_state e k \<noteq> 0)"

lemma advanced_trans: "advanced d e \<Longrightarrow> advanced e f \<Longrightarrow> advanced d f"
  by (simp add: advanced_def)

lemma advanced_white: "advanced d e \<Longrightarrow> card (white byKey e) \<le> card (white byKey d)"
  by (rule card_mono [OF finite_white]) (auto simp: white_def advanced_def)

lemma visit_advanced:
  "visit n byKey key d = Inr d' \<Longrightarrow> advanced d d' \<and> df_state d' key \<noteq> 0"
  "visitDeps n byKey key ds d = Inr d' \<Longrightarrow> advanced d d'"
proof (induction n byKey key d and n byKey key ds d arbitrary: d' and d' rule: visit_visitDeps.induct)
  case (4 n byKey key dep rest d)
  from 4(3) obtain e where k: "map_of byKey dep \<noteq> None" and ne: "dep \<noteq> key"
    and fresh: "edgeKey key dep \<notin> set (df_seenEdges d)"
    and e: "visit n byKey dep (d\<lparr>df_seenEdges := df_seenEdges d @ [edgeKey key dep]\<rparr>) = Inr e"
    and r: "visitDeps n byKey key rest e = Inr d'"
    by (auto simp: bindE_Inr_iff split: if_splits)
  from 4(1) [OF k ne fresh e] 4(2) [OF k ne fresh r] show ?case by (auto simp: advanced_def)
qed (auto simp: bindE_Inr_iff advanced_def split: if_splits)

lemma white_after_grey:
  assumes "key \<in> known_keys byKey" "df_state d key = 0"
  shows "card (white byKey d) = Suc (card (white byKey (d\<lparr>df_state := (df_state d)(key := 1)\<rparr>)))"
proof -
  have "white byKey (d\<lparr>df_state := (df_state d)(key := 1)\<rparr>) = white byKey d - {key}"
    by (auto simp: white_def)
  moreover have "key \<in> white byKey d" using assms by (simp add: white_def)
  ultimately show ?thesis by (metis card_Suc_Diff1 finite_white)
qed

text \<open>Every colour the search writes is 0, 1 or 2.\<close>

definition coloured :: "dfs \<Rightarrow> bool" where
  "coloured d \<longleftrightarrow> (\<forall>k. df_state d k \<le> 2)"

lemma coloured_cases: "coloured d \<Longrightarrow> df_state d k = 0 \<or> df_state d k = 1 \<or> df_state d k = 2"
  unfolding coloured_def by (drule spec [of _ k]) linarith

lemma visit_coloured:
  "visit n byKey key d = Inr d' \<Longrightarrow> coloured d \<Longrightarrow> coloured d'"
  "visitDeps n byKey key ds d = Inr d' \<Longrightarrow> coloured d \<Longrightarrow> coloured d'"
proof (induction n byKey key d and n byKey key ds d arbitrary: d' and d' rule: visit_visitDeps.induct)
  case (2 n byKey key d)
  then show ?case by (auto simp: bindE_Inr_iff coloured_def split: if_splits)
next
  case (4 n byKey key dep rest d)
  from 4(3) obtain e where k: "map_of byKey dep \<noteq> None" and ne: "dep \<noteq> key"
    and fresh: "edgeKey key dep \<notin> set (df_seenEdges d)"
    and e: "visit n byKey dep (d\<lparr>df_seenEdges := df_seenEdges d @ [edgeKey key dep]\<rparr>) = Inr e"
    and r: "visitDeps n byKey key rest e = Inr d'"
    by (auto simp: bindE_Inr_iff split: if_splits)
  from 4(1) [OF k ne fresh e] 4(2) [OF k ne fresh r] 4(4) show ?case by (auto simp: coloured_def)
qed simp_all

lemma visit_enough_fuel:
  "card (white byKey d) < n \<Longrightarrow> key \<in> known_keys byKey \<Longrightarrow> coloured d \<Longrightarrow>
     visit n byKey key d \<noteq> Inl OutOfFuel"
  "card (white byKey d) < n \<Longrightarrow> coloured d \<Longrightarrow> visitDeps n byKey key ds d \<noteq> Inl OutOfFuel"
proof (induction n byKey key d and n byKey key ds d rule: visit_visitDeps.induct)
  case (2 n byKey key d)
  show ?case
  proof (cases "df_state d key = 1 \<or> df_state d key = 2")
    case False
    then have w: "df_state d key = 0" using 2(4) using coloured_cases [of d key] by blast
    have "coloured (d\<lparr>df_state := (df_state d)(key := 1)\<rparr>)" using 2(4) by (simp add: coloured_def)
    moreover have "card (white byKey (d\<lparr>df_state := (df_state d)(key := 1)\<rparr>)) < n"
      using white_after_grey [OF 2(3) w] 2(2) by simp
    ultimately show ?thesis using 2(1) False by (auto simp: bindE_Inl_iff)
  qed auto
next
  case (4 n byKey key dep rest d)
  let ?d = "d\<lparr>df_seenEdges := df_seenEdges d @ [edgeKey key dep]\<rparr>"
  have w: "white byKey ?d = white byKey d" and c: "coloured ?d"
    using 4(4) by (simp_all add: white_def coloured_def)
  show ?case
  proof (cases "map_of byKey dep = None \<or> dep = key \<or> edgeKey key dep \<in> set (df_seenEdges d)")
    case False
    then have k: "dep \<in> known_keys byKey" by (simp add: known_keys_iff)
    from 4(1) [OF _ _ _ _ k c] 4(3) w False have v: "visit n byKey dep ?d \<noteq> Inl OutOfFuel" by auto
    have "visitDeps n byKey key rest e \<noteq> Inl OutOfFuel" if e: "visit n byKey dep ?d = Inr e" for e
    proof -
      have "card (white byKey e) < n"
        using advanced_white [of ?d e byKey] visit_advanced(1) [OF e] w 4(3) by simp
      with 4(2) [of e] visit_coloured(1) [OF e c] False show ?thesis by auto
    qed
    with v False show ?thesis by (auto simp: bindE_Inl_iff)
  qed auto
qed simp_all

lemma visitAll_enough_fuel:
  "card (white byKey d) < n \<Longrightarrow> set keys \<subseteq> known_keys byKey \<Longrightarrow> coloured d \<Longrightarrow>
     visitAll n byKey keys d \<noteq> Inl OutOfFuel"
proof (induction keys arbitrary: d)
  case (Cons k ks)
  have "visitAll n byKey ks e \<noteq> Inl OutOfFuel" if e: "visit n byKey k d = Inr e" for e
    using Cons.IH [of e] Cons.prems visit_coloured(1) [OF e] visit_advanced(1) [OF e]
      advanced_white [of d e byKey] by auto
  with visit_enough_fuel(1) [of byKey d n k] Cons.prems show ?case by (auto simp: bindE_Inl_iff)
qed simp

lemma white_bound: "card (white byKey d) \<le> length byKey"
proof -
  have "card (white byKey d) \<le> card (fst ` set byKey)"
    by (rule card_mono) (auto simp: white_def known_keys_def)
  also have "\<dots> \<le> length byKey"
    by (metis card_image_le finite_set card_length le_trans)
  finally show ?thesis .
qed

lemma validateDAG_enough_fuel: "validateDAG byKey \<noteq> Inl OutOfFuel"
  using visitAll_enough_fuel [of byKey dfs_init "Suc (length byKey)" "map fst byKey"]
    white_bound [of byKey dfs_init]
  by (auto simp: validateDAG_def bindE_Inl_iff coloured_def dfs_init_def known_keys_def)

subsection \<open>A sound graph is accepted\<close>

definition edges_from_visited :: "by_key \<Rightarrow> dfs \<Rightarrow> bool" where
  "edges_from_visited byKey d \<longleftrightarrow>
     (\<forall>k \<in> known_keys byKey. \<forall>x. edgeKey k x \<in> set (df_seenEdges d) \<longrightarrow> df_state d k \<noteq> 0)"

definition plain_keys :: "by_key \<Rightarrow> bool" where
  "plain_keys byKey \<longleftrightarrow> (\<forall>k \<in> known_keys byKey. CHR 0x00 \<notin> set k)"

text \<open>A call adds only edges whose source was not yet visited.\<close>

definition new_edges_white :: "by_key \<Rightarrow> dfs \<Rightarrow> dfs \<Rightarrow> bool" where
  "new_edges_white byKey d e \<longleftrightarrow>
     (\<forall>k \<in> known_keys byKey. \<forall>x. edgeKey k x \<in> set (df_seenEdges e) \<longrightarrow>
        edgeKey k x \<in> set (df_seenEdges d) \<or> df_state d k = 0)"

lemma visit_new_edges:
  "visit n byKey key d = Inr d' \<Longrightarrow> plain_keys byKey \<Longrightarrow> key \<in> known_keys byKey \<Longrightarrow>
     coloured d \<Longrightarrow> new_edges_white byKey d d'"
  "visitDeps n byKey key ds d = Inr d' \<Longrightarrow> plain_keys byKey \<Longrightarrow> key \<in> known_keys byKey \<Longrightarrow>
     coloured d \<Longrightarrow> df_state d key \<noteq> 0 \<Longrightarrow>
     \<forall>k \<in> known_keys byKey. \<forall>x. edgeKey k x \<in> set (df_seenEdges d') \<longrightarrow>
        edgeKey k x \<in> set (df_seenEdges d) \<or> df_state d k = 0 \<or> k = key"
proof (induction n byKey key d and n byKey key ds d arbitrary: d' and d' rule: visit_visitDeps.induct)
  case (2 n byKey key d)
  show ?case
  proof (cases "df_state d key = 1 \<or> df_state d key = 2")
    case True
    with 2(2) show ?thesis by (auto simp: new_edges_white_def)
  next
    case False
    then have w: "df_state d key = 0" using 2(5) using coloured_cases [of d key] by blast
    let ?d = "d\<lparr>df_state := (df_state d)(key := 1)\<rparr>"
    from 2(2) False obtain e where e: "visitDeps n byKey key (depsOf byKey key) ?d = Inr e"
      and d': "d' = e\<lparr>df_state := (df_state e)(key := 2)\<rparr>"
      by (auto simp: bindE_Inr_iff)
    have "coloured ?d" using 2(5) by (simp add: coloured_def)
    from 2(1) [OF _ _ e 2(3,4) this] False
    have "\<forall>k \<in> known_keys byKey. \<forall>x. edgeKey k x \<in> set (df_seenEdges e) \<longrightarrow>
        edgeKey k x \<in> set (df_seenEdges d) \<or> df_state ?d k = 0 \<or> k = key" by simp
    with w have "edgeKey k x \<in> set (df_seenEdges d) \<or> df_state d k = 0"
      if "k \<in> known_keys byKey" "edgeKey k x \<in> set (df_seenEdges e)" for k x
      using that by (cases "k = key") auto
    then show ?thesis by (simp add: new_edges_white_def d')
  qed
next
  case (4 n byKey key dep rest d)
  let ?d = "d\<lparr>df_seenEdges := df_seenEdges d @ [edgeKey key dep]\<rparr>"
  from 4(3) obtain e where k: "map_of byKey dep \<noteq> None" and ne: "dep \<noteq> key"
    and fresh: "edgeKey key dep \<notin> set (df_seenEdges d)"
    and e: "visit n byKey dep ?d = Inr e" and r: "visitDeps n byKey key rest e = Inr d'"
    by (auto simp: bindE_Inr_iff split: if_splits)
  have c: "coloured ?d" and kn: "dep \<in> known_keys byKey"
    using 4(6) k by (simp_all add: coloured_def known_keys_iff)
  have adv: "advanced ?d e" using visit_advanced(1) [OF e] by simp
  then have ke: "df_state e key \<noteq> 0" using 4(7) by (simp add: advanced_def)
  have v: "new_edges_white byKey ?d e" by (rule 4(1) [OF k ne fresh e 4(4) kn c])
  note rest = 4(2) [OF k ne fresh r 4(4,5) visit_coloured(1) [OF e c] ke]
  show ?case
  proof (intro ballI allI impI)
    fix l x assume l: "l \<in> known_keys byKey" and x: "edgeKey l x \<in> set (df_seenEdges d')"
    have same: "edgeKey l x = edgeKey key dep \<Longrightarrow> l = key"
      using 4(4,5) l by (auto simp: plain_keys_def intro: edgeKey_left)
    consider "edgeKey l x \<in> set (df_seenEdges e)" | "df_state e l = 0" | "l = key"
      using rest [rule_format, OF l x] by argo
    then show "edgeKey l x \<in> set (df_seenEdges d) \<or> df_state d l = 0 \<or> l = key"
    proof cases
      case 1
      with v l same show ?thesis by (auto simp: new_edges_white_def)
    next
      case 2
      with adv show ?thesis by (auto simp: advanced_def)
    qed simp
  qed
qed auto

lemma visit_complete:
  "sound_graph byKey \<Longrightarrow> plain_keys byKey \<Longrightarrow> card (white byKey d) < n \<Longrightarrow>
     key \<in> known_keys byKey \<Longrightarrow> coloured d \<Longrightarrow> edges_from_visited byKey d \<Longrightarrow> settled byKey d \<Longrightarrow>
     \<forall>g \<in> grey d. (g, key) \<in> (edges byKey)\<^sup>+ \<Longrightarrow>
     \<exists>d'. visit n byKey key d = Inr d' \<and> edges_from_visited byKey d'"
  "sound_graph byKey \<Longrightarrow> plain_keys byKey \<Longrightarrow> card (white byKey d) < n \<Longrightarrow>
     key \<in> known_keys byKey \<Longrightarrow> coloured d \<Longrightarrow> edges_from_visited byKey d \<Longrightarrow> settled byKey d \<Longrightarrow>
     df_state d key = 1 \<Longrightarrow> \<forall>g \<in> grey d. (g, key) \<in> (edges byKey)\<^sup>* \<Longrightarrow>
     set ds \<subseteq> set (depsOf byKey key) \<Longrightarrow> distinct ds \<Longrightarrow>
     \<forall>x \<in> set ds. edgeKey key x \<notin> set (df_seenEdges d) \<Longrightarrow>
     \<exists>d'. visitDeps n byKey key ds d = Inr d' \<and> edges_from_visited byKey d'"
proof (induction n byKey key d and n byKey key ds d rule: visit_visitDeps.induct)
  case (2 n byKey key d)
  have "df_state d key \<noteq> 1" using 2(2,9) by (auto simp: sound_graph_def acyclic_def grey_def)
  then consider "df_state d key = 2" | "df_state d key = 0"
    using coloured_cases [OF 2(6), of key] by argo
  then show ?case
  proof cases
    case 1
    then show ?thesis using \<open>edges_from_visited byKey d\<close> by simp
  next
    case w: 2
    let ?d = "d\<lparr>df_state := (df_state d)(key := 1)\<rparr>"
    have b: "black ?d = black d" and g: "grey ?d = insert key (grey d)"
      using w by (auto simp: black_def grey_def)
    have a: "card (white byKey ?d) < n" using white_after_grey [OF 2(5) w] 2(4) by simp
    have c: "coloured ?d" "edges_from_visited byKey ?d" "settled byKey ?d" "df_state ?d key = 1"
      using 2(6-8) unfolding settled_def b by (auto simp: coloured_def edges_from_visited_def)
    have r: "\<forall>g \<in> grey ?d. (g, key) \<in> (edges byKey)\<^sup>*" using 2(9) unfolding g by auto
    have f: "\<forall>x \<in> set (depsOf byKey key). edgeKey key x \<notin> set (df_seenEdges ?d)"
      using 2(5,7) w by (auto simp: edges_from_visited_def)
    have "distinct (depsOf byKey key)" using 2(2) by (simp add: sound_graph_def)
    from 2(1) [OF _ _ 2(2,3) a 2(5) c r subset_refl this f] w
    obtain e where "visitDeps n byKey key (depsOf byKey key) ?d = Inr e" "edges_from_visited byKey e"
      by auto
    with w show ?thesis by (auto simp: edges_from_visited_def)
  qed
next
  case (4 n byKey key dep rest d)
  let ?d = "d\<lparr>df_seenEdges := df_seenEdges d @ [edgeKey key dep]\<rparr>"
  have ed: "(key, dep) \<in> edges byKey" using 4(12) by (simp add: edges_def)
  have kn: "dep \<in> known_keys byKey" and ne: "dep \<noteq> key"
    using 4(3) 4(12) ed by (auto simp: sound_graph_def acyclic_def)
  have k: "map_of byKey dep \<noteq> None" using kn by (simp add: known_keys_iff)
  have fresh: "edgeKey key dep \<notin> set (df_seenEdges d)" using 4(14) by simp
  have "edgeKey l x \<in> set (df_seenEdges ?d) \<Longrightarrow> df_state ?d l \<noteq> 0" if "l \<in> known_keys byKey" for l x
    using 4(4,6,8,10) that edgeKey_left [of l x key dep]
    by (auto simp: edges_from_visited_def plain_keys_def)
  then have ev: "edges_from_visited byKey ?d" by (simp add: edges_from_visited_def)
  have c: "coloured ?d" and s: "settled byKey ?d" and w: "card (white byKey ?d) < n" and g: "grey ?d = grey d"
    using 4(5,7,9) by (simp_all add: coloured_def settled_def black_def grey_def white_def)
  have r: "\<forall>g \<in> grey ?d. (g, dep) \<in> (edges byKey)\<^sup>+"
    using 4(11) ed unfolding g by (blast intro: rtrancl_into_trancl1)
  obtain e where e: "visit n byKey dep ?d = Inr e" and eve: "edges_from_visited byKey e"
    using 4(1) [OF k ne fresh 4(3,4) w kn c ev s r] by blast
  from visit_sound(1) [OF e s] have v: "settled byKey e" "grey e = grey d" by (simp_all add: g)
  have adv: "advanced ?d e" using visit_advanced(1) [OF e] by simp
  have we: "card (white byKey e) < n" using advanced_white [OF adv, of byKey] w by simp
  have ke: "df_state e key = 1" using v(2) 4(10) by (auto simp: grey_def)
  have "new_edges_white byKey ?d e" by (rule visit_new_edges(1) [OF e 4(4) kn c])
  then have fe: "\<forall>x \<in> set rest. edgeKey key x \<notin> set (df_seenEdges e)"
    using 4(6,10,13,14) edgeKey_right [of key _ dep] unfolding new_edges_white_def by fastforce
  have "\<exists>d'. visitDeps n byKey key rest e = Inr d' \<and> edges_from_visited byKey d'"
    using 4(2) [OF k ne fresh 4(3,4) we 4(6) visit_coloured(1) [OF e c] eve v(1) ke _ _ _ fe]
      4(11-13) v(2) by simp
  then show ?case using k ne fresh e by (auto simp: bindE_Inr_iff)
qed auto

lemma visitAll_complete:
  "sound_graph byKey \<Longrightarrow> plain_keys byKey \<Longrightarrow> set keys \<subseteq> known_keys byKey \<Longrightarrow>
     card (white byKey d) < n \<Longrightarrow> coloured d \<Longrightarrow> edges_from_visited byKey d \<Longrightarrow> settled byKey d \<Longrightarrow>
     grey d = {} \<Longrightarrow> \<exists>d'. visitAll n byKey keys d = Inr d'"
proof (induction keys arbitrary: d)
  case (Cons k ks)
  obtain e where e: "visit n byKey k d = Inr e" and ev: "edges_from_visited byKey e"
    using visit_complete(1) [of byKey d n k] Cons.prems by auto
  have "card (white byKey e) < n"
    using advanced_white [of d e byKey] visit_advanced(1) [OF e] Cons.prems(4) by simp
  moreover have "settled byKey e" "grey e = {}"
    using visit_sound(1) [OF e Cons.prems(7)] Cons.prems(8) by simp_all
  moreover have "coloured e" by (rule visit_coloured(1) [OF e Cons.prems(5)])
  ultimately show ?case using Cons.IH [of e] Cons.prems(1-3) e ev by auto
qed simp

lemma validateDAG_iff:
  assumes "plain_keys byKey"
  shows "validateDAG byKey = Inr () \<longleftrightarrow> sound_graph byKey"
proof
  assume s: "sound_graph byKey"
  have "card (white byKey dfs_init) < Suc (length byKey)" using white_bound by (simp add: less_Suc_eq_le)
  moreover have "coloured dfs_init" "edges_from_visited byKey dfs_init" "settled byKey dfs_init"
    "grey dfs_init = {}"
    by (simp_all add: dfs_init_def coloured_def edges_from_visited_def settled_def black_def grey_def)
  ultimately obtain d' where "visitAll (Suc (length byKey)) byKey (map fst byKey) dfs_init = Inr d'"
    using visitAll_complete [OF s assms, of "map fst byKey" dfs_init "Suc (length byKey)"]
    unfolding known_keys_def by auto
  then show "validateDAG byKey = Inr ()" by (simp add: validateDAG_def)
qed (rule validateDAG_sound)

end
