(* ===== verification/PlanIntegration.thy ===== *)
theory PlanIntegration
  imports PlanGraph
begin

text \<open>
  What \<open>validateIntegrationGraph\<close> decides: one integration step, last in the order, that owns the
  union of the producers' criteria and depends directly on every branch end. With the search of
  \<open>validateDAG\<close> this makes the integration step depend, directly or not, on every other step.
\<close>

definition producers :: "by_key \<Rightarrow> by_key" where
  "producers byKey = filter (\<lambda>(k, s). si_Role s = StepRoleImplementation) byKey"

definition integrators :: "by_key \<Rightarrow> by_key" where
  "integrators byKey = filter (\<lambda>(k, s). si_Role s = StepRoleIntegration) byKey"

definition all_criteria :: "by_key \<Rightarrow> string list" where
  "all_criteria steps = concat (map (\<lambda>(k, s). si_AcceptanceCriteria s) steps)"

definition all_dependencies :: "by_key \<Rightarrow> string list" where
  "all_dependencies steps = concat (map (\<lambda>(k, s). si_DependsOn s) steps)"

text \<open>The contract of the integration step, over the whole graph.\<close>

definition integration_contract :: "by_key \<Rightarrow> step_input \<Rightarrow> bool" where
  "integration_contract byKey i \<longleftrightarrow>
     map snd (integrators byKey) = [i]
     \<and> (\<forall>(k, s) \<in> set byKey. si_Role s = StepRoleImplementation \<or> si_Role s = StepRoleIntegration)
     \<and> distinct (all_criteria (producers byKey)) \<and> all_criteria (producers byKey) \<noteq> []
     \<and> set (si_AcceptanceCriteria i) = set (all_criteria (producers byKey))
     \<and> -1 < si_Order i \<and> (\<forall>(k, s) \<in> set (producers byKey). si_Order s < si_Order i)
     \<and> (\<forall>d \<in> set (all_dependencies (producers byKey)). roleOf byKey d \<noteq> StepRoleIntegration)
     \<and> (\<forall>d \<in> set (si_DependsOn i). roleOf byKey d = StepRoleImplementation)
     \<and> fst ` set (producers byKey) \<subseteq> set (all_dependencies (producers byKey)) \<union> set (si_DependsOn i)"

lemma roles_differ [simp]:
  "StepRoleImplementation \<noteq> StepRoleIntegration" "StepRoleIntegration \<noteq> StepRoleImplementation"
  by (simp_all add: DeliveryPlanStepRoleImplementation_def DeliveryPlanStepRoleIntegration_def)

lemma producers_simps [simp]:
  "producers [] = []"
  "producers ((k, s) # r) =
     (if si_Role s = StepRoleImplementation then (k, s) # producers r else producers r)"
  by (simp_all add: producers_def)

lemma integrators_simps [simp]:
  "integrators [] = []"
  "integrators ((k, s) # r) =
     (if si_Role s = StepRoleIntegration then (k, s) # integrators r else integrators r)"
  by (simp_all add: integrators_def)

lemma all_simps [simp]:
  "all_criteria [] = []" "all_criteria ((k, s) # r) = si_AcceptanceCriteria s @ all_criteria r"
  "all_dependencies [] = []" "all_dependencies ((k, s) # r) = si_DependsOn s @ all_dependencies r"
  by (simp_all add: all_criteria_def all_dependencies_def)

lemma addCriteria_Inr_iff:
  "addCriteria seen cs = Inr r \<longleftrightarrow> r = seen @ cs \<and> distinct cs \<and> set cs \<inter> set seen = {}"
  by (induction seen cs rule: addCriteria.induct) auto

lemma addSuccessors_Inr_iff:
  "addSuccessors byKey succs ds = Inr r \<longleftrightarrow>
     r = succs @ ds \<and> (\<forall>d \<in> set ds. roleOf byKey d \<noteq> StepRoleIntegration)"
  by (induction byKey succs ds rule: addSuccessors.induct) auto

definition max_order :: "by_key \<Rightarrow> int \<Rightarrow> int" where
  "max_order steps m = fold (\<lambda>(k, s) m. max m (si_Order s)) steps m"

lemma max_order_simps [simp]:
  "max_order [] m = m" "max_order ((k, s) # r) m = max_order r (max m (si_Order s))"
  by (simp_all add: max_order_def)

lemma max_order_less: "max_order steps m < x \<longleftrightarrow> m < x \<and> (\<forall>(k, s) \<in> set steps. si_Order s < x)"
  by (induction steps arbitrary: m) auto

lemma scanSteps_Inr_iff:
  "distinct (is_producerCriteria s) \<Longrightarrow>
   scanSteps byKey rest s = Inr s' \<longleftrightarrow>
     (\<forall>(k, st) \<in> set rest. si_Role st = StepRoleImplementation \<or> si_Role st = StepRoleIntegration)
     \<and> (if is_integration s = None then length (integrators rest) \<le> 1 else integrators rest = [])
     \<and> distinct (is_producerCriteria s @ all_criteria (producers rest))
     \<and> (\<forall>d \<in> set (all_dependencies (producers rest)). roleOf byKey d \<noteq> StepRoleIntegration)
     \<and> s' = \<lparr>is_integration = (case integrators rest of [] \<Rightarrow> is_integration s | (k, i) # _ \<Rightarrow> Some i),
             is_producerCriteria = is_producerCriteria s @ all_criteria (producers rest),
             is_maxProducerOrder = max_order (producers rest) (is_maxProducerOrder s),
             is_successors = is_successors s @ all_dependencies (producers rest)\<rparr>"
proof (induction byKey rest s rule: scanSteps.induct)
  case (1 byKey s)
  then show ?case by (cases s) auto
next
  case (2 byKey key step rest s)
  consider (int) "si_Role step = StepRoleIntegration" | (imp) "si_Role step = StepRoleImplementation"
    | (bad) "si_Role step \<noteq> StepRoleIntegration" "si_Role step \<noteq> StepRoleImplementation"
    by blast
  then show ?case
  proof cases
    case int
    show ?thesis
    proof (cases "is_integration s")
      case None
      with int 2(1) 2(3) show ?thesis by (cases "integrators rest") auto
    qed (use int in auto)
  next
    case imp
    let ?s = "s\<lparr>is_maxProducerOrder := max (is_maxProducerOrder s) (si_Order step),
             is_producerCriteria := is_producerCriteria s @ si_AcceptanceCriteria step,
             is_successors := is_successors s @ si_DependsOn step\<rparr>"
    let ?ok = "distinct (si_AcceptanceCriteria step)
      \<and> set (si_AcceptanceCriteria step) \<inter> set (is_producerCriteria s) = {}
      \<and> (\<forall>d \<in> set (si_DependsOn step). roleOf byKey d \<noteq> StepRoleIntegration)"
    have unfold: "scanSteps byKey ((key, step) # rest) s = Inr s' \<longleftrightarrow> ?ok \<and> scanSteps byKey rest ?s = Inr s'"
      using imp by (auto simp: bindE_Inr_iff addCriteria_Inr_iff addSuccessors_Inr_iff)
    have rest: "?ok \<Longrightarrow> distinct (is_producerCriteria ?s)" using 2(3) by auto
    have ok: "distinct (is_producerCriteria s @ all_criteria (producers ((key, step) # rest)))
        \<and> (\<forall>d \<in> set (all_dependencies (producers ((key, step) # rest))). roleOf byKey d \<noteq> StepRoleIntegration)
      \<longleftrightarrow> ?ok \<and> distinct (is_producerCriteria ?s @ all_criteria (producers rest))
        \<and> (\<forall>d \<in> set (all_dependencies (producers rest)). roleOf byKey d \<noteq> StepRoleIntegration)"
      using imp 2(3) by (simp add: ball_Un) blast
    have out: "is_producerCriteria s @ all_criteria (producers ((key, step) # rest))
        = is_producerCriteria ?s @ all_criteria (producers rest)"
      "is_successors s @ all_dependencies (producers ((key, step) # rest))
        = is_successors ?s @ all_dependencies (producers rest)"
      "max_order (producers ((key, step) # rest)) (is_maxProducerOrder s)
        = max_order (producers rest) (is_maxProducerOrder ?s)"
      "is_integration ?s = is_integration s" "integrators ((key, step) # rest) = integrators rest"
      using imp by simp_all
    have roles: "(\<forall>(k, st) \<in> set ((key, step) # rest).
          si_Role st = StepRoleImplementation \<or> si_Role st = StepRoleIntegration)
      \<longleftrightarrow> (\<forall>(k, st) \<in> set rest. si_Role st = StepRoleImplementation \<or> si_Role st = StepRoleIntegration)"
      using imp by simp
    have a: "si_Role step \<noteq> StepRoleIntegration" "\<not> si_Role step \<noteq> StepRoleImplementation"
      using imp by simp_all
    show ?thesis
    proof (cases ?ok)
      case True
      note ih = 2(2) [OF a rest [OF True]]
      show ?thesis unfolding unfold roles ih out using ok [unfolded out] True by argo
    next
      case False
      then show ?thesis unfolding unfold using ok by argo
    qed
  qed auto
qed

lemma same_criteria_iff:
  assumes "distinct ps"
  shows "length (remdups cs) = length ps \<and> (\<forall>c \<in> set ps. c \<in> set cs) \<longleftrightarrow> set cs = set ps"
proof -
  have l: "length (remdups cs) = card (set cs)" "length ps = card (set ps)"
    using assms by (simp_all add: length_remdups_card_conv distinct_card)
  show ?thesis
  proof
    assume "length (remdups cs) = length ps \<and> (\<forall>c \<in> set ps. c \<in> set cs)"
    then have "card (set ps) = card (set cs)" "set ps \<subseteq> set cs" using l by auto
    then show "set cs = set ps" by (metis card_subset_eq finite_set)
  qed (use l in auto)
qed

lemma covered_branches_iff:
  assumes "distinct ts"
  shows "length ts \<le> length (remdups ds) \<and> (\<forall>t \<in> set ts. t \<in> set ds) \<longleftrightarrow> set ts \<subseteq> set ds"
proof -
  have "card (set ts) \<le> card (set ds)" if "set ts \<subseteq> set ds" using that by (simp add: card_mono)
  then show ?thesis
    using assms by (auto simp: length_remdups_card_conv distinct_card)
qed

lemma terminalBranches_set:
  "set (terminalBranches byKey succs) = fst ` set (producers byKey) - set succs"
  by (force simp: terminalBranches_def producers_def)

lemma distinct_terminalBranches:
  "distinct (map fst byKey) \<Longrightarrow> distinct (terminalBranches byKey succs)"
  unfolding terminalBranches_def by (rule distinct_map_filter)

definition scan_result :: "by_key \<Rightarrow> step_input \<Rightarrow> integration_scan" where
  "scan_result byKey i =
     \<lparr>is_integration = Some i, is_producerCriteria = all_criteria (producers byKey),
      is_maxProducerOrder = max_order (producers byKey) (-1),
      is_successors = all_dependencies (producers byKey)\<rparr>"

lemma scan_result_sel [simp]:
  "is_integration (scan_result byKey i) = Some i"
  "is_producerCriteria (scan_result byKey i) = all_criteria (producers byKey)"
  "is_maxProducerOrder (scan_result byKey i) = max_order (producers byKey) (-1)"
  "is_successors (scan_result byKey i) = all_dependencies (producers byKey)"
  by (simp_all add: scan_result_def)

lemma scan_all_iff:
  "scanSteps byKey byKey scan_init = Inr s' \<and> is_integration s' = Some i \<longleftrightarrow>
     s' = scan_result byKey i
     \<and> (\<forall>(k, s) \<in> set byKey. si_Role s = StepRoleImplementation \<or> si_Role s = StepRoleIntegration)
     \<and> map snd (integrators byKey) = [i] \<and> distinct (all_criteria (producers byKey))
     \<and> (\<forall>d \<in> set (all_dependencies (producers byKey)). roleOf byKey d \<noteq> StepRoleIntegration)"
  unfolding scan_init_def
  by (subst scanSteps_Inr_iff) (auto simp: scan_result_def split: list.splits)

lemma checkIntegration_iff:
  assumes "distinct (map fst byKey)" "distinct (all_criteria (producers byKey))"
  shows "checkIntegration byKey (scan_result byKey i) i = Inr () \<longleftrightarrow>
      all_criteria (producers byKey) \<noteq> [] \<and> max_order (producers byKey) (-1) < si_Order i
      \<and> set (si_AcceptanceCriteria i) = set (all_criteria (producers byKey))
      \<and> (\<forall>d \<in> set (si_DependsOn i). roleOf byKey d = StepRoleImplementation)
      \<and> fst ` set (producers byKey) - set (all_dependencies (producers byKey)) \<subseteq> set (si_DependsOn i)"
  using same_criteria_iff [OF assms(2), of "si_AcceptanceCriteria i"]
    covered_branches_iff [OF distinct_terminalBranches [OF assms(1)],
      of "all_dependencies (producers byKey)" "si_DependsOn i"]
  by (auto simp: checkIntegration_def Let_def list_ex_iff terminalBranches_set not_le not_less)

lemma validateIntegrationGraph_iff:
  assumes "distinct (map fst byKey)"
  shows "validateIntegrationGraph byKey = Inr () \<longleftrightarrow> byKey = [] \<or> (\<exists>i. integration_contract byKey i)"
proof -
  have "byKey \<noteq> [] \<Longrightarrow> validateIntegrationGraph byKey = Inr () \<longleftrightarrow>
      (\<exists>i s'. (scanSteps byKey byKey scan_init = Inr s' \<and> is_integration s' = Some i)
        \<and> checkIntegration byKey s' i = Inr ())"
    by (auto simp: validateIntegrationGraph_def bindE_Inr_iff split: option.splits)
  then have "byKey \<noteq> [] \<Longrightarrow> validateIntegrationGraph byKey = Inr () \<longleftrightarrow> (\<exists>i. integration_contract byKey i)"
    unfolding scan_all_iff integration_contract_def
    using checkIntegration_iff [OF assms] by (fastforce simp: max_order_less)
  then show ?thesis by (cases "byKey = []") (simp_all add: validateIntegrationGraph_def)
qed

subsection \<open>The integration step depends on every other step\<close>

lemma producers_iff: "(k, s) \<in> set (producers byKey) \<longleftrightarrow> (k, s) \<in> set byKey \<and> si_Role s = StepRoleImplementation"
  by (auto simp: producers_def)

lemma depsOf_mem: "distinct (map fst byKey) \<Longrightarrow> (k, s) \<in> set byKey \<Longrightarrow> depsOf byKey k = si_DependsOn s"
  by (simp add: depsOf_def)

lemma finite_edges: "finite (edges byKey)"
proof -
  have "edges byKey \<subseteq> (\<Union>k \<in> known_keys byKey. {k} \<times> set (depsOf byKey k))"
    by (auto simp: edges_def) (metis depsOf_unknown empty_iff list.set(1))
  then show ?thesis by (rule finite_subset) (simp add: known_keys_def)
qed

lemma integration_reaches_all:
  assumes d: "distinct (map fst byKey)" and s: "sound_graph byKey"
    and i: "integration_contract byKey i" and ki: "(ki, i) \<in> set byKey"
    and k: "k \<in> fst ` set (producers byKey)"
  shows "(ki, k) \<in> (edges byKey)\<^sup>+"
proof -
  have "wf (edges byKey)" using s finite_edges by (auto simp: sound_graph_def intro: finite_acyclic_wf)
  then show ?thesis using k
  proof (induction k rule: wf_induct_rule)
    case (less k)
    then consider "k \<in> set (all_dependencies (producers byKey))" | "k \<in> set (si_DependsOn i)"
      using i by (auto simp: integration_contract_def)
    then show ?case
    proof cases
      case 1
      then obtain p st where p: "(p, st) \<in> set (producers byKey)" "k \<in> set (si_DependsOn st)"
        by (auto simp: all_dependencies_def)
      then have "(p, k) \<in> edges byKey" using depsOf_mem [OF d, of p st] by (simp add: producers_iff edges_def)
      moreover have "p \<in> fst ` set (producers byKey)" using p(1) by force
      ultimately show ?thesis using less.IH by (blast intro: trancl_into_trancl)
    next
      case 2
      then show ?thesis using depsOf_mem [OF d ki] by (auto simp: edges_def)
    qed
  qed
qed

end
