(* ===== verification/PlanNormalize.thy ===== *)
theory PlanNormalize
  imports PlanIntegration
begin

text \<open>
  What a successful \<open>Normalize\<close> gives: normalized inputs, an acyclic graph of rows that ends in
  its integration step, and a result that does not depend on the order in which Go ranges over
  its maps.
\<close>

subsection \<open>Normalized inputs\<close>

definition normal_input :: "step_input \<Rightarrow> bool" where
  "normal_input i \<longleftrightarrow>
     stepKeyPattern (si_Key i)
     \<and> (si_Role i = StepRoleImplementation \<or> si_Role i = StepRoleIntegration)
     \<and> 0 \<le> si_Order i \<and> si_Title i \<noteq> [] \<and> length (si_Title i) \<le> 240 \<and> length (si_Objective i) \<le> 5000
     \<and> idempotencyKeyPattern (si_IdempotencyKey i)
     \<and> distinct (si_DependsOn i) \<and> distinct (si_AcceptanceCriteria i) \<and> si_AcceptanceCriteria i \<noteq> []
     \<and> length (si_AcceptanceCriteria i) \<le> MaxAcceptanceCriteria
     \<and> (\<forall>c \<in> set (si_AcceptanceCriteria i). c \<noteq> [] \<and> length c \<le> 400)"

definition normal_inputs :: "step_input list \<Rightarrow> bool" where
  "normal_inputs is \<longleftrightarrow>
     (\<forall>i \<in> set is. normal_input i) \<and> distinct (map si_Key is) \<and> distinct (map si_Order is)
     \<and> distinct (map si_IdempotencyKey is)"

lemma normalizeCriteria_Inr:
  "normalizeCriteria key seen cs = Inr r \<Longrightarrow> distinct seen \<Longrightarrow>
     \<forall>c \<in> set seen. c \<noteq> [] \<and> length c \<le> 400 \<Longrightarrow>
     distinct r \<and> length r = length seen + length cs \<and> (\<forall>c \<in> set r. c \<noteq> [] \<and> length c \<le> 400)"
  by (induction key seen cs arbitrary: r rule: normalizeCriteria.induct)
    (auto simp: Let_def split: if_splits)

lemma normalizeDependsOn_Inr:
  "normalizeDependsOn key seen ds = Inr r \<Longrightarrow> distinct seen \<Longrightarrow>
     distinct r \<and> r = seen @ map TrimSpace ds"
  by (induction key seen ds arbitrary: r rule: normalizeDependsOn.induct)
    (auto simp: Let_def split: if_splits)

lemma normalizeStepInput_Inr:
  assumes "normalizeStepInput done i0 = Inr i" "normal_inputs done"
  shows "normal_inputs (done @ [i])"
proof -
  from assms(1) obtain rs cs ds where
    r: "normalizeEvidenceRequirements (si_EvidenceRequirements i0) = Inr rs"
    and c: "normalizeCriteria (si_Key i) [] (si_AcceptanceCriteria i0) = Inr cs"
    and d: "normalizeDependsOn (si_Key i) [] (si_DependsOn i0) = Inr ds"
    and i: "si_AcceptanceCriteria i = cs" "si_DependsOn i = ds"
    and k: "stepKeyPattern (si_Key i)" "si_Key i \<notin> set (map si_Key done)"
      "si_Order i \<notin> set (map si_Order done)" "0 \<le> si_Order i"
      "si_Role i = StepRoleImplementation \<or> si_Role i = StepRoleIntegration"
      "si_Title i \<noteq> []" "length (si_Title i) \<le> 240" "length (si_Objective i) \<le> 5000"
      "idempotencyKeyPattern (si_IdempotencyKey i)"
      "si_AcceptanceCriteria i0 \<noteq> []" "length (si_AcceptanceCriteria i0) \<le> MaxAcceptanceCriteria"
    and p: "map_of (rev (map (\<lambda>d. (si_IdempotencyKey d, si_Key d)) done)) (si_IdempotencyKey i) = None
      \<or> map_of (rev (map (\<lambda>d. (si_IdempotencyKey d, si_Key d)) done)) (si_IdempotencyKey i) = Some (si_Key i)"
    unfolding normalizeStepInput_def Let_def
    by (auto simp: bindE_Inr_iff not_less not_le split: if_splits sum.splits)
  have "map_of (rev (map (\<lambda>d. (si_IdempotencyKey d, si_Key d)) done)) (si_IdempotencyKey i) \<noteq> Some (si_Key i)"
    using k(2) by (force dest: map_of_SomeD)
  with p have "si_IdempotencyKey i \<notin> set (map si_IdempotencyKey done)"
    by (auto simp: map_of_eq_None_iff image_image)
  moreover have "normal_input i"
    using normalizeCriteria_Inr [OF c] normalizeDependsOn_Inr [OF d] k i by (auto simp: normal_input_def)
  ultimately show ?thesis using assms(2) k(2,3) by (auto simp: normal_inputs_def)
qed

lemma normalizeInputs_Inr:
  "normalizeInputs done is = Inr r \<Longrightarrow> normal_inputs done \<Longrightarrow>
     normal_inputs r \<and> length r = length done + length is"
  by (induction "done" "is" rule: normalizeInputs.induct)
    (auto simp: bindE_Inr_iff dest: normalizeStepInput_Inr)

lemma slug_char_plain: "slug_char c \<Longrightarrow> c \<noteq> CHR 0x00" "lower_letter c \<Longrightarrow> c \<noteq> CHR 0x00"
  by (auto simp: slug_char_def lower_letter_def digit_char_def less_eq_char_def)

lemma normal_key_plain: "normal_input i \<Longrightarrow> CHR 0x00 \<notin> set (si_Key i)"
  unfolding normal_input_def stepKeyPattern_def
  by (cases "si_Key i") (auto simp: head_tail_match_def list_all_iff dest: slug_char_plain)

lemma by_key_of_keys [simp]: "map fst (by_key_of is) = map si_Key is"
  by (simp add: by_key_of_def)

subsection \<open>Independence of the iteration order\<close>

definition permuting :: "(nat \<Rightarrow> by_key \<Rightarrow> by_key) \<Rightarrow> bool" where
  "permuting iter \<longleftrightarrow> (\<forall>i l. mset (iter i l) = mset l)"

lemma permuted_keys: "mset xs = mset ys \<Longrightarrow> known_keys xs = known_keys ys"
  unfolding known_keys_def by (drule permuted_set) simp

lemma permuted_lookups:
  assumes "mset xs = mset ys" "distinct (map fst ys)"
  shows "depsOf xs = depsOf ys" "roleOf xs = roleOf ys"
  unfolding depsOf_def roleOf_def permuted_map_of [OF assms] by (rule refl)+

lemma permuted_graph:
  assumes "mset xs = mset ys" "distinct (map fst ys)"
  shows "edges xs = edges ys" "sound_graph xs \<longleftrightarrow> sound_graph ys"
  unfolding edges_def sound_graph_def permuted_lookups [OF assms] permuted_keys [OF assms(1)]
  by (rule refl)+

lemma permuted_contract:
  assumes p: "mset xs = mset ys" and d: "distinct (map fst ys)"
  shows "integration_contract xs i \<longleftrightarrow> integration_contract ys i"
proof -
  have pr: "mset (producers xs) = mset (producers ys)" "mset (integrators xs) = mset (integrators ys)"
    using p by (simp_all add: producers_def integrators_def mset_filter)
  have c: "mset (all_criteria (producers xs)) = mset (all_criteria (producers ys))"
    "mset (all_dependencies (producers xs)) = mset (all_dependencies (producers ys))"
    unfolding all_criteria_def all_dependencies_def by (rule permuted_concat [OF pr(1)])+
  have int: "map snd (integrators xs) = [i] \<longleftrightarrow> map snd (integrators ys) = [i]"
    using pr(2) by (metis mset_map mset_single_iff_right mset.simps(1) mset.simps(2))
  show ?thesis
    unfolding integration_contract_def int permuted_lookups [OF p d] permuted_set [OF p]
      permuted_set [OF pr(1)] permuted_set [OF c(1)] permuted_set [OF c(2)]
    using mset_eq_imp_distinct_iff [OF c(1)] mset_eq_length [OF c(1)] by auto
qed

lemma graph_checks_iff:
  assumes n: "normal_inputs is" and p: "permuting iter"
  shows "validateDAG (iter j (by_key_of is)) = Inr () \<longleftrightarrow> sound_graph (by_key_of is)"
    "validateIntegrationGraph (iter j (by_key_of is)) = Inr () \<longleftrightarrow>
       is = [] \<or> (\<exists>i. integration_contract (by_key_of is) i)"
proof -
  let ?b = "by_key_of is"
  have m: "mset (iter j ?b) = mset ?b" using p by (simp add: permuting_def)
  have d: "distinct (map fst ?b)" using n by (simp add: normal_inputs_def)
  have dj: "distinct (map fst (iter j ?b))"
    using mset_eq_imp_distinct_iff [OF permuted_map [OF m, of fst]] d by blast
  have e: "iter j ?b = [] \<longleftrightarrow> is = []" using mset_eq_length [OF m] by (auto simp: by_key_of_def)
  have "plain_keys ?b"
    using n by (auto simp: plain_keys_def known_keys_def by_key_of_def normal_inputs_def dest: normal_key_plain)
  then have "plain_keys (iter j ?b)" unfolding plain_keys_def permuted_keys [OF m] .
  from validateDAG_iff [OF this]
  show "validateDAG (iter j ?b) = Inr () \<longleftrightarrow> sound_graph ?b" unfolding permuted_graph(2) [OF m d] .
  from validateIntegrationGraph_iff [OF dj]
  show "validateIntegrationGraph (iter j ?b) = Inr () \<longleftrightarrow> is = [] \<or> (\<exists>i. integration_contract ?b i)"
    unfolding permuted_contract [OF m d] e .
qed

lemma normal_inputs_Nil [simp]: "normal_inputs []"
  by (simp add: normal_inputs_def)

lemma Normalize_Inr_iff:
  assumes "permuting iter"
  shows "Normalize iter ids clock plan by0 inputs now0 = Inr (np, inputs') \<longleftrightarrow>
     dp_ID plan \<noteq> uuid_Nil \<and> dp_WorkItemID plan \<noteq> uuid_Nil \<and> 1 \<le> dp_Version plan
     \<and> length inputs \<le> MaxStepsPerPlan \<and> length (TrimSpace by0) \<le> 128
     \<and> normalizeInputs [] inputs = Inr inputs'
     \<and> sum_list (map (\<lambda>i. length (si_DependsOn i)) inputs') \<le> MaxDependenciesPerPlan
     \<and> sound_graph (by_key_of inputs')
     \<and> (inputs' = [] \<or> (\<exists>i. integration_contract (by_key_of inputs') i))
     \<and> np = build_plan plan (TrimSpace by0) (if isZero now0 then clock else now0) ids inputs'"
proof (cases "normalizeInputs [] inputs")
  case (Inl e)
  then show ?thesis by (auto simp: Normalize_def Let_def)
next
  case (Inr r)
  from normalizeInputs_Inr [OF this] have "normal_inputs r" by simp
  from graph_checks_iff [OF this assms] Inr show ?thesis
    by (auto simp: Normalize_def Let_def bindE_Inr_iff not_less not_le)
qed

text \<open>
  The order in which Go ranges over the plan's maps never changes the outcome: whatever orders
  two runs of \<open>Normalize\<close> use for their map traversals, they succeed on the same requests and build
  the same plan from the same identities.
\<close>

theorem normalize_ignores_map_order:
  assumes "permuting iter" "permuting iter'"
  shows "Normalize iter ids clock plan by0 inputs now0 = Inr r
     \<longleftrightarrow> Normalize iter' ids clock plan by0 inputs now0 = Inr r"
  by (cases r) (simp add: Normalize_Inr_iff [OF assms(1)] Normalize_Inr_iff [OF assms(2)])

subsection \<open>The rows\<close>

definition row_edges :: "step_dependency list \<Rightarrow> (uuid \<times> uuid) set" where
  "row_edges deps = (\<lambda>e. (sd_StepID e, sd_DependsOnStepID e)) ` set deps"

lemma trancl_image:
  "(a, b) \<in> E\<^sup>+ \<Longrightarrow> (f a, f b) \<in> (map_prod f f ` E)\<^sup>+"
proof (induction rule: trancl_induct)
  case (base y)
  then show ?case by (force intro: r_into_trancl)
next
  case (step y z)
  then have "(f y, f z) \<in> map_prod f f ` E" by force
  with step.IH show ?case by (rule trancl_into_trancl)
qed

lemma trancl_image_inv:
  assumes "(x, y) \<in> (map_prod f f ` E)\<^sup>+" "inj_on f (Field E)"
  shows "\<exists>a b. x = f a \<and> y = f b \<and> (a, b) \<in> E\<^sup>+"
  using assms(1)
proof (induction rule: trancl_induct)
  case (step y z)
  then obtain a b c d where h: "x = f a" "y = f b" "(a, b) \<in> E\<^sup>+" "y = f c" "z = f d" "(c, d) \<in> E"
    by auto
  then have "b \<in> Field E" "c \<in> Field E" by (auto simp: Field_def dest: tranclD2)
  with h assms(2) have "b = c" by (metis inj_onD)
  with h show ?case by (metis trancl_into_trancl)
qed auto

lemma acyclic_image:
  assumes "acyclic E" "inj_on f (Field E)"
  shows "acyclic (map_prod f f ` E)"
  unfolding acyclic_def
proof (intro allI notI)
  fix x assume "(x, x) \<in> (map_prod f f ` E)\<^sup>+"
  from trancl_image_inv [OF this assms(2)] obtain a b where h: "f a = f b" "(a, b) \<in> E\<^sup>+" by metis
  then have "a \<in> Field E" "b \<in> Field E" by (auto simp: Field_def dest: tranclD tranclD2)
  with h assms show False by (metis acyclic_def inj_onD)
qed

definition ordered_inputs :: "step_input list \<Rightarrow> step_input list" where
  "ordered_inputs is = sort_key si_Order is"

definition row_id :: "(nat \<Rightarrow> uuid) \<Rightarrow> step_input list \<Rightarrow> string \<Rightarrow> uuid" where
  "row_id ids is = idByKey (rev (zip (map si_Key (ordered_inputs is)) (map ids [0..<length is])))"

lemma ordered_inputs_props:
  assumes "normal_inputs is"
  shows "set (ordered_inputs is) = set is" "length (ordered_inputs is) = length is"
    "distinct (map si_Key (ordered_inputs is))" "sorted_wrt (<) (map si_Order (ordered_inputs is))"
proof -
  have m: "mset (ordered_inputs is) = mset is" by (simp add: ordered_inputs_def)
  show "set (ordered_inputs is) = set is" "length (ordered_inputs is) = length is"
    by (simp_all add: ordered_inputs_def)
  show "distinct (map si_Key (ordered_inputs is))"
    using assms mset_eq_imp_distinct_iff [OF permuted_map [OF m, of si_Key]] by (simp add: normal_inputs_def)
  have "distinct (map si_Order (ordered_inputs is))"
    using assms mset_eq_imp_distinct_iff [OF permuted_map [OF m, of si_Order]] by (simp add: normal_inputs_def)
  then show "sorted_wrt (<) (map si_Order (ordered_inputs is))"
    by (simp add: strict_sorted_iff ordered_inputs_def)
qed

lemma row_id_nth:
  assumes "normal_inputs is" "j < length is"
  shows "row_id ids is (si_Key (ordered_inputs is ! j)) = ids j"
proof -
  note o = ordered_inputs_props [OF assms(1)]
  let ?z = "zip (map si_Key (ordered_inputs is)) (map ids [0..<length is])"
  have "distinct (map fst ?z)" using o by simp
  then have "map_of (rev ?z) = map_of ?z" by (intro permuted_map_of) simp_all
  moreover have "map_of ?z (map si_Key (ordered_inputs is) ! j) = Some (map ids [0..<length is] ! j)"
    using o assms(2) by (intro map_of_zip_nth) simp_all
  ultimately show ?thesis using o assms(2) by (simp add: row_id_def idByKey_def)
qed

lemma row_id_inj:
  assumes n: "normal_inputs is" and inj: "inj_on ids {..<length is}"
  shows "inj_on (row_id ids is) (si_Key ` set is)"
proof (rule inj_onI)
  fix a b assume a: "a \<in> si_Key ` set is" and b: "b \<in> si_Key ` set is" and e: "row_id ids is a = row_id ids is b"
  have "\<exists>j < length is. k = si_Key (ordered_inputs is ! j)" if "k \<in> si_Key ` set is" for k
    using that ordered_inputs_props(1,2) [OF n] by (metis imageE in_set_conv_nth)
  with a b obtain i j where "i < length is" "j < length is"
    "a = si_Key (ordered_inputs is ! i)" "b = si_Key (ordered_inputs is ! j)" by metis
  with e n inj_onD [OF inj, of i j] show "a = b" by (simp add: row_id_nth)
qed

lemma build_plan_steps:
  assumes "normal_inputs is"
  shows "np_Steps (build_plan plan createdBy now ids is) =
     map (\<lambda>i. build_step plan createdBy now (row_id ids is (si_Key i)) i) (ordered_inputs is)"
proof -
  have "np_Steps (build_plan plan createdBy now ids is) =
     map2 (build_step plan createdBy now) (map ids [0..<length is]) (ordered_inputs is)"
    by (simp add: build_plan_def Let_def ordered_inputs_def)
  then show ?thesis
    by (auto intro!: nth_equalityI simp: row_id_nth [OF assms] ordered_inputs_props(2) [OF assms])
qed

lemma edges_by_key_of:
  assumes "distinct (map si_Key is)"
  shows "(k, x) \<in> edges (by_key_of is) \<longleftrightarrow> (\<exists>i \<in> set is. k = si_Key i \<and> x \<in> set (si_DependsOn i))"
proof
  assume h: "(k, x) \<in> edges (by_key_of is)"
  show "\<exists>i \<in> set is. k = si_Key i \<and> x \<in> set (si_DependsOn i)"
  proof (cases "map_of (by_key_of is) k")
    case None
    with h show ?thesis by (simp add: edges_def depsOf_def)
  next
    case (Some i)
    then have "(k, i) \<in> set (by_key_of is)" by (rule map_of_SomeD)
    with Some h show ?thesis by (auto simp: edges_def depsOf_def by_key_of_def)
  qed
next
  assume "\<exists>i \<in> set is. k = si_Key i \<and> x \<in> set (si_DependsOn i)"
  then obtain i where "(k, i) \<in> set (by_key_of is)" "x \<in> set (si_DependsOn i)"
    by (auto simp: by_key_of_def)
  with depsOf_mem [of "by_key_of is"] assms show "(k, x) \<in> edges (by_key_of is)" by (simp add: edges_def)
qed

lemma row_edges_build_plan:
  assumes "normal_inputs is"
  shows "row_edges (np_Dependencies (build_plan plan createdBy now ids is))
     = map_prod (row_id ids is) (row_id ids is) ` edges (by_key_of is)"
proof -
  let ?o = "ordered_inputs is" and ?f = "row_id ids is"
  have "(k, x) \<in> set (ordered_edges ?o) \<longleftrightarrow> (\<exists>i \<in> set is. k = si_Key i \<and> x \<in> set (si_DependsOn i))" for k x
    by (auto simp: ordered_edges_def ordered_inputs_def)
  then have e: "set (ordered_edges ?o) = edges (by_key_of is)"
    using assms edges_by_key_of [of "is"] by (auto simp: normal_inputs_def)
  have "map (\<lambda>e. (sd_StepID e, sd_DependsOnStepID e)) (np_Dependencies (build_plan plan createdBy now ids is))
      = map (map_prod ?f ?f) (ordered_edges ?o)"
    by (rule nth_equalityI)
      (simp_all add: build_plan_def Let_def build_dependency_def row_id_def map_prod_def
        ordered_inputs_def split_def)
  from arg_cong [OF this, of set] show ?thesis unfolding row_edges_def e [symmetric] set_map .
qed

lemma edges_Field:
  assumes "sound_graph (by_key_of is)"
  shows "Field (edges (by_key_of is)) \<subseteq> si_Key ` set is"
proof -
  have k: "known_keys (by_key_of is) = si_Key ` set is" by (force simp: known_keys_def by_key_of_def)
  have "a \<in> known_keys (by_key_of is) \<and> b \<in> known_keys (by_key_of is)" if "(a, b) \<in> edges (by_key_of is)" for a b
    using that assms depsOf_unknown [of a "by_key_of is"]
    by (cases "a \<in> known_keys (by_key_of is)") (auto simp: edges_def sound_graph_def)
  then show ?thesis unfolding k by (auto simp: Field_def)
qed

text \<open>The integration input is the last of the ordered inputs, every other one is a producer.\<close>

lemma integration_last:
  assumes n: "normal_inputs is" and c: "integration_contract (by_key_of is) i"
  shows "i \<in> set is" "last (ordered_inputs is) = i"
    "\<And>p. p \<in> set (butlast (ordered_inputs is)) \<Longrightarrow> si_Role p = StepRoleImplementation"
proof -
  note o = ordered_inputs_props [OF n]
  have "(\<exists>k. (k, x) \<in> set (integrators (by_key_of is))) \<longleftrightarrow> x = i" for x
  proof -
    have "x \<in> set (map snd (integrators (by_key_of is))) \<longleftrightarrow> x = i"
      using c by (simp add: integration_contract_def)
    then show ?thesis by force
  qed
  then have int: "x \<in> set is \<and> si_Role x = StepRoleIntegration \<longleftrightarrow> x = i" for x
    by (auto simp: integrators_def by_key_of_def)
  then show i: "i \<in> set is" by blast
  have imp: "si_Role p = StepRoleImplementation \<and> si_Order p < si_Order i" if "p \<in> set is" "p \<noteq> i" for p
  proof -
    have m: "(si_Key p, p) \<in> set (by_key_of is)" using that by (simp add: by_key_of_def)
    then have r: "si_Role p = StepRoleImplementation"
      using that int [of p] c by (auto simp: integration_contract_def)
    with m have "(si_Key p, p) \<in> set (producers (by_key_of is))" by (simp add: producers_iff)
    with c have "si_Order p < si_Order i" unfolding integration_contract_def by blast
    with r show ?thesis ..
  qed
  have ne: "ordered_inputs is \<noteq> []" using i o(1) by force
  have sw: "sorted_wrt (\<lambda>a b. si_Order a < si_Order b) (butlast (ordered_inputs is) @ [last (ordered_inputs is)])"
    using o(4) ne by (simp add: sorted_wrt_map)
  show l: "last (ordered_inputs is) = i"
  proof (rule ccontr)
    assume "last (ordered_inputs is) \<noteq> i"
    moreover from this have "i \<in> set (butlast (ordered_inputs is))"
      using i o(1) ne by (metis append_butlast_last_id in_set_conv_decomp last_snoc butlast_append
          set_append Un_iff list.set(1,2) empty_iff insert_iff)
    moreover have "last (ordered_inputs is) \<in> set is" using ne o(1) last_in_set by blast
    ultimately show False using imp sw by (force simp: sorted_wrt_append)
  qed
  fix p assume p: "p \<in> set (butlast (ordered_inputs is))"
  then have "si_Order p < si_Order i" using sw l by (simp add: sorted_wrt_append)
  moreover have "p \<in> set is" using p o(1) by (metis in_set_butlastD)
  ultimately show "si_Role p = StepRoleImplementation" using imp by blast
qed

lemma build_step_sel [simp]:
  "st_ID (build_step plan createdBy now i inp) = i"
  "st_PlanID (build_step plan createdBy now i inp) = dp_ID plan"
  "st_StepKey (build_step plan createdBy now i inp) = si_Key inp"
  "st_Role (build_step plan createdBy now i inp) = si_Role inp"
  "st_DisplayOrder (build_step plan createdBy now i inp) = si_Order inp"
  by (simp_all add: build_step_def)

lemma row_of_integration:
  assumes n: "normal_inputs is" and sg: "sound_graph (by_key_of is)"
    and i: "integration_contract (by_key_of is) i" and q: "q \<in> set (butlast (ordered_inputs is))"
  shows "(row_id ids is (si_Key i), row_id ids is (si_Key q))
     \<in> (row_edges (np_Dependencies (build_plan plan createdBy now ids is)))\<^sup>+"
proof -
  note l = integration_last [OF n i]
  have "q \<in> set is" using q ordered_inputs_props(1) [OF n] by (metis in_set_butlastD)
  with l(3) [OF q] have "si_Key q \<in> fst ` set (producers (by_key_of is))"
    by (force simp: producers_def by_key_of_def)
  moreover have "(si_Key i, i) \<in> set (by_key_of is)" using l(1) by (simp add: by_key_of_def)
  ultimately have "(si_Key i, si_Key q) \<in> (edges (by_key_of is))\<^sup>+"
    using integration_reaches_all [OF _ sg i] n by (simp add: normal_inputs_def)
  from trancl_image [OF this] show ?thesis by (simp add: row_edges_build_plan [OF n])
qed

lemma row_edges_sound:
  assumes n: "normal_inputs is" and sg: "sound_graph (by_key_of is)" and inj: "inj_on ids {..<length is}"
  shows "acyclic (row_edges (np_Dependencies (build_plan plan createdBy now ids is)))"
    "Field (row_edges (np_Dependencies (build_plan plan createdBy now ids is))) \<subseteq> row_id ids is ` si_Key ` set is"
proof -
  have "inj_on (row_id ids is) (Field (edges (by_key_of is)))"
    by (rule inj_on_subset [OF row_id_inj [OF n inj] edges_Field [OF sg]])
  then show "acyclic (row_edges (np_Dependencies (build_plan plan createdBy now ids is)))"
    unfolding row_edges_build_plan [OF n] using sg by (auto simp: sound_graph_def intro: acyclic_image)
  show "Field (row_edges (np_Dependencies (build_plan plan createdBy now ids is))) \<subseteq> row_id ids is ` si_Key ` set is"
    unfolding row_edges_build_plan [OF n] using edges_Field [OF sg] by (auto simp: Field_def)
qed

text \<open>
  C23. The rows of a normalized plan are an executable graph. When \<open>Normalize\<close> succeeds and the
  identities generated for the steps differ, the rows are in strictly increasing display order with distinct
  keys, every dependency row joins two of them, the dependencies have no cycle, and a plan that has
  steps ends in its integration step: every other row is an implementation step on which the last
  row depends, directly or through other steps.
\<close>

theorem normalized_rows_form_integrated_dag:
  assumes ok: "Normalize iter ids clock plan by0 inputs now0 = Inr (np, inputs')"
    and p: "permuting iter" and inj0: "inj_on ids {..<length inputs}"
  shows "sorted_wrt (<) (map st_DisplayOrder (np_Steps np))
     \<and> distinct (map st_StepKey (np_Steps np))
     \<and> Field (row_edges (np_Dependencies np)) \<subseteq> st_ID ` set (np_Steps np)
     \<and> acyclic (row_edges (np_Dependencies np))
     \<and> (np_Steps np \<noteq> [] \<longrightarrow>
          st_Role (last (np_Steps np)) = StepRoleIntegration
          \<and> (\<forall>s \<in> set (butlast (np_Steps np)). st_Role s = StepRoleImplementation
               \<and> (st_ID (last (np_Steps np)), st_ID s) \<in> (row_edges (np_Dependencies np))\<^sup>+))"
proof -
  let ?o = "ordered_inputs inputs'" and ?E = "row_edges (np_Dependencies np)"
  let ?row = "\<lambda>i. build_step plan (TrimSpace by0) (if isZero now0 then clock else now0) (row_id ids inputs' (si_Key i)) i"
  from ok [unfolded Normalize_Inr_iff [OF p]] have ni: "normalizeInputs [] inputs = Inr inputs'"
    and sg: "sound_graph (by_key_of inputs')"
    and ic: "inputs' = [] \<or> (\<exists>i. integration_contract (by_key_of inputs') i)"
    and np: "np = build_plan plan (TrimSpace by0) (if isZero now0 then clock else now0) ids inputs'"
    by auto
  from normalizeInputs_Inr [OF ni] inj0 have n: "normal_inputs inputs'"
    and inj: "inj_on ids {..<length inputs'}" by simp_all
  note o = ordered_inputs_props [OF n]
  have steps: "np_Steps np = map ?row ?o" unfolding np by (rule build_plan_steps [OF n])
  have "map st_DisplayOrder (np_Steps np) = map si_Order ?o" "map st_StepKey (np_Steps np) = map si_Key ?o"
    unfolding steps by simp_all
  then have cols: "sorted_wrt (<) (map st_DisplayOrder (np_Steps np))" "distinct (map st_StepKey (np_Steps np))"
    using o by simp_all
  have "st_ID ` set (np_Steps np) = row_id ids inputs' ` si_Key ` set inputs'"
    unfolding steps o(1) [symmetric] by force
  then have field: "Field ?E \<subseteq> st_ID ` set (np_Steps np)" using row_edges_sound(2) [OF n sg inj] by (simp add: np)
  have "st_Role (last (np_Steps np)) = StepRoleIntegration
      \<and> (\<forall>s \<in> set (butlast (np_Steps np)). st_Role s = StepRoleImplementation
           \<and> (st_ID (last (np_Steps np)), st_ID s) \<in> ?E\<^sup>+)"
    if ne: "np_Steps np \<noteq> []"
  proof -
    have ne': "?o \<noteq> []" "inputs' \<noteq> []" using ne o(2) unfolding steps by auto
    with ic obtain i where i: "integration_contract (by_key_of inputs') i" by blast
    have "i \<in> snd ` set (integrators (by_key_of inputs'))"
      using i by (metis integration_contract_def list.set_intros(1) list.set_map)
    then have "si_Role i = StepRoleIntegration" by (auto simp: integrators_def)
    with ne' integration_last [OF n i] row_of_integration [OF n sg i] show ?thesis
      unfolding steps by (auto simp: last_map map_butlast [symmetric] np)
  qed
  with cols field row_edges_sound(1) [OF n sg inj] show ?thesis by (simp add: np)
qed

subsection \<open>An example plan\<close>

definition example_plan :: delivery_plan where
  "example_plan = \<lparr>dp_ID = 11, dp_WorkItemID = 12, dp_Version = 1, dp_Status = ''draft'', dp_ApprovedGateID = None\<rparr>"

definition example_step :: "string \<Rightarrow> string \<Rightarrow> int \<Rightarrow> string list \<Rightarrow> string list \<Rightarrow> step_input" where
  "example_step key role order criteria deps =
     \<lparr>si_Key = key, si_Role = role, si_Order = order, si_Title = ''Step '' @ key, si_Objective = [],
      si_AcceptanceCriteria = criteria,
      si_EvidenceRequirements = [\<lparr>er_Key = ''log'', er_Title = ''Log'', er_Description = [], er_Required = True,
        er_ContentTypes = [''text/plain; charset=utf-8'', ''application/json''], er_MaxBytes = 1024\<rparr>],
      si_DependsOn = deps, si_IdempotencyKey = []\<rparr>"

definition example_inputs :: "step_input list" where
  "example_inputs =
     [example_step ''merge'' ''Integration'' 9 [''a'', ''b'', ''c''] [''web'', ''docs''],
      example_step ''api'' ''implementation'' 1 [''a''] [],
      example_step ''web'' ''implementation'' 2 ['' b ''] [''api''],
      example_step ''docs'' ''implementation'' 3 [''c''] []]"

lemma example_normalizes: "isOk (Normalize (\<lambda>_ l. l) of_nat 5 example_plan ''pm'' example_inputs 7)"
  by code_simp

lemma example_ids: "inj_on (of_nat :: nat \<Rightarrow> uuid) {..<length example_inputs}"
  by (rule inj_on_subset [OF uuid_supply_inj]) (auto simp: example_inputs_def)

lemma permuting_id: "permuting (\<lambda>_ l. l)" and permuting_rev: "permuting (\<lambda>_. rev)"
  by (simp_all add: permuting_def)

theorem normalize_ignores_map_order_witness:
  "\<exists>r. Normalize (\<lambda>_ l. l) of_nat 5 example_plan ''pm'' example_inputs 7 = Inr r
     \<and> Normalize (\<lambda>_. rev) of_nat 5 example_plan ''pm'' example_inputs 7 = Inr r"
  using example_normalizes normalize_ignores_map_order [OF permuting_id permuting_rev]
  by (auto simp: isOk_iff)

theorem normalized_rows_form_integrated_dag_witness:
  "\<exists>np inputs'. Normalize (\<lambda>_ l. l) of_nat 5 example_plan ''pm'' example_inputs 7 = Inr (np, inputs')
     \<and> sorted_wrt (<) (map st_DisplayOrder (np_Steps np)) \<and> acyclic (row_edges (np_Dependencies np))"
  using example_normalizes normalized_rows_form_integrated_dag [OF _ permuting_id example_ids]
  by (fastforce simp: isOk_iff)

text \<open>
  The cycle check is exact. On keys without NUL bytes, which step keys never contain, the
  depth-first search of \<open>validateDAG\<close> accepts a plan if and only if every dependency names a step of
  the plan, no step lists a dependency twice and the dependencies have no cycle; the search never
  gives up on a sound plan.
\<close>

theorem dag_check_is_exact:
  assumes "plain_keys byKey"
  shows "validateDAG byKey = Inr () \<longleftrightarrow> sound_graph byKey"
  by (rule validateDAG_iff [OF assms])

text \<open>
  The integration check is exact. \<open>validateIntegrationGraph\<close> accepts a plan if and only if it is
  empty or has a single integration step that comes after every implementation step, on which no
  implementation step depends, whose criteria are the disjoint union of the implementation
  criteria, and which depends on every implementation step that no other step depends on.
\<close>

theorem integration_check_is_exact:
  assumes "distinct (map fst byKey)"
  shows "validateIntegrationGraph byKey = Inr () \<longleftrightarrow> byKey = [] \<or> (\<exists>i. integration_contract byKey i)"
  by (rule validateIntegrationGraph_iff [OF assms])

definition example_graph :: by_key where
  "example_graph =
     [(''merge'', example_step ''merge'' ''integration'' 9 [''a'', ''b''] [''web'']),
      (''api'', example_step ''api'' ''implementation'' 1 [''a''] []),
      (''web'', example_step ''web'' ''implementation'' 2 [''b''] [''api''])]"

definition example_cycle :: by_key where
  "example_cycle =
     [(''api'', example_step ''api'' ''implementation'' 1 [''a''] [''web'']),
      (''web'', example_step ''web'' ''implementation'' 2 [''b''] [''api''])]"

theorem dag_check_is_exact_witness: "sound_graph example_graph \<and> \<not> sound_graph example_cycle"
proof -
  have "plain_keys example_graph" "plain_keys example_cycle"
    by (simp_all add: plain_keys_def known_keys_def example_graph_def example_cycle_def)
  moreover have "validateDAG example_graph = Inr ()" "validateDAG example_cycle \<noteq> Inr ()" by code_simp+
  ultimately show ?thesis using dag_check_is_exact by blast
qed

theorem integration_check_is_exact_witness:
  "(\<exists>i. integration_contract example_graph i) \<and> (\<nexists>i. integration_contract example_cycle i)"
proof -
  have "distinct (map fst example_graph)" "distinct (map fst example_cycle)" "example_graph \<noteq> []" by code_simp+
  moreover have "validateIntegrationGraph example_graph = Inr ()" "validateIntegrationGraph example_cycle \<noteq> Inr ()" by code_simp+
  ultimately show ?thesis using integration_check_is_exact by blast
qed

end
