(* ===== verification/GoHash.thy ===== *)
theory GoHash
  imports GoStd
begin

text \<open>
  Packages crypto/sha256 and encoding/hex: \<open>sha256_hex\<close> is \<open>hex.EncodeToString\<close> of
  \<open>sha256.Sum256\<close> of a byte string (FIPS 180-4). Its only properties the components rest on
  are that the text always has the shape \<open>[0-9a-f]{64}\<close>, and that equal inputs give equal
  digests; no theorem of the development assumes that digests of different inputs differ.
\<close>

unbundle bit_operations_syntax

type_synonym w32 = "32 word"

definition rotr32 :: "nat \<Rightarrow> w32 \<Rightarrow> w32" where
  "rotr32 n x = drop_bit n x OR push_bit (32 - n) x"

definition sha_K :: "w32 list" where
  "sha_K =
     [1116352408, 1899447441, 3049323471, 3921009573, 961987163, 1508970993, 2453635748, 2870763221,
      3624381080, 310598401, 607225278, 1426881987, 1925078388, 2162078206, 2614888103, 3248222580,
      3835390401, 4022224774, 264347078, 604807628, 770255983, 1249150122, 1555081692, 1996064986,
      2554220882, 2821834349, 2952996808, 3210313671, 3336571891, 3584528711, 113926993, 338241895,
      666307205, 773529912, 1294757372, 1396182291, 1695183700, 1986661051, 2177026350, 2456956037,
      2730485921, 2820302411, 3259730800, 3345764771, 3516065817, 3600352804, 4094571909, 275423344,
      430227734, 506948616, 659060556, 883997877, 958139571, 1322822218, 1537002063, 1747873779,
      1955562222, 2024104815, 2227730452, 2361852424, 2428436474, 2756734187, 3204031479, 3329325298]"

text \<open>The eight working variables.\<close>

datatype sha_state = Sha w32 w32 w32 w32 w32 w32 w32 w32

definition sha_init :: sha_state where
  "sha_init = Sha 1779033703 3144134277 1013904242 2773480762 1359893119 2600822924 528734635 1541459225"

fun sha_add :: "sha_state \<Rightarrow> sha_state \<Rightarrow> sha_state" where
  "sha_add (Sha a b c d e f g h) (Sha a' b' c' d' e' f' g' h') =
     Sha (a + a') (b + b') (c + c') (d + d') (e + e') (f + f') (g + g') (h + h')"

fun sha_round :: "sha_state \<Rightarrow> w32 \<times> w32 \<Rightarrow> sha_state" where
  "sha_round (Sha a b c d e f g h) (k, w) =
     (let s1 = rotr32 6 e XOR rotr32 11 e XOR rotr32 25 e;
          ch = (e AND f) XOR (NOT e AND g);
          t1 = h + s1 + ch + k + w;
          s0 = rotr32 2 a XOR rotr32 13 a XOR rotr32 22 a;
          maj = (a AND b) XOR (a AND c) XOR (b AND c);
          t2 = s0 + maj
      in Sha (t1 + t2) a b c (d + t1) e f g)"

text \<open>The message schedule, kept with the newest word first: \<open>n\<close> further words.\<close>

fun sha_schedule :: "nat \<Rightarrow> w32 list \<Rightarrow> w32 list" where
  "sha_schedule 0 ws = rev ws"
| "sha_schedule (Suc n) ws =
     (let w15 = ws ! 14; w2 = ws ! 1;
          s0 = rotr32 7 w15 XOR rotr32 18 w15 XOR drop_bit 3 w15;
          s1 = rotr32 17 w2 XOR rotr32 19 w2 XOR drop_bit 10 w2
      in sha_schedule n ((ws ! 15 + s0 + ws ! 6 + s1) # ws))"

definition sha_block :: "sha_state \<Rightarrow> w32 list \<Rightarrow> sha_state" where
  "sha_block st ws = sha_add st (foldl sha_round st (zip sha_K (sha_schedule 48 (rev ws))))"

text \<open>Big-endian words of a byte sequence, and its division into blocks of 16 words.\<close>

fun sha_words :: "nat list \<Rightarrow> w32 list" where
  "sha_words (a # b # c # d # bs) =
     of_nat (((a * 256 + b) * 256 + c) * 256 + d) # sha_words bs"
| "sha_words _ = []"

function sha_blocks :: "sha_state \<Rightarrow> w32 list \<Rightarrow> sha_state" where
  "sha_blocks st ws =
     (if length ws < 16 then st else sha_blocks (sha_block st (take 16 ws)) (drop 16 ws))"
  by pat_completeness auto
termination
  by (relation "measure (\<lambda>(st, ws). length ws)") auto

declare sha_blocks.simps [simp del]

text \<open>One bit 1, zeros up to 56 modulo 64 bytes, and the bit length in 8 bytes.\<close>

definition sha_pad :: "nat list \<Rightarrow> nat list" where
  "sha_pad bs =
     (let n = length bs
      in bs @ [128] @ replicate ((119 - n mod 64) mod 64) 0 @
         map (\<lambda>i. (n * 8) div 256 ^ i mod 256) [7, 6, 5, 4, 3, 2, 1, 0])"

definition hex_word :: "w32 \<Rightarrow> string" where
  "hex_word w = map (\<lambda>i. hex_digit (unat w div 16 ^ i mod 16)) [7, 6, 5, 4, 3, 2, 1, 0]"

fun hex_state :: "sha_state \<Rightarrow> string" where
  "hex_state (Sha a b c d e f g h) =
     hex_word a @ hex_word b @ hex_word c @ hex_word d @
     hex_word e @ hex_word f @ hex_word g @ hex_word h"

definition sha256_hex :: "string \<Rightarrow> string" where
  "sha256_hex s = hex_state (sha_blocks sha_init (sha_words (sha_pad (map of_char s))))"

section \<open>The shape of a digest\<close>

lemma hex_digit_lower_hex:
  assumes "n < 16"
  shows "lower_hex_char (hex_digit n)"
proof -
  have "list_all (\<lambda>n. lower_hex_char (hex_digit n)) [0..<16]" by code_simp
  with assms show ?thesis by (simp add: list_all_iff)
qed

lemma hex_word_shape: "length (hex_word w) = 8" "list_all lower_hex_char (hex_word w)"
  by (simp_all add: hex_word_def hex_digit_lower_hex)

lemma hex_state_shape: "digest_match (hex_state st)"
  by (cases st) (simp add: digest_match_def hex_word_shape)

lemma sha256_hex_digest_match [simp]: "digest_match (sha256_hex s)"
  by (simp add: sha256_hex_def hex_state_shape)

lemma sha256_hex_ToLower [simp]: "ToLower (sha256_hex s) = sha256_hex s"
  by (simp add: digest_match_ToLower)

lemma sha256_hex_TrimSpace [simp]: "TrimSpace (sha256_hex s) = sha256_hex s"
  by (simp add: digest_match_TrimSpace)

lemma sha256_hex_not_Nil [simp]: "sha256_hex s \<noteq> []"
  using sha256_hex_digest_match [of s] unfolding digest_match_def by auto

end
