(* ===== verification/StepLease.thy ===== *)
theory StepLease
  imports PlanSteps
begin

text \<open>
  The lease protocol of a plan step: services/deliveryplansteps/claim.go. A running automation
  task claims a ready step, renews the lease and moves the step to its next status; a fence
  counter separates successive holders.

  Each operation is one database transaction: it maps the tables to an error (the transaction is
  rolled back) or to its result and the new tables. What a call takes from its surroundings is in
  \<open>call_env\<close>: the rows another transaction has locked (\<open>SKIP LOCKED\<close> passes them over), the
  successive readings of \<open>time.Now\<close>, the identities of \<open>uuid.NewV4\<close>, the agent instance of the
  GORM context, and the two functions of the uuid package.
\<close>

record call_env =
  ce_locked :: "uuid \<Rightarrow> bool"
  ce_clock :: "nat \<Rightarrow> gotime"
  ce_newV4 :: "nat \<Rightarrow> uuid"
  ce_instance :: "uuid option"
  ce_fromString :: "string \<Rightarrow> uuid option"
  ce_string :: "uuid \<Rightarrow> string"

definition MinStepLeaseTTL :: duration where "MinStepLeaseTTL = 15 * second"
definition MaxStepLeaseTTL :: duration where "MaxStepLeaseTTL = 15 * minute"

definition stepAgentKeyPattern :: "string \<Rightarrow> bool" where
  "stepAgentKeyPattern s = (head_tail_match lower_letter slug_char 63 s \<and> 2 \<le> length s)"

datatype lease_error =
    ErrStepInputInvalid string
  | ErrStepLeaseConflict
  | RecordNotFound

subsection \<open>Requests\<close>

record claim_input =
  ci_PlanID :: uuid
  ci_AutomationTaskID :: uuid
  ci_RunID :: string
  ci_WorkerID :: string
  ci_AgentKey :: string
  ci_MachineID :: string
  ci_LeaseTTL :: duration
  ci_Now :: gotime

record claim_result =
  cr_Available :: bool
  cr_Step :: "plan_step option"
  cr_Fence :: int
  cr_LeaseExpiresAt :: "gotime option"

record lease_input =
  li_StepID :: uuid
  li_AutomationTaskID :: uuid
  li_RunID :: string
  li_WorkerID :: string
  li_AgentKey :: string
  li_MachineID :: string
  li_Fence :: int
  li_LeaseTTL :: duration
  li_Now :: gotime

record transition_input =
  ti_StepID :: uuid
  ti_AutomationTaskID :: uuid
  ti_RunID :: string
  ti_WorkerID :: string
  ti_AgentKey :: string
  ti_MachineID :: string
  ti_Fence :: int
  ti_Status :: string
  ti_Now :: gotime

record lease_identity =
  id_AutomationTaskID :: uuid
  id_RunID :: string
  id_WorkerID :: string
  id_AgentKey :: string
  id_MachineID :: string

record normalized_claim =
  nc_PlanID :: uuid
  nc_Identity :: lease_identity

definition validateStepLeaseTTL :: "duration \<Rightarrow> lease_error + duration" where
  "validateStepLeaseTTL ttl =
     (if ttl < MinStepLeaseTTL \<or> ttl > MaxStepLeaseTTL
      then Inl (ErrStepInputInvalid ''lease_ttl is out of bounds'') else Inr ttl)"

definition canonicalUUID :: "call_env \<Rightarrow> string \<Rightarrow> string \<Rightarrow> lease_error + string" where
  "canonicalUUID env raw field =
     (case ce_fromString env (TrimSpace raw) of
        None \<Rightarrow> Inl (ErrStepInputInvalid (field @ '' must be a non-zero UUID''))
      | Some parsed \<Rightarrow>
          if parsed = uuid_Nil then Inl (ErrStepInputInvalid (field @ '' must be a non-zero UUID''))
          else Inr (ce_string env parsed))"

definition optionalCanonicalUUID :: "call_env \<Rightarrow> string \<Rightarrow> string \<Rightarrow> lease_error + string" where
  "optionalCanonicalUUID env raw field =
     (if TrimSpace raw = [] then Inr [] else canonicalUUID env raw field)"

definition validStepStatus :: "string \<Rightarrow> bool" where
  "validStepStatus status =
     (status \<in> {DeliveryPlanStepPlanned, DeliveryPlanStepReady, DeliveryPlanStepRunning,
        DeliveryPlanStepBlocked, DeliveryPlanStepCompleted, DeliveryPlanStepFailed, DeliveryPlanStepSkipped})"

definition normalizeClaimInput ::
  "call_env \<Rightarrow> claim_input \<Rightarrow> lease_error + normalized_claim \<times> duration" where
  "normalizeClaimInput env input =
     (if ci_PlanID input = uuid_Nil \<or> ci_AutomationTaskID input = uuid_Nil
      then Inl (ErrStepInputInvalid ''plan_id and automation_task_id are required'')
      else bindE (canonicalUUID env (ci_RunID input) ''run_id'') (\<lambda>runID.
           bindE (canonicalUUID env (ci_WorkerID input) ''worker_id'') (\<lambda>workerID.
           let trimmed = TrimSpace (ci_AgentKey input);
               agentKey = (if trimmed = [] then ''generalist'' else trimmed)
           in if \<not> stepAgentKeyPattern agentKey
              then Inl (ErrStepInputInvalid ''agent_key has an invalid format'')
              else bindE (optionalCanonicalUUID env (ci_MachineID input) ''machine_id'') (\<lambda>machineID.
                   bindE (validateStepLeaseTTL (ci_LeaseTTL input)) (\<lambda>ttl.
                   Inr (\<lparr>nc_PlanID = ci_PlanID input,
                         nc_Identity = \<lparr>id_AutomationTaskID = ci_AutomationTaskID input, id_RunID = runID,
                           id_WorkerID = workerID, id_AgentKey = agentKey, id_MachineID = machineID\<rparr>\<rparr>, ttl))))))"

definition normalizeLeaseIdentity ::
  "call_env \<Rightarrow> uuid \<Rightarrow> string \<Rightarrow> string \<Rightarrow> string \<Rightarrow> string \<Rightarrow> lease_error + lease_identity" where
  "normalizeLeaseIdentity env taskID runID workerID agentKey0 machineID =
     bindE (canonicalUUID env runID ''run_id'') (\<lambda>canonicalRunID.
     bindE (canonicalUUID env workerID ''worker_id'') (\<lambda>canonicalWorkerID.
     let agentKey = TrimSpace agentKey0
     in if \<not> stepAgentKeyPattern agentKey
        then Inl (ErrStepInputInvalid ''agent_key has an invalid format'')
        else bindE (optionalCanonicalUUID env machineID ''machine_id'') (\<lambda>canonicalMachineID.
          Inr \<lparr>id_AutomationTaskID = taskID, id_RunID = canonicalRunID, id_WorkerID = canonicalWorkerID,
               id_AgentKey = agentKey, id_MachineID = canonicalMachineID\<rparr>)))"

definition normalizeLeaseInput :: "call_env \<Rightarrow> lease_input \<Rightarrow> lease_error + lease_identity \<times> duration" where
  "normalizeLeaseInput env input =
     (if li_StepID input = uuid_Nil \<or> li_AutomationTaskID input = uuid_Nil \<or> li_Fence input < 1
      then Inl (ErrStepInputInvalid ''step_id, automation_task_id, and positive fence are required'')
      else bindE (normalizeLeaseIdentity env (li_AutomationTaskID input) (li_RunID input)
             (li_WorkerID input) (li_AgentKey input) (li_MachineID input)) (\<lambda>identity.
           bindE (validateStepLeaseTTL (li_LeaseTTL input)) (\<lambda>ttl. Inr (identity, ttl))))"

definition normalizeTransitionInput ::
  "call_env \<Rightarrow> transition_input \<Rightarrow> lease_error + lease_identity \<times> string" where
  "normalizeTransitionInput env input =
     (if ti_StepID input = uuid_Nil \<or> ti_AutomationTaskID input = uuid_Nil \<or> ti_Fence input < 1
      then Inl (ErrStepInputInvalid ''step_id, automation_task_id, and positive fence are required'')
      else bindE (normalizeLeaseIdentity env (ti_AutomationTaskID input) (ti_RunID input)
             (ti_WorkerID input) (ti_AgentKey input) (ti_MachineID input)) (\<lambda>identity.
           let status = ToLower (TrimSpace (ti_Status input))
           in if \<not> validStepStatus status
              then Inl (ErrStepInputInvalid ''status is not a supported delivery plan step state'')
              else Inr (identity, status)))"

subsection \<open>Loading the task and the step\<close>

definition leaseValidationTime :: "gotime \<Rightarrow> gotime \<Rightarrow> gotime" where
  "leaseValidationTime clockOverride clock = (if \<not> isZero clockOverride then clockOverride else clock)"

definition loadLeasedTask ::
  "call_env \<Rightarrow> 'a lease_tables_scheme \<Rightarrow> lease_identity \<Rightarrow> gotime \<Rightarrow> lease_error + automation_task \<times> gotime" where
  "loadLeasedTask env db identity clockOverride =
     (case find (\<lambda>t. at_ID t = id_AutomationTaskID identity) (lt_tasks db) of
        None \<Rightarrow> Inl RecordNotFound
      | Some task \<Rightarrow>
          let now = leaseValidationTime clockOverride (ce_clock env 0)
          in if ToLower (TrimSpace (at_Status task)) \<noteq> ''running''
               \<or> TrimSpace (at_RunID task) \<noteq> id_RunID identity
               \<or> TrimSpace (at_WorkerID task) \<noteq> id_WorkerID identity
               \<or> TrimSpace (at_AgentKey task) \<noteq> id_AgentKey identity
               \<or> TrimSpace (at_MachineID task) \<noteq> id_MachineID identity
               \<or> \<not> live_at (at_LeaseExpiresAt task) now
             then Inl ErrStepLeaseConflict
             else Inr (task, now))"

definition approved_for_fence :: "automation_task \<Rightarrow> delivery_plan \<Rightarrow> bool" where
  "approved_for_fence task plan =
     (Some (dp_WorkItemID plan) = at_DeliveryWorkItemID task \<and> dp_Status plan = ''approved''
      \<and> dp_ApprovedGateID plan \<noteq> None \<and> dp_ApprovedGateID plan \<noteq> Some uuid_Nil)"

definition loadFencedStep ::
  "call_env \<Rightarrow> 'a lease_tables_scheme \<Rightarrow> uuid \<Rightarrow> lease_identity \<Rightarrow> int \<Rightarrow> automation_task \<Rightarrow> gotime \<Rightarrow> bool
     \<Rightarrow> lease_error + plan_step \<times> gotime" where
  "loadFencedStep env db stepID identity fence task clockOverride requireRunning =
     (case find (\<lambda>s. st_ID s = stepID) (pt_steps db) of
        None \<Rightarrow> Inl RecordNotFound
      | Some step \<Rightarrow>
          let now = leaseValidationTime clockOverride (ce_clock env 1)
          in if st_AutomationTaskID step \<noteq> Some (id_AutomationTaskID identity)
               \<or> st_RunID step \<noteq> id_RunID identity \<or> st_WorkerID step \<noteq> id_WorkerID identity
               \<or> st_AgentKey step \<noteq> id_AgentKey identity \<or> st_MachineID step \<noteq> id_MachineID identity
               \<or> st_LeaseFence step \<noteq> fence \<or> \<not> live_at (st_LeaseExpiresAt step) now
               \<or> (requireRunning \<and> st_Status step \<noteq> DeliveryPlanStepRunning)
               \<or> \<not> live_at (at_LeaseExpiresAt task) now
             then Inl ErrStepLeaseConflict
             else if at_DeliveryWorkItemID task = None then Inl ErrStepLeaseConflict
             else (case find (\<lambda>p. dp_ID p = st_PlanID step) (pt_plans db) of
                 None \<Rightarrow> Inl RecordNotFound
               | Some plan \<Rightarrow>
                   if \<not> approved_for_fence task plan then Inl ErrStepLeaseConflict
                   else Inr (step, now)))"

subsection \<open>Writing a step and its event\<close>

definition updatePlanStep ::
  "'a lease_tables_scheme \<Rightarrow> uuid \<Rightarrow> (plan_step \<Rightarrow> plan_step) \<Rightarrow> lease_error + 'a lease_tables_scheme" where
  "updatePlanStep db stepID updates =
     (if length (filter (\<lambda>s. st_ID s = stepID) (pt_steps db)) \<noteq> 1 then Inl RecordNotFound
      else Inr (db\<lparr>pt_steps := map (\<lambda>s. if st_ID s = stepID then updates s else s) (pt_steps db)\<rparr>))"

text \<open>\<open>BeforeCreate\<close>: the agent instance of the context is copied onto a new event.\<close>

definition BeforeCreate :: "uuid option \<Rightarrow> step_event \<Rightarrow> step_event" where
  "BeforeCreate instanceID event =
     (if ev_AgentInstanceID event \<noteq> None then event
      else if instanceID \<noteq> None \<and> instanceID \<noteq> Some uuid_Nil then event\<lparr>ev_AgentInstanceID := instanceID\<rparr>
      else event)"

definition step_event_of ::
  "uuid \<Rightarrow> plan_step \<Rightarrow> string \<Rightarrow> string \<Rightarrow> string \<Rightarrow> string \<Rightarrow> automation_task \<Rightarrow> int \<Rightarrow> gotime \<Rightarrow> step_event" where
  "step_event_of newID step eventType fromStatus toStatus summary task fence now =
     \<lparr>ev_ID = newID, ev_PlanID = st_PlanID step, ev_StepID = st_ID step, ev_EventType = eventType,
      ev_FromStatus = fromStatus, ev_ToStatus = toStatus, ev_AutomationTaskID = at_ID task,
      ev_RunID = at_RunID task, ev_WorkerID = at_WorkerID task, ev_AgentKey = at_AgentKey task,
      ev_MachineID = at_MachineID task, ev_AgentInstanceID = None, ev_LeaseFence = fence,
      ev_Summary = summary, ev_OccurredAt = now, ev_CreatedAt = now\<rparr>"

definition createStepEvent ::
  "call_env \<Rightarrow> nat \<Rightarrow> 'a lease_tables_scheme \<Rightarrow> plan_step \<Rightarrow> string \<Rightarrow> string \<Rightarrow> string \<Rightarrow> string
     \<Rightarrow> automation_task \<Rightarrow> int \<Rightarrow> gotime \<Rightarrow> lease_error + 'a lease_tables_scheme" where
  "createStepEvent env n db step eventType fromStatus toStatus summary task fence now =
     (if length summary > 160 then Inl (ErrStepInputInvalid ''step event summary exceeds 160 characters'')
      else Inr (db\<lparr>lt_events := lt_events db @
        [BeforeCreate (ce_instance env)
          (step_event_of (ce_newV4 env n) step eventType fromStatus toStatus summary task fence now)]\<rparr>))"

definition summaryForStatus :: "string \<Rightarrow> string" where
  "summaryForStatus status =
     (if status = DeliveryPlanStepReady then ''Step made ready''
      else if status = DeliveryPlanStepRunning then ''Step started''
      else if status = DeliveryPlanStepBlocked then ''Step blocked''
      else if status = DeliveryPlanStepCompleted then ''Step completed''
      else if status = DeliveryPlanStepFailed then ''Step failed''
      else if status = DeliveryPlanStepSkipped then ''Step skipped''
      else ''Step status changed'')"

subsection \<open>Claiming a step\<close>

definition resultFor :: "plan_step \<Rightarrow> claim_result" where
  "resultFor step =
     \<lparr>cr_Available = True, cr_Step = Some step, cr_Fence = st_LeaseFence step,
      cr_LeaseExpiresAt = st_LeaseExpiresAt step\<rparr>"

definition unavailable :: claim_result where
  "unavailable = \<lparr>cr_Available = False, cr_Step = None, cr_Fence = 0, cr_LeaseExpiresAt = None\<rparr>"

text \<open>\<open>ORDER BY display_order, id\<close> with \<open>FOR UPDATE SKIP LOCKED\<close>, first row.\<close>

definition take_first :: "call_env \<Rightarrow> (plan_step \<Rightarrow> bool) \<Rightarrow> plan_step list \<Rightarrow> plan_step option" where
  "take_first env P steps =
     (case sort_key (\<lambda>s. (st_DisplayOrder s, st_ID s))
         (filter (\<lambda>s. P s \<and> \<not> ce_locked env (st_ID s)) steps) of
        [] \<Rightarrow> None
      | s # _ \<Rightarrow> Some s)"

definition own_live_step :: "delivery_plan \<Rightarrow> automation_task \<Rightarrow> lease_identity \<Rightarrow> gotime \<Rightarrow> plan_step \<Rightarrow> bool" where
  "own_live_step plan task identity now s =
     (st_PlanID s = dp_ID plan \<and> st_AutomationTaskID s = Some (at_ID task)
      \<and> st_RunID s = id_RunID identity \<and> st_WorkerID s = id_WorkerID identity
      \<and> st_AgentKey s = id_AgentKey identity \<and> st_MachineID s = id_MachineID identity
      \<and> st_Status s = DeliveryPlanStepRunning \<and> live_at (st_LeaseExpiresAt s) now)"

text \<open>No dependency row of the step leads to a step of another plan or to one not completed.\<close>

definition dependencies_completed :: "'a plan_tables_scheme \<Rightarrow> plan_step \<Rightarrow> bool" where
  "dependencies_completed db s =
     list_all (\<lambda>edge. sd_StepID edge = st_ID s \<longrightarrow>
       list_all (\<lambda>dependency. st_ID dependency = sd_DependsOnStepID edge \<longrightarrow>
           sd_PlanID edge = st_PlanID s \<and> st_PlanID dependency = st_PlanID s
           \<and> st_Status dependency = DeliveryPlanStepCompleted) (pt_steps db))
       (pt_dependencies db)"

definition claimable :: "'a plan_tables_scheme \<Rightarrow> delivery_plan \<Rightarrow> lease_identity \<Rightarrow> uuid option \<Rightarrow> gotime \<Rightarrow> plan_step \<Rightarrow> bool" where
  "claimable db plan identity targetStepID now s =
     (st_PlanID s = dp_ID plan \<and> (st_AgentKey s = [] \<or> st_AgentKey s = id_AgentKey identity)
      \<and> ((st_Status s \<in> {DeliveryPlanStepPlanned, DeliveryPlanStepReady} \<and> \<not> live_at (st_LeaseExpiresAt s) now)
         \<or> (st_Status s = DeliveryPlanStepRunning \<and> st_LeaseExpiresAt s \<noteq> None \<and> \<not> live_at (st_LeaseExpiresAt s) now))
      \<and> dependencies_completed db s
      \<and> (case targetStepID of None \<Rightarrow> True | Some t \<Rightarrow> st_ID s = t))"

definition claimed_step :: "automation_task \<Rightarrow> int \<Rightarrow> gotime \<Rightarrow> gotime \<Rightarrow> plan_step \<Rightarrow> plan_step" where
  "claimed_step task newFence leaseExpiresAt now s =
     s\<lparr>st_Status := DeliveryPlanStepRunning, st_AutomationTaskID := Some (at_ID task),
       st_AutomationExecutionID := None, st_RunID := at_RunID task, st_WorkerID := at_WorkerID task,
       st_AgentKey := at_AgentKey task, st_MachineID := at_MachineID task, st_LeaseFence := newFence,
       st_LeaseExpiresAt := Some leaseExpiresAt, st_UpdatedAt := now,
       st_StartedAt := (case st_StartedAt s of None \<Rightarrow> Some now | Some t \<Rightarrow> Some t)\<rparr>"

text \<open>The expiry of a new or renewed lease never passes the expiry of the task's own lease.\<close>

definition bounded_expiry :: "automation_task \<Rightarrow> gotime \<Rightarrow> duration \<Rightarrow> gotime" where
  "bounded_expiry task now ttl =
     (case at_LeaseExpiresAt task of
        None \<Rightarrow> now + ttl
      | Some t \<Rightarrow> if t < now + ttl then t else now + ttl)"

text \<open>The part of the claim that writes: the chosen step is made ready, then running.\<close>

definition write_claim ::
  "call_env \<Rightarrow> 'a lease_tables_scheme \<Rightarrow> automation_task \<Rightarrow> plan_step \<Rightarrow> gotime \<Rightarrow> gotime
     \<Rightarrow> lease_error + claim_result \<times> 'a lease_tables_scheme" where
  "write_claim env db task step leaseExpiresAt now =
     (let newFence = st_LeaseFence step + 1;
          wasPlanned = (st_Status step = DeliveryPlanStepPlanned);
          previousStatus = (if wasPlanned then DeliveryPlanStepReady else st_Status step);
          claimed = claimed_step task newFence leaseExpiresAt now step
      in bindE (if wasPlanned
           then bindE (updatePlanStep db (st_ID step)
                  (\<lambda>s. s\<lparr>st_Status := DeliveryPlanStepReady, st_UpdatedAt := now\<rparr>)) (\<lambda>db1.
                createStepEvent env 0 db1 step DeliveryPlanStepEventReady (st_Status step)
                  DeliveryPlanStepReady ''Step ready'' task newFence now)
           else Inr db) (\<lambda>db2.
         bindE (updatePlanStep db2 (st_ID step)
           (\<lambda>s. claimed_step task newFence leaseExpiresAt now
                  (s\<lparr>st_StartedAt := st_StartedAt step\<rparr>))) (\<lambda>db3.
         bindE (if previousStatus = DeliveryPlanStepRunning
           then createStepEvent env 1 db3 claimed DeliveryPlanStepEventLeaseReclaimed previousStatus
                  DeliveryPlanStepRunning ''Expired step lease reclaimed'' task newFence now
           else createStepEvent env 1 db3 claimed DeliveryPlanStepEventClaimed previousStatus
                  DeliveryPlanStepRunning ''Step claimed'' task newFence now) (\<lambda>db4.
         Inr (resultFor claimed, db4)))))"

definition claimReadyStepInTransaction ::
  "call_env \<Rightarrow> 'a lease_tables_scheme \<Rightarrow> claim_input \<Rightarrow> uuid option
     \<Rightarrow> lease_error + claim_result \<times> 'a lease_tables_scheme" where
  "claimReadyStepInTransaction env db input targetStepID =
     bindE (normalizeClaimInput env input) (\<lambda>(claim, ttl).
       case find (\<lambda>p. dp_ID p = nc_PlanID claim) (pt_plans db) of
         None \<Rightarrow> Inl RecordNotFound
       | Some plan \<Rightarrow>
           if \<not> EqualFold (TrimSpace (dp_Status plan)) ''approved''
              \<or> dp_ApprovedGateID plan = None \<or> dp_ApprovedGateID plan = Some uuid_Nil
           then Inl (ErrStepInputInvalid ''delivery plan must have a human-approved version'')
           else bindE (loadLeasedTask env db (nc_Identity claim) (ci_Now input)) (\<lambda>(task, now).
             if at_DeliveryWorkItemID task \<noteq> Some (dp_WorkItemID plan) then Inl ErrStepLeaseConflict
             else case take_first env (own_live_step plan task (nc_Identity claim) now) (pt_steps db) of
                 Some active \<Rightarrow>
                   (case targetStepID of
                      Some t \<Rightarrow> if st_ID active \<noteq> t then Inl ErrStepLeaseConflict
                               else Inr (resultFor active, db)
                    | None \<Rightarrow> Inr (resultFor active, db))
               | None \<Rightarrow>
                   (case take_first env (claimable db plan (nc_Identity claim) targetStepID now) (pt_steps db) of
                      None \<Rightarrow> Inr (unavailable, db)
                    | Some step \<Rightarrow>
                        let leaseExpiresAt = bounded_expiry task now ttl
                        in if st_LeaseFence step < 0 \<or> st_LeaseFence step = MaxInt64
                           then Inl (ErrStepInputInvalid ''step lease fencing counter is exhausted'')
                           else if \<not> now < leaseExpiresAt then Inl ErrStepLeaseConflict
                           else write_claim env db task step leaseExpiresAt now)))"

definition ClaimNextReadyInTransaction ::
  "call_env \<Rightarrow> 'a lease_tables_scheme \<Rightarrow> claim_input \<Rightarrow> lease_error + claim_result \<times> 'a lease_tables_scheme" where
  "ClaimNextReadyInTransaction env db input = claimReadyStepInTransaction env db input None"

definition ClaimSpecificReadyInTransaction ::
  "call_env \<Rightarrow> 'a lease_tables_scheme \<Rightarrow> claim_input \<Rightarrow> uuid \<Rightarrow> lease_error + claim_result \<times> 'a lease_tables_scheme" where
  "ClaimSpecificReadyInTransaction env db input stepID =
     (if stepID = uuid_Nil then Inl (ErrStepInputInvalid ''step_id is required for a targeted claim'')
      else claimReadyStepInTransaction env db input (Some stepID))"

subsection \<open>Renewing a lease and moving a step\<close>

definition RenewStepLeaseInTransaction ::
  "call_env \<Rightarrow> 'a lease_tables_scheme \<Rightarrow> lease_input \<Rightarrow> lease_error + 'a lease_tables_scheme" where
  "RenewStepLeaseInTransaction env db input =
     bindE (normalizeLeaseInput env input) (\<lambda>(identity, ttl).
     bindE (loadLeasedTask env db identity (li_Now input)) (\<lambda>(task, _).
     bindE (loadFencedStep env db (li_StepID input) identity (li_Fence input) task (li_Now input) True)
       (\<lambda>(step, now).
         if \<not> live_at (at_LeaseExpiresAt task) now then Inl ErrStepLeaseConflict
         else let newExpiry = bounded_expiry task now ttl
           in if \<not> (case st_LeaseExpiresAt step of None \<Rightarrow> False | Some t \<Rightarrow> t < newExpiry)
              then Inl ErrStepLeaseConflict
              else bindE (updatePlanStep db (st_ID step)
                  (\<lambda>s. s\<lparr>st_LeaseExpiresAt := Some newExpiry, st_UpdatedAt := now\<rparr>)) (\<lambda>db1.
                createStepEvent env 0 db1 step DeliveryPlanStepEventLeaseRenewed (st_Status step)
                  (st_Status step) ''Step lease renewed'' task (st_LeaseFence step) now))))"

definition TransitionStepInTransaction ::
  "call_env \<Rightarrow> 'a lease_tables_scheme \<Rightarrow> transition_input \<Rightarrow> lease_error + 'a lease_tables_scheme" where
  "TransitionStepInTransaction env db input =
     bindE (normalizeTransitionInput env input) (\<lambda>(identity, nextStatus).
     bindE (loadLeasedTask env db identity (ti_Now input)) (\<lambda>(task, _).
     bindE (loadFencedStep env db (ti_StepID input) identity (ti_Fence input) task (ti_Now input) False)
       (\<lambda>(step, now).
         if \<not> live_at (at_LeaseExpiresAt task) now then Inl ErrStepLeaseConflict
         else if st_Status step = nextStatus then Inr db
         else if \<not> CanTransitionStatus (st_Status step) nextStatus
         then Inl (ErrStepInputInvalid ''status transition is not allowed'')
         else if \<not> EqualFold (st_Status step) DeliveryPlanStepRunning then Inl ErrStepLeaseConflict
         else let finished = (nextStatus = DeliveryPlanStepCompleted \<or> nextStatus = DeliveryPlanStepSkipped);
                  write = (\<lambda>s. s\<lparr>st_Status := nextStatus, st_UpdatedAt := now,
                     st_CompletedAt := (if finished then Some now else st_CompletedAt s)\<rparr>)
           in bindE (updatePlanStep db (st_ID step) write) (\<lambda>db1.
              createStepEvent env 0 db1 (write step) DeliveryPlanStepEventTransitioned (st_Status step)
                nextStatus (summaryForStatus nextStatus) task (st_LeaseFence step) now))))"

end
