(* ===== verification/PlanInput.thy ===== *)
theory PlanInput
  imports GoHash StepLease
begin

text \<open>
  From the structured plan to step inputs (services/deliveryplansteps/input.go) and from approved
  rows to the content hash (services/deliveryplansteps/plan_hash.go). A Go value of type \<open>any\<close> is
  a \<open>gvalue\<close>: a \<open>float64\<close> is the dyadic number \<open>m / 2 ^ e\<close>, a \<open>map[string]any\<close> an association
  list, and a missing key reads as \<open>VNil\<close>. The strict decoding of a requirement list is the
  argument \<open>decodeValue\<close>, the decoding of stored JSON columns the arguments \<open>decode\<close> and
  \<open>decodeStrings\<close>.
\<close>

datatype gvalue =
    VNil
  | VStr string
  | VBool bool
  | VInt int
  | VInt64 int
  | VFloat int nat
  | VList "gvalue list"
  | VStrings "string list"
  | VMap "(string \<times> gvalue) list"

datatype input_error =
    NotAList string
  | TooManyExecutionSteps
  | NotAnObject
  | OrderNotInteger
  | NonEmptyStrings string
  | RequirementsShape
  | RequirementsInvalid plan_error
  | InputsInvalid plan_error
  | CriteriaNeedDAG
  | EmptyWorkItemCriterion
  | DuplicateWorkItemCriterion
  | WorkItemCriteriaBounds
  | ProducersMissCriteria
  | IntegrationMissesCriteria
  | LegacyStepsRejected

definition entry_of :: "(string \<times> gvalue) list \<Rightarrow> string \<Rightarrow> gvalue" where
  "entry_of m k = (case map_of m k of None \<Rightarrow> VNil | Some v \<Rightarrow> v)"

definition stringValue :: "gvalue \<Rightarrow> string" where
  "stringValue v = (case v of VStr s \<Rightarrow> s | _ \<Rightarrow> [])"

text \<open>
  \<open>int\<close> has 64 bits. Out of its range the conversion of a float gives the smallest integer, whose
  float differs, so the comparison of the source refuses it.
\<close>

definition integerValue :: "gvalue \<Rightarrow> int option" where
  "integerValue v =
     (case v of
        VInt n \<Rightarrow> Some n
      | VInt64 n \<Rightarrow> Some n
      | VFloat m e \<Rightarrow>
          if m mod 2 ^ e = 0 \<and> - (2 ^ 63) \<le> m div 2 ^ e \<and> m div 2 ^ e < 2 ^ 63 then Some (m div 2 ^ e) else None
      | _ \<Rightarrow> None)"

fun anyStrings :: "gvalue list \<Rightarrow> string list option" where
  "anyStrings [] = Some []"
| "anyStrings (v # vs) =
     (case v of
        VStr s \<Rightarrow>
          if TrimSpace s = [] then None
          else (case anyStrings vs of None \<Rightarrow> None | Some ss \<Rightarrow> Some (TrimSpace s # ss))
      | _ \<Rightarrow> None)"

definition stringList :: "gvalue \<Rightarrow> string \<Rightarrow> input_error + string list" where
  "stringList v field =
     (case v of
        VList vs \<Rightarrow> fromOption (NonEmptyStrings field) (anyStrings vs)
      | VStrings ss \<Rightarrow>
          if list_ex (\<lambda>s. TrimSpace s = []) ss then Inl (NonEmptyStrings field) else Inr (map TrimSpace ss)
      | _ \<Rightarrow> Inl (NotAList field))"

definition optionalStringList :: "gvalue \<Rightarrow> string \<Rightarrow> input_error + string list" where
  "optionalStringList v field = (if v = VNil then Inr [] else stringList v field)"

definition parseEvidenceRequirementsValue ::
  "(gvalue \<Rightarrow> evidence_requirement list option) \<Rightarrow> gvalue \<Rightarrow> input_error + evidence_requirement list" where
  "parseEvidenceRequirementsValue decodeValue v =
     (if v = VNil then Inr []
      else case decodeValue v of
          None \<Rightarrow> Inl RequirementsShape
        | Some requirements \<Rightarrow>
            (case normalizeEvidenceRequirements requirements of
               Inl e \<Rightarrow> Inl (RequirementsInvalid e)
             | Inr normalized \<Rightarrow> Inr normalized))"

definition execution_step ::
  "(gvalue \<Rightarrow> evidence_requirement list option) \<Rightarrow> gvalue \<Rightarrow> input_error + step_input" where
  "execution_step decodeValue item =
     (case item of
        VMap entry \<Rightarrow>
          (case integerValue (entry_of entry ''order'') of
             None \<Rightarrow> Inl OrderNotInteger
           | Some order \<Rightarrow>
               bindE (stringList (entry_of entry ''acceptance_criteria'') ''acceptance_criteria'') (\<lambda>criteria.
               bindE (optionalStringList (entry_of entry ''depends_on'') ''depends_on'') (\<lambda>dependencies.
               bindE (parseEvidenceRequirementsValue decodeValue (entry_of entry ''evidence_requirements'')) (\<lambda>requirements.
               Inr \<lparr>si_Key = stringValue (entry_of entry ''step_key''), si_Role = stringValue (entry_of entry ''role''),
                    si_Order = order, si_Title = stringValue (entry_of entry ''title''),
                    si_Objective = stringValue (entry_of entry ''objective''), si_AcceptanceCriteria = criteria,
                    si_EvidenceRequirements = requirements, si_DependsOn = dependencies,
                    si_IdempotencyKey = stringValue (entry_of entry ''idempotency_key'')\<rparr>))))
      | _ \<Rightarrow> Inl NotAnObject)"

fun execution_steps ::
  "(gvalue \<Rightarrow> evidence_requirement list option) \<Rightarrow> gvalue list \<Rightarrow> input_error + step_input list" where
  "execution_steps decodeValue [] = Inr []"
| "execution_steps decodeValue (item # items) =
     bindE (execution_step decodeValue item) (\<lambda>i. bindE (execution_steps decodeValue items) (\<lambda>is. Inr (i # is)))"

definition validationPlan :: delivery_plan where
  "validationPlan =
     \<lparr>dp_ID = 0x00000000000040008000000000000001, dp_WorkItemID = 0x00000000000040008000000000000001,
      dp_Version = 1, dp_Status = [], dp_ApprovedGateID = None\<rparr>"

text \<open>The error, or the inputs as \<open>Normalize\<close> left them in the caller's slice.\<close>

definition ValidateInputs ::
  "(nat \<Rightarrow> by_key \<Rightarrow> by_key) \<Rightarrow> (nat \<Rightarrow> uuid) \<Rightarrow> gotime \<Rightarrow> step_input list \<Rightarrow> plan_error + step_input list" where
  "ValidateInputs iter ids clock inputs =
     bindE (Normalize iter ids clock validationPlan [] inputs 0) (\<lambda>(_, inputs'). Inr inputs')"

fun workItemSet :: "string list \<Rightarrow> string list \<Rightarrow> input_error + string list" where
  "workItemSet seen [] = Inr seen"
| "workItemSet seen (c # cs) =
     (let t = TrimSpace c
      in if t = [] then Inl EmptyWorkItemCriterion
         else if t \<in> set seen then Inl DuplicateWorkItemCriterion
         else workItemSet (seen @ [t]) cs)"

text \<open>The last integration step's criteria, as the loop over the inputs leaves them.\<close>

definition integrationCriteriaOf :: "step_input list \<Rightarrow> string list" where
  "integrationCriteriaOf inputs =
     (case rev (filter (\<lambda>i. si_Role i = StepRoleIntegration) inputs) of
        [] \<Rightarrow> [] | i # _ \<Rightarrow> si_AcceptanceCriteria i)"

definition validateIntegrationCriteria :: "step_input list \<Rightarrow> string list \<Rightarrow> input_error + unit" where
  "validateIntegrationCriteria inputs workItemCriteria =
     (if inputs = [] then (if workItemCriteria = [] then Inr () else Inl CriteriaNeedDAG)
      else bindE (workItemSet [] workItemCriteria) (\<lambda>workItem.
        if workItem = [] \<or> length workItem > MaxAcceptanceCriteria then Inl WorkItemCriteriaBounds
        else let producer = remdups (concat (map si_AcceptanceCriteria
                   (filter (\<lambda>i. si_Role i \<noteq> StepRoleIntegration) inputs)));
                 integration = remdups (integrationCriteriaOf inputs)
          in if length producer \<noteq> length workItem \<or> list_ex (\<lambda>c. c \<notin> set producer) workItem
             then Inl ProducersMissCriteria
             else if length integration \<noteq> length workItem \<or> list_ex (\<lambda>c. c \<notin> set integration) workItem
             then Inl IntegrationMissesCriteria
             else Inr ()))"

definition InputsFromStructuredPlan ::
  "(gvalue \<Rightarrow> evidence_requirement list option) \<Rightarrow> (nat \<Rightarrow> by_key \<Rightarrow> by_key) \<Rightarrow> (nat \<Rightarrow> uuid) \<Rightarrow> gotime
     \<Rightarrow> (string \<times> gvalue) list \<Rightarrow> input_error + step_input list" where
  "InputsFromStructuredPlan decodeValue iter ids clock structured =
     (case map_of structured ''execution_steps'' of
        Some raw \<Rightarrow>
          (case raw of
             VList items \<Rightarrow>
               if length items > MaxStepsPerPlan then Inl TooManyExecutionSteps
               else bindE (execution_steps decodeValue items) (\<lambda>inputs.
                 case ValidateInputs iter ids clock inputs of
                   Inl e \<Rightarrow> Inl (InputsInvalid e)
                 | Inr inputs' \<Rightarrow>
                     bindE (stringList (entry_of structured ''acceptance_criteria'') ''acceptance_criteria'') (\<lambda>criteria.
                     bindE (validateIntegrationCriteria inputs' criteria) (\<lambda>_. Inr inputs')))
           | _ \<Rightarrow> Inl (NotAList ''execution_steps''))
      | None \<Rightarrow>
          bindE (stringList (entry_of structured ''implementation_steps'') ''implementation_steps'') (\<lambda>steps.
            if steps = [] then Inr [] else Inl LegacyStepsRejected))"

subsection \<open>The hash of an approved plan\<close>

record canonical_step =
  cs_ID :: string
  cs_StepKey :: string
  cs_Role :: string
  cs_DisplayOrder :: int
  cs_Title :: string
  cs_Objective :: string
  cs_AcceptanceCriteria :: "string list"
  cs_EvidenceRequirements :: "evidence_requirement list"

definition canonical_step_json :: "canonical_step \<Rightarrow> json" where
  "canonical_step_json s =
     JObj ([(''id'', JStr (cs_ID s)), (''step_key'', JStr (cs_StepKey s)), (''role'', JStr (cs_Role s)),
        (''display_order'', JInt (cs_DisplayOrder s)), (''title'', JStr (cs_Title s)),
        (''objective'', JStr (cs_Objective s)),
        (''acceptance_criteria'', JArr (map JStr (cs_AcceptanceCriteria s)))]
      @ (if cs_EvidenceRequirements s = [] then []
         else [(''evidence_requirements'', JArr (map requirement_json (cs_EvidenceRequirements s)))]))"

definition valid_hash_step :: "delivery_plan \<Rightarrow> plan_step \<Rightarrow> bool" where
  "valid_hash_step plan step =
     (\<not> (st_ID step = uuid_Nil \<or> st_PlanID step \<noteq> dp_ID plan \<or> TrimSpace (st_StepKey step) = []
         \<or> st_DisplayOrder step < 0
         \<or> (st_Role step \<noteq> StepRoleImplementation \<and> st_Role step \<noteq> StepRoleIntegration)))"

definition hash_step ::
  "(string \<Rightarrow> evidence_requirement list option) \<Rightarrow> (string \<Rightarrow> string list option) \<Rightarrow> (uuid \<Rightarrow> string)
     \<Rightarrow> plan_step \<Rightarrow> lease_error + canonical_step" where
  "hash_step decode decodeStrings ustr step =
     (case decodeStrings (st_AcceptanceCriteriaJSON step) of
        None \<Rightarrow> Inl (ErrStepInputInvalid ''approved plan acceptance criteria are invalid'')
      | Some criteria \<Rightarrow>
          if length criteria > 32 then Inl (ErrStepInputInvalid ''approved plan acceptance criteria are invalid'')
          else (case parseStoredEvidenceRequirements decode (st_EvidenceRequirementsJSON step) of
              None \<Rightarrow> Inl (ErrStepInputInvalid ''approved plan evidence requirements are invalid'')
            | Some requirements \<Rightarrow>
                Inr \<lparr>cs_ID = ustr (st_ID step), cs_StepKey = st_StepKey step, cs_Role = st_Role step,
                     cs_DisplayOrder = st_DisplayOrder step, cs_Title = st_Title step,
                     cs_Objective = st_Objective step, cs_AcceptanceCriteria = criteria,
                     cs_EvidenceRequirements = requirements\<rparr>))"

text \<open>\<open>done\<close> holds the rows before this one, with their canonical form.\<close>

fun hash_steps ::
  "delivery_plan \<Rightarrow> (plan_step \<Rightarrow> lease_error + canonical_step) \<Rightarrow> (plan_step \<times> canonical_step) list
     \<Rightarrow> plan_step list \<Rightarrow> lease_error + (plan_step \<times> canonical_step) list" where
  "hash_steps plan canonical done [] = Inr done"
| "hash_steps plan canonical done (s # ss) =
     (if \<not> valid_hash_step plan s
      then Inl (ErrStepInputInvalid ''approved plan contains an invalid step identity'')
      else if st_ID s \<in> set (map (st_ID \<circ> fst) done)
      then Inl (ErrStepInputInvalid ''approved plan contains duplicate step identities'')
      else if st_StepKey s \<in> set (map (st_StepKey \<circ> fst) done)
      then Inl (ErrStepInputInvalid ''approved plan contains duplicate step keys'')
      else bindE (canonical s) (\<lambda>c. hash_steps plan canonical (done @ [(s, c)]) ss))"

text \<open>The edges of the rows, each with the key its identities give it in \<open>seenEdges\<close>.\<close>

fun hash_edges ::
  "(uuid \<Rightarrow> string) \<Rightarrow> delivery_plan \<Rightarrow> (uuid \<times> string) list \<Rightarrow> (uuid \<times> uuid) list \<Rightarrow> step_dependency list
     \<Rightarrow> lease_error + (uuid \<times> uuid) list" where
  "hash_edges ustr plan keyByID seen [] = Inr seen"
| "hash_edges ustr plan keyByID seen (e # es) =
     (if sd_PlanID e \<noteq> dp_ID plan \<or> sd_StepID e = uuid_Nil \<or> sd_DependsOnStepID e = uuid_Nil
        \<or> sd_StepID e = sd_DependsOnStepID e
      then Inl (ErrStepInputInvalid ''approved plan contains an invalid dependency'')
      else if map_of keyByID (sd_StepID e) = None
      then Inl (ErrStepInputInvalid ''approved plan dependency references a missing step'')
      else if map_of keyByID (sd_DependsOnStepID e) = None
      then Inl (ErrStepInputInvalid ''approved plan dependency references a missing prerequisite'')
      else if edgeKey (ustr (sd_StepID e)) (ustr (sd_DependsOnStepID e))
                \<in> set (map (\<lambda>(a, b). edgeKey (ustr a) (ustr b)) seen)
      then Inl (ErrStepInputInvalid ''approved plan contains a duplicate dependency'')
      else if map_of keyByID (sd_StepID e) = Some [] \<or> map_of keyByID (sd_DependsOnStepID e) = Some []
      then Inl (ErrStepInputInvalid ''approved plan dependency references a missing step'')
      else hash_edges ustr plan keyByID (seen @ [(sd_StepID e, sd_DependsOnStepID e)]) es)"

definition hash_keys :: "(plan_step \<times> canonical_step) list \<Rightarrow> (uuid \<times> string) list" where
  "hash_keys rows = map (\<lambda>(s, c). (st_ID s, st_StepKey s)) rows"

definition hash_inputs :: "(plan_step \<times> canonical_step) list \<Rightarrow> (uuid \<times> uuid) list \<Rightarrow> by_key" where
  "hash_inputs steps es =
     (let keyByID = hash_keys steps
      in map (\<lambda>(s, c). (st_StepKey s,
           \<lparr>si_Key = st_StepKey s, si_Role = st_Role s, si_Order = st_DisplayOrder s, si_Title = st_Title s,
            si_Objective = st_Objective s, si_AcceptanceCriteria = cs_AcceptanceCriteria c,
            si_EvidenceRequirements = [],
            si_DependsOn = map (\<lambda>e. case map_of keyByID (snd e) of None \<Rightarrow> [] | Some k \<Rightarrow> k)
              (filter (\<lambda>e. fst e = st_ID s) es),
            si_IdempotencyKey = []\<rparr>)) steps)"

definition approvedPlanPayload ::
  "(uuid \<Rightarrow> string) \<Rightarrow> delivery_plan \<Rightarrow> canonical_step list \<Rightarrow> (uuid \<times> uuid) list \<Rightarrow> json" where
  "approvedPlanPayload ustr plan steps es =
     JObj [(''schema_version'', JInt 2), (''plan_id'', JStr (ustr (dp_ID plan))), (''version'', JInt (dp_Version plan)),
       (''approved_gate_id'', JStr (case dp_ApprovedGateID plan of None \<Rightarrow> [] | Some g \<Rightarrow> ustr g)),
       (''steps'', JArr (map canonical_step_json (sort_key (\<lambda>s. (cs_DisplayOrder s, cs_ID s)) steps))),
       (''dependencies'', JArr (map (\<lambda>(a, b). JObj [(''step_id'', JStr a), (''depends_on_step_id'', JStr b)])
          (sort (map (\<lambda>(a, b). (ustr a, ustr b)) es))))]"

definition ApprovedPlanContentHash ::
  "(string \<Rightarrow> evidence_requirement list option) \<Rightarrow> (string \<Rightarrow> string list option) \<Rightarrow> (uuid \<Rightarrow> string)
     \<Rightarrow> (by_key \<Rightarrow> by_key) \<Rightarrow> delivery_plan \<Rightarrow> plan_step list \<Rightarrow> step_dependency list \<Rightarrow> lease_error + string" where
  "ApprovedPlanContentHash decode decodeStrings ustr iter plan steps dependencies =
     (if dp_ID plan = uuid_Nil \<or> dp_Version plan < 1 \<or> dp_Status plan \<noteq> ''approved''
        \<or> dp_ApprovedGateID plan = None \<or> dp_ApprovedGateID plan = Some uuid_Nil
      then Inl (ErrStepInputInvalid ''an approved, gated plan is required to compute its execution hash'')
      else if steps = [] \<or> length steps > 512 \<or> length dependencies > 4096
      then Inl (ErrStepInputInvalid ''approved plan graph exceeds supported bounds'')
      else bindE (hash_steps plan (hash_step decode decodeStrings ustr) [] steps) (\<lambda>rows.
           bindE (hash_edges ustr plan (hash_keys rows) [] dependencies) (\<lambda>es.
           case validateIntegrationGraph (iter (hash_inputs rows es)) of
             Inl _ \<Rightarrow> Inl (ErrStepInputInvalid ''approved plan integration graph is invalid'')
           | Inr _ \<Rightarrow> Inr (sha256_hex (json_encode (approvedPlanPayload ustr plan (map snd rows) es))))))"

end
