(* ===== verification/PlanInputProps.thy ===== *)
theory PlanInputProps
  imports PlanInput PlanNormalize
begin

text \<open>
  Properties of input.go and plan_hash.go: which structured plans are accepted, that accepted
  inputs cover the acceptance criteria of the work item exactly, and that the digest of an approved
  plan does not depend on the order in which its rows were read.
\<close>

subsection \<open>The rows a digest is taken of\<close>

definition approvedPlanRows ::
  "(string \<Rightarrow> evidence_requirement list option) \<Rightarrow> (string \<Rightarrow> string list option) \<Rightarrow> (uuid \<Rightarrow> string)
     \<Rightarrow> (by_key \<Rightarrow> by_key) \<Rightarrow> delivery_plan \<Rightarrow> plan_step list \<Rightarrow> step_dependency list
     \<Rightarrow> lease_error + (plan_step \<times> canonical_step) list \<times> (uuid \<times> uuid) list" where
  "approvedPlanRows decode decodeStrings ustr iter plan steps dependencies =
     (if dp_ID plan = uuid_Nil \<or> dp_Version plan < 1 \<or> dp_Status plan \<noteq> ''approved''
        \<or> dp_ApprovedGateID plan = None \<or> dp_ApprovedGateID plan = Some uuid_Nil
      then Inl (ErrStepInputInvalid ''an approved, gated plan is required to compute its execution hash'')
      else if steps = [] \<or> length steps > 512 \<or> length dependencies > 4096
      then Inl (ErrStepInputInvalid ''approved plan graph exceeds supported bounds'')
      else bindE (hash_steps plan (hash_step decode decodeStrings ustr) [] steps) (\<lambda>rows.
           bindE (hash_edges ustr plan (hash_keys rows) [] dependencies) (\<lambda>es.
           case validateIntegrationGraph (iter (hash_inputs rows es)) of
             Inl _ \<Rightarrow> Inl (ErrStepInputInvalid ''approved plan integration graph is invalid'')
           | Inr _ \<Rightarrow> Inr (rows, es))))"

lemma ApprovedPlanContentHash_rows:
  "ApprovedPlanContentHash decode decodeStrings ustr iter plan steps dependencies =
     bindE (approvedPlanRows decode decodeStrings ustr iter plan steps dependencies) (\<lambda>(rows, es).
       Inr (sha256_hex (json_encode (approvedPlanPayload ustr plan (map snd rows) es))))"
  by (auto simp: ApprovedPlanContentHash_def approvedPlanRows_def bindE_def split: sum.splits)

lemma isOk_ApprovedPlanContentHash:
  "isOk (ApprovedPlanContentHash decode decodeStrings ustr iter plan steps dependencies) \<longleftrightarrow>
     isOk (approvedPlanRows decode decodeStrings ustr iter plan steps dependencies)"
  by (auto simp: ApprovedPlanContentHash_rows isOk_iff bindE_Inr_iff)

end
