(* ===== verification/StepLeaseProps.thy ===== *)
theory StepLeaseProps
  imports StepLease StepSystem
begin

text \<open>
  The lease protocol over every interleaving of its calls. \<open>lease_step\<close> is one successful call of
  the three operations, by any caller with any input, clock, row locks and identities, or a change
  of tasks and plans by another component. The relation \<open>tables_before\<close> is what every run keeps:
  the content of a row never changes, its fence never decreases, one fence value has one holder,
  and a closed status stays. \<open>lease_inv\<close> is the dependency order, \<open>replay\<close> the audit trail.
\<close>

subsection \<open>One row is written\<close>

definition row_write ::
  "'a lease_tables_scheme \<Rightarrow> plan_step \<Rightarrow> plan_step \<Rightarrow> step_event list \<Rightarrow> 'a lease_tables_scheme \<Rightarrow> bool" where
  "row_write db s s' evs db' \<longleftrightarrow>
     s \<in> set (pt_steps db) \<and> filter (\<lambda>x. st_ID x = st_ID s) (pt_steps db) = [s]
     \<and> db' = db\<lparr>pt_steps := map (\<lambda>x. if st_ID x = st_ID s then s' else x) (pt_steps db),
                lt_events := lt_events db @ evs\<rparr>"

lemma single_row:
  assumes "length (filter (\<lambda>x. st_ID x = i) xs) = 1" "s \<in> set xs" "st_ID s = i"
  shows "filter (\<lambda>x. st_ID x = i) xs = [s]" "x \<in> set xs \<Longrightarrow> st_ID x = i \<Longrightarrow> x = s"
proof -
  obtain y where y: "filter (\<lambda>x. st_ID x = i) xs = [y]" using assms(1) by (auto simp: length_Suc_conv)
  have "z \<in> set xs \<Longrightarrow> st_ID z = i \<Longrightarrow> z = y" for z
  proof -
    assume "z \<in> set xs" "st_ID z = i"
    then have "z \<in> set (filter (\<lambda>x. st_ID x = i) xs)" by simp
    then show "z = y" by (simp add: y)
  qed
  with assms y show "filter (\<lambda>x. st_ID x = i) xs = [s]" "x \<in> set xs \<Longrightarrow> st_ID x = i \<Longrightarrow> x = s" by auto
qed

lemma updatePlanStep_Inr:
  assumes "updatePlanStep db (st_ID s) f = Inr db'" "s \<in> set (pt_steps db)"
  shows "row_write db s (f s) [] db'"
proof -
  from assms(1) have l: "length (filter (\<lambda>x. st_ID x = st_ID s) (pt_steps db)) = 1"
    and d: "db' = db\<lparr>pt_steps := map (\<lambda>x. if st_ID x = st_ID s then f x else x) (pt_steps db)\<rparr>"
    by (auto simp: updatePlanStep_def split: if_splits)
  have "map (\<lambda>x. if st_ID x = st_ID s then f x else x) (pt_steps db)
      = map (\<lambda>x. if st_ID x = st_ID s then f s else x) (pt_steps db)"
    using single_row(2) [OF l assms(2)] by auto
  with d assms(2) single_row(1) [OF l assms(2)] show ?thesis by (simp add: row_write_def)
qed

lemma createStepEvent_Inr:
  "createStepEvent env n db step ty from_st to_st summary task fence now = Inr db' \<Longrightarrow>
     db' = db\<lparr>lt_events := lt_events db @ [BeforeCreate (ce_instance env)
       (step_event_of (ce_newV4 env n) step ty from_st to_st summary task fence now)]\<rparr>"
  by (simp add: createStepEvent_def split: if_splits)

lemma BeforeCreate_sel [simp]:
  "ev_StepID (BeforeCreate i e) = ev_StepID e" "ev_FromStatus (BeforeCreate i e) = ev_FromStatus e"
  "ev_ToStatus (BeforeCreate i e) = ev_ToStatus e" "ev_LeaseFence (BeforeCreate i e) = ev_LeaseFence e"
  by (simp_all add: BeforeCreate_def)

lemma step_event_of_sel [simp]:
  "ev_StepID (step_event_of i step ty from_st to_st summary task fence now) = st_ID step"
  "ev_FromStatus (step_event_of i step ty from_st to_st summary task fence now) = from_st"
  "ev_ToStatus (step_event_of i step ty from_st to_st summary task fence now) = to_st"
  "ev_LeaseFence (step_event_of i step ty from_st to_st summary task fence now) = fence"
  by (simp_all add: step_event_of_def)

lemma row_write_event:
  "row_write db s s' evs db1 \<Longrightarrow> row_write db s s' (evs @ [e]) (db1\<lparr>lt_events := lt_events db1 @ [e]\<rparr>)"
  by (simp add: row_write_def)

lemma write_with_event:
  assumes u: "updatePlanStep db (st_ID s) f = Inr db1" and s: "s \<in> set (pt_steps db)"
    and e: "createStepEvent env n db1 x ty from_st to_st summary task fence now = Inr db'"
  shows "row_write db s (f s) [BeforeCreate (ce_instance env)
      (step_event_of (ce_newV4 env n) x ty from_st to_st summary task fence now)] db'"
  using row_write_event [OF updatePlanStep_Inr [OF u s]] createStepEvent_Inr [OF e] by simp

text \<open>A second write of the row that was just written.\<close>

lemma row_write_again:
  assumes w: "row_write db s s1 evs db1" and id: "st_ID s1 = st_ID s"
    and u: "updatePlanStep db1 (st_ID s) f = Inr db2"
  shows "row_write db s (f s1) evs db2"
proof -
  have s1: "s1 \<in> set (pt_steps db1)" using w by (auto simp: row_write_def)
  have "row_write db1 s1 (f s1) [] db2" using updatePlanStep_Inr [OF _ s1] u by (simp add: id)
  with w id show ?thesis by (auto simp: row_write_def)
qed

subsection \<open>The events of a step replayed\<close>

fun replay :: "string \<Rightarrow> step_event list \<Rightarrow> string option" where
  "replay st [] = Some st"
| "replay st (e # es) = (if ev_FromStatus e = st then replay (ev_ToStatus e) es else None)"

lemma replay_append: "replay st (es @ fs) = (case replay st es of None \<Rightarrow> None | Some st' \<Rightarrow> replay st' fs)"
  by (induction es arbitrary: st) auto

definition logs :: "plan_step \<Rightarrow> plan_step \<Rightarrow> step_event list \<Rightarrow> bool" where
  "logs s s' evs \<longleftrightarrow> (\<forall>e \<in> set evs. ev_StepID e = st_ID s) \<and> replay (st_Status s) evs = Some (st_Status s')"

subsection \<open>What the three operations do\<close>

lemma bounded_expiry_le:
  "bounded_expiry task now ttl \<le> now + ttl" "at_LeaseExpiresAt task = Some t \<Longrightarrow> bounded_expiry task now ttl \<le> t"
  by (auto simp: bounded_expiry_def split: option.splits)

lemma take_first_Some:
  assumes "take_first env P steps = Some s"
  shows "s \<in> set steps \<and> P s \<and> \<not> ce_locked env (st_ID s)"
proof -
  let ?xs = "sort_key (\<lambda>s. (st_DisplayOrder s, st_ID s)) (filter (\<lambda>s. P s \<and> \<not> ce_locked env (st_ID s)) steps)"
  from assms obtain r where "?xs = s # r" unfolding take_first_def by (cases ?xs) simp_all
  then have "s \<in> set ?xs" by simp
  then show ?thesis by simp
qed

lemma claimed_step_sel [simp]:
  "st_ID (claimed_step task f x now s) = st_ID s" "st_Status (claimed_step task f x now s) = DeliveryPlanStepRunning"
  "st_LeaseFence (claimed_step task f x now s) = f" "st_LeaseExpiresAt (claimed_step task f x now s) = Some x"
  "st_PlanID (claimed_step task f x now s) = st_PlanID s"
  by (simp_all add: claimed_step_def)

lemma claimed_step_ready:
  "claimed_step task f x now (s\<lparr>st_Status := r, st_UpdatedAt := u, st_StartedAt := st_StartedAt s\<rparr>)
     = claimed_step task f x now s"
  "claimed_step task f x now (s\<lparr>st_StartedAt := st_StartedAt s\<rparr>) = claimed_step task f x now s"
  by (simp_all add: claimed_step_def)

lemma write_claim_Inr:
  assumes ok: "write_claim env db task s expiry now = Inr (res, db')" and s: "s \<in> set (pt_steps db)"
  shows "res = resultFor (claimed_step task (st_LeaseFence s + 1) expiry now s)"
    "\<exists>evs. row_write db s (claimed_step task (st_LeaseFence s + 1) expiry now s) evs db'
       \<and> logs s (claimed_step task (st_LeaseFence s + 1) expiry now s) evs"
proof -
  let ?c = "claimed_step task (st_LeaseFence s + 1) expiry now s"
  show "res = resultFor ?c" using ok by (auto simp: write_claim_def Let_def bindE_Inr_iff)
  show "\<exists>evs. row_write db s ?c evs db' \<and> logs s ?c evs"
  proof (cases "st_Status s = DeliveryPlanStepPlanned")
    case True
    let ?r = "s\<lparr>st_Status := DeliveryPlanStepReady, st_UpdatedAt := now\<rparr>"
    from ok True obtain db1 db2 db3 where
      u1: "updatePlanStep db (st_ID s) (\<lambda>s. s\<lparr>st_Status := DeliveryPlanStepReady, st_UpdatedAt := now\<rparr>) = Inr db1"
      and e1: "createStepEvent env 0 db1 s DeliveryPlanStepEventReady (st_Status s) DeliveryPlanStepReady ''Step ready''
          task (st_LeaseFence s + 1) now = Inr db2"
      and u2: "updatePlanStep db2 (st_ID s) (\<lambda>x. claimed_step task (st_LeaseFence s + 1) expiry now
          (x\<lparr>st_StartedAt := st_StartedAt s\<rparr>)) = Inr db3"
      and e2: "createStepEvent env 1 db3 ?c DeliveryPlanStepEventClaimed DeliveryPlanStepReady DeliveryPlanStepRunning
          ''Step claimed'' task (st_LeaseFence s + 1) now = Inr db'"
      by (auto simp: write_claim_def Let_def bindE_Inr_iff step_status_names)
    note w1 = row_write_event [OF updatePlanStep_Inr [OF u1 s]]
    have w2: "row_write db s ?c ([] @ [BeforeCreate (ce_instance env) (step_event_of (ce_newV4 env 0) s
        DeliveryPlanStepEventReady (st_Status s) DeliveryPlanStepReady ''Step ready'' task (st_LeaseFence s + 1) now)]) db3"
      using row_write_again [OF w1 _ u2 [unfolded createStepEvent_Inr [OF e1]]] by (simp add: claimed_step_def)
    from row_write_event [OF w2] createStepEvent_Inr [OF e2] show ?thesis
      by (fastforce simp: logs_def True)
  next
    case False
    from ok False obtain db3 ty su where
      u2: "updatePlanStep db (st_ID s) (\<lambda>x. claimed_step task (st_LeaseFence s + 1) expiry now
          (x\<lparr>st_StartedAt := st_StartedAt s\<rparr>)) = Inr db3"
      and e2: "createStepEvent env 1 db3 ?c ty (st_Status s) DeliveryPlanStepRunning su
           task (st_LeaseFence s + 1) now = Inr db'"
      by (auto simp: write_claim_def Let_def bindE_Inr_iff split: if_splits)
    from row_write_event [OF updatePlanStep_Inr [OF u2 s]] createStepEvent_Inr [OF e2] show ?thesis
      by (fastforce simp: logs_def claimed_step_ready)
  qed
qed

text \<open>A claim returns the caller's own live step, nothing, or one step that nobody holds.\<close>

lemma claim_effect:
  assumes "claimReadyStepInTransaction env db input target = Inr (res, db')"
  obtains (own) plan task identity now s where "db' = db" "res = resultFor s" "s \<in> set (pt_steps db)"
      "own_live_step plan task identity now s" "loadLeasedTask env db identity (ci_Now input) = Inr (task, now)"
  | (none) "db' = db" "res = unavailable"
  | (fresh) plan task identity ttl now s evs where
      "s \<in> set (pt_steps db)" "claimable db plan identity target now s" "\<not> ce_locked env (st_ID s)"
      "0 \<le> st_LeaseFence s" "st_LeaseFence s \<noteq> MaxInt64" "now < bounded_expiry task now ttl"
      "loadLeasedTask env db identity (ci_Now input) = Inr (task, now)"
      "MinStepLeaseTTL \<le> ttl" "ttl \<le> MaxStepLeaseTTL"
      "res = resultFor (claimed_step task (st_LeaseFence s + 1) (bounded_expiry task now ttl) now s)"
      "row_write db s (claimed_step task (st_LeaseFence s + 1) (bounded_expiry task now ttl) now s) evs db'"
      "logs s (claimed_step task (st_LeaseFence s + 1) (bounded_expiry task now ttl) now s) evs"
proof -
  from assms obtain claim ttl where n: "normalizeClaimInput env input = Inr (claim, ttl)"
    by (auto simp: claimReadyStepInTransaction_def bindE_Inr_iff)
  have ttl: "MinStepLeaseTTL \<le> ttl" "ttl \<le> MaxStepLeaseTTL"
    using n by (auto simp: normalizeClaimInput_def bindE_Inr_iff validateStepLeaseTTL_def Let_def split: if_splits)
  from assms n obtain plan where p: "find (\<lambda>p. dp_ID p = nc_PlanID claim) (pt_plans db) = Some plan"
    by (auto simp: claimReadyStepInTransaction_def split: option.splits)
  from assms n p obtain task now where t: "loadLeasedTask env db (nc_Identity claim) (ci_Now input) = Inr (task, now)"
    by (auto simp: claimReadyStepInTransaction_def bindE_Inr_iff split: if_splits)
  let ?own = "take_first env (own_live_step plan task (nc_Identity claim) now) (pt_steps db)"
  let ?new = "take_first env (claimable db plan (nc_Identity claim) target now) (pt_steps db)"
  show ?thesis
  proof (cases ?own)
    case (Some a)
    then have "res = resultFor a" "db' = db"
      using assms n p t by (auto simp: claimReadyStepInTransaction_def split: if_splits option.splits)
    with own take_first_Some [OF Some] t show ?thesis by blast
  next
    case None
    show ?thesis
    proof (cases ?new)
      case new_none: None
      then have "res = unavailable" "db' = db"
        using assms n p t None by (auto simp: claimReadyStepInTransaction_def split: if_splits)
      with none show ?thesis by blast
    next
      case (Some a)
      then have w: "write_claim env db task a (bounded_expiry task now ttl) now = Inr (res, db')"
        and g: "0 \<le> st_LeaseFence a" "st_LeaseFence a \<noteq> MaxInt64" "now < bounded_expiry task now ttl"
        using assms n p t None by (auto simp: claimReadyStepInTransaction_def Let_def split: if_splits)
      from take_first_Some [OF Some] have a: "a \<in> set (pt_steps db)" by simp
      from write_claim_Inr(2) [OF w a] obtain evs where
        e: "row_write db a (claimed_step task (st_LeaseFence a + 1) (bounded_expiry task now ttl) now a) evs db'"
        "logs a (claimed_step task (st_LeaseFence a + 1) (bounded_expiry task now ttl) now a) evs" by blast
      from take_first_Some [OF Some] have c: "claimable db plan (nc_Identity claim) target now a"
        "\<not> ce_locked env (st_ID a)" by simp_all
      show ?thesis by (rule fresh [OF a c g t ttl write_claim_Inr(1) [OF w a] e])
    qed
  qed
qed

lemma loadFencedStep_Inr:
  assumes "loadFencedStep env db stepID identity fence task override req = Inr (s, now)"
  shows "s \<in> set (pt_steps db)" "st_ID s = stepID" "st_LeaseFence s = fence" "live_at (st_LeaseExpiresAt s) now"
    "live_at (at_LeaseExpiresAt task) now" "st_AutomationTaskID s = Some (id_AutomationTaskID identity)"
    "st_RunID s = id_RunID identity" "st_WorkerID s = id_WorkerID identity"
    "st_AgentKey s = id_AgentKey identity" "st_MachineID s = id_MachineID identity"
    "req \<Longrightarrow> st_Status s = DeliveryPlanStepRunning" "now = leaseValidationTime override (ce_clock env 1)"
  using assms by (auto simp: loadFencedStep_def Let_def find_Some_iff split: option.splits if_splits)

lemma renew_effect:
  assumes "RenewStepLeaseInTransaction env db input = Inr db'"
  obtains identity ttl task s now t evs where
    "normalizeLeaseInput env input = Inr (identity, ttl)"
    "loadFencedStep env db (li_StepID input) identity (li_Fence input) task (li_Now input) True = Inr (s, now)"
    "st_LeaseExpiresAt s = Some t" "t < bounded_expiry task now ttl"
    "row_write db s (s\<lparr>st_LeaseExpiresAt := Some (bounded_expiry task now ttl), st_UpdatedAt := now\<rparr>) evs db'"
    "logs s (s\<lparr>st_LeaseExpiresAt := Some (bounded_expiry task now ttl), st_UpdatedAt := now\<rparr>) evs"
proof -
  from assms obtain identity ttl task n0 s now where
    n: "normalizeLeaseInput env input = Inr (identity, ttl)"
    and l: "loadLeasedTask env db identity (li_Now input) = Inr (task, n0)"
    and f: "loadFencedStep env db (li_StepID input) identity (li_Fence input) task (li_Now input) True = Inr (s, now)"
    by (auto simp: RenewStepLeaseInTransaction_def bindE_Inr_iff)
  from assms n l f obtain t db1 where t: "st_LeaseExpiresAt s = Some t" "t < bounded_expiry task now ttl"
    and u: "updatePlanStep db (st_ID s)
        (\<lambda>s. s\<lparr>st_LeaseExpiresAt := Some (bounded_expiry task now ttl), st_UpdatedAt := now\<rparr>) = Inr db1"
    and e: "createStepEvent env 0 db1 s DeliveryPlanStepEventLeaseRenewed (st_Status s) (st_Status s)
        ''Step lease renewed'' task (st_LeaseFence s) now = Inr db'"
    by (auto simp: RenewStepLeaseInTransaction_def Let_def bindE_Inr_iff split: if_splits option.splits)
  note w = write_with_event [OF u loadFencedStep_Inr(1) [OF f] e]
  show ?thesis by (rule that [OF n f t w]) (simp add: logs_def)
qed

lemma transition_effect:
  assumes "TransitionStepInTransaction env db input = Inr db'"
  obtains (idem) "db' = db"
  | (moved) identity nextStatus task s now s' evs where
    "normalizeTransitionInput env input = Inr (identity, nextStatus)"
    "loadFencedStep env db (ti_StepID input) identity (ti_Fence input) task (ti_Now input) False = Inr (s, now)"
    "CanTransitionStatus (st_Status s) nextStatus" "EqualFold (st_Status s) DeliveryPlanStepRunning"
    "st_Status s \<noteq> nextStatus"
    "s' = s\<lparr>st_Status := nextStatus, st_UpdatedAt := now,
        st_CompletedAt := (if nextStatus = DeliveryPlanStepCompleted \<or> nextStatus = DeliveryPlanStepSkipped
          then Some now else st_CompletedAt s)\<rparr>"
    "row_write db s s' evs db'" "logs s s' evs"
proof -
  from assms obtain identity nextStatus task n0 s now where
    n: "normalizeTransitionInput env input = Inr (identity, nextStatus)"
    and l: "loadLeasedTask env db identity (ti_Now input) = Inr (task, n0)"
    and f: "loadFencedStep env db (ti_StepID input) identity (ti_Fence input) task (ti_Now input) False = Inr (s, now)"
    by (auto simp: TransitionStepInTransaction_def bindE_Inr_iff)
  let ?upd = "\<lambda>s. s\<lparr>st_Status := nextStatus, st_UpdatedAt := now,
        st_CompletedAt := (if nextStatus = DeliveryPlanStepCompleted \<or> nextStatus = DeliveryPlanStepSkipped
          then Some now else st_CompletedAt s)\<rparr>"
  show ?thesis
  proof (cases "st_Status s = nextStatus")
    case True
    with assms n l f have "db' = db"
      by (auto simp: TransitionStepInTransaction_def split: if_splits)
    then show ?thesis by (rule idem)
  next
    case False
    with assms n l f obtain db1 where c: "CanTransitionStatus (st_Status s) nextStatus"
        "EqualFold (st_Status s) DeliveryPlanStepRunning"
      and u: "updatePlanStep db (st_ID s) ?upd = Inr db1"
      and e: "createStepEvent env 0 db1 (?upd s) DeliveryPlanStepEventTransitioned (st_Status s) nextStatus
        (summaryForStatus nextStatus) task (st_LeaseFence s) now = Inr db'"
      by (auto simp: TransitionStepInTransaction_def Let_def bindE_Inr_iff split: if_splits)
    note w = write_with_event [OF u loadFencedStep_Inr(1) [OF f] e]
    show ?thesis by (rule moved [OF n f c False refl w]) (simp add: logs_def)
  qed
qed

subsection \<open>Runs\<close>

inductive lease_step :: "'a lease_tables_scheme \<Rightarrow> 'a lease_tables_scheme \<Rightarrow> bool" where
  claim: "claimReadyStepInTransaction env db input target = Inr (res, db') \<Longrightarrow> lease_step db db'"
| renew: "RenewStepLeaseInTransaction env db input = Inr db' \<Longrightarrow> lease_step db db'"
| transition: "TransitionStepInTransaction env db input = Inr db' \<Longrightarrow> lease_step db db'"
| other: "lease_step db (db\<lparr>lt_tasks := tasks, pt_plans := plans\<rparr>)"

definition holder :: "plan_step \<Rightarrow> uuid option \<times> string \<times> string \<times> string \<times> string" where
  "holder s = (st_AutomationTaskID s, st_RunID s, st_WorkerID s, st_AgentKey s, st_MachineID s)"

definition content :: "plan_step \<Rightarrow> uuid \<times> uuid \<times> string \<times> string \<times> string \<times> int \<times> string \<times> string \<times> string \<times> string" where
  "content s = (st_ID s, st_PlanID s, st_StepKey s, st_IdempotencyKey s, st_Role s, st_DisplayOrder s,
     st_Title s, st_Objective s, st_AcceptanceCriteriaJSON s, st_EvidenceRequirementsJSON s)"

text \<open>Statuses the protocol never leaves: neither a claim nor a transition starts from them.\<close>

definition closed_status :: "string \<Rightarrow> bool" where
  "closed_status st \<longleftrightarrow> st \<in> {DeliveryPlanStepBlocked, DeliveryPlanStepCompleted, DeliveryPlanStepFailed, DeliveryPlanStepSkipped}"

definition expiry_before :: "gotime option \<Rightarrow> gotime option \<Rightarrow> bool" where
  "expiry_before a b \<longleftrightarrow> (\<forall>t. a = Some t \<longrightarrow> (\<exists>u. b = Some u \<and> t \<le> u))"

definition row_before :: "plan_step \<Rightarrow> plan_step \<Rightarrow> bool" where
  "row_before s s' \<longleftrightarrow>
     content s' = content s \<and> st_LeaseFence s \<le> st_LeaseFence s'
     \<and> (st_LeaseFence s = st_LeaseFence s' \<longrightarrow>
          holder s = holder s' \<and> expiry_before (st_LeaseExpiresAt s) (st_LeaseExpiresAt s'))
     \<and> (closed_status (st_Status s) \<longrightarrow> st_Status s' = st_Status s)"

definition tables_before :: "'a lease_tables_scheme \<Rightarrow> 'a lease_tables_scheme \<Rightarrow> bool" where
  "tables_before db db' \<longleftrightarrow>
     pt_dependencies db' = pt_dependencies db \<and> list_all2 row_before (pt_steps db) (pt_steps db')
     \<and> (\<exists>evs. lt_events db' = lt_events db @ evs)"

lemma row_before_refl [simp]: "row_before s s"
  by (simp add: row_before_def expiry_before_def)

lemma expiry_before_trans: "expiry_before a b \<Longrightarrow> expiry_before b c \<Longrightarrow> expiry_before a c"
  unfolding expiry_before_def by (metis order_trans)

lemma row_before_trans:
  assumes "row_before s t" "row_before t u"
  shows "row_before s u"
proof -
  have "st_LeaseFence s = st_LeaseFence t \<and> st_LeaseFence t = st_LeaseFence u" if "st_LeaseFence s = st_LeaseFence u"
    using assms that by (simp add: row_before_def)
  with assms show ?thesis unfolding row_before_def by (metis expiry_before_trans order_trans)
qed

lemma tables_before_refl [simp]: "tables_before db db"
  by (simp add: tables_before_def list_all2_refl)

lemma tables_before_trans: "tables_before a b \<Longrightarrow> tables_before b c \<Longrightarrow> tables_before a c"
  unfolding tables_before_def by (auto intro: list_all2_trans [OF row_before_trans])

lemma row_write_unique:
  assumes "row_write db s s' evs db'" "x \<in> set (pt_steps db)" "st_ID x = st_ID s"
  shows "x = s"
proof -
  have "x \<in> set (filter (\<lambda>x. st_ID x = st_ID s) (pt_steps db))" using assms(2,3) by simp
  also have "set (filter (\<lambda>x. st_ID x = st_ID s) (pt_steps db)) = {s}"
    using assms(1) unfolding row_write_def by (metis list.set(1,2))
  finally show ?thesis by simp
qed

lemma list_all2_map_self: "(\<And>x. x \<in> set xs \<Longrightarrow> P x (f x)) \<Longrightarrow> list_all2 P xs (map f xs)"
  by (induction xs) auto

lemma row_write_before:
  assumes w: "row_write db s s' evs db'" and b: "row_before s s'"
  shows "tables_before db db'"
proof -
  have "row_before x (if st_ID x = st_ID s then s' else x)" if "x \<in> set (pt_steps db)" for x
    using row_write_unique [OF w that] b by auto
  then have "list_all2 row_before (pt_steps db) (map (\<lambda>x. if st_ID x = st_ID s then s' else x) (pt_steps db))"
    by (rule list_all2_map_self)
  with w show ?thesis by (simp add: row_write_def tables_before_def)
qed

lemma running_closed [simp]: "\<not> closed_status DeliveryPlanStepRunning" "\<not> closed_status DeliveryPlanStepPlanned"
  "\<not> closed_status DeliveryPlanStepReady"
  by (simp_all add: closed_status_def step_status_names)

lemma claimed_before:
  assumes "claimable db plan identity target now s" "0 \<le> st_LeaseFence s"
  shows "row_before s (claimed_step task (st_LeaseFence s + 1) x now s)"
  using assms by (auto simp: row_before_def claimable_def content_def claimed_step_def)

lemma closed_not_running: "closed_status st \<Longrightarrow> \<not> EqualFold st DeliveryPlanStepRunning"
  unfolding closed_status_def by (elim insertE emptyE; hypsubst; code_simp)

lemma open_not_running:
  "\<not> EqualFold DeliveryPlanStepPlanned DeliveryPlanStepRunning"
  "\<not> EqualFold DeliveryPlanStepReady DeliveryPlanStepRunning"
  by code_simp+

lemma lease_step_before: "lease_step db db' \<Longrightarrow> tables_before db db'"
proof (induction rule: lease_step.induct)
  case (claim env db input target res db')
  then show ?case
    by (cases rule: claim_effect) (auto intro: row_write_before claimed_before)
next
  case (renew env db input db')
  then show ?case
  proof (cases rule: renew_effect)
    case (1 identity ttl task s now t evs)
    then show ?thesis
      by (auto intro!: row_write_before [OF 1(5)] simp: row_before_def content_def holder_def expiry_before_def)
  qed
next
  case (transition env db input db')
  then show ?case
  proof (cases rule: transition_effect)
    case (moved identity nextStatus task s now s' evs)
    then show ?thesis
      by (auto intro!: row_write_before [OF moved(7)] simp: row_before_def content_def holder_def expiry_before_def
          dest: closed_not_running)
  qed simp
qed (simp add: tables_before_def list_all2_refl)

text \<open>A step that left planned and ready had all its dependencies completed.\<close>

definition lease_inv :: "'a lease_tables_scheme \<Rightarrow> bool" where
  "lease_inv db \<longleftrightarrow>
     (\<forall>s \<in> set (pt_steps db). st_Status s \<notin> {DeliveryPlanStepPlanned, DeliveryPlanStepReady} \<longrightarrow>
        dependencies_completed db s)"

lemma dependencies_completed_before:
  assumes b: "tables_before db db'" and r: "content s' = content s" and d: "dependencies_completed db s"
  shows "dependencies_completed db' s'"
  unfolding dependencies_completed_def list_all_iff
proof (intro ballI impI)
  fix edge y' assume e: "edge \<in> set (pt_dependencies db')" "sd_StepID edge = st_ID s'"
    and y': "y' \<in> set (pt_steps db')" "st_ID y' = sd_DependsOnStepID edge"
  from b y'(1) obtain y where y: "y \<in> set (pt_steps db)" "row_before y y'"
    unfolding tables_before_def by (metis list_all2_conv_all_nth in_set_conv_nth)
  then have "st_ID y = sd_DependsOnStepID edge" "st_PlanID y' = st_PlanID y"
    using y'(2) by (simp_all add: row_before_def content_def)
  with d e y(1) r b have "sd_PlanID edge = st_PlanID s" "st_PlanID y = st_PlanID s" "st_Status y = DeliveryPlanStepCompleted"
    by (auto simp: dependencies_completed_def list_all_iff tables_before_def content_def)
  with y(2) r show "sd_PlanID edge = st_PlanID s' \<and> st_PlanID y' = st_PlanID s' \<and> st_Status y' = DeliveryPlanStepCompleted"
    by (simp add: row_before_def content_def closed_status_def)
qed

lemma row_write_inv:
  assumes i: "lease_inv db" and w: "row_write db s s' evs db'" and b: "row_before s s'"
    and d: "st_Status s' \<notin> {DeliveryPlanStepPlanned, DeliveryPlanStepReady} \<Longrightarrow> dependencies_completed db s"
  shows "lease_inv db'"
  unfolding lease_inv_def
proof (intro ballI impI)
  fix x' assume x': "x' \<in> set (pt_steps db')" "st_Status x' \<notin> {DeliveryPlanStepPlanned, DeliveryPlanStepReady}"
  note tb = row_write_before [OF w b]
  from x'(1) w obtain x where x: "x \<in> set (pt_steps db)" "x' = (if st_ID x = st_ID s then s' else x)"
    by (auto simp: row_write_def)
  show "dependencies_completed db' x'"
  proof (cases "st_ID x = st_ID s")
    case True
    with row_write_unique [OF w x(1)] x x' d b show ?thesis
      using dependencies_completed_before [OF tb, of s' s] by (simp add: row_before_def)
  next
    case False
    with x x' i show ?thesis
      using dependencies_completed_before [OF tb, of x x] by (simp add: lease_inv_def)
  qed
qed

lemma lease_step_inv: "lease_step db db' \<Longrightarrow> lease_inv db \<Longrightarrow> lease_inv db'"
proof (induction rule: lease_step.induct)
  case (claim env db input target res db')
  from claim(1) show ?case
  proof (cases rule: claim_effect)
    case (fresh plan task identity ttl now s evs)
    from fresh(2) have "dependencies_completed db s" by (simp add: claimable_def)
    then show ?thesis using row_write_inv [OF claim(2) fresh(11) claimed_before [OF fresh(2,4)]] by blast
  qed (use claim(2) in simp_all)
next
  case (renew env db input db')
  from renew(1) show ?case
  proof (cases rule: renew_effect)
    case (1 identity ttl task s now t evs)
    note f = loadFencedStep_Inr [OF 1(2)]
    have "dependencies_completed db s" using renew(2) f(1,11) by (auto simp: lease_inv_def step_status_names)
    moreover have "row_before s (s\<lparr>st_LeaseExpiresAt := Some (bounded_expiry task now ttl), st_UpdatedAt := now\<rparr>)"
      using 1(3,4) by (simp add: row_before_def content_def holder_def expiry_before_def)
    ultimately show ?thesis using row_write_inv [OF renew(2) 1(5)] by blast
  qed
next
  case (transition env db input db')
  from transition(1) show ?case
  proof (cases rule: transition_effect)
    case idem
    with transition(2) show ?thesis by simp
  next
    case (moved identity nextStatus task s now s' evs)
    have "st_Status s \<notin> {DeliveryPlanStepPlanned, DeliveryPlanStepReady}"
      using moved(4) open_not_running by auto
    then have "dependencies_completed db s"
      using transition(2) loadFencedStep_Inr(1) [OF moved(2)] by (auto simp: lease_inv_def)
    moreover have "row_before s s'"
      using moved(4,6) by (auto simp: row_before_def content_def holder_def expiry_before_def dest: closed_not_running)
    ultimately show ?thesis using row_write_inv [OF transition(2) moved(7)] by blast
  qed
next
  case (other db tasks plans)
  then show ?case by (simp add: lease_inv_def dependencies_completed_def)
qed

interpretation lease: forward_system lease_step lease_inv tables_before
  by unfold_locales (auto intro: lease_step_inv lease_step_before tables_before_trans)

subsection \<open>Properties\<close>

text \<open>
  C1. Steps run in dependency order. From tables whose steps are all planned or ready, after any
  sequence of claims, renewals and transitions by any number of workers, a step that is running,
  completed, blocked, failed or skipped has every step it depends on completed.
\<close>

theorem steps_run_in_dependency_order:
  assumes run: "lease_step\<^sup>*\<^sup>* db db'"
    and start: "\<forall>s \<in> set (pt_steps db). st_Status s \<in> {DeliveryPlanStepPlanned, DeliveryPlanStepReady}"
    and s: "s \<in> set (pt_steps db')" "st_Status s \<notin> {DeliveryPlanStepPlanned, DeliveryPlanStepReady}"
    and e: "edge \<in> set (pt_dependencies db')" "sd_StepID edge = st_ID s"
    and d: "dependency \<in> set (pt_steps db')" "st_ID dependency = sd_DependsOnStepID edge"
  shows "st_Status dependency = DeliveryPlanStepCompleted"
proof -
  have "lease_inv db" using start by (auto simp: lease_inv_def)
  from lease.fwd.inv_run [OF run this] s have "dependencies_completed db' s" by (simp add: lease_inv_def)
  with e d show ?thesis by (auto simp: dependencies_completed_def list_all_iff)
qed

text \<open>
  C21. A live lease is never stolen. Whatever another worker claims, a step whose lease has not
  expired at the time of the claim keeps its row unchanged.
\<close>

theorem claim_never_steals_live_lease:
  assumes c: "claimReadyStepInTransaction env db input target = Inr (res, db')"
    and s: "s \<in> set (pt_steps db)"
    and l: "live_at (st_LeaseExpiresAt s) (leaseValidationTime (ci_Now input) (ce_clock env 0))"
  shows "s \<in> set (pt_steps db')"
  using c
proof (cases rule: claim_effect)
  case (fresh plan task identity ttl now x evs)
  have "now = leaseValidationTime (ci_Now input) (ce_clock env 0)"
    using fresh(7) by (auto simp: loadLeasedTask_def Let_def split: option.splits if_splits)
  with l fresh(2) have "s \<noteq> x" by (auto simp: claimable_def)
  with row_write_unique [OF fresh(11) s] have "st_ID s \<noteq> st_ID x" by blast
  with s fresh(11) show ?thesis by (force simp: row_write_def)
qed (use s in simp_all)

lemma before_row:
  assumes b: "tables_before db db'" and d: "distinct (map st_ID (pt_steps db))"
    and s: "s \<in> set (pt_steps db)" and s': "s' \<in> set (pt_steps db')" "st_ID s' = st_ID s"
  shows "row_before s s'"
proof -
  have l: "list_all2 row_before (pt_steps db) (pt_steps db')" using b by (simp add: tables_before_def)
  obtain i j where i: "i < length (pt_steps db)" "pt_steps db ! i = s"
    and j: "j < length (pt_steps db')" "pt_steps db' ! j = s'" using s s' by (metis in_set_conv_nth)
  have "j < length (pt_steps db)" using l j by (simp add: list_all2_lengthD)
  moreover have r: "row_before (pt_steps db ! j) s'" using l j calculation by (metis list_all2_nthD2)
  ultimately have "st_ID (pt_steps db ! j) = st_ID s" using s'(2) by (simp add: row_before_def content_def)
  with d i \<open>j < length (pt_steps db)\<close> have "i = j" by (metis distinct_conv_nth length_map nth_map)
  with r i show ?thesis by simp
qed

lemma before_ids: "tables_before db db' \<Longrightarrow> map st_ID (pt_steps db') = map st_ID (pt_steps db)"
  unfolding tables_before_def
  by (auto simp: list_all2_conv_all_nth row_before_def content_def intro!: nth_equalityI)

lemma claim_result_row:
  assumes "claimReadyStepInTransaction env db input target = Inr (res, db')" "cr_Step res = Some s"
  shows "s \<in> set (pt_steps db')" "cr_Fence res = st_LeaseFence s" "lease_step db db'"
proof -
  show "lease_step db db'" by (rule lease_step.claim [OF assms(1)])
  from assms(1) have "s \<in> set (pt_steps db') \<and> cr_Fence res = st_LeaseFence s"
    by (cases rule: claim_effect)
      (use assms(2) in \<open>auto simp: resultFor_def unavailable_def row_write_def\<close>)
  then show "s \<in> set (pt_steps db')" "cr_Fence res = st_LeaseFence s" by simp_all
qed

text \<open>
  A call with a fence that is not the row's is refused.
\<close>

lemma stale_fence_refused:
  assumes d: "distinct (map st_ID (pt_steps db))" and s: "s \<in> set (pt_steps db)"
  shows "li_StepID i = st_ID s \<Longrightarrow> li_Fence i \<noteq> st_LeaseFence s \<Longrightarrow> \<not> isOk (RenewStepLeaseInTransaction env db i)"
    "ti_StepID j = st_ID s \<Longrightarrow> ti_Fence j \<noteq> st_LeaseFence s \<Longrightarrow> \<not> isOk (TransitionStepInTransaction env db j)"
proof -
  have f: "fence = st_LeaseFence s"
    if "loadFencedStep env db (st_ID s) identity fence task override req = Inr (x, now)" for identity fence task override req x now
    using loadFencedStep_Inr(1-3) [OF that] s d by (metis distinct_map inj_onD)
  show "li_StepID i = st_ID s \<Longrightarrow> li_Fence i \<noteq> st_LeaseFence s \<Longrightarrow> \<not> isOk (RenewStepLeaseInTransaction env db i)"
    using f by (fastforce simp: isOk_iff RenewStepLeaseInTransaction_def bindE_Inr_iff)
  show "ti_StepID j = st_ID s \<Longrightarrow> ti_Fence j \<noteq> st_LeaseFence s \<Longrightarrow> \<not> isOk (TransitionStepInTransaction env db j)"
    using f by (fastforce simp: isOk_iff TransitionStepInTransaction_def bindE_Inr_iff)
qed

lemma loadLeasedTask_Inr:
  assumes "loadLeasedTask env db identity override = Inr (task, now)"
  shows "task \<in> set (lt_tasks db)" "at_ID task = id_AutomationTaskID identity"
    "now = leaseValidationTime override (ce_clock env 0)" "live_at (at_LeaseExpiresAt task) now"
  using assms by (auto simp: loadLeasedTask_def Let_def find_Some_iff split: option.splits if_splits)

text \<open>
  C5. The fence shuts out a former holder. When two claims of one run return the same step, to different holders or to the same
  one again, either the second fence is larger, and in every later state no renewal and no transition that carries the
  first fence succeeds, whoever sends it; or the second claim wrote nothing and handed the caller the lease it already had, which is
  still live at the time of that claim, with the same fence and the same holder.
\<close>

theorem fence_shuts_out_former_holder:
  assumes keys: "distinct (map st_ID (pt_steps db0))"
    and c1: "claimReadyStepInTransaction env1 db0 input1 target1 = Inr (r1, db1)" "cr_Step r1 = Some s1"
    and run1: "lease_step\<^sup>*\<^sup>* db1 db2"
    and c2: "claimReadyStepInTransaction env2 db2 input2 target2 = Inr (r2, db3)" "cr_Step r2 = Some s2"
    and same: "st_ID s2 = st_ID s1"
    and run2: "lease_step\<^sup>*\<^sup>* db3 db4"
  shows "cr_Fence r1 < cr_Fence r2
       \<and> (\<forall>env input. li_StepID input = st_ID s1 \<longrightarrow> li_Fence input = cr_Fence r1 \<longrightarrow>
            \<not> isOk (RenewStepLeaseInTransaction env db4 input))
       \<and> (\<forall>env input. ti_StepID input = st_ID s1 \<longrightarrow> ti_Fence input = cr_Fence r1 \<longrightarrow>
            \<not> isOk (TransitionStepInTransaction env db4 input))
     \<or> db3 = db2 \<and> cr_Fence r2 = cr_Fence r1 \<and> holder s2 = holder s1
       \<and> live_at (st_LeaseExpiresAt s2) (leaseValidationTime (ci_Now input2) (ce_clock env2 0))"
proof -
  note r1 = claim_result_row [OF c1] and r2 = claim_result_row [OF c2]
  have before: "tables_before a b" if "lease_step\<^sup>*\<^sup>* a b" for a b :: "'a lease_tables_scheme"
    using that by (induction rule: rtranclp_induct) (auto intro: tables_before_trans lease_step_before)
  have b12: "tables_before db1 db2" by (rule before [OF run1])
  have b13: "tables_before db1 db3" using run1 r2(3) by (intro before) (rule rtranclp.rtrancl_into_rtrancl)
  have b34: "tables_before db3 db4" by (rule before [OF run2])
  have d1: "distinct (map st_ID (pt_steps db1))" using before_ids [OF lease_step_before [OF r1(3)]] keys by simp
  have d3: "distinct (map st_ID (pt_steps db3))" and d4: "distinct (map st_ID (pt_steps db4))"
    using before_ids [OF b13] before_ids [OF b34] d1 by simp_all
  have kept: "row_before s1 s2" by (rule before_row [OF b13 d1 r1(1) r2(1) same])
  show ?thesis
  proof (cases "st_LeaseFence s1 < st_LeaseFence s2")
    case lt: True
    obtain s4 where s4: "s4 \<in> set (pt_steps db4)" "st_ID s4 = st_ID s2"
      using before_ids [OF b34] r2(1) by (metis (no_types, lifting) image_iff list.set_map)
    have "row_before s2 s4" by (rule before_row [OF b34 d3 r2(1) s4])
    with lt have "st_LeaseFence s1 \<noteq> st_LeaseFence s4" by (auto simp: row_before_def)
    with stale_fence_refused [OF d4 s4(1)] s4(2) same r1(2) r2(2) lt show ?thesis by simp
  next
    case False
    with kept have eq: "st_LeaseFence s2 = st_LeaseFence s1" "holder s2 = holder s1" by (auto simp: row_before_def)
    from c2(1) show ?thesis
    proof (cases rule: claim_effect)
      case (own plan task identity now s)
      then have "s = s2" using c2(2) by (simp add: resultFor_def)
      with own eq r1(2) r2(2) loadLeasedTask_Inr(3) [OF own(5)] show ?thesis by (auto simp: own_live_step_def)
    next
      case none
      with c2(2) show ?thesis by (simp add: unavailable_def)
    next
      case (fresh plan task identity ttl now s evs)
      let ?s = "claimed_step task (st_LeaseFence s + 1) (bounded_expiry task now ttl) now s"
      have s2: "s2 = ?s" using fresh(10) c2(2) by (simp add: resultFor_def)
      then have "row_before s1 s" using same by (intro before_row [OF b12 d1 r1(1) fresh(1)]) (simp add: claimed_step_def)
      with s2 eq(1) show ?thesis by (auto simp: row_before_def claimed_step_def)
    qed
  qed
qed

text \<open>
  Every lease a claim newly takes is bounded (a claim that writes nothing returns the caller's
  own live lease). It ends after the time of the claim, at most fifteen minutes after it and not
  after the lease of the automation task that claims it; its fence is positive and still fits a
  signed 64-bit integer.
\<close>

theorem claim_lease_bounded:
  assumes c: "claimReadyStepInTransaction env db input target = Inr (res, db')" "cr_Available res"
    and fences: "\<forall>s \<in> set (pt_steps db). st_LeaseFence s \<le> MaxInt64"
  defines "now \<equiv> leaseValidationTime (ci_Now input) (ce_clock env 0)"
  shows "db' = db
    \<or> (\<exists>expiry task t. cr_LeaseExpiresAt res = Some expiry \<and> now < expiry \<and> expiry \<le> now + 15 * minute
         \<and> task \<in> set (lt_tasks db) \<and> at_LeaseExpiresAt task = Some t \<and> expiry \<le> t
         \<and> 0 < cr_Fence res \<and> cr_Fence res \<le> MaxInt64)"
  using c(1)
proof (cases rule: claim_effect)
  case (fresh plan task identity ttl n s evs)
  note t = loadLeasedTask_Inr [OF fresh(7)]
  have n: "n = now" using t(3) by (simp add: now_def)
  from t(4) obtain x where x: "at_LeaseExpiresAt task = Some x" by (cases "at_LeaseExpiresAt task") auto
  have "st_LeaseFence s < MaxInt64" using fences fresh(1,5) by (force simp: less_le)
  with x t(1) fresh(4,6,9,10) bounded_expiry_le(1) [of task now ttl] bounded_expiry_le(2) [OF x, of now ttl] show ?thesis
    unfolding n by (fastforce simp: resultFor_def MaxStepLeaseTTL_def)
qed simp_all

subsection \<open>The audit trail\<close>

definition step_log :: "uuid \<Rightarrow> step_event list \<Rightarrow> step_event list" where
  "step_log i evs = filter (\<lambda>e. ev_StepID e = i) evs"

text \<open>The events added from one state to a later one lead each step from its old to its new status.\<close>

definition audited :: "'a lease_tables_scheme \<Rightarrow> 'a lease_tables_scheme \<Rightarrow> bool" where
  "audited db db' \<longleftrightarrow>
     (distinct (map st_ID (pt_steps db)) \<longrightarrow> distinct (map st_ID (pt_steps db'))
       \<and> (\<exists>evs. lt_events db' = lt_events db @ evs
          \<and> list_all2 (\<lambda>s s'. st_ID s' = st_ID s
               \<and> replay (st_Status s) (step_log (st_ID s) evs) = Some (st_Status s'))
             (pt_steps db) (pt_steps db')))"

lemma audited_refl [simp]: "audited db db"
  by (simp add: audited_def step_log_def list_all2_refl)

lemma audited_trans: "audited a b \<Longrightarrow> audited b c \<Longrightarrow> audited a c"
proof -
  assume ab: "audited a b" and bc: "audited b c"
  show "audited a c"
    unfolding audited_def
  proof (intro impI conjI)
    assume d: "distinct (map st_ID (pt_steps a))"
    with ab obtain e1 where d1: "distinct (map st_ID (pt_steps b))" and e1: "lt_events b = lt_events a @ e1"
      and l1: "list_all2 (\<lambda>s s'. st_ID s' = st_ID s \<and> replay (st_Status s) (step_log (st_ID s) e1) = Some (st_Status s'))
             (pt_steps a) (pt_steps b)" by (auto simp: audited_def)
    from d1 bc obtain e2 where d2: "distinct (map st_ID (pt_steps c))" and e2: "lt_events c = lt_events b @ e2"
      and l2: "list_all2 (\<lambda>s s'. st_ID s' = st_ID s \<and> replay (st_Status s) (step_log (st_ID s) e2) = Some (st_Status s'))
             (pt_steps b) (pt_steps c)" by (auto simp: audited_def)
    show "distinct (map st_ID (pt_steps c))" by (rule d2)
    have "list_all2 (\<lambda>s s'. st_ID s' = st_ID s \<and> replay (st_Status s) (step_log (st_ID s) (e1 @ e2)) = Some (st_Status s'))
             (pt_steps a) (pt_steps c)"
      by (rule list_all2_trans [OF _ l1 l2]) (auto simp: step_log_def replay_append)
    with e1 e2 show "\<exists>evs. lt_events c = lt_events a @ evs \<and> list_all2 (\<lambda>s s'. st_ID s' = st_ID s
        \<and> replay (st_Status s) (step_log (st_ID s) evs) = Some (st_Status s')) (pt_steps a) (pt_steps c)" by auto
  qed
qed

lemma row_write_audited:
  assumes w: "row_write db s s' evs db'" and i: "st_ID s' = st_ID s" and l: "logs s s' evs"
  shows "audited db db'"
proof -
  have "st_ID (if st_ID x = st_ID s then s' else x) = st_ID x
      \<and> replay (st_Status x) (step_log (st_ID x) evs) = Some (st_Status (if st_ID x = st_ID s then s' else x))"
    if x: "x \<in> set (pt_steps db)" for x
  proof (cases "st_ID x = st_ID s")
    case True
    with l row_write_unique [OF w x] i show ?thesis by (simp add: logs_def step_log_def)
  next
    case False
    with l have "step_log (st_ID x) evs = []" by (auto simp: logs_def step_log_def filter_empty_conv)
    with False show ?thesis by simp
  qed
  then have "list_all2 (\<lambda>x x'. st_ID x' = st_ID x \<and> replay (st_Status x) (step_log (st_ID x) evs) = Some (st_Status x'))
      (pt_steps db) (pt_steps db')"
    using w by (auto simp: row_write_def intro!: list_all2_map_self)
  moreover have "map st_ID (pt_steps db') = map st_ID (pt_steps db)" using w i by (simp add: row_write_def)
  moreover have "lt_events db' = lt_events db @ evs" using w by (simp add: row_write_def)
  ultimately show ?thesis unfolding audited_def by auto
qed

lemma lease_step_audited: "lease_step db db' \<Longrightarrow> audited db db'"
proof (induction rule: lease_step.induct)
  case (claim env db input target res db')
  then show ?case by (cases rule: claim_effect) (auto intro: row_write_audited)
next
  case (renew env db input db')
  then show ?case
  proof (cases rule: renew_effect)
    case (1 identity ttl task s now t evs)
    show ?thesis by (rule row_write_audited [OF 1(5) _ 1(6)]) simp
  qed
next
  case (transition env db input db')
  then show ?case by (cases rule: transition_effect) (auto intro: row_write_audited)
qed (simp add: audited_def step_log_def list_all2_refl)

interpretation audit: forward_system lease_step "\<lambda>_. True" audited
  by unfold_locales (auto intro: audited_trans lease_step_audited)

text \<open>
  The audit trail is complete. After any run, the events recorded for a step lead, each from
  the status the previous one reached, from the step's status before the run to its status after
  it: no status changes without its event and no event records a change that did not happen.
\<close>

theorem audit_trail_replays_status:
  assumes run: "lease_step\<^sup>*\<^sup>* db db'" and keys: "distinct (map st_ID (pt_steps db))"
    and s: "s \<in> set (pt_steps db)" "s' \<in> set (pt_steps db')" "st_ID s' = st_ID s"
  shows "replay (st_Status s) (step_log (st_ID s) (drop (length (lt_events db)) (lt_events db'))) = Some (st_Status s')"
proof -
  from audit.before_run [OF run] keys obtain evs where d: "distinct (map st_ID (pt_steps db'))"
    and e: "lt_events db' = lt_events db @ evs"
    and l: "list_all2 (\<lambda>s s'. st_ID s' = st_ID s \<and> replay (st_Status s) (step_log (st_ID s) evs) = Some (st_Status s'))
       (pt_steps db) (pt_steps db')" by (auto simp: audited_def)
  obtain i where i: "i < length (pt_steps db)" "pt_steps db ! i = s" using s(1) by (metis in_set_conv_nth)
  have li: "i < length (pt_steps db')" using l i by (simp add: list_all2_lengthD)
  from list_all2_nthD [OF l i(1)] i have r: "st_ID (pt_steps db' ! i) = st_ID s"
    "replay (st_Status s) (step_log (st_ID s) evs) = Some (st_Status (pt_steps db' ! i))" by simp_all
  have "pt_steps db' ! i = s'" using d s(2,3) r(1) li by (metis distinct_map inj_onD nth_mem)
  with r e show ?thesis by simp
qed

subsection \<open>A run of two workers\<close>

definition example_row :: "uuid \<Rightarrow> string \<Rightarrow> int \<Rightarrow> plan_step" where
  "example_row i key order =
     \<lparr>st_ID = i, st_PlanID = 50, st_StepKey = key, st_IdempotencyKey = key, st_Role = ''implementation'',
      st_DisplayOrder = order, st_Title = key, st_Objective = [], st_AcceptanceCriteriaJSON = ''[]'',
      st_EvidenceRequirementsJSON = ''[]'', st_Status = DeliveryPlanStepPlanned, st_AgentKey = [],
      st_WorkerID = [], st_MachineID = [], st_AutomationTaskID = None, st_AutomationExecutionID = None,
      st_RunID = [], st_LeaseFence = 0, st_LeaseExpiresAt = None, st_CreatedBy = ''pm'', st_StartedAt = None,
      st_CompletedAt = None, st_CreatedAt = 1, st_UpdatedAt = 1\<rparr>"

definition example_task :: "uuid \<Rightarrow> string \<Rightarrow> automation_task" where
  "example_task i worker =
     \<lparr>at_ID = i, at_DeliveryWorkItemID = Some 60, at_WorkerID = worker, at_AgentKey = ''coder'', at_MachineID = [],
      at_Status = ''running'', at_RunID = ''r'', at_LeaseExpiresAt = Some (1000 * minute)\<rparr>"

definition example_db :: lease_tables where
  "example_db =
     \<lparr>pt_plans = [\<lparr>dp_ID = 50, dp_WorkItemID = 60, dp_Version = 1, dp_Status = ''approved'', dp_ApprovedGateID = Some 70\<rparr>],
      pt_steps = [example_row 1 ''api'' 1, example_row 2 ''web'' 2],
      pt_dependencies = [\<lparr>sd_ID = 90, sd_PlanID = 50, sd_StepID = 2, sd_DependsOnStepID = 1, sd_CreatedAt = 1\<rparr>],
      lt_tasks = [example_task 81 ''v'', example_task 82 ''w''], lt_events = []\<rparr>"

text \<open>Identities are one letter: \<open>uuid.FromString\<close> and \<open>String\<close> exchange the letter and its code.\<close>

definition example_env :: "gotime \<Rightarrow> call_env" where
  "example_env now =
     \<lparr>ce_locked = (\<lambda>_. False), ce_clock = (\<lambda>_. now), ce_newV4 = of_nat, ce_instance = None,
      ce_fromString = (\<lambda>s. case s of [] \<Rightarrow> None | c # _ \<Rightarrow> Some (of_nat (of_char c))),
      ce_string = (\<lambda>u. [char_of (unat u)])\<rparr>"

definition example_claim :: "uuid \<Rightarrow> string \<Rightarrow> claim_input" where
  "example_claim taskID worker =
     \<lparr>ci_PlanID = 50, ci_AutomationTaskID = taskID, ci_RunID = ''r'', ci_WorkerID = worker, ci_AgentKey = ''coder'',
      ci_MachineID = [], ci_LeaseTTL = minute, ci_Now = 0\<rparr>"

definition example_done :: "uuid \<Rightarrow> string \<Rightarrow> int \<Rightarrow> transition_input" where
  "example_done taskID worker fence =
     \<lparr>ti_StepID = 1, ti_AutomationTaskID = taskID, ti_RunID = ''r'', ti_WorkerID = worker, ti_AgentKey = ''coder'',
      ti_MachineID = [], ti_Fence = fence, ti_Status = ''completed'', ti_Now = 0\<rparr>"

text \<open>Worker v claims at minute 1, its lease expires, worker w reclaims at minute 5 and completes.\<close>

definition run_claim1 :: "lease_error + claim_result \<times> lease_tables" where
  "run_claim1 = claimReadyStepInTransaction (example_env minute) example_db (example_claim 81 ''v'') None"

definition run_db1 :: lease_tables where "run_db1 = snd (projr run_claim1)"

definition run_claim2 :: "lease_error + claim_result \<times> lease_tables" where
  "run_claim2 = claimReadyStepInTransaction (example_env (5 * minute)) run_db1 (example_claim 82 ''w'') None"

definition run_db2 :: lease_tables where "run_db2 = snd (projr run_claim2)"

definition run_db3 :: lease_tables where
  "run_db3 = projr (TransitionStepInTransaction (example_env (5 * minute)) run_db2 (example_done 82 ''w'' 2))"

definition run_claim4 :: "lease_error + claim_result \<times> lease_tables" where
  "run_claim4 = claimReadyStepInTransaction (example_env (6 * minute)) run_db3 (example_claim 82 ''w'') None"

definition run_db4 :: lease_tables where "run_db4 = snd (projr run_claim4)"

lemma projr_Inr: "isOk r \<Longrightarrow> r = Inr (projr r)"
  by (auto simp: isOk_iff)

lemma run_outcomes:
  "isOk run_claim1" "isOk run_claim2" "isOk run_claim4"
  "isOk (TransitionStepInTransaction (example_env (5 * minute)) run_db2 (example_done 82 ''w'' 2))"
  by code_simp+

lemma run_calls:
  "claimReadyStepInTransaction (example_env minute) example_db (example_claim 81 ''v'') None = Inr (fst (projr run_claim1), run_db1)"
  "claimReadyStepInTransaction (example_env (5 * minute)) run_db1 (example_claim 82 ''w'') None = Inr (fst (projr run_claim2), run_db2)"
  "TransitionStepInTransaction (example_env (5 * minute)) run_db2 (example_done 82 ''w'' 2) = Inr run_db3"
  "claimReadyStepInTransaction (example_env (6 * minute)) run_db3 (example_claim 82 ''w'') None = Inr (fst (projr run_claim4), run_db4)"
  using projr_Inr [OF run_outcomes(1)] projr_Inr [OF run_outcomes(2)] projr_Inr [OF run_outcomes(3)] projr_Inr [OF run_outcomes(4)]
  by (simp_all add: run_claim1_def run_claim2_def run_claim4_def run_db1_def run_db2_def run_db3_def run_db4_def)

lemma run_steps:
  "lease_step\<^sup>*\<^sup>* run_db2 run_db3" "lease_step\<^sup>*\<^sup>* example_db run_db3" "lease_step\<^sup>*\<^sup>* example_db run_db4"
proof -
  note c = lease_step.claim [OF run_calls(1)] lease_step.claim [OF run_calls(2)]
    lease_step.transition [OF run_calls(3)] lease_step.claim [OF run_calls(4)]
  show "lease_step\<^sup>*\<^sup>* run_db2 run_db3" using c(3) by blast
  have "lease_step\<^sup>*\<^sup>* example_db run_db1" using c(1) by blast
  then have "lease_step\<^sup>*\<^sup>* example_db run_db2" using c(2) by (rule rtranclp.rtrancl_into_rtrancl)
  then show r3: "lease_step\<^sup>*\<^sup>* example_db run_db3" using c(3) by (rule rtranclp.rtrancl_into_rtrancl)
  show "lease_step\<^sup>*\<^sup>* example_db run_db4" using r3 c(4) by (rule rtranclp.rtrancl_into_rtrancl)
qed

lemma run_start:
  "list_all (\<lambda>s. st_Status s \<in> {DeliveryPlanStepPlanned, DeliveryPlanStepReady} \<and> st_LeaseFence s \<le> MaxInt64) (pt_steps example_db)"
  "distinct (map st_ID (pt_steps example_db))"
  by code_simp+

lemma run_end:
  "(map (\<lambda>s. (st_ID s, st_Status s)) (pt_steps run_db4), map (\<lambda>e. (sd_StepID e, sd_DependsOnStepID e)) (pt_dependencies run_db4))
     = ([(1, DeliveryPlanStepCompleted), (2, DeliveryPlanStepRunning)], [(2, 1)])"
  by code_simp

theorem steps_run_in_dependency_order_witness:
  "\<exists>s d. s \<in> set (pt_steps run_db4) \<and> st_ID s = 2 \<and> st_Status s = DeliveryPlanStepRunning
     \<and> d \<in> set (pt_steps run_db4) \<and> st_ID d = 1 \<and> st_Status d = DeliveryPlanStepCompleted"
proof -
  obtain d s e where r: "pt_steps run_db4 = [d, s]" "pt_dependencies run_db4 = [e]"
    "st_ID d = 1" "st_ID s = 2" "st_Status s = DeliveryPlanStepRunning" "sd_StepID e = 2" "sd_DependsOnStepID e = 1"
    using run_end by (auto simp: map_eq_Cons_conv)
  have start: "\<forall>s \<in> set (pt_steps example_db). st_Status s \<in> {DeliveryPlanStepPlanned, DeliveryPlanStepReady}"
    using run_start(1) by (auto simp: list_all_iff)
  have "st_Status s \<notin> {DeliveryPlanStepPlanned, DeliveryPlanStepReady}" unfolding r(5) by code_simp
  then have "st_Status d = DeliveryPlanStepCompleted"
    using steps_run_in_dependency_order [OF run_steps(3) start, of s e d] r by simp
  with r show ?thesis by auto
qed

theorem claim_never_steals_live_lease_witness:
  "\<exists>db'. claimReadyStepInTransaction (example_env (minute + second)) run_db1 (example_claim 82 ''w'') None = Inr (unavailable, db')
     \<and> pt_steps run_db1 ! 0 \<in> set (pt_steps db')"
proof -
  let ?c = "claimReadyStepInTransaction (example_env (minute + second)) run_db1 (example_claim 82 ''w'') None"
  have "fst (projr ?c) = unavailable" "isOk ?c" by code_simp+
  then obtain db' where c: "?c = Inr (unavailable, db')" by (metis prod.collapse projr_Inr)
  have "live_at (st_LeaseExpiresAt (pt_steps run_db1 ! 0))
      (leaseValidationTime (ci_Now (example_claim 82 ''w'')) (ce_clock (example_env (minute + second)) 0))" by code_simp
  moreover have "0 < length (pt_steps run_db1)" by code_simp
  ultimately have "pt_steps run_db1 ! 0 \<in> set (pt_steps db')"
    using claim_never_steals_live_lease [OF c] by simp
  with c show ?thesis by blast
qed

theorem fence_shuts_out_former_holder_witness:
  "cr_Fence (fst (projr run_claim1)) < cr_Fence (fst (projr run_claim2))
     \<and> \<not> isOk (TransitionStepInTransaction (example_env (5 * minute)) run_db3 (example_done 81 ''v'' 1))"
proof -
  define s1 where "s1 = the (cr_Step (fst (projr run_claim1)))"
  define s2 where "s2 = the (cr_Step (fst (projr run_claim2)))"
  have f: "cr_Step (fst (projr run_claim1)) \<noteq> None" "cr_Step (fst (projr run_claim2)) \<noteq> None"
    "cr_Fence (fst (projr run_claim1)) = 1" "cr_Fence (fst (projr run_claim2)) \<noteq> 1" by code_simp+
  have h: "st_ID s1 = 1" "st_ID s2 = 1" unfolding s1_def s2_def by code_simp+
  have j: "ti_StepID (example_done 81 ''v'' 1) = 1" "ti_Fence (example_done 81 ''v'' 1) = 1" by code_simp+
  from f(1,2) have s: "cr_Step (fst (projr run_claim1)) = Some s1" "cr_Step (fst (projr run_claim2)) = Some s2"
    by (simp_all add: s1_def s2_def)
  from fence_shuts_out_former_holder [OF run_start(2) run_calls(1) s(1) rtranclp.rtrancl_refl run_calls(2) s(2) _ run_steps(1)]
    f(3,4) h(1,2) j show ?thesis by simp
qed

theorem claim_lease_bounded_witness:
  "run_db1 \<noteq> example_db \<and> (\<exists>expiry. cr_LeaseExpiresAt (fst (projr run_claim1)) = Some expiry \<and> expiry \<le> minute + 15 * minute)"
proof -
  have f: "cr_Available (fst (projr run_claim1))" "map st_LeaseFence (pt_steps run_db1) \<noteq> map st_LeaseFence (pt_steps example_db)"
    "leaseValidationTime (ci_Now (example_claim 81 ''v'')) (ce_clock (example_env minute) 0) = minute" by code_simp+
  from f(2) have "run_db1 \<noteq> example_db" by auto
  with claim_lease_bounded [OF run_calls(1) f(1)] run_start(1) show ?thesis
    unfolding f(3) list_all_iff by auto
qed

theorem audit_trail_replays_status_witness:
  "replay (st_Status (pt_steps example_db ! 0)) (step_log 1 (lt_events run_db3)) = Some DeliveryPlanStepCompleted"
proof -
  have f: "st_ID (pt_steps example_db ! 0) = 1" "st_ID (pt_steps run_db3 ! 0) = 1" "lt_events example_db = []"
    "st_Status (pt_steps run_db3 ! 0) = DeliveryPlanStepCompleted" "length (pt_steps example_db) = 2" "length (pt_steps run_db3) = 2"
    by code_simp+
  from audit_trail_replays_status [OF run_steps(2) run_start(2), of "pt_steps example_db ! 0" "pt_steps run_db3 ! 0"] f
  show ?thesis by simp
qed

end
