(* ===== verification/Orchestration.thy ===== *)
theory Orchestration
  imports PlanInput DeliveryWorkflow
begin

text \<open>
  Fan-out of an approved plan over agent machines: services/deliveryplansteps/orchestration.go,
  services/deliveryplansteps/fan_in.go and internal/agentprotocol. An execution freezes the plan,
  assignments reserve machine slots for ready steps, and a worker may take over an assignment
  when every lease and heartbeat of the former one has expired. Tables and surroundings extend
  those of the lease protocol; decoding of the JSON columns of a heartbeat is part of \<open>orch_env\<close>.
\<close>

subsection \<open>Rows and surroundings\<close>

record agent_heartbeat =
  hb_WorkerID :: string
  hb_AgentKey :: string
  hb_MachineID :: string
  hb_AgentInstanceID :: "uuid option"
  hb_Concurrency :: int
  hb_Draining :: bool
  hb_CapabilitiesJSON :: string
  hb_ProtocolsJSON :: string
  hb_WorkspaceReadiness :: string
  hb_LastSeenAt :: gotime

record agent_profile =
  ap_AgentKey :: string
  ap_OperationsJSON :: string
  ap_Active :: bool

record context_snapshot =
  sn_WorkItemID :: uuid
  sn_Kind :: string
  sn_Reference :: string

record workspace_readiness =
  wr_ID :: string
  wr_Ready :: bool
  wr_SandboxReady :: bool
  wr_IsolationMode :: string

record delivery_project =
  pj_ID :: uuid
  pj_ClientID :: uuid

record orch_tables = lease_tables +
  ot_gates :: "delivery_gate list"
  ot_workItemProjects :: "(uuid \<times> uuid) list"
  ot_projects :: "delivery_project list"
  ot_snapshots :: "context_snapshot list"
  ot_heartbeats :: "agent_heartbeat list"
  ot_profiles :: "agent_profile list"
  ot_executions :: "plan_execution list"
  ot_assignments :: "step_assignment list"

record orch_env = call_env +
  oe_decodeRequirements :: "string \<Rightarrow> evidence_requirement list option"
  oe_decodeStrings :: "string \<Rightarrow> string list option"
  oe_decodeReadiness :: "string \<Rightarrow> workspace_readiness list option"
  oe_iter :: "by_key \<Rightarrow> by_key"

datatype orch_error =
    ErrPlanExecutionConflict
  | ErrPlanExecutionParentMismatch
  | ErrPlanExecutionApproval
  | ErrPlanExecutionCapacity
  | ErrNoEligibleAgentMachine string
  | OrchInputInvalid string
  | OrchRecordNotFound
  | OrchHash lease_error

definition normalizeNow :: "gotime \<Rightarrow> gotime \<Rightarrow> gotime" where
  "normalizeNow now clock = (if isZero now then clock else now)"

definition assignmentHeartbeatMaxAge :: duration where "assignmentHeartbeatMaxAge = 90 * second"

definition frozenWorkspaceIDPattern :: "string \<Rightarrow> bool" where
  "frozenWorkspaceIDPattern =
     head_tail_match alnum_char (\<lambda>c. alnum_char c \<or> c \<in> set ''_.-'') 95"

definition activePlanStepAssignmentStatuses :: "string list" where
  "activePlanStepAssignmentStatuses =
     [DeliveryPlanStepAssignmentPending, DeliveryPlanStepAssignmentQueued,
      DeliveryPlanStepAssignmentDispatched, DeliveryPlanStepAssignmentRunning]"

definition isActiveAssignmentStatus :: "string \<Rightarrow> bool" where
  "isActiveAssignmentStatus status = (status \<in> set activePlanStepAssignmentStatuses)"

subsection \<open>Protocols of an agent\<close>

definition ProtocolDeliveryPlanStepsV1 :: string where
  "ProtocolDeliveryPlanStepsV1 = ''delivery.plan_steps.v1''"

definition knownProtocols :: "string list" where
  "knownProtocols = [ProtocolDeliveryPlanStepsV1]"

fun scanProtocols :: "string \<Rightarrow> string list \<Rightarrow> bool \<Rightarrow> string list \<Rightarrow> bool" where
  "scanProtocols required seen supported [] = supported"
| "scanProtocols required seen supported (p # ps) =
     (let protocol = TrimSpace p
      in if protocol \<notin> set knownProtocols \<or> protocol = [] then False
         else if protocol \<in> set seen then False
         else scanProtocols required (seen @ [protocol]) (supported \<or> protocol = required) ps)"

definition Supports :: "string list \<Rightarrow> string \<Rightarrow> bool" where
  "Supports protocols required =
     (if protocols = [] \<or> TrimSpace required \<noteq> required then False
      else if required \<notin> set knownProtocols then False
      else scanProtocols required [] False protocols)"

definition supportsDeliveryPlanStepsProtocol :: "string list \<Rightarrow> bool" where
  "supportsDeliveryPlanStepsProtocol protocols = Supports protocols ProtocolDeliveryPlanStepsV1"

definition containsAssignmentOperation :: "string list \<Rightarrow> bool" where
  "containsAssignmentOperation operations =
     list_ex (\<lambda>operation. TrimSpace operation = ''delivery.implementation'') operations"

definition planStepAgentKeyValid :: "string \<Rightarrow> bool" where
  "planStepAgentKeyValid agentKey = (agentKey = TrimSpace agentKey \<and> stepAgentKeyPattern agentKey)"

subsection \<open>Eligibility of a heartbeat\<close>

text \<open>A heartbeat row joined with the operations of its active profile.\<close>

type_synonym heartbeat_row = "agent_heartbeat \<times> string"

definition heartbeat_rows :: "'a orch_tables_scheme \<Rightarrow> (agent_heartbeat \<Rightarrow> bool) \<Rightarrow> heartbeat_row list" where
  "heartbeat_rows db P =
     sort_key (\<lambda>(h, _). (hb_MachineID h, hb_AgentKey h, hb_WorkerID h))
       (concat (map (\<lambda>h. map (\<lambda>p. (h, ap_OperationsJSON p))
            (filter (\<lambda>p. ap_AgentKey p = hb_AgentKey h \<and> ap_Active p) (ot_profiles db)))
          (filter P (ot_heartbeats db))))"

fun readyByID :: "(string \<times> bool) list \<Rightarrow> workspace_readiness list \<Rightarrow> (string \<times> bool) list option" where
  "readyByID seen [] = Some seen"
| "readyByID seen (w # ws) =
     (if \<not> frozenWorkspaceIDPattern (wr_ID w) then None
      else if wr_ID w \<in> fst ` set seen then None
      else readyByID (seen @ [(wr_ID w, wr_Ready w \<and> wr_SandboxReady w
             \<and> EqualFold (TrimSpace (wr_IsolationMode w)) ''docker_container'')]) ws)"

definition workspaces_ready :: "orch_env \<Rightarrow> string \<Rightarrow> string list \<Rightarrow> bool" where
  "workspaces_ready env raw workspaceIDs =
     (case oe_decodeReadiness env raw of
        None \<Rightarrow> False
      | Some readiness \<Rightarrow>
          (case readyByID [] readiness of
             None \<Rightarrow> False
           | Some ready \<Rightarrow> list_all (\<lambda>i. map_of ready i = Some True) workspaceIDs))"

definition heartbeat_contract :: "orch_env \<Rightarrow> heartbeat_row \<Rightarrow> bool" where
  "heartbeat_contract env row =
     (case (oe_decodeStrings env (snd row), oe_decodeStrings env (hb_CapabilitiesJSON (fst row)),
            oe_decodeStrings env (hb_ProtocolsJSON (fst row))) of
        (Some operations, Some capabilities, Some protocols) \<Rightarrow>
          containsAssignmentOperation operations
          \<and> (capabilities = [] \<or> containsAssignmentOperation capabilities)
          \<and> supportsDeliveryPlanStepsProtocol protocols
      | _ \<Rightarrow> False)"

definition assignmentHeartbeatEligible ::
  "orch_env \<Rightarrow> heartbeat_row \<Rightarrow> string list \<Rightarrow> string \<Rightarrow> gotime \<Rightarrow> bool" where
  "assignmentHeartbeatEligible env row workspaceIDs requiredAgentKey now =
     (let h = fst row
      in if hb_WorkerID h = [] \<or> hb_AgentKey h = [] \<or> hb_Concurrency h < 1 \<or> hb_Concurrency h > 8
           \<or> hb_Draining h \<or> hb_LastSeenAt h < now - assignmentHeartbeatMaxAge
           \<or> now + 5 * minute < hb_LastSeenAt h
         then False
         else if ce_fromString env (hb_WorkerID h) = None then False
         else if ce_fromString env (TrimSpace (hb_MachineID h)) = None
           \<or> ce_fromString env (TrimSpace (hb_MachineID h)) = Some uuid_Nil then False
         else if \<not> planStepAgentKeyValid (hb_AgentKey h) then False
         else if requiredAgentKey \<noteq> [] \<and> hb_AgentKey h \<noteq> requiredAgentKey then False
         else heartbeat_contract env row \<and> workspaces_ready env (hb_WorkspaceReadiness h) workspaceIDs)"

definition frozenWorkspace :: "context_snapshot \<Rightarrow> bool" where
  "frozenWorkspace s =
     (EqualFold (TrimSpace (sn_Kind s)) ''repository'' \<and> HasPrefix (TrimSpace (sn_Reference s)) ''workspace://'')"

definition frozenLocalWorkspaceIDs :: "'a orch_tables_scheme \<Rightarrow> uuid \<Rightarrow> orch_error + string list" where
  "frozenLocalWorkspaceIDs db workItemID =
     (let ids = map (\<lambda>s. TrimPrefix (TrimSpace (sn_Reference s)) ''workspace://'')
            (filter (\<lambda>s. sn_WorkItemID s = workItemID \<and> frozenWorkspace s) (ot_snapshots db))
      in if list_ex (\<lambda>i. \<not> frozenWorkspaceIDPattern i) ids
         then Inl (ErrNoEligibleAgentMachine ''a frozen local workspace reference is not canonical'')
         else Inr (sort (remdups ids)))"

definition ValidateStepProtocolWorker ::
  "orch_env \<Rightarrow> 'a orch_tables_scheme \<Rightarrow> string \<Rightarrow> string \<Rightarrow> string \<Rightarrow> uuid \<Rightarrow> gotime \<Rightarrow> orch_error + unit" where
  "ValidateStepProtocolWorker env db workerID agentKey machineID instanceID now0 =
     (if TrimSpace workerID = [] \<or> TrimSpace agentKey = [] \<or> TrimSpace machineID = [] \<or> instanceID = uuid_Nil
      then Inl (ErrNoEligibleAgentMachine ''authenticated worker identity is incomplete'')
      else let now = normalizeNow now0 (ce_clock env 0)
        in case find (\<lambda>h. hb_WorkerID h = workerID \<and> hb_AgentKey h = agentKey \<and> hb_MachineID h = machineID
                 \<and> hb_AgentInstanceID h = Some instanceID \<and> now - assignmentHeartbeatMaxAge \<le> hb_LastSeenAt h
                 \<and> hb_LastSeenAt h \<le> now + 5 * minute) (ot_heartbeats db) of
             None \<Rightarrow> Inl (ErrNoEligibleAgentMachine ''no fresh heartbeat is bound to the authenticated runtime instance'')
           | Some h \<Rightarrow>
               if hb_Draining h \<or> hb_LastSeenAt h < now - assignmentHeartbeatMaxAge
                 \<or> now + 5 * minute < hb_LastSeenAt h
               then Inl (ErrNoEligibleAgentMachine ''runtime instance is stale or draining'')
               else (case oe_decodeStrings env (hb_ProtocolsJSON h) of
                   None \<Rightarrow> Inl (ErrNoEligibleAgentMachine ''runtime instance does not advertise the required plan-step protocol'')
                 | Some protocols \<Rightarrow>
                     if supportsDeliveryPlanStepsProtocol protocols then Inr ()
                     else Inl (ErrNoEligibleAgentMachine ''runtime instance does not advertise the required plan-step protocol'')))"

subsection \<open>Allocating machine slots\<close>

record target_candidate =
  tc_Key :: "string \<times> string"
  tc_Capacity :: int
  tc_Reserved :: int

definition free_slots :: "target_candidate \<Rightarrow> int" where
  "free_slots c = tc_Capacity c - tc_Reserved c"

text \<open>Whether a profile may run a step that asks for an agent; the empty key asks for any.\<close>

definition agent_matches :: "string \<Rightarrow> target_candidate \<Rightarrow> bool" where
  "agent_matches required c = (required = [] \<or> snd (tc_Key c) = required)"

definition matching_candidates :: "string \<Rightarrow> target_candidate list \<Rightarrow> target_candidate list" where
  "matching_candidates required candidates =
     filter (\<lambda>c. agent_matches required c \<and> free_slots c > 0) candidates"

definition reserve_slot :: "string \<times> string \<Rightarrow> target_candidate list \<Rightarrow> target_candidate list" where
  "reserve_slot key candidates =
     map (\<lambda>c. if tc_Key c = key then c\<lparr>tc_Reserved := tc_Reserved c + 1\<rparr> else c) candidates"

fun allocate ::
  "target_candidate list \<Rightarrow> (string \<Rightarrow> nat) \<Rightarrow> plan_step list
     \<Rightarrow> orch_error + (uuid \<times> string \<times> string) list" where
  "allocate candidates cursors [] = Inr []"
| "allocate candidates cursors (s # ss) =
     (let required = TrimSpace (st_AgentKey s);
          matching = matching_candidates required candidates
      in if matching = []
         then Inl (ErrNoEligibleAgentMachine ''compatible local machines have insufficient free concurrency for all ready steps'')
         else let cursor = cursors required mod length matching;
                  key = tc_Key (matching ! cursor)
           in bindE (allocate (reserve_slot key candidates) (cursors(required := cursor + 1)) ss)
                (\<lambda>targets. Inr ((st_ID s, key) # targets)))"

definition allocation_order :: "(uuid \<Rightarrow> string) \<Rightarrow> plan_step list \<Rightarrow> plan_step list" where
  "allocation_order ustr steps =
     sort_key (\<lambda>s. (TrimSpace (st_AgentKey s) = [], TrimSpace (st_AgentKey s), st_DisplayOrder s, ustr (st_ID s))) steps"

definition allocateAssignmentTargets ::
  "(uuid \<Rightarrow> string) \<Rightarrow> plan_step list \<Rightarrow> target_candidate list \<Rightarrow> orch_error + (uuid \<times> string \<times> string) list" where
  "allocateAssignmentTargets ustr steps candidates =
     (if steps = [] then Inr [] else allocate candidates (\<lambda>_. 0) (allocation_order ustr steps))"

definition target_reservations :: "'a orch_tables_scheme \<Rightarrow> string \<times> string \<Rightarrow> int" where
  "target_reservations db key =
     int (length (filter (\<lambda>a. as_TargetMachineID a \<noteq> [] \<and> as_TargetAgentKey a \<noteq> []
        \<and> isActiveAssignmentStatus (as_Status a)
        \<and> (as_TargetMachineID a, as_TargetAgentKey a) = key) (ot_assignments db)))"

definition row_key :: "heartbeat_row \<Rightarrow> string \<times> string" where
  "row_key r = (hb_MachineID (fst r), hb_AgentKey (fst r))"

definition candidates_of :: "'a orch_tables_scheme \<Rightarrow> heartbeat_row list \<Rightarrow> target_candidate list" where
  "candidates_of db eligible =
     map (\<lambda>key. \<lparr>tc_Key = key,
            tc_Capacity = sum_list (map (\<lambda>r. hb_Concurrency (fst r)) (filter (\<lambda>r. row_key r = key) eligible)),
            tc_Reserved = target_reservations db key\<rparr>)
       (sort (remdups (map row_key eligible)))"

definition resolveAssignmentTargets ::
  "orch_env \<Rightarrow> 'a orch_tables_scheme \<Rightarrow> uuid \<Rightarrow> plan_step list \<Rightarrow> gotime
     \<Rightarrow> orch_error + (uuid \<times> string \<times> string) list" where
  "resolveAssignmentTargets env db workItemID steps now0 =
     (if workItemID = uuid_Nil \<or> steps = []
      then Inl (OrchInputInvalid ''work item and ready plan steps are required to select a machine target'')
      else bindE (frozenLocalWorkspaceIDs db workItemID) (\<lambda>workspaceIDs.
        if workspaceIDs = []
        then Inl (ErrNoEligibleAgentMachine ''approved work item has no frozen local workspace repository'')
        else let now = normalizeNow now0 (ce_clock env 2);
                 rows = heartbeat_rows db (\<lambda>h. now - assignmentHeartbeatMaxAge \<le> hb_LastSeenAt h
                   \<and> \<not> hb_Draining h \<and> hb_MachineID h \<noteq> []);
                 eligible = filter (\<lambda>r. assignmentHeartbeatEligible env r workspaceIDs [] now) rows
          in if eligible = []
             then Inl (ErrNoEligibleAgentMachine ''no recent, active implementation profile reports every frozen local workspace ready in Docker'')
             else allocateAssignmentTargets (ce_string env) steps (candidates_of db eligible)))"

end
