(* ===== verification/PlanExecution.thy ===== *)
theory PlanExecution
  imports Orchestration
begin

text \<open>
  The transactions of services/deliveryplansteps/orchestration.go and fan_in.go: freezing an
  execution, reserving assignments for ready steps, handing an assignment to another machine, and
  the decision on a finished fan-out. As in the lease protocol, an error rolls the transaction
  back, so the tables change only on success.
\<close>

subsection \<open>The approved snapshot\<close>

definition loadApprovedExecutionSnapshot ::
  "'a orch_tables_scheme \<Rightarrow> automation_task \<Rightarrow> uuid
     \<Rightarrow> orch_error + delivery_plan \<times> plan_step list \<times> step_dependency list" where
  "loadApprovedExecutionSnapshot db parent planID =
     (case find (\<lambda>p. dp_ID p = planID) (pt_plans db) of
        None \<Rightarrow> Inl OrchRecordNotFound
      | Some plan \<Rightarrow>
          if at_DeliveryWorkItemID parent \<noteq> Some (dp_WorkItemID plan) then Inl ErrPlanExecutionParentMismatch
          else if \<not> EqualFold (TrimSpace (dp_Status plan)) ''approved'' \<or> dp_Version plan < 1
            \<or> dp_ApprovedGateID plan = None \<or> dp_ApprovedGateID plan = Some uuid_Nil
          then Inl ErrPlanExecutionApproval
          else (case find (\<lambda>g. Some (g_ID g) = dp_ApprovedGateID plan) (ot_gates db) of
              None \<Rightarrow> Inl OrchRecordNotFound
            | Some gate \<Rightarrow>
                if g_WorkItemID gate \<noteq> dp_WorkItemID plan \<or> g_Kind gate \<noteq> GatePlan
                  \<or> g_Decision gate \<noteq> DecisionApproved
                then Inl ErrPlanExecutionApproval
                else Inr (plan,
                  sort_key (\<lambda>s. (st_DisplayOrder s, st_ID s)) (filter (\<lambda>s. st_PlanID s = dp_ID plan) (pt_steps db)),
                  sort_key (\<lambda>e. (sd_StepID e, sd_DependsOnStepID e))
                    (filter (\<lambda>e. sd_PlanID e = dp_ID plan) (pt_dependencies db)))))"

definition plan_hash ::
  "orch_env \<Rightarrow> delivery_plan \<times> plan_step list \<times> step_dependency list \<Rightarrow> orch_error + string" where
  "plan_hash env snapshot =
     (case snapshot of (plan, steps, dependencies) \<Rightarrow>
        (case ApprovedPlanContentHash (oe_decodeRequirements env) (oe_decodeStrings env) (ce_string env)
                (oe_iter env) plan steps dependencies of
           Inl e \<Rightarrow> Inl (OrchHash e)
         | Inr h \<Rightarrow> Inr h))"

definition hasLiveUnassignedPlanStepLease :: "'a orch_tables_scheme \<Rightarrow> uuid \<Rightarrow> gotime \<Rightarrow> bool" where
  "hasLiveUnassignedPlanStepLease db planID now =
     list_ex (\<lambda>s. st_PlanID s = planID \<and> st_Status s = DeliveryPlanStepRunning \<and> live_at (st_LeaseExpiresAt s) now
        \<and> \<not> list_ex (\<lambda>a. as_DeliveryPlanStepID a = st_ID s) (ot_assignments db)) (pt_steps db)"

subsection \<open>CreateExecutionInTransaction\<close>

text \<open>The row, whether it was created, and the tables.\<close>

definition CreateExecutionInTransaction ::
  "orch_env \<Rightarrow> 'a orch_tables_scheme \<Rightarrow> uuid \<Rightarrow> uuid \<Rightarrow> int \<Rightarrow> string \<Rightarrow> gotime
     \<Rightarrow> orch_error + plan_execution \<times> bool \<times> 'a orch_tables_scheme" where
  "CreateExecutionInTransaction env db parentTaskID planID maxConcurrency idempotencyKey0 now0 =
     (let idempotencyKey = TrimSpace idempotencyKey0;
          now = normalizeNow now0 (ce_clock env 0)
      in if parentTaskID = uuid_Nil \<or> planID = uuid_Nil
         then Inl (OrchInputInvalid ''parent_task_id and plan_id are required'')
         else if maxConcurrency < 1 \<or> maxConcurrency > DeliveryPlanExecutionMaxConcurrency
         then Inl (OrchInputInvalid ''max_concurrency is out of bounds'')
         else if idempotencyKey = [] \<or> length idempotencyKey > 128
         then Inl (OrchInputInvalid ''idempotency_key must contain 1 to 128 characters'')
         else case find (\<lambda>t. at_ID t = parentTaskID) (lt_tasks db) of
             None \<Rightarrow> Inl OrchRecordNotFound
           | Some parent \<Rightarrow>
               if at_DeliveryWorkItemID parent = None then Inl ErrPlanExecutionParentMismatch
               else case find (\<lambda>x. ex_AutomationTaskID x = parentTaskID) (ot_executions db) of
                   Some existing \<Rightarrow>
                     if ex_PlanID existing \<noteq> planID \<or> ex_IdempotencyKey existing \<noteq> idempotencyKey
                       \<or> ex_MaxConcurrency existing \<noteq> maxConcurrency
                     then Inl ErrPlanExecutionConflict
                     else (case find (\<lambda>p. dp_ID p = ex_PlanID existing) (pt_plans db) of
                         None \<Rightarrow> Inl OrchRecordNotFound
                       | Some plan \<Rightarrow>
                           if Some (dp_WorkItemID plan) \<noteq> at_DeliveryWorkItemID parent
                           then Inl ErrPlanExecutionParentMismatch
                           else Inr (existing, False, db))
                 | None \<Rightarrow>
                     bindE (loadApprovedExecutionSnapshot db parent planID) (\<lambda>snapshot.
                       if hasLiveUnassignedPlanStepLease db (dp_ID (fst snapshot)) (ce_clock env 1)
                       then Inl ErrPlanExecutionConflict
                       else bindE (plan_hash env snapshot) (\<lambda>hash.
                         let plan = fst snapshot;
                             execution = \<lparr>ex_ID = ce_newV4 env 0, ex_AutomationTaskID = at_ID parent,
                               ex_IdempotencyKey = idempotencyKey, ex_PlanID = dp_ID plan, ex_PlanVersion = dp_Version plan,
                               ex_ApprovedGateID = (case dp_ApprovedGateID plan of None \<Rightarrow> uuid_Nil | Some g \<Rightarrow> g),
                               ex_PlanHash = hash, ex_MaxConcurrency = maxConcurrency,
                               ex_Status = DeliveryPlanExecutionPending, ex_DispatchedAt = None, ex_StartedAt = None,
                               ex_CompletedAt = None, ex_CreatedAt = now, ex_UpdatedAt = now\<rparr>
                         in Inr (execution, True, db\<lparr>ot_executions := ot_executions db @ [execution]\<rparr>))))"

subsection \<open>ReserveReadyAssignmentsInTransaction\<close>

record organization_scope =
  sc_TaskID :: uuid
  sc_WorkItemID :: uuid
  sc_ProjectID :: uuid
  sc_ClientID :: uuid

definition loadTaskOrganizationScope :: "'a orch_tables_scheme \<Rightarrow> uuid \<Rightarrow> organization_scope option" where
  "loadTaskOrganizationScope db taskID =
     (case find (\<lambda>t. at_ID t = taskID) (lt_tasks db) of
        None \<Rightarrow> None
      | Some task \<Rightarrow>
          (case at_DeliveryWorkItemID task of
             None \<Rightarrow> None
           | Some workItemID \<Rightarrow>
               (case map_of (ot_workItemProjects db) workItemID of
                  None \<Rightarrow> None
                | Some projectID \<Rightarrow>
                    (case find (\<lambda>p. pj_ID p = projectID) (ot_projects db) of
                       None \<Rightarrow> None
                     | Some project \<Rightarrow>
                         Some \<lparr>sc_TaskID = at_ID task, sc_WorkItemID = workItemID, sc_ProjectID = projectID,
                               sc_ClientID = pj_ClientID project\<rparr>))))"

fun validateChildTaskScopes :: "'a orch_tables_scheme \<Rightarrow> organization_scope \<Rightarrow> uuid list \<Rightarrow> orch_error + unit" where
  "validateChildTaskScopes db parent [] = Inr ()"
| "validateChildTaskScopes db parent (c # cs) =
     (case loadTaskOrganizationScope db c of
        None \<Rightarrow> Inl ErrPlanExecutionParentMismatch
      | Some child \<Rightarrow>
          if sc_WorkItemID child \<noteq> sc_WorkItemID parent \<or> sc_ProjectID child \<noteq> sc_ProjectID parent
            \<or> sc_ClientID child \<noteq> sc_ClientID parent
          then Inl ErrPlanExecutionParentMismatch
          else validateChildTaskScopes db parent cs)"

fun scanStepTasks :: "uuid list \<Rightarrow> (uuid \<times> uuid) list \<Rightarrow> orch_error + unit" where
  "scanStepTasks seen [] = Inr ()"
| "scanStepTasks seen ((stepID, childTaskID) # rest) =
     (if stepID = uuid_Nil \<or> childTaskID = uuid_Nil
      then Inl (OrchInputInvalid ''child task mapping contains an empty step or task id'')
      else if childTaskID \<in> set seen
      then Inl (OrchInputInvalid ''one child automation task cannot be assigned to multiple steps'')
      else scanStepTasks (seen @ [childTaskID]) rest)"

definition normalizeStepTaskMapping ::
  "(uuid \<Rightarrow> string) \<Rightarrow> (uuid \<times> uuid) list \<Rightarrow> orch_error + uuid list" where
  "normalizeStepTaskMapping ustr mapping =
     bindE (scanStepTasks [] mapping) (\<lambda>_. Inr (sort_key ustr (map fst mapping)))"

definition childTask :: "(uuid \<times> uuid) list \<Rightarrow> uuid \<Rightarrow> uuid" where
  "childTask mapping stepID = (case map_of mapping stepID of None \<Rightarrow> uuid_Nil | Some t \<Rightarrow> t)"

text \<open>The assignments the request already has, in the order of the query.\<close>

fun existingAssignments ::
  "(uuid \<times> uuid) list \<Rightarrow> step_assignment list \<Rightarrow> orch_error + unit" where
  "existingAssignments mapping [] = Inr ()"
| "existingAssignments mapping (a # as) =
     (if childTask mapping (as_DeliveryPlanStepID a) \<noteq> as_ChildAutomationTaskID a then Inl ErrPlanExecutionConflict
      else if TrimSpace (as_TargetMachineID a) = [] \<or> TrimSpace (as_TargetAgentKey a) = []
      then Inl (ErrNoEligibleAgentMachine ''an existing plan-step assignment has no persisted machine/profile target'')
      else existingAssignments mapping as)"

definition active_count :: "'a orch_tables_scheme \<Rightarrow> uuid \<Rightarrow> int" where
  "active_count db executionID =
     int (length (filter (\<lambda>a. as_ExecutionID a = executionID \<and> isActiveAssignmentStatus (as_Status a)) (ot_assignments db)))"

definition ready_step :: "'a orch_tables_scheme \<Rightarrow> plan_execution \<Rightarrow> plan_step \<Rightarrow> bool" where
  "ready_step db execution s =
     (st_PlanID s = ex_PlanID execution \<and> st_Status s \<in> {DeliveryPlanStepPlanned, DeliveryPlanStepReady}
      \<and> dependencies_completed db s
      \<and> \<not> list_ex (\<lambda>a. as_ExecutionID a = ex_ID execution \<and> as_DeliveryPlanStepID a = st_ID s) (ot_assignments db))"

text \<open>Ordered, limited and without the rows another transaction has locked.\<close>

definition select_steps :: "orch_env \<Rightarrow> (plan_step \<Rightarrow> bool) \<Rightarrow> int \<Rightarrow> plan_step list \<Rightarrow> plan_step list" where
  "select_steps env P limit steps =
     take (nat limit) (sort_key (\<lambda>s. (st_DisplayOrder s, st_ID s))
       (filter (\<lambda>s. P s \<and> \<not> ce_locked env (st_ID s)) steps))"

definition new_assignment ::
  "plan_execution \<Rightarrow> (uuid \<times> uuid) list \<Rightarrow> (uuid \<times> string \<times> string) list \<Rightarrow> gotime \<Rightarrow> uuid \<Rightarrow> plan_step \<Rightarrow> step_assignment" where
  "new_assignment execution mapping targets now newID step =
     (let target = (case map_of (rev targets) (st_ID step) of None \<Rightarrow> ([], []) | Some t \<Rightarrow> t)
      in \<lparr>as_ID = newID, as_ExecutionID = ex_ID execution, as_DeliveryPlanStepID = st_ID step,
          as_ChildAutomationTaskID = childTask mapping (st_ID step), as_TargetMachineID = fst target,
          as_TargetAgentKey = snd target, as_Status = DeliveryPlanStepAssignmentPending, as_QueuedAt = None,
          as_DispatchedAt = None, as_StartedAt = None, as_CompletedAt = None, as_CreatedAt = now, as_UpdatedAt = now\<rparr>)"

definition live_execution :: "plan_execution \<Rightarrow> bool" where
  "live_execution x = (ex_Status x \<in> {DeliveryPlanExecutionPending, DeliveryPlanExecutionDispatching, DeliveryPlanExecutionRunning})"

definition valid_concurrency :: "plan_execution \<Rightarrow> bool" where
  "valid_concurrency x = (1 \<le> ex_MaxConcurrency x \<and> ex_MaxConcurrency x \<le> DeliveryPlanExecutionMaxConcurrency)"

text \<open>The part of the reservation after the snapshot was verified.\<close>

definition reserve_steps ::
  "orch_env \<Rightarrow> 'a orch_tables_scheme \<Rightarrow> plan_execution \<Rightarrow> uuid \<Rightarrow> int \<Rightarrow> (uuid \<times> uuid) list \<Rightarrow> uuid list \<Rightarrow> gotime
     \<Rightarrow> orch_error + step_assignment list \<times> 'a orch_tables_scheme" where
  "reserve_steps env db execution workItemID limit mapping stepIDs now =
     (let existing = sort_key (\<lambda>a. (as_DeliveryPlanStepID a, as_ID a))
            (filter (\<lambda>a. as_ExecutionID a = ex_ID execution \<and> as_DeliveryPlanStepID a \<in> set stepIDs) (ot_assignments db));
          newStepIDs = filter (\<lambda>i. i \<notin> as_DeliveryPlanStepID ` set existing) stepIDs;
          by_step = sort_key (\<lambda>a. ce_string env (as_DeliveryPlanStepID a))
      in bindE (existingAssignments mapping existing) (\<lambda>_.
        if newStepIDs = [] then Inr (by_step existing, db)
        else let newLimit = min (limit - int (length existing)) (ex_MaxConcurrency execution - active_count db (ex_ID execution))
          in if newLimit < int (length newStepIDs) then Inl ErrPlanExecutionCapacity
             else let readySteps = select_steps env (\<lambda>s. st_ID s \<in> set newStepIDs \<and> ready_step db execution s) newLimit (pt_steps db)
               in if length readySteps \<noteq> length newStepIDs then Inl ErrPlanExecutionConflict
                  else bindE (resolveAssignmentTargets env db workItemID readySteps now) (\<lambda>targets.
                    let created = map2 (new_assignment execution mapping targets now)
                          (map (ce_newV4 env) [0..<length readySteps]) readySteps
                    in Inr (by_step (existing @ created),
                            db\<lparr>ot_assignments := ot_assignments db @ created\<rparr>))))"

definition ReserveReadyAssignmentsInTransaction ::
  "orch_env \<Rightarrow> 'a orch_tables_scheme \<Rightarrow> uuid \<Rightarrow> int \<Rightarrow> (uuid \<times> uuid) list \<Rightarrow> gotime
     \<Rightarrow> orch_error + step_assignment list \<times> 'a orch_tables_scheme" where
  "ReserveReadyAssignmentsInTransaction env db executionID limit childTaskIDs now0 =
     (let now = normalizeNow now0 (ce_clock env 0)
      in if executionID = uuid_Nil then Inl (OrchInputInvalid ''execution_id is required'')
         else if limit < 1 \<or> limit > DeliveryPlanExecutionMaxConcurrency
         then Inl (OrchInputInvalid ''limit is out of bounds'')
         else if childTaskIDs = [] then Inr ([], db)
         else if int (length childTaskIDs) > limit \<or> int (length childTaskIDs) > DeliveryPlanExecutionMaxConcurrency
         then Inl (OrchInputInvalid ''child task mapping exceeds the requested reservation limit'')
         else case find (\<lambda>x. ex_ID x = executionID) (ot_executions db) of
             None \<Rightarrow> Inl OrchRecordNotFound
           | Some execution \<Rightarrow>
               (case find (\<lambda>t. at_ID t = ex_AutomationTaskID execution) (lt_tasks db) of
                  None \<Rightarrow> Inl OrchRecordNotFound
                | Some parent \<Rightarrow>
                    if at_DeliveryWorkItemID parent = None then Inl ErrPlanExecutionParentMismatch
                    else if \<not> valid_concurrency execution
                    then Inl (OrchInputInvalid ''persisted execution max_concurrency is invalid'')
                    else if \<not> live_execution execution then Inl ErrPlanExecutionConflict
                    else (case loadTaskOrganizationScope db (at_ID parent) of
                        None \<Rightarrow> Inl ErrPlanExecutionParentMismatch
                      | Some scope \<Rightarrow>
                          if Some (sc_WorkItemID scope) \<noteq> at_DeliveryWorkItemID parent
                          then Inl ErrPlanExecutionParentMismatch
                          else bindE (loadApprovedExecutionSnapshot db parent (ex_PlanID execution)) (\<lambda>snapshot.
                            if dp_Version (fst snapshot) \<noteq> ex_PlanVersion execution
                              \<or> dp_ApprovedGateID (fst snapshot) \<noteq> Some (ex_ApprovedGateID execution)
                            then Inl ErrPlanExecutionApproval
                            else bindE (plan_hash env snapshot) (\<lambda>hash.
                              if hash \<noteq> ex_PlanHash execution then Inl ErrPlanExecutionConflict
                              else bindE (normalizeStepTaskMapping (ce_string env) childTaskIDs) (\<lambda>stepIDs.
                                   bindE (validateChildTaskScopes db scope (map (childTask childTaskIDs) stepIDs)) (\<lambda>_.
                                   reserve_steps env db execution (sc_WorkItemID scope) limit childTaskIDs stepIDs now)))))))"

subsection \<open>Ready steps and fan-in\<close>

definition ReadyPlanStepsInTransaction ::
  "orch_env \<Rightarrow> 'a orch_tables_scheme \<Rightarrow> uuid \<Rightarrow> orch_error + plan_execution \<times> plan_step list" where
  "ReadyPlanStepsInTransaction env db executionID =
     (if executionID = uuid_Nil then Inl (OrchInputInvalid ''transaction and execution_id are required'')
      else case find (\<lambda>x. ex_ID x = executionID) (ot_executions db) of
          None \<Rightarrow> Inl OrchRecordNotFound
        | Some execution \<Rightarrow>
            (case find (\<lambda>t. at_ID t = ex_AutomationTaskID execution) (lt_tasks db) of
               None \<Rightarrow> Inl OrchRecordNotFound
             | Some parent \<Rightarrow>
                 if at_DeliveryWorkItemID parent = None then Inl ErrPlanExecutionParentMismatch
                 else if \<not> live_execution execution then Inl ErrPlanExecutionConflict
                 else if \<not> valid_concurrency execution
                 then Inl (OrchInputInvalid ''persisted execution max_concurrency is invalid'')
                 else let capacity = ex_MaxConcurrency execution - active_count db (ex_ID execution)
                   in if capacity \<le> 0 then Inr (execution, [])
                      else let steps = select_steps env (ready_step db execution) capacity (pt_steps db)
                        in if int (length steps) > capacity then Inl ErrPlanExecutionCapacity
                           else Inr (execution,
                             sort_key (\<lambda>s. (st_DisplayOrder s, ce_string env (st_ID s))) steps)))"

record fan_in_decision =
  fi_WaitingForChildren :: bool
  fi_HasChildFailure :: bool
  fi_AggregationPending :: bool
  fi_Reason :: string

definition AggregationPendingReason :: string where
  "AggregationPendingReason =
     ''aggregation_pending: child worktrees have not been merged into a verified parent artifact and full-plan acceptance evidence''"

definition pending_because :: "string \<Rightarrow> fan_in_decision" where
  "pending_because detail =
     \<lparr>fi_WaitingForChildren = False, fi_HasChildFailure = False, fi_AggregationPending = True,
      fi_Reason = AggregationPendingReason @ detail\<rparr>"

fun scanAssignments ::
  "uuid list \<Rightarrow> uuid list \<Rightarrow> bool \<Rightarrow> bool \<Rightarrow> step_assignment list \<Rightarrow> fan_in_decision + uuid list \<times> bool \<times> bool" where
  "scanAssignments required seen active failed [] = Inr (seen, active, failed)"
| "scanAssignments required seen active failed (a # as) =
     (if as_DeliveryPlanStepID a \<notin> set required \<or> as_ID a = uuid_Nil \<or> as_ChildAutomationTaskID a = uuid_Nil
      then Inl (pending_because '': assignment does not match the frozen plan'')
      else if as_DeliveryPlanStepID a \<in> set seen then Inl (pending_because '': duplicate step assignment'')
      else if as_Status a \<in> {DeliveryPlanStepAssignmentPending, DeliveryPlanStepAssignmentQueued,
          DeliveryPlanStepAssignmentDispatched, DeliveryPlanStepAssignmentRunning}
      then scanAssignments required (seen @ [as_DeliveryPlanStepID a]) True failed as
      else if as_Status a \<in> {DeliveryPlanStepAssignmentFailed, DeliveryPlanStepAssignmentBlocked,
          DeliveryPlanStepAssignmentCancelled}
      then scanAssignments required (seen @ [as_DeliveryPlanStepID a]) active True as
      else if as_Status a = DeliveryPlanStepAssignmentCompleted
      then scanAssignments required (seen @ [as_DeliveryPlanStepID a]) active failed as
      else Inl (pending_because '': assignment has an unsupported state''))"

definition AssessFanIn :: "uuid list \<Rightarrow> step_assignment list \<Rightarrow> fan_in_decision" where
  "AssessFanIn requiredStepIDs assignments =
     (if uuid_Nil \<in> set requiredStepIDs then pending_because '': invalid plan step identity''
      else let required = remdups requiredStepIDs
        in case scanAssignments required [] False False assignments of
             Inl decision \<Rightarrow> decision
           | Inr (seen, active, failed) \<Rightarrow>
               if active then
                 \<lparr>fi_WaitingForChildren = True, fi_HasChildFailure = failed, fi_AggregationPending = False,
                  fi_Reason = (if failed
                    then AggregationPendingReason @ '': one or more child assignments did not complete successfully''
                    else [])\<rparr>
               else if failed then
                 (pending_because '': one or more child assignments did not complete successfully'')\<lparr>fi_HasChildFailure := True\<rparr>
               else if length seen \<noteq> length required
               then pending_because '': ready dependent plan steps have not yet been assigned''
               else pending_because [])"

subsection \<open>Taking over an assignment: ValidateAssignmentWorker\<close>

definition validateAssignmentClaimLeaseState :: "automation_task \<Rightarrow> plan_step \<Rightarrow> gotime \<Rightarrow> orch_error + unit" where
  "validateAssignmentClaimLeaseState task step now =
     (if live_at (at_LeaseExpiresAt task) now
      then Inl (ErrNoEligibleAgentMachine ''child task lease is still active'')
      else if live_at (st_LeaseExpiresAt step) now
      then Inl (ErrNoEligibleAgentMachine ''plan-step lease is still active'')
      else if at_Status task = ''running'' \<and> at_LeaseExpiresAt task = None
      then Inl (ErrNoEligibleAgentMachine ''running child task has no durable lease expiry'')
      else if at_Status task \<notin> {''pending'', ''queued'', ''running''}
      then Inl (ErrNoEligibleAgentMachine ''child task is not recoverable'')
      else if st_Status step = DeliveryPlanStepRunning \<and> st_LeaseExpiresAt step = None
      then Inl (ErrNoEligibleAgentMachine ''running plan step has no durable lease expiry'')
      else if st_Status step \<notin> {DeliveryPlanStepPlanned, DeliveryPlanStepReady, DeliveryPlanStepRunning}
      then Inl (ErrNoEligibleAgentMachine ''plan step is not recoverable'')
      else Inr ())"

definition validateAssignmentFailoverLease :: "automation_task \<Rightarrow> plan_step \<Rightarrow> gotime \<Rightarrow> orch_error + unit" where
  "validateAssignmentFailoverLease task step now =
     bindE (validateAssignmentClaimLeaseState task step now) (\<lambda>_.
       if st_Status step = DeliveryPlanStepRunning \<and> st_LeaseExpiresAt step = None
       then Inl (ErrNoEligibleAgentMachine ''running plan step has no durable lease expiry'')
       else Inr ())"

definition requireAssignmentTargetHeartbeatExpired ::
  "'a orch_tables_scheme \<Rightarrow> string \<Rightarrow> string \<Rightarrow> gotime \<Rightarrow> orch_error + unit" where
  "requireAssignmentTargetHeartbeatExpired db machineID agentKey now =
     (if list_ex (\<lambda>h. hb_MachineID h = machineID \<and> hb_AgentKey h = agentKey
           \<and> \<not> hb_LastSeenAt h < now - assignmentHeartbeatMaxAge) (ot_heartbeats db)
      then Inl (ErrNoEligibleAgentMachine ''current target machine heartbeat has not expired'')
      else Inr ())"

definition lockAssignmentFailoverTarget ::
  "orch_env \<Rightarrow> 'a orch_tables_scheme \<Rightarrow> string \<Rightarrow> string \<Rightarrow> string \<Rightarrow> string list \<Rightarrow> string \<Rightarrow> gotime \<Rightarrow> int \<times> bool" where
  "lockAssignmentFailoverTarget env db workerID machineID agentKey workspaceIDs requiredAgentKey now =
     (let rows = heartbeat_rows db (\<lambda>h. hb_MachineID h = machineID \<and> hb_AgentKey h = agentKey
            \<and> now - assignmentHeartbeatMaxAge \<le> hb_LastSeenAt h \<and> \<not> hb_Draining h);
          eligible = filter (\<lambda>r. assignmentHeartbeatEligible env r workspaceIDs requiredAgentKey now) rows
      in (sum_list (map (\<lambda>r. hb_Concurrency (fst r)) eligible), list_ex (\<lambda>r. hb_WorkerID (fst r) = workerID) eligible))"

definition validateCurrentAssignmentHeartbeat ::
  "orch_env \<Rightarrow> 'a orch_tables_scheme \<Rightarrow> string \<Rightarrow> string \<Rightarrow> string \<Rightarrow> string list \<Rightarrow> string \<Rightarrow> gotime \<Rightarrow> orch_error + unit" where
  "validateCurrentAssignmentHeartbeat env db workerID machineID agentKey workspaceIDs requiredAgentKey now =
     (case lockAssignmentFailoverTarget env db workerID machineID agentKey workspaceIDs requiredAgentKey now of
        (capacity, workerReady) \<Rightarrow>
          if \<not> workerReady \<or> capacity < 1
          then Inl (ErrNoEligibleAgentMachine ''current worker heartbeat no longer matches the assigned project workspaces'')
          else Inr ())"

definition machine_reservations :: "'a orch_tables_scheme \<Rightarrow> string \<Rightarrow> string \<Rightarrow> int" where
  "machine_reservations db machineID agentKey =
     int (length (filter (\<lambda>a. as_TargetMachineID a = machineID \<and> as_TargetAgentKey a = agentKey
        \<and> isActiveAssignmentStatus (as_Status a)) (ot_assignments db)))"

text \<open>Moving the assignment to the machine of the caller.\<close>

definition failover ::
  "orch_env \<Rightarrow> 'a orch_tables_scheme \<Rightarrow> automation_task \<Rightarrow> plan_step \<Rightarrow> step_assignment \<Rightarrow> string list \<Rightarrow> string \<Rightarrow> string
     \<Rightarrow> gotime \<Rightarrow> orch_error + step_assignment \<times> 'a orch_tables_scheme" where
  "failover env db task step current workspaceIDs workerID machineID now =
     bindE (validateAssignmentFailoverLease task step now) (\<lambda>_.
     bindE (requireAssignmentTargetHeartbeatExpired db (as_TargetMachineID current) (as_TargetAgentKey current) now) (\<lambda>_.
     case lockAssignmentFailoverTarget env db workerID machineID (as_TargetAgentKey current) workspaceIDs (st_AgentKey step) now of
       (capacity, candidateReady) \<Rightarrow>
         if \<not> candidateReady
         then Inl (ErrNoEligibleAgentMachine ''replacement worker is not recent, active, and ready for every frozen workspace'')
         else if capacity \<le> machine_reservations db machineID (as_TargetAgentKey current)
         then Inl (ErrNoEligibleAgentMachine ''replacement machine has no free assignment capacity'')
         else let move = (\<lambda>a. as_ID a = as_ID current \<and> as_ChildAutomationTaskID a = at_ID task
                    \<and> as_TargetMachineID a = as_TargetMachineID current \<and> as_TargetAgentKey a = as_TargetAgentKey current
                    \<and> isActiveAssignmentStatus (as_Status a));
                  moved = (\<lambda>a. a\<lparr>as_TargetMachineID := machineID, as_Status := DeliveryPlanStepAssignmentQueued,
                    as_UpdatedAt := now\<rparr>)
           in if length (filter move (ot_assignments db)) \<noteq> 1
              then Inl (ErrNoEligibleAgentMachine ''plan-step assignment was concurrently claimed'')
              else Inr (moved current,
                db\<lparr>ot_assignments := map (\<lambda>a. if move a then moved a else a) (ot_assignments db)\<rparr>)))"

definition incomplete_worker :: "step_assignment \<Rightarrow> uuid \<Rightarrow> string \<Rightarrow> string \<Rightarrow> string \<Rightarrow> bool" where
  "incomplete_worker assignment workItemID workerID agentKey machineID =
     (as_ID assignment = uuid_Nil \<or> as_ChildAutomationTaskID assignment = uuid_Nil
      \<or> as_DeliveryPlanStepID assignment = uuid_Nil \<or> workItemID = uuid_Nil
      \<or> TrimSpace (as_TargetMachineID assignment) = [] \<or> TrimSpace (as_TargetAgentKey assignment) = []
      \<or> TrimSpace workerID = [] \<or> TrimSpace agentKey \<noteq> TrimSpace (as_TargetAgentKey assignment)
      \<or> TrimSpace machineID = [])"

text \<open>The clock of the claim, the assignment as the call leaves it, and the tables.\<close>

definition ValidateAssignmentWorker ::
  "orch_env \<Rightarrow> 'a orch_tables_scheme \<Rightarrow> step_assignment \<Rightarrow> uuid \<Rightarrow> string \<Rightarrow> string \<Rightarrow> string
     \<Rightarrow> orch_error + gotime \<times> step_assignment \<times> 'a orch_tables_scheme" where
  "ValidateAssignmentWorker env db assignment workItemID workerID agentKey machineID =
     (if incomplete_worker assignment workItemID workerID agentKey machineID
      then Inl (ErrNoEligibleAgentMachine ''current worker does not match the persisted plan-step profile target'')
      else case find (\<lambda>t. at_ID t = as_ChildAutomationTaskID assignment) (lt_tasks db) of
          None \<Rightarrow> Inl OrchRecordNotFound
        | Some task \<Rightarrow>
            let now = ce_clock env 0
            in if at_DeliveryWorkItemID task \<noteq> Some workItemID
               then Inl (ErrNoEligibleAgentMachine ''assigned child task no longer belongs to the frozen work item'')
               else case find (\<lambda>a. as_ID a = as_ID assignment \<and> as_ChildAutomationTaskID a = at_ID task) (ot_assignments db) of
                   None \<Rightarrow> Inl OrchRecordNotFound
                 | Some current \<Rightarrow>
                     if as_ExecutionID current \<noteq> as_ExecutionID assignment
                       \<or> as_DeliveryPlanStepID current \<noteq> as_DeliveryPlanStepID assignment
                       \<or> as_TargetAgentKey current \<noteq> as_TargetAgentKey assignment
                     then Inl (ErrNoEligibleAgentMachine ''the persisted plan-step assignment changed during claim'')
                     else if \<not> isActiveAssignmentStatus (as_Status current)
                     then Inl (ErrNoEligibleAgentMachine ''the persisted plan-step assignment is terminal'')
                     else case find (\<lambda>s. st_ID s = as_DeliveryPlanStepID current) (pt_steps db) of
                         None \<Rightarrow> Inl OrchRecordNotFound
                       | Some step \<Rightarrow>
                           bindE (frozenLocalWorkspaceIDs db workItemID) (\<lambda>workspaceIDs.
                             if workspaceIDs = []
                             then Inl (ErrNoEligibleAgentMachine ''work item no longer has a frozen local workspace repository'')
                             else bindE (if as_TargetMachineID current \<noteq> machineID
                                 then failover env db task step current workspaceIDs workerID machineID now
                                 else Inr (current, db)) (\<lambda>(current', db').
                               if as_TargetAgentKey current' \<noteq> agentKey \<or> as_TargetMachineID current' \<noteq> machineID
                               then Inl (ErrNoEligibleAgentMachine ''current worker does not match the persisted plan-step target'')
                               else bindE (validateCurrentAssignmentHeartbeat env db' workerID machineID
                                   (as_TargetAgentKey current') workspaceIDs (st_AgentKey step) now) (\<lambda>_.
                                 Inr (now, current', db')))))"

end
