(* ===== verification/Allocation.thy ===== *)
theory Allocation
  imports Orchestration
begin

text \<open>
  The slot allocation of orchestration.go. It never gives a machine and profile more steps than
  they have free slots, it gives every step a profile it may run on, and it fails only when no
  allocation exists: taking the constrained steps first loses nothing.
\<close>

definition demand :: "string \<Rightarrow> plan_step list \<Rightarrow> nat" where
  "demand a steps = length (filter (\<lambda>s. TrimSpace (st_AgentKey s) = a) steps)"

definition usable :: "target_candidate \<Rightarrow> nat" where
  "usable c = nat (free_slots c)"

text \<open>The free slots a step that asks for agent \<open>a\<close> could use; the empty key asks for any.\<close>

definition slot_supply :: "string \<Rightarrow> target_candidate list \<Rightarrow> nat" where
  "slot_supply a candidates = sum_list (map usable (filter (agent_matches a) candidates))"

definition given :: "string \<times> string \<Rightarrow> (uuid \<times> string \<times> string) list \<Rightarrow> nat" where
  "given key targets = length (filter (\<lambda>t. snd t = key) targets)"

lemma matching_empty_iff: "matching_candidates a cs = [] \<longleftrightarrow> slot_supply a cs = 0"
  by (auto simp: matching_candidates_def slot_supply_def usable_def filter_empty_conv)

lemma matching_nth:
  assumes "matching_candidates a cs \<noteq> []"
  shows "matching_candidates a cs ! (n mod length (matching_candidates a cs)) \<in> set (matching_candidates a cs)"
  using assms by (intro nth_mem) simp

lemma reserve_slot_keys [simp]: "map tc_Key (reserve_slot k cs) = map tc_Key cs"
  by (simp add: reserve_slot_def)

lemma usable_reserved:
  "0 < free_slots c \<Longrightarrow> usable (c\<lparr>tc_Reserved := tc_Reserved c + 1\<rparr>) = usable c - 1"
  by (simp add: usable_def free_slots_def)

lemma agent_matches_reserved [simp]:
  "agent_matches a (c\<lparr>tc_Reserved := r\<rparr>) = agent_matches a c"
  by (simp add: agent_matches_def)

lemma reserve_slot_fresh: "k \<notin> tc_Key ` set cs \<Longrightarrow> reserve_slot k cs = cs"
  unfolding reserve_slot_def by (rule map_idI) auto

lemma reserve_slot_mem:
  "x \<in> set (reserve_slot k cs) \<Longrightarrow> \<exists>y \<in> set cs. tc_Key x = tc_Key y \<and> (\<forall>a. agent_matches a x = agent_matches a y)"
  by (auto simp: reserve_slot_def agent_matches_def)

lemma supply_pos:
  assumes "c \<in> set cs" "0 < free_slots c" "agent_matches a c"
  shows "0 < slot_supply a cs"
proof -
  have "c \<in> set (matching_candidates a cs)" using assms by (simp add: matching_candidates_def)
  then have "matching_candidates a cs \<noteq> []" by auto
  then show ?thesis by (simp add: matching_empty_iff)
qed

text \<open>Reserving a slot of a candidate takes one from every slot_supply the candidate belongs to.\<close>

lemma supply_reserve:
  assumes "distinct (map tc_Key cs)" "c \<in> set cs" "0 < free_slots c"
  shows "slot_supply a (reserve_slot (tc_Key c) cs) = (if agent_matches a c then slot_supply a cs - 1 else slot_supply a cs)"
  using assms
proof (induction cs)
  case (Cons x xs)
  show ?case
  proof (cases "x = c")
    case True
    then have "reserve_slot (tc_Key c) xs = xs" using Cons.prems(1) by (intro reserve_slot_fresh) auto
    with True Cons.prems(3) show ?thesis
      by (auto simp: slot_supply_def reserve_slot_def usable_reserved usable_def free_slots_def)
  next
    case False
    then have c: "c \<in> set xs" and k: "tc_Key x \<noteq> tc_Key c" using Cons.prems(1,2) by force+
    have "agent_matches a c \<Longrightarrow> 0 < slot_supply a xs" using supply_pos [OF c Cons.prems(3)] .
    with Cons.IH Cons.prems c k show ?thesis by (auto simp: slot_supply_def reserve_slot_def)
  qed
qed simp

subsection \<open>An allocation respects the capacity\<close>

lemma allocate_Cons:
  assumes "allocate cs cur (s # ss) = Inr ts"
  obtains c ts' cur' where "c \<in> set cs" "0 < free_slots c" "agent_matches (TrimSpace (st_AgentKey s)) c"
    "allocate (reserve_slot (tc_Key c) cs) cur' ss = Inr ts'" "ts = (st_ID s, tc_Key c) # ts'"
proof -
  let ?a = "TrimSpace (st_AgentKey s)"
  let ?m = "matching_candidates ?a cs"
  from assms have ne: "?m \<noteq> []" by (auto simp: Let_def)
  define c where "c = ?m ! (cur ?a mod length ?m)"
  have "c \<in> set ?m" unfolding c_def by (rule matching_nth [OF ne])
  moreover from assms ne obtain ts' where
    "allocate (reserve_slot (tc_Key c) cs) (cur(?a := cur ?a mod length ?m + 1)) ss = Inr ts'"
    "ts = (st_ID s, tc_Key c) # ts'"
    by (auto simp: Let_def c_def bindE_Inr_iff)
  ultimately show ?thesis using that by (auto simp: matching_candidates_def)
qed

lemma allocate_respects:
  "allocate cs cur ss = Inr ts \<Longrightarrow> distinct (map tc_Key cs) \<Longrightarrow>
     map fst ts = map st_ID ss \<and> (\<forall>c \<in> set cs. given (tc_Key c) ts \<le> usable c)
     \<and> list_all2 (\<lambda>s t. \<exists>c \<in> set cs. snd t = tc_Key c \<and> agent_matches (TrimSpace (st_AgentKey s)) c) ss ts"
proof (induction ss arbitrary: cs cur ts)
  case (Cons s ss)
  from Cons.prems(1) obtain c ts' cur' where c: "c \<in> set cs" "0 < free_slots c"
    "agent_matches (TrimSpace (st_AgentKey s)) c"
    and r: "allocate (reserve_slot (tc_Key c) cs) cur' ss = Inr ts'" and ts: "ts = (st_ID s, tc_Key c) # ts'"
    by (rule allocate_Cons)
  from Cons.IH [OF r] Cons.prems(2) have ih: "map fst ts' = map st_ID ss"
    "\<forall>x \<in> set (reserve_slot (tc_Key c) cs). given (tc_Key x) ts' \<le> usable x"
    "list_all2 (\<lambda>s t. \<exists>x \<in> set (reserve_slot (tc_Key c) cs). snd t = tc_Key x \<and> agent_matches (TrimSpace (st_AgentKey s)) x) ss ts'"
    by simp_all
  have "given (tc_Key x) ts \<le> usable x" if x: "x \<in> set cs" for x
  proof (cases "tc_Key x = tc_Key c")
    case True
    with Cons.prems(2) c(1) x have "x = c" by (metis distinct_map inj_onD)
    moreover have "given (tc_Key c) ts' \<le> usable (c\<lparr>tc_Reserved := tc_Reserved c + 1\<rparr>)"
    proof -
      have "c\<lparr>tc_Reserved := tc_Reserved c + 1\<rparr> \<in> set (reserve_slot (tc_Key c) cs)"
        unfolding reserve_slot_def using c(1) by (auto intro!: rev_image_eqI [of c])
      with ih(2) show ?thesis by force
    qed
    ultimately show ?thesis using c(2) by (simp add: ts given_def usable_reserved) (simp add: usable_def)
  next
    case False
    then have "x \<in> set (reserve_slot (tc_Key c) cs)" using x by (force simp: reserve_slot_def)
    with ih(2) False show ?thesis by (simp add: ts given_def)
  qed
  moreover have "list_all2 (\<lambda>s t. \<exists>x \<in> set cs. snd t = tc_Key x \<and> agent_matches (TrimSpace (st_AgentKey s)) x) ss ts'"
  proof (rule list_all2_mono [OF ih(3)])
    fix s t assume "\<exists>x \<in> set (reserve_slot (tc_Key c) cs). snd t = tc_Key x \<and> agent_matches (TrimSpace (st_AgentKey s)) x"
    then show "\<exists>x \<in> set cs. snd t = tc_Key x \<and> agent_matches (TrimSpace (st_AgentKey s)) x"
      using reserve_slot_mem by metis
  qed
  ultimately show ?case using ih(1) c ts by auto
qed (simp add: given_def)

subsection \<open>An allocation is found whenever there is one\<close>

definition enough :: "target_candidate list \<Rightarrow> plan_step list \<Rightarrow> bool" where
  "enough cs steps \<longleftrightarrow> (\<forall>a. a \<noteq> [] \<longrightarrow> demand a steps \<le> slot_supply a cs) \<and> length steps \<le> slot_supply [] cs"

definition constrained_first :: "plan_step list \<Rightarrow> bool" where
  "constrained_first steps \<longleftrightarrow> sorted (map (\<lambda>s. TrimSpace (st_AgentKey s) = []) steps)"

lemma demand_Cons [simp]:
  "demand a (s # ss) = (if TrimSpace (st_AgentKey s) = a then Suc (demand a ss) else demand a ss)"
  by (simp add: demand_def)

lemma any_agent [simp]: "agent_matches [] c"
  by (simp add: agent_matches_def)

lemma enough_step:
  assumes d: "distinct (map tc_Key cs)" and c: "c \<in> set cs" "0 < free_slots c"
    "agent_matches (TrimSpace (st_AgentKey s)) c" and f: "constrained_first (s # ss)"
  shows "enough cs (s # ss) \<longleftrightarrow> enough (reserve_slot (tc_Key c) cs) ss"
proof -
  have pos: "agent_matches a c \<Longrightarrow> 0 < slot_supply a cs" for a by (rule supply_pos [OF c(1,2)])
  note sup = supply_reserve [OF d c(1,2)]
  show ?thesis
  proof (cases "TrimSpace (st_AgentKey s) = []")
    case True
    then have all: "\<forall>x \<in> set ss. TrimSpace (st_AgentKey x) = []"
      using f by (auto simp: constrained_first_def)
    then have "demand a ss = 0" if "a \<noteq> []" for a using that by (auto simp: demand_def filter_empty_conv)
    with True pos [of "[]"] show ?thesis by (auto simp: enough_def sup)
  next
    case False
    let ?a = "TrimSpace (st_AgentKey s)"
    have only: "agent_matches b c \<longleftrightarrow> b = ?a" if "b \<noteq> []" for b
      using c(3) False that by (auto simp: agent_matches_def)
    show ?thesis
    proof
      assume e: "enough cs (s # ss)"
      have "demand b ss \<le> slot_supply b (reserve_slot (tc_Key c) cs)" if "b \<noteq> []" for b
        using e that only [OF that] unfolding sup by (auto simp: enough_def dest: spec [of _ b])
      moreover have "length ss \<le> slot_supply [] (reserve_slot (tc_Key c) cs)" using e unfolding sup by (auto simp: enough_def)
      ultimately show "enough (reserve_slot (tc_Key c) cs) ss" by (simp add: enough_def)
    next
      assume e: "enough (reserve_slot (tc_Key c) cs) ss"
      have "demand b (s # ss) \<le> slot_supply b cs" if "b \<noteq> []" for b
        using e that only [OF that] pos [of b] by (auto simp: enough_def sup dest: spec [of _ b])
      moreover have "length (s # ss) \<le> slot_supply [] cs" using e pos [of "[]"] by (auto simp: enough_def sup)
      ultimately show "enough cs (s # ss)" by (simp add: enough_def)
    qed
  qed
qed

lemma allocate_iff:
  "distinct (map tc_Key cs) \<Longrightarrow> constrained_first ss \<Longrightarrow> isOk (allocate cs cur ss) \<longleftrightarrow> enough cs ss"
proof (induction ss arbitrary: cs cur)
  case Nil
  show ?case by (simp add: enough_def demand_def)
next
  case (Cons s ss)
  let ?a = "TrimSpace (st_AgentKey s)"
  let ?m = "matching_candidates ?a cs"
  show ?case
  proof (cases "?m = []")
    case True
    then have "slot_supply ?a cs = 0" by (simp add: matching_empty_iff)
    moreover have "0 < demand ?a (s # ss)" by simp
    moreover have "demand ?a (s # ss) \<le> slot_supply ?a cs \<or> ?a = []" "?a = [] \<longrightarrow> 0 < slot_supply ?a cs"
      if e: "enough cs (s # ss)"
    proof -
      from e show "demand ?a (s # ss) \<le> slot_supply ?a cs \<or> ?a = []" unfolding enough_def by blast
      from e have "length (s # ss) \<le> slot_supply [] cs" unfolding enough_def by blast
      then show "?a = [] \<longrightarrow> 0 < slot_supply ?a cs" by simp
    qed
    ultimately have "\<not> enough cs (s # ss)" by linarith
    with True show ?thesis by (simp add: Let_def)
  next
    case False
    define c where "c = ?m ! (cur ?a mod length ?m)"
    have "c \<in> set ?m" unfolding c_def by (rule matching_nth [OF False])
    then have c: "c \<in> set cs" "0 < free_slots c" "agent_matches ?a c" by (auto simp: matching_candidates_def)
    have f: "constrained_first ss" 
      using Cons.prems(2) unfolding constrained_first_def list.map sorted_wrt.simps by blast
    have "isOk (allocate cs cur (s # ss)) \<longleftrightarrow>
        isOk (allocate (reserve_slot (tc_Key c) cs) (cur(?a := cur ?a mod length ?m + 1)) ss)"
      using False by (auto simp: Let_def c_def isOk_iff bindE_Inr_iff)
    also have "\<dots> \<longleftrightarrow> enough (reserve_slot (tc_Key c) cs) ss" using Cons.IH Cons.prems(1) f by simp
    also have "\<dots> \<longleftrightarrow> enough cs (s # ss)" using enough_step [OF Cons.prems(1) c Cons.prems(2)] by simp
    finally show ?thesis .
  qed
qed

lemma allocation_order_constrained: "constrained_first (allocation_order ustr steps)"
proof -
  have "sorted (map fst (xs :: (bool \<times> 'b :: linorder) list))" if "sorted xs" for xs
    using that by (induction xs) (auto simp: less_eq_prod_def)
  from this [of "map (\<lambda>s. (TrimSpace (st_AgentKey s) = [], TrimSpace (st_AgentKey s), st_DisplayOrder s, ustr (st_ID s)))
      (allocation_order ustr steps)"]
  show ?thesis by (simp add: constrained_first_def allocation_order_def comp_def)
qed

lemma enough_permuted: "mset xs = mset ys \<Longrightarrow> enough cs xs \<longleftrightarrow> enough cs ys"
  unfolding enough_def demand_def by (metis mset_eq_length mset_filter)

text \<open>
  C22. Slots are allocated whenever they exist. \<open>allocateAssignmentTargets\<close> succeeds exactly when
  the free slots of every named profile cover the steps that ask for it and the free slots of all
  machines cover all steps, although it allocates greedily and round-robin.
\<close>

theorem allocation_succeeds_iff_enough_slots:
  assumes "distinct (map tc_Key candidates)"
  shows "isOk (allocateAssignmentTargets ustr steps candidates) \<longleftrightarrow>
     (\<forall>a. a \<noteq> [] \<longrightarrow> demand a steps \<le> slot_supply a candidates) \<and> length steps \<le> slot_supply [] candidates"
proof -
  have "isOk (allocateAssignmentTargets ustr steps candidates) \<longleftrightarrow> enough candidates steps"
  proof (cases "steps = []")
    case True
    then show ?thesis by (simp add: allocateAssignmentTargets_def enough_def demand_def)
  next
    case False
    have "isOk (allocate candidates (\<lambda>_. 0) (allocation_order ustr steps)) \<longleftrightarrow> enough candidates (allocation_order ustr steps)"
      by (rule allocate_iff [OF assms allocation_order_constrained])
    also have "\<dots> \<longleftrightarrow> enough candidates steps" by (rule enough_permuted) (simp add: allocation_order_def)
    finally show ?thesis using False by (simp add: allocateAssignmentTargets_def)
  qed
  then show ?thesis by (simp add: enough_def)
qed

lemma allocation_respected:
  assumes "distinct (map tc_Key candidates)"
    and "allocateAssignmentTargets ustr steps candidates = Inr targets"
  shows "mset (map fst targets) = mset (map st_ID steps)
     \<and> (\<forall>c \<in> set candidates. given (tc_Key c) targets \<le> usable c)
     \<and> (\<forall>t \<in> set targets. \<exists>s \<in> set steps. \<exists>c \<in> set candidates. fst t = st_ID s \<and> snd t = tc_Key c
          \<and> agent_matches (TrimSpace (st_AgentKey s)) c)"
proof (cases "steps = []")
  case True
  with assms(2) show ?thesis by (simp add: allocateAssignmentTargets_def given_def)
next
  case False
  let ?o = "allocation_order ustr steps"
  have m: "mset ?o = mset steps" by (simp add: allocation_order_def)
  from assms(2) False have "allocate candidates (\<lambda>_. 0) ?o = Inr targets" by (simp add: allocateAssignmentTargets_def)
  from allocate_respects [OF this assms(1)] have ids: "map fst targets = map st_ID ?o"
    and g: "\<forall>c \<in> set candidates. given (tc_Key c) targets \<le> usable c"
    and l: "list_all2 (\<lambda>s t. \<exists>c \<in> set candidates. snd t = tc_Key c \<and> agent_matches (TrimSpace (st_AgentKey s)) c) ?o targets"
    by simp_all
  have "\<exists>s \<in> set steps. \<exists>c \<in> set candidates. fst t = st_ID s \<and> snd t = tc_Key c
      \<and> agent_matches (TrimSpace (st_AgentKey s)) c" if "t \<in> set targets" for t
  proof -
    from that obtain i where i: "i < length targets" "t = targets ! i" by (metis in_set_conv_nth)
    then have io: "i < length ?o" using l by (simp add: list_all2_lengthD)
    have "fst t = st_ID (?o ! i)" using i io arg_cong [OF ids, of "\<lambda>xs. xs ! i"] by simp
    moreover have "?o ! i \<in> set steps" using io permuted_set [OF m] nth_mem by blast
    ultimately show ?thesis using list_all2_nthD2 [OF l] i by blast
  qed
  with ids g m show ?thesis by (metis mset_map)
qed

text \<open>
  No machine is oversubscribed. A successful allocation gives each step exactly one target,
  a candidate whose profile the step accepts, and gives no candidate more steps than its free
  slots.
\<close>

theorem allocation_never_oversubscribes:
  assumes "distinct (map tc_Key candidates)"
    and "allocateAssignmentTargets ustr steps candidates = Inr targets"
  shows "mset (map fst targets) = mset (map st_ID steps)
     \<and> (\<forall>c \<in> set candidates. given (tc_Key c) targets \<le> usable c)
     \<and> (\<forall>t \<in> set targets. \<exists>s \<in> set steps. \<exists>c \<in> set candidates. fst t = st_ID s \<and> snd t = tc_Key c
          \<and> agent_matches (TrimSpace (st_AgentKey s)) c)"
  by (rule allocation_respected [OF assms])

end
