(* ===== verification/PlanExecutionProps.thy ===== *)
theory PlanExecutionProps
  imports PlanExecution Allocation StepSystem
begin

text \<open>
  The orchestration over every interleaving of its transactions: an execution never has more
  active assignments than its concurrency limit, a step has one assignment per execution, a
  machine never gets more assignments than its ready slots, an assignment changes machine only
  when every lease and heartbeat of the former one has expired, a repeated creation returns the
  frozen execution, and fan-in reports completion of the children without ever reporting success.
\<close>

subsection \<open>Fan-in\<close>

definition child_finished :: "uuid list \<Rightarrow> step_assignment \<Rightarrow> bool" where
  "child_finished required a \<longleftrightarrow>
     as_DeliveryPlanStepID a \<in> set required \<and> as_ID a \<noteq> uuid_Nil \<and> as_ChildAutomationTaskID a \<noteq> uuid_Nil
     \<and> as_Status a = DeliveryPlanStepAssignmentCompleted"

lemma scan_sticky:
  "scanAssignments required seen active failed as = Inr (s, active', failed') \<Longrightarrow>
     (active \<longrightarrow> active') \<and> (failed \<longrightarrow> failed')"
  by (induction required seen active failed as rule: scanAssignments.induct) (auto split: if_splits)

lemma scan_flagged [simp]:
  "scanAssignments required seen True failed as \<noteq> Inr (s, False, f)"
  "scanAssignments required seen active True as \<noteq> Inr (s, f, False)"
  using scan_sticky [of required seen True failed as s False f] scan_sticky [of required seen active True as s f False]
  by blast+

lemma scan_all_completed:
  "distinct seen \<Longrightarrow> scanAssignments required seen False False as = Inr (seen', False, False) \<longleftrightarrow>
     (\<forall>a \<in> set as. child_finished required a) \<and> distinct (seen @ map as_DeliveryPlanStepID as)
     \<and> seen' = seen @ map as_DeliveryPlanStepID as"
proof (induction as arbitrary: seen)
  case (Cons a as)
  show ?case
  proof (cases "child_finished required a \<and> as_DeliveryPlanStepID a \<notin> set seen")
    case True
    then have "scanAssignments required seen False False (a # as) = scanAssignments required (seen @ [as_DeliveryPlanStepID a]) False False as"
      by (simp add: child_finished_def assignment_status_names)
    with True Cons show ?thesis by (simp add: insert_commute) blast
  next
    case False
    then have "scanAssignments required seen False False (a # as) \<noteq> Inr (seen', False, False)"
      by (auto simp: child_finished_def)
    with False show ?thesis by auto
  qed
qed auto

lemma scan_decision:
  "scanAssignments required seen active failed as = Inl d \<Longrightarrow> \<exists>detail. d = pending_because detail \<and> detail \<noteq> []"
  by (induction required seen active failed as rule: scanAssignments.induct) (auto split: if_splits)

text \<open>
  Fan-in never reports success, and recognises completion exactly. Every decision waits for
  children or leaves aggregation pending; the bare pending reason, which asks for the aggregate
  artifact and nothing else, is given exactly when the assignments are one completed assignment
  with valid identities for each required step.
\<close>

theorem fan_in_decides_completion:
  "(fi_WaitingForChildren (AssessFanIn required as) \<or> fi_AggregationPending (AssessFanIn required as))
   \<and> (AssessFanIn required as = pending_because [] \<longleftrightarrow>
        uuid_Nil \<notin> set required \<and> list_all (child_finished required) as
        \<and> distinct (map as_DeliveryPlanStepID as) \<and> set (map as_DeliveryPlanStepID as) = set required)"
proof (cases "uuid_Nil \<in> set required")
  case True
  then show ?thesis by (simp add: AssessFanIn_def pending_because_def)
next
  case False
  let ?scan = "scanAssignments (remdups required) [] False False as"
  have cf: "child_finished (remdups required) = child_finished required" by (auto simp: child_finished_def fun_eq_iff)
  have all: "?scan = Inr (seen, False, False) \<longleftrightarrow> list_all (child_finished required) as
      \<and> distinct (map as_DeliveryPlanStepID as) \<and> seen = map as_DeliveryPlanStepID as" for seen
    using scan_all_completed [of "[]" "remdups required" as seen] by (auto simp: cf list_all_iff)
  have len: "length (map as_DeliveryPlanStepID as) = length (remdups required) \<longleftrightarrow> set (map as_DeliveryPlanStepID as) = set required"
    if "list_all (child_finished required) as" "distinct (map as_DeliveryPlanStepID as)"
  proof -
    have sub: "set (map as_DeliveryPlanStepID as) \<subseteq> set required" using that(1) by (auto simp: list_all_iff child_finished_def)
    have "length (map as_DeliveryPlanStepID as) = card (set (map as_DeliveryPlanStepID as))" using that(2) by (metis distinct_card)
    then show ?thesis using sub by (metis card_subset_eq finite_set length_remdups_card_conv)
  qed
  show ?thesis
  proof (cases ?scan)
    case (Inl d)
    with scan_decision [OF Inl] all False show ?thesis by (auto simp: AssessFanIn_def pending_because_def)
  next
    case (Inr r)
    obtain seen active failed where r: "r = (seen, active, failed)" by (cases r)
    show ?thesis
    proof (cases "active \<or> failed")
      case True
      then have no: "\<not> (list_all (child_finished required) as \<and> distinct (map as_DeliveryPlanStepID as))"
        using all [of "map as_DeliveryPlanStepID as"] Inr r by auto
      from True no Inr r False show ?thesis by (auto simp: AssessFanIn_def pending_because_def)
    next
      case ok: False
      with Inr r all [of seen] have c: "list_all (child_finished required) as" "distinct (map as_DeliveryPlanStepID as)"
        "seen = map as_DeliveryPlanStepID as" by auto
      with Inr r ok False len [OF c(1,2)] show ?thesis by (auto simp: AssessFanIn_def pending_because_def)
    qed
  qed
qed

subsection \<open>Creating an execution\<close>

lemma create_effect:
  assumes "CreateExecutionInTransaction env db parentTaskID planID maxConcurrency key now0 = Inr (x, True, db')"
  shows "db' = db\<lparr>ot_executions := ot_executions db @ [x]\<rparr>" "ex_AutomationTaskID x = parentTaskID"
    "ex_PlanID x = planID" "ex_IdempotencyKey x = TrimSpace key" "ex_MaxConcurrency x = maxConcurrency"
    "ex_ID x = ce_newV4 env 0" "1 \<le> maxConcurrency" "maxConcurrency \<le> DeliveryPlanExecutionMaxConcurrency"
    "find (\<lambda>y. ex_AutomationTaskID y = parentTaskID) (ot_executions db) = None"
    "parentTaskID \<noteq> uuid_Nil" "planID \<noteq> uuid_Nil" "TrimSpace key \<noteq> []" "length (TrimSpace key) \<le> 128"
    "\<exists>parent plan. find (\<lambda>t. at_ID t = parentTaskID) (lt_tasks db) = Some parent
       \<and> find (\<lambda>p. dp_ID p = planID) (pt_plans db) = Some plan \<and> at_DeliveryWorkItemID parent = Some (dp_WorkItemID plan)"
  using assms
  by (auto simp: CreateExecutionInTransaction_def Let_def bindE_Inr_iff loadApprovedExecutionSnapshot_def
      find_Some_iff not_less not_le split: option.splits if_splits)

text \<open>
  Creating an execution is idempotent on the parent task. After a creation, any later call for
  the same parent with the same plan, key and limit returns the frozen row and writes nothing; a
  call that differs in plan, key or limit is refused as a conflict.
\<close>

theorem create_execution_idempotent:
  assumes c: "CreateExecutionInTransaction env db parentTaskID planID limit key now0 = Inr (x, True, db')"
    and other: "planID' \<noteq> uuid_Nil" "1 \<le> limit'" "limit' \<le> DeliveryPlanExecutionMaxConcurrency"
      "TrimSpace key' \<noteq> []" "length (TrimSpace key') \<le> 128"
  shows "CreateExecutionInTransaction env' db' parentTaskID planID' limit' key' now' =
     (if planID' = planID \<and> TrimSpace key' = TrimSpace key \<and> limit' = limit then Inr (x, False, db')
      else Inl ErrPlanExecutionConflict)"
proof -
  note e = create_effect [OF c]
  from e(14) obtain parent plan where p: "find (\<lambda>t. at_ID t = parentTaskID) (lt_tasks db) = Some parent"
    "find (\<lambda>p. dp_ID p = planID) (pt_plans db) = Some plan" "at_DeliveryWorkItemID parent = Some (dp_WorkItemID plan)"
    by blast
  have f: "find (\<lambda>y. ex_AutomationTaskID y = parentTaskID) (ot_executions db') = Some x"
    using e(1,2,9) by (simp add: find_append)
  show ?thesis
  proof (cases "planID' = planID \<and> TrimSpace key' = TrimSpace key \<and> limit' = limit")
    case True
    with e p f other show ?thesis by (simp add: CreateExecutionInTransaction_def Let_def not_less)
  next
    case False
    with e p f other show ?thesis by (auto simp: CreateExecutionInTransaction_def Let_def not_less)
  qed
qed

subsection \<open>Reserving assignments\<close>

lemma select_steps_mset: "mset (select_steps env P n xs) \<subseteq># mset xs"
proof -
  have t: "mset (take k ys) \<subseteq># mset ys" for k and ys :: "plan_step list"
    by (metis append_take_drop_id mset_append mset_subset_eq_add_left)
  have "mset (select_steps env P n xs) \<subseteq># mset (filter (\<lambda>s. P s \<and> \<not> ce_locked env (st_ID s)) xs)"
    unfolding select_steps_def
    using t [of "nat n" "sort_key (\<lambda>s. (st_DisplayOrder s, st_ID s)) (filter (\<lambda>s. P s \<and> \<not> ce_locked env (st_ID s)) xs)"]
    by simp
  also have "\<dots> \<subseteq># mset xs" by (simp add: mset_filter)
  finally show ?thesis .
qed

text \<open>The work item of an execution: that of its parent task.\<close>

definition execution_work_item :: "'a orch_tables_scheme \<Rightarrow> plan_execution \<Rightarrow> uuid option" where
  "execution_work_item db execution =
     (case find (\<lambda>t. at_ID t = ex_AutomationTaskID execution) (lt_tasks db) of
        None \<Rightarrow> None | Some parent \<Rightarrow> at_DeliveryWorkItemID parent)"

lemma reserve_effect:
  assumes "ReserveReadyAssignmentsInTransaction env db executionID limit mapping now0 = Inr (result, db')"
  obtains (none) "db' = db"
  | (created) execution workItemID steps targets now where
    "find (\<lambda>x. ex_ID x = executionID) (ot_executions db) = Some execution" "valid_concurrency execution"
    "live_execution execution"
    "now = normalizeNow now0 (ce_clock env 0)"
    "resolveAssignmentTargets env db workItemID steps now = Inr targets"
    "steps \<noteq> []" "int (length steps) \<le> ex_MaxConcurrency execution - active_count db (ex_ID execution)"
    "\<forall>s \<in> set steps. s \<in> set (pt_steps db) \<and> ready_step db execution s"
    "mset steps \<subseteq># mset (pt_steps db)"
    "db' = db\<lparr>ot_assignments := ot_assignments db @
       map2 (new_assignment execution mapping targets now) (map (ce_newV4 env) [0..<length steps]) steps\<rparr>"
    "execution_work_item db execution = Some workItemID"
proof -
  show ?thesis
  proof (cases "mapping = []")
    case True
    with assms have "db' = db" by (auto simp: ReserveReadyAssignmentsInTransaction_def Let_def split: if_splits)
    then show ?thesis by (rule none)
  next
    case False
    from assms False obtain execution workItemID stepIDs where
      x: "find (\<lambda>x. ex_ID x = executionID) (ot_executions db) = Some execution" "valid_concurrency execution"
      "live_execution execution"
      and r: "reserve_steps env db execution workItemID limit mapping stepIDs (normalizeNow now0 (ce_clock env 0)) = Inr (result, db')"
      and wi: "execution_work_item db execution = Some workItemID"
      by (auto simp: ReserveReadyAssignmentsInTransaction_def execution_work_item_def Let_def bindE_Inr_iff split: if_splits option.splits)
    define existing where "existing = sort_key (\<lambda>a. (as_DeliveryPlanStepID a, as_ID a))
      (filter (\<lambda>a. as_ExecutionID a = ex_ID execution \<and> as_DeliveryPlanStepID a \<in> set stepIDs) (ot_assignments db))"
    define newIDs where "newIDs = filter (\<lambda>i. i \<notin> as_DeliveryPlanStepID ` set existing) stepIDs"
    define newLimit where "newLimit = min (limit - int (length existing)) (ex_MaxConcurrency execution - active_count db (ex_ID execution))"
    define steps where "steps = select_steps env (\<lambda>s. st_ID s \<in> set newIDs \<and> ready_step db execution s) newLimit (pt_steps db)"
    note u = r [unfolded reserve_steps_def Let_def, folded existing_def, folded newIDs_def, folded newLimit_def, folded steps_def]
    show ?thesis
    proof (cases "newIDs = []")
      case True
      with u have "db' = db" by (auto simp: bindE_Inr_iff)
      then show ?thesis by (rule none)
    next
      case ne: False
      with u obtain targets where g: "\<not> newLimit < int (length newIDs)" "length steps = length newIDs"
        and t: "resolveAssignmentTargets env db workItemID steps (normalizeNow now0 (ce_clock env 0)) = Inr targets"
        and d: "db' = db\<lparr>ot_assignments := ot_assignments db @
          map2 (new_assignment execution mapping targets (normalizeNow now0 (ce_clock env 0)))
            (map (ce_newV4 env) [0..<length steps]) steps\<rparr>"
        by (auto simp: bindE_Inr_iff split: if_splits)
      have "steps \<noteq> []" using ne g(2) by auto
      moreover have "int (length steps) \<le> ex_MaxConcurrency execution - active_count db (ex_ID execution)"
        using g by (auto simp: newLimit_def)
      moreover have "\<forall>s \<in> set steps. s \<in> set (pt_steps db) \<and> ready_step db execution s"
        unfolding steps_def select_steps_def by (auto dest: in_set_takeD)
      moreover have "mset steps \<subseteq># mset (pt_steps db)" unfolding steps_def by (rule select_steps_mset)
      ultimately show ?thesis using created [OF x refl t] d wi by blast
    qed
  qed
qed

lemma new_assignment_sel [simp]:
  "as_ExecutionID (new_assignment execution mapping targets now i s) = ex_ID execution"
  "as_DeliveryPlanStepID (new_assignment execution mapping targets now i s) = st_ID s"
  "as_Status (new_assignment execution mapping targets now i s) = DeliveryPlanStepAssignmentPending"
  by (simp_all add: new_assignment_def Let_def)

lemma active_names [simp]:
  "isActiveAssignmentStatus DeliveryPlanStepAssignmentPending" "isActiveAssignmentStatus DeliveryPlanStepAssignmentQueued"
  by (simp_all add: isActiveAssignmentStatus_def activePlanStepAssignmentStatuses_def)

subsection \<open>Taking over an assignment\<close>

lemma failover_effect:
  assumes "failover env db task step current workspaceIDs workerID machineID now = Inr (a', db')"
  shows "\<not> live_at (at_LeaseExpiresAt task) now" "\<not> live_at (st_LeaseExpiresAt step) now"
    "\<forall>h \<in> set (ot_heartbeats db). hb_MachineID h = as_TargetMachineID current \<longrightarrow> hb_AgentKey h = as_TargetAgentKey current \<longrightarrow>
       hb_LastSeenAt h < now - assignmentHeartbeatMaxAge"
    "machine_reservations db machineID (as_TargetAgentKey current)
       < fst (lockAssignmentFailoverTarget env db workerID machineID (as_TargetAgentKey current) workspaceIDs (st_AgentKey step) now)"
    "db' = db\<lparr>ot_assignments := map (\<lambda>a. if as_ID a = as_ID current \<and> as_ChildAutomationTaskID a = at_ID task
          \<and> as_TargetMachineID a = as_TargetMachineID current \<and> as_TargetAgentKey a = as_TargetAgentKey current
          \<and> isActiveAssignmentStatus (as_Status a)
        then a\<lparr>as_TargetMachineID := machineID, as_Status := DeliveryPlanStepAssignmentQueued, as_UpdatedAt := now\<rparr> else a)
      (ot_assignments db)\<rparr>"
  using assms
  by (auto simp: failover_def Let_def bindE_Inr_iff validateAssignmentFailoverLease_def validateAssignmentClaimLeaseState_def
      requireAssignmentTargetHeartbeatExpired_def list_ex_iff split: prod.splits if_splits)

lemma worker_effect:
  assumes "ValidateAssignmentWorker env db assignment workItemID workerID agentKey machineID = Inr (now, a', db')"
  obtains (same) "db' = db"
  | (moved) task step current workspaceIDs where
    "find (\<lambda>t. at_ID t = as_ChildAutomationTaskID assignment) (lt_tasks db) = Some task"
    "find (\<lambda>a. as_ID a = as_ID assignment \<and> as_ChildAutomationTaskID a = at_ID task) (ot_assignments db) = Some current"
    "find (\<lambda>s. st_ID s = as_DeliveryPlanStepID current) (pt_steps db) = Some step"
    "as_TargetMachineID current \<noteq> machineID" "now = ce_clock env 0"
    "failover env db task step current workspaceIDs workerID machineID now = Inr (a', db')"
proof -
  from assms obtain task current step workspaceIDs where
    f: "find (\<lambda>t. at_ID t = as_ChildAutomationTaskID assignment) (lt_tasks db) = Some task"
    "find (\<lambda>a. as_ID a = as_ID assignment \<and> as_ChildAutomationTaskID a = at_ID task) (ot_assignments db) = Some current"
    "find (\<lambda>s. st_ID s = as_DeliveryPlanStepID current) (pt_steps db) = Some step"
    and n: "now = ce_clock env 0"
    and m: "(if as_TargetMachineID current \<noteq> machineID
        then failover env db task step current workspaceIDs workerID machineID now else Inr (current, db)) = Inr (a', db')"
    by (auto simp: ValidateAssignmentWorker_def Let_def bindE_Inr_iff split: option.splits if_splits)
  show ?thesis
  proof (cases "as_TargetMachineID current \<noteq> machineID")
    case True
    with m show ?thesis by (intro moved [OF f True n]) simp
  next
    case False
    with m have "db' = db" by simp
    then show ?thesis by (rule same)
  qed
qed

text \<open>
  C25. An assignment changes hands only after its former holder is gone. If accepting a worker
  rewrites the assignments, the lease of the child task and the lease of the step have expired at
  the time of the call, every heartbeat of the former machine and profile is older than ninety
  seconds, and no assignment was added or removed.
\<close>

theorem failover_only_after_expiry:
  assumes ok: "ValidateAssignmentWorker env db assignment workItemID workerID agentKey machineID = Inr (now, a', db')"
    and changed: "ot_assignments db' \<noteq> ot_assignments db"
  shows "\<exists>task step current. task \<in> set (lt_tasks db) \<and> at_ID task = as_ChildAutomationTaskID assignment
     \<and> current \<in> set (ot_assignments db) \<and> as_ID current = as_ID assignment
     \<and> step \<in> set (pt_steps db) \<and> st_ID step = as_DeliveryPlanStepID current
     \<and> \<not> live_at (at_LeaseExpiresAt task) now \<and> \<not> live_at (st_LeaseExpiresAt step) now
     \<and> (\<forall>h \<in> set (ot_heartbeats db). hb_MachineID h = as_TargetMachineID current \<longrightarrow>
          hb_AgentKey h = as_TargetAgentKey current \<longrightarrow> hb_LastSeenAt h < now - 90 * second)
     \<and> map as_ID (ot_assignments db') = map as_ID (ot_assignments db)"
  using ok
proof (cases rule: worker_effect)
  case same
  with changed show ?thesis by simp
next
  case (moved task step current workspaceIDs)
  note f = failover_effect [OF moved(6)] and m = find_mem [OF moved(1)] find_mem [OF moved(2)] find_mem [OF moved(3)]
  have "map as_ID (ot_assignments db') = map as_ID (ot_assignments db)" by (simp add: f(5))
  with f m show ?thesis
    by (intro exI [of _ task] exI [of _ step] exI [of _ current]) (simp add: assignmentHeartbeatMaxAge_def)
qed

subsection \<open>Runs\<close>

text \<open>
  A run of the orchestration: executions are created under fresh identities, assignments are
  reserved and handed over, and other components change everything else and end assignments.
\<close>

inductive orch_step :: "'a orch_tables_scheme \<Rightarrow> 'a orch_tables_scheme \<Rightarrow> bool" where
  create: "CreateExecutionInTransaction env db parent plan limit key now = Inr (x, made, db') \<Longrightarrow>
     ce_newV4 env 0 \<notin> ex_ID ` set (ot_executions db) \<Longrightarrow> orch_step db db'"
| reserve: "ReserveReadyAssignmentsInTransaction env db executionID limit mapping now = Inr (result, db') \<Longrightarrow> orch_step db db'"
| worker: "ValidateAssignmentWorker env db assignment workItemID workerID agentKey machineID = Inr (t, a', db') \<Longrightarrow> orch_step db db'"
| finish: "\<not> isActiveAssignmentStatus st \<Longrightarrow>
     orch_step db (db\<lparr>ot_assignments := map (\<lambda>a. if as_ID a = i then a\<lparr>as_Status := st\<rparr> else a) (ot_assignments db)\<rparr>)"
| other: "distinct (map st_ID steps) \<Longrightarrow>
     orch_step db (db\<lparr>lt_tasks := tasks, pt_plans := plans, pt_steps := steps, ot_heartbeats := beats\<rparr>)"

definition orch_inv :: "'a orch_tables_scheme \<Rightarrow> bool" where
  "orch_inv db \<longleftrightarrow>
     distinct (map ex_ID (ot_executions db)) \<and> distinct (map st_ID (pt_steps db))
     \<and> (\<forall>x \<in> set (ot_executions db). active_count db (ex_ID x) \<le> ex_MaxConcurrency x)
     \<and> as_ExecutionID ` set (ot_assignments db) \<subseteq> ex_ID ` set (ot_executions db)
     \<and> distinct (map (\<lambda>a. (as_ExecutionID a, as_DeliveryPlanStepID a)) (ot_assignments db))"

lemma create_inv:
  assumes i: "orch_inv db" and c: "CreateExecutionInTransaction env db parent plan limit key now = Inr (x, made, db')"
    and fresh: "ce_newV4 env 0 \<notin> ex_ID ` set (ot_executions db)"
  shows "orch_inv db'"
proof (cases made)
  case True
  have c': "CreateExecutionInTransaction env db parent plan limit key now = Inr (x, True, db')" using c True by simp
  note e = create_effect [OF c']
  have "ex_ID x \<notin> as_ExecutionID ` set (ot_assignments db)" using fresh e(6) i by (auto simp: orch_inv_def)
  then have "active_count db' (ex_ID x) = 0" by (force simp: active_count_def e(1) filter_empty_conv)
  moreover have "active_count db' k = active_count db k" for k by (simp add: active_count_def e(1))
  ultimately show ?thesis using i e(5,6,7) fresh by (auto simp: orch_inv_def e(1))
next
  case False
  with c have "db' = db"
    by (auto simp: CreateExecutionInTransaction_def Let_def bindE_Inr_iff split: option.splits if_splits)
  with i show ?thesis by simp
qed

text \<open>A rewrite of assignments that keeps identities and does not activate a finished one.\<close>

lemma rewrite_inv:
  assumes i: "orch_inv db" and db': "db' = db\<lparr>ot_assignments := map f (ot_assignments db)\<rparr>"
    and f: "\<And>a. as_ExecutionID (f a) = as_ExecutionID a \<and> as_DeliveryPlanStepID (f a) = as_DeliveryPlanStepID a
      \<and> (isActiveAssignmentStatus (as_Status (f a)) \<longrightarrow> isActiveAssignmentStatus (as_Status a))"
  shows "orch_inv db'"
proof -
  have "length (filter (\<lambda>a. as_ExecutionID a = k \<and> isActiveAssignmentStatus (as_Status a)) (map f xs))
      \<le> length (filter (\<lambda>a. as_ExecutionID a = k \<and> isActiveAssignmentStatus (as_Status a)) xs)" for k xs
    by (induction xs) (use f in auto)
  then have "active_count db' k \<le> active_count db k" for k by (simp add: active_count_def db')
  then have "\<forall>x \<in> set (ot_executions db). active_count db' (ex_ID x) \<le> ex_MaxConcurrency x"
    using i unfolding orch_inv_def by (meson order_trans)
  moreover have "as_ExecutionID ` set (ot_assignments db') = as_ExecutionID ` set (ot_assignments db)"
    by (simp add: db' image_image f)
  moreover have "map (\<lambda>a. (as_ExecutionID a, as_DeliveryPlanStepID a)) (ot_assignments db')
      = map (\<lambda>a. (as_ExecutionID a, as_DeliveryPlanStepID a)) (ot_assignments db)"
    by (simp add: db' f)
  moreover have "ot_executions db' = ot_executions db" "pt_steps db' = pt_steps db" by (simp_all add: db')
  ultimately show ?thesis using i unfolding orch_inv_def by simp
qed

lemma worker_inv:
  assumes i: "orch_inv db"
    and w: "ValidateAssignmentWorker env db assignment workItemID workerID agentKey machineID = Inr (t, a', db')"
  shows "orch_inv db'"
  using w
proof (cases rule: worker_effect)
  case (moved task step current workspaceIDs)
  show ?thesis by (rule rewrite_inv [OF i failover_effect(5) [OF moved(6)]]) auto
qed (use i in simp)

lemma reserve_inv:
  assumes i: "orch_inv db"
    and r: "ReserveReadyAssignmentsInTransaction env db executionID limit mapping now0 = Inr (result, db')"
  shows "orch_inv db'"
  using r
proof (cases rule: reserve_effect)
  case (created execution workItemID steps targets now)
  define new where "new = map2 (new_assignment execution mapping targets now) (map (ce_newV4 env) [0..<length steps]) steps"
  note db' = created(10) [folded new_def]
  have x: "execution \<in> set (ot_executions db)" using find_mem [OF created(1)] by simp
  have st: "map (\<lambda>a. (as_ExecutionID a, as_DeliveryPlanStepID a)) new = map (\<lambda>s. (ex_ID execution, st_ID s)) steps"
    unfolding new_def by (rule nth_equalityI) simp_all
  have all: "\<forall>a \<in> set new. as_ExecutionID a = ex_ID execution \<and> isActiveAssignmentStatus (as_Status a)"
    unfolding new_def by (auto simp: set_zip)
  then have ex: "as_ExecutionID ` set new \<subseteq> {ex_ID execution}" by auto
  have act: "length (filter (\<lambda>a. as_ExecutionID a = k \<and> isActiveAssignmentStatus (as_Status a)) new)
      = (if k = ex_ID execution then length steps else 0)" for k
  proof (cases "k = ex_ID execution")
    case True
    with all have "filter (\<lambda>a. as_ExecutionID a = k \<and> isActiveAssignmentStatus (as_Status a)) new = new"
      by (simp add: filter_id_conv)
    moreover have "length new = length steps" by (simp add: new_def)
    ultimately show ?thesis using True by simp
  next
    case False
    with all have "filter (\<lambda>a. as_ExecutionID a = k \<and> isActiveAssignmentStatus (as_Status a)) new = []"
      by (auto simp: filter_empty_conv)
    with False show ?thesis by simp
  qed
  have count: "active_count db' k = active_count db k + (if k = ex_ID execution then int (length steps) else 0)" for k
    by (simp add: active_count_def db' act)
  have bound: "active_count db' (ex_ID y) \<le> ex_MaxConcurrency y" if y: "y \<in> set (ot_executions db)" for y
  proof (cases "ex_ID y = ex_ID execution")
    case True
    with i x y have "y = execution" by (metis orch_inv_def distinct_map inj_onD)
    with created(7) show ?thesis by (simp add: count)
  next
    case False
    with i y show ?thesis by (simp add: count orch_inv_def)
  qed
  have ds: "distinct (map st_ID steps)"
  proof -
    have "mset (map st_ID steps) \<subseteq># mset (map st_ID (pt_steps db))" using created(9) by (simp add: image_mset_subseteq_mono)
    moreover have "distinct (map st_ID (pt_steps db))" using i by (simp add: orch_inv_def)
    ultimately show ?thesis by (rule distinct_submset)
  qed
  have free: "(ex_ID execution, st_ID s) \<notin> (\<lambda>a. (as_ExecutionID a, as_DeliveryPlanStepID a)) ` set (ot_assignments db)"
    if "s \<in> set steps" for s
  proof -
    have "\<forall>a \<in> set (ot_assignments db). \<not> (as_ExecutionID a = ex_ID execution \<and> as_DeliveryPlanStepID a = st_ID s)"
      using created(8) that by (simp add: ready_step_def list_ex_iff)
    then show ?thesis by auto
  qed
  have "distinct (map (\<lambda>s. (ex_ID execution, st_ID s)) steps)" using ds by (auto simp: distinct_map inj_on_def)
  moreover have "set (map (\<lambda>a. (as_ExecutionID a, as_DeliveryPlanStepID a)) (ot_assignments db))
      \<inter> set (map (\<lambda>s. (ex_ID execution, st_ID s)) steps) = {}"
  proof (rule ccontr)
    assume "\<not> ?thesis"
    then obtain p q where "p \<in> (\<lambda>a. (as_ExecutionID a, as_DeliveryPlanStepID a)) ` set (ot_assignments db)"
      "q \<in> set steps" "p = (ex_ID execution, st_ID q)" unfolding set_map by fast
    with free [of q] show False by simp
  qed
  moreover have "distinct (map (\<lambda>a. (as_ExecutionID a, as_DeliveryPlanStepID a)) (ot_assignments db))"
    using i by (simp add: orch_inv_def)
  ultimately have "distinct (map (\<lambda>a. (as_ExecutionID a, as_DeliveryPlanStepID a)) (ot_assignments db @ new))"
    unfolding map_append st distinct_append by blast
  moreover have "as_ExecutionID ` set (ot_assignments db @ new) \<subseteq> ex_ID ` set (ot_executions db)"
    using i ex x unfolding set_append image_Un orch_inv_def by blast
  ultimately show ?thesis using i bound unfolding orch_inv_def by (simp add: db')
qed (use i in simp)

lemma orch_step_inv: "orch_step db db' \<Longrightarrow> orch_inv db \<Longrightarrow> orch_inv db'"
proof (induction rule: orch_step.induct)
  case (finish st db i)
  then show ?case by (intro rewrite_inv [OF finish(2) refl]) auto
next
  case (other steps db tasks plans beats)
  then show ?case by (simp add: orch_inv_def active_count_def)
qed (auto intro: create_inv reserve_inv worker_inv)

interpretation orch: invariant_system orch_step orch_inv
  by unfold_locales (rule orch_step_inv)

text \<open>
  C18. The concurrency limit holds in every state. From tables that satisfy it (for example without
  executions), after any sequence of creations, reservations, hand-overs and completions, every
  execution has at most as many active assignments as its limit, and no step is assigned twice in
  one execution.
\<close>

theorem execution_concurrency_is_bounded:
  assumes "orch_step\<^sup>*\<^sup>* db db'" "orch_inv db" "x \<in> set (ot_executions db')"
  shows "active_count db' (ex_ID x) \<le> ex_MaxConcurrency x
     \<and> distinct (map as_DeliveryPlanStepID (filter (\<lambda>a. as_ExecutionID a = ex_ID x) (ot_assignments db')))"
proof -
  have i: "orch_inv db'" by (rule orch.inv_run [OF assms(1,2)])
  have "inj_on (\<lambda>a. (as_ExecutionID a, as_DeliveryPlanStepID a)) (set (ot_assignments db'))" "distinct (ot_assignments db')"
    using i by (auto simp: orch_inv_def distinct_map)
  then have "distinct (map as_DeliveryPlanStepID (filter (\<lambda>a. as_ExecutionID a = ex_ID x) (ot_assignments db')))"
    by (auto simp: distinct_map inj_on_def)
  with i assms(3) show ?thesis by (simp add: orch_inv_def)
qed

subsection \<open>Machine slots\<close>

text \<open>The slots eligible heartbeats of a machine and profile offer at an instant.\<close>

definition ready_slots :: "orch_env \<Rightarrow> 'a orch_tables_scheme \<Rightarrow> string list \<Rightarrow> gotime \<Rightarrow> string \<times> string \<Rightarrow> int" where
  "ready_slots env db workspaceIDs now key =
     sum_list (map (\<lambda>r. hb_Concurrency (fst r)) (filter (\<lambda>r. row_key r = key)
       (filter (\<lambda>r. assignmentHeartbeatEligible env r workspaceIDs [] now)
         (heartbeat_rows db (\<lambda>h. now - assignmentHeartbeatMaxAge \<le> hb_LastSeenAt h \<and> \<not> hb_Draining h \<and> hb_MachineID h \<noteq> [])))))"

lemma candidates_of_keys: "map tc_Key (candidates_of db eligible) = sort (remdups (map row_key eligible))"
  by (simp add: candidates_of_def comp_def)

lemma resolve_effect:
  assumes "resolveAssignmentTargets env db workItemID steps now = Inr targets" "now \<noteq> 0"
  obtains workspaceIDs where "frozenLocalWorkspaceIDs db workItemID = Inr workspaceIDs"
    "mset (map fst targets) = mset (map st_ID steps)"
    "\<forall>t \<in> set targets. target_reservations db (snd t) + int (given (snd t) targets) \<le> ready_slots env db workspaceIDs now (snd t)"
proof -
  from assms obtain workspaceIDs where w: "frozenLocalWorkspaceIDs db workItemID = Inr workspaceIDs"
    and ne: "steps \<noteq> []"
    by (auto simp: resolveAssignmentTargets_def bindE_Inr_iff split: if_splits)
  define eligible where "eligible = filter (\<lambda>r. assignmentHeartbeatEligible env r workspaceIDs [] now)
    (heartbeat_rows db (\<lambda>h. now - assignmentHeartbeatMaxAge \<le> hb_LastSeenAt h \<and> \<not> hb_Draining h \<and> hb_MachineID h \<noteq> []))"
  have n: "normalizeNow now (ce_clock env 2) = now" using assms(2) by (simp add: normalizeNow_def)
  from assms(1) w ne have a: "allocateAssignmentTargets (ce_string env) steps (candidates_of db eligible) = Inr targets"
    by (auto simp: resolveAssignmentTargets_def Let_def n eligible_def bindE_Inr_iff split: if_splits)
  have d: "distinct (map tc_Key (candidates_of db eligible))" by (simp add: candidates_of_keys)
  note al = allocation_respected [OF d a]
  have "target_reservations db (snd t) + int (given (snd t) targets) \<le> ready_slots env db workspaceIDs now (snd t)"
    if t: "t \<in> set targets" for t
  proof -
    from al t obtain c where c: "c \<in> set (candidates_of db eligible)" "snd t = tc_Key c" by blast
    have "given (snd t) targets \<le> usable c" using al c by simp
    moreover have "0 < given (snd t) targets" using t by (auto simp: given_def filter_empty_conv)
    moreover have "tc_Capacity c = ready_slots env db workspaceIDs now (tc_Key c)" "tc_Reserved c = target_reservations db (tc_Key c)"
      using c(1) by (auto simp: candidates_of_def ready_slots_def eligible_def)
    ultimately show ?thesis using c(2) by (simp add: usable_def free_slots_def)
  qed
  with al show ?thesis using that [OF w] by blast
qed

lemma target_lookup:
  assumes m: "mset (map fst targets) = mset (map st_ID steps)" and d: "distinct (map st_ID steps)"
  shows "s \<in> set steps \<Longrightarrow> \<exists>t. map_of (rev targets) (st_ID s) = Some t \<and> (st_ID s, t) \<in> set targets"
    "length (filter (\<lambda>s. map_of (rev targets) (st_ID s) = Some k) steps) \<le> given k targets"
proof -
  show look: "\<exists>t. map_of (rev targets) (st_ID s) = Some t \<and> (st_ID s, t) \<in> set targets" if "s \<in> set steps" for s
  proof -
    have "st_ID s \<in> fst ` set targets" using that permuted_set [OF m] by auto
    then obtain t where "map_of (rev targets) (st_ID s) = Some t"
      by (cases "map_of (rev targets) (st_ID s)") (auto simp: map_of_eq_None_iff)
    then show ?thesis using map_of_SomeD by fastforce
  qed
  let ?S = "set (filter (\<lambda>s. map_of (rev targets) (st_ID s) = Some k) steps)"
  have "inj_on (\<lambda>s. (st_ID s, k)) ?S" using d by (auto simp: distinct_map inj_on_def)
  moreover have "(\<lambda>s. (st_ID s, k)) ` ?S \<subseteq> set (filter (\<lambda>t. snd t = k) targets)"
    using look by fastforce
  ultimately have "card ?S \<le> card (set (filter (\<lambda>t. snd t = k) targets))" by (metis card_inj_on_le finite_set)
  moreover have "card ?S = length (filter (\<lambda>s. map_of (rev targets) (st_ID s) = Some k) steps)"
    using d by (intro distinct_card) (simp add: distinct_map)
  moreover have "card (set (filter (\<lambda>t. snd t = k) targets)) \<le> given k targets"
    unfolding given_def by (rule card_length)
  ultimately show "length (filter (\<lambda>s. map_of (rev targets) (st_ID s) = Some k) steps) \<le> given k targets" by linarith
qed

lemma new_assignment_target:
  "map_of (rev targets) (st_ID s) = Some k \<Longrightarrow>
     (as_TargetMachineID (new_assignment execution mapping targets now i s), as_TargetAgentKey (new_assignment execution mapping targets now i s)) = k"
  by (simp add: new_assignment_def Let_def)

text \<open>
  C19. Machine slots are never oversubscribed by a reservation. After a successful reservation, the
  active assignments of all executions that target the machine and profile of a newly created
  assignment are at most the slots that the fresh, non-draining heartbeats of that machine and
  profile offer, counting only workers that have every frozen workspace ready.
\<close>

theorem reservation_respects_machine_slots:
  assumes r: "ReserveReadyAssignmentsInTransaction env db executionID limit mapping now0 = Inr (result, db')"
    and keys: "distinct (map st_ID (pt_steps db))" and now: "normalizeNow now0 (ce_clock env 0) \<noteq> 0"
    and a: "a \<in> set (drop (length (ot_assignments db)) (ot_assignments db'))"
  shows "\<exists>execution workItemID workspaceIDs. find (\<lambda>x. ex_ID x = executionID) (ot_executions db) = Some execution
     \<and> execution_work_item db execution = Some workItemID \<and> frozenLocalWorkspaceIDs db workItemID = Inr workspaceIDs
     \<and> target_reservations db' (as_TargetMachineID a, as_TargetAgentKey a)
        \<le> ready_slots env db workspaceIDs (normalizeNow now0 (ce_clock env 0)) (as_TargetMachineID a, as_TargetAgentKey a)"
  using r
proof (cases rule: reserve_effect)
  case none
  with a show ?thesis by simp
next
  case (created execution workItemID steps targets n)
  from resolve_effect [OF created(5)] created(4) now obtain workspaceIDs where
    w: "frozenLocalWorkspaceIDs db workItemID = Inr workspaceIDs" and m: "mset (map fst targets) = mset (map st_ID steps)"
    and slots: "\<forall>t \<in> set targets. target_reservations db (snd t) + int (given (snd t) targets) \<le> ready_slots env db workspaceIDs n (snd t)"
    by metis
  have "mset (map st_ID steps) \<subseteq># mset (map st_ID (pt_steps db))" using created(9) by (simp add: image_mset_subseteq_mono)
  from distinct_submset [OF this keys] have d: "distinct (map st_ID steps)" .
  note look = target_lookup [OF m d]
  let ?key = "\<lambda>a. (as_TargetMachineID a, as_TargetAgentKey a)"
  let ?mk = "new_assignment execution mapping targets n"
  define new where "new = map2 ?mk (map (ce_newV4 env) [0..<length steps]) steps"
  from a have "a \<in> set new" by (simp add: created(10) new_def)
  then obtain j where "j < length new" "a = new ! j" by (auto simp: in_set_conv_nth)
  then have j: "j < length steps" "a = ?mk (ce_newV4 env j) (steps ! j)" by (simp_all add: new_def)
  then obtain s i where s: "s \<in> set steps" "a = ?mk i s" using nth_mem by blast
  from look(1) [OF s(1)] obtain k where k: "map_of (rev targets) (st_ID s) = Some k" "(st_ID s, k) \<in> set targets" by blast
  have ka: "?key a = k" using new_assignment_target [OF k(1)] s(2) by simp
  have keys_new: "map ?key new = map (\<lambda>s. the (map_of (rev targets) (st_ID s))) steps"
    unfolding new_def
  proof (rule nth_equalityI)
    fix j assume "j < length (map ?key (map2 ?mk (map (ce_newV4 env) [0..<length steps]) steps))"
    then have j: "j < length steps" by simp
    from look(1) [OF nth_mem [OF j]] obtain t where "map_of (rev targets) (st_ID (steps ! j)) = Some t" by blast
    from new_assignment_target [OF this, of execution mapping n] this j
    show "map ?key (map2 ?mk (map (ce_newV4 env) [0..<length steps]) steps) ! j
        = map (\<lambda>s. the (map_of (rev targets) (st_ID s))) steps ! j" by simp
  qed simp
  have "length (filter (\<lambda>a. ?key a = k) new) = length (filter (\<lambda>x. x = k) (map ?key new))" by (simp add: filter_map comp_def)
  also have "\<dots> = length (filter (\<lambda>s. the (map_of (rev targets) (st_ID s)) = k) steps)"
    unfolding keys_new by (simp add: filter_map comp_def)
  also have "filter (\<lambda>s. the (map_of (rev targets) (st_ID s)) = k) steps = filter (\<lambda>s. map_of (rev targets) (st_ID s) = Some k) steps"
    using look(1) by (intro filter_cong) fastforce+
  also have "length \<dots> \<le> given k targets" by (rule look(2))
  finally have le: "length (filter (\<lambda>a. ?key a = k) new) \<le> given k targets" .
  have "length (filter (\<lambda>a. as_TargetMachineID a \<noteq> [] \<and> as_TargetAgentKey a \<noteq> [] \<and> isActiveAssignmentStatus (as_Status a) \<and> ?key a = k) new)
      \<le> length (filter (\<lambda>a. ?key a = k) new)"
    by (induction new) auto
  with le have "target_reservations db' k \<le> target_reservations db k + int (given k targets)"
    by (simp add: target_reservations_def created(10) new_def [symmetric])
  also have "\<dots> \<le> ready_slots env db workspaceIDs n k" using slots k(2) by force
  finally show ?thesis using w ka created(1,4,11) by auto
qed

end
