(* ===== verification/PlanExecutionRun.thy ===== *)
theory PlanExecutionRun
  imports PlanExecutionProps StepLeaseProps PlanInputProps
begin

text \<open>
  A run of the orchestration on a plan of one implementation step and its integration step: the
  execution is created, the ready step is reserved on the only machine with a slot, the machine
  falls silent and another one takes the assignment over. The properties of the orchestration
  are applied to it. The digest of the plan is kept symbolic.
\<close>

definition fan_env :: "gotime \<Rightarrow> orch_env" where
  "fan_env now =
     \<lparr>ce_locked = (\<lambda>_. False), ce_clock = (\<lambda>_. now), ce_newV4 = (\<lambda>n. of_nat (n + 100)), ce_instance = None,
      ce_fromString = (\<lambda>s. case s of [] \<Rightarrow> None | c # _ \<Rightarrow> Some (of_nat (of_char c))),
      ce_string = (\<lambda>u. [char_of (unat u)]),
      oe_decodeRequirements = (\<lambda>_. Some []),
      oe_decodeStrings = (\<lambda>s. if s = ''ops'' then Some [''delivery.implementation'']
        else if s = ''criteria'' then Some [''lists orders'']
        else if s = ''protocols'' then Some [''delivery.plan_steps.v1''] else Some []),
      oe_decodeReadiness = (\<lambda>_. Some [\<lparr>wr_ID = ''repo'', wr_Ready = True, wr_SandboxReady = True, wr_IsolationMode = ''docker_container''\<rparr>]),
      oe_iter = id\<rparr>"

definition fan_beat :: "string \<Rightarrow> string \<Rightarrow> gotime \<Rightarrow> agent_heartbeat" where
  "fan_beat worker machine seen =
     \<lparr>hb_WorkerID = worker, hb_AgentKey = ''coder'', hb_MachineID = machine, hb_AgentInstanceID = None, hb_Concurrency = 1,
      hb_Draining = False, hb_CapabilitiesJSON = ''[]'', hb_ProtocolsJSON = ''protocols'', hb_WorkspaceReadiness = ''[]'',
      hb_LastSeenAt = seen\<rparr>"

definition fan_task :: "uuid \<Rightarrow> automation_task" where
  "fan_task i =
     \<lparr>at_ID = i, at_DeliveryWorkItemID = Some 60, at_WorkerID = [], at_AgentKey = [], at_MachineID = [],
      at_Status = ''pending'', at_RunID = [], at_LeaseExpiresAt = None\<rparr>"

definition fan_db :: orch_tables where
  "fan_db =
     \<lparr>pt_plans = pt_plans example_db,
      pt_steps = [(example_row 1 ''api'' 1)\<lparr>st_AcceptanceCriteriaJSON := ''criteria''\<rparr>,
        (example_row 2 ''ship'' 2)\<lparr>st_AcceptanceCriteriaJSON := ''criteria'', st_Role := ''integration''\<rparr>],
      pt_dependencies = pt_dependencies example_db, lt_tasks = [fan_task 81, fan_task 83], lt_events = [],
      ot_gates = [\<lparr>g_ID = 70, g_WorkItemID = 60, g_Kind = GatePlan, g_Decision = DecisionApproved,
        g_Authority = ''human'', g_DecidedBy = ''pm'', g_DecidedAt = 1\<rparr>],
      ot_workItemProjects = [(60, 61)], ot_projects = [\<lparr>pj_ID = 61, pj_ClientID = 62\<rparr>],
      ot_snapshots = [\<lparr>sn_WorkItemID = 60, sn_Kind = ''repository'', sn_Reference = ''workspace://repo''\<rparr>],
      ot_heartbeats = [fan_beat ''w'' ''m'' minute],
      ot_profiles = [\<lparr>ap_AgentKey = ''coder'', ap_OperationsJSON = ''ops'', ap_Active = True\<rparr>],
      ot_executions = [], ot_assignments = []\<rparr>"

definition fan_snapshot :: "delivery_plan \<times> plan_step list \<times> step_dependency list" where
  "fan_snapshot = projr (loadApprovedExecutionSnapshot fan_db (fan_task 81) 50)"

definition fan_hash :: string where
  "fan_hash = projr (plan_hash (fan_env minute) fan_snapshot)"

definition fan_execution :: "string \<Rightarrow> plan_execution" where
  "fan_execution hash =
     \<lparr>ex_ID = 100, ex_AutomationTaskID = 81, ex_IdempotencyKey = ''k'', ex_PlanID = 50, ex_PlanVersion = 1,
      ex_ApprovedGateID = 70, ex_PlanHash = hash, ex_MaxConcurrency = 1, ex_Status = DeliveryPlanExecutionPending,
      ex_DispatchedAt = None, ex_StartedAt = None, ex_CompletedAt = None, ex_CreatedAt = minute, ex_UpdatedAt = minute\<rparr>"

definition fan_db1 :: "string \<Rightarrow> orch_tables" where
  "fan_db1 hash = fan_db\<lparr>ot_executions := [fan_execution hash]\<rparr>"

lemma snapshot_tables:
  "pt_plans db' = pt_plans db \<Longrightarrow> ot_gates db' = ot_gates db \<Longrightarrow> pt_steps db' = pt_steps db \<Longrightarrow>
     pt_dependencies db' = pt_dependencies db \<Longrightarrow>
     loadApprovedExecutionSnapshot db' parent planID = loadApprovedExecutionSnapshot db parent planID"
  unfolding loadApprovedExecutionSnapshot_def by (simp only:)

lemma fan_snapshot_load:
  "loadApprovedExecutionSnapshot fan_db (fan_task 81) 50 = Inr fan_snapshot"
  "loadApprovedExecutionSnapshot (fan_db1 hash) (fan_task 81) 50 = Inr fan_snapshot"
proof -
  have "isOk (loadApprovedExecutionSnapshot fan_db (fan_task 81) 50)" by code_simp
  then show l: "loadApprovedExecutionSnapshot fan_db (fan_task 81) 50 = Inr fan_snapshot"
    unfolding fan_snapshot_def by (rule projr_Inr)
  show "loadApprovedExecutionSnapshot (fan_db1 hash) (fan_task 81) 50 = Inr fan_snapshot"
    using l snapshot_tables [of "fan_db1 hash" fan_db] by (simp add: fan_db1_def)
qed

lemma isOk_plan_hash:
  "isOk (plan_hash env (plan, steps, dependencies)) \<longleftrightarrow>
     isOk (approvedPlanRows (oe_decodeRequirements env) (oe_decodeStrings env) (ce_string env) (oe_iter env) plan steps dependencies)"
  unfolding isOk_ApprovedPlanContentHash [symmetric] by (auto simp: plan_hash_def isOk_iff split: sum.splits)

lemma fan_plan_hash: "plan_hash (fan_env minute) fan_snapshot = Inr fan_hash"
proof -
  have "isOk (approvedPlanRows (oe_decodeRequirements (fan_env minute)) (oe_decodeStrings (fan_env minute))
      (ce_string (fan_env minute)) (oe_iter (fan_env minute)) (fst fan_snapshot) (fst (snd fan_snapshot)) (snd (snd fan_snapshot)))"
    by code_simp
  then have "isOk (plan_hash (fan_env minute) fan_snapshot)"
    using isOk_plan_hash [of "fan_env minute" "fst fan_snapshot" "fst (snd fan_snapshot)" "snd (snd fan_snapshot)"]
    by (simp only: prod.collapse)
  then show ?thesis unfolding fan_hash_def by (rule projr_Inr)
qed

lemma fan_create:
  "CreateExecutionInTransaction (fan_env minute) fan_db 81 50 1 ''k'' 0 = Inr (fan_execution fan_hash, True, fan_db1 fan_hash)"
proof -
  have f: "TrimSpace ''k'' = ''k''" "normalizeNow 0 (ce_clock (fan_env minute) 0) = minute"
    "\<not> hasLiveUnassignedPlanStepLease fan_db (dp_ID (fst fan_snapshot)) (ce_clock (fan_env minute) 1)" by code_simp+
  have p: "(dp_ID (fst fan_snapshot), dp_Version (fst fan_snapshot), dp_ApprovedGateID (fst fan_snapshot)) = (50, 1, Some 70)"
    by code_simp
  have t: "find (\<lambda>t. at_ID t = 81) (lt_tasks fan_db) = Some (fan_task 81)" "ot_executions fan_db = []"
    by (simp_all add: fan_db_def fan_task_def)
  have g: "at_DeliveryWorkItemID (fan_task 81) = Some 60" "at_ID (fan_task 81) = 81" "ce_newV4 (fan_env minute) 0 = 100"
    by (simp_all add: fan_task_def fan_env_def)
  show ?thesis
    unfolding CreateExecutionInTransaction_def Let_def f(1,2) t
    using f(3) p by (simp add: g fan_snapshot_load fan_plan_hash fan_execution_def fan_db1_def t DeliveryPlanExecutionMaxConcurrency_def)
qed

definition fan_mapping :: "(uuid \<times> uuid) list" where "fan_mapping = [(1, 83)]"

definition fan_result :: "string \<Rightarrow> orch_error + step_assignment list \<times> orch_tables" where
  "fan_result hash = reserve_steps (fan_env minute) (fan_db1 hash) (fan_execution hash) 60 1 fan_mapping [1] minute"

definition fan_db2 :: "string \<Rightarrow> orch_tables" where "fan_db2 hash = snd (projr (fan_result hash))"

lemma fan_reserved: "isOk (fan_result hash)" "map as_TargetMachineID (ot_assignments (fan_db2 hash)) = [''m'']"
  by code_simp+

lemma fan_reserve:
  "ReserveReadyAssignmentsInTransaction (fan_env minute) (fan_db1 fan_hash) 100 1 fan_mapping 0
     = Inr (fst (projr (fan_result fan_hash)), fan_db2 fan_hash)"
proof -
  let ?s = "\<lparr>sc_TaskID = 81, sc_WorkItemID = 60, sc_ProjectID = 61, sc_ClientID = 62\<rparr>"
  have f: "normalizeNow 0 (ce_clock (fan_env minute) 0) = minute" by code_simp
  have x: "valid_concurrency (fan_execution fan_hash)" "live_execution (fan_execution fan_hash)" "ex_ID (fan_execution fan_hash) = 100"
    "ex_AutomationTaskID (fan_execution fan_hash) = 81" "ex_PlanID (fan_execution fan_hash) = 50"
    "ex_PlanHash (fan_execution fan_hash) = fan_hash" "ex_PlanVersion (fan_execution fan_hash) = 1"
    "ex_ApprovedGateID (fan_execution fan_hash) = 70"
    by (simp_all add: fan_execution_def valid_concurrency_def live_execution_def DeliveryPlanExecutionMaxConcurrency_def)
  have t: "find (\<lambda>t. at_ID t = 81) (lt_tasks (fan_db1 hash)) = Some (fan_task 81)" "ot_executions (fan_db1 hash) = [fan_execution hash]"
    "loadTaskOrganizationScope (fan_db1 hash) 81 = Some ?s" "validateChildTaskScopes (fan_db1 hash) ?s [83] = Inr ()"
    "at_ID (fan_task 81) = 81" "at_DeliveryWorkItemID (fan_task 81) = Some 60" for hash
    by (simp_all add: fan_db1_def fan_db_def fan_task_def loadTaskOrganizationScope_def)
  have m: "normalizeStepTaskMapping (ce_string (fan_env minute)) fan_mapping = Inr [1]" "childTask fan_mapping 1 = 83"
    "length fan_mapping = 1" by code_simp+
  have p: "(dp_Version (fst fan_snapshot), dp_ApprovedGateID (fst fan_snapshot)) = (1, Some 70)" by code_simp
  have "fan_mapping \<noteq> []" using m(3) by auto
  then have "ReserveReadyAssignmentsInTransaction (fan_env minute) (fan_db1 fan_hash) 100 1 fan_mapping 0 = fan_result fan_hash"
    using p unfolding ReserveReadyAssignmentsInTransaction_def Let_def f
    by (simp add: m t x fan_snapshot_load fan_plan_hash fan_result_def DeliveryPlanExecutionMaxConcurrency_def
        del: validateChildTaskScopes.simps)
  then show ?thesis using projr_Inr [OF fan_reserved(1)] by (simp add: fan_db2_def)
qed

lemma fan_run: "orch_step\<^sup>*\<^sup>* fan_db (fan_db2 fan_hash)"
proof -
  have "orch_step fan_db (fan_db1 fan_hash)" by (rule orch_step.create [OF fan_create]) (simp add: fan_db_def)
  moreover have "orch_step (fan_db1 fan_hash) (fan_db2 fan_hash)" by (rule orch_step.reserve [OF fan_reserve])
  ultimately show ?thesis by (meson converse_rtranclp_into_rtranclp rtranclp.rtrancl_refl)
qed

theorem create_execution_idempotent_witness:
  "CreateExecutionInTransaction (fan_env (5 * minute)) (fan_db1 fan_hash) 81 50 1 '' k'' 0
     = Inr (fan_execution fan_hash, False, fan_db1 fan_hash)
   \<and> CreateExecutionInTransaction (fan_env (5 * minute)) (fan_db1 fan_hash) 81 50 2 ''k'' 0 = Inl ErrPlanExecutionConflict"
proof -
  have t: "TrimSpace ''k'' = ''k''" "TrimSpace '' k'' = ''k''" by code_simp+
  show ?thesis
    using create_execution_idempotent [OF fan_create, of 50 1 "'' k''" "fan_env (5 * minute)" 0]
      create_execution_idempotent [OF fan_create, of 50 2 "''k''" "fan_env (5 * minute)" 0]
    by (simp add: t DeliveryPlanExecutionMaxConcurrency_def)
qed

theorem execution_concurrency_is_bounded_witness:
  "active_count (fan_db2 fan_hash) 100 = 1 \<and> active_count (fan_db2 fan_hash) 100 \<le> ex_MaxConcurrency (fan_execution fan_hash)"
proof -
  have x: "fan_execution hash \<in> set (ot_executions (fan_db2 hash))" "ex_ID (fan_execution hash) = 100" for hash
    by code_simp+
  have c: "active_count (fan_db2 hash) 100 = 1" for hash by code_simp
  have i: "orch_inv fan_db" by (simp add: orch_inv_def fan_db_def example_row_def)
  from execution_concurrency_is_bounded [OF fan_run i x(1)] x(2) c show ?thesis by simp
qed

theorem reservation_respects_machine_slots_witness:
  "\<exists>workspaceIDs. target_reservations (fan_db2 fan_hash) (''m'', ''coder'')
     \<le> ready_slots (fan_env minute) (fan_db1 fan_hash) workspaceIDs minute (''m'', ''coder'')"
proof -
  have d: "distinct (map st_ID (pt_steps (fan_db1 hash)))" "normalizeNow 0 (ce_clock (fan_env minute) 0) = minute" "minute \<noteq> 0"
    "length (ot_assignments (fan_db1 hash)) = 0"
    "map (\<lambda>a. (as_TargetMachineID a, as_TargetAgentKey a)) (ot_assignments (fan_db2 hash)) = [(''m'', ''coder'')]" for hash
    by code_simp+
  from d(5) obtain a where a: "ot_assignments (fan_db2 fan_hash) = [a]" "as_TargetMachineID a = ''m''" "as_TargetAgentKey a = ''coder''"
    by (auto simp: map_eq_Cons_conv)
  from reservation_respects_machine_slots [OF fan_reserve d(1), of a] d(2,3,4) a show ?thesis by auto
qed

text \<open>Four minutes later the first machine is silent and another one reports.\<close>

definition fan_assignment :: step_assignment where
  "fan_assignment =
     \<lparr>as_ID = 100, as_ExecutionID = 100, as_DeliveryPlanStepID = 1, as_ChildAutomationTaskID = 83,
      as_TargetMachineID = ''m'', as_TargetAgentKey = ''coder'', as_Status = DeliveryPlanStepAssignmentPending,
      as_QueuedAt = None, as_DispatchedAt = None, as_StartedAt = None, as_CompletedAt = None, as_CreatedAt = minute,
      as_UpdatedAt = minute\<rparr>"

definition fan_db3 :: orch_tables where
  "fan_db3 = fan_db\<lparr>ot_assignments := [fan_assignment],
     ot_heartbeats := [fan_beat ''w'' ''m'' minute, fan_beat ''x'' ''n'' (5 * minute)]\<rparr>"

theorem failover_only_after_expiry_witness:
  "\<exists>current. current \<in> set (ot_assignments fan_db3) \<and> as_TargetMachineID current = ''m''
     \<and> (\<forall>h \<in> set (ot_heartbeats fan_db3). hb_MachineID h = ''m'' \<longrightarrow> hb_AgentKey h = ''coder'' \<longrightarrow> hb_LastSeenAt h < 5 * minute - 90 * second)"
proof -
  let ?v = "ValidateAssignmentWorker (fan_env (5 * minute)) fan_db3 fan_assignment 60 ''x'' ''coder'' ''n''"
  have v: "isOk ?v" by code_simp
  have w: "(fst (projr ?v), map as_TargetMachineID (ot_assignments (snd (snd (projr ?v))))) = (5 * minute, [''n''])" by code_simp
  have t: "map (\<lambda>a. (as_TargetMachineID a, as_TargetAgentKey a)) (ot_assignments fan_db3) = [(''m'', ''coder'')]" by code_simp+
  from v w obtain a' db' where ok: "?v = Inr (5 * minute, a', db')" "db' = snd (snd (projr ?v))"
    by (metis prod.collapse prod.inject projr_Inr)
  from w t ok(2) have "ot_assignments db' \<noteq> ot_assignments fan_db3" by auto
  from failover_only_after_expiry [OF ok(1) this] obtain current where
    c: "current \<in> set (ot_assignments fan_db3)"
    "\<forall>h \<in> set (ot_heartbeats fan_db3). hb_MachineID h = as_TargetMachineID current \<longrightarrow>
       hb_AgentKey h = as_TargetAgentKey current \<longrightarrow> hb_LastSeenAt h < 5 * minute - 90 * second" by blast
  from t c(1) have "as_TargetMachineID current = ''m''" "as_TargetAgentKey current = ''coder''"
    by (auto simp: map_eq_Cons_conv)
  with c show ?thesis by (intro exI [of _ current]) simp
qed

subsection \<open>Two machines and two steps\<close>

definition slot_candidates :: "target_candidate list" where
  "slot_candidates = [\<lparr>tc_Key = (''m'', ''coder''), tc_Capacity = 2, tc_Reserved = 1\<rparr>,
     \<lparr>tc_Key = (''n'', ''writer''), tc_Capacity = 1, tc_Reserved = 0\<rparr>]"

definition slot_steps :: "plan_step list" where
  "slot_steps = [example_row 1 ''api'' 1, (example_row 2 ''docs'' 2)\<lparr>st_AgentKey := ''coder''\<rparr>]"

lemma slot_keys: "distinct (map tc_Key slot_candidates)"
  by code_simp

theorem allocation_succeeds_iff_enough_slots_witness:
  "isOk (allocateAssignmentTargets (\<lambda>_. []) slot_steps slot_candidates)
   \<and> demand ''coder'' slot_steps \<le> slot_supply ''coder'' slot_candidates"
proof -
  have ok: "isOk (allocateAssignmentTargets (\<lambda>_. []) slot_steps slot_candidates)" by code_simp
  with allocation_succeeds_iff_enough_slots [OF slot_keys] show ?thesis by simp
qed

theorem allocation_never_oversubscribes_witness:
  "\<exists>targets. allocateAssignmentTargets (\<lambda>_. []) slot_steps slot_candidates = Inr targets
     \<and> given (''m'', ''coder'') targets \<le> usable (slot_candidates ! 0)"
proof -
  have ok: "isOk (allocateAssignmentTargets (\<lambda>_. []) slot_steps slot_candidates)"
    "tc_Key (slot_candidates ! 0) = (''m'', ''coder'')" "0 < length slot_candidates" by code_simp+
  from allocation_never_oversubscribes [OF slot_keys projr_Inr [OF ok(1)]] ok nth_mem [OF ok(3)] projr_Inr [OF ok(1)]
  show ?thesis by metis
qed

end
