(* ===== verification/ReleaseGate.thy ===== *)
theory ReleaseGate
  imports GoHash
begin

text \<open>
  internal/releasegate/gate.go: the decision whether a coordinated set of repository revisions may
  be merged or released. \<open>Evaluate\<close> collects one reason for every piece of evidence that is missing,
  malformed, stale, contradictory or failed, and allows the action when there is none. The digests
  that bind an approval to its subject are the SHA-256 of the canonical JSON of sorted evidence.
  The decoding of the input document is not part of this theory.
\<close>

subsection \<open>Evidence\<close>

type_synonym gate_action = string
type_synonym evidence_status = string
type_synonym recovery_classification = string

definition GateSchemaVersion :: int where "GateSchemaVersion = 3"

definition ActionMerge :: gate_action where "ActionMerge = ''merge''"
definition ActionRelease :: gate_action where "ActionRelease = ''release''"

definition StatusPassed :: evidence_status where "StatusPassed = ''passed''"
definition StatusFailed :: evidence_status where "StatusFailed = ''failed''"

definition RecoveryRollback :: recovery_classification where "RecoveryRollback = ''rollback''"
definition RecoveryRollForward :: recovery_classification where "RecoveryRollForward = ''roll_forward''"
definition RecoveryExpandContract :: recovery_classification where "RecoveryExpandContract = ''expand_contract''"
definition RecoveryIrreversible :: recovery_classification where "RecoveryIrreversible = ''irreversible''"

record gate_revision =
  rv_Repository :: string
  rv_Branch :: string
  rv_SHA :: string

record repository_policy =
  rp_Repository :: string
  rp_Digest :: string
  rp_Resolved :: bool
  rp_ActionAllowed :: bool
  rp_BranchAllowed :: bool

record gate_policy =
  gp_Resolved :: bool
  gp_Digest :: string
  gp_RequiredTestKinds :: "string list"
  gp_Repositories :: "repository_policy list"

record required_check =
  rc_Name :: string
  rc_IntegrationID :: int

record branch_evidence =
  be_Repository :: string
  be_HeadSHA :: string
  be_Mergeable :: bool
  be_ConflictFree :: bool
  be_ProtectionEvaluated :: bool
  be_Protected :: bool
  be_RequiredChecks :: "required_check list"

record check_evidence =
  ck_Repository :: string
  ck_Name :: string
  ck_IntegrationID :: int
  ck_HeadSHA :: string
  ck_Status :: evidence_status

record review_evidence =
  re_Repository :: string
  re_HeadSHA :: string
  re_AuthorActor :: string
  re_ReviewerActor :: string
  re_Approved :: bool
  re_BlockingChangeRequests :: int

record vault_evidence =
  ve_Repository :: string
  ve_HeadSHA :: string
  ve_RevisionID :: string
  ve_Reconciled :: bool

record test_evidence =
  te_Kind :: string
  te_MatrixDigest :: string
  te_Status :: evidence_status

record security_evidence =
  se_Repository :: string
  se_HeadSHA :: string
  se_SecretScanPassed :: bool
  se_HighFindings :: int
  se_CriticalFindings :: int

record matrix_evidence =
  me_MatrixDigest :: string
  me_Status :: evidence_status

record recovery_evidence =
  ry_MatrixDigest :: string
  ry_Classification :: recovery_classification
  ry_Evaluated :: bool
  ry_HumanApproved :: bool

record human_approval =
  ha_Actor :: string
  ha_ActorType :: string
  ha_SubjectDigest :: string
  ha_Approved :: bool

record gate_input =
  gi_SchemaVersion :: int
  gi_Action :: gate_action
  gi_ChangeSetID :: string
  gi_Revisions :: "gate_revision list"
  gi_Policy :: gate_policy
  gi_Branches :: "branch_evidence list"
  gi_Checks :: "check_evidence list"
  gi_Reviews :: "review_evidence list"
  gi_Vault :: "vault_evidence list"
  gi_Tests :: "test_evidence list"
  gi_Security :: "security_evidence list"
  gi_Compatibility :: matrix_evidence
  gi_Migrations :: matrix_evidence
  gi_Dependencies :: matrix_evidence
  gi_Environment :: matrix_evidence
  gi_Recovery :: recovery_evidence
  gi_HumanApproval :: "human_approval option"

datatype gate_reason = Reason (rs_Code: string) (rs_Repository: string) (rs_Evidence: string)

record gate_decision =
  gd_SchemaVersion :: int
  gd_Action :: gate_action
  gd_ChangeSetID :: string
  gd_MatrixDigest :: string
  gd_PolicyDigest :: string
  gd_VaultDigest :: string
  gd_RequirementsDigest :: string
  gd_SubjectDigest :: string
  gd_State :: string
  gd_Reasons :: "gate_reason list"

datatype gate_error = SizeInvalid | EvidenceInvalid | RepositoryDuplicated

subsection \<open>Validators\<close>

definition changeSetPattern :: "string \<Rightarrow> bool" where
  "changeSetPattern = head_tail_match alnum_char (\<lambda>c. alnum_char c \<or> c \<in> set ''_.:-'') 127"

definition repositoryPartPattern :: "string \<Rightarrow> bool" where
  "repositoryPartPattern s = (s \<noteq> [] \<and> list_all (\<lambda>c. alnum_char c \<or> c \<in> set ''_.-'') s)"

definition evidenceNamePattern :: "string \<Rightarrow> bool" where
  "evidenceNamePattern = head_tail_match alnum_char (\<lambda>c. alnum_char c \<or> c \<in> set '' _./:+-'') 127"

definition validRepository :: "string \<Rightarrow> bool" where
  "validRepository s =
     (case Split s (CHR ''/'') of
        [owner, name] \<Rightarrow> repositoryPartPattern owner \<and> repositoryPartPattern name
      | _ \<Rightarrow> False)"

definition validBranch :: "string \<Rightarrow> bool" where
  "validBranch s =
     (s \<noteq> [] \<and> length s \<le> 255 \<and> \<not> HasPrefix s ''/'' \<and> \<not> HasSuffix s ''/'' \<and> \<not> HasSuffix s ''.''
      \<and> \<not> HasSuffix s ''.lock'' \<and> \<not> ContainsAny s ('' ~^:?*['' @ [CHR 0x5C]) \<and> \<not> Contains s ''..'' \<and> \<not> Contains s [CHR ''@'', CHR ''{'']
      \<and> \<not> Contains s ''//'' \<and> \<not> Contains s ''/.'' \<and> \<not> list_ex control_char s)"

definition validSHA :: "string \<Rightarrow> bool" where
  "validSHA s = ((length s = 40 \<or> length s = 64) \<and> hex_decodable s)"

definition validDigest :: "string \<Rightarrow> bool" where
  "validDigest s = (let v = ToLower (TrimSpace s) in length v = 64 \<and> hex_decodable v)"

definition equalSHA :: "string \<Rightarrow> string \<Rightarrow> bool" where
  "equalSHA l r = (EqualFold (TrimSpace l) (TrimSpace r) \<and> validSHA (ToLower (TrimSpace l)))"

definition equalDigest :: "string \<Rightarrow> string \<Rightarrow> bool" where
  "equalDigest l r = (ToLower (TrimSpace l) = ToLower (TrimSpace r) \<and> validDigest (ToLower (TrimSpace l)))"

definition independentActors :: "string \<Rightarrow> string \<Rightarrow> bool" where
  "independentActors author reviewer =
     (TrimSpace author \<noteq> [] \<and> TrimSpace reviewer \<noteq> [] \<and> \<not> EqualFold (TrimSpace author) (TrimSpace reviewer))"

fun uniqueNames :: "string list \<Rightarrow> string list \<Rightarrow> bool" where
  "uniqueNames seen [] = True"
| "uniqueNames seen (v # vs) =
     (let value = TrimSpace v; key = ToLower value
      in if \<not> evidenceNamePattern value then False
         else if key \<in> set seen then False
         else uniqueNames (seen @ [key]) vs)"

definition validUniqueNames :: "string list \<Rightarrow> bool" where
  "validUniqueNames = uniqueNames []"

text \<open>The key of a required check: its name and the decimal text of its integration.\<close>

definition check_key :: "string \<Rightarrow> int \<Rightarrow> string" where
  "check_key name integration = ToLower name @ [CHR 0x00] @ show_int integration"

fun requiredChecks :: "string list \<Rightarrow> required_check list \<Rightarrow> bool" where
  "requiredChecks seen [] = True"
| "requiredChecks seen (v # vs) =
     (let name = TrimSpace (rc_Name v); key = check_key name (rc_IntegrationID v)
      in if name \<noteq> rc_Name v \<or> \<not> evidenceNamePattern name \<or> rc_IntegrationID v < 0 then False
         else if key \<in> set seen then False
         else requiredChecks (seen @ [key]) vs)"

definition validRequiredChecks :: "required_check list \<Rightarrow> bool" where
  "validRequiredChecks = requiredChecks []"

subsection \<open>Loops over evidence\<close>

text \<open>
  The loop of the digest functions: each value must be valid and its key new, and its normal form
  is appended.
\<close>

fun collect ::
  "('a \<Rightarrow> bool) \<Rightarrow> ('a \<Rightarrow> string) \<Rightarrow> ('a \<Rightarrow> 'b) \<Rightarrow> string list \<Rightarrow> 'a list \<Rightarrow> gate_error + 'b list" where
  "collect valid key norm seen [] = Inr []"
| "collect valid key norm seen (v # vs) =
     (if \<not> valid v then Inl EvidenceInvalid
      else if key v \<in> set seen then Inl RepositoryDuplicated
      else bindE (collect valid key norm (seen @ [key v]) vs) (\<lambda>ns. Inr (norm v # ns)))"

text \<open>
  The loop of the \<open>unique\<close> functions: a map of the valid values, the first of each key, and a
  reason for every other value.
\<close>

fun unique_loop ::
  "('a \<Rightarrow> bool) \<Rightarrow> ('a \<Rightarrow> string) \<Rightarrow> ('a \<Rightarrow> gate_reason) \<Rightarrow> ('a \<Rightarrow> gate_reason) \<Rightarrow> (string \<times> 'a) list \<Rightarrow> 'a list
     \<Rightarrow> (string \<times> 'a) list \<times> gate_reason list" where
  "unique_loop valid key invalid dup m [] = (m, [])"
| "unique_loop valid key invalid dup m (v # vs) =
     (if \<not> valid v then map_prod id (Cons (invalid v)) (unique_loop valid key invalid dup m vs)
      else if key v \<in> fst ` set m then map_prod id (Cons (dup v)) (unique_loop valid key invalid dup m vs)
      else unique_loop valid key invalid dup (m @ [(key v, v)]) vs)"

subsection \<open>Digests\<close>

definition revision_json :: "gate_revision \<Rightarrow> json" where
  "revision_json r = JObj [(''repository'', JStr (rv_Repository r)), (''branch'', JStr (rv_Branch r)), (''sha'', JStr (rv_SHA r))]"

definition repository_policy_json :: "repository_policy \<Rightarrow> json" where
  "repository_policy_json p =
     JObj [(''repository'', JStr (rp_Repository p)), (''digest'', JStr (rp_Digest p)), (''resolved'', JBool (rp_Resolved p)),
       (''action_allowed'', JBool (rp_ActionAllowed p)), (''branch_allowed'', JBool (rp_BranchAllowed p))]"

definition vault_json :: "vault_evidence \<Rightarrow> json" where
  "vault_json v =
     JObj [(''repository'', JStr (ve_Repository v)), (''head_sha'', JStr (ve_HeadSHA v)),
       (''revision_id'', JStr (ve_RevisionID v)), (''reconciled'', JBool (ve_Reconciled v))]"

definition required_check_json :: "required_check \<Rightarrow> json" where
  "required_check_json c =
     JObj ((''name'', JStr (rc_Name c)) #
       (if rc_IntegrationID c = 0 then [] else [(''integration_id'', JInt (rc_IntegrationID c))]))"

text \<open>A slice that was appended to nil: \<open>null\<close> when it is empty.\<close>

definition nil_slice :: "json list \<Rightarrow> json" where
  "nil_slice xs = (if xs = [] then JNull else JArr xs)"

definition requirement_digest_json :: "branch_evidence \<Rightarrow> json" where
  "requirement_digest_json b =
     JObj [(''repository'', JStr (be_Repository b)), (''head_sha'', JStr (be_HeadSHA b)),
       (''protection_evaluated'', JBool (be_ProtectionEvaluated b)), (''protected'', JBool (be_Protected b)),
       (''required_checks'', nil_slice (map required_check_json (be_RequiredChecks b)))]"

definition digest_of :: "('a \<Rightarrow> json) \<Rightarrow> 'a list \<Rightarrow> string" where
  "digest_of enc xs = sha256_hex (json_encode (JArr (map enc xs)))"

definition valid_revision :: "gate_revision \<Rightarrow> bool" where
  "valid_revision r =
     (validRepository (TrimSpace (rv_Repository r)) \<and> validBranch (TrimSpace (rv_Branch r))
      \<and> validSHA (ToLower (TrimSpace (rv_SHA r))))"

definition normal_revision :: "gate_revision \<Rightarrow> gate_revision" where
  "normal_revision r =
     \<lparr>rv_Repository = TrimSpace (rv_Repository r), rv_Branch = TrimSpace (rv_Branch r),
      rv_SHA = ToLower (TrimSpace (rv_SHA r))\<rparr>"

definition normalizeRevisions :: "gate_revision list \<Rightarrow> gate_error + gate_revision list" where
  "normalizeRevisions revisions =
     (if revisions = [] \<or> length revisions > 64 then Inl SizeInvalid
      else bindE (collect valid_revision (\<lambda>r. ToLower (TrimSpace (rv_Repository r))) normal_revision [] revisions)
        (\<lambda>ns. Inr (sort_key (\<lambda>r. ToLower (rv_Repository r)) ns)))"

definition RevisionMatrixDigest :: "gate_revision list \<Rightarrow> gate_error + string" where
  "RevisionMatrixDigest revisions = bindE (normalizeRevisions revisions) (\<lambda>ns. Inr (digest_of revision_json ns))"

definition valid_policy :: "repository_policy \<Rightarrow> bool" where
  "valid_policy p = (validRepository (ToLower (TrimSpace (rp_Repository p))) \<and> validDigest (ToLower (TrimSpace (rp_Digest p))))"

definition normal_policy :: "repository_policy \<Rightarrow> repository_policy" where
  "normal_policy p = p\<lparr>rp_Repository := ToLower (TrimSpace (rp_Repository p)), rp_Digest := ToLower (TrimSpace (rp_Digest p))\<rparr>"

definition CompositePolicyDigest :: "repository_policy list \<Rightarrow> gate_error + string" where
  "CompositePolicyDigest ps =
     (if ps = [] \<or> length ps > 64 then Inl SizeInvalid
      else bindE (collect valid_policy (\<lambda>p. ToLower (TrimSpace (rp_Repository p))) normal_policy [] ps)
        (\<lambda>ns. Inr (digest_of repository_policy_json (sort_key rp_Repository ns))))"

definition valid_vault :: "vault_evidence \<Rightarrow> bool" where
  "valid_vault v =
     (validRepository (TrimSpace (ve_Repository v)) \<and> validSHA (ToLower (TrimSpace (ve_HeadSHA v)))
      \<and> TrimSpace (ve_RevisionID v) \<noteq> [] \<and> length (TrimSpace (ve_RevisionID v)) \<le> 255
      \<and> \<not> list_ex control_char (TrimSpace (ve_RevisionID v)))"

definition normal_vault :: "vault_evidence \<Rightarrow> vault_evidence" where
  "normal_vault v =
     v\<lparr>ve_Repository := ToLower (TrimSpace (ve_Repository v)), ve_HeadSHA := ToLower (TrimSpace (ve_HeadSHA v)),
       ve_RevisionID := TrimSpace (ve_RevisionID v)\<rparr>"

definition VaultEvidenceDigest :: "vault_evidence list \<Rightarrow> gate_error + string" where
  "VaultEvidenceDigest vs =
     (if vs = [] \<or> length vs > 64 then Inl SizeInvalid
      else bindE (collect valid_vault (\<lambda>v. ToLower (TrimSpace (ve_Repository v))) normal_vault [] vs)
        (\<lambda>ns. Inr (digest_of vault_json (sort_key ve_Repository ns))))"

definition valid_requirements :: "branch_evidence \<Rightarrow> bool" where
  "valid_requirements b =
     (validRepository (ToLower (TrimSpace (be_Repository b))) \<and> validSHA (ToLower (TrimSpace (be_HeadSHA b)))
      \<and> validRequiredChecks (be_RequiredChecks b))"

definition normal_requirements :: "branch_evidence \<Rightarrow> branch_evidence" where
  "normal_requirements b =
     b\<lparr>be_Repository := ToLower (TrimSpace (be_Repository b)), be_HeadSHA := ToLower (TrimSpace (be_HeadSHA b)),
       be_RequiredChecks := sort_key (\<lambda>c. (rc_Name c, rc_IntegrationID c))
         (map (\<lambda>c. c\<lparr>rc_Name := ToLower (TrimSpace (rc_Name c))\<rparr>) (be_RequiredChecks b))\<rparr>"

definition BranchRequirementsDigest :: "branch_evidence list \<Rightarrow> gate_error + string" where
  "BranchRequirementsDigest bs =
     (if bs = [] \<or> length bs > 64 then Inl SizeInvalid
      else bindE (collect valid_requirements (\<lambda>b. ToLower (TrimSpace (be_Repository b))) normal_requirements [] bs)
        (\<lambda>ns. Inr (digest_of requirement_digest_json (sort_key be_Repository ns))))"

definition subject_json ::
  "gate_action \<Rightarrow> string \<Rightarrow> string \<Rightarrow> string \<Rightarrow> string \<Rightarrow> string list \<Rightarrow> recovery_classification \<Rightarrow> json" where
  "subject_json action matrixDigest policyDigest vaultDigest requirementsDigest requiredTestKinds recovery =
     JObj [(''action'', JStr action), (''matrix_digest'', JStr matrixDigest),
       (''policy_digest'', JStr (ToLower (TrimSpace policyDigest))), (''vault_digest'', JStr (ToLower (TrimSpace vaultDigest))),
       (''requirements_digest'', JStr (ToLower (TrimSpace requirementsDigest))), (''recovery'', JStr recovery),
       (''required_test_kinds'',
         nil_slice (map JStr (sort (map (\<lambda>k. ToLower (TrimSpace k)) requiredTestKinds))))]"

definition subjectDigest ::
  "gate_action \<Rightarrow> string \<Rightarrow> string \<Rightarrow> string \<Rightarrow> string \<Rightarrow> string list \<Rightarrow> recovery_classification \<Rightarrow> string" where
  "subjectDigest action matrixDigest policyDigest vaultDigest requirementsDigest requiredTestKinds recovery =
     sha256_hex (json_encode
       (subject_json action matrixDigest policyDigest vaultDigest requirementsDigest requiredTestKinds recovery))"

subsection \<open>Indexing the evidence\<close>

definition repo_key :: "string \<Rightarrow> string" where
  "repo_key repository = ToLower (TrimSpace repository)"

definition uniqueBranches :: "branch_evidence list \<Rightarrow> (string \<times> branch_evidence) list \<times> gate_reason list" where
  "uniqueBranches =
     unique_loop (\<lambda>v. validRepository (be_Repository v) \<and> repo_key (be_Repository v) \<noteq> []) (\<lambda>v. repo_key (be_Repository v))
       (\<lambda>v. Reason ''branch_evidence_invalid'' [] ''branch'')
       (\<lambda>v. Reason ''branch_evidence_duplicate'' (be_Repository v) ''branch'') []"

definition uniqueRepositoryPolicies :: "repository_policy list \<Rightarrow> (string \<times> repository_policy) list \<times> gate_reason list" where
  "uniqueRepositoryPolicies =
     unique_loop (\<lambda>v. validRepository (rp_Repository v) \<and> validDigest (ToLower (TrimSpace (rp_Digest v))))
       (\<lambda>v. repo_key (rp_Repository v))
       (\<lambda>v. Reason ''repository_policy_evidence_invalid'' [] ''policy'')
       (\<lambda>v. Reason ''repository_policy_evidence_duplicate'' (rp_Repository v) ''policy'') []"

definition uniqueVault :: "vault_evidence list \<Rightarrow> (string \<times> vault_evidence) list \<times> gate_reason list" where
  "uniqueVault =
     unique_loop (\<lambda>v. validRepository (ve_Repository v)) (\<lambda>v. repo_key (ve_Repository v))
       (\<lambda>v. Reason ''vault_evidence_invalid'' [] ''vault'')
       (\<lambda>v. Reason ''vault_evidence_duplicate'' (ve_Repository v) ''vault'') []"

definition uniqueSecurity :: "security_evidence list \<Rightarrow> (string \<times> security_evidence) list \<times> gate_reason list" where
  "uniqueSecurity =
     unique_loop (\<lambda>v. validRepository (se_Repository v)) (\<lambda>v. repo_key (se_Repository v))
       (\<lambda>v. Reason ''security_evidence_invalid'' [] ''security'')
       (\<lambda>v. Reason ''security_evidence_duplicate'' (se_Repository v) ''security'') []"

definition uniqueTests :: "test_evidence list \<Rightarrow> (string \<times> test_evidence) list \<times> gate_reason list" where
  "uniqueTests =
     unique_loop (\<lambda>v. evidenceNamePattern (TrimSpace (te_Kind v))) (\<lambda>v. ToLower (TrimSpace (te_Kind v)))
       (\<lambda>v. Reason ''test_evidence_invalid'' [] ''test'')
       (\<lambda>v. Reason ''test_evidence_duplicate'' [] (TrimSpace (te_Kind v))) []"

text \<open>
  The checks keep every value of a key, in order; duplicates are those of one integration too. The
  map of slices is the list of its entries, and \<open>grouped\<close> reads the slice of a key.
\<close>

definition group_key :: "string \<Rightarrow> string \<Rightarrow> string" where
  "group_key repository name = repository @ [CHR 0x00] @ name"

definition valid_check :: "check_evidence \<Rightarrow> bool" where
  "valid_check v =
     (TrimSpace (ck_Name v) = ck_Name v \<and> validRepository (ck_Repository v) \<and> evidenceNamePattern (TrimSpace (ck_Name v))
      \<and> \<not> ck_IntegrationID v < 0)"

definition check_group :: "check_evidence \<Rightarrow> string" where
  "check_group v = group_key (repo_key (ck_Repository v)) (ToLower (TrimSpace (ck_Name v)))"

definition check_identity :: "check_evidence \<Rightarrow> string" where
  "check_identity v = check_group v @ [CHR 0x00] @ show_int (ck_IntegrationID v)"

definition groupChecks :: "check_evidence list \<Rightarrow> (string \<times> check_evidence) list \<times> gate_reason list" where
  "groupChecks values =
     (case unique_loop valid_check check_identity
        (\<lambda>v. Reason ''check_evidence_invalid'' [] ''check'')
        (\<lambda>v. Reason ''check_evidence_duplicate'' (ck_Repository v) (TrimSpace (ck_Name v))) [] values of
        (m, reasons) \<Rightarrow> (map (\<lambda>(_, v). (check_group v, v)) m, reasons))"

definition groupReviews :: "review_evidence list \<Rightarrow> (string \<times> review_evidence) list" where
  "groupReviews values =
     map (\<lambda>v. (repo_key (re_Repository v), v))
       (filter (\<lambda>v. validRepository (re_Repository v) \<and> 0 \<le> re_BlockingChangeRequests v) values)"

definition grouped :: "(string \<times> 'a) list \<Rightarrow> string \<Rightarrow> 'a list" where
  "grouped m key = map snd (filter (\<lambda>e. fst e = key) m)"

subsection \<open>Evaluation\<close>

definition policy_reasons :: "gate_action \<Rightarrow> (string \<times> repository_policy) list \<Rightarrow> gate_revision \<Rightarrow> gate_reason list" where
  "policy_reasons action policies revision =
     (case map_of policies (ToLower (rv_Repository revision)) of
        None \<Rightarrow> [Reason ''repository_policy_missing'' (rv_Repository revision) ''policy'']
      | Some evidence \<Rightarrow>
          (if rp_Resolved evidence then [] else [Reason ''repository_policy_unresolved'' (rv_Repository revision) ''policy''])
          @ (if rp_ActionAllowed evidence then [] else [Reason ''policy_action_not_allowed'' (rv_Repository revision) action])
          @ (if rp_BranchAllowed evidence then []
             else [Reason ''target_branch_not_allowed'' (rv_Repository revision) (rv_Branch revision)]))"

text \<open>The candidate a required check is judged by, the reason that ends its turn, or nothing.\<close>

definition select_check :: "gate_revision \<Rightarrow> required_check \<Rightarrow> check_evidence list \<Rightarrow> gate_reason + check_evidence option" where
  "select_check revision required candidates =
     (if rc_IntegrationID required > 0 then
        (case find (\<lambda>c. ck_IntegrationID c = rc_IntegrationID required) candidates of
           Some c \<Rightarrow> Inr (Some c)
         | None \<Rightarrow>
             if candidates \<noteq> [] then Inl (Reason ''required_check_source_mismatch'' (rv_Repository revision) (rc_Name required))
             else Inr None)
      else (case candidates of
          [] \<Rightarrow> Inr None
        | [c] \<Rightarrow> Inr (Some c)
        | _ \<Rightarrow> Inl (Reason ''required_check_source_ambiguous'' (rv_Repository revision) (rc_Name required))))"

definition judge_check :: "gate_revision \<Rightarrow> required_check \<Rightarrow> check_evidence \<Rightarrow> gate_reason list" where
  "judge_check revision required c =
     (if \<not> equalSHA (ck_HeadSHA c) (rv_SHA revision)
      then [Reason ''required_check_stale'' (rv_Repository revision) (rc_Name required)]
      else if ck_Status c \<noteq> StatusPassed
      then [Reason ''required_check_failed'' (rv_Repository revision) (rc_Name required)]
      else [])"

definition required_check_reasons ::
  "gate_revision \<Rightarrow> (string \<times> check_evidence) list \<Rightarrow> required_check \<Rightarrow> gate_reason list" where
  "required_check_reasons revision checks required =
     (let candidates = grouped checks (group_key (ToLower (rv_Repository revision)) (ToLower (rc_Name required)))
      in case select_check revision required candidates of
           Inl reason \<Rightarrow> [reason]
         | Inr None \<Rightarrow> [Reason ''required_check_missing'' (rv_Repository revision) (rc_Name required)]
         | Inr (Some c) \<Rightarrow>
             judge_check revision required c
             @ (if rc_IntegrationID required > 0
                then concat (map (judge_check revision required) (filter (\<lambda>c. ck_IntegrationID c = 0) candidates))
                else []))"

definition branch_reasons ::
  "(string \<times> branch_evidence) list \<Rightarrow> (string \<times> check_evidence) list \<Rightarrow> gate_revision \<Rightarrow> gate_reason list" where
  "branch_reasons branches checks revision =
     (let repository = rv_Repository revision
      in case map_of branches (ToLower repository) of
           None \<Rightarrow> [Reason ''branch_evidence_missing'' repository ''branch'']
         | Some branch \<Rightarrow>
             (if equalSHA (be_HeadSHA branch) (rv_SHA revision) then []
              else [Reason ''branch_evidence_stale'' repository ''head_sha''])
             @ (if \<not> be_ProtectionEvaluated branch then [Reason ''branch_protection_unknown'' repository ''protection'']
                else if \<not> be_Protected branch then [Reason ''branch_unprotected'' repository ''protection''] else [])
             @ (if \<not> be_Mergeable branch \<or> \<not> be_ConflictFree branch
                then [Reason ''branch_not_mergeable'' repository ''mergeability''] else [])
             @ (if \<not> validRequiredChecks (be_RequiredChecks branch)
                then [Reason ''required_checks_invalid'' repository ''required_checks'']
                else concat (map (required_check_reasons revision checks) (be_RequiredChecks branch))))"

text \<open>The loop over the reviews of a repository: reasons, \<open>approved\<close> and \<open>exactReviewSeen\<close>.\<close>

fun review_loop :: "gate_revision \<Rightarrow> bool \<Rightarrow> bool \<Rightarrow> review_evidence list \<Rightarrow> gate_reason list \<times> bool \<times> bool" where
  "review_loop revision approved seen [] = ([], approved, seen)"
| "review_loop revision approved seen (r # rs) =
     (if \<not> equalSHA (re_HeadSHA r) (rv_SHA revision) then review_loop revision approved seen rs
      else if re_BlockingChangeRequests r > 0
      then map_prod (Cons (Reason ''review_changes_requested'' (rv_Repository revision) ''review'')) id
             (review_loop revision approved True rs)
      else if \<not> re_Approved r then review_loop revision approved True rs
      else if \<not> independentActors (re_AuthorActor r) (re_ReviewerActor r)
      then map_prod (Cons (Reason ''review_not_independent'' (rv_Repository revision) ''review'')) id
             (review_loop revision approved True rs)
      else review_loop revision True True rs)"

definition review_reasons :: "(string \<times> review_evidence) list \<Rightarrow> gate_revision \<Rightarrow> gate_reason list" where
  "review_reasons reviews revision =
     (let mine = grouped reviews (ToLower (rv_Repository revision))
      in case review_loop revision False False mine of
           (reasons, approved, seen) \<Rightarrow>
             reasons
             @ (if approved then []
                else if mine = [] then [Reason ''review_missing'' (rv_Repository revision) ''review'']
                else if \<not> seen then [Reason ''review_evidence_stale'' (rv_Repository revision) ''review'']
                else [Reason ''review_not_approved_for_head'' (rv_Repository revision) ''review'']))"

definition vault_reasons :: "(string \<times> vault_evidence) list \<Rightarrow> gate_revision \<Rightarrow> gate_reason list" where
  "vault_reasons vault revision =
     (case map_of vault (ToLower (rv_Repository revision)) of
        None \<Rightarrow> [Reason ''vault_evidence_missing'' (rv_Repository revision) ''vault'']
      | Some v \<Rightarrow>
          if \<not> equalSHA (ve_HeadSHA v) (rv_SHA revision)
          then [Reason ''vault_evidence_stale'' (rv_Repository revision) ''vault'']
          else if \<not> ve_Reconciled v \<or> TrimSpace (ve_RevisionID v) = []
          then [Reason ''vault_not_reconciled'' (rv_Repository revision) ''vault'']
          else [])"

definition security_reasons :: "(string \<times> security_evidence) list \<Rightarrow> gate_revision \<Rightarrow> gate_reason list" where
  "security_reasons security revision =
     (case map_of security (ToLower (rv_Repository revision)) of
        None \<Rightarrow> [Reason ''security_evidence_missing'' (rv_Repository revision) ''security'']
      | Some s \<Rightarrow>
          if \<not> equalSHA (se_HeadSHA s) (rv_SHA revision)
          then [Reason ''security_evidence_stale'' (rv_Repository revision) ''security'']
          else (if se_SecretScanPassed s then [] else [Reason ''secret_scan_failed'' (rv_Repository revision) ''secret_scan''])
            @ (if se_HighFindings s < 0 \<or> se_CriticalFindings s < 0 \<or> se_HighFindings s > 0 \<or> se_CriticalFindings s > 0
               then [Reason ''high_or_critical_security_findings'' (rv_Repository revision) ''security''] else []))"

definition test_reasons :: "(string \<times> test_evidence) list \<Rightarrow> string \<Rightarrow> string \<Rightarrow> gate_reason list" where
  "test_reasons tests matrixDigest required =
     (case map_of tests (ToLower required) of
        None \<Rightarrow> [Reason ''required_test_missing'' [] required]
      | Some t \<Rightarrow>
          if \<not> equalDigest (te_MatrixDigest t) matrixDigest then [Reason ''required_test_stale'' [] required]
          else if te_Status t \<noteq> StatusPassed then [Reason ''required_test_failed'' [] required]
          else [])"

definition evaluateMatrixEvidence :: "string \<Rightarrow> matrix_evidence \<Rightarrow> string \<Rightarrow> gate_reason list" where
  "evaluateMatrixEvidence name evidence matrixDigest =
     (if \<not> equalDigest (me_MatrixDigest evidence) matrixDigest then [Reason (name @ ''_evidence_stale'') [] name]
      else if me_Status evidence \<noteq> StatusPassed then [Reason (name @ ''_not_ready'') [] name]
      else [])"

definition valid_classification :: "recovery_classification \<Rightarrow> bool" where
  "valid_classification c = (c \<in> {RecoveryRollback, RecoveryRollForward, RecoveryExpandContract, RecoveryIrreversible})"

definition evaluateRecovery :: "recovery_evidence \<Rightarrow> string \<Rightarrow> gate_reason list" where
  "evaluateRecovery evidence matrixDigest =
     (if \<not> equalDigest (ry_MatrixDigest evidence) matrixDigest then [Reason ''recovery_evidence_stale'' [] ''recovery'']
      else (if \<not> ry_Evaluated evidence \<or> \<not> valid_classification (ry_Classification evidence)
            then [Reason ''recovery_not_evaluated'' [] ''recovery''] else [])
        @ (if ry_Classification evidence = RecoveryIrreversible \<and> \<not> ry_HumanApproved evidence
           then [Reason ''irreversible_recovery_approval_missing'' [] ''recovery''] else []))"

definition approval_reasons :: "human_approval option \<Rightarrow> string \<Rightarrow> gate_reason list" where
  "approval_reasons approval subject =
     (case approval of
        None \<Rightarrow> [Reason ''human_approval_missing'' [] ''human_approval'']
      | Some a \<Rightarrow>
          if \<not> ha_Approved a \<or> \<not> EqualFold (TrimSpace (ha_ActorType a)) ''human'' \<or> TrimSpace (ha_Actor a) = []
          then [Reason ''human_approval_missing'' [] ''human_approval'']
          else if \<not> equalDigest (ha_SubjectDigest a) subject then [Reason ''human_approval_stale'' [] ''human_approval'']
          else [])"

definition reason_key :: "gate_reason \<Rightarrow> string" where
  "reason_key r = rs_Code r @ [CHR 0x00] @ ToLower (rs_Repository r) @ [CHR 0x00] @ ToLower (rs_Evidence r)"

definition sortReasons :: "gate_reason list \<Rightarrow> gate_reason list" where
  "sortReasons reasons = sort_key reason_key reasons"

definition valid_identity :: "gate_input \<Rightarrow> bool" where
  "valid_identity i =
     (gi_SchemaVersion i = GateSchemaVersion \<and> (gi_Action i = ActionMerge \<or> gi_Action i = ActionRelease)
      \<and> changeSetPattern (gi_ChangeSetID i))"

definition digest_or_empty :: "gate_error + string \<Rightarrow> string" where
  "digest_or_empty r = (case r of Inl _ \<Rightarrow> [] | Inr d \<Rightarrow> d)"

text \<open>
  The policy part: the digest of the decision, and the reasons. \<open>policyReady\<close> is false as soon as one
  reason of its checks was added.
\<close>

definition evaluate_policy :: "gate_input \<Rightarrow> gate_revision list \<Rightarrow> string \<times> gate_reason list" where
  "evaluate_policy i normalized =
     (let composite = CompositePolicyDigest (gp_Repositories (gi_Policy i));
          (policies, unique_reasons) = uniqueRepositoryPolicies (gp_Repositories (gi_Policy i));
          ready = (isOk composite \<and> equalDigest (gp_Digest (gi_Policy i)) (digest_or_empty composite)
                   \<and> validUniqueNames (gp_RequiredTestKinds (gi_Policy i)));
          per_repository = concat (map (policy_reasons (gi_Action i) policies) normalized);
          unresolved = (\<not> gp_Resolved (gi_Policy i) \<or> \<not> (ready \<and> per_repository = []) \<or> length policies \<noteq> length normalized)
      in (if unresolved then [] else digest_or_empty composite,
          unique_reasons @ (if ready then [] else [Reason ''policy_evidence_invalid'' [] ''policy'']) @ per_repository
          @ (if unresolved then [Reason ''policy_unresolved'' [] ''required test policy''] else [])))"

definition Evaluate :: "gate_input \<Rightarrow> gate_decision" where
  "Evaluate i =
     (let identity = (if valid_identity i then [] else [Reason ''invalid_input'' [] ''schema, action, or change-set identity'']);
          decision = \<lparr>gd_SchemaVersion = GateSchemaVersion, gd_Action = gi_Action i, gd_ChangeSetID = gi_ChangeSetID i,
            gd_MatrixDigest = [], gd_PolicyDigest = [], gd_VaultDigest = [], gd_RequirementsDigest = [],
            gd_SubjectDigest = [], gd_State = ''blocked'', gd_Reasons = []\<rparr>
      in case normalizeRevisions (gi_Revisions i) of
           Inl _ \<Rightarrow> decision\<lparr>gd_Reasons := sortReasons (identity @ [Reason ''revision_matrix_invalid'' [] ''revisions''])\<rparr>
         | Inr normalized \<Rightarrow>
             let matrixDigest = digest_or_empty (RevisionMatrixDigest normalized);
                 (policyDigest, from_policy) = evaluate_policy i normalized;
                 vaultDigest = VaultEvidenceDigest (gi_Vault i);
                 requirementsDigest = BranchRequirementsDigest (gi_Branches i);
                 subject = subjectDigest (gi_Action i) matrixDigest policyDigest (digest_or_empty vaultDigest)
                   (digest_or_empty requirementsDigest) (gp_RequiredTestKinds (gi_Policy i)) (ry_Classification (gi_Recovery i));
                 (branches, from_branches) = uniqueBranches (gi_Branches i);
                 (checks, from_checks) = groupChecks (gi_Checks i);
                 reviews = groupReviews (gi_Reviews i);
                 (vault, from_vault) = uniqueVault (gi_Vault i);
                 (security, from_security) = uniqueSecurity (gi_Security i);
                 (tests, from_tests) = uniqueTests (gi_Tests i);
                 reasons = identity @ from_policy
                   @ (if isOk vaultDigest then [] else [Reason ''vault_evidence_digest_invalid'' [] ''vault''])
                   @ (if isOk requirementsDigest then []
                      else [Reason ''branch_requirements_digest_invalid'' [] ''branch_requirements''])
                   @ from_branches @ from_checks @ from_vault @ from_security
                   @ concat (map (\<lambda>r. branch_reasons branches checks r @ review_reasons reviews r
                        @ vault_reasons vault r @ security_reasons security r) normalized)
                   @ from_tests
                   @ (if gp_Resolved (gi_Policy i) \<and> validDigest (gp_Digest (gi_Policy i))
                        \<and> validUniqueNames (gp_RequiredTestKinds (gi_Policy i))
                      then concat (map (test_reasons tests matrixDigest) (gp_RequiredTestKinds (gi_Policy i))) else [])
                   @ evaluateMatrixEvidence ''compatibility'' (gi_Compatibility i) matrixDigest
                   @ evaluateMatrixEvidence ''migrations'' (gi_Migrations i) matrixDigest
                   @ evaluateMatrixEvidence ''dependencies'' (gi_Dependencies i) matrixDigest
                   @ evaluateMatrixEvidence ''environment'' (gi_Environment i) matrixDigest
                   @ evaluateRecovery (gi_Recovery i) matrixDigest
                   @ approval_reasons (gi_HumanApproval i) subject
             in decision\<lparr>gd_MatrixDigest := matrixDigest, gd_PolicyDigest := policyDigest,
                  gd_VaultDigest := digest_or_empty vaultDigest, gd_RequirementsDigest := digest_or_empty requirementsDigest,
                  gd_SubjectDigest := subject, gd_State := (if reasons = [] then ''allowed'' else ''blocked''),
                  gd_Reasons := sortReasons reasons\<rparr>)"

end
