(* ===== verification/DeliveryPolicy.thy ===== *)
theory DeliveryPolicy
  imports ReleaseGate
begin

text \<open>
  internal/deliverypolicy/policy.go, with \<open>CanonicalGitHubReference\<close> of
  internal/projectvault/proposal.go: approved policy layers are resolved into one policy for an
  exact organization, project, repository and change set. A pointer that may be nil is an option.
  The parser of package net/url is the argument \<open>parse\<close>; every definition that reaches it takes it.
\<close>

subsection \<open>Layers and policies\<close>

type_synonym policy_level = string
type_synonym delivery_mode = string
type_synonym gate_approval_mode = string

definition PolicySchemaVersion :: int where "PolicySchemaVersion = 1"
definition maximumOverrideLifetime :: duration where "maximumOverrideLifetime = 24 * hour"

definition LevelPlatform :: policy_level where "LevelPlatform = ''platform''"
definition LevelOrganization :: policy_level where "LevelOrganization = ''organization''"
definition LevelProject :: policy_level where "LevelProject = ''project''"
definition LevelRepository :: policy_level where "LevelRepository = ''repository''"
definition LevelOverride :: policy_level where "LevelOverride = ''override''"

definition ModeReviewOnly :: delivery_mode where "ModeReviewOnly = ''review_only''"
definition ModeMerge :: delivery_mode where "ModeMerge = ''merge''"
definition ModeRelease :: delivery_mode where "ModeRelease = ''release''"

definition GateApprovalHuman :: gate_approval_mode where "GateApprovalHuman = ''human''"
definition GateApprovalDelegated :: gate_approval_mode where "GateApprovalDelegated = ''delegated''"

lemmas policy_names =
  LevelPlatform_def LevelOrganization_def LevelProject_def LevelRepository_def LevelOverride_def
  ModeReviewOnly_def ModeMerge_def ModeRelease_def GateApprovalHuman_def GateApprovalDelegated_def

record policy_context =
  cx_OrganizationID :: string
  cx_ProjectID :: string
  cx_Repository :: string
  cx_ChangeSetID :: string

record policy_patch =
  pa_Mode :: "delivery_mode option"
  pa_GateApprovalMode :: "gate_approval_mode option"
  pa_RequiredTestKinds :: "string list option"
  pa_AllowedTargetBranches :: "string list option"
  pa_MergeMethod :: "string option"
  pa_DeploymentWorkflow :: "string option"
  pa_DeploymentEnvironment :: "string option"
  pa_RequiredSecretReferences :: "string list option"
  pa_RequiredVariableReferences :: "string list option"
  pa_RequiredHealthChecks :: "string list option"
  pa_RequiredPostMergeChecks :: "string list option"
  pa_RecoveryDefault :: "string option"

record policy_layer =
  la_SchemaVersion :: int
  la_RevisionID :: string
  la_Level :: policy_level
  la_OrganizationID :: string
  la_ProjectID :: string
  la_Repository :: string
  la_ChangeSetID :: string
  la_Patch :: policy_patch
  la_Reason :: string
  la_ExpiresAt :: "gotime option"
  la_Digest :: string
  la_Approved :: bool
  la_ApprovedBy :: string
  la_ApprovedAt :: gotime

record safety_floor =
  sf_IndependentReview :: bool
  sf_ExactSHAEvidence :: bool
  sf_VaultReconciliation :: bool
  sf_SecretScan :: bool
  sf_MaximumHighFindings :: int
  sf_MaximumCriticalFindings :: int
  sf_Compatibility :: bool
  sf_Migrations :: bool
  sf_DependencyOrder :: bool
  sf_Environment :: bool
  sf_Recovery :: bool
  sf_HumanApproval :: bool
  sf_ForceMergeAllowed :: bool

record policy_source =
  so_Level :: policy_level
  so_RevisionID :: string
  so_Digest :: string
  so_ApprovedBy :: string
  so_ApprovedAt :: gotime

record resolved_policy =
  rs_SchemaVersion :: int
  rs_Context :: policy_context
  rs_Mode :: delivery_mode
  rs_GateApprovalMode :: gate_approval_mode
  rs_RequiredTestKinds :: "string list"
  rs_AllowedTargetBranches :: "string list"
  rs_MergeMethod :: string
  rs_DeploymentWorkflow :: string
  rs_DeploymentEnvironment :: string
  rs_RequiredSecretReferences :: "string list"
  rs_RequiredVariableReferences :: "string list"
  rs_RequiredHealthChecks :: "string list"
  rs_RequiredPostMergeChecks :: "string list"
  rs_RecoveryDefault :: string
  rs_Safety :: safety_floor
  rs_Sources :: "policy_source list"
  rs_Resolved :: bool
  rs_Missing :: "string list"
  rs_Digest :: string
  rs_explicitTests :: bool
  rs_explicitBranches :: bool
  rs_explicitSecretReferences :: bool
  rs_explicitVariableReferences :: bool

datatype policy_error =
    ContextInvalid
  | DuplicateLayer policy_level
  | NotApprovedCurrent policy_level
  | LayerDigestMismatch policy_level
  | PatchInvalid policy_level string
  | OverrideDelegates
  | ScopeMismatch policy_level
  | OverrideLifetime
  | OverrideRepository
  | LevelUnsupported
  | EncodeFailed

definition safetyFloor :: safety_floor where
  "safetyFloor =
     \<lparr>sf_IndependentReview = True, sf_ExactSHAEvidence = True, sf_VaultReconciliation = True, sf_SecretScan = True,
      sf_MaximumHighFindings = 0, sf_MaximumCriticalFindings = 0, sf_Compatibility = True, sf_Migrations = True,
      sf_DependencyOrder = True, sf_Environment = True, sf_Recovery = True, sf_HumanApproval = True, sf_ForceMergeAllowed = False\<rparr>"

subsection \<open>Patterns and lists of names\<close>

definition identityPattern :: "string \<Rightarrow> bool" where
  "identityPattern = head_tail_match alnum_char (\<lambda>c. alnum_char c \<or> c \<in> set ''_.:/+-'') 127"

definition namePattern :: "string \<Rightarrow> bool" where
  "namePattern = head_tail_match alnum_char (\<lambda>c. alnum_char c \<or> c \<in> set '' _./:+-'') 127"

text \<open>A workflow file: the prefix, a name of 1 to 120 characters, and \<open>.yml\<close> or \<open>.yaml\<close>.\<close>

definition workflowPattern :: "string \<Rightarrow> bool" where
  "workflowPattern s =
     (HasPrefix s ''.github/workflows/''
      \<and> (let rest = TrimPrefix s ''.github/workflows/'';
             ok = head_tail_match alnum_char (\<lambda>c. alnum_char c \<or> c \<in> set ''_.-'') 119
         in HasSuffix rest ''.yml'' \<and> ok (TrimSuffix rest ''.yml'') \<or> HasSuffix rest ''.yaml'' \<and> ok (TrimSuffix rest ''.yaml'')))"

definition environmentReferencePattern :: "string \<Rightarrow> bool" where
  "environmentReferencePattern =
     head_tail_match (\<lambda>c. upper_letter c \<or> c = CHR ''_'') (\<lambda>c. upper_letter c \<or> digit_char c \<or> c = CHR ''_'') 127"

definition validName :: "string \<Rightarrow> bool" where
  "validName v = namePattern (TrimSpace v)"

text \<open>The loop of the list validators: every canonical value is valid and its key new.\<close>

fun distinct_valid :: "('a \<Rightarrow> 'b) \<Rightarrow> ('b \<Rightarrow> bool) \<Rightarrow> ('b \<Rightarrow> string) \<Rightarrow> string list \<Rightarrow> 'a list \<Rightarrow> bool" where
  "distinct_valid canon valid key seen [] = True"
| "distinct_valid canon valid key seen (v # vs) =
     (let c = canon v
      in if \<not> valid c then False
         else if key c \<in> set seen then False
         else distinct_valid canon valid key (seen @ [key c]) vs)"

definition validNames :: "string list \<Rightarrow> bool \<Rightarrow> bool" where
  "validNames vs allowEmpty = (if vs = [] then allowEmpty else distinct_valid TrimSpace validName ToLower [] vs)"

definition validIdentifiers :: "string list \<Rightarrow> bool \<Rightarrow> bool" where
  "validIdentifiers vs allowEmpty = (if vs = [] then allowEmpty else distinct_valid TrimSpace identityPattern ToLower [] vs)"

definition valid_target_branch :: "string \<Rightarrow> bool" where
  "valid_target_branch v =
     (\<not> (v = [] \<or> length v > 255 \<or> HasPrefix v ''.'' \<or> HasSuffix v ''.'' \<or> HasPrefix v ''/'' \<or> HasSuffix v ''/''
         \<or> Contains v ''..'' \<or> Contains v [CHR ''@'', CHR ''{'']
         \<or> ContainsAny v ('' ~^:?*[]'' @ [CHR 0x5C, CHR 0x00, CHR 0x0D, CHR 0x0A])))"

definition validBranches :: "string list \<Rightarrow> bool" where
  "validBranches vs = (if vs = [] then False else distinct_valid TrimSpace valid_target_branch ToLower [] vs)"

definition validEnvironmentReferences :: "string list \<Rightarrow> bool" where
  "validEnvironmentReferences vs =
     (if length vs > 64 then False
      else distinct_valid (\<lambda>v. ToUpper (TrimSpace v)) (\<lambda>c. environmentReferencePattern c \<and> \<not> HasPrefix c ''GITHUB_'') id [] vs)"

definition canonicalNames :: "string list \<Rightarrow> string list" where
  "canonicalNames vs = sort_key ToLower (map TrimSpace vs)"

definition canonicalBranches :: "string list \<Rightarrow> string list" where
  "canonicalBranches vs = canonicalNames vs"

definition canonicalEnvironmentReferences :: "string list \<Rightarrow> string list" where
  "canonicalEnvironmentReferences vs = sort (map (\<lambda>v. ToUpper (TrimSpace v)) vs)"

definition precedence :: "policy_level \<Rightarrow> int" where
  "precedence level =
     (if level = LevelPlatform then 0 else if level = LevelOrganization then 1 else if level = LevelProject then 2
      else if level = LevelRepository then 3 else if level = LevelOverride then 4 else 99)"

subsection \<open>The repository reference\<close>

record parsed_url =
  url_Scheme :: string
  url_hasUser :: bool
  url_Host :: string
  url_Hostname :: string
  url_Port :: string
  url_Path :: string
  url_RawQuery :: string
  url_Fragment :: string

definition githubComponentPattern :: "string \<Rightarrow> bool" where
  "githubComponentPattern s =
     (case s of [] \<Rightarrow> False | c # cs \<Rightarrow> alnum_char c \<and> list_all (\<lambda>c. alnum_char c \<or> c \<in> set ''_.-'') cs)"

text \<open>\<open>strings.Trim(path, "/")\<close>.\<close>

definition trim_slashes :: "string \<Rightarrow> string" where
  "trim_slashes s = rev (dropWhile (\<lambda>c. c = CHR ''/'') (rev (dropWhile (\<lambda>c. c = CHR ''/'') s)))"

definition CanonicalGitHubReference :: "(string \<Rightarrow> parsed_url option) \<Rightarrow> string \<Rightarrow> string option" where
  "CanonicalGitHubReference parse v =
     (case parse (TrimSpace v) of
        None \<Rightarrow> None
      | Some u \<Rightarrow>
          if url_hasUser u \<or> url_RawQuery u \<noteq> [] \<or> url_Fragment u \<noteq> [] then None
          else
            let parts = Split (trim_slashes (url_Path u)) (CHR ''/'');
                scheme = ToLower (url_Scheme u);
                named = (if scheme = ''github'' then
                           (if url_Host u = [] then None
                            else Some (url_Host u, case parts of [name] \<Rightarrow> name | _ \<Rightarrow> []))
                         else if scheme = ''https'' then
                           (if \<not> EqualFold (url_Hostname u) ''github.com'' \<or> url_Port u \<noteq> [] then None
                            else Some (case parts of [owner, name] \<Rightarrow> (owner, name) | _ \<Rightarrow> ([], [])))
                         else None)
            in case named of
                 None \<Rightarrow> None
               | Some (owner, name0) \<Rightarrow>
                   let name = TrimSuffix name0 ''.git''
                   in if length owner > 39 \<or> length name > 100 \<or> \<not> githubComponentPattern owner \<or> \<not> githubComponentPattern name
                      then None else Some (''github://'' @ owner @ ''/'' @ name))"

subsection \<open>Patches\<close>

text \<open>An absent field is not checked; \<open>given\<close> checks a present one.\<close>

definition given_ok :: "('a \<Rightarrow> bool) \<Rightarrow> 'a option \<Rightarrow> bool" where
  "given_ok ok v = (case v of None \<Rightarrow> True | Some x \<Rightarrow> ok x)"

definition valid_recovery :: "string \<Rightarrow> bool" where
  "valid_recovery r =
     (ToLower (TrimSpace r) \<in> {RecoveryRollback, RecoveryRollForward, RecoveryExpandContract, RecoveryIrreversible})"

definition validatePatch :: "policy_patch \<Rightarrow> string + unit" where
  "validatePatch p =
     (if \<not> given_ok (\<lambda>m. m \<in> {ModeReviewOnly, ModeMerge, ModeRelease}) (pa_Mode p) then Inl ''delivery mode is invalid''
      else if \<not> given_ok (\<lambda>m. m \<in> {GateApprovalHuman, GateApprovalDelegated}) (pa_GateApprovalMode p)
      then Inl ''gate approval mode is invalid''
      else if \<not> given_ok (\<lambda>vs. validIdentifiers vs True) (pa_RequiredTestKinds p) then Inl ''required test kinds are invalid''
      else if \<not> given_ok validBranches (pa_AllowedTargetBranches p) then Inl ''target branches are invalid''
      else if \<not> given_ok (\<lambda>m. ToLower (TrimSpace m) \<in> {''merge'', ''squash'', ''rebase''}) (pa_MergeMethod p)
      then Inl ''merge method is invalid''
      else if \<not> given_ok (\<lambda>w. workflowPattern (TrimSpace w)) (pa_DeploymentWorkflow p) then Inl ''deployment workflow is invalid''
      else if \<not> given_ok validName (pa_DeploymentEnvironment p) then Inl ''deployment environment is invalid''
      else if \<not> given_ok validEnvironmentReferences (pa_RequiredSecretReferences p)
      then Inl ''required secret references are invalid''
      else if \<not> given_ok validEnvironmentReferences (pa_RequiredVariableReferences p)
      then Inl ''required variable references are invalid''
      else if \<not> given_ok (\<lambda>vs. validNames vs False) (pa_RequiredHealthChecks p) then Inl ''required health checks are invalid''
      else if \<not> given_ok (\<lambda>vs. validNames vs False) (pa_RequiredPostMergeChecks p)
      then Inl ''required post-merge checks are invalid''
      else if \<not> given_ok valid_recovery (pa_RecoveryDefault p) then Inl ''recovery default is invalid''
      else Inr ())"

definition canonicalPatch :: "policy_patch \<Rightarrow> policy_patch" where
  "canonicalPatch p =
     \<lparr>pa_Mode = map_option TrimSpace (pa_Mode p),
      pa_GateApprovalMode = map_option (\<lambda>m. ToLower (TrimSpace m)) (pa_GateApprovalMode p),
      pa_RequiredTestKinds = map_option canonicalNames (pa_RequiredTestKinds p),
      pa_AllowedTargetBranches = map_option canonicalBranches (pa_AllowedTargetBranches p),
      pa_MergeMethod = map_option (\<lambda>m. ToLower (TrimSpace m)) (pa_MergeMethod p),
      pa_DeploymentWorkflow = map_option TrimSpace (pa_DeploymentWorkflow p),
      pa_DeploymentEnvironment = map_option TrimSpace (pa_DeploymentEnvironment p),
      pa_RequiredSecretReferences = map_option canonicalEnvironmentReferences (pa_RequiredSecretReferences p),
      pa_RequiredVariableReferences = map_option canonicalEnvironmentReferences (pa_RequiredVariableReferences p),
      pa_RequiredHealthChecks = map_option canonicalNames (pa_RequiredHealthChecks p),
      pa_RequiredPostMergeChecks = map_option canonicalNames (pa_RequiredPostMergeChecks p),
      pa_RecoveryDefault = map_option (\<lambda>r. ToLower (TrimSpace r)) (pa_RecoveryDefault p)\<rparr>"

text \<open>A present field replaces what wider layers set; an absent one inherits it.\<close>

definition set_given :: "('a \<Rightarrow> 'b) \<Rightarrow> 'a option \<Rightarrow> 'b \<Rightarrow> 'b" where
  "set_given f v old = (case v of None \<Rightarrow> old | Some x \<Rightarrow> f x)"

definition applyPatch :: "resolved_policy \<Rightarrow> policy_patch \<Rightarrow> resolved_policy" where
  "applyPatch r p =
     r\<lparr>rs_Mode := set_given id (pa_Mode p) (rs_Mode r),
       rs_GateApprovalMode := set_given id (pa_GateApprovalMode p) (rs_GateApprovalMode r),
       rs_RequiredTestKinds := set_given id (pa_RequiredTestKinds p) (rs_RequiredTestKinds r),
       rs_explicitTests := (pa_RequiredTestKinds p \<noteq> None \<or> rs_explicitTests r),
       rs_AllowedTargetBranches := set_given id (pa_AllowedTargetBranches p) (rs_AllowedTargetBranches r),
       rs_explicitBranches := (pa_AllowedTargetBranches p \<noteq> None \<or> rs_explicitBranches r),
       rs_MergeMethod := set_given (\<lambda>m. ToLower (TrimSpace m)) (pa_MergeMethod p) (rs_MergeMethod r),
       rs_DeploymentWorkflow := set_given TrimSpace (pa_DeploymentWorkflow p) (rs_DeploymentWorkflow r),
       rs_DeploymentEnvironment := set_given TrimSpace (pa_DeploymentEnvironment p) (rs_DeploymentEnvironment r),
       rs_RequiredSecretReferences := set_given id (pa_RequiredSecretReferences p) (rs_RequiredSecretReferences r),
       rs_explicitSecretReferences := (pa_RequiredSecretReferences p \<noteq> None \<or> rs_explicitSecretReferences r),
       rs_RequiredVariableReferences := set_given id (pa_RequiredVariableReferences p) (rs_RequiredVariableReferences r),
       rs_explicitVariableReferences := (pa_RequiredVariableReferences p \<noteq> None \<or> rs_explicitVariableReferences r),
       rs_RequiredHealthChecks := set_given id (pa_RequiredHealthChecks p) (rs_RequiredHealthChecks r),
       rs_RequiredPostMergeChecks := set_given id (pa_RequiredPostMergeChecks p) (rs_RequiredPostMergeChecks r),
       rs_RecoveryDefault := set_given (\<lambda>m. ToLower (TrimSpace m)) (pa_RecoveryDefault p) (rs_RecoveryDefault r)\<rparr>"

subsection \<open>Digests\<close>

definition str_field :: "string \<Rightarrow> string option \<Rightarrow> (string \<times> json) list" where
  "str_field name v = (case v of None \<Rightarrow> [] | Some s \<Rightarrow> [(name, JStr s)])"

definition list_field :: "string \<Rightarrow> string list option \<Rightarrow> (string \<times> json) list" where
  "list_field name v = (case v of None \<Rightarrow> [] | Some ss \<Rightarrow> [(name, JArr (map JStr ss))])"

definition patch_json :: "policy_patch \<Rightarrow> json" where
  "patch_json p =
     JObj (str_field ''mode'' (pa_Mode p) @ str_field ''gate_approval_mode'' (pa_GateApprovalMode p)
       @ list_field ''required_test_kinds'' (pa_RequiredTestKinds p)
       @ list_field ''allowed_target_branches'' (pa_AllowedTargetBranches p)
       @ str_field ''merge_method'' (pa_MergeMethod p) @ str_field ''deployment_workflow'' (pa_DeploymentWorkflow p)
       @ str_field ''deployment_environment'' (pa_DeploymentEnvironment p)
       @ list_field ''required_secret_references'' (pa_RequiredSecretReferences p)
       @ list_field ''required_variable_references'' (pa_RequiredVariableReferences p)
       @ list_field ''required_health_checks'' (pa_RequiredHealthChecks p)
       @ list_field ''required_post_merge_checks'' (pa_RequiredPostMergeChecks p)
       @ str_field ''recovery_default'' (pa_RecoveryDefault p))"

text \<open>The text of an instant that may be absent; None when it cannot be written.\<close>

definition time_field :: "gotime option \<Rightarrow> (string \<times> json) list option" where
  "time_field t =
     (case t of
        None \<Rightarrow> Some []
      | Some t \<Rightarrow> (case rfc3339_nano t of None \<Rightarrow> None | Some s \<Rightarrow> Some [(''expires_at'', JStr s)]))"

definition LayerDigest :: "policy_layer \<Rightarrow> string option" where
  "LayerDigest l =
     (case time_field (la_ExpiresAt l) of
        None \<Rightarrow> None
      | Some expires \<Rightarrow>
          Some (sha256_hex (json_encode (JObj
            ([(''schema_version'', JInt (la_SchemaVersion l)), (''revision_id'', JStr (TrimSpace (la_RevisionID l))),
              (''level'', JStr (la_Level l))]
             @ omit_empty ''organization_id'' (TrimSpace (la_OrganizationID l))
             @ omit_empty ''project_id'' (TrimSpace (la_ProjectID l))
             @ omit_empty ''repository'' (TrimSpace (la_Repository l))
             @ omit_empty ''change_set_id'' (TrimSpace (la_ChangeSetID l))
             @ [(''patch'', patch_json (canonicalPatch (la_Patch l)))]
             @ omit_empty ''reason'' (TrimSpace (la_Reason l)) @ expires)))))"

definition context_json :: "policy_context \<Rightarrow> json" where
  "context_json c =
     JObj [(''organization_id'', JStr (cx_OrganizationID c)), (''project_id'', JStr (cx_ProjectID c)),
       (''repository'', JStr (cx_Repository c)), (''change_set_id'', JStr (cx_ChangeSetID c))]"

definition safety_json :: "safety_floor \<Rightarrow> json" where
  "safety_json s =
     JObj [(''independent_review'', JBool (sf_IndependentReview s)), (''exact_sha_evidence'', JBool (sf_ExactSHAEvidence s)),
       (''vault_reconciliation'', JBool (sf_VaultReconciliation s)), (''secret_scan'', JBool (sf_SecretScan s)),
       (''maximum_high_findings'', JInt (sf_MaximumHighFindings s)),
       (''maximum_critical_findings'', JInt (sf_MaximumCriticalFindings s)), (''compatibility'', JBool (sf_Compatibility s)),
       (''migrations'', JBool (sf_Migrations s)), (''dependency_order'', JBool (sf_DependencyOrder s)),
       (''environment'', JBool (sf_Environment s)), (''recovery'', JBool (sf_Recovery s)),
       (''human_approval'', JBool (sf_HumanApproval s)), (''force_merge_allowed'', JBool (sf_ForceMergeAllowed s))]"

definition source_json :: "policy_source \<Rightarrow> json option" where
  "source_json s =
     (case rfc3339_nano (so_ApprovedAt s) of
        None \<Rightarrow> None
      | Some at \<Rightarrow>
          Some (JObj [(''level'', JStr (so_Level s)), (''revision_id'', JStr (so_RevisionID s)), (''digest'', JStr (so_Digest s)),
            (''approved_by'', JStr (so_ApprovedBy s)), (''approved_at'', JStr at)]))"

fun option_list :: "'a option list \<Rightarrow> 'a list option" where
  "option_list [] = Some []"
| "option_list (x # xs) =
     (case x of None \<Rightarrow> None | Some v \<Rightarrow> (case option_list xs of None \<Rightarrow> None | Some vs \<Rightarrow> Some (v # vs)))"

definition resolvedDigest :: "resolved_policy \<Rightarrow> string option" where
  "resolvedDigest p =
     (case option_list (map source_json (rs_Sources p)) of
        None \<Rightarrow> None
      | Some sources \<Rightarrow>
          Some (sha256_hex (json_encode (JObj
            ([(''schema_version'', JInt (rs_SchemaVersion p)), (''context'', context_json (rs_Context p))]
             @ omit_empty ''mode'' (rs_Mode p)
             @ [(''gate_approval_mode'', JStr (rs_GateApprovalMode p)),
                (''required_test_kinds'', JArr (map JStr (rs_RequiredTestKinds p))),
                (''allowed_target_branches'', JArr (map JStr (rs_AllowedTargetBranches p)))]
             @ omit_empty ''merge_method'' (rs_MergeMethod p) @ omit_empty ''deployment_workflow'' (rs_DeploymentWorkflow p)
             @ omit_empty ''deployment_environment'' (rs_DeploymentEnvironment p)
             @ [(''required_secret_references'', JArr (map JStr (rs_RequiredSecretReferences p))),
                (''required_variable_references'', JArr (map JStr (rs_RequiredVariableReferences p))),
                (''required_health_checks'', JArr (map JStr (rs_RequiredHealthChecks p))),
                (''required_post_merge_checks'', JArr (map JStr (rs_RequiredPostMergeChecks p)))]
             @ omit_empty ''recovery_default'' (rs_RecoveryDefault p)
             @ [(''safety'', safety_json (rs_Safety p)), (''sources'', JArr sources), (''resolved'', JBool (rs_Resolved p)),
                (''missing'', JArr (map JStr (rs_Missing p))), (''digest'', JStr [])])))))"

subsection \<open>Resolution\<close>

definition normalizeContext :: "(string \<Rightarrow> parsed_url option) \<Rightarrow> policy_context \<Rightarrow> policy_context option" where
  "normalizeContext parse c =
     (let organizationID = TrimSpace (cx_OrganizationID c); projectID = TrimSpace (cx_ProjectID c);
          changeSetID = TrimSpace (cx_ChangeSetID c)
      in if \<not> identityPattern organizationID \<or> \<not> identityPattern projectID \<or> \<not> identityPattern changeSetID then None
         else (case CanonicalGitHubReference parse (cx_Repository c) of
             None \<Rightarrow> None
           | Some repository \<Rightarrow>
               Some \<lparr>cx_OrganizationID = organizationID, cx_ProjectID = projectID, cx_Repository = repository,
                     cx_ChangeSetID = changeSetID\<rparr>))"

definition validateScope :: "(string \<Rightarrow> parsed_url option) \<Rightarrow> policy_context \<Rightarrow> policy_layer \<Rightarrow> gotime \<Rightarrow> policy_error + unit" where
  "validateScope parse c l now =
     (let organizationID = TrimSpace (la_OrganizationID l); projectID = TrimSpace (la_ProjectID l);
          repository = TrimSpace (la_Repository l); changeSetID = TrimSpace (la_ChangeSetID l)
      in if la_Level l = LevelPlatform then
           (if organizationID \<noteq> [] \<or> projectID \<noteq> [] \<or> repository \<noteq> [] \<or> changeSetID \<noteq> [] \<or> la_ExpiresAt l \<noteq> None
            then Inl (ScopeMismatch LevelPlatform) else Inr ())
         else if la_Level l = LevelOrganization then
           (if organizationID \<noteq> cx_OrganizationID c \<or> projectID \<noteq> [] \<or> repository \<noteq> [] \<or> changeSetID \<noteq> [] \<or> la_ExpiresAt l \<noteq> None
            then Inl (ScopeMismatch LevelOrganization) else Inr ())
         else if la_Level l = LevelProject then
           (if organizationID \<noteq> cx_OrganizationID c \<or> projectID \<noteq> cx_ProjectID c \<or> repository \<noteq> [] \<or> changeSetID \<noteq> []
              \<or> la_ExpiresAt l \<noteq> None
            then Inl (ScopeMismatch LevelProject) else Inr ())
         else if la_Level l = LevelRepository then
           (if CanonicalGitHubReference parse repository \<noteq> Some (cx_Repository c) \<or> organizationID \<noteq> cx_OrganizationID c
              \<or> projectID \<noteq> cx_ProjectID c \<or> changeSetID \<noteq> [] \<or> la_ExpiresAt l \<noteq> None
            then Inl (ScopeMismatch LevelRepository) else Inr ())
         else if la_Level l = LevelOverride then
           (case la_ExpiresAt l of
              None \<Rightarrow> Inl (ScopeMismatch LevelOverride)
            | Some expires \<Rightarrow>
                if organizationID \<noteq> cx_OrganizationID c \<or> projectID \<noteq> cx_ProjectID c \<or> changeSetID \<noteq> cx_ChangeSetID c
                  \<or> TrimSpace (la_Reason l) = [] \<or> \<not> now < expires
                then Inl (ScopeMismatch LevelOverride)
                else if la_ApprovedAt l + maximumOverrideLifetime < expires then Inl OverrideLifetime
                else if repository \<noteq> [] \<and> CanonicalGitHubReference parse repository \<noteq> Some (cx_Repository c)
                then Inl OverrideRepository
                else Inr ())
         else Inl LevelUnsupported)"

definition validateLayer :: "(string \<Rightarrow> parsed_url option) \<Rightarrow> policy_context \<Rightarrow> policy_layer \<Rightarrow> gotime \<Rightarrow> policy_error + unit" where
  "validateLayer parse c l now =
     (if la_SchemaVersion l \<noteq> PolicySchemaVersion \<or> \<not> identityPattern (TrimSpace (la_RevisionID l)) \<or> \<not> la_Approved l
        \<or> \<not> identityPattern (TrimSpace (la_ApprovedBy l)) \<or> isZero (la_ApprovedAt l) \<or> now + minute < la_ApprovedAt l
      then Inl (NotApprovedCurrent (la_Level l))
      else case LayerDigest l of
          None \<Rightarrow> Inl (LayerDigestMismatch (la_Level l))
        | Some expected \<Rightarrow>
            if \<not> digest_match (ToLower (TrimSpace (la_Digest l))) \<or> \<not> EqualFold expected (la_Digest l)
            then Inl (LayerDigestMismatch (la_Level l))
            else (case validatePatch (la_Patch l) of
                Inl why \<Rightarrow> Inl (PatchInvalid (la_Level l) why)
              | Inr _ \<Rightarrow>
                  if pa_GateApprovalMode (la_Patch l) = Some GateApprovalDelegated \<and> la_Level l = LevelOverride
                  then Inl OverrideDelegates
                  else validateScope parse c l now))"

definition missingConfiguration :: "resolved_policy \<Rightarrow> string list" where
  "missingConfiguration p =
     (let delivers = (rs_Mode p = ModeMerge \<or> rs_Mode p = ModeRelease)
      in sort
       ((if rs_Mode p = [] then [''mode''] else [])
        @ (if \<not> rs_explicitTests p \<or> delivers \<and> rs_RequiredTestKinds p = [] then [''required_test_kinds''] else [])
        @ (if \<not> rs_explicitBranches p \<or> rs_AllowedTargetBranches p = [] then [''allowed_target_branches''] else [])
        @ (if delivers \<and> rs_MergeMethod p = [] then [''merge_method''] else [])
        @ (if rs_Mode p = ModeRelease then
             (if rs_DeploymentWorkflow p = [] then [''deployment_workflow''] else [])
             @ (if rs_DeploymentEnvironment p = [] then [''deployment_environment''] else [])
             @ (if \<not> rs_explicitSecretReferences p then [''required_secret_references''] else [])
             @ (if \<not> rs_explicitVariableReferences p then [''required_variable_references''] else [])
             @ (if rs_RequiredHealthChecks p = [] then [''required_health_checks''] else [])
             @ (if rs_RecoveryDefault p = [] then [''recovery_default''] else [])
           else [])))"

definition source_of :: "policy_layer \<Rightarrow> policy_source" where
  "source_of l =
     \<lparr>so_Level = la_Level l, so_RevisionID = TrimSpace (la_RevisionID l), so_Digest = ToLower (la_Digest l),
      so_ApprovedBy = TrimSpace (la_ApprovedBy l), so_ApprovedAt = la_ApprovedAt l\<rparr>"

definition applyLayer :: "policy_layer \<Rightarrow> resolved_policy \<Rightarrow> resolved_policy" where
  "applyLayer l r = (let r' = applyPatch r (la_Patch l) in r'\<lparr>rs_Sources := rs_Sources r' @ [source_of l]\<rparr>)"

fun applyLayers ::
  "(policy_layer \<Rightarrow> policy_error + unit) \<Rightarrow> policy_level list \<Rightarrow> policy_layer list \<Rightarrow> resolved_policy \<Rightarrow> policy_error + resolved_policy" where
  "applyLayers validate seen [] r = Inr r"
| "applyLayers validate seen (l # ls) r =
     (if la_Level l \<in> set seen then Inl (DuplicateLayer (la_Level l))
      else bindE (validate l) (\<lambda>_. applyLayers validate (seen @ [la_Level l]) ls (applyLayer l r)))"

definition unresolved :: "policy_context \<Rightarrow> resolved_policy" where
  "unresolved c =
     \<lparr>rs_SchemaVersion = PolicySchemaVersion, rs_Context = c, rs_Mode = [], rs_GateApprovalMode = GateApprovalHuman,
      rs_RequiredTestKinds = [], rs_AllowedTargetBranches = [], rs_MergeMethod = [], rs_DeploymentWorkflow = [],
      rs_DeploymentEnvironment = [], rs_RequiredSecretReferences = [], rs_RequiredVariableReferences = [],
      rs_RequiredHealthChecks = [], rs_RequiredPostMergeChecks = [], rs_RecoveryDefault = [], rs_Safety = safetyFloor,
      rs_Sources = [], rs_Resolved = False, rs_Missing = [], rs_Digest = [], rs_explicitTests = False,
      rs_explicitBranches = False, rs_explicitSecretReferences = False, rs_explicitVariableReferences = False\<rparr>"

text \<open>The canonical lists, what is missing and the digest: the end of \<open>Resolve\<close>.\<close>

definition seal :: "resolved_policy \<Rightarrow> policy_error + resolved_policy" where
  "seal r =
     (let r1 = r\<lparr>rs_RequiredTestKinds := canonicalNames (rs_RequiredTestKinds r),
            rs_AllowedTargetBranches := canonicalBranches (rs_AllowedTargetBranches r),
            rs_RequiredHealthChecks := canonicalNames (rs_RequiredHealthChecks r),
            rs_RequiredSecretReferences := canonicalEnvironmentReferences (rs_RequiredSecretReferences r),
            rs_RequiredVariableReferences := canonicalEnvironmentReferences (rs_RequiredVariableReferences r),
            rs_RequiredPostMergeChecks := canonicalNames (rs_RequiredPostMergeChecks r)\<rparr>;
          missing = missingConfiguration r1;
          r2 = r1\<lparr>rs_Missing := missing, rs_Resolved := (missing = [])\<rparr>
      in case resolvedDigest r2 of None \<Rightarrow> Inl EncodeFailed | Some d \<Rightarrow> Inr (r2\<lparr>rs_Digest := d\<rparr>))"

definition Resolve ::
  "(string \<Rightarrow> parsed_url option) \<Rightarrow> policy_context \<Rightarrow> policy_layer list \<Rightarrow> gotime \<Rightarrow> policy_error + resolved_policy" where
  "Resolve parse context layers now =
     (case normalizeContext parse context of
        None \<Rightarrow> Inl ContextInvalid
      | Some c \<Rightarrow>
          if isZero now then Inl ContextInvalid
          else bindE (applyLayers (\<lambda>l. validateLayer parse c l now) [] (sort_key (\<lambda>l. precedence (la_Level l)) layers) (unresolved c)) seal)"

definition GatePolicyFor :: "resolved_policy \<Rightarrow> gate_action \<Rightarrow> gate_policy" where
  "GatePolicyFor p action =
     (let actionAllowed = (action = ActionMerge \<and> (rs_Mode p = ModeMerge \<or> rs_Mode p = ModeRelease)
            \<or> action = ActionRelease \<and> rs_Mode p = ModeRelease)
      in \<lparr>gp_Resolved = (rs_Resolved p \<and> actionAllowed \<and> digest_match (rs_Digest p)), gp_Digest = rs_Digest p,
          gp_RequiredTestKinds = rs_RequiredTestKinds p, gp_Repositories = []\<rparr>)"

definition AllowsTargetBranch :: "resolved_policy \<Rightarrow> string \<Rightarrow> bool" where
  "AllowsTargetBranch p branch =
     (if \<not> rs_Resolved p \<or> branch \<noteq> TrimSpace branch then False else branch \<in> set (rs_AllowedTargetBranches p))"

text \<open>
  The policy evidence that internal/releasegatecontrol/evidence.go hands to the gate for one
  revision of the matrix.
\<close>

definition repositoryPolicyEvidence :: "gate_action \<Rightarrow> resolved_policy \<Rightarrow> gate_revision \<Rightarrow> repository_policy" where
  "repositoryPolicyEvidence action policy revision =
     \<lparr>rp_Repository = ToLower (TrimSpace (rv_Repository revision)), rp_Digest = rs_Digest policy, rp_Resolved = rs_Resolved policy,
      rp_ActionAllowed = gp_Resolved (GatePolicyFor policy action), rp_BranchAllowed = AllowsTargetBranch policy (rv_Branch revision)\<rparr>"

end
