(* ===== verification/ReleaseGateProps.thy ===== *)
theory ReleaseGateProps
  imports ReleaseGate
begin

text \<open>
  The release gate against its declarative contract: an action is allowed exactly when every
  required piece of evidence is present, well-formed, unique, bound to the exact revisions and
  positive. The contract speaks about the evidence lists, not about the maps \<open>Evaluate\<close> builds, so it
  does not depend on the order of any list.
\<close>

subsection \<open>The loops\<close>

lemma collect_Inr_iff:
  "collect valid key norm seen vs = Inr ns \<longleftrightarrow>
     list_all valid vs \<and> distinct (map key vs) \<and> key ` set vs \<inter> set seen = {} \<and> ns = map norm vs"
  by (induction vs arbitrary: seen ns) (auto simp: bindE_Inr_iff)

lemma unique_loop_clean:
  "snd (unique_loop valid key invalid dup m vs) = [] \<longleftrightarrow>
     list_all valid vs \<and> distinct (map key vs) \<and> key ` set vs \<inter> fst ` set m = {}"
  by (induction vs arbitrary: m) auto

lemma unique_loop_map:
  "snd (unique_loop valid key invalid dup m vs) = [] \<Longrightarrow>
     fst (unique_loop valid key invalid dup m vs) = m @ map (\<lambda>v. (key v, v)) vs"
  by (induction vs arbitrary: m) (auto split: if_splits)

lemma map_of_keyed_iff:
  assumes "distinct (map key vs)"
  shows "map_of (map (\<lambda>v. (key v, v)) vs) k = Some v \<longleftrightarrow> v \<in> set vs \<and> key v = k"
    "map_of (map (\<lambda>v. (key v, v)) vs) k = None \<longleftrightarrow> k \<notin> key ` set vs"
proof -
  have "distinct (map fst (map (\<lambda>v. (key v, v)) vs))" using assms by (simp add: comp_def)
  from map_of_eq_Some_iff [OF this, of k v]
  show "map_of (map (\<lambda>v. (key v, v)) vs) k = Some v \<longleftrightarrow> v \<in> set vs \<and> key v = k" by auto
  show "map_of (map (\<lambda>v. (key v, v)) vs) k = None \<longleftrightarrow> k \<notin> key ` set vs" by (auto simp: map_of_eq_None_iff image_image)
qed

text \<open>What a lookup in the map of unique evidence finds, once no reason was added for it.\<close>

lemma keyed_all:
  assumes "distinct (map key vs)"
  shows "(case map_of (map (\<lambda>v. (key v, v)) vs) k of None \<Rightarrow> [x] | Some v \<Rightarrow> f v) = [] \<longleftrightarrow>
     (\<exists>v \<in> set vs. key v = k \<and> f v = [])"
proof (cases "map_of (map (\<lambda>v. (key v, v)) vs) k")
  case None
  then have "k \<notin> key ` set vs" using assms by (simp add: map_of_keyed_iff)
  then show ?thesis unfolding None by auto
next
  case (Some v)
  then have v: "v \<in> set vs" "key v = k" using assms by (simp_all add: map_of_keyed_iff)
  have "w = v" if "w \<in> set vs" "key w = k" for w
    using that v inj_onD [OF distinct_map_inj_on [OF assms], of w v] by simp
  then have "f v = [] \<longleftrightarrow> (\<exists>w \<in> set vs. key w = k \<and> f w = [])" using v by blast
  then show ?thesis unfolding Some by simp
qed

subsection \<open>The contract\<close>

definition one_per_repository :: "('a \<Rightarrow> string) \<Rightarrow> 'a list \<Rightarrow> bool" where
  "one_per_repository repo vs \<longleftrightarrow> (\<forall>v \<in> set vs. validRepository (repo v)) \<and> distinct (map (\<lambda>v. repo_key (repo v)) vs)"

definition about :: "('a \<Rightarrow> string) \<Rightarrow> gate_revision \<Rightarrow> 'a \<Rightarrow> bool" where
  "about repo r v \<longleftrightarrow> repo_key (repo v) = ToLower (rv_Repository r)"

text \<open>A check that passed on the head of the revision, and the checks that carry a required name.\<close>

definition passed_check :: "gate_revision \<Rightarrow> check_evidence \<Rightarrow> bool" where
  "passed_check r c \<longleftrightarrow> equalSHA (ck_HeadSHA c) (rv_SHA r) \<and> ck_Status c = StatusPassed"

definition named_checks :: "gate_input \<Rightarrow> gate_revision \<Rightarrow> required_check \<Rightarrow> check_evidence set" where
  "named_checks i r required =
     {c \<in> set (gi_Checks i). check_group c = group_key (ToLower (rv_Repository r)) (ToLower (rc_Name required))}"

definition check_satisfied :: "gate_input \<Rightarrow> gate_revision \<Rightarrow> required_check \<Rightarrow> bool" where
  "check_satisfied i r required \<longleftrightarrow>
     (if rc_IntegrationID required > 0
      then (\<exists>c \<in> named_checks i r required. ck_IntegrationID c = rc_IntegrationID required)
        \<and> (\<forall>c \<in> named_checks i r required. ck_IntegrationID c \<in> {0, rc_IntegrationID required} \<longrightarrow> passed_check r c)
      else (\<exists>c. named_checks i r required = {c} \<and> passed_check r c))"

definition branch_ready :: "gate_input \<Rightarrow> gate_revision \<Rightarrow> bool" where
  "branch_ready i r \<longleftrightarrow>
     (\<exists>b \<in> set (gi_Branches i). about be_Repository r b \<and> equalSHA (be_HeadSHA b) (rv_SHA r)
        \<and> be_ProtectionEvaluated b \<and> be_Protected b \<and> be_Mergeable b \<and> be_ConflictFree b
        \<and> validRequiredChecks (be_RequiredChecks b) \<and> list_all (check_satisfied i r) (be_RequiredChecks b))"

text \<open>A review of the exact head; those with an invalid repository or a negative count are ignored.\<close>

definition head_review :: "gate_input \<Rightarrow> gate_revision \<Rightarrow> review_evidence \<Rightarrow> bool" where
  "head_review i r v \<longleftrightarrow> v \<in> set (gi_Reviews i) \<and> validRepository (re_Repository v) \<and> 0 \<le> re_BlockingChangeRequests v
     \<and> about re_Repository r v \<and> equalSHA (re_HeadSHA v) (rv_SHA r)"

definition review_ready :: "gate_input \<Rightarrow> gate_revision \<Rightarrow> bool" where
  "review_ready i r \<longleftrightarrow>
     (\<exists>v. head_review i r v \<and> re_Approved v)
     \<and> (\<forall>v. head_review i r v \<longrightarrow> re_BlockingChangeRequests v = 0
          \<and> (re_Approved v \<longrightarrow> independentActors (re_AuthorActor v) (re_ReviewerActor v)))"

definition vault_ready :: "gate_input \<Rightarrow> gate_revision \<Rightarrow> bool" where
  "vault_ready i r \<longleftrightarrow>
     (\<exists>v \<in> set (gi_Vault i). about ve_Repository r v \<and> equalSHA (ve_HeadSHA v) (rv_SHA r)
        \<and> ve_Reconciled v \<and> TrimSpace (ve_RevisionID v) \<noteq> [])"

definition security_ready :: "gate_input \<Rightarrow> gate_revision \<Rightarrow> bool" where
  "security_ready i r \<longleftrightarrow>
     (\<exists>s \<in> set (gi_Security i). about se_Repository r s \<and> equalSHA (se_HeadSHA s) (rv_SHA r)
        \<and> se_SecretScanPassed s \<and> se_HighFindings s = 0 \<and> se_CriticalFindings s = 0)"

definition policy_ready :: "gate_input \<Rightarrow> gate_revision \<Rightarrow> bool" where
  "policy_ready i r \<longleftrightarrow>
     (\<exists>p \<in> set (gp_Repositories (gi_Policy i)). about rp_Repository r p \<and> rp_Resolved p \<and> rp_ActionAllowed p \<and> rp_BranchAllowed p)"

definition test_ready :: "gate_input \<Rightarrow> string \<Rightarrow> string \<Rightarrow> bool" where
  "test_ready i matrixDigest kind \<longleftrightarrow>
     (\<exists>t \<in> set (gi_Tests i). ToLower (TrimSpace (te_Kind t)) = ToLower kind \<and> equalDigest (te_MatrixDigest t) matrixDigest
        \<and> te_Status t = StatusPassed)"

definition matrix_ready :: "matrix_evidence \<Rightarrow> string \<Rightarrow> bool" where
  "matrix_ready e matrixDigest \<longleftrightarrow> equalDigest (me_MatrixDigest e) matrixDigest \<and> me_Status e = StatusPassed"

definition recovery_ready :: "recovery_evidence \<Rightarrow> string \<Rightarrow> bool" where
  "recovery_ready e matrixDigest \<longleftrightarrow>
     equalDigest (ry_MatrixDigest e) matrixDigest \<and> ry_Evaluated e \<and> valid_classification (ry_Classification e)
     \<and> (ry_Classification e = RecoveryIrreversible \<longrightarrow> ry_HumanApproved e)"

definition approved_by_human :: "human_approval option \<Rightarrow> string \<Rightarrow> bool" where
  "approved_by_human approval subject \<longleftrightarrow>
     (\<exists>a. approval = Some a \<and> ha_Approved a \<and> EqualFold (TrimSpace (ha_ActorType a)) ''human'' \<and> TrimSpace (ha_Actor a) \<noteq> []
        \<and> equalDigest (ha_SubjectDigest a) subject)"

definition evidence_unambiguous :: "gate_input \<Rightarrow> bool" where
  "evidence_unambiguous i \<longleftrightarrow>
     one_per_repository rp_Repository (gp_Repositories (gi_Policy i)) \<and> one_per_repository be_Repository (gi_Branches i)
     \<and> one_per_repository ve_Repository (gi_Vault i) \<and> one_per_repository se_Repository (gi_Security i)
     \<and> (\<forall>t \<in> set (gi_Tests i). evidenceNamePattern (TrimSpace (te_Kind t)))
     \<and> distinct (map (\<lambda>t. ToLower (TrimSpace (te_Kind t))) (gi_Tests i))
     \<and> (\<forall>c \<in> set (gi_Checks i). valid_check c) \<and> distinct (map check_identity (gi_Checks i))"

definition subject_of :: "gate_input \<Rightarrow> gate_revision list \<Rightarrow> string" where
  "subject_of i ns =
     subjectDigest (gi_Action i) (digest_or_empty (RevisionMatrixDigest ns))
       (digest_or_empty (CompositePolicyDigest (gp_Repositories (gi_Policy i))))
       (digest_or_empty (VaultEvidenceDigest (gi_Vault i))) (digest_or_empty (BranchRequirementsDigest (gi_Branches i)))
       (gp_RequiredTestKinds (gi_Policy i)) (ry_Classification (gi_Recovery i))"

definition policy_agrees :: "gate_input \<Rightarrow> gate_revision list \<Rightarrow> bool" where
  "policy_agrees i ns \<longleftrightarrow>
     gp_Resolved (gi_Policy i) \<and> isOk (CompositePolicyDigest (gp_Repositories (gi_Policy i)))
     \<and> equalDigest (gp_Digest (gi_Policy i)) (digest_or_empty (CompositePolicyDigest (gp_Repositories (gi_Policy i))))
     \<and> validUniqueNames (gp_RequiredTestKinds (gi_Policy i)) \<and> length (gp_Repositories (gi_Policy i)) = length ns"

definition release_ready :: "gate_input \<Rightarrow> bool" where
  "release_ready i \<longleftrightarrow>
     valid_identity i \<and> evidence_unambiguous i
     \<and> isOk (VaultEvidenceDigest (gi_Vault i)) \<and> isOk (BranchRequirementsDigest (gi_Branches i))
     \<and> (\<exists>ns matrixDigest. normalizeRevisions (gi_Revisions i) = Inr ns \<and> matrixDigest = digest_or_empty (RevisionMatrixDigest ns)
        \<and> policy_agrees i ns
        \<and> (\<forall>r \<in> set ns. policy_ready i r \<and> branch_ready i r \<and> review_ready i r \<and> vault_ready i r \<and> security_ready i r)
        \<and> list_all (test_ready i matrixDigest) (gp_RequiredTestKinds (gi_Policy i))
        \<and> matrix_ready (gi_Compatibility i) matrixDigest \<and> matrix_ready (gi_Migrations i) matrixDigest
        \<and> matrix_ready (gi_Dependencies i) matrixDigest \<and> matrix_ready (gi_Environment i) matrixDigest
        \<and> recovery_ready (gi_Recovery i) matrixDigest \<and> approved_by_human (gi_HumanApproval i) (subject_of i ns))"

subsection \<open>Each stage adds no reason exactly when its part of the contract holds\<close>

lemma review_loop_clean:
  "fst (review_loop r approved seen vs) = [] \<and> fst (snd (review_loop r approved seen vs)) \<longleftrightarrow>
     (approved \<or> (\<exists>v \<in> set vs. equalSHA (re_HeadSHA v) (rv_SHA r) \<and> re_Approved v))
     \<and> (\<forall>v \<in> set vs. equalSHA (re_HeadSHA v) (rv_SHA r) \<longrightarrow> re_BlockingChangeRequests v \<le> 0
          \<and> (re_Approved v \<longrightarrow> independentActors (re_AuthorActor v) (re_ReviewerActor v)))"
  by (induction r approved seen vs rule: review_loop.induct) auto

lemma review_clean:
  "review_reasons (groupReviews (gi_Reviews i)) r = [] \<longleftrightarrow> review_ready i r"
proof -
  define mine where "mine = grouped (groupReviews (gi_Reviews i)) (ToLower (rv_Repository r))"
  have mem: "head_review i r v \<longleftrightarrow> v \<in> set mine \<and> equalSHA (re_HeadSHA v) (rv_SHA r)" for v
    by (auto simp: mine_def grouped_def groupReviews_def head_review_def about_def image_iff)
  have nonneg: "v \<in> set mine \<Longrightarrow> re_BlockingChangeRequests v \<le> 0 \<longleftrightarrow> re_BlockingChangeRequests v = 0" for v
    by (auto simp: mine_def grouped_def groupReviews_def)
  obtain reasons approved seen where l: "review_loop r False False mine = (reasons, approved, seen)" by (cases "review_loop r False False mine")
  have "review_reasons (groupReviews (gi_Reviews i)) r = [] \<longleftrightarrow> reasons = [] \<and> approved"
    by (simp add: review_reasons_def Let_def mine_def [symmetric] l)
  also have "\<dots> \<longleftrightarrow> review_ready i r"
    using review_loop_clean [of r False False mine] unfolding l review_ready_def mem by (simp add: nonneg conj_commute cong: conj_cong) blast
  finally show ?thesis .
qed

lemma keyed_loop:
  assumes "snd (unique_loop valid key invalid dup [] vs) = []"
  shows "fst (unique_loop valid key invalid dup [] vs) = map (\<lambda>v. (key v, v)) vs"
  using unique_loop_map [OF assms] by simp

lemma one_per_repository_iff:
  "one_per_repository repo vs \<longleftrightarrow> list_all (\<lambda>v. validRepository (repo v)) vs \<and> distinct (map (\<lambda>v. repo_key (repo v)) vs)"
  by (simp add: one_per_repository_def list_all_iff)

lemma unique_vault: "snd (uniqueVault vs) = [] \<longleftrightarrow> one_per_repository ve_Repository vs"
  by (simp add: uniqueVault_def unique_loop_clean one_per_repository_iff)

lemma unique_security: "snd (uniqueSecurity vs) = [] \<longleftrightarrow> one_per_repository se_Repository vs"
  by (simp add: uniqueSecurity_def unique_loop_clean one_per_repository_iff)

lemma TrimSpace_repository_char: "alnum_char c \<or> c \<in> set ''_.-/'' \<Longrightarrow> graph_char c"
  unfolding graph_char_def alnum_char_def digit_char_def lower_letter_def upper_letter_def
  by (auto simp: less_eq_char_def)

lemma Split_chars: "set s \<subseteq> insert sep (\<Union> (set ` set (Split s sep)))"
proof (induction s)
  case (Cons c cs)
  then show ?case by (cases "Split cs sep") (auto split: list.splits)
qed simp

lemma validRepository_graph: "validRepository s \<Longrightarrow> list_all graph_char s"
proof -
  assume "validRepository s"
  then obtain owner name where p: "Split s (CHR ''/'') = [owner, name]" "repositoryPartPattern owner" "repositoryPartPattern name"
    unfolding validRepository_def by (auto split: list.splits)
  have "set s \<subseteq> insert (CHR ''/'') (set owner \<union> set name)" using Split_chars [of s "CHR ''/''"] p(1) by auto
  moreover have "c \<in> set owner \<union> set name \<Longrightarrow> alnum_char c \<or> c \<in> set ''_.-/''" for c
    using p(2,3) by (auto simp: repositoryPartPattern_def list_all_iff)
  moreover have "graph_char (CHR ''/'')" by code_simp
  ultimately show "list_all graph_char s" unfolding list_all_iff using TrimSpace_repository_char by blast
qed

lemma validRepository_key [simp]: "validRepository s \<Longrightarrow> repo_key s \<noteq> []"
  using TrimSpace_all_graph [OF validRepository_graph, of s] by (auto simp: repo_key_def validRepository_def)

lemma unique_branches: "snd (uniqueBranches vs) = [] \<longleftrightarrow> one_per_repository be_Repository vs"
  unfolding uniqueBranches_def unique_loop_clean one_per_repository_iff by (auto simp: list_all_iff)

lemma unique_tests:
  "snd (uniqueTests vs) = [] \<longleftrightarrow>
     (\<forall>t \<in> set vs. evidenceNamePattern (TrimSpace (te_Kind t))) \<and> distinct (map (\<lambda>t. ToLower (TrimSpace (te_Kind t))) vs)"
  by (simp add: uniqueTests_def unique_loop_clean list_all_iff)

lemma unique_policies:
  "snd (uniqueRepositoryPolicies vs) = [] \<longleftrightarrow>
     one_per_repository rp_Repository vs \<and> (\<forall>p \<in> set vs. validDigest (ToLower (TrimSpace (rp_Digest p))))"
  unfolding uniqueRepositoryPolicies_def unique_loop_clean one_per_repository_iff by (auto simp: list_all_iff)

lemma group_checks:
  "snd (groupChecks vs) = [] \<longleftrightarrow> (\<forall>c \<in> set vs. valid_check c) \<and> distinct (map check_identity vs)"
  "snd (groupChecks vs) = [] \<Longrightarrow> fst (groupChecks vs) = map (\<lambda>v. (check_group v, v)) vs"
proof -
  define l where "l = unique_loop valid_check check_identity (\<lambda>v. Reason ''check_evidence_invalid'' [] ''check'')
    (\<lambda>v. Reason ''check_evidence_duplicate'' (ck_Repository v) (TrimSpace (ck_Name v))) [] vs"
  have g: "groupChecks vs = (map (\<lambda>(_, v). (check_group v, v)) (fst l), snd l)"
    by (simp add: groupChecks_def l_def split: prod.splits)
  show "snd (groupChecks vs) = [] \<longleftrightarrow> (\<forall>c \<in> set vs. valid_check c) \<and> distinct (map check_identity vs)"
    by (simp add: g l_def unique_loop_clean list_all_iff)
  assume "snd (groupChecks vs) = []"
  then have "fst l = map (\<lambda>v. (check_identity v, v)) vs" unfolding g l_def by (intro keyed_loop) simp
  then show "fst (groupChecks vs) = map (\<lambda>v. (check_group v, v)) vs" by (simp add: g)
qed

lemma vault_clean:
  "one_per_repository ve_Repository (gi_Vault i) \<Longrightarrow> vault_reasons (fst (uniqueVault (gi_Vault i))) r = [] \<longleftrightarrow> vault_ready i r"
  using unique_vault [of "gi_Vault i"]
  by (auto simp: vault_reasons_def uniqueVault_def keyed_loop keyed_all one_per_repository_iff vault_ready_def about_def)

lemma security_clean:
  "one_per_repository se_Repository (gi_Security i) \<Longrightarrow>
     security_reasons (fst (uniqueSecurity (gi_Security i))) r = [] \<longleftrightarrow> security_ready i r"
proof -
  have z: "(x < 0 \<or> y < 0 \<or> 0 < x \<or> 0 < y) = (\<not> (x = 0 \<and> y = 0))" for x y :: int by arith
  assume "one_per_repository se_Repository (gi_Security i)"
  with unique_security [of "gi_Security i"] show ?thesis
    unfolding security_reasons_def z
    by (auto simp: uniqueSecurity_def keyed_loop keyed_all one_per_repository_iff security_ready_def about_def)
qed

lemma judge_clean: "judge_check r required c = [] \<longleftrightarrow> passed_check r c"
  by (simp add: judge_check_def passed_check_def)

lemma check_identity_group:
  "check_group c = check_group d \<Longrightarrow> ck_IntegrationID c = ck_IntegrationID d \<Longrightarrow> check_identity c = check_identity d"
  by (simp add: check_identity_def)

lemma required_check_clean:
  assumes "distinct (map check_identity (gi_Checks i))"
  shows "required_check_reasons r (map (\<lambda>v. (check_group v, v)) (gi_Checks i)) required = [] \<longleftrightarrow> check_satisfied i r required"
proof -
  define cs where "cs = filter (\<lambda>c. check_group c = group_key (ToLower (rv_Repository r)) (ToLower (rc_Name required))) (gi_Checks i)"
  have g: "grouped (map (\<lambda>v. (check_group v, v)) (gi_Checks i)) (group_key (ToLower (rv_Repository r)) (ToLower (rc_Name required))) = cs"
    by (simp add: grouped_def cs_def filter_map comp_def)
  have set: "named_checks i r required = set cs" by (auto simp: named_checks_def cs_def)
  have same: "c = d" if "c \<in> set cs" "d \<in> set cs" "ck_IntegrationID c = ck_IntegrationID d" for c d
    using that check_identity_group [of c d] distinct_map_inj_on [OF assms] by (auto simp: cs_def inj_on_def)
  have dist: "distinct cs" using assms by (simp add: cs_def distinct_map)
  show ?thesis
  proof (cases "rc_IntegrationID required > 0")
    case True
    show ?thesis
    proof (cases "find (\<lambda>c. ck_IntegrationID c = rc_IntegrationID required) cs")
      case None
      then have "\<not> (\<exists>c \<in> set cs. ck_IntegrationID c = rc_IntegrationID required)" by (auto simp: find_None_iff)
      then show ?thesis using True None
        by (auto simp: required_check_reasons_def g select_check_def check_satisfied_def set split: if_splits)
    next
      case (Some c)
      then have c: "c \<in> set cs" "ck_IntegrationID c = rc_IntegrationID required" using find_mem by fastforce+
      have "required_check_reasons r (map (\<lambda>v. (check_group v, v)) (gi_Checks i)) required = [] \<longleftrightarrow>
          passed_check r c \<and> (\<forall>d \<in> set cs. ck_IntegrationID d = 0 \<longrightarrow> passed_check r d)"
        using True Some by (auto simp: required_check_reasons_def g select_check_def judge_clean Let_def)
      also have "\<dots> \<longleftrightarrow> check_satisfied i r required"
        using True c same unfolding check_satisfied_def set by (metis insert_iff singletonD)
      finally show ?thesis .
    qed
  next
    case False
    have "(\<exists>c. set cs = {c} \<and> passed_check r c) \<longleftrightarrow> (\<exists>c. cs = [c] \<and> passed_check r c)"
    proof -
      have "set cs = {c} \<longleftrightarrow> cs = [c]" for c
      proof
        assume c: "set cs = {c}"
        then have "length cs = Suc 0" using distinct_card [OF dist] by simp
        then obtain d where "cs = [d]" unfolding length_Suc_conv by blast
        with c show "cs = [c]" by simp
      qed simp
      then show ?thesis by simp
    qed
    then have sat: "check_satisfied i r required \<longleftrightarrow> (\<exists>c. cs = [c] \<and> passed_check r c)"
      using False by (simp add: check_satisfied_def set)
    have "required_check_reasons r (map (\<lambda>v. (check_group v, v)) (gi_Checks i)) required = [] \<longleftrightarrow> (\<exists>c. cs = [c] \<and> passed_check r c)"
      using False unfolding required_check_reasons_def g select_check_def Let_def
      by (simp add: judge_clean split: list.split)
    with sat show ?thesis by simp
  qed
qed

lemma if_reason_Nil:
  "(if P then [] else [x]) = [] \<longleftrightarrow> P" "(if P then [x] else if Q then [y] else []) = [] \<longleftrightarrow> \<not> P \<and> \<not> Q"
  "(if P then [x] else xs) = [] \<longleftrightarrow> \<not> P \<and> xs = []"
  by simp_all

lemma if_then_Nil: "(if P then xs else []) = [] \<longleftrightarrow> (P \<longrightarrow> xs = [])"
  by simp

lemma state_allowed: "(if P then ''allowed'' else ''blocked'') = ''allowed'' \<longleftrightarrow> P"
  by simp

lemma branch_clean:
  assumes b: "one_per_repository be_Repository (gi_Branches i)" and c: "snd (groupChecks (gi_Checks i)) = []"
  shows "branch_reasons (fst (uniqueBranches (gi_Branches i))) (fst (groupChecks (gi_Checks i))) r = [] \<longleftrightarrow> branch_ready i r"
proof -
  have m: "fst (uniqueBranches (gi_Branches i)) = map (\<lambda>v. (repo_key (be_Repository v), v)) (gi_Branches i)"
    using b unfolding unique_branches [symmetric] uniqueBranches_def by (rule keyed_loop)
  have d: "distinct (map (\<lambda>v. repo_key (be_Repository v)) (gi_Branches i))" using b by (simp add: one_per_repository_iff)
  have req: "concat (map (required_check_reasons r (map (\<lambda>v. (check_group v, v)) (gi_Checks i))) rs) = [] \<longleftrightarrow>
      list_all (check_satisfied i r) rs" for rs
    using c by (simp add: group_checks(1) required_check_clean list_all_iff)
  show ?thesis
    unfolding branch_reasons_def Let_def m group_checks(2) [OF c] keyed_all [OF d] branch_ready_def about_def
      append_is_Nil_conv if_reason_Nil req
    by (intro bex_cong refl) (simp add: req)
qed

lemma policy_digest_ok:
  "isOk (CompositePolicyDigest ps) \<Longrightarrow> p \<in> set ps \<Longrightarrow> validDigest (ToLower (TrimSpace (rp_Digest p)))"
  by (auto simp: CompositePolicyDigest_def isOk_iff bindE_Inr_iff collect_Inr_iff list_all_iff valid_policy_def split: if_splits)

lemma policy_clean:
  "snd (evaluate_policy i ns) = [] \<longleftrightarrow>
     one_per_repository rp_Repository (gp_Repositories (gi_Policy i)) \<and> policy_agrees i ns \<and> (\<forall>r \<in> set ns. policy_ready i r)"
  "snd (evaluate_policy i ns) = [] \<Longrightarrow> fst (evaluate_policy i ns) = digest_or_empty (CompositePolicyDigest (gp_Repositories (gi_Policy i)))"
proof -
  let ?ps = "gp_Repositories (gi_Policy i)"
  let ?u = "uniqueRepositoryPolicies ?ps"
  let ?per = "concat (map (policy_reasons (gi_Action i) (fst ?u)) ns)"
  let ?ready = "isOk (CompositePolicyDigest ?ps) \<and> equalDigest (gp_Digest (gi_Policy i)) (digest_or_empty (CompositePolicyDigest ?ps))
    \<and> validUniqueNames (gp_RequiredTestKinds (gi_Policy i))"
  have s: "snd (evaluate_policy i ns) = [] \<longleftrightarrow> snd ?u = [] \<and> ?ready \<and> ?per = [] \<and> gp_Resolved (gi_Policy i) \<and> length (fst ?u) = length ns"
    by (auto simp: evaluate_policy_def Let_def split: prod.splits)
  have m: "fst ?u = map (\<lambda>v. (repo_key (rp_Repository v), v)) ?ps" if "snd ?u = []"
    using that unfolding uniqueRepositoryPolicies_def by (rule keyed_loop)
  have per: "?per = [] \<longleftrightarrow> (\<forall>r \<in> set ns. policy_ready i r)" if u: "snd ?u = []"
  proof -
    have d: "distinct (map (\<lambda>v. repo_key (rp_Repository v)) ?ps)" using u by (simp add: unique_policies one_per_repository_iff)
    have "policy_reasons (gi_Action i) (fst ?u) r = [] \<longleftrightarrow> policy_ready i r" for r
      unfolding policy_reasons_def m [OF u] keyed_all [OF d] policy_ready_def about_def by auto
    then show ?thesis by simp
  qed
  have u: "?ready \<Longrightarrow> snd ?u = [] \<longleftrightarrow> one_per_repository rp_Repository ?ps"
    using policy_digest_ok by (auto simp: unique_policies)
  show "snd (evaluate_policy i ns) = [] \<longleftrightarrow>
      one_per_repository rp_Repository ?ps \<and> policy_agrees i ns \<and> (\<forall>r \<in> set ns. policy_ready i r)"
    unfolding s policy_agrees_def using m per u by auto
  show "snd (evaluate_policy i ns) = [] \<Longrightarrow> fst (evaluate_policy i ns) = digest_or_empty (CompositePolicyDigest ?ps)"
    by (auto simp: evaluate_policy_def Let_def split: prod.splits if_splits)
qed

lemma test_clean:
  assumes "snd (uniqueTests (gi_Tests i)) = []"
  shows "test_reasons (fst (uniqueTests (gi_Tests i))) matrixDigest kind = [] \<longleftrightarrow> test_ready i matrixDigest kind"
proof -
  have m: "fst (uniqueTests (gi_Tests i)) = map (\<lambda>v. (ToLower (TrimSpace (te_Kind v)), v)) (gi_Tests i)"
    using assms unfolding uniqueTests_def by (rule keyed_loop)
  have d: "distinct (map (\<lambda>v. ToLower (TrimSpace (te_Kind v))) (gi_Tests i))" using assms by (simp add: unique_tests)
  show ?thesis unfolding test_reasons_def m keyed_all [OF d] test_ready_def by auto
qed

lemma matrix_clean: "evaluateMatrixEvidence name e matrixDigest = [] \<longleftrightarrow> matrix_ready e matrixDigest"
  by (simp add: evaluateMatrixEvidence_def matrix_ready_def)

lemma recovery_clean: "evaluateRecovery e matrixDigest = [] \<longleftrightarrow> recovery_ready e matrixDigest"
  by (auto simp: evaluateRecovery_def recovery_ready_def)

lemma approval_clean: "approval_reasons approval subject = [] \<longleftrightarrow> approved_by_human approval subject"
  by (auto simp: approval_reasons_def approved_by_human_def split: option.splits)

lemma equalDigest_valid:
  assumes "equalDigest l (sha256_hex x)"
  shows "validDigest l"
proof -
  have "ToLower (TrimSpace l) = sha256_hex x" using assms by (simp add: equalDigest_def)
  moreover have "validDigest (sha256_hex x)" using assms calculation by (simp add: equalDigest_def)
  ultimately show ?thesis by (simp add: validDigest_def)
qed

lemma composite_digest_sha: "isOk (CompositePolicyDigest ps) \<Longrightarrow> \<exists>x. digest_or_empty (CompositePolicyDigest ps) = sha256_hex x"
  by (auto simp: CompositePolicyDigest_def isOk_iff bindE_Inr_iff digest_or_empty_def digest_of_def split: if_splits)

lemma evaluate_state_iff:
  "gd_State (Evaluate i) = ''allowed'' \<longleftrightarrow> release_ready i"
proof (cases "normalizeRevisions (gi_Revisions i)")
  case (Inl e)
  then show ?thesis by (simp add: Evaluate_def Let_def release_ready_def)
next
  case (Inr ns)
  let ?m = "digest_or_empty (RevisionMatrixDigest ns)"
  obtain policyDigest from_policy where ep: "evaluate_policy i ns = (policyDigest, from_policy)" by (cases "evaluate_policy i ns")
  obtain branches from_branches where ub: "uniqueBranches (gi_Branches i) = (branches, from_branches)" by (cases "uniqueBranches (gi_Branches i)")
  obtain checks from_checks where gc: "groupChecks (gi_Checks i) = (checks, from_checks)" by (cases "groupChecks (gi_Checks i)")
  obtain vault from_vault where uv: "uniqueVault (gi_Vault i) = (vault, from_vault)" by (cases "uniqueVault (gi_Vault i)")
  obtain security from_security where us: "uniqueSecurity (gi_Security i) = (security, from_security)" by (cases "uniqueSecurity (gi_Security i)")
  obtain tests from_tests where ut: "uniqueTests (gi_Tests i) = (tests, from_tests)" by (cases "uniqueTests (gi_Tests i)")
  let ?subject = "subjectDigest (gi_Action i) ?m policyDigest (digest_or_empty (VaultEvidenceDigest (gi_Vault i)))
    (digest_or_empty (BranchRequirementsDigest (gi_Branches i))) (gp_RequiredTestKinds (gi_Policy i)) (ry_Classification (gi_Recovery i))"
  let ?tests = "gp_Resolved (gi_Policy i) \<and> validDigest (gp_Digest (gi_Policy i)) \<and> validUniqueNames (gp_RequiredTestKinds (gi_Policy i))"
  have "gd_State (Evaluate i) = ''allowed'' \<longleftrightarrow>
     valid_identity i \<and> from_policy = [] \<and> isOk (VaultEvidenceDigest (gi_Vault i)) \<and> isOk (BranchRequirementsDigest (gi_Branches i))
     \<and> from_branches = [] \<and> from_checks = [] \<and> from_vault = [] \<and> from_security = []
     \<and> (\<forall>r \<in> set ns. branch_reasons branches checks r = [] \<and> review_reasons (groupReviews (gi_Reviews i)) r = []
         \<and> vault_reasons vault r = [] \<and> security_reasons security r = [])
     \<and> from_tests = [] \<and> (?tests \<longrightarrow> (\<forall>k \<in> set (gp_RequiredTestKinds (gi_Policy i)). test_reasons tests ?m k = []))
     \<and> matrix_ready (gi_Compatibility i) ?m \<and> matrix_ready (gi_Migrations i) ?m \<and> matrix_ready (gi_Dependencies i) ?m
     \<and> matrix_ready (gi_Environment i) ?m \<and> recovery_ready (gi_Recovery i) ?m \<and> approved_by_human (gi_HumanApproval i) ?subject"
    unfolding Evaluate_def Let_def Inr sum.case ep ub gc uv us ut prod.case gate_decision.simps state_allowed
      append_is_Nil_conv if_reason_Nil matrix_clean recovery_clean approval_clean if_then_Nil
    by simp
  also have "\<dots> \<longleftrightarrow> release_ready i"
  proof -
    let ?per = "\<lambda>r. branch_ready i r \<and> review_ready i r \<and> vault_ready i r \<and> security_ready i r"
    have per: "(branch_reasons branches checks r = [] \<and> review_reasons (groupReviews (gi_Reviews i)) r = []
        \<and> vault_reasons vault r = [] \<and> security_reasons security r = []) \<longleftrightarrow> ?per r"
      if "from_branches = []" "from_checks = []" "from_vault = []" "from_security = []" for r
      using that branch_clean [of i r] review_clean [of i r] vault_clean [of i r] security_clean [of i r]
        unique_branches [of "gi_Branches i"] unique_vault [of "gi_Vault i"] unique_security [of "gi_Security i"]
      by (simp add: ub gc uv us)
    have tst: "test_reasons tests ?m k = [] \<longleftrightarrow> test_ready i ?m k" if "from_tests = []" for k
      using that test_clean [of i ?m k] by (simp add: ut)
    have unamb: "evidence_unambiguous i \<longleftrightarrow> one_per_repository rp_Repository (gp_Repositories (gi_Policy i))
        \<and> from_branches = [] \<and> from_vault = [] \<and> from_security = [] \<and> from_tests = [] \<and> from_checks = []"
      using unique_branches [of "gi_Branches i"] unique_vault [of "gi_Vault i"] unique_security [of "gi_Security i"]
        unique_tests [of "gi_Tests i"] group_checks(1) [of "gi_Checks i"]
      by (simp add: evidence_unambiguous_def ub gc uv us ut)
    have pol: "from_policy = [] \<longleftrightarrow>
        one_per_repository rp_Repository (gp_Repositories (gi_Policy i)) \<and> policy_agrees i ns \<and> (\<forall>r \<in> set ns. policy_ready i r)"
      using policy_clean(1) [of i ns] by (simp add: ep)
    have sub: "?subject = subject_of i ns" if "from_policy = []"
      using policy_clean(2) [of i ns] that by (simp add: ep subject_of_def)
    have kinds: "?tests" if "policy_agrees i ns"
      using that composite_digest_sha equalDigest_valid by (auto simp: policy_agrees_def) metis
    show ?thesis
      unfolding release_ready_def Inr unamb sum.inject list_all_iff
      using per tst pol sub kinds by (simp cong: conj_cong) blast
  qed
  finally show ?thesis .
qed

text \<open>
  C2. The release gate allows exactly what its evidence supports. The decision is \<open>allowed\<close> if and
  only if the input is identified, every list of evidence is well-formed and free of duplicates,
  and for each revision of the matrix there is an authorising policy, a protected and mergeable
  branch whose required checks all passed on that head, an independent approving review of that
  head with no change request open, a reconciled vault revision and a clean security scan; the
  required tests and the compatibility, migration, dependency, environment and recovery evidence
  are bound to this matrix; and a human approved the digest of exactly this subject.
\<close>

theorem gate_allows_exactly_ready_releases:
  "gd_State (Evaluate i) = ''allowed'' \<longleftrightarrow> release_ready i"
  by (rule evaluate_state_iff)

subsection \<open>Order of the evidence\<close>

lemma permuted_distinct: "mset xs = mset ys \<Longrightarrow> distinct (map f xs) = distinct (map f ys)"
  by (rule mset_eq_imp_distinct_iff) (rule permuted_map)

lemma permuted_length: "mset xs = mset ys \<Longrightarrow> length xs = length ys"
  by (rule mset_eq_length)

text \<open>Two results that agree, up to which error is reported.\<close>

definition same_outcome :: "gate_error + 'a \<Rightarrow> gate_error + 'a \<Rightarrow> bool" where
  "same_outcome r s \<longleftrightarrow> r = s \<or> \<not> isOk r \<and> \<not> isOk s"

lemma same_outcome_digest: "same_outcome r s \<Longrightarrow> digest_or_empty r = digest_or_empty s \<and> isOk r = isOk s"
  by (auto simp: same_outcome_def digest_or_empty_def isOk_def split: sum.splits)

lemma sorted_collect_permuted:
  assumes m: "mset vs = mset ws" and k: "\<And>v. skey (norm v) = key v"
  shows "same_outcome (if vs = [] \<or> length vs > n then Inl SizeInvalid else bindE (collect valid key norm [] vs) (\<lambda>ns. Inr (f (sort_key skey ns))))
     (if ws = [] \<or> length ws > n then Inl SizeInvalid else bindE (collect valid key norm [] ws) (\<lambda>ns. Inr (f (sort_key skey ns))))"
proof -
  have all: "list_all valid vs \<and> distinct (map key vs) \<longleftrightarrow> list_all valid ws \<and> distinct (map key ws)"
    using permuted_set [OF m] permuted_distinct [OF m, of key] by (simp add: list_all_iff)
  have size: "vs = [] \<longleftrightarrow> ws = []" "length vs = length ws" using permuted_length [OF m] m by auto
  show ?thesis
  proof (cases "list_all valid vs \<and> distinct (map key vs)")
    case True
    then have c: "collect valid key norm [] vs = Inr (map norm vs)" "collect valid key norm [] ws = Inr (map norm ws)"
      using all by (simp_all add: collect_Inr_iff)
    have "inj_on skey (set (map norm vs))" using True k by (auto simp: inj_on_def distinct_map)
    from sort_key_perm_eq [OF permuted_map [OF m, of norm] this] c size show ?thesis by (simp add: same_outcome_def)
  next
    case False
    then have "\<not> isOk (collect valid key norm [] vs)" "\<not> isOk (collect valid key norm [] ws)"
      using all by (auto simp: isOk_iff collect_Inr_iff)
    then show ?thesis by (auto simp: same_outcome_def isOk_def bindE_def split: sum.splits)
  qed
qed

lemma digests_permuted:
  "mset rs = mset rs' \<Longrightarrow> same_outcome (normalizeRevisions rs) (normalizeRevisions rs')"
  "mset ps = mset ps' \<Longrightarrow> same_outcome (CompositePolicyDigest ps) (CompositePolicyDigest ps')"
  "mset vs = mset vs' \<Longrightarrow> same_outcome (VaultEvidenceDigest vs) (VaultEvidenceDigest vs')"
  "mset bs = mset bs' \<Longrightarrow> same_outcome (BranchRequirementsDigest bs) (BranchRequirementsDigest bs')"
  unfolding normalizeRevisions_def CompositePolicyDigest_def VaultEvidenceDigest_def BranchRequirementsDigest_def
  by (rule sorted_collect_permuted; simp add: normal_revision_def normal_policy_def normal_vault_def normal_requirements_def)+

text \<open>Two inputs with the same evidence, each list in any order.\<close>

definition same_evidence :: "gate_input \<Rightarrow> gate_input \<Rightarrow> bool" where
  "same_evidence i j \<longleftrightarrow>
     gi_SchemaVersion j = gi_SchemaVersion i \<and> gi_Action j = gi_Action i \<and> gi_ChangeSetID j = gi_ChangeSetID i
     \<and> mset (gi_Revisions j) = mset (gi_Revisions i)
     \<and> gp_Resolved (gi_Policy j) = gp_Resolved (gi_Policy i) \<and> gp_Digest (gi_Policy j) = gp_Digest (gi_Policy i)
     \<and> mset (gp_RequiredTestKinds (gi_Policy j)) = mset (gp_RequiredTestKinds (gi_Policy i))
     \<and> mset (gp_Repositories (gi_Policy j)) = mset (gp_Repositories (gi_Policy i))
     \<and> mset (gi_Branches j) = mset (gi_Branches i) \<and> mset (gi_Checks j) = mset (gi_Checks i)
     \<and> mset (gi_Reviews j) = mset (gi_Reviews i) \<and> mset (gi_Vault j) = mset (gi_Vault i)
     \<and> mset (gi_Tests j) = mset (gi_Tests i) \<and> mset (gi_Security j) = mset (gi_Security i)
     \<and> gi_Compatibility j = gi_Compatibility i \<and> gi_Migrations j = gi_Migrations i \<and> gi_Dependencies j = gi_Dependencies i
     \<and> gi_Environment j = gi_Environment i \<and> gi_Recovery j = gi_Recovery i \<and> gi_HumanApproval j = gi_HumanApproval i"

lemma uniqueNames_iff:
  "uniqueNames seen vs \<longleftrightarrow> (\<forall>v \<in> set vs. evidenceNamePattern (TrimSpace v)) \<and> distinct (map (\<lambda>v. ToLower (TrimSpace v)) vs)
     \<and> (\<lambda>v. ToLower (TrimSpace v)) ` set vs \<inter> set seen = {}"
  by (induction seen vs rule: uniqueNames.induct) (auto simp: Let_def)

lemma subjectDigest_permuted:
  "mset ks = mset ks' \<Longrightarrow> subjectDigest a m p v q ks r = subjectDigest a m p v q ks' r"
proof -
  assume "mset ks = mset ks'"
  then have "sort (map (\<lambda>k. ToLower (TrimSpace k)) ks) = sort (map (\<lambda>k. ToLower (TrimSpace k)) ks')"
    by (intro sort_key_perm_eq permuted_map) auto
  then show ?thesis by (simp add: subjectDigest_def subject_json_def)
qed

lemma release_ready_permuted:
  assumes "same_evidence i j" "release_ready i"
  shows "release_ready j"
proof -
  have c: "gi_SchemaVersion j = gi_SchemaVersion i" "gi_Action j = gi_Action i" "gi_ChangeSetID j = gi_ChangeSetID i"
    "gp_Resolved (gi_Policy j) = gp_Resolved (gi_Policy i)" "gp_Digest (gi_Policy j) = gp_Digest (gi_Policy i)"
    "gi_Compatibility j = gi_Compatibility i" "gi_Migrations j = gi_Migrations i" "gi_Dependencies j = gi_Dependencies i"
    "gi_Environment j = gi_Environment i" "gi_Recovery j = gi_Recovery i" "gi_HumanApproval j = gi_HumanApproval i"
    using assms(1) unfolding same_evidence_def by blast+
  have m: "mset (gi_Revisions j) = mset (gi_Revisions i)"
    "mset (gp_RequiredTestKinds (gi_Policy j)) = mset (gp_RequiredTestKinds (gi_Policy i))"
    "mset (gp_Repositories (gi_Policy j)) = mset (gp_Repositories (gi_Policy i))"
    "mset (gi_Branches j) = mset (gi_Branches i)" "mset (gi_Checks j) = mset (gi_Checks i)"
    "mset (gi_Reviews j) = mset (gi_Reviews i)" "mset (gi_Vault j) = mset (gi_Vault i)"
    "mset (gi_Tests j) = mset (gi_Tests i)" "mset (gi_Security j) = mset (gi_Security i)"
    using assms(1) unfolding same_evidence_def by blast+
  note sets = m [THEN permuted_set] and d = m [THEN permuted_distinct]
  have dig: "digest_or_empty (CompositePolicyDigest (gp_Repositories (gi_Policy j))) = digest_or_empty (CompositePolicyDigest (gp_Repositories (gi_Policy i)))"
    "isOk (CompositePolicyDigest (gp_Repositories (gi_Policy j))) = isOk (CompositePolicyDigest (gp_Repositories (gi_Policy i)))"
    "digest_or_empty (VaultEvidenceDigest (gi_Vault j)) = digest_or_empty (VaultEvidenceDigest (gi_Vault i))"
    "isOk (VaultEvidenceDigest (gi_Vault j)) = isOk (VaultEvidenceDigest (gi_Vault i))"
    "digest_or_empty (BranchRequirementsDigest (gi_Branches j)) = digest_or_empty (BranchRequirementsDigest (gi_Branches i))"
    "isOk (BranchRequirementsDigest (gi_Branches j)) = isOk (BranchRequirementsDigest (gi_Branches i))"
    using digests_permuted(2) [OF m(3)] digests_permuted(3) [OF m(7)] digests_permuted(4) [OF m(4)] same_outcome_digest by blast+
  from assms(2) obtain ns where ns: "normalizeRevisions (gi_Revisions i) = Inr ns" by (auto simp: release_ready_def)
  have nj: "normalizeRevisions (gi_Revisions j) = Inr ns"
    using digests_permuted(1) [OF m(1)] ns by (auto simp: same_outcome_def)
  have kinds: "validUniqueNames (gp_RequiredTestKinds (gi_Policy j)) = validUniqueNames (gp_RequiredTestKinds (gi_Policy i))"
    unfolding validUniqueNames_def uniqueNames_iff by (simp add: sets d)
  have len: "length (gp_Repositories (gi_Policy j)) = length (gp_Repositories (gi_Policy i))" using permuted_length [OF m(3)] .
  have named: "named_checks j r q = named_checks i r q" for r q by (simp add: named_checks_def sets)
  have sat: "check_satisfied j r = check_satisfied i r" for r by (simp add: check_satisfied_def named fun_eq_iff)
  have hr: "head_review j r v = head_review i r v" for r v by (simp add: head_review_def sets)
  have per: "policy_ready j r = policy_ready i r" "branch_ready j r = branch_ready i r" "review_ready j r = review_ready i r"
    "vault_ready j r = vault_ready i r" "security_ready j r = security_ready i r" for r
    by (simp_all add: policy_ready_def branch_ready_def review_ready_def vault_ready_def security_ready_def sets sat hr)
  have tst: "test_ready j md = test_ready i md" for md by (simp add: test_ready_def sets fun_eq_iff)
  have sub: "subject_of j ns = subject_of i ns"
    unfolding subject_of_def c dig by (rule subjectDigest_permuted [OF m(2)])
  have un: "evidence_unambiguous j = evidence_unambiguous i" by (simp add: evidence_unambiguous_def one_per_repository_def sets d)
  show ?thesis using assms(2)
    unfolding release_ready_def valid_identity_def policy_agrees_def list_all_iff c sub un dig nj ns kinds len per tst sets
    by (simp add: sub)
qed

lemma evaluate_state_cases: "gd_State (Evaluate i) \<in> {''allowed'', ''blocked''}"
  by (simp add: Evaluate_def Let_def split: sum.splits prod.splits)

text \<open>
  The order in which evidence is listed never changes a decision: two inputs that differ only
  in the order of their revisions, policies, branches, checks, reviews, vault revisions, security
  scans, tests and required test kinds are both allowed or both blocked.
\<close>

theorem gate_ignores_evidence_order:
  assumes "same_evidence i j"
  shows "gd_State (Evaluate j) = gd_State (Evaluate i)"
proof -
  have "same_evidence j i" using assms unfolding same_evidence_def by auto
  then have "release_ready i \<longleftrightarrow> release_ready j" using assms release_ready_permuted by blast
  then show ?thesis using evaluate_state_iff [of i] evaluate_state_iff [of j] evaluate_state_cases [of i] evaluate_state_cases [of j]
    by auto
qed

subsection \<open>A release of two repositories\<close>

definition ex_sha :: string where "ex_sha = replicate 40 CHR ''a''"

definition ex_revisions :: "gate_revision list" where
  "ex_revisions = [\<lparr>rv_Repository = ''acme/api'', rv_Branch = ''main'', rv_SHA = ex_sha\<rparr>,
     \<lparr>rv_Repository = ''acme/web'', rv_Branch = ''main'', rv_SHA = ex_sha\<rparr>]"

definition ex_policies :: "string \<Rightarrow> repository_policy list" where
  "ex_policies d = map (\<lambda>r. \<lparr>rp_Repository = rv_Repository r, rp_Digest = d, rp_Resolved = True,
     rp_ActionAllowed = True, rp_BranchAllowed = True\<rparr>) ex_revisions"

definition ex_branches :: "branch_evidence list" where
  "ex_branches = map (\<lambda>r. \<lparr>be_Repository = rv_Repository r, be_HeadSHA = rv_SHA r, be_Mergeable = True, be_ConflictFree = True,
     be_ProtectionEvaluated = True, be_Protected = True, be_RequiredChecks = [\<lparr>rc_Name = ''ci'', rc_IntegrationID = 7\<rparr>]\<rparr>) ex_revisions"

definition ex_checks :: "check_evidence list" where
  "ex_checks = map (\<lambda>r. \<lparr>ck_Repository = rv_Repository r, ck_Name = ''ci'', ck_IntegrationID = 7, ck_HeadSHA = rv_SHA r,
     ck_Status = StatusPassed\<rparr>) ex_revisions"

definition ex_reviews :: "review_evidence list" where
  "ex_reviews = map (\<lambda>r. \<lparr>re_Repository = rv_Repository r, re_HeadSHA = rv_SHA r, re_AuthorActor = ''ann'', re_ReviewerActor = ''bob'',
     re_Approved = True, re_BlockingChangeRequests = 0\<rparr>) ex_revisions"

definition ex_vault :: "vault_evidence list" where
  "ex_vault = map (\<lambda>r. \<lparr>ve_Repository = rv_Repository r, ve_HeadSHA = rv_SHA r, ve_RevisionID = ''v1'', ve_Reconciled = True\<rparr>) ex_revisions"

definition ex_security :: "security_evidence list" where
  "ex_security = map (\<lambda>r. \<lparr>se_Repository = rv_Repository r, se_HeadSHA = rv_SHA r, se_SecretScanPassed = True,
     se_HighFindings = 0, se_CriticalFindings = 0\<rparr>) ex_revisions"

definition ex_matrix :: string where "ex_matrix = digest_or_empty (RevisionMatrixDigest ex_revisions)"

definition ex_subject :: "string \<Rightarrow> string" where
  "ex_subject d = subjectDigest ActionRelease ex_matrix (digest_or_empty (CompositePolicyDigest (ex_policies d)))
     (digest_or_empty (VaultEvidenceDigest ex_vault)) (digest_or_empty (BranchRequirementsDigest ex_branches)) [''unit''] RecoveryRollback"

definition ex_passed :: matrix_evidence where "ex_passed = \<lparr>me_MatrixDigest = ex_matrix, me_Status = StatusPassed\<rparr>"

definition ex_gate :: "string \<Rightarrow> (gate_revision list \<Rightarrow> gate_revision list) \<Rightarrow> gate_input" where
  "ex_gate d order =
     \<lparr>gi_SchemaVersion = 3, gi_Action = ActionRelease, gi_ChangeSetID = ''cs-1'', gi_Revisions = order ex_revisions,
      gi_Policy = \<lparr>gp_Resolved = True, gp_Digest = digest_or_empty (CompositePolicyDigest (ex_policies d)), gp_RequiredTestKinds = [''unit''],
        gp_Repositories = ex_policies d\<rparr>,
      gi_Branches = ex_branches, gi_Checks = ex_checks, gi_Reviews = ex_reviews, gi_Vault = ex_vault,
      gi_Tests = [\<lparr>te_Kind = ''unit'', te_MatrixDigest = ex_matrix, te_Status = StatusPassed\<rparr>], gi_Security = ex_security,
      gi_Compatibility = ex_passed, gi_Migrations = ex_passed, gi_Dependencies = ex_passed, gi_Environment = ex_passed,
      gi_Recovery = \<lparr>ry_MatrixDigest = ex_matrix, ry_Classification = RecoveryRollback, ry_Evaluated = True, ry_HumanApproved = False\<rparr>,
      gi_HumanApproval = Some \<lparr>ha_Actor = ''pm'', ha_ActorType = ''human'', ha_SubjectDigest = ex_subject d, ha_Approved = True\<rparr>\<rparr>"

lemma isOk_digests:
  "isOk (CompositePolicyDigest ps) \<longleftrightarrow> ps \<noteq> [] \<and> length ps \<le> 64 \<and> list_all valid_policy ps
     \<and> distinct (map (\<lambda>p. ToLower (TrimSpace (rp_Repository p))) ps)"
  "isOk (VaultEvidenceDigest vs) \<longleftrightarrow> vs \<noteq> [] \<and> length vs \<le> 64 \<and> list_all valid_vault vs
     \<and> distinct (map (\<lambda>v. ToLower (TrimSpace (ve_Repository v))) vs)"
  "isOk (BranchRequirementsDigest bs) \<longleftrightarrow> bs \<noteq> [] \<and> length bs \<le> 64 \<and> list_all valid_requirements bs
     \<and> distinct (map (\<lambda>b. ToLower (TrimSpace (be_Repository b))) bs)"
  unfolding CompositePolicyDigest_def VaultEvidenceDigest_def BranchRequirementsDigest_def
  by (auto simp: isOk_iff bindE_Inr_iff collect_Inr_iff)

lemma equalDigest_sha: "equalDigest (sha256_hex x) (sha256_hex x)"
proof -
  have "length (sha256_hex x) = 64" "list_all lower_hex_char (sha256_hex x)"
    using sha256_hex_digest_match [of x] by (simp_all add: digest_match_def)
  then show ?thesis by (simp add: equalDigest_def validDigest_def Let_def hex_decodable_def hex_char_def list_all_iff)
qed

lemma ex_normalized: "normalizeRevisions ex_revisions = Inr ex_revisions"
  by code_simp

lemma ex_digests: "isOk (VaultEvidenceDigest ex_vault)" "isOk (BranchRequirementsDigest ex_branches)"
  unfolding isOk_digests by code_simp+

lemma ex_repositories:
  "list_all (\<lambda>r. validRepository (ToLower (TrimSpace (rv_Repository r)))) ex_revisions"
  "distinct (map (\<lambda>r. ToLower (TrimSpace (rv_Repository r))) ex_revisions)" "ex_revisions \<noteq> []" "length ex_revisions \<le> 64"
  by code_simp+

lemma ex_policy_digest: "validDigest (ToLower (TrimSpace d)) \<Longrightarrow> isOk (CompositePolicyDigest (ex_policies d))"
  using ex_repositories by (simp add: isOk_digests ex_policies_def valid_policy_def list_all_iff o_def)

text \<open>Once no value is rejected, the maps are the keyed lists.\<close>

lemma ex_clean:
  "snd (uniqueBranches ex_branches) = []" "snd (groupChecks ex_checks) = []" "snd (uniqueVault ex_vault) = []"
  "snd (uniqueSecurity ex_security) = []" "one_per_repository rp_Repository (ex_policies d)"
  by code_simp+

lemma ex_per_branch:
  "list_all (\<lambda>r. branch_reasons (map (\<lambda>v. (repo_key (be_Repository v), v)) ex_branches) (map (\<lambda>v. (check_group v, v)) ex_checks) r = []) ex_revisions"
  by code_simp

lemma ex_per_review: "list_all (\<lambda>r. review_reasons (groupReviews ex_reviews) r = []) ex_revisions"
  by code_simp

lemma ex_per_vault: "list_all (\<lambda>r. vault_reasons (map (\<lambda>v. (repo_key (ve_Repository v), v)) ex_vault) r = []) ex_revisions"
  by code_simp

lemma ex_per_security: "list_all (\<lambda>r. security_reasons (map (\<lambda>v. (repo_key (se_Repository v), v)) ex_security) r = []) ex_revisions"
  by code_simp

lemma ex_per_policy:
  "list_all (\<lambda>r. list_ex (\<lambda>p. repo_key (rp_Repository p) = ToLower (rv_Repository r) \<and> rp_Resolved p \<and> rp_ActionAllowed p
     \<and> rp_BranchAllowed p) (ex_policies d)) ex_revisions"
  by code_simp

lemma ex_maps:
  "fst (uniqueBranches ex_branches) = map (\<lambda>v. (repo_key (be_Repository v), v)) ex_branches"
  "fst (groupChecks ex_checks) = map (\<lambda>v. (check_group v, v)) ex_checks"
  "fst (uniqueVault ex_vault) = map (\<lambda>v. (repo_key (ve_Repository v), v)) ex_vault"
  "fst (uniqueSecurity ex_security) = map (\<lambda>v. (repo_key (se_Repository v), v)) ex_security"
  using ex_clean(1,3,4) keyed_loop group_checks(2) [OF ex_clean(2)] unfolding uniqueBranches_def uniqueVault_def uniqueSecurity_def
  by (auto intro: keyed_loop)

lemma ex_names:
  "validUniqueNames [''unit'']" "evidenceNamePattern (TrimSpace ''unit'')" "ToLower (TrimSpace ''unit'') = ToLower ''unit''"
  "changeSetPattern ''cs-1''" "EqualFold (TrimSpace ''human'') ''human''" "TrimSpace ''pm'' \<noteq> []"
  "length (ex_policies d) = length ex_revisions" "valid_classification RecoveryRollback" "RecoveryRollback \<noteq> RecoveryIrreversible"
  by code_simp+

lemma ex_ready:
  assumes "validDigest (ToLower (TrimSpace d))"
  shows "release_ready (ex_gate d id)"
proof -
  let ?i = "ex_gate d id"
  have sel: "gi_Branches ?i = ex_branches" "gi_Checks ?i = ex_checks" "gi_Reviews ?i = ex_reviews" "gi_Vault ?i = ex_vault"
    "gi_Security ?i = ex_security" "gp_Repositories (gi_Policy ?i) = (ex_policies d)" "gi_Revisions ?i = ex_revisions"
    by (simp_all add: ex_gate_def)
  have matrix: "equalDigest ex_matrix ex_matrix" "digest_or_empty (RevisionMatrixDigest ex_revisions) = ex_matrix"
    by (simp_all add: ex_matrix_def RevisionMatrixDigest_def ex_normalized digest_or_empty_def digest_of_def equalDigest_sha)
  obtain x where x: "digest_or_empty (CompositePolicyDigest (ex_policies d)) = sha256_hex x"
    using composite_digest_sha ex_policy_digest [OF assms] by blast
  have per: "policy_ready ?i r \<and> branch_ready ?i r \<and> review_ready ?i r \<and> vault_ready ?i r \<and> security_ready ?i r"
    if "r \<in> set ex_revisions" for r
    using ex_clean ex_per_branch ex_per_review ex_per_vault ex_per_security ex_per_policy that
      branch_clean [of ?i r] review_clean [of ?i r] vault_clean [of ?i r] security_clean [of ?i r]
    by (auto simp: ex_maps list_all_iff list_ex_iff sel unique_branches unique_vault unique_security policy_ready_def about_def)
  have un: "evidence_unambiguous ?i"
    using ex_clean ex_names(2)
    by (simp add: evidence_unambiguous_def sel unique_branches unique_vault unique_security group_checks(1)) (simp add: ex_gate_def)
  have pol: "policy_agrees ?i ex_revisions"
    using ex_policy_digest [OF assms] ex_names(1,7) by (simp add: policy_agrees_def sel x) (simp add: ex_gate_def x equalDigest_sha)
  have sub: "subject_of ?i ex_revisions = (ex_subject d)" "equalDigest (ex_subject d) (ex_subject d)"
    by (simp_all add: subject_of_def ex_gate_def ex_subject_def matrix subjectDigest_def equalDigest_sha)
  have rest: "valid_identity ?i" "list_all (test_ready ?i ex_matrix) (gp_RequiredTestKinds (gi_Policy ?i))"
    "matrix_ready (gi_Compatibility ?i) ex_matrix" "matrix_ready (gi_Migrations ?i) ex_matrix" "matrix_ready (gi_Dependencies ?i) ex_matrix"
    "matrix_ready (gi_Environment ?i) ex_matrix" "recovery_ready (gi_Recovery ?i) ex_matrix" "approved_by_human (gi_HumanApproval ?i) (ex_subject d)"
    using ex_names matrix(1) sub(2)
    by (simp_all add: ex_gate_def valid_identity_def GateSchemaVersion_def test_ready_def matrix_ready_def ex_passed_def
        recovery_ready_def approved_by_human_def)
  show ?thesis
    unfolding release_ready_def
  proof (intro conjI exI ballI)
    show "normalizeRevisions (gi_Revisions ?i) = Inr ex_revisions" by (simp add: sel ex_normalized)
  qed (use rest un pol sub per matrix ex_digests sel in auto)
qed

definition ex_digest :: string where "ex_digest = replicate 64 CHR ''b''"

lemma ex_digest_valid: "validDigest (ToLower (TrimSpace ex_digest))"
  by code_simp

theorem gate_ignores_evidence_order_witness:
  "gi_Revisions (ex_gate ex_digest rev) \<noteq> gi_Revisions (ex_gate ex_digest id) \<and> gd_State (Evaluate (ex_gate ex_digest rev)) = ''allowed''"
proof -
  have "same_evidence (ex_gate ex_digest id) (ex_gate ex_digest rev)" by (simp add: same_evidence_def ex_gate_def)
  moreover have "gi_Revisions (ex_gate ex_digest rev) \<noteq> gi_Revisions (ex_gate ex_digest id)" by (simp add: ex_gate_def ex_revisions_def)
  moreover have "gd_State (Evaluate (ex_gate ex_digest id)) = ''allowed''" using ex_ready [OF ex_digest_valid] by (simp add: evaluate_state_iff)
  ultimately show ?thesis using gate_ignores_evidence_order by metis
qed

end
