(* ===== verification/DeliveryPolicyProps.thy ===== *)
theory DeliveryPolicyProps
  imports DeliveryPolicy ReleaseGateProps
begin

text \<open>
  Properties of the policy resolution: it does not depend on the order of the layers, the narrowest
  layer that sets a field decides it, every layer that took part was approved, sealed and in scope,
  an override is alive and cannot delegate approval, and a policy that counts as resolved has every
  setting its mode needs. The last property joins the policy with the release gate.
\<close>

subsection \<open>The loop over the layers\<close>

lemma applyLayers_Inr_iff:
  "applyLayers validate seen ls r = Inr r' \<longleftrightarrow>
     distinct (map la_Level ls) \<and> la_Level ` set ls \<inter> set seen = {} \<and> (\<forall>l \<in> set ls. validate l = Inr ()) \<and> r' = fold applyLayer ls r"
  by (induction ls arbitrary: seen r) (auto simp: bindE_Inr_iff)

definition supported :: "policy_level \<Rightarrow> bool" where
  "supported level \<longleftrightarrow> level \<in> {LevelPlatform, LevelOrganization, LevelProject, LevelRepository, LevelOverride}"

lemma precedence_inj: "supported a \<Longrightarrow> supported b \<Longrightarrow> precedence a = precedence b \<longleftrightarrow> a = b"
  unfolding supported_def by (elim insertE) (simp_all add: precedence_def policy_names)

lemma validateLayer_supported: "validateLayer parse c l now = Inr u \<Longrightarrow> supported (la_Level l)"
  by (auto simp: validateLayer_def validateScope_def supported_def Let_def split: if_splits option.splits sum.splits)

definition ordered_layers :: "policy_layer list \<Rightarrow> policy_layer list" where
  "ordered_layers layers = sort_key (\<lambda>l. precedence (la_Level l)) layers"

lemma set_ordered_layers [simp]: "set (ordered_layers layers) = set layers"
  by (simp add: ordered_layers_def)

lemma distinct_ordered_layers: "distinct (map la_Level (ordered_layers layers)) = distinct (map la_Level layers)"
  by (rule permuted_distinct) (simp add: ordered_layers_def)

lemma Resolve_Inr_iff:
  "Resolve parse context layers now = Inr p \<longleftrightarrow>
     (\<exists>c. normalizeContext parse context = Some c \<and> now \<noteq> 0 \<and> distinct (map la_Level layers)
        \<and> (\<forall>l \<in> set layers. validateLayer parse c l now = Inr ()) \<and> seal (fold applyLayer (ordered_layers layers) (unresolved c)) = Inr p)"
  by (auto simp: Resolve_def bindE_Inr_iff applyLayers_Inr_iff distinct_ordered_layers ordered_layers_def [symmetric] split: option.splits)

text \<open>
  Policy resolution does not depend on the order in which the layers are supplied: a
  permutation of the layers resolves to the same policy, digest included, or is rejected as well.
\<close>

theorem resolve_ignores_layer_order:
  assumes m: "mset layers' = mset layers"
  shows "Resolve parse context layers' now = Inr p \<longleftrightarrow> Resolve parse context layers now = Inr p"
proof -
  have "ordered_layers layers' = ordered_layers layers"
    if v: "\<forall>l \<in> set layers. validateLayer parse c l now = Inr ()" and d: "distinct (map la_Level layers)" for c
    unfolding ordered_layers_def
  proof (rule sort_key_perm_eq [OF m], rule inj_onI)
    fix a b assume ab: "a \<in> set layers'" "b \<in> set layers'" "precedence (la_Level a) = precedence (la_Level b)"
    with v permuted_set [OF m] have "supported (la_Level a)" "supported (la_Level b)" by (auto intro: validateLayer_supported)
    with ab have "la_Level a = la_Level b" by (simp add: precedence_inj)
    with ab d permuted_set [OF m] show "a = b" by (auto simp: distinct_map inj_on_def)
  qed
  then show ?thesis unfolding Resolve_Inr_iff permuted_set [OF m] permuted_distinct [OF m] by metis
qed

subsection \<open>Which layer decides a field\<close>

text \<open>
  The value of a field is that of the narrowest layer that sets it, and the default when none
  does.
\<close>

definition decided :: "(policy_patch \<Rightarrow> 'a option) \<Rightarrow> policy_layer list \<Rightarrow> 'a \<Rightarrow> 'a \<Rightarrow> bool" where
  "decided f layers dflt v \<longleftrightarrow>
     (\<exists>l \<in> set layers. f (la_Patch l) = Some v
        \<and> (\<forall>l' \<in> set layers. precedence (la_Level l) < precedence (la_Level l') \<longrightarrow> f (la_Patch l') = None))
     \<or> (\<forall>l \<in> set layers. f (la_Patch l) = None) \<and> v = dflt"

lemma fold_decides:
  assumes step: "\<And>l r. g (applyLayer l r) = (case f (la_Patch l) of None \<Rightarrow> g r | Some v \<Rightarrow> h v)"
    and start: "g r = h dflt" and sorted: "sorted (map (\<lambda>l. precedence (la_Level l)) ls)"
  shows "\<exists>v. decided f ls dflt v \<and> g (fold applyLayer ls r) = h v"
  using sorted
proof (induction ls rule: rev_induct)
  case Nil
  then show ?case using start by (auto simp: decided_def)
next
  case (snoc l ls)
  have le: "l' \<in> set ls \<Longrightarrow> precedence (la_Level l') \<le> precedence (la_Level l)" for l'
    using snoc.prems by (auto simp: sorted_append)
  show ?case
  proof (cases "f (la_Patch l)")
    case None
    from snoc obtain v where v: "decided f ls dflt v" "g (fold applyLayer ls r) = h v" by (auto simp: sorted_append)
    from v(1) None have "decided f (ls @ [l]) dflt v" unfolding decided_def by auto
    with v(2) None show ?thesis by (auto simp: step)
  next
    case (Some w)
    have "decided f (ls @ [l]) dflt w" unfolding decided_def using Some le by (auto simp: not_less dest: leD)
    with Some show ?thesis by (auto simp: step)
  qed
qed

lemma decided_ordered [simp]: "decided f (ordered_layers layers) = decided f layers"
  by (simp add: decided_def fun_eq_iff)

lemma ordered_sorted: "sorted (map (\<lambda>l. precedence (la_Level l)) (ordered_layers layers))"
  by (simp add: ordered_layers_def)

lemma decides:
  assumes "\<And>l r. g (applyLayer l r) = (case f (la_Patch l) of None \<Rightarrow> g r | Some v \<Rightarrow> h v)" and "g r = h dflt"
  shows "\<exists>v. decided f layers dflt v \<and> g (fold applyLayer (ordered_layers layers) r) = h v"
  using fold_decides [OF assms ordered_sorted] by simp

lemma seal_fields:
  assumes "seal r = Inr p"
  shows "rs_Mode p = rs_Mode r" "rs_GateApprovalMode p = rs_GateApprovalMode r"
    "rs_RequiredTestKinds p = canonicalNames (rs_RequiredTestKinds r)"
    "rs_AllowedTargetBranches p = canonicalNames (rs_AllowedTargetBranches r)"
    "rs_MergeMethod p = rs_MergeMethod r" "rs_DeploymentWorkflow p = rs_DeploymentWorkflow r"
    "rs_DeploymentEnvironment p = rs_DeploymentEnvironment r"
    "rs_RequiredSecretReferences p = canonicalEnvironmentReferences (rs_RequiredSecretReferences r)"
    "rs_RequiredVariableReferences p = canonicalEnvironmentReferences (rs_RequiredVariableReferences r)"
    "rs_RequiredHealthChecks p = canonicalNames (rs_RequiredHealthChecks r)"
    "rs_RequiredPostMergeChecks p = canonicalNames (rs_RequiredPostMergeChecks r)"
    "rs_RecoveryDefault p = rs_RecoveryDefault r" "rs_Safety p = rs_Safety r" "rs_Sources p = rs_Sources r" "rs_Context p = rs_Context r"
    "rs_Resolved p \<longleftrightarrow> rs_Missing p = []"
    "rs_explicitTests p = rs_explicitTests r" "rs_explicitBranches p = rs_explicitBranches r"
    "rs_explicitSecretReferences p = rs_explicitSecretReferences r" "rs_explicitVariableReferences p = rs_explicitVariableReferences r"
  using assms by (auto simp: seal_def Let_def canonicalBranches_def split: option.splits)

lemma fold_Sources: "rs_Sources (fold applyLayer ls r) = rs_Sources r @ map source_of ls"
  by (induction ls arbitrary: r) (simp_all add: applyLayer_def applyPatch_def Let_def)

lemma Resolve_Sources:
  assumes "Resolve parse context layers now = Inr p"
  shows "set (rs_Sources p) = source_of ` set layers"
proof -
  from assms obtain c where "seal (fold applyLayer (ordered_layers layers) (unresolved c)) = Inr p" by (auto simp: Resolve_Inr_iff)
  then have "rs_Sources p = map source_of (ordered_layers layers)"
    by (auto simp: seal_def fold_Sources unresolved_def Let_def split: option.splits)
  then show ?thesis by simp
qed

lemma resolved_fields:
  assumes "Resolve parse context layers now = Inr p"
  shows "decided pa_Mode layers [] (rs_Mode p)
     \<and> decided pa_GateApprovalMode layers GateApprovalHuman (rs_GateApprovalMode p)
     \<and> (\<exists>ks. decided pa_RequiredTestKinds layers [] ks \<and> rs_RequiredTestKinds p = canonicalNames ks)
     \<and> (\<exists>bs. decided pa_AllowedTargetBranches layers [] bs \<and> rs_AllowedTargetBranches p = canonicalNames bs)
     \<and> (\<exists>m. decided pa_MergeMethod layers [] m \<and> rs_MergeMethod p = ToLower (TrimSpace m))
     \<and> (\<exists>w. decided pa_DeploymentWorkflow layers [] w \<and> rs_DeploymentWorkflow p = TrimSpace w)
     \<and> (\<exists>e. decided pa_DeploymentEnvironment layers [] e \<and> rs_DeploymentEnvironment p = TrimSpace e)
     \<and> (\<exists>vs. decided pa_RequiredSecretReferences layers [] vs \<and> rs_RequiredSecretReferences p = canonicalEnvironmentReferences vs)
     \<and> (\<exists>vs. decided pa_RequiredVariableReferences layers [] vs \<and> rs_RequiredVariableReferences p = canonicalEnvironmentReferences vs)
     \<and> (\<exists>hs. decided pa_RequiredHealthChecks layers [] hs \<and> rs_RequiredHealthChecks p = canonicalNames hs)
     \<and> (\<exists>cs. decided pa_RequiredPostMergeChecks layers [] cs \<and> rs_RequiredPostMergeChecks p = canonicalNames cs)
     \<and> (\<exists>d. decided pa_RecoveryDefault layers [] d \<and> rs_RecoveryDefault p = ToLower (TrimSpace d))
     \<and> rs_Safety p = safetyFloor"
proof -
  from assms obtain c where s: "seal (fold applyLayer (ordered_layers layers) (unresolved c)) = Inr p"
    by (auto simp: Resolve_Inr_iff)
  let ?r = "fold applyLayer (ordered_layers layers) (unresolved c)"
  have trim: "TrimSpace [] = []" by code_simp
  note a = applyLayer_def applyPatch_def set_given_def unresolved_def trim Let_def
  show ?thesis
  proof (intro conjI)
    show "decided pa_Mode layers [] (rs_Mode p)"
      using decides [of rs_Mode id pa_Mode "unresolved c" "[]" layers] by (simp add: a seal_fields [OF s])
    show "decided pa_GateApprovalMode layers GateApprovalHuman (rs_GateApprovalMode p)"
      using decides [of rs_GateApprovalMode id pa_GateApprovalMode "unresolved c" GateApprovalHuman layers] by (simp add: a seal_fields [OF s])
    show "\<exists>ks. decided pa_RequiredTestKinds layers [] ks \<and> rs_RequiredTestKinds p = canonicalNames ks"
      using decides [of rs_RequiredTestKinds id pa_RequiredTestKinds "unresolved c" "[]" layers] by (auto simp: a seal_fields [OF s])
    show "\<exists>bs. decided pa_AllowedTargetBranches layers [] bs \<and> rs_AllowedTargetBranches p = canonicalNames bs"
      using decides [of rs_AllowedTargetBranches id pa_AllowedTargetBranches "unresolved c" "[]" layers] by (auto simp: a seal_fields [OF s])
    show "\<exists>m. decided pa_MergeMethod layers [] m \<and> rs_MergeMethod p = ToLower (TrimSpace m)"
      using decides [of rs_MergeMethod "\<lambda>m. ToLower (TrimSpace m)" pa_MergeMethod "unresolved c" "[]" layers] by (auto simp: a seal_fields [OF s])
    show "\<exists>w. decided pa_DeploymentWorkflow layers [] w \<and> rs_DeploymentWorkflow p = TrimSpace w"
      using decides [of rs_DeploymentWorkflow TrimSpace pa_DeploymentWorkflow "unresolved c" "[]" layers] by (auto simp: a seal_fields [OF s])
    show "\<exists>e. decided pa_DeploymentEnvironment layers [] e \<and> rs_DeploymentEnvironment p = TrimSpace e"
      using decides [of rs_DeploymentEnvironment TrimSpace pa_DeploymentEnvironment "unresolved c" "[]" layers] by (auto simp: a seal_fields [OF s])
    show "\<exists>vs. decided pa_RequiredSecretReferences layers [] vs \<and> rs_RequiredSecretReferences p = canonicalEnvironmentReferences vs"
      using decides [of rs_RequiredSecretReferences id pa_RequiredSecretReferences "unresolved c" "[]" layers] by (auto simp: a seal_fields [OF s])
    show "\<exists>vs. decided pa_RequiredVariableReferences layers [] vs \<and> rs_RequiredVariableReferences p = canonicalEnvironmentReferences vs"
      using decides [of rs_RequiredVariableReferences id pa_RequiredVariableReferences "unresolved c" "[]" layers] by (auto simp: a seal_fields [OF s])
    show "\<exists>hs. decided pa_RequiredHealthChecks layers [] hs \<and> rs_RequiredHealthChecks p = canonicalNames hs"
      using decides [of rs_RequiredHealthChecks id pa_RequiredHealthChecks "unresolved c" "[]" layers] by (auto simp: a seal_fields [OF s])
    show "\<exists>cs. decided pa_RequiredPostMergeChecks layers [] cs \<and> rs_RequiredPostMergeChecks p = canonicalNames cs"
      using decides [of rs_RequiredPostMergeChecks id pa_RequiredPostMergeChecks "unresolved c" "[]" layers] by (auto simp: a seal_fields [OF s])
    show "\<exists>d. decided pa_RecoveryDefault layers [] d \<and> rs_RecoveryDefault p = ToLower (TrimSpace d)"
      using decides [of rs_RecoveryDefault "\<lambda>m. ToLower (TrimSpace m)" pa_RecoveryDefault "unresolved c" "[]" layers] by (auto simp: a seal_fields [OF s])
    have "rs_Safety (fold applyLayer ls r) = rs_Safety r" for ls r by (induction ls arbitrary: r) (simp_all add: a)
    then show "rs_Safety p = safetyFloor" by (simp add: seal_fields [OF s] unresolved_def)
  qed
qed

text \<open>
  C24. The narrowest layer decides. In a resolved policy every field has the value set by the layer
  of highest precedence (platform, organization, project, repository, override) that sets it,
  in canonical form, and its default, human approval for the gates and nothing elsewhere, when no
  layer sets it; the safety floor is never changed.
\<close>

theorem narrowest_layer_decides:
  assumes "Resolve parse context layers now = Inr p"
  shows "decided pa_Mode layers [] (rs_Mode p)
     \<and> decided pa_GateApprovalMode layers GateApprovalHuman (rs_GateApprovalMode p)
     \<and> (\<exists>ks. decided pa_RequiredTestKinds layers [] ks \<and> rs_RequiredTestKinds p = canonicalNames ks)
     \<and> (\<exists>bs. decided pa_AllowedTargetBranches layers [] bs \<and> rs_AllowedTargetBranches p = canonicalNames bs)
     \<and> (\<exists>m. decided pa_MergeMethod layers [] m \<and> rs_MergeMethod p = ToLower (TrimSpace m))
     \<and> (\<exists>w. decided pa_DeploymentWorkflow layers [] w \<and> rs_DeploymentWorkflow p = TrimSpace w)
     \<and> (\<exists>e. decided pa_DeploymentEnvironment layers [] e \<and> rs_DeploymentEnvironment p = TrimSpace e)
     \<and> (\<exists>vs. decided pa_RequiredSecretReferences layers [] vs \<and> rs_RequiredSecretReferences p = canonicalEnvironmentReferences vs)
     \<and> (\<exists>vs. decided pa_RequiredVariableReferences layers [] vs \<and> rs_RequiredVariableReferences p = canonicalEnvironmentReferences vs)
     \<and> (\<exists>hs. decided pa_RequiredHealthChecks layers [] hs \<and> rs_RequiredHealthChecks p = canonicalNames hs)
     \<and> (\<exists>cs. decided pa_RequiredPostMergeChecks layers [] cs \<and> rs_RequiredPostMergeChecks p = canonicalNames cs)
     \<and> (\<exists>d. decided pa_RecoveryDefault layers [] d \<and> rs_RecoveryDefault p = ToLower (TrimSpace d))
     \<and> rs_Safety p = safetyFloor"
  by (rule resolved_fields [OF assms])

subsection \<open>Authority of the layers\<close>

lemma validateLayer_facts:
  assumes "validateLayer parse c l now = Inr u"
  shows "la_Approved l" "la_ApprovedAt l \<le> now + minute" "\<exists>d. LayerDigest l = Some d \<and> EqualFold d (la_Digest l)"
    "validatePatch (la_Patch l) = Inr ()" "validateScope parse c l now = Inr ()"
    "la_Level l = LevelOverride \<Longrightarrow> pa_GateApprovalMode (la_Patch l) \<noteq> Some GateApprovalDelegated"
  using assms by (auto simp: validateLayer_def split: if_splits option.splits sum.splits)

lemma validateScope_override:
  "validateScope parse c l now = Inr () \<Longrightarrow> la_Level l = LevelOverride \<Longrightarrow>
     \<exists>expires. la_ExpiresAt l = Some expires \<and> now < expires \<and> expires \<le> la_ApprovedAt l + 24 * hour
       \<and> TrimSpace (la_ChangeSetID l) = cx_ChangeSetID c"
  by (auto simp: validateScope_def policy_names maximumOverrideLifetime_def Let_def not_less split: option.splits if_splits)

text \<open>
  C20. Authority cannot be smuggled into a policy. Every layer behind a resolved policy was approved
  no later than a minute from now and its stored digest seals its content; an override belongs to
  the change set, is alive, and lives at most 24 hours from its approval; and if the resolved
  policy delegates gate approval, a standing layer, never an override, delegates it.
\<close>

theorem policy_authority_is_sealed:
  assumes r: "Resolve parse context layers now = Inr p"
  shows "(\<forall>l \<in> set layers. la_Approved l \<and> la_ApprovedAt l \<le> now + minute
       \<and> (\<exists>d. LayerDigest l = Some d \<and> EqualFold d (la_Digest l))
       \<and> (la_Level l = LevelOverride \<longrightarrow> TrimSpace (la_ChangeSetID l) = TrimSpace (cx_ChangeSetID context)
            \<and> (\<exists>expires. la_ExpiresAt l = Some expires \<and> now < expires \<and> expires \<le> la_ApprovedAt l + 24 * hour)))
     \<and> (rs_GateApprovalMode p = GateApprovalDelegated \<longrightarrow>
          (\<exists>l \<in> set layers. la_Level l \<noteq> LevelOverride \<and> pa_GateApprovalMode (la_Patch l) = Some GateApprovalDelegated))"
proof (intro conjI ballI impI)
  from r obtain c where c: "normalizeContext parse context = Some c"
    and v: "\<And>l. l \<in> set layers \<Longrightarrow> validateLayer parse c l now = Inr ()"
    and s: "seal (fold applyLayer (ordered_layers layers) (unresolved c)) = Inr p" by (auto simp: Resolve_Inr_iff)
  have cs: "cx_ChangeSetID c = TrimSpace (cx_ChangeSetID context)"
    using c by (auto simp: normalizeContext_def Let_def split: if_splits option.splits)
  fix l assume l: "l \<in> set layers"
  note f = validateLayer_facts [OF v [OF l]]
  show "la_Approved l" "la_ApprovedAt l \<le> now + minute" "\<exists>d. LayerDigest l = Some d \<and> EqualFold d (la_Digest l)" using f by auto
  assume o: "la_Level l = LevelOverride"
  from validateScope_override [OF f(5) o] cs
  show "TrimSpace (la_ChangeSetID l) = TrimSpace (cx_ChangeSetID context)"
    "\<exists>expires. la_ExpiresAt l = Some expires \<and> now < expires \<and> expires \<le> la_ApprovedAt l + 24 * hour" by auto
next
  from r obtain c where v: "\<And>l. l \<in> set layers \<Longrightarrow> validateLayer parse c l now = Inr ()"
    and s: "seal (fold applyLayer (ordered_layers layers) (unresolved c)) = Inr p" by (auto simp: Resolve_Inr_iff)
  assume d: "rs_GateApprovalMode p = GateApprovalDelegated"
  have "decided pa_GateApprovalMode layers GateApprovalHuman (rs_GateApprovalMode p)"
    using decides [of rs_GateApprovalMode id pa_GateApprovalMode "unresolved c" GateApprovalHuman layers]
    by (simp add: applyLayer_def applyPatch_def set_given_def unresolved_def Let_def seal_fields [OF s])
  with d obtain l where l: "l \<in> set layers" "pa_GateApprovalMode (la_Patch l) = Some GateApprovalDelegated"
    by (auto simp: decided_def policy_names)
  with validateLayer_facts(6) [OF v [OF l(1)]]
  show "\<exists>l \<in> set layers. la_Level l \<noteq> LevelOverride \<and> pa_GateApprovalMode (la_Patch l) = Some GateApprovalDelegated" by blast
qed

subsection \<open>Completeness\<close>

lemma decided_valid:
  assumes "Resolve parse context layers now = Inr p" and "decided f layers dflt v" and "v \<noteq> dflt"
  shows "\<exists>q. f q = Some v \<and> validatePatch q = Inr ()"
proof -
  from assms(2,3) obtain l where l: "l \<in> set layers" "f (la_Patch l) = Some v" unfolding decided_def by auto
  with assms(1) have "validatePatch (la_Patch l) = Inr ()"
    using validateLayer_facts(4) by (auto simp: Resolve_Inr_iff)
  with l(2) show ?thesis by blast
qed

lemma patch_fields:
  assumes "validatePatch q = Inr ()"
  shows "pa_Mode q = Some m \<Longrightarrow> m \<in> {ModeReviewOnly, ModeMerge, ModeRelease}"
    "pa_MergeMethod q = Some x \<Longrightarrow> ToLower (TrimSpace x) \<in> {''merge'', ''squash'', ''rebase''}"
    "pa_DeploymentWorkflow q = Some w \<Longrightarrow> workflowPattern (TrimSpace w)"
    "pa_RecoveryDefault q = Some d \<Longrightarrow> valid_recovery d"
  using assms by (auto simp: validatePatch_def given_ok_def split: if_splits option.splits)

text \<open>What a policy must settle before it counts as resolved.\<close>

definition complete_policy :: "resolved_policy \<Rightarrow> bool" where
  "complete_policy p \<longleftrightarrow>
     rs_Mode p \<in> {ModeReviewOnly, ModeMerge, ModeRelease} \<and> rs_AllowedTargetBranches p \<noteq> []
     \<and> (rs_Mode p \<noteq> ModeReviewOnly \<longrightarrow> rs_RequiredTestKinds p \<noteq> [] \<and> rs_MergeMethod p \<in> {''merge'', ''squash'', ''rebase''})
     \<and> (rs_Mode p = ModeRelease \<longrightarrow> workflowPattern (rs_DeploymentWorkflow p) \<and> rs_DeploymentEnvironment p \<noteq> []
          \<and> rs_RequiredHealthChecks p \<noteq> [] \<and> valid_classification (rs_RecoveryDefault p))"

lemma missing_none:
  assumes "seal r = Inr p" "rs_Resolved p"
  shows "rs_Mode p \<noteq> []" "rs_AllowedTargetBranches p \<noteq> []"
    "rs_Mode p = ModeMerge \<or> rs_Mode p = ModeRelease \<Longrightarrow> rs_RequiredTestKinds p \<noteq> [] \<and> rs_MergeMethod p \<noteq> []"
    "rs_Mode p = ModeRelease \<Longrightarrow> rs_DeploymentWorkflow p \<noteq> [] \<and> rs_DeploymentEnvironment p \<noteq> [] \<and> rs_RequiredHealthChecks p \<noteq> []
       \<and> rs_RecoveryDefault p \<noteq> []"
proof -
  obtain r1 where r1: "missingConfiguration r1 = []" "rs_Mode p = rs_Mode r1" "rs_AllowedTargetBranches p = rs_AllowedTargetBranches r1"
    "rs_RequiredTestKinds p = rs_RequiredTestKinds r1" "rs_MergeMethod p = rs_MergeMethod r1" "rs_DeploymentWorkflow p = rs_DeploymentWorkflow r1"
    "rs_DeploymentEnvironment p = rs_DeploymentEnvironment r1" "rs_RequiredHealthChecks p = rs_RequiredHealthChecks r1"
    "rs_RecoveryDefault p = rs_RecoveryDefault r1"
    using assms that unfolding seal_def Let_def by (auto split: option.splits)
  have e: "sort xs = [] \<longleftrightarrow> xs = []" for xs :: "string list" by (metis length_0_conv length_sort)
  have m: "(rs_Mode r1 \<noteq> []) \<and> rs_AllowedTargetBranches r1 \<noteq> []
      \<and> (rs_Mode r1 = ModeMerge \<or> rs_Mode r1 = ModeRelease \<longrightarrow> rs_RequiredTestKinds r1 \<noteq> [] \<and> rs_MergeMethod r1 \<noteq> [])
      \<and> (rs_Mode r1 = ModeRelease \<longrightarrow> rs_DeploymentWorkflow r1 \<noteq> [] \<and> rs_DeploymentEnvironment r1 \<noteq> [] \<and> rs_RequiredHealthChecks r1 \<noteq> []
       \<and> rs_RecoveryDefault r1 \<noteq> [])"
    using r1(1) unfolding missingConfiguration_def Let_def e append_is_Nil_conv by (auto split: if_splits)
  show "rs_Mode p \<noteq> []" "rs_AllowedTargetBranches p \<noteq> []"
    "rs_Mode p = ModeMerge \<or> rs_Mode p = ModeRelease \<Longrightarrow> rs_RequiredTestKinds p \<noteq> [] \<and> rs_MergeMethod p \<noteq> []"
    "rs_Mode p = ModeRelease \<Longrightarrow> rs_DeploymentWorkflow p \<noteq> [] \<and> rs_DeploymentEnvironment p \<noteq> [] \<and> rs_RequiredHealthChecks p \<noteq> []
       \<and> rs_RecoveryDefault p \<noteq> []"
    using m by (auto simp: r1)
qed

lemma resolved_complete:
  assumes r: "Resolve parse context layers now = Inr p" and ok: "rs_Resolved p"
  shows "complete_policy p"
proof -
  from r obtain q where s: "seal q = Inr p" by (auto simp: Resolve_Inr_iff)
  note n = missing_none [OF s ok] and f = resolved_fields [OF r]
  have trim: "TrimSpace [] = []" by code_simp
  from f have d: "decided pa_Mode layers [] (rs_Mode p)" by blast
  from decided_valid [OF r d n(1)] obtain q where "pa_Mode q = Some (rs_Mode p)" "validatePatch q = Inr ()" by blast
  then have mode: "rs_Mode p \<in> {ModeReviewOnly, ModeMerge, ModeRelease}" using patch_fields(1) by blast
  have merge: "rs_MergeMethod p \<in> {''merge'', ''squash'', ''rebase''}" if "rs_MergeMethod p \<noteq> []"
  proof -
    from f obtain x where x: "decided pa_MergeMethod layers [] x" "rs_MergeMethod p = ToLower (TrimSpace x)" by blast
    with that trim have "x \<noteq> []" by auto
    from decided_valid [OF r x(1) this] obtain q where "pa_MergeMethod q = Some x" "validatePatch q = Inr ()" by blast
    then show ?thesis using patch_fields(2) x(2) by simp
  qed
  have workflow: "workflowPattern (rs_DeploymentWorkflow p)" if "rs_DeploymentWorkflow p \<noteq> []"
  proof -
    from f obtain x where x: "decided pa_DeploymentWorkflow layers [] x" "rs_DeploymentWorkflow p = TrimSpace x" by blast
    with that trim have "x \<noteq> []" by auto
    from decided_valid [OF r x(1) this] obtain q where "pa_DeploymentWorkflow q = Some x" "validatePatch q = Inr ()" by blast
    then show ?thesis using patch_fields(3) x(2) by simp
  qed
  have recovery: "valid_classification (rs_RecoveryDefault p)" if "rs_RecoveryDefault p \<noteq> []"
  proof -
    from f obtain x where x: "decided pa_RecoveryDefault layers [] x" "rs_RecoveryDefault p = ToLower (TrimSpace x)" by blast
    with that trim have "x \<noteq> []" by auto
    from decided_valid [OF r x(1) this] obtain q where "pa_RecoveryDefault q = Some x" "validatePatch q = Inr ()" by blast
    then show ?thesis using patch_fields(4) x(2) by (simp add: valid_recovery_def valid_classification_def)
  qed
  show ?thesis unfolding complete_policy_def using mode n merge workflow recovery by auto
qed

subsection \<open>The policy and the gate\<close>

lemma graph_char_lower: "graph_char c \<Longrightarrow> graph_char (lower_char c)"
  by (auto simp: graph_char_def lower_char_def less_eq_char_def)

lemma GatePolicyFor_mode:
  "gp_Resolved (GatePolicyFor p action) \<Longrightarrow> rs_Resolved p \<and> (action = ActionMerge \<longrightarrow> rs_Mode p \<in> {ModeMerge, ModeRelease})
     \<and> (action = ActionRelease \<longrightarrow> rs_Mode p = ModeRelease)"
  by (auto simp: GatePolicyFor_def Let_def ActionMerge_def ActionRelease_def)

text \<open>
  C7. Nothing is merged or released beyond its resolved policy. Let a policy have been resolved for each revision of the matrix, and the
  policy evidence of the gate be the one that internal/releasegatecontrol/evidence.go builds from these policies. Then an
  allowed decision means that the very policy resolved for a revision is complete, that its mode covers the action, so
  that a review-only project is never merged and a merge-only project never released, and that it lists the revision's target branch
  exactly.
\<close>

theorem allowed_release_respects_policy:
  assumes ev: "gp_Repositories (gi_Policy i) = map (\<lambda>r. repositoryPolicyEvidence (gi_Action i) (policy r) r) (gi_Revisions i)"
    and resolved: "\<And>r. r \<in> set (gi_Revisions i) \<Longrightarrow> Resolve parse (context_of r) (layers_of r) now = Inr (policy r)"
    and ok: "gd_State (Evaluate i) = ''allowed''" and r: "r \<in> set (gi_Revisions i)"
  shows "complete_policy (policy r)
      \<and> (gi_Action i = ActionMerge \<longrightarrow> rs_Mode (policy r) \<in> {ModeMerge, ModeRelease})
      \<and> (gi_Action i = ActionRelease \<longrightarrow> rs_Mode (policy r) = ModeRelease)
      \<and> rv_Branch r \<in> set (rs_AllowedTargetBranches (policy r))"
proof -
  from ok have ready: "release_ready i" by (simp add: evaluate_state_iff)
  then obtain ns where ns: "normalizeRevisions (gi_Revisions i) = Inr ns" and per: "\<forall>r \<in> set ns. policy_ready i r"
    by (auto simp: release_ready_def)
  from ns have n: "list_all valid_revision (gi_Revisions i)" "distinct (map (\<lambda>r. repo_key (rv_Repository r)) (gi_Revisions i))"
    "set ns = normal_revision ` set (gi_Revisions i)"
    by (auto simp: normalizeRevisions_def bindE_Inr_iff collect_Inr_iff repo_key_def split: if_splits)
  from per n(3) r have "policy_ready i (normal_revision r)" by auto
  then obtain e where e: "e \<in> set (gp_Repositories (gi_Policy i))" "repo_key (rp_Repository e) = ToLower (TrimSpace (rv_Repository r))"
    "rp_Resolved e" "rp_ActionAllowed e" "rp_BranchAllowed e"
    by (auto simp: policy_ready_def about_def normal_revision_def)
  from e(1) obtain r' where p: "e = repositoryPolicyEvidence (gi_Action i) (policy r') r'" "r' \<in> set (gi_Revisions i)"
    unfolding ev by auto
  have key: "repo_key (ToLower (TrimSpace (rv_Repository r'))) = repo_key (rv_Repository r')"
  proof -
    have "list_all graph_char (TrimSpace (rv_Repository r'))"
      using n(1) p(2) by (intro validRepository_graph) (auto simp: list_all_iff valid_revision_def)
    then have "list_all graph_char (ToLower (TrimSpace (rv_Repository r')))"
      by (auto simp: list_all_iff ToLower_def graph_char_lower)
    then show ?thesis by (simp add: repo_key_def TrimSpace_all_graph)
  qed
  have same: "r' = r" using e(2) p key n(2) r by (auto simp: repositoryPolicyEvidence_def distinct_map inj_on_def repo_key_def)
  then have branch: "rv_Branch r \<in> set (rs_AllowedTargetBranches (policy r))"
    using e(5) p(1) by (auto simp: repositoryPolicyEvidence_def AllowsTargetBranch_def split: if_splits)
  have "gp_Resolved (GatePolicyFor (policy r) (gi_Action i))" using e(4) p(1) same by (simp add: repositoryPolicyEvidence_def)
  with GatePolicyFor_mode [of "policy r" "gi_Action i"] resolved_complete [OF resolved [OF r]] branch show ?thesis by blast
qed

end
