(* ===== verification/DeliveryPolicyRun.thy ===== *)
theory DeliveryPolicyRun
  imports DeliveryPolicyProps
begin

text \<open>
  A concrete resolution, from which the properties of \<open>DeliveryPolicyProps\<close> are applied: a platform
  layer, a project layer and a live override. The digests of the layers are sealed symbolically, as
  the store seals them, and never computed.
\<close>

definition ex_platform_patch :: policy_patch where
  "ex_platform_patch =
     \<lparr>pa_Mode = Some ModeReviewOnly, pa_GateApprovalMode = None, pa_RequiredTestKinds = Some [''unit''],
      pa_AllowedTargetBranches = Some [''main''], pa_MergeMethod = Some ''squash'', pa_DeploymentWorkflow = None,
      pa_DeploymentEnvironment = None, pa_RequiredSecretReferences = None, pa_RequiredVariableReferences = None,
      pa_RequiredHealthChecks = None, pa_RequiredPostMergeChecks = None, pa_RecoveryDefault = None\<rparr>"

definition ex_project_patch :: policy_patch where
  "ex_project_patch =
     \<lparr>pa_Mode = Some ModeRelease, pa_GateApprovalMode = Some GateApprovalDelegated, pa_RequiredTestKinds = None,
      pa_AllowedTargetBranches = None, pa_MergeMethod = None, pa_DeploymentWorkflow = Some ''.github/workflows/deploy.yml'',
      pa_DeploymentEnvironment = Some ''production'', pa_RequiredSecretReferences = Some [], pa_RequiredVariableReferences = Some [],
      pa_RequiredHealthChecks = Some [''health''], pa_RequiredPostMergeChecks = None, pa_RecoveryDefault = Some ''rollback''\<rparr>"

definition ex_override_patch :: policy_patch where
  "ex_override_patch =
     \<lparr>pa_Mode = None, pa_GateApprovalMode = None, pa_RequiredTestKinds = None,
      pa_AllowedTargetBranches = None, pa_MergeMethod = Some ''rebase'', pa_DeploymentWorkflow = None,
      pa_DeploymentEnvironment = None, pa_RequiredSecretReferences = None, pa_RequiredVariableReferences = None,
      pa_RequiredHealthChecks = None, pa_RequiredPostMergeChecks = None, pa_RecoveryDefault = None\<rparr>"

definition ex_approved :: gotime where "ex_approved = 86400000000000"
definition ex_resolve_at :: gotime where "ex_resolve_at = ex_approved + hour"

definition ex_draft :: "policy_level \<Rightarrow> string \<Rightarrow> string \<Rightarrow> string \<Rightarrow> policy_patch \<Rightarrow> gotime option \<Rightarrow> policy_layer" where
  "ex_draft level org project change_set p expires =
     \<lparr>la_SchemaVersion = 1, la_RevisionID = ''r1'', la_Level = level, la_OrganizationID = org, la_ProjectID = project,
      la_Repository = [], la_ChangeSetID = change_set, la_Patch = p, la_Reason = ''needed'', la_ExpiresAt = expires,
      la_Digest = [], la_Approved = True, la_ApprovedBy = ''pm'', la_ApprovedAt = ex_approved\<rparr>"

definition ex_drafts :: "policy_layer list" where
  "ex_drafts =
     [ex_draft LevelPlatform [] [] [] ex_platform_patch None,
      ex_draft LevelProject ''org'' ''proj'' [] ex_project_patch None,
      ex_draft LevelOverride ''org'' ''proj'' ''cs-1'' ex_override_patch (Some (ex_approved + 2 * hour))]"

definition seal_layer :: "policy_layer \<Rightarrow> policy_layer" where
  "seal_layer l = l\<lparr>la_Digest := the (LayerDigest l)\<rparr>"

definition ex_layers :: "policy_layer list" where "ex_layers = map seal_layer ex_drafts"

definition ex_parse :: "string \<Rightarrow> parsed_url option" where
  "ex_parse s =
     (if s = ''github://acme/api'' then
        Some \<lparr>url_Scheme = ''github'', url_hasUser = False, url_Host = ''acme'', url_Hostname = ''acme'', url_Port = [],
              url_Path = ''/api'', url_RawQuery = [], url_Fragment = []\<rparr>
      else None)"

definition ex_policy_context :: policy_context where
  "ex_policy_context =
     \<lparr>cx_OrganizationID = ''org'', cx_ProjectID = ''proj'', cx_Repository = ''github://acme/api'', cx_ChangeSetID = ''cs-1''\<rparr>"

lemma sealed_elsewhere:
  "LayerDigest (l\<lparr>la_Digest := d\<rparr>) = LayerDigest l" "validateScope parse c (l\<lparr>la_Digest := d\<rparr>) now = validateScope parse c l now"
  by (simp_all add: LayerDigest_def validateScope_def Let_def cong: option.case_cong if_cong)

lemma seal_layer_fields [simp]:
  "la_Level (seal_layer l) = la_Level l" "la_Patch (seal_layer l) = la_Patch l" "la_SchemaVersion (seal_layer l) = la_SchemaVersion l"
  "la_RevisionID (seal_layer l) = la_RevisionID l" "la_Approved (seal_layer l) = la_Approved l"
  "la_ApprovedBy (seal_layer l) = la_ApprovedBy l" "la_ApprovedAt (seal_layer l) = la_ApprovedAt l"
  "LayerDigest (seal_layer l) = LayerDigest l" "la_Digest (seal_layer l) = the (LayerDigest l)"
  "validateScope parse c (seal_layer l) now = validateScope parse c l now"
  by (simp_all add: seal_layer_def sealed_elsewhere)

lemma LayerDigest_sealed: "time_field (la_ExpiresAt l) \<noteq> None \<Longrightarrow> \<exists>x. LayerDigest l = Some (sha256_hex x)"
  by (auto simp: LayerDigest_def)

text \<open>A draft with a valid patch in scope is valid once it is sealed.\<close>

definition valid_draft :: "(string \<Rightarrow> parsed_url option) \<Rightarrow> policy_context \<Rightarrow> gotime \<Rightarrow> policy_layer \<Rightarrow> bool" where
  "valid_draft parse c now l =
     (la_SchemaVersion l = PolicySchemaVersion \<and> identityPattern (TrimSpace (la_RevisionID l)) \<and> la_Approved l
      \<and> identityPattern (TrimSpace (la_ApprovedBy l)) \<and> \<not> isZero (la_ApprovedAt l) \<and> \<not> now + minute < la_ApprovedAt l
      \<and> \<not> Option.is_none (time_field (la_ExpiresAt l)) \<and> \<not> Option.is_none (rfc3339_nano (la_ApprovedAt l))
      \<and> isOk (validatePatch (la_Patch l))
      \<and> \<not> (pa_GateApprovalMode (la_Patch l) = Some GateApprovalDelegated \<and> la_Level l = LevelOverride)
      \<and> isOk (validateScope parse c l now))"

lemma valid_draft_sealed:
  assumes "valid_draft parse c now l"
  shows "validateLayer parse c (seal_layer l) now = Inr ()"
proof -
  obtain x where "LayerDigest l = Some (sha256_hex x)"
    using assms LayerDigest_sealed [of l] by (auto simp: valid_draft_def Option.is_none_def)
  with assms show ?thesis by (auto simp: valid_draft_def validateLayer_def isOk_iff)
qed

lemma ex_drafts_valid: "list_all (valid_draft ex_parse ex_policy_context ex_resolve_at) ex_drafts"
  by code_simp

lemma ex_context_normal: "normalizeContext ex_parse ex_policy_context = Some ex_policy_context"
  by code_simp

lemma option_list_Some: "(\<forall>x \<in> set xs. x \<noteq> None) \<Longrightarrow> option_list xs \<noteq> None"
  by (induction xs) (auto split: option.splits)

lemma seal_total:
  assumes "\<forall>s \<in> set (rs_Sources r). rfc3339_nano (so_ApprovedAt s) \<noteq> None"
  shows "\<exists>p x. seal r = Inr p \<and> rs_Digest p = sha256_hex x"
proof -
  have "option_list (map source_json (rs_Sources r)) \<noteq> None"
    using assms by (intro option_list_Some) (auto simp: source_json_def split: option.splits)
  then show ?thesis by (auto simp: seal_def resolvedDigest_def Let_def)
qed

lemma ex_ordered: "ordered_layers ex_layers = ex_layers"
proof -
  have "map (\<lambda>l. precedence (la_Level l)) ex_layers = [0, 2, 4]"
    by (simp add: ex_layers_def ex_drafts_def ex_draft_def precedence_def policy_names)
  then show ?thesis unfolding ordered_layers_def by (intro sort_key_id_if_sorted) simp
qed

lemma ex_resolves:
  obtains p x where "Resolve ex_parse ex_policy_context ex_layers ex_resolve_at = Inr p" "rs_Digest p = sha256_hex x"
    "seal (fold applyLayer ex_layers (unresolved ex_policy_context)) = Inr p"
proof -
  have v: "\<forall>l \<in> set ex_layers. validateLayer ex_parse ex_policy_context l ex_resolve_at = Inr ()"
    using ex_drafts_valid by (auto simp: ex_layers_def list_all_iff valid_draft_sealed)
  have d: "distinct (map la_Level ex_layers)" by (simp add: ex_layers_def ex_drafts_def ex_draft_def policy_names)
  have "\<forall>s \<in> set (rs_Sources (fold applyLayer ex_layers (unresolved ex_policy_context))). rfc3339_nano (so_ApprovedAt s) \<noteq> None"
    using ex_drafts_valid
    by (auto simp: fold_Sources unresolved_def ex_layers_def source_of_def list_all_iff valid_draft_def Option.is_none_def)
  from seal_total [OF this] obtain p x
    where p: "seal (fold applyLayer ex_layers (unresolved ex_policy_context)) = Inr p" "rs_Digest p = sha256_hex x" by blast
  have "Resolve ex_parse ex_policy_context ex_layers ex_resolve_at = Inr p"
    using v d p(1) ex_context_normal by (auto simp: Resolve_Inr_iff ex_ordered ex_resolve_at_def ex_approved_def)
  with p that show thesis by blast
qed

text \<open>The three layers resolve, and the fields of the policy are those of the narrowest layers.\<close>

lemma ex_fields:
  assumes "seal (fold applyLayer ex_layers (unresolved ex_policy_context)) = Inr p"
  shows "rs_Mode p = ModeRelease" "rs_GateApprovalMode p = GateApprovalDelegated" "rs_AllowedTargetBranches p = [''main'']"
    "rs_MergeMethod p = ''rebase''" "rs_Resolved p"
proof -
  define r where "r = fold applyLayer ex_layers (unresolved ex_policy_context)"
  note defs = r_def ex_layers_def ex_drafts_def ex_draft_def applyLayer_def applyPatch_def unresolved_def set_given_def
    ex_platform_patch_def ex_project_patch_def ex_override_patch_def Let_def
  have names: "canonicalNames [''unit''] = [''unit'']" "canonicalNames [''main''] = [''main'']" "canonicalNames [''health''] = [''health'']"
    "ToLower (TrimSpace ''rebase'') = ''rebase''" "TrimSpace ''.github/workflows/deploy.yml'' = ''.github/workflows/deploy.yml''"
    "TrimSpace ''production'' = ''production''" "ToLower (TrimSpace ''rollback'') = ''rollback''"
    by code_simp+
  have f: "rs_Mode r = ModeRelease" "rs_GateApprovalMode r = GateApprovalDelegated" "rs_RequiredTestKinds r = [''unit'']"
    "rs_AllowedTargetBranches r = [''main'']" "rs_MergeMethod r = ''rebase''" "rs_DeploymentWorkflow r = ''.github/workflows/deploy.yml''"
    "rs_DeploymentEnvironment r = ''production''" "rs_RequiredHealthChecks r = [''health'']" "rs_RecoveryDefault r = ''rollback''"
    "rs_explicitTests r" "rs_explicitBranches r" "rs_explicitSecretReferences r" "rs_explicitVariableReferences r"
    by (simp_all add: defs names)
  from assms [folded r_def] show "rs_Mode p = ModeRelease" "rs_GateApprovalMode p = GateApprovalDelegated"
    "rs_AllowedTargetBranches p = [''main'']" "rs_MergeMethod p = ''rebase''" "rs_Resolved p"
    by (auto simp: seal_def f names canonicalBranches_def missingConfiguration_def Let_def policy_names split: option.splits)
qed

theorem resolve_ignores_layer_order_witness:
  "ex_layers \<noteq> rev ex_layers \<and> (\<exists>p. Resolve ex_parse ex_policy_context (rev ex_layers) ex_resolve_at = Inr p \<and> rs_Mode p = ModeRelease)"
proof -
  have "map la_Level ex_layers \<noteq> map la_Level (rev ex_layers)" by (simp add: ex_layers_def ex_drafts_def ex_draft_def policy_names)
  moreover have "mset (rev ex_layers) = mset ex_layers" by simp
  ultimately show ?thesis using resolve_ignores_layer_order ex_resolves ex_fields(1) by metis
qed

theorem narrowest_layer_decides_witness:
  "\<exists>p. Resolve ex_parse ex_policy_context ex_layers ex_resolve_at = Inr p \<and> rs_Mode p = ModeRelease
     \<and> decided pa_Mode ex_layers [] (rs_Mode p) \<and> rs_Safety p = safetyFloor"
proof -
  obtain p x where p: "Resolve ex_parse ex_policy_context ex_layers ex_resolve_at = Inr p" "rs_Digest p = sha256_hex x"
    "seal (fold applyLayer ex_layers (unresolved ex_policy_context)) = Inr p" by (rule ex_resolves)
  from narrowest_layer_decides [OF p(1)] p(1) ex_fields(1) [OF p(3)] show ?thesis by blast
qed

theorem policy_authority_is_sealed_witness:
  "\<exists>p. Resolve ex_parse ex_policy_context ex_layers ex_resolve_at = Inr p
     \<and> rs_GateApprovalMode p = GateApprovalDelegated \<and> list_ex (\<lambda>l. la_Level l = LevelOverride) ex_layers
     \<and> (\<exists>l \<in> set ex_layers. la_Level l \<noteq> LevelOverride \<and> pa_GateApprovalMode (la_Patch l) = Some GateApprovalDelegated)"
proof -
  obtain p x where p: "Resolve ex_parse ex_policy_context ex_layers ex_resolve_at = Inr p" "rs_Digest p = sha256_hex x"
    "seal (fold applyLayer ex_layers (unresolved ex_policy_context)) = Inr p" by (rule ex_resolves)
  have "list_ex (\<lambda>l. la_Level l = LevelOverride) ex_layers" by (simp add: ex_layers_def ex_drafts_def ex_draft_def)
  with policy_authority_is_sealed [OF p(1)] p(1) ex_fields(2) [OF p(3)] show ?thesis by blast
qed

lemma ex_policies_evidence:
  assumes "rs_Resolved p" "rs_Mode p = ModeRelease" "rs_AllowedTargetBranches p = [''main'']" "rs_Digest p = sha256_hex x"
  shows "ex_policies (rs_Digest p) = map (repositoryPolicyEvidence ActionRelease p) ex_revisions"
proof -
  have t: "TrimSpace ''main'' = ''main''" "ToLower (TrimSpace ''acme/api'') = ''acme/api''" "ToLower (TrimSpace ''acme/web'') = ''acme/web''"
    by code_simp+
  from assms show ?thesis
    by (simp add: ex_policies_def ex_revisions_def repositoryPolicyEvidence_def AllowsTargetBranch_def GatePolicyFor_def t Let_def)
qed

theorem allowed_release_respects_policy_witness:
  "\<exists>i. gd_State (Evaluate i) = ''allowed'' \<and> gi_Action i = ActionRelease \<and> ex_revisions = gi_Revisions i
     \<and> (\<forall>r. r \<in> set ex_revisions \<longrightarrow> (\<exists>p. complete_policy p \<and> rs_Mode p = ModeRelease \<and> rv_Branch r \<in> set (rs_AllowedTargetBranches p)))"
proof -
  obtain p x where p: "Resolve ex_parse ex_policy_context ex_layers ex_resolve_at = Inr p" "rs_Digest p = sha256_hex x"
    "seal (fold applyLayer ex_layers (unresolved ex_policy_context)) = Inr p" by (rule ex_resolves)
  note f = ex_fields [OF p(3)]
  let ?i = "ex_gate (rs_Digest p) id"
  have "validDigest (sha256_hex x)" using equalDigest_sha [of x] by (simp add: equalDigest_def)
  then have a: "gd_State (Evaluate ?i) = ''allowed''" using ex_ready by (simp add: evaluate_state_iff p(2))
  have sel: "gi_Action ?i = ActionRelease" "gi_Revisions ?i = ex_revisions" "gp_Repositories (gi_Policy ?i) = ex_policies (rs_Digest p)"
    by (simp_all add: ex_gate_def)
  have ev: "gp_Repositories (gi_Policy ?i) = map (\<lambda>r. repositoryPolicyEvidence (gi_Action ?i) ((\<lambda>_. p) r) r) (gi_Revisions ?i)"
    unfolding sel ex_policies_evidence [OF f(5,1,3) p(2)] by simp
  have "complete_policy p \<and> rs_Mode p = ModeRelease \<and> rv_Branch r \<in> set (rs_AllowedTargetBranches p)" if "r \<in> set ex_revisions" for r
    using allowed_release_respects_policy [of ?i "\<lambda>_. p" ex_parse "\<lambda>_. ex_policy_context" "\<lambda>_. ex_layers" ex_resolve_at r, OF ev p(1) a] that
    by (simp add: sel)
  with a sel show ?thesis by metis
qed

end
