(* ===== verification/GoJson.thy ===== *)
theory GoJson
  imports GoStd
begin

text \<open>
  Package encoding/json, reading: the scanner and the values it accepts, strings with their escapes
  turned into UTF-8 as \<open>unquote\<close> does, and the assignment of a value to the fields of a struct. A
  number keeps its literal. Field names match exactly or, failing that, up to ASCII case. A repeated
  key assigns again, and null leaves a field that is not a pointer as it was; a null element of a
  slice of strings is the empty string. With \<open>json_encode\<close> of the prelude the theory shows that what
  the program writes it reads back.
\<close>

subsection \<open>Values\<close>

datatype jvalue =
    VNull
  | VBool bool
  | VNum string
  | VStr string
  | VArr "jvalue list"
  | VObj "(string \<times> jvalue) list"

definition json_space :: "char \<Rightarrow> bool" where
  "json_space c = (c \<in> {CHR 0x20, CHR 0x09, CHR 0x0D, CHR 0x0A})"

definition skip_ws :: "string \<Rightarrow> string" where
  "skip_ws = dropWhile json_space"

definition decimal :: "char \<Rightarrow> bool" where
  "decimal c = (CHR ''0'' \<le> c \<and> c \<le> CHR ''9'')"

subsection \<open>Strings\<close>

definition hex_value :: "char \<Rightarrow> nat option" where
  "hex_value c =
     (let n = (of_char c :: nat)
      in if 48 \<le> n \<and> n \<le> 57 then Some (n - 48)
         else if 97 \<le> n \<and> n \<le> 102 then Some (n - 87)
         else if 65 \<le> n \<and> n \<le> 70 then Some (n - 55)
         else None)"

text \<open>Four hexadecimal digits and what follows them.\<close>

definition get_u4 :: "string \<Rightarrow> (nat \<times> string) option" where
  "get_u4 s =
     (case s of
        a # b # c # d # r \<Rightarrow>
          (case (hex_value a, hex_value b, hex_value c, hex_value d) of
             (Some w, Some x, Some y, Some z) \<Rightarrow> Some (((w * 16 + x) * 16 + y) * 16 + z, r)
           | _ \<Rightarrow> None)
      | _ \<Rightarrow> None)"

definition utf8_of :: "nat \<Rightarrow> string" where
  "utf8_of n =
     (if n < 128 then [char_of n]
      else if n < 2048 then [char_of (192 + n div 64), char_of (128 + n mod 64)]
      else if n < 65536 then [char_of (224 + n div 4096), char_of (128 + n div 64 mod 64), char_of (128 + n mod 64)]
      else [char_of (240 + n div 262144), char_of (128 + n div 4096 mod 64), char_of (128 + n div 64 mod 64),
            char_of (128 + n mod 64)])"

definition replacement :: string where
  "replacement = [CHR 0xEF, CHR 0xBF, CHR 0xBD]"

text \<open>A code unit after \<open>\u\<close>: a pair of surrogates is one rune, a lone one the replacement character.\<close>

definition unescape_u :: "string \<Rightarrow> (string \<times> string) option" where
  "unescape_u s =
     (case get_u4 s of
        None \<Rightarrow> None
      | Some (n, r) \<Rightarrow>
          if 55296 \<le> n \<and> n \<le> 57343 then
            (case r of
               b # u # r1 \<Rightarrow>
                 (if b = CHR 0x5C \<and> u = CHR ''u'' then
                    (case get_u4 r1 of
                       Some (m, r2) \<Rightarrow>
                         if n < 56320 \<and> 56320 \<le> m \<and> m \<le> 57343
                         then Some (utf8_of (65536 + (n - 55296) * 1024 + (m - 56320)), r2) else Some (replacement, r)
                     | None \<Rightarrow> Some (replacement, r))
                  else Some (replacement, r))
             | _ \<Rightarrow> Some (replacement, r))
          else Some (utf8_of n, r))"

definition unescape :: "string \<Rightarrow> (string \<times> string) option" where
  "unescape s =
     (case s of
        [] \<Rightarrow> None
      | e # r \<Rightarrow>
          if e = CHR 0x22 \<or> e = CHR 0x5C \<or> e = CHR ''/'' then Some ([e], r)
          else if e = CHR ''b'' then Some ([CHR 0x08], r)
          else if e = CHR ''f'' then Some ([CHR 0x0C], r)
          else if e = CHR ''n'' then Some ([CHR 0x0A], r)
          else if e = CHR ''r'' then Some ([CHR 0x0D], r)
          else if e = CHR ''t'' then Some ([CHR 0x09], r)
          else if e = CHR ''u'' then unescape_u r
          else None)"

lemma get_u4_shorter: "get_u4 s = Some (n, r) \<Longrightarrow> length r < length s"
  by (auto simp: get_u4_def split: list.splits option.splits)

lemma unescape_shorter: "unescape s = Some (t, r) \<Longrightarrow> length r < length s"
  by (auto simp: unescape_def unescape_u_def dest!: get_u4_shorter split: list.splits if_splits option.splits)

text \<open>The rest of a string after its opening quote: its bytes and what follows the closing quote.\<close>

function parse_chars :: "string \<Rightarrow> (string \<times> string) option" where
  "parse_chars [] = None"
| "parse_chars (c # cs) =
     (if c = CHR 0x22 then Some ([], cs)
      else if c < CHR 0x20 then None
      else if c = CHR 0x5C then
        (case unescape cs of
           None \<Rightarrow> None
         | Some (bytes, r) \<Rightarrow> map_option (map_prod ((@) bytes) id) (parse_chars r))
      else let w = utf8_width (c # cs)
        in if w = 0 then map_option (map_prod ((@) replacement) id) (parse_chars cs)
           else map_option (map_prod ((@) (take w (c # cs))) id) (parse_chars (drop (w - 1) cs)))"
  by pat_completeness auto
termination
  by (relation "measure length") (auto dest: unescape_shorter)

subsection \<open>Numbers\<close>

definition number_fraction :: "string \<Rightarrow> (string \<times> string) option" where
  "number_fraction s =
     (case s of
        c # r \<Rightarrow>
          if c = CHR ''.'' then
            (if takeWhile decimal r = [] then None else Some (c # takeWhile decimal r, dropWhile decimal r))
          else Some ([], s)
      | [] \<Rightarrow> Some ([], []))"

definition number_exponent :: "string \<Rightarrow> (string \<times> string) option" where
  "number_exponent s =
     (case s of
        e # r \<Rightarrow>
          if e = CHR ''e'' \<or> e = CHR ''E'' then
            (let sign = (case r of g # _ \<Rightarrow> (if g = CHR ''+'' \<or> g = CHR ''-'' then [g] else []) | [] \<Rightarrow> []);
                 ds = drop (length sign) r
             in if takeWhile decimal ds = [] then None else Some (e # sign @ takeWhile decimal ds, dropWhile decimal ds))
          else Some ([], s)
      | [] \<Rightarrow> Some ([], []))"

definition number_whole :: "string \<Rightarrow> (string \<times> string) option" where
  "number_whole s =
     (case s of
        c # r \<Rightarrow>
          if c = CHR ''0'' then Some ([c], r)
          else if decimal c then Some (takeWhile decimal s, dropWhile decimal s)
          else None
      | [] \<Rightarrow> None)"

definition parse_number :: "string \<Rightarrow> (string \<times> string) option" where
  "parse_number s =
     (let sign = (case s of c # _ \<Rightarrow> (if c = CHR ''-'' then [c] else []) | [] \<Rightarrow> [])
      in case number_whole (drop (length sign) s) of
           None \<Rightarrow> None
         | Some (whole, r1) \<Rightarrow>
             (case number_fraction r1 of
                None \<Rightarrow> None
              | Some (fraction, r2) \<Rightarrow>
                  (case number_exponent r2 of
                     None \<Rightarrow> None
                   | Some (exponent, r3) \<Rightarrow> Some (sign @ whole @ fraction @ exponent, r3))))"

subsection \<open>Documents\<close>

definition maxNestingDepth :: nat where "maxNestingDepth = 10000"

lemma skip_ws_length: "length (skip_ws s) \<le> length s"
  by (simp add: skip_ws_def length_dropWhile_le)

text \<open>The comparisons of lengths always hold; they make the recursion visibly finite.\<close>

function (sequential) parse_value :: "nat \<Rightarrow> string \<Rightarrow> (jvalue \<times> string) option"
  and parse_elems :: "nat \<Rightarrow> string \<Rightarrow> (jvalue list \<times> string) option"
  and parse_members :: "nat \<Rightarrow> string \<Rightarrow> ((string \<times> jvalue) list \<times> string) option" where
  "parse_value d [] = None"
| "parse_value d (c # r) =
     (if c = CHR 0x22 then map_option (map_prod VStr id) (parse_chars r)
      else if c = CHR ''['' then
        (if maxNestingDepth \<le> d then None
         else if HasPrefix (skip_ws r) '']'' then Some (VArr [], tl (skip_ws r))
         else map_option (map_prod VArr id) (parse_elems (Suc d) (skip_ws r)))
      else if c = CHR 0x7B then
        (if maxNestingDepth \<le> d then None
         else if HasPrefix (skip_ws r) [CHR 0x7D] then Some (VObj [], tl (skip_ws r))
         else map_option (map_prod VObj id) (parse_members (Suc d) (skip_ws r)))
      else if HasPrefix (c # r) ''true'' then Some (VBool True, drop 4 (c # r))
      else if HasPrefix (c # r) ''false'' then Some (VBool False, drop 5 (c # r))
      else if HasPrefix (c # r) ''null'' then Some (VNull, drop 4 (c # r))
      else map_option (map_prod VNum id) (parse_number (c # r)))"
| "parse_elems d s =
     (case parse_value d s of
        None \<Rightarrow> None
      | Some (v, r) \<Rightarrow>
          if HasPrefix (skip_ws r) '']'' then Some ([v], tl (skip_ws r))
          else if HasPrefix (skip_ws r) '','' \<and> length (skip_ws (tl (skip_ws r))) < length s then
            map_option (map_prod (Cons v) id) (parse_elems d (skip_ws (tl (skip_ws r))))
          else None)"
| "parse_members d s =
     (if \<not> HasPrefix s [CHR 0x22] then None
      else case parse_chars (tl s) of
          None \<Rightarrow> None
        | Some (k, r1) \<Rightarrow>
            if HasPrefix (skip_ws r1) '':'' \<and> length (skip_ws (tl (skip_ws r1))) < length s then
              (case parse_value d (skip_ws (tl (skip_ws r1))) of
                 None \<Rightarrow> None
               | Some (v, r2) \<Rightarrow>
                   if HasPrefix (skip_ws r2) [CHR 0x7D] then Some ([(k, v)], tl (skip_ws r2))
                   else if HasPrefix (skip_ws r2) '','' \<and> length (skip_ws (tl (skip_ws r2))) < length s then
                     map_option (map_prod (Cons (k, v)) id) (parse_members d (skip_ws (tl (skip_ws r2))))
                   else None)
            else None)"
  by pat_completeness auto

termination
  by (relation "measure (\<lambda>a. case a of Inl (d, s) \<Rightarrow> 2 * length s | Inr (Inl (d, s)) \<Rightarrow> Suc (2 * length s)
        | Inr (Inr (d, s)) \<Rightarrow> Suc (2 * length s))")
     (auto simp: skip_ws_length le_imp_less_Suc)

declare parse_value.simps(2) [simp del] parse_elems.simps [simp del] parse_members.simps [simp del]

text \<open>One document with nothing after it: \<open>Unmarshal\<close>, and \<open>Decode\<close> followed by the end of the input.\<close>

definition json_document :: "string \<Rightarrow> jvalue option" where
  "json_document s =
     (case parse_value 0 (skip_ws s) of
        None \<Rightarrow> None
      | Some (v, r) \<Rightarrow> if skip_ws r = [] then Some v else None)"

subsection \<open>Assigning to Go values\<close>

text \<open>
  A decoder takes the value at hand and the current content of the destination. Its errors are all
  alike: the callers only look whether there is one.
\<close>

type_synonym 'a decoder = "jvalue \<Rightarrow> 'a \<Rightarrow> 'a option"

definition un_string :: "string decoder" where
  "un_string v old = (case v of VStr s \<Rightarrow> Some s | VNull \<Rightarrow> Some old | _ \<Rightarrow> None)"

definition un_bool :: "bool decoder" where
  "un_bool v old = (case v of VBool b \<Rightarrow> Some b | VNull \<Rightarrow> Some old | _ \<Rightarrow> None)"

text \<open>The value of a decimal literal, and \<open>strconv.ParseInt\<close> into 64 bits.\<close>

definition decimal_value :: "string \<Rightarrow> int" where
  "decimal_value ds = foldl (\<lambda>n c. n * 10 + int (of_char c - 48)) 0 ds"

definition int_literal :: "string \<Rightarrow> int option" where
  "int_literal s =
     (let neg = HasPrefix s ''-''; ds = (if neg then tl s else s);
          n = (if neg then - decimal_value ds else decimal_value ds)
      in if ds = [] \<or> \<not> list_all decimal ds \<or> n < - MaxInt64 - 1 \<or> MaxInt64 < n then None else Some n)"

definition un_int :: "int decoder" where
  "un_int v old = (case v of VNum s \<Rightarrow> int_literal s | VNull \<Rightarrow> Some old | _ \<Rightarrow> None)"

text \<open>A pointer is nil after null, and otherwise points to what was decoded.\<close>

definition un_pointer :: "'a \<Rightarrow> 'a decoder \<Rightarrow> 'a option decoder" where
  "un_pointer zero dec v old =
     (case v of VNull \<Rightarrow> Some None | _ \<Rightarrow> map_option Some (dec v (case old of None \<Rightarrow> zero | Some x \<Rightarrow> x)))"

fun un_elements :: "'a \<Rightarrow> 'a decoder \<Rightarrow> jvalue list \<Rightarrow> 'a list option" where
  "un_elements zero dec [] = Some []"
| "un_elements zero dec (v # vs) =
     (case dec v zero of
        None \<Rightarrow> None
      | Some x \<Rightarrow> (case un_elements zero dec vs of None \<Rightarrow> None | Some xs \<Rightarrow> Some (x # xs)))"

definition un_slice :: "'a \<Rightarrow> 'a decoder \<Rightarrow> 'a list decoder" where
  "un_slice zero dec v old = (case v of VArr vs \<Rightarrow> un_elements zero dec vs | VNull \<Rightarrow> Some [] | _ \<Rightarrow> None)"

text \<open>
  The fields of a struct: the field with exactly the key, or else the first that equals it up to
  case. An unknown key is an error when the decoder is strict and ignored otherwise.
\<close>

type_synonym 'a field_decoders = "(string \<times> 'a decoder) list"

definition field_named :: "'a field_decoders \<Rightarrow> string \<Rightarrow> 'a decoder option" where
  "field_named fields key =
     (case map_of fields key of
        Some dec \<Rightarrow> Some dec
      | None \<Rightarrow> map_option snd (find (\<lambda>(name, dec). EqualFold name key) fields))"

fun un_fields :: "bool \<Rightarrow> 'a field_decoders \<Rightarrow> (string \<times> jvalue) list \<Rightarrow> 'a \<Rightarrow> 'a option" where
  "un_fields strict fields [] r = Some r"
| "un_fields strict fields ((key, v) # members) r =
     (case field_named fields key of
        None \<Rightarrow> if strict then None else un_fields strict fields members r
      | Some dec \<Rightarrow> (case dec v r of None \<Rightarrow> None | Some r' \<Rightarrow> un_fields strict fields members r'))"

definition un_struct :: "bool \<Rightarrow> 'a field_decoders \<Rightarrow> 'a decoder" where
  "un_struct strict fields v r =
     (case v of VObj members \<Rightarrow> un_fields strict fields members r | VNull \<Rightarrow> Some r | _ \<Rightarrow> None)"

text \<open>A decoder for one field of a record, from its selector and update.\<close>

definition in_field :: "('r \<Rightarrow> 'a) \<Rightarrow> ('a \<Rightarrow> 'r \<Rightarrow> 'r) \<Rightarrow> 'a decoder \<Rightarrow> 'r decoder" where
  "in_field get put dec v r = map_option (\<lambda>x. put x r) (dec v (get r))"

definition json_unmarshal :: "'a decoder \<Rightarrow> 'a \<Rightarrow> string \<Rightarrow> 'a option" where
  "json_unmarshal dec zero text = (case json_document text of None \<Rightarrow> None | Some v \<Rightarrow> dec v zero)"

section \<open>Reading back what was written\<close>

subsection \<open>Numbers\<close>

lemma digit_of_decimal: "n < 10 \<Longrightarrow> decimal (digit_of n)" "n < 10 \<Longrightarrow> digit_of n = CHR ''0'' \<longleftrightarrow> n = 0"
proof -
  have "list_all (\<lambda>n. decimal (digit_of n) \<and> (digit_of n = CHR ''0'' \<longleftrightarrow> n = 0)) [0..<10]" by code_simp
  then show "n < 10 \<Longrightarrow> decimal (digit_of n)" "n < 10 \<Longrightarrow> digit_of n = CHR ''0'' \<longleftrightarrow> n = 0"
    by (auto simp: list_all_iff)
qed

lemma show_nat_shape:
  "list_all decimal (show_nat n) \<and> show_nat n \<noteq> [] \<and> (hd (show_nat n) = CHR ''0'' \<longrightarrow> n = 0)"
proof (induction n rule: show_nat.induct)
  case (1 n)
  then show ?case by (subst (1 2 3) show_nat.simps) (auto simp: digit_of_decimal hd_append)
qed

lemma show_nat_0: "show_nat 0 = ''0''"
  by code_simp

text \<open>What follows a number must not continue it.\<close>

definition num_end :: "string \<Rightarrow> bool" where
  "num_end r = (case r of [] \<Rightarrow> True | c # _ \<Rightarrow> \<not> decimal c \<and> c \<notin> set ''.eE'')"

lemma num_end_simps [simp]: "num_end []" "num_end (CHR '','' # r)" "num_end (CHR '']'' # r)" "num_end (CHR 0x7D # r)"
  by (simp_all add: num_end_def decimal_def less_eq_char_def)

lemma number_end: "num_end r \<Longrightarrow> number_fraction r = Some ([], r) \<and> number_exponent r = Some ([], r)"
  by (auto simp: num_end_def number_fraction_def number_exponent_def split: list.splits)

lemma decimal_run:
  assumes "list_all decimal ds" "num_end r"
  shows "takeWhile decimal (ds @ r) = ds" "dropWhile decimal (ds @ r) = r"
  using assms by (auto simp: list_all_iff takeWhile_append2 dropWhile_append2 num_end_def takeWhile_eq_Nil_iff split: list.splits)

lemma number_whole_show:
  assumes "num_end r"
  shows "number_whole (show_nat n @ r) = Some (show_nat n, r)"
proof (cases "n = 0")
  case True
  then show ?thesis by (simp add: show_nat_0 number_whole_def)
next
  case False
  obtain c cs where s: "show_nat n = c # cs" using show_nat_shape [of n] by (cases "show_nat n") auto
  have "decimal c" "c \<noteq> CHR ''0''" using show_nat_shape [of n] False by (auto simp: s)
  with decimal_run [OF _ assms, of "show_nat n"] show_nat_shape [of n] show ?thesis
    by (simp add: number_whole_def s)
qed

lemma show_nat_no_sign: "(case show_nat n @ r of c # _ \<Rightarrow> (if c = CHR ''-'' then [c] else []) | [] \<Rightarrow> []) = []"
  using show_nat_shape [of n] by (cases "show_nat n") (auto simp: decimal_def less_eq_char_def)

lemma parse_number_show: "num_end r \<Longrightarrow> parse_number (show_int i @ r) = Some (show_int i, r)"
  by (simp add: parse_number_def show_int_def show_nat_no_sign number_whole_show number_end)

subsection \<open>Strings\<close>

lemma hex_value_digit: "n < 16 \<Longrightarrow> hex_value (hex_digit n) = Some n"
  by (auto simp: hex_value_def hex_digit_def Let_def)

text \<open>The text of a string that \<open>json.Marshal\<close> writes unchanged: well-formed UTF-8.\<close>

function utf8_valid :: "string \<Rightarrow> bool" where
  "utf8_valid [] = True"
| "utf8_valid (c # cs) = (let w = utf8_width (c # cs) in w \<noteq> 0 \<and> utf8_valid (drop (w - 1) cs))"
  by pat_completeness auto
termination
  by (relation "measure length") auto

lemma utf8_width_ascii: "c < CHR 0x80 \<Longrightarrow> utf8_width (c # cs) = 1"
  by simp

lemma utf8_width_le: "utf8_width s \<le> length s"
  by (cases s) (auto split: list.splits)

lemma utf8_width_prefix:
  assumes "utf8_width s = w" "w \<noteq> 0"
  shows "utf8_width (take w s @ t) = w"
proof -
  obtain a r where "s = a # r" using assms by (cases s) auto
  with assms show ?thesis by (auto split: list.splits if_splits)
qed

lemma char_lt_iff: "(c::char) < d \<longleftrightarrow> (of_char c :: nat) < of_char d"
  by (simp add: less_char_def)

lemma char_eq_iff: "(c::char) = d \<longleftrightarrow> (of_char c :: nat) = of_char d"
  by simp

lemma parse_plain:
  assumes "\<not> c < CHR 0x20" "c < CHR 0x80" "c \<noteq> CHR 0x22" "c \<noteq> CHR 0x5C"
  shows "parse_chars (c # t) = map_option (map_prod (Cons c) id) (parse_chars t)"
proof -
  have "(@) [c] = Cons c" by auto
  with assms show ?thesis by (simp add: utf8_width_ascii Let_def)
qed

lemma parse_escaped:
  assumes "unescape (e @ t) = Some ([c], t)"
  shows "parse_chars (CHR 0x5C # e @ t) = map_option (map_prod (Cons c) id) (parse_chars t)"
proof -
  have "(@) [c] = Cons c" by auto
  with assms show ?thesis by (simp add: less_char_def)
qed

lemma unescape_00:
  assumes "n < 128"
  shows "unescape (''u00'' @ [hex_digit (n div 16), hex_digit (n mod 16)] @ t) = Some ([char_of n], t)"
proof -
  have "hex_value (CHR ''0'') = Some 0" by (simp add: hex_value_def)
  moreover have "n div 16 < 16" "n mod 16 < 16" "n div 16 * 16 + n mod 16 = n" using assms by simp_all
  ultimately show ?thesis using assms
    by (simp add: unescape_def unescape_u_def get_u4_def hex_value_digit utf8_of_def)
qed

lemma parse_escape:
  assumes "c < CHR 0x80"
  shows "parse_chars (json_escape c @ t) = map_option (map_prod (Cons c) id) (parse_chars t)"
proof -
  define n :: nat where "n = of_char c"
  have c: "c = char_of n" by (simp add: n_def)
  have n: "n < 128" using assms by (simp add: n_def char_lt_iff)
  consider "n \<in> {34, 92, 8, 12, 10, 13, 9}" | "n \<notin> {34, 92, 8, 12, 10, 13, 9}" "n < 32 \<or> n = 60 \<or> n = 62 \<or> n = 38"
    | "n \<notin> {34, 92, 8, 12, 10, 13, 9}" "\<not> (n < 32 \<or> n = 60 \<or> n = 62 \<or> n = 38)" by blast
  then show ?thesis
  proof cases
    case 1
    moreover have "char_of (34::nat) = CHR 0x22" "char_of (92::nat) = CHR 0x5C" "char_of (8::nat) = CHR 0x08" "char_of (12::nat) = CHR 0x0C"
      "char_of (10::nat) = CHR 0x0A" "char_of (13::nat) = CHR 0x0D" "char_of (9::nat) = CHR 0x09" by code_simp+
    ultimately have "c \<in> {CHR 0x22, CHR 0x5C, CHR 0x08, CHR 0x0C, CHR 0x0A, CHR 0x0D, CHR 0x09}" by (auto simp: c)
    then obtain e where "json_escape c = [CHR 0x5C, e]" "unescape ([e] @ t) = Some ([c], t)"
      by (auto simp: json_escape_def Let_def unescape_def)
    then show ?thesis using parse_escaped [of "[e]"] by simp
  next
    case 2
    then have "json_escape c = CHR 0x5C # ''u00'' @ [hex_digit (n div 16), hex_digit (n mod 16)]"
      by (auto simp: json_escape_def Let_def n_def)
    then show ?thesis using parse_escaped [OF unescape_00 [OF n, of t, unfolded append_assoc [symmetric]]] by (simp add: c)
  next
    case 3
    then have "json_escape c = [c]" "\<not> c < CHR 0x20" "c \<noteq> CHR 0x22" "c \<noteq> CHR 0x5C"
      by (auto simp: json_escape_def Let_def n_def char_lt_iff)
    then show ?thesis using parse_plain assms by simp
  qed
qed

lemma map_append_id: "map_option (map_prod ((@) xs) id) (Some (s, r)) = Some (xs @ s, r)"
  by simp

lemma parse_multibyte:
  assumes w: "utf8_width (c # cs) = w" "w \<noteq> 0" and c: "\<not> c < CHR 0x80"
  shows "parse_chars (take w (c # cs) @ t) = map_option (map_prod ((@) (take w (c # cs))) id) (parse_chars t)"
proof -
  obtain v where v: "w = Suc v" using w(2) by (cases w) auto
  have len: "v \<le> length cs" using utf8_width_le [of "c # cs"] w(1) by (simp add: v del: utf8_width.simps)
  have "utf8_width (c # take v cs @ t) = w" using utf8_width_prefix [OF w, of t] by (simp add: v)
  moreover have "take v (take v cs @ t) = take v cs" "drop v (take v cs @ t) = t" using len by simp_all
  moreover have "c \<noteq> CHR 0x22" "\<not> c < CHR 0x20" "c \<noteq> CHR 0x5C" using c by (auto simp: less_char_def)
  ultimately show ?thesis using len by (simp add: v del: utf8_width.simps)
qed

lemma unescape_separators:
  "unescape (''u2028'' @ t) = Some ([CHR 0xE2, CHR 0x80, CHR 0xA8], t)"
  "unescape (''u2029'' @ t) = Some ([CHR 0xE2, CHR 0x80, CHR 0xA9], t)"
proof -
  have h: "hex_value (CHR ''0'') = Some 0" "hex_value (CHR ''2'') = Some 2" "hex_value (CHR ''8'') = Some 8" "hex_value (CHR ''9'') = Some 9"
    by (simp_all add: hex_value_def)
  have "char_of (226::nat) = CHR 0xE2" "char_of (128::nat) = CHR 0x80" "char_of (168::nat) = CHR 0xA8" "char_of (169::nat) = CHR 0xA9"
    by code_simp+
  then have u: "utf8_of 8232 = [CHR 0xE2, CHR 0x80, CHR 0xA8]" "utf8_of 8233 = [CHR 0xE2, CHR 0x80, CHR 0xA9]"
    by (simp_all add: utf8_of_def)
  show "unescape (''u2028'' @ t) = Some ([CHR 0xE2, CHR 0x80, CHR 0xA8], t)"
    "unescape (''u2029'' @ t) = Some ([CHR 0xE2, CHR 0x80, CHR 0xA9], t)"
    by (simp_all add: unescape_def unescape_u_def get_u4_def h u)
qed

lemma parse_escape_many:
  assumes "unescape (e @ t) = Some (b, t)"
  shows "parse_chars (CHR 0x5C # e @ t) = map_option (map_prod ((@) b) id) (parse_chars t)"
  using assms by (simp add: less_char_def)

lemma parse_chars_written:
  "utf8_valid s \<Longrightarrow> parse_chars (json_chars s @ CHR 0x22 # r) = Some (s, r)"
proof (induction s rule: json_chars.induct)
  case (2 c cs)
  let ?w = "utf8_width (c # cs)"
  show ?case
  proof (cases "c < CHR 0x80")
    case True
    then have "utf8_valid cs" using 2(4) by (simp add: Let_def)
    with 2(1) [OF True] True show ?thesis by (simp add: parse_escape)
  next
    case False
    have w: "?w \<noteq> 0" "utf8_valid (drop (?w - 1) cs)" using 2(4) by (simp_all add: Let_def)
    have IH: "parse_chars (json_chars (drop (?w - 1) cs) @ CHR 0x22 # r) = Some (drop (?w - 1) cs, r)"
      using 2(3) [OF False refl w(1) refl] w(2) by simp
    have split: "c # cs = take ?w (c # cs) @ drop (?w - 1) cs" using w(1) by (cases ?w) (simp_all del: utf8_width.simps)
    let ?t = "json_chars (drop (?w - 1) cs) @ CHR 0x22 # r"
    consider "take ?w (c # cs) = [CHR 0xE2, CHR 0x80, CHR 0xA8]" | "take ?w (c # cs) = [CHR 0xE2, CHR 0x80, CHR 0xA9]"
      | "take ?w (c # cs) \<noteq> [CHR 0xE2, CHR 0x80, CHR 0xA8]" "take ?w (c # cs) \<noteq> [CHR 0xE2, CHR 0x80, CHR 0xA9]" by blast
    then have "parse_chars (json_chars (c # cs) @ CHR 0x22 # r) = map_option (map_prod ((@) (take ?w (c # cs))) id) (parse_chars ?t)"
    proof cases
      case 1
      then have "json_chars (c # cs) @ CHR 0x22 # r = CHR 0x5C # ''u2028'' @ ?t" using False w(1) by (simp add: Let_def del: utf8_width.simps)
      with parse_escape_many [OF unescape_separators(1)] 1 show ?thesis by metis
    next
      case 2
      then have "json_chars (c # cs) @ CHR 0x22 # r = CHR 0x5C # ''u2029'' @ ?t" using False w(1) by (simp add: Let_def del: utf8_width.simps)
      with parse_escape_many [OF unescape_separators(2)] 2 show ?thesis by metis
    next
      case 3
      then have "json_chars (c # cs) @ CHR 0x22 # r = take ?w (c # cs) @ ?t" using False w(1) by (simp add: Let_def del: utf8_width.simps)
      with parse_multibyte [OF refl w(1) False, of ?t] show ?thesis by metis
    qed
    with IH split show ?thesis by simp
  qed
qed simp

subsection \<open>Values\<close>

text \<open>What a written tree is read as, the strings it holds being well-formed, and its nesting.\<close>

fun read_as :: "json \<Rightarrow> jvalue" where
  "read_as (JStr s) = VStr s"
| "read_as (JInt i) = VNum (show_int i)"
| "read_as (JBool b) = VBool b"
| "read_as JNull = VNull"
| "read_as (JArr xs) = VArr (map read_as xs)"
| "read_as (JObj fs) = VObj (map (\<lambda>(k, v). (k, read_as v)) fs)"

fun json_valid :: "json \<Rightarrow> bool" where
  "json_valid (JStr s) = utf8_valid s"
| "json_valid (JArr xs) = list_all json_valid xs"
| "json_valid (JObj fs) = list_all (\<lambda>(k, v). utf8_valid k \<and> json_valid v) fs"
| "json_valid _ = True"

fun json_depth :: "json \<Rightarrow> nat" where
  "json_depth (JArr xs) = Suc (fold max (map json_depth xs) 0)"
| "json_depth (JObj fs) = Suc (fold max (map (\<lambda>(k, v). json_depth v) fs) 0)"
| "json_depth _ = 0"

lemma fold_max_ge: "x \<in> set xs \<Longrightarrow> x \<le> fold max xs (m::nat)"
proof (induction xs arbitrary: m)
  case (Cons a xs)
  have mono: "m \<le> fold max xs m" for m :: nat by (induction xs arbitrary: m) (auto intro: order_trans [OF max.cobounded2])
  show ?case using Cons mono [of "max a m"] by (auto intro: order_trans [OF max.cobounded1])
qed simp

lemma skip_ws_quote [simp]: "skip_ws (CHR 0x22 # r) = CHR 0x22 # r"
  by (simp add: skip_ws_def json_space_def)

lemma skip_ws_marks [simp]:
  "skip_ws (CHR '','' # r) = CHR '','' # r" "skip_ws (CHR '']'' # r) = CHR '']'' # r" "skip_ws (CHR 0x7D # r) = CHR 0x7D # r"
  "skip_ws (CHR '':'' # r) = CHR '':'' # r" "skip_ws [] = []"
  by (simp_all add: skip_ws_def json_space_def)

text \<open>The first byte of a written value is neither white space nor a closing bracket.\<close>

definition value_start :: "string \<Rightarrow> bool" where
  "value_start s = (case s of [] \<Rightarrow> False | c # _ \<Rightarrow> \<not> json_space c \<and> c \<noteq> CHR '']'' \<and> c \<noteq> CHR 0x7D)"

lemma value_start_append: "value_start s \<Longrightarrow> value_start (s @ r)"
  by (auto simp: value_start_def split: list.splits)

lemma value_start_skip: "value_start s \<Longrightarrow> skip_ws s = s"
  by (auto simp: value_start_def skip_ws_def split: list.splits)

lemma number_start:
  assumes "decimal c \<or> c = CHR ''-''"
  shows "\<not> json_space c" "c \<noteq> CHR '']''" "c \<noteq> CHR 0x7D" "c \<noteq> CHR 0x22" "c \<noteq> CHR ''[''" "c \<noteq> CHR 0x7B"
    "c \<noteq> CHR ''t''" "c \<noteq> CHR ''f''" "c \<noteq> CHR ''n''"
  using assms by (auto simp: decimal_def json_space_def less_eq_char_def)

lemma show_int_start: "\<exists>c t. show_int i = c # t \<and> (decimal c \<or> c = CHR ''-'')"
  using show_nat_shape [of "nat i"] by (cases "show_nat (nat i)") (auto simp: show_int_def)

lemma encode_start: "value_start (json_encode j)"
proof (cases j)
  case (JInt i)
  obtain c t where "show_int i = c # t" and "decimal c \<or> c = CHR ''-''" using show_int_start by blast
  with JInt show ?thesis by (simp add: value_start_def number_start)
qed (simp_all add: value_start_def json_string_def json_space_def)

lemma HasPrefix_simps [simp]: "HasPrefix s []" "HasPrefix (c # r) (d # ds) \<longleftrightarrow> c = d \<and> HasPrefix r ds" "\<not> HasPrefix [] (d # ds)"
  by (auto simp: HasPrefix_def)

lemma parse_value_number:
  assumes "num_end r"
  shows "parse_value d (show_int i @ r) = Some (VNum (show_int i), r)"
proof -
  obtain c t where s: "show_int i = c # t" and c: "decimal c \<or> c = CHR ''-''" using show_int_start by blast
  have "parse_value d (c # (t @ r)) = map_option (map_prod VNum id) (parse_number (c # (t @ r)))"
    unfolding parse_value.simps(2) by (simp add: number_start [OF c])
  with parse_number_show [OF assms, of i] show ?thesis by (simp add: s)
qed

lemma parse_elems_step:
  assumes "parse_value d (e @ '','' @ r) = Some (v, '','' @ r)" "value_start r" "parse_elems d r = Some (vs, t)"
  shows "parse_elems d (e @ '','' @ r) = Some (v # vs, t)"
  using assms by (subst parse_elems.simps) (simp add: value_start_skip)

lemma parse_elems_last:
  assumes "parse_value d (e @ '']'' @ r) = Some (v, '']'' @ r)"
  shows "parse_elems d (e @ '']'' @ r) = Some ([v], r)"
  using assms by (subst parse_elems.simps) simp

lemma parse_member_value:
  assumes "utf8_valid k" "value_start s" "parse_value d s = Some (v, r)"
  shows "parse_members d (json_string k @ '':'' @ s) =
     (if HasPrefix (skip_ws r) [CHR 0x7D] then Some ([(k, v)], tl (skip_ws r))
      else if HasPrefix (skip_ws r) '','' \<and> length (skip_ws (tl (skip_ws r))) < length (json_string k @ '':'' @ s) then
        map_option (map_prod (Cons (k, v)) id) (parse_members d (skip_ws (tl (skip_ws r))))
      else None)"
  using assms by (subst parse_members.simps) (simp add: json_string_def parse_chars_written value_start_skip)

lemma join_with_Cons: "xs \<noteq> [] \<Longrightarrow> join_with sep (x # xs) = x @ sep @ join_with sep xs"
  by (cases xs) simp_all

lemma join_start: "join_with '','' (json_items (x # xs)) = json_encode x @ (if xs = [] then [] else '','' @ join_with '','' (json_items xs))"
  by (cases xs) simp_all

lemma join_fields_start:
  "join_with '','' (json_fields ((k, v) # fs)) =
     json_string k @ '':'' @ json_encode v @ (if fs = [] then [] else '','' @ join_with '','' (json_fields fs))"
  by (cases fs) (auto simp: prod.split)

lemma written_value:
  "json_valid j \<Longrightarrow> d + json_depth j \<le> maxNestingDepth \<Longrightarrow> num_end r \<Longrightarrow> parse_value d (json_encode j @ r) = Some (read_as j, r)"
  "list_all json_valid xs \<Longrightarrow> list_all (\<lambda>x. d + json_depth x \<le> maxNestingDepth) xs \<Longrightarrow> xs \<noteq> [] \<Longrightarrow>
     parse_elems d (join_with '','' (json_items xs) @ '']'' @ r) = Some (map read_as xs, r)"
  "list_all (\<lambda>(k, v). utf8_valid k \<and> json_valid v) fs \<Longrightarrow> list_all (\<lambda>(k, v). d + json_depth v \<le> maxNestingDepth) fs \<Longrightarrow> fs \<noteq> [] \<Longrightarrow>
     parse_members d (join_with '','' (json_fields fs) @ CHR 0x7D # r) = Some (map (\<lambda>(k, v). (k, read_as v)) fs, r)"
proof (induction j and xs and fs arbitrary: d r and d r and d r rule: json_encode_json_items_json_fields.induct)
  case (1 s)
  then show ?case by (simp add: json_string_def parse_value.simps(2) parse_chars_written)
next
  case (2 i)
  then show ?case by (simp add: parse_value_number)
next
  case (3 b)
  then show ?case by (simp add: parse_value.simps(2))
next
  case 4
  then show ?case by (simp add: parse_value.simps(2))
next
  case (5 xs)
  show ?case
  proof (cases "xs = []")
    case True
    with 5 show ?thesis by (simp add: parse_value.simps(2))
  next
    case False
    have "list_all (\<lambda>x. Suc d + json_depth x \<le> maxNestingDepth) xs"
      using 5(3) fold_max_ge [of "json_depth _" "map json_depth xs" 0] by (fastforce simp: list_all_iff)
    with 5 False have e: "parse_elems (Suc d) (join_with '','' (json_items xs) @ '']'' @ r) = Some (map read_as xs, r)" by simp
    obtain y ys where xs: "xs = y # ys" using False by (cases xs) auto
    have v: "value_start (join_with '','' (json_items xs) @ '']'' @ r)"
      using encode_start [of y] by (simp only: xs join_start append_assoc value_start_append)
    then have "\<not> HasPrefix (join_with '','' (json_items xs) @ '']'' @ r) '']''" by (auto simp: value_start_def split: list.splits)
    with e v 5(3) show ?thesis by (simp add: parse_value.simps(2) value_start_skip)
  qed
next
  case (6 fs)
  show ?case
  proof (cases "fs = []")
    case True
    with 6 show ?thesis by (simp add: parse_value.simps(2))
  next
    case False
    have "list_all (\<lambda>(k, v). Suc d + json_depth v \<le> maxNestingDepth) fs"
      using 6(3) fold_max_ge [of "json_depth _" "map (\<lambda>(k, v). json_depth v) fs" 0] by (fastforce simp: list_all_iff image_iff)
    with 6 False have e: "parse_members (Suc d) (join_with '','' (json_fields fs) @ CHR 0x7D # r) = Some (map (\<lambda>(k, v). (k, read_as v)) fs, r)"
      by simp
    obtain k v gs where fs: "fs = (k, v) # gs" using False by (cases fs) auto
    have v: "value_start (join_with '','' (json_fields fs) @ CHR 0x7D # r)"
      unfolding fs join_fields_start by (simp add: value_start_def json_string_def json_space_def)
    then have "\<not> HasPrefix (join_with '','' (json_fields fs) @ CHR 0x7D # r) [CHR 0x7D]" by (auto simp: value_start_def split: list.splits)
    with e v 6(3) show ?thesis by (simp add: parse_value.simps(2) value_start_skip)
  qed
next
  case (8 x xs)
  show ?case
  proof (cases "xs = []")
    case True
    with 8 show ?thesis using parse_elems_last [of d "json_encode x" r "read_as x"] by simp
  next
    case False
    let ?t = "join_with '','' (json_items xs) @ '']'' @ r"
    obtain y ys where xs: "xs = y # ys" using False by (cases xs) auto
    have "value_start ?t" using encode_start [of y] by (simp only: xs join_start append_assoc value_start_append)
    with 8 False parse_elems_step [of d "json_encode x" ?t "read_as x" "map read_as xs" r]
    show ?thesis unfolding join_start by simp
  qed
next
  case (10 k v fs)
  show ?case
  proof (cases "fs = []")
    case True
    with 10 show ?thesis
      using parse_member_value [of k "json_encode v @ CHR 0x7D # r" d "read_as v" "CHR 0x7D # r"] encode_start [of v]
      by (simp add: value_start_append)
  next
    case False
    let ?t = "join_with '','' (json_fields fs) @ CHR 0x7D # r"
    obtain l w gs where fs: "fs = (l, w) # gs" using False by (cases fs) auto
    have "value_start ?t" unfolding fs join_fields_start by (simp add: value_start_def json_string_def json_space_def)
    with 10 False parse_member_value [of k "json_encode v @ '','' @ ?t" d "read_as v" "'','' @ ?t"] encode_start [of v]
    show ?thesis unfolding join_fields_start by (simp add: value_start_append value_start_skip)
  qed
qed simp_all

lemma json_document_written:
  assumes "json_valid j" "json_depth j \<le> maxNestingDepth"
  shows "json_document (json_encode j) = Some (read_as j)"
  using written_value(1) [OF assms(1), of 0 "[]"] assms(2) by (simp add: json_document_def value_start_skip encode_start)

subsection \<open>Decoders on what was written\<close>

lemma un_elements_map:
  assumes "\<And>x. x \<in> set xs \<Longrightarrow> dec (enc x) zero = Some x"
  shows "un_elements zero dec (map enc xs) = Some xs"
  using assms by (induction xs) simp_all

lemma un_elements_strings [simp]: "un_elements [] un_string (map VStr xs) = Some xs"
  by (rule un_elements_map) (simp add: un_string_def)

lemma un_scalars [simp]: "un_string (VStr s) old = Some s" "un_bool (VBool b) ob = Some b"
  "un_pointer zero dec VNull p = Some None"
  by (simp_all add: un_string_def un_bool_def un_pointer_def)

lemma un_pointer_string [simp]: "un_pointer [] un_string (VStr s) old = Some (Some s)"
  by (simp add: un_pointer_def)

lemma un_pointer_strings [simp]: "un_pointer [] (un_slice [] un_string) (VArr (map VStr xs)) old = Some (Some xs)"
  by (simp add: un_pointer_def un_slice_def)

lemma decimal_value_snoc: "decimal_value (ds @ [c]) = decimal_value ds * 10 + int (of_char c - 48)"
  by (simp add: decimal_value_def)

lemma digit_of_value: "n < 10 \<Longrightarrow> of_char (digit_of n) - 48 = n"
  by (simp add: digit_of_def)

lemma decimal_value_show: "decimal_value (show_nat n) = int n"
proof (induction n rule: show_nat.induct)
  case (1 n)
  show ?case
  proof (cases "n < 10")
    case True
    then show ?thesis by (subst show_nat.simps) (simp add: decimal_value_def digit_of_value)
  next
    case False
    have "int (n div 10) * 10 + int (n mod 10) = int n" by (simp add: zdiv_int zmod_int)
    with 1 False show ?thesis by (subst show_nat.simps) (simp add: decimal_value_snoc digit_of_value)
  qed
qed

lemma int_literal_show:
  assumes "- MaxInt64 - 1 \<le> i" "i \<le> MaxInt64"
  shows "int_literal (show_int i) = Some i"
proof -
  have "\<not> HasPrefix (show_nat n) ''-''" for n
    using show_nat_shape [of n] by (cases "show_nat n") (auto simp: decimal_def less_eq_char_def)
  with assms show_nat_shape show ?thesis
    by (auto simp: int_literal_def show_int_def Let_def decimal_value_show)
qed

subsection \<open>What is read is well-formed\<close>

text \<open>The bytes of one rune.\<close>

definition one_rune :: "string \<Rightarrow> bool" where
  "one_rune b \<longleftrightarrow> b \<noteq> [] \<and> utf8_width b = length b"

lemma utf8_valid_rune: "one_rune b \<Longrightarrow> utf8_valid (b @ t) = utf8_valid t"
proof -
  assume b: "one_rune b"
  then obtain c cs where c: "b = c # cs" by (cases b) (auto simp: one_rune_def)
  have "utf8_width (b @ t) = length b" using b utf8_width_prefix [of b "length b" t] by (simp add: one_rune_def)
  then have w: "utf8_width (c # cs @ t) = Suc (length cs)" by (simp add: c del: utf8_width.simps)
  show ?thesis unfolding c append_Cons utf8_valid.simps(2) w by (simp add: Let_def)
qed

lemma one_rune_ascii: "c < CHR 0x80 \<Longrightarrow> one_rune [c]"
  by (simp add: one_rune_def)

lemma one_rune_replacement: "one_rune replacement"
  by (simp add: one_rune_def replacement_def cont_byte_def less_eq_char_def less_char_def)

lemma one_rune_prefix: "utf8_width s \<noteq> 0 \<Longrightarrow> one_rune (take (utf8_width s) s)"
  using utf8_width_prefix [OF refl, of s "[]"] utf8_width_le [of s] by (auto simp: one_rune_def)

lemma split_64: "(n::nat) div m = n div (m * 64) * 64 + n div m mod 64"
  using div_mult_mod_eq [of "n div m" 64] by (simp add: div_mult2_eq)

lemma one_rune_of:
  assumes "n < 1114112" "\<not> (55296 \<le> n \<and> n \<le> 57343)"
  shows "one_rune (utf8_of n)"
proof -
  consider "n < 128" | "128 \<le> n" "n < 2048" | "2048 \<le> n" "n < 65536" | "65536 \<le> n" using assms(1) by linarith
  then show ?thesis
  proof cases
    case 1
    then show ?thesis by (simp add: utf8_of_def one_rune_def less_char_def)
  next
    case 2
    then have "2 \<le> n div 64" "n div 64 \<le> 31" "n mod 64 < 64" by auto
    with 2 show ?thesis by (simp add: utf8_of_def one_rune_def less_char_def less_eq_char_def cont_byte_def)
  next
    case 3
    define a b c where "a = n div 4096" and "b = n div 64 mod 64" and "c = n mod 64"
    have "n div 64 = a * 64 + b" using split_64 [of n 64] by (simp add: a_def b_def)
    then have n: "n = a * 4096 + b * 64 + c" using div_mult_mod_eq [of n 64] unfolding c_def by linarith
    have "a \<le> 15" "b < 64" "c < 64" using 3 by (auto simp: a_def b_def c_def)
    moreover have "a = 0 \<Longrightarrow> 32 \<le> b" "a = 13 \<Longrightarrow> b \<le> 31" using 3(1) assms(2) \<open>c < 64\<close> \<open>b < 64\<close> unfolding n by auto
    moreover have "char_of (224 + a) = CHR 0xE0 \<longleftrightarrow> a = 0" "char_of (224 + a) = CHR 0xED \<longleftrightarrow> a = 13"
      using \<open>a \<le> 15\<close> by (auto simp: char_of_eq_iff take_bit_eq_mod)
    moreover have "utf8_of n = [char_of (224 + a), char_of (128 + b), char_of (128 + c)]" using 3 by (simp add: utf8_of_def a_def b_def c_def)
    ultimately show ?thesis by (auto simp: one_rune_def less_char_def less_eq_char_def cont_byte_def)
  next
    case 4
    define a b c d where "a = n div 262144" and "b = n div 4096 mod 64" and "c = n div 64 mod 64" and "d = n mod 64"
    have "n div 4096 = a * 64 + b" "n div 64 = n div 4096 * 64 + c"
      using split_64 [of n 4096] split_64 [of n 64] by (simp_all add: a_def b_def c_def)
    then have n: "n = a * 262144 + b * 4096 + c * 64 + d" using div_mult_mod_eq [of n 64] unfolding d_def by linarith
    have "a \<le> 4" "b < 64" "c < 64" "d < 64" using assms(1) by (auto simp: a_def b_def c_def d_def)
    moreover have "a = 0 \<Longrightarrow> 16 \<le> b" "a = 4 \<Longrightarrow> b \<le> 15" using 4 assms(1) \<open>c < 64\<close> \<open>d < 64\<close> unfolding n by auto
    moreover have "char_of (240 + a) = CHR 0xF0 \<longleftrightarrow> a = 0" "char_of (240 + a) = CHR 0xF4 \<longleftrightarrow> a = 4"
      using \<open>a \<le> 4\<close> by (auto simp: char_of_eq_iff take_bit_eq_mod)
    moreover have "utf8_of n = [char_of (240 + a), char_of (128 + b), char_of (128 + c), char_of (128 + d)]"
      using 4 by (simp add: utf8_of_def a_def b_def c_def d_def)
    ultimately show ?thesis by (auto simp: one_rune_def less_char_def less_eq_char_def cont_byte_def)
  qed
qed

lemma hex_value_bound: "hex_value c = Some n \<Longrightarrow> n < 16"
  by (auto simp: hex_value_def Let_def split: if_splits)

lemma get_u4_bound: "get_u4 s = Some (n, r) \<Longrightarrow> n < 65536"
  by (auto simp: get_u4_def dest!: hex_value_bound split: list.splits option.splits)

lemma unescape_rune: "unescape s = Some (b, r) \<Longrightarrow> one_rune b"
proof -
  assume s: "unescape s = Some (b, r)"
  have "one_rune b" if "unescape_u t = Some (b, r)" for t
    using that get_u4_bound
    by (fastforce simp: unescape_u_def split: option.splits if_splits list.splits intro!: one_rune_of one_rune_replacement)
  with s show ?thesis
    by (auto simp: unescape_def split: list.splits if_splits intro!: one_rune_ascii simp: less_char_def)
qed

lemma parse_chars_valid: "parse_chars s = Some (t, r) \<Longrightarrow> utf8_valid t"
proof (induction s arbitrary: t r rule: parse_chars.induct)
  case (2 c cs)
  show ?case
  proof (cases "c = CHR 0x22 \<or> c < CHR 0x20")
    case True
    with 2(4) show ?thesis by (auto split: if_splits)
  next
    case False
    show ?thesis
    proof (cases "c = CHR 0x5C")
      case True
      with 2(4) False obtain b r1 t1 where u: "unescape cs = Some (b, r1)" "parse_chars r1 = Some (t1, r)" "t = b @ t1"
        by (auto split: option.splits)
      with 2(1) [OF _ _ True u(1) refl u(2)] False unescape_rune [OF u(1)] show ?thesis by (simp add: utf8_valid_rune)
    next
      case nb: False
      let ?w = "utf8_width (c # cs)"
      show ?thesis
      proof (cases "?w = 0")
        case True
        with 2(4) False nb obtain t1 where "parse_chars cs = Some (t1, r)" "t = replacement @ t1"
          by (auto simp: Let_def simp del: utf8_width.simps)
        with 2(2) [OF _ _ nb refl True] False show ?thesis by (simp add: utf8_valid_rune one_rune_replacement)
      next
        case w: False
        with 2(4) False nb obtain t1 where "parse_chars (drop (?w - 1) cs) = Some (t1, r)" "t = take ?w (c # cs) @ t1"
          by (auto simp: Let_def simp del: utf8_width.simps)
        with 2(3) [OF _ _ nb refl w] False one_rune_prefix [OF w] show ?thesis by (simp add: utf8_valid_rune del: utf8_width.simps)
      qed
    qed
  qed
qed simp

fun value_utf8 :: "jvalue \<Rightarrow> bool" where
  "value_utf8 (VStr s) = utf8_valid s"
| "value_utf8 (VArr vs) = list_all value_utf8 vs"
| "value_utf8 (VObj ms) = list_all (\<lambda>(k, v). utf8_valid k \<and> value_utf8 v) ms"
| "value_utf8 _ = True"

lemma parsed_valid:
  "parse_value d s = Some (v, r) \<Longrightarrow> value_utf8 v"
  "parse_elems d s = Some (vs, r) \<Longrightarrow> list_all value_utf8 vs"
  "parse_members d s = Some (ms, r) \<Longrightarrow> list_all (\<lambda>(k, v). utf8_valid k \<and> value_utf8 v) ms"
proof (induction d s and d s and d s arbitrary: v r and vs r and ms r rule: parse_value_parse_elems_parse_members.induct)
  case (2 d c r0)
  from 2(3) consider (str) t where "parse_chars r0 = Some (t, r)" "v = VStr t" | (flat) "value_utf8 v"
    | (arr) vs where "parse_elems (Suc d) (skip_ws r0) = Some (vs, r)" "v = VArr vs" "c \<noteq> CHR 0x22" "c = CHR ''[''"
        "\<not> maxNestingDepth \<le> d" "\<not> HasPrefix (skip_ws r0) '']''"
    | (obj) ms where "parse_members (Suc d) (skip_ws r0) = Some (ms, r)" "v = VObj ms" "c \<noteq> CHR 0x22" "c \<noteq> CHR ''[''" "c = CHR 0x7B"
        "\<not> maxNestingDepth \<le> d" "\<not> HasPrefix (skip_ws r0) [CHR 0x7D]"
    unfolding parse_value.simps(2) by (auto split: if_splits)
  then show ?case
  proof cases
    case str
    then show ?thesis using parse_chars_valid by simp
  next
    case arr
    then show ?thesis using 2(1) by simp
  next
    case obj
    then show ?thesis using 2(2) by simp
  qed
next
  case (3 d s)
  show ?case using 3(3) 3(1,2) unfolding parse_elems.simps [of d s] by (auto split: option.splits if_splits prod.splits)
next
  case (4 d s)
  show ?case using 4(3) 4(1,2) unfolding parse_members.simps [of d s]
    by (auto split: option.splits if_splits) (rule parse_chars_valid, assumption)+
qed simp

lemma json_document_valid: "json_document s = Some v \<Longrightarrow> value_utf8 v"
  by (auto simp: json_document_def parsed_valid(1) split: option.splits if_splits)

lemma un_string_valid: "un_string v old = Some s \<Longrightarrow> value_utf8 v \<Longrightarrow> utf8_valid old \<Longrightarrow> utf8_valid s"
  by (auto simp: un_string_def split: jvalue.splits)

lemma un_elements_valid:
  assumes "un_elements zero dec vs = Some xs" "list_all value_utf8 vs"
    and "\<And>v x. value_utf8 v \<Longrightarrow> dec v zero = Some x \<Longrightarrow> ok x"
  shows "list_all ok xs"
  using assms by (induction vs arbitrary: xs) (auto split: option.splits)

end
