(* ===== verification/PolicyStore.thy ===== *)
theory PolicyStore
  imports DeliveryPolicy GoJson "HOL-Library.AList"
begin

text \<open>
  internal/deliverypolicystore: selection.go rebuilds the effective policy from the append-only
  rows of models/DeliveryPolicy.go, management.go builds and validates new rows. The strict JSON
  decoding of a stored patch is that of \<open>GoJson\<close>; the URL parser and the text of a UUID are fields of
  the environment. A Go map keyed by a revision or by a scope is an association list; \<open>iter\<close> is the
  order in which the code ranges over the revisions.
\<close>

subsection \<open>Rows\<close>

record policy_revision =
  pr_ID :: uuid
  pr_SchemaVersion :: int
  pr_Level :: string
  pr_OrganizationID :: string
  pr_ProjectID :: "uuid option"
  pr_RepositoryReference :: string
  pr_ChangeSetID :: string
  pr_PatchJSON :: string
  pr_Reason :: string
  pr_ExpiresAt :: "gotime option"
  pr_ContentSHA256 :: string
  pr_ProposedBy :: string
  pr_CreatedAt :: gotime

record policy_decision =
  pd_ID :: uuid
  pd_PolicyRevisionID :: uuid
  pd_PolicyDigest :: string
  pd_Action :: string
  pd_Reason :: string
  pd_ActorCognitoSub :: string
  pd_OccurredAt :: gotime

record policy_env =
  pe_parse :: "string \<Rightarrow> parsed_url option"
  pe_string :: "uuid \<Rightarrow> string"

datatype store_error =
    EffectiveContextInvalid
  | RevisionIdentityInvalid
  | PatchTextInvalid
  | RevisionDigestMismatch
  | DecisionInvalid
  | ApprovalNotIndependent
  | RevocationReasonRequired
  | EffectiveUnresolved policy_error
  | ProposalIdentityInvalid
  | PatchSizeInvalid
  | PatchNotObject
  | ProjectScopeNarrower
  | RepositoryScopeInvalid
  | OverrideScopeInvalid
  | OverrideIncomplete
  | LevelNotManaged
  | ProposalDigestFailed
  | RevisionInvalid policy_error
  | RevokedReactivated
  | PendingRevoked
  | DecisionActionInvalid

subsection \<open>Stored patches\<close>

definition empty_patch :: policy_patch where
  "empty_patch =
     \<lparr>pa_Mode = None, pa_GateApprovalMode = None, pa_RequiredTestKinds = None, pa_AllowedTargetBranches = None,
      pa_MergeMethod = None, pa_DeploymentWorkflow = None, pa_DeploymentEnvironment = None,
      pa_RequiredSecretReferences = None, pa_RequiredVariableReferences = None, pa_RequiredHealthChecks = None,
      pa_RequiredPostMergeChecks = None, pa_RecoveryDefault = None\<rparr>"

definition un_text :: "string option decoder" where
  "un_text = un_pointer [] un_string"

definition un_texts :: "string list option decoder" where
  "un_texts = un_pointer [] (un_slice [] un_string)"

definition patch_fields_json :: "policy_patch field_decoders" where
  "patch_fields_json =
     [(''mode'', in_field pa_Mode (\<lambda>x. pa_Mode_update (\<lambda>_. x)) un_text),
      (''gate_approval_mode'', in_field pa_GateApprovalMode (\<lambda>x. pa_GateApprovalMode_update (\<lambda>_. x)) un_text),
      (''required_test_kinds'', in_field pa_RequiredTestKinds (\<lambda>x. pa_RequiredTestKinds_update (\<lambda>_. x)) un_texts),
      (''allowed_target_branches'', in_field pa_AllowedTargetBranches (\<lambda>x. pa_AllowedTargetBranches_update (\<lambda>_. x)) un_texts),
      (''merge_method'', in_field pa_MergeMethod (\<lambda>x. pa_MergeMethod_update (\<lambda>_. x)) un_text),
      (''deployment_workflow'', in_field pa_DeploymentWorkflow (\<lambda>x. pa_DeploymentWorkflow_update (\<lambda>_. x)) un_text),
      (''deployment_environment'', in_field pa_DeploymentEnvironment (\<lambda>x. pa_DeploymentEnvironment_update (\<lambda>_. x)) un_text),
      (''required_secret_references'', in_field pa_RequiredSecretReferences (\<lambda>x. pa_RequiredSecretReferences_update (\<lambda>_. x)) un_texts),
      (''required_variable_references'',
        in_field pa_RequiredVariableReferences (\<lambda>x. pa_RequiredVariableReferences_update (\<lambda>_. x)) un_texts),
      (''required_health_checks'', in_field pa_RequiredHealthChecks (\<lambda>x. pa_RequiredHealthChecks_update (\<lambda>_. x)) un_texts),
      (''required_post_merge_checks'', in_field pa_RequiredPostMergeChecks (\<lambda>x. pa_RequiredPostMergeChecks_update (\<lambda>_. x)) un_texts),
      (''recovery_default'', in_field pa_RecoveryDefault (\<lambda>x. pa_RecoveryDefault_update (\<lambda>_. x)) un_text)]"

definition decode_patch :: "string \<Rightarrow> policy_patch option" where
  "decode_patch text = json_unmarshal (un_struct True patch_fields_json) empty_patch text"

definition maximumStoredPolicyPatchBytes :: nat where "maximumStoredPolicyPatchBytes = 16384"

definition decodePolicyPatch :: "string \<Rightarrow> store_error + policy_patch" where
  "decodePolicyPatch raw =
     (if length raw = 0 \<or> length raw > maximumStoredPolicyPatchBytes then Inl PatchSizeInvalid
      else case decode_patch raw of
          None \<Rightarrow> Inl PatchTextInvalid
        | Some patch \<Rightarrow> if TrimSpace raw = ''null'' then Inl PatchNotObject else Inr patch)"

definition projectIDString :: "policy_env \<Rightarrow> uuid option \<Rightarrow> string" where
  "projectIDString env p = (case p of None \<Rightarrow> [] | Some i \<Rightarrow> pe_string env i)"

subsection \<open>Selection\<close>

record decided_revision =
  dr_revision :: policy_revision
  dr_layer :: policy_layer
  dr_decision :: "policy_decision option"

definition layerFromRevision :: "policy_env \<Rightarrow> policy_revision \<Rightarrow> store_error + policy_layer" where
  "layerFromRevision env r =
     (if pr_ID r = uuid_Nil then Inl RevisionIdentityInvalid
      else case decode_patch (pr_PatchJSON r) of
          None \<Rightarrow> Inl PatchTextInvalid
        | Some patch \<Rightarrow>
            let layer =
              \<lparr>la_SchemaVersion = pr_SchemaVersion r, la_RevisionID = pe_string env (pr_ID r), la_Level = TrimSpace (pr_Level r),
               la_OrganizationID = TrimSpace (pr_OrganizationID r), la_ProjectID = projectIDString env (pr_ProjectID r),
               la_Repository = TrimSpace (pr_RepositoryReference r), la_ChangeSetID = TrimSpace (pr_ChangeSetID r),
               la_Patch = patch, la_Reason = TrimSpace (pr_Reason r), la_ExpiresAt = pr_ExpiresAt r,
               la_Digest = ToLower (TrimSpace (pr_ContentSHA256 r)), la_Approved = False, la_ApprovedBy = [], la_ApprovedAt = 0\<rparr>
            in if LayerDigest layer \<noteq> Some (la_Digest layer) then Inl RevisionDigestMismatch else Inr layer)"

definition validateDecision :: "policy_revision \<Rightarrow> policy_decision \<Rightarrow> gotime \<Rightarrow> store_error + unit" where
  "validateDecision r d now =
     (let actor = TrimSpace (pd_ActorCognitoSub d)
      in if pd_ID d = uuid_Nil \<or> pd_PolicyRevisionID d \<noteq> pr_ID r \<or> pd_PolicyDigest d \<noteq> pr_ContentSHA256 r
           \<or> pd_Action d \<noteq> ''approved'' \<and> pd_Action d \<noteq> ''revoked'' \<or> actor = [] \<or> isZero (pd_OccurredAt d)
           \<or> now + minute < pd_OccurredAt d
         then Inl DecisionInvalid
         else if pd_Action d = ''approved'' \<and> actor = TrimSpace (pr_ProposedBy r) then Inl ApprovalNotIndependent
         else if pd_Action d = ''revoked'' \<and> TrimSpace (pd_Reason d) = [] then Inl RevocationReasonRequired
         else Inr ())"

text \<open>The canonical form of a reference, the empty one staying empty; None when there is no such form.\<close>

definition revision_repository :: "policy_env \<Rightarrow> policy_revision \<Rightarrow> string option" where
  "revision_repository env r =
     (let repository = TrimSpace (pr_RepositoryReference r)
      in if repository = [] then Some [] else CanonicalGitHubReference (pe_parse env) repository)"

definition revisionApplies :: "policy_env \<Rightarrow> policy_context \<Rightarrow> policy_revision \<Rightarrow> bool" where
  "revisionApplies env c r =
     (case revision_repository env r of
        None \<Rightarrow> False
      | Some repository \<Rightarrow>
          let level = TrimSpace (pr_Level r); projectID = projectIDString env (pr_ProjectID r)
          in if level = LevelPlatform then True
             else if level = LevelOrganization then pr_OrganizationID r = cx_OrganizationID c
             else if level = LevelProject then pr_OrganizationID r = cx_OrganizationID c \<and> projectID = cx_ProjectID c
             else if level = LevelRepository
             then pr_OrganizationID r = cx_OrganizationID c \<and> projectID = cx_ProjectID c \<and> repository = cx_Repository c
             else if level = LevelOverride
             then pr_OrganizationID r = cx_OrganizationID c \<and> projectID = cx_ProjectID c \<and> pr_ChangeSetID r = cx_ChangeSetID c
               \<and> (repository = [] \<or> repository = cx_Repository c)
             else False)"

definition bar :: "string list \<Rightarrow> string" where
  "bar parts = join_with ''|'' parts"

definition scopeKey :: "policy_env \<Rightarrow> policy_revision \<Rightarrow> string" where
  "scopeKey env r =
     (let projectID = projectIDString env (pr_ProjectID r);
          repository = (case revision_repository env r of None \<Rightarrow> [] | Some s \<Rightarrow> s)
      in if pr_Level r = LevelPlatform then LevelPlatform
         else if pr_Level r = LevelOrganization then bar [LevelOrganization, pr_OrganizationID r]
         else if pr_Level r = LevelProject then bar [LevelProject, pr_OrganizationID r, projectID]
         else if pr_Level r = LevelRepository then bar [LevelRepository, pr_OrganizationID r, projectID, repository]
         else if pr_Level r = LevelOverride then bar [LevelOverride, pr_OrganizationID r, projectID, pr_ChangeSetID r, repository]
         else ''unsupported'')"

definition laterDecision :: "policy_env \<Rightarrow> policy_decision \<Rightarrow> policy_decision \<Rightarrow> bool" where
  "laterDecision env candidate current =
     (if pd_OccurredAt candidate \<noteq> pd_OccurredAt current then pd_OccurredAt current < pd_OccurredAt candidate
      else pe_string env (pd_ID current) < pe_string env (pd_ID candidate))"

text \<open>A revision without a decision yet has the zero decision in the code.\<close>

definition supersedes :: "policy_env \<Rightarrow> policy_decision \<Rightarrow> decided_revision \<Rightarrow> bool" where
  "supersedes env d c = (case dr_decision c of None \<Rightarrow> True | Some e \<Rightarrow> laterDecision env d e)"

fun relevant_revisions ::
  "policy_env \<Rightarrow> policy_context \<Rightarrow> policy_revision list \<Rightarrow> (uuid \<times> decided_revision) list
     \<Rightarrow> store_error + (uuid \<times> decided_revision) list" where
  "relevant_revisions env c [] relevant = Inr relevant"
| "relevant_revisions env c (r # rs) relevant =
     (if \<not> revisionApplies env c r then relevant_revisions env c rs relevant
      else bindE (layerFromRevision env r) (\<lambda>layer.
        relevant_revisions env c rs (AList.update (pr_ID r) \<lparr>dr_revision = r, dr_layer = layer, dr_decision = None\<rparr> relevant)))"

fun apply_decisions ::
  "policy_env \<Rightarrow> gotime \<Rightarrow> policy_decision list \<Rightarrow> (uuid \<times> decided_revision) list
     \<Rightarrow> store_error + (uuid \<times> decided_revision) list" where
  "apply_decisions env now [] relevant = Inr relevant"
| "apply_decisions env now (d # ds) relevant =
     (case map_of relevant (pd_PolicyRevisionID d) of
        None \<Rightarrow> apply_decisions env now ds relevant
      | Some candidate \<Rightarrow>
          bindE (validateDecision (dr_revision candidate) d now) (\<lambda>_.
            apply_decisions env now ds
              (if supersedes env d candidate
               then AList.update (pd_PolicyRevisionID d) (candidate\<lparr>dr_decision := Some d\<rparr>) relevant else relevant)))"

fun by_scope :: "policy_env \<Rightarrow> decided_revision list \<Rightarrow> (string \<times> decided_revision) list \<Rightarrow> (string \<times> decided_revision) list" where
  "by_scope env [] scopes = scopes"
| "by_scope env (c # cs) scopes =
     (case dr_decision c of
        None \<Rightarrow> by_scope env cs scopes
      | Some d \<Rightarrow>
          let key = scopeKey env (dr_revision c)
          in by_scope env cs
               (case map_of scopes key of
                  None \<Rightarrow> AList.update key c scopes
                | Some current \<Rightarrow> if supersedes env d current then AList.update key c scopes else scopes))"

definition in_force :: "decided_revision \<Rightarrow> bool" where
  "in_force c = (case dr_decision c of None \<Rightarrow> False | Some d \<Rightarrow> pd_Action d = ''approved'')"

definition standing_keys :: "policy_context \<Rightarrow> string list" where
  "standing_keys c =
     [LevelPlatform, bar [LevelOrganization, cx_OrganizationID c], bar [LevelProject, cx_OrganizationID c, cx_ProjectID c],
      bar [LevelRepository, cx_OrganizationID c, cx_ProjectID c, cx_Repository c]]"

definition override_key :: "policy_context \<Rightarrow> string \<Rightarrow> string" where
  "override_key c repository = bar [LevelOverride, cx_OrganizationID c, cx_ProjectID c, cx_ChangeSetID c, repository]"

definition at_scope :: "(string \<times> decided_revision) list \<Rightarrow> string \<Rightarrow> decided_revision list" where
  "at_scope scopes key = (case map_of scopes key of None \<Rightarrow> [] | Some c \<Rightarrow> if in_force c then [c] else [])"

definition select_revisions :: "policy_context \<Rightarrow> (string \<times> decided_revision) list \<Rightarrow> decided_revision list" where
  "select_revisions c scopes =
     concat (map (at_scope scopes) (standing_keys c))
     @ (case map_of scopes (override_key c (cx_Repository c)) of
          None \<Rightarrow> at_scope scopes (override_key c [])
        | Some _ \<Rightarrow> at_scope scopes (override_key c (cx_Repository c)))"

definition approved_layer :: "decided_revision \<Rightarrow> policy_layer" where
  "approved_layer c =
     (case dr_decision c of
        None \<Rightarrow> dr_layer c
      | Some d \<Rightarrow>
          (dr_layer c)\<lparr>la_Approved := True, la_ApprovedBy := TrimSpace (pd_ActorCognitoSub d), la_ApprovedAt := pd_OccurredAt d\<rparr>)"

definition ResolveEffective ::
  "policy_env \<Rightarrow> (decided_revision list \<Rightarrow> decided_revision list) \<Rightarrow> policy_context \<Rightarrow> policy_revision list \<Rightarrow> policy_decision list
     \<Rightarrow> gotime \<Rightarrow> store_error + resolved_policy" where
  "ResolveEffective env iter context revisions decisions now =
     (case CanonicalGitHubReference (pe_parse env) (cx_Repository context) of
        None \<Rightarrow> Inl EffectiveContextInvalid
      | Some repository \<Rightarrow>
          if isZero now then Inl EffectiveContextInvalid
          else let c = context\<lparr>cx_Repository := repository\<rparr>
            in bindE (relevant_revisions env c revisions []) (\<lambda>relevant.
               bindE (apply_decisions env now decisions relevant) (\<lambda>decided.
                 let layers = map approved_layer
                   (sort_key (\<lambda>d. la_Level (dr_layer d)) (select_revisions c (by_scope env (iter (map snd decided)) [])))
                 in case Resolve (pe_parse env) c layers now of
                      Inl e \<Rightarrow> Inl (EffectiveUnresolved e)
                    | Inr p \<Rightarrow> Inr p)))"

subsection \<open>Management\<close>

record revision_input =
  ri_Level :: string
  ri_Repository :: string
  ri_ChangeSetID :: string
  ri_Patch :: string
  ri_Reason :: string
  ri_ExpiresAt :: "gotime option"

definition layerFromRevisionWithoutDigest :: "policy_env \<Rightarrow> policy_revision \<Rightarrow> store_error + policy_layer" where
  "layerFromRevisionWithoutDigest env r =
     (case decode_patch (pr_PatchJSON r) of
        None \<Rightarrow> Inl PatchTextInvalid
      | Some patch \<Rightarrow>
          Inr \<lparr>la_SchemaVersion = pr_SchemaVersion r, la_RevisionID = pe_string env (pr_ID r), la_Level = pr_Level r,
               la_OrganizationID = pr_OrganizationID r, la_ProjectID = projectIDString env (pr_ProjectID r),
               la_Repository = pr_RepositoryReference r, la_ChangeSetID = pr_ChangeSetID r, la_Patch = patch,
               la_Reason = pr_Reason r, la_ExpiresAt = pr_ExpiresAt r, la_Digest = [], la_Approved = False,
               la_ApprovedBy = [], la_ApprovedAt = 0\<rparr>)"

definition ValidateRevision :: "policy_env \<Rightarrow> policy_revision \<Rightarrow> gotime \<Rightarrow> store_error + unit" where
  "ValidateRevision env r now =
     bindE (layerFromRevision env r) (\<lambda>layer.
       let context =
         \<lparr>cx_OrganizationID = pr_OrganizationID r, cx_ProjectID = projectIDString env (pr_ProjectID r),
          cx_Repository = (if pr_RepositoryReference r = [] then ''github://policy-validation/repository'' else pr_RepositoryReference r),
          cx_ChangeSetID = (if pr_ChangeSetID r = [] then ''policy-validation'' else pr_ChangeSetID r)\<rparr>
       in case Resolve (pe_parse env) context
            [layer\<lparr>la_Approved := True, la_ApprovedBy := ''policy-validator'', la_ApprovedAt := now\<rparr>] now of
            Inl e \<Rightarrow> Inl (RevisionInvalid e)
          | Inr _ \<Rightarrow> Inr ())"

definition ValidateDecision :: "policy_revision \<Rightarrow> policy_decision \<Rightarrow> gotime \<Rightarrow> store_error + unit" where
  "ValidateDecision = validateDecision"

definition ValidateDecisionTransition :: "policy_decision option \<Rightarrow> string \<Rightarrow> store_error + unit" where
  "ValidateDecisionTransition latest action =
     (if action = ''approved'' then
        (case latest of None \<Rightarrow> Inr () | Some d \<Rightarrow> if pd_Action d = ''revoked'' then Inl RevokedReactivated else Inr ())
      else if action = ''revoked'' then (case latest of None \<Rightarrow> Inl PendingRevoked | Some _ \<Rightarrow> Inr ())
      else Inl DecisionActionInvalid)"

text \<open>The canonical scope of a proposal: its repository, after the checks of its level.\<close>

definition proposal_scope :: "policy_env \<Rightarrow> revision_input \<Rightarrow> gotime \<Rightarrow> store_error + string" where
  "proposal_scope env input now =
     (let repository = TrimSpace (ri_Repository input); changeSetID = TrimSpace (ri_ChangeSetID input);
          reason = TrimSpace (ri_Reason input)
      in if ri_Level input = LevelProject then
           (if repository \<noteq> [] \<or> changeSetID \<noteq> [] \<or> ri_ExpiresAt input \<noteq> None then Inl ProjectScopeNarrower else Inr repository)
         else if ri_Level input = LevelRepository then
           (case CanonicalGitHubReference (pe_parse env) repository of
              None \<Rightarrow> Inl RepositoryScopeInvalid
            | Some canonical \<Rightarrow>
                if changeSetID \<noteq> [] \<or> ri_ExpiresAt input \<noteq> None then Inl RepositoryScopeInvalid else Inr canonical)
         else if ri_Level input = LevelOverride then
           bindE (if repository = [] then Inr [] else fromOption OverrideScopeInvalid (CanonicalGitHubReference (pe_parse env) repository))
             (\<lambda>canonical.
               case ri_ExpiresAt input of
                 None \<Rightarrow> Inl OverrideIncomplete
               | Some expires \<Rightarrow>
                   if changeSetID = [] \<or> reason = [] \<or> \<not> now < expires \<or> now + 24 * hour < expires
                   then Inl OverrideIncomplete else Inr canonical)
         else Inl LevelNotManaged)"

definition BuildProjectRevision ::
  "policy_env \<Rightarrow> string \<Rightarrow> uuid \<Rightarrow> string \<Rightarrow> revision_input \<Rightarrow> uuid \<Rightarrow> gotime \<Rightarrow> store_error + policy_revision" where
  "BuildProjectRevision env organizationID projectID actor input revisionID now =
     (if TrimSpace organizationID = [] \<or> projectID = uuid_Nil \<or> revisionID = uuid_Nil \<or> TrimSpace actor = []
        \<or> length (TrimSpace actor) > 128 \<or> isZero now
      then Inl ProposalIdentityInvalid
      else bindE (decodePolicyPatch (ri_Patch input)) (\<lambda>patch.
        bindE (proposal_scope env input now) (\<lambda>repository.
          let revision =
            \<lparr>pr_ID = revisionID, pr_SchemaVersion = PolicySchemaVersion, pr_Level = ri_Level input,
             pr_OrganizationID = TrimSpace organizationID, pr_ProjectID = Some projectID, pr_RepositoryReference = repository,
             pr_ChangeSetID = TrimSpace (ri_ChangeSetID input), pr_PatchJSON = json_encode (patch_json patch),
             pr_Reason = TrimSpace (ri_Reason input), pr_ExpiresAt = ri_ExpiresAt input, pr_ContentSHA256 = [],
             pr_ProposedBy = TrimSpace actor, pr_CreatedAt = now\<rparr>
          in bindE (layerFromRevisionWithoutDigest env revision) (\<lambda>layer.
             bindE (fromOption ProposalDigestFailed (LayerDigest layer)) (\<lambda>digest.
               let sealed = revision\<lparr>pr_ContentSHA256 := digest\<rparr>
               in bindE (ValidateRevision env sealed now) (\<lambda>_. Inr sealed))))))"

end
