(* ===== verification/PolicyStoreProps.thy ===== *)
theory PolicyStoreProps
  imports PolicyStore DeliveryPolicyProps
begin

text \<open>
  Properties of the policy store: which rows a resolved policy rests on, and that a proposal is
  stored as it was sent. Decisions are ordered by their time, then by the text of their identity.
\<close>

subsection \<open>The order of decisions\<close>

definition decision_key :: "policy_env \<Rightarrow> policy_decision \<Rightarrow> gotime \<times> string" where
  "decision_key env d = (pd_OccurredAt d, pe_string env (pd_ID d))"

lemma laterDecision_iff: "laterDecision env a b \<longleftrightarrow> decision_key env b < decision_key env a"
  by (auto simp: laterDecision_def decision_key_def less_prod_def')

subsection \<open>The loops of the selection\<close>

lemma update_fresh: "k \<notin> fst ` set m \<Longrightarrow> AList.update k v m = m @ [(k, v)]"
  by (induction m) auto

lemma update_present:
  "distinct (map fst m) \<Longrightarrow> k \<in> fst ` set m \<Longrightarrow> AList.update k v m = map (\<lambda>(k', w). (k', if k' = k then v else w)) m"
proof (induction m)
  case (Cons p m)
  have "map (\<lambda>(k', w). (k', if k' = k then v else w)) m = m" if "k \<notin> fst ` set m"
    using that by (intro map_idI) force
  with Cons show ?case by (cases p) auto
qed simp

definition candidate :: "policy_env \<Rightarrow> policy_revision \<Rightarrow> decided_revision" where
  "candidate env r = \<lparr>dr_revision = r, dr_layer = projr (layerFromRevision env r), dr_decision = None\<rparr>"

lemma relevant_revisions_Inr:
  assumes "relevant_revisions env c revisions acc = Inr relevant"
    and "distinct (map pr_ID revisions)" "pr_ID ` set revisions \<inter> fst ` set acc = {}"
  shows "relevant = acc @ map (\<lambda>r. (pr_ID r, candidate env r)) (filter (revisionApplies env c) revisions)
     \<and> (\<forall>r \<in> set revisions. revisionApplies env c r \<longrightarrow> isOk (layerFromRevision env r))"
  using assms
proof (induction revisions arbitrary: acc)
  case (Cons r rs)
  show ?case
  proof (cases "revisionApplies env c r")
    case True
    then obtain layer where l: "layerFromRevision env r = Inr layer"
      and rel: "relevant_revisions env c rs (acc @ [(pr_ID r, candidate env r)]) = Inr relevant"
      using Cons.prems by (auto simp: bindE_Inr_iff candidate_def update_fresh)
    from Cons.IH [OF rel] True l Cons.prems(2,3) show ?thesis by auto
  next
    case False
    with Cons show ?thesis by auto
  qed
qed simp

text \<open>The decision that remains after a list of decisions on one revision.\<close>

fun best :: "policy_env \<Rightarrow> policy_decision list \<Rightarrow> policy_decision option \<Rightarrow> policy_decision option" where
  "best env [] o1 = o1"
| "best env (d # ds) o1 =
     best env ds (case o1 of None \<Rightarrow> Some d | Some e \<Rightarrow> if laterDecision env d e then Some d else o1)"

lemma best_Some_mem: "best env ds o1 = Some d \<Longrightarrow> d \<in> set ds \<or> o1 = Some d"
  by (induction env ds o1 rule: best.induct) (auto split: option.splits if_splits)

lemma best_ge:
  "(case o1 of None \<Rightarrow> True | Some e \<Rightarrow> (\<exists>d. best env ds o1 = Some d \<and> decision_key env e \<le> decision_key env d))
   \<and> (\<forall>e \<in> set ds. \<exists>d. best env ds o1 = Some d \<and> decision_key env e \<le> decision_key env d)"
proof (induction env ds o1 rule: best.induct)
  case (2 env d ds o1)
  then show ?case
    by (auto simp: laterDecision_iff split: option.splits if_splits intro: order_trans dest: leI)
qed (simp split: option.splits)

definition decided_by :: "policy_env \<Rightarrow> policy_decision list \<Rightarrow> uuid \<times> decided_revision \<Rightarrow> uuid \<times> decided_revision" where
  "decided_by env ds = (\<lambda>(k, c). (k, c\<lparr>dr_decision := best env (filter (\<lambda>d. pd_PolicyRevisionID d = k) ds) (dr_decision c)\<rparr>))"

lemma apply_decisions_Inr:
  assumes "apply_decisions env now ds relevant = Inr outcome" "distinct (map fst relevant)"
  shows "outcome = map (decided_by env ds) relevant
     \<and> (\<forall>d \<in> set ds. \<forall>c. map_of relevant (pd_PolicyRevisionID d) = Some c \<longrightarrow> validateDecision (dr_revision c) d now = Inr ())"
  using assms
proof (induction env now ds relevant arbitrary: outcome rule: apply_decisions.induct)
  case (1 env now relevant)
  then show ?case by (auto simp: decided_by_def intro!: map_idI [symmetric])
next
  case (2 env now d ds relevant)
  let ?k = "pd_PolicyRevisionID d"
  show ?case
  proof (cases "map_of relevant ?k")
    case None
    then have k: "?k \<notin> fst ` set relevant" by (simp add: map_of_eq_None_iff)
    then have "map (decided_by env (d # ds)) relevant = map (decided_by env ds) relevant"
      by (intro map_cong refl) (force simp: decided_by_def)
    with 2(1) [OF None] 2(3,4) None k show ?thesis by (auto simp del: map_of_eq_Some_iff)
  next
    case (Some c)
    let ?r = "if supersedes env d c then AList.update ?k (c\<lparr>dr_decision := Some d\<rparr>) relevant else relevant"
    from Some 2(3) have v: "validateDecision (dr_revision c) d now = Inr ()" and rest: "apply_decisions env now ds ?r = Inr outcome"
      by (auto simp: bindE_Inr_iff)
    have k: "?k \<in> fst ` set relevant" using Some by (force dest: map_of_SomeD)
    have r: "?r = map (\<lambda>(k', w). (k', if k' = ?k \<and> supersedes env d c then c\<lparr>dr_decision := Some d\<rparr> else w)) relevant"
      using update_present [OF 2(4) k] by (auto intro!: map_idI [symmetric])
    have d: "distinct (map fst ?r)" using 2(4) by (simp add: r comp_def case_prod_beta)
    have IH: "outcome = map (decided_by env ds) ?r"
      "\<forall>e \<in> set ds. \<forall>c. map_of ?r (pd_PolicyRevisionID e) = Some c \<longrightarrow> validateDecision (dr_revision c) e now = Inr ()"
      using 2(2) [OF Some rest d] by auto
    have step: "decided_by env ds (k', if k' = ?k \<and> supersedes env d c then c\<lparr>dr_decision := Some d\<rparr> else w) = decided_by env (d # ds) (k', w)"
      if "(k', w) \<in> set relevant" for k' w
    proof (cases "k' = ?k")
      case True
      with map_of_is_SomeI [OF 2(4) that] Some have "w = c" by simp
      with True show ?thesis by (auto simp: decided_by_def supersedes_def split: option.splits)
    qed (simp add: decided_by_def)
    have "map (decided_by env ds) ?r = map (decided_by env (d # ds)) relevant"
      unfolding r map_map
    proof (rule map_cong [OF refl], rule prod.exhaust)
      fix x k' w assume "x \<in> set relevant" "x = (k', w)"
      then show "(decided_by env ds \<circ> (\<lambda>(k', w). (k', if k' = ?k \<and> supersedes env d c then c\<lparr>dr_decision := Some d\<rparr> else w))) x
          = decided_by env (d # ds) x" using step [of k' w] by (simp split del: if_split)
    qed
    moreover have "validateDecision (dr_revision c') e now = Inr ()"
      if e: "e \<in> set ds" and c': "map_of relevant (pd_PolicyRevisionID e) = Some c'" for e c'
    proof -
      have "map_of ?r (pd_PolicyRevisionID e) = Some c' \<or> map_of ?r (pd_PolicyRevisionID e) = Some (c\<lparr>dr_decision := Some d\<rparr>) \<and> c' = c"
        using c' Some by (auto simp: update_conv')
      with IH(2) e show ?thesis by auto
    qed
    ultimately show ?thesis using IH(1) v Some by auto
  qed
qed

text \<open>The candidate that holds a scope has the latest decision of all candidates of that scope.\<close>

definition holds_scope :: "policy_env \<Rightarrow> decided_revision list \<Rightarrow> string \<Rightarrow> decided_revision \<Rightarrow> bool" where
  "holds_scope env cs key c \<longleftrightarrow>
     c \<in> set cs \<and> scopeKey env (dr_revision c) = key
     \<and> (\<exists>d. dr_decision c = Some d
          \<and> (\<forall>c' \<in> set cs. \<forall>d'. scopeKey env (dr_revision c') = key \<longrightarrow> dr_decision c' = Some d' \<longrightarrow> decision_key env d' \<le> decision_key env d))"

definition scopes_ok :: "policy_env \<Rightarrow> decided_revision list \<Rightarrow> (string \<times> decided_revision) list \<Rightarrow> bool" where
  "scopes_ok env cs scopes \<longleftrightarrow>
     (\<forall>key. case map_of scopes key of
        None \<Rightarrow> (\<forall>c \<in> set cs. scopeKey env (dr_revision c) = key \<longrightarrow> dr_decision c = None)
      | Some c \<Rightarrow> holds_scope env cs key c)"

lemma scopes_ok_step:
  assumes ok: "scopes_ok env cs scopes" and d: "dr_decision c = Some d"
  shows "scopes_ok env (cs @ [c])
     (case map_of scopes (scopeKey env (dr_revision c)) of
        None \<Rightarrow> AList.update (scopeKey env (dr_revision c)) c scopes
      | Some current \<Rightarrow> if supersedes env d current then AList.update (scopeKey env (dr_revision c)) c scopes else scopes)"
    (is "scopes_ok env (cs @ [c]) ?new")
  unfolding scopes_ok_def
proof
  fix key
  let ?k = "scopeKey env (dr_revision c)"
  have old: "case map_of scopes key of None \<Rightarrow> (\<forall>c \<in> set cs. scopeKey env (dr_revision c) = key \<longrightarrow> dr_decision c = None)
      | Some c \<Rightarrow> holds_scope env cs key c" using ok by (simp add: scopes_ok_def)
  show "case map_of ?new key of None \<Rightarrow> (\<forall>c \<in> set (cs @ [c]). scopeKey env (dr_revision c) = key \<longrightarrow> dr_decision c = None)
      | Some c' \<Rightarrow> holds_scope env (cs @ [c]) key c'"
  proof (cases "key = ?k")
    case False
    then have "map_of ?new key = map_of scopes key" by (auto simp: update_conv' split: option.splits)
    with old False show ?thesis by (auto simp: holds_scope_def split: option.splits)
  next
    case True
    show ?thesis
    proof (cases "map_of scopes ?k")
      case None
      with old True d show ?thesis by (auto simp: update_conv' holds_scope_def)
    next
      case (Some current)
      with old True have h: "holds_scope env cs ?k current" by simp
      then obtain e where e: "dr_decision current = Some e" by (auto simp: holds_scope_def)
      show ?thesis
      proof (cases "supersedes env d current")
        case sup: True
        then have "decision_key env e < decision_key env d" using e by (simp add: supersedes_def laterDecision_iff)
        with h e d True Some sup show ?thesis by (auto simp: update_conv' holds_scope_def intro: order_trans less_imp_le)
      next
        case nsup: False
        then have "decision_key env d \<le> decision_key env e" using e by (simp add: supersedes_def laterDecision_iff)
        with h e d True Some nsup show ?thesis by (auto simp: holds_scope_def)
      qed
    qed
  qed
qed

lemma by_scope_ok: "scopes_ok env pre scopes \<Longrightarrow> scopes_ok env (pre @ cs) (by_scope env cs scopes)"
proof (induction cs arbitrary: pre scopes)
  case (Cons c cs)
  show ?case
  proof (cases "dr_decision c")
    case None
    have "scopes_ok env (pre @ [c]) scopes"
      unfolding scopes_ok_def
    proof
      fix key
      show "case map_of scopes key of None \<Rightarrow> (\<forall>c \<in> set (pre @ [c]). scopeKey env (dr_revision c) = key \<longrightarrow> dr_decision c = None)
        | Some c' \<Rightarrow> holds_scope env (pre @ [c]) key c'"
        using Cons.prems [unfolded scopes_ok_def, rule_format, of key] None
        by (cases "map_of scopes key") (auto simp: holds_scope_def)
    qed
    with Cons.IH [of "pre @ [c]" scopes] None show ?thesis by simp
  next
    case (Some d)
    with Cons.IH [OF scopes_ok_step [OF Cons.prems Some]] show ?thesis by (simp add: Let_def)
  qed
qed simp

lemma by_scope_result: "scopes_ok env cs (by_scope env cs [])"
  using by_scope_ok [of env "[]" "[]" cs] by (simp add: scopes_ok_def)

subsection \<open>Which rows govern\<close>

text \<open>A decision on a revision that applies; the latest one of its scope; and the scopes that count.\<close>

definition decides_on ::
  "policy_env \<Rightarrow> policy_context \<Rightarrow> policy_revision list \<Rightarrow> policy_decision list \<Rightarrow> policy_revision \<Rightarrow> policy_decision \<Rightarrow> bool" where
  "decides_on env c revisions decisions r d \<longleftrightarrow>
     r \<in> set revisions \<and> revisionApplies env c r \<and> d \<in> set decisions \<and> pd_PolicyRevisionID d = pr_ID r"

definition latest_in_scope ::
  "policy_env \<Rightarrow> policy_context \<Rightarrow> policy_revision list \<Rightarrow> policy_decision list \<Rightarrow> policy_revision \<Rightarrow> policy_decision \<Rightarrow> bool" where
  "latest_in_scope env c revisions decisions r d \<longleftrightarrow>
     decides_on env c revisions decisions r d
     \<and> (\<forall>r' d'. decides_on env c revisions decisions r' d' \<and> scopeKey env r' = scopeKey env r
          \<longrightarrow> decision_key env d' \<le> decision_key env d)"

definition scope_counts :: "policy_env \<Rightarrow> policy_context \<Rightarrow> policy_revision list \<Rightarrow> policy_decision list \<Rightarrow> string \<Rightarrow> bool" where
  "scope_counts env c revisions decisions key \<longleftrightarrow>
     key \<in> set (standing_keys c) \<or> key = override_key c (cx_Repository c)
     \<or> key = override_key c []
       \<and> (\<nexists>r d. decides_on env c revisions decisions r d \<and> scopeKey env r = override_key c (cx_Repository c))"

definition governs ::
  "policy_env \<Rightarrow> policy_context \<Rightarrow> policy_revision list \<Rightarrow> policy_decision list \<Rightarrow> policy_revision \<Rightarrow> policy_decision \<Rightarrow> bool" where
  "governs env c revisions decisions r d \<longleftrightarrow>
     latest_in_scope env c revisions decisions r d \<and> pd_Action d = ''approved''
     \<and> scope_counts env c revisions decisions (scopeKey env r)"

definition governing_layer :: "policy_env \<Rightarrow> policy_revision \<Rightarrow> policy_decision \<Rightarrow> policy_layer" where
  "governing_layer env r d =
     (projr (layerFromRevision env r))\<lparr>la_Approved := True, la_ApprovedBy := TrimSpace (pd_ActorCognitoSub d), la_ApprovedAt := pd_OccurredAt d\<rparr>"

definition decided_candidate :: "policy_env \<Rightarrow> policy_decision list \<Rightarrow> policy_revision \<Rightarrow> decided_revision" where
  "decided_candidate env decisions r =
     (candidate env r)\<lparr>dr_decision := best env (filter (\<lambda>d. pd_PolicyRevisionID d = pr_ID r) decisions) None\<rparr>"

lemma decided_candidate_sel [simp]:
  "dr_revision (decided_candidate env decisions r) = r" "dr_layer (decided_candidate env decisions r) = projr (layerFromRevision env r)"
  by (simp_all add: decided_candidate_def candidate_def)

lemma decided_candidate_Some:
  "dr_decision (decided_candidate env decisions r) = Some d \<Longrightarrow>
     d \<in> set decisions \<and> pd_PolicyRevisionID d = pr_ID r
     \<and> (\<forall>d' \<in> set decisions. pd_PolicyRevisionID d' = pr_ID r \<longrightarrow> decision_key env d' \<le> decision_key env d)"
  using best_Some_mem [of env "filter (\<lambda>d. pd_PolicyRevisionID d = pr_ID r) decisions" None d]
    best_ge [of env "filter (\<lambda>d. pd_PolicyRevisionID d = pr_ID r) decisions" None]
  by (auto simp: decided_candidate_def)

lemma decided_candidate_None:
  "dr_decision (decided_candidate env decisions r) = None \<Longrightarrow> d \<in> set decisions \<Longrightarrow> pd_PolicyRevisionID d \<noteq> pr_ID r"
  using best_ge [of env "filter (\<lambda>d. pd_PolicyRevisionID d = pr_ID r) decisions" None]
  by (auto simp: decided_candidate_def)

lemma holds_scope_latest:
  assumes d: "distinct (map pr_ID revisions)" and inj: "inj_on (decision_key env) (set decisions)"
    and cs: "set cs = decided_candidate env decisions ` set (filter (revisionApplies env c) revisions)"
  shows "holds_scope env cs key x \<longleftrightarrow>
     (\<exists>r d. latest_in_scope env c revisions decisions r d \<and> scopeKey env r = key \<and> x = decided_candidate env decisions r
        \<and> dr_decision x = Some d)"
proof
  assume h: "holds_scope env cs key x"
  then obtain r d where r: "r \<in> set revisions" "revisionApplies env c r" "x = decided_candidate env decisions r" "scopeKey env r = key"
    "dr_decision x = Some d" by (auto simp: holds_scope_def cs)
  have "decision_key env d' \<le> decision_key env d"
    if d': "decides_on env c revisions decisions r' d'" "scopeKey env r' = key" for r' d'
  proof -
    obtain e where e: "dr_decision (decided_candidate env decisions r') = Some e"
      using d' decided_candidate_None [of env decisions r' d'] by (cases "dr_decision (decided_candidate env decisions r')") (auto simp: decides_on_def)
    have "decision_key env d' \<le> decision_key env e" using decided_candidate_Some [OF e] d' by (auto simp: decides_on_def)
    also have "\<dots> \<le> decision_key env d" using h e d' r(5) by (force simp: holds_scope_def cs decides_on_def)
    finally show ?thesis .
  qed
  with r decided_candidate_Some [of env decisions r d]
  show "\<exists>r d. latest_in_scope env c revisions decisions r d \<and> scopeKey env r = key \<and> x = decided_candidate env decisions r \<and> dr_decision x = Some d"
    unfolding latest_in_scope_def decides_on_def by (intro exI [of _ r] exI [of _ d]) auto
next
  assume "\<exists>r d. latest_in_scope env c revisions decisions r d \<and> scopeKey env r = key \<and> x = decided_candidate env decisions r \<and> dr_decision x = Some d"
  then obtain r d where l: "latest_in_scope env c revisions decisions r d" "scopeKey env r = key" "x = decided_candidate env decisions r"
    "dr_decision x = Some d" by blast
  then have "decision_key env d' \<le> decision_key env d"
    if "r' \<in> set revisions" "revisionApplies env c r'" "scopeKey env r' = key" "dr_decision (decided_candidate env decisions r') = Some d'"
    for r' d' using that decided_candidate_Some [OF that(4)] by (auto simp: latest_in_scope_def decides_on_def)
  with l show "holds_scope env cs key x" by (auto simp: holds_scope_def cs latest_in_scope_def decides_on_def)
qed

lemma latest_unique:
  assumes "distinct (map pr_ID revisions)" "inj_on (decision_key env) (set decisions)"
    and "latest_in_scope env c revisions decisions r d" "latest_in_scope env c revisions decisions r' d'" "scopeKey env r' = scopeKey env r"
  shows "r' = r \<and> d' = d"
proof -
  have "decision_key env d = decision_key env d'" using assms(3-5) by (auto simp: latest_in_scope_def intro: antisym)
  then have "d = d'" using assms(2-4) by (auto simp: latest_in_scope_def decides_on_def inj_on_def)
  then have "pr_ID r = pr_ID r'" using assms(3,4) by (auto simp: latest_in_scope_def decides_on_def)
  then show ?thesis using assms(1,3,4) \<open>d = d'\<close> by (auto simp: latest_in_scope_def decides_on_def distinct_map inj_on_def)
qed

lemma at_scope_mem: "x \<in> set (at_scope scopes key) \<longleftrightarrow> map_of scopes key = Some x \<and> in_force x"
  by (auto simp: at_scope_def split: option.splits)

lemma selected_governs:
  assumes d: "distinct (map pr_ID revisions)" and inj: "inj_on (decision_key env) (set decisions)"
    and cs: "set cs = decided_candidate env decisions ` set (filter (revisionApplies env c) revisions)"
  shows "set (select_revisions c (by_scope env cs [])) =
     {decided_candidate env decisions r | r d. governs env c revisions decisions r d}"
    (is "set (select_revisions c ?s) = ?G")
proof -
  have at: "map_of ?s key = Some x \<longleftrightarrow> (\<exists>r d. latest_in_scope env c revisions decisions r d \<and> scopeKey env r = key
      \<and> x = decided_candidate env decisions r \<and> dr_decision x = Some d)" for key x
  proof -
    have ok: "case map_of ?s key of None \<Rightarrow> (\<forall>c \<in> set cs. scopeKey env (dr_revision c) = key \<longrightarrow> dr_decision c = None)
        | Some c \<Rightarrow> holds_scope env cs key c" using by_scope_result by (simp add: scopes_ok_def)
    show ?thesis
    proof (cases "map_of ?s key")
      case None
      with ok show ?thesis unfolding holds_scope_latest [OF assms, symmetric] by (auto simp: holds_scope_def)
    next
      case (Some y)
      with ok have y: "holds_scope env cs key y" by simp
      have "x = y" if "holds_scope env cs key x"
        using that y latest_unique [OF d inj] unfolding holds_scope_latest [OF assms] by metis
      with Some y show ?thesis unfolding holds_scope_latest [OF assms, symmetric] by auto
    qed
  qed
  have latest: "\<exists>d. latest_in_scope env c revisions decisions r d \<and> dr_decision (decided_candidate env decisions r) = Some d \<and> d = d0"
    if "latest_in_scope env c revisions decisions r d0" for r d0
  proof -
    have r: "r \<in> set revisions" "revisionApplies env c r" "d0 \<in> set decisions" "pd_PolicyRevisionID d0 = pr_ID r"
      using that by (auto simp: latest_in_scope_def decides_on_def)
    then obtain e where e: "dr_decision (decided_candidate env decisions r) = Some e"
      using decided_candidate_None [of env decisions r d0] by fastforce
    from decided_candidate_Some [OF e] r that have "decision_key env e = decision_key env d0"
      by (auto simp: latest_in_scope_def decides_on_def intro: antisym)
    with decided_candidate_Some [OF e] r(3) inj have "e = d0" by (auto simp: inj_on_def)
    with e that show ?thesis by blast
  qed
  have none: "map_of ?s key = None \<longleftrightarrow> (\<nexists>r d. decides_on env c revisions decisions r d \<and> scopeKey env r = key)" for key
  proof -
    have ok: "case map_of ?s key of None \<Rightarrow> (\<forall>c \<in> set cs. scopeKey env (dr_revision c) = key \<longrightarrow> dr_decision c = None)
        | Some c \<Rightarrow> holds_scope env cs key c" using by_scope_result by (simp add: scopes_ok_def)
    show ?thesis
    proof (cases "map_of ?s key")
      case None
      with ok decided_candidate_None show ?thesis by (fastforce simp: cs decides_on_def)
    next
      case (Some y)
      with at [of key y] show ?thesis by (auto simp: latest_in_scope_def)
    qed
  qed
  have mem: "x \<in> set (at_scope ?s key) \<longleftrightarrow> (\<exists>r d. latest_in_scope env c revisions decisions r d \<and> scopeKey env r = key
      \<and> pd_Action d = ''approved'' \<and> x = decided_candidate env decisions r)" for key x
    unfolding at_scope_mem at in_force_def using latest by fastforce
  have "x \<in> set (select_revisions c ?s) \<longleftrightarrow> (\<exists>key. scope_counts env c revisions decisions key \<and> x \<in> set (at_scope ?s key))" for x
  proof (cases "map_of ?s (override_key c (cx_Repository c))")
    case None
    then have "x \<notin> set (at_scope ?s (override_key c (cx_Repository c)))" by (simp add: at_scope_mem)
    with None show ?thesis unfolding select_revisions_def scope_counts_def using none [of "override_key c (cx_Repository c)"] by auto
  next
    case (Some y)
    then show ?thesis unfolding select_revisions_def scope_counts_def using none [of "override_key c (cx_Repository c)"] by auto
  qed
  then show ?thesis unfolding mem governs_def by blast
qed

lemma approved_layer_governing:
  assumes "distinct (map pr_ID revisions)" "inj_on (decision_key env) (set decisions)" "governs env c revisions decisions r d"
  shows "approved_layer (decided_candidate env decisions r) = governing_layer env r d"
proof -
  have r: "r \<in> set revisions" "revisionApplies env c r" "d \<in> set decisions" "pd_PolicyRevisionID d = pr_ID r"
    and l: "latest_in_scope env c revisions decisions r d"
    using assms(3) by (auto simp: governs_def latest_in_scope_def decides_on_def)
  then obtain e where e: "dr_decision (decided_candidate env decisions r) = Some e"
    using decided_candidate_None [of env decisions r d] by fastforce
  from decided_candidate_Some [OF e] r l have "decision_key env e = decision_key env d"
    by (auto simp: latest_in_scope_def decides_on_def intro: antisym)
  with decided_candidate_Some [OF e] r(3) assms(2) have "e = d" by (auto simp: inj_on_def)
  with e show ?thesis by (simp add: approved_layer_def governing_layer_def)
qed

lemma relabelled_Inr: "(case r of Inl e \<Rightarrow> Inl (f e) | Inr x \<Rightarrow> Inr x) = Inr y \<longleftrightarrow> r = Inr y"
  by (cases r) simp_all

lemma effective_rows:
  assumes d: "distinct (map pr_ID revisions)" and inj: "inj_on (decision_key env) (set decisions)"
    and iter: "\<And>xs. mset (iter xs) = mset xs"
    and ok: "ResolveEffective env iter context revisions decisions now = Inr p"
  shows "\<exists>repository layers. CanonicalGitHubReference (pe_parse env) (cx_Repository context) = Some repository
     \<and> Resolve (pe_parse env) (context\<lparr>cx_Repository := repository\<rparr>) layers now = Inr p
     \<and> set layers = {governing_layer env r d | r d. governs env (context\<lparr>cx_Repository := repository\<rparr>) revisions decisions r d}
     \<and> (\<forall>r d. governs env (context\<lparr>cx_Repository := repository\<rparr>) revisions decisions r d \<longrightarrow>
          isOk (layerFromRevision env r) \<and> validateDecision r d now = Inr ())"
proof -
  from ok obtain repository where rep: "CanonicalGitHubReference (pe_parse env) (cx_Repository context) = Some repository"
    by (auto simp: ResolveEffective_def split: option.splits)
  let ?c = "context\<lparr>cx_Repository := repository\<rparr>"
  from ok rep obtain relevant outcome where rel: "relevant_revisions env ?c revisions [] = Inr relevant"
    and app: "apply_decisions env now decisions relevant = Inr outcome"
    and res: "Resolve (pe_parse env) ?c (map approved_layer (sort_key (\<lambda>d. la_Level (dr_layer d))
        (select_revisions ?c (by_scope env (iter (map snd outcome)) [])))) now = Inr p"
    by (auto simp: ResolveEffective_def Let_def bindE_Inr_iff relabelled_Inr split: if_splits)
  have r1: "relevant = map (\<lambda>r. (pr_ID r, candidate env r)) (filter (revisionApplies env ?c) revisions)"
    and lay: "\<forall>r \<in> set revisions. revisionApplies env ?c r \<longrightarrow> isOk (layerFromRevision env r)"
    using relevant_revisions_Inr [OF rel d] by auto
  have dist: "distinct (map fst relevant)" unfolding r1 using d by (simp add: comp_def distinct_map_filter)
  have out: "outcome = map (decided_by env decisions) relevant"
    and val: "\<forall>d \<in> set decisions. \<forall>c. map_of relevant (pd_PolicyRevisionID d) = Some c \<longrightarrow> validateDecision (dr_revision c) d now = Inr ()"
    using apply_decisions_Inr [OF app dist] by auto
  have snds: "map snd outcome = map (decided_candidate env decisions) (filter (revisionApplies env ?c) revisions)"
    unfolding out r1 by (simp add: decided_by_def decided_candidate_def candidate_def)
  have cs: "set (iter (map snd outcome)) = decided_candidate env decisions ` set (filter (revisionApplies env ?c) revisions)"
    using permuted_set [OF iter [of "map snd outcome"]] unfolding snds by simp
  let ?layers = "map approved_layer (sort_key (\<lambda>d. la_Level (dr_layer d)) (select_revisions ?c (by_scope env (iter (map snd outcome)) [])))"
  have "set ?layers = {approved_layer (decided_candidate env decisions r) | r d. governs env ?c revisions decisions r d}"
    using selected_governs [OF d inj cs] by auto
  also have "\<dots> = {governing_layer env r d | r d. governs env ?c revisions decisions r d}"
    using approved_layer_governing [OF d inj] by metis
  finally have layers: "set ?layers = {governing_layer env r d | r d. governs env ?c revisions decisions r d}" .
  have "isOk (layerFromRevision env r) \<and> validateDecision r e now = Inr ()" if g: "governs env ?c revisions decisions r e" for r e
  proof -
    have r: "r \<in> set revisions" "revisionApplies env ?c r" "e \<in> set decisions" "pd_PolicyRevisionID e = pr_ID r"
      using g by (auto simp: governs_def latest_in_scope_def decides_on_def)
    have "map_of relevant (pd_PolicyRevisionID e) = Some (candidate env r)"
      using r dist unfolding r1 by (intro map_of_is_SomeI) auto
    with val r lay show ?thesis by (auto simp: candidate_def)
  qed
  with rep res layers show ?thesis by blast
qed

text \<open>
  C17. The effective policy follows the latest decisions. A policy that \<open>ResolveEffective\<close> returns is
  resolved from exactly the revisions that govern: those that apply to the context, whose scope
  counts (an override of the repository replaces a general one as soon as it was decided on), and
  for which the latest decision of the whole scope is an approval of that revision. A revocation
  thus silences its scope instead of reviving an older revision. Every governing revision is intact
  under its digest, and its approval names that digest and an actor other than the proposer. This
  does not depend on the order in which the rows are read.
\<close>

theorem effective_policy_follows_latest_decisions:
  assumes "distinct (map pr_ID revisions)" and "inj_on (decision_key env) (set decisions)"
    and "\<And>xs. mset (iter xs) = mset xs"
    and "ResolveEffective env iter context revisions decisions now = Inr p"
  shows "\<exists>repository layers. CanonicalGitHubReference (pe_parse env) (cx_Repository context) = Some repository
     \<and> Resolve (pe_parse env) (context\<lparr>cx_Repository := repository\<rparr>) layers now = Inr p
     \<and> set layers = {governing_layer env r d | r d. governs env (context\<lparr>cx_Repository := repository\<rparr>) revisions decisions r d}
     \<and> (\<forall>r d. governs env (context\<lparr>cx_Repository := repository\<rparr>) revisions decisions r d \<longrightarrow>
          isOk (layerFromRevision env r) \<and> pd_PolicyDigest d = pr_ContentSHA256 r
          \<and> TrimSpace (pd_ActorCognitoSub d) \<noteq> TrimSpace (pr_ProposedBy r))"
proof -
  from effective_rows [OF assms] obtain repository layers
    where rep: "CanonicalGitHubReference (pe_parse env) (cx_Repository context) = Some repository"
    and r: "Resolve (pe_parse env) (context\<lparr>cx_Repository := repository\<rparr>) layers now = Inr p"
    and s: "set layers = {governing_layer env r d | r d. governs env (context\<lparr>cx_Repository := repository\<rparr>) revisions decisions r d}"
    and v: "\<And>r d. governs env (context\<lparr>cx_Repository := repository\<rparr>) revisions decisions r d \<Longrightarrow>
      isOk (layerFromRevision env r) \<and> validateDecision r d now = Inr ()" by blast
  have "pd_PolicyDigest d = pr_ContentSHA256 r \<and> TrimSpace (pd_ActorCognitoSub d) \<noteq> TrimSpace (pr_ProposedBy r)"
    if "governs env (context\<lparr>cx_Repository := repository\<rparr>) revisions decisions r d" for r d
    using v [OF that] that by (auto simp: validateDecision_def governs_def Let_def split: if_splits)
  with rep r s v show ?thesis by blast
qed

subsection \<open>Stored patches\<close>

lemma un_fields_append:
  "un_fields strict fds (xs @ ys) r = (case un_fields strict fds xs r of None \<Rightarrow> None | Some r' \<Rightarrow> un_fields strict fds ys r')"
  by (induction strict fds xs r rule: un_fields.induct) (auto split: option.splits)

definition json_member :: "string \<times> json \<Rightarrow> string \<times> jvalue" where
  "json_member = (\<lambda>(k, v). (k, read_as v))"

lemma un_str_field:
  assumes "field_named fds name = Some (in_field get put un_text)" "v = None \<Longrightarrow> put v r = r"
  shows "un_fields True fds (map json_member (str_field name v)) r = Some (put v r)"
  using assms by (cases v) (simp_all add: str_field_def json_member_def in_field_def un_text_def)

lemma un_list_field:
  assumes "field_named fds name = Some (in_field get put un_texts)" "v = None \<Longrightarrow> put v r = r"
  shows "un_fields True fds (map json_member (list_field name v)) r = Some (put v r)"
  using assms by (cases v) (simp_all add: list_field_def json_member_def in_field_def un_texts_def comp_def)

lemma patch_fields_named:
  "field_named patch_fields_json ''mode'' = Some (in_field pa_Mode (\<lambda>x. pa_Mode_update (\<lambda>_. x)) un_text)"
  "field_named patch_fields_json ''gate_approval_mode'' = Some (in_field pa_GateApprovalMode (\<lambda>x. pa_GateApprovalMode_update (\<lambda>_. x)) un_text)"
  "field_named patch_fields_json ''required_test_kinds'' = Some (in_field pa_RequiredTestKinds (\<lambda>x. pa_RequiredTestKinds_update (\<lambda>_. x)) un_texts)"
  "field_named patch_fields_json ''allowed_target_branches'' = Some (in_field pa_AllowedTargetBranches (\<lambda>x. pa_AllowedTargetBranches_update (\<lambda>_. x)) un_texts)"
  "field_named patch_fields_json ''merge_method'' = Some (in_field pa_MergeMethod (\<lambda>x. pa_MergeMethod_update (\<lambda>_. x)) un_text)"
  "field_named patch_fields_json ''deployment_workflow'' = Some (in_field pa_DeploymentWorkflow (\<lambda>x. pa_DeploymentWorkflow_update (\<lambda>_. x)) un_text)"
  "field_named patch_fields_json ''deployment_environment'' = Some (in_field pa_DeploymentEnvironment (\<lambda>x. pa_DeploymentEnvironment_update (\<lambda>_. x)) un_text)"
  "field_named patch_fields_json ''required_secret_references'' = Some (in_field pa_RequiredSecretReferences (\<lambda>x. pa_RequiredSecretReferences_update (\<lambda>_. x)) un_texts)"
  "field_named patch_fields_json ''required_variable_references'' = Some (in_field pa_RequiredVariableReferences (\<lambda>x. pa_RequiredVariableReferences_update (\<lambda>_. x)) un_texts)"
  "field_named patch_fields_json ''required_health_checks'' = Some (in_field pa_RequiredHealthChecks (\<lambda>x. pa_RequiredHealthChecks_update (\<lambda>_. x)) un_texts)"
  "field_named patch_fields_json ''required_post_merge_checks'' = Some (in_field pa_RequiredPostMergeChecks (\<lambda>x. pa_RequiredPostMergeChecks_update (\<lambda>_. x)) un_texts)"
  "field_named patch_fields_json ''recovery_default'' = Some (in_field pa_RecoveryDefault (\<lambda>x. pa_RecoveryDefault_update (\<lambda>_. x)) un_text)"
  by (simp_all add: field_named_def patch_fields_json_def)

lemma decode_written_fields:
  "un_struct True patch_fields_json (read_as (patch_json p)) empty_patch = Some p"
  by (cases p)
     (simp add: patch_json_def un_struct_def json_member_def [symmetric] un_fields_append empty_patch_def
        un_str_field [OF patch_fields_named(1)] un_str_field [OF patch_fields_named(2)] un_list_field [OF patch_fields_named(3)]
        un_list_field [OF patch_fields_named(4)] un_str_field [OF patch_fields_named(5)] un_str_field [OF patch_fields_named(6)]
        un_str_field [OF patch_fields_named(7)] un_list_field [OF patch_fields_named(8)] un_list_field [OF patch_fields_named(9)]
        un_list_field [OF patch_fields_named(10)] un_list_field [OF patch_fields_named(11)] un_str_field [OF patch_fields_named(12)])

text \<open>The strings of a decoded patch are well-formed, so writing the patch loses nothing.\<close>

definition patch_utf8 :: "policy_patch \<Rightarrow> bool" where
  "patch_utf8 p \<longleftrightarrow>
     pred_option utf8_valid (pa_Mode p) \<and> pred_option utf8_valid (pa_GateApprovalMode p)
     \<and> pred_option (list_all utf8_valid) (pa_RequiredTestKinds p) \<and> pred_option (list_all utf8_valid) (pa_AllowedTargetBranches p)
     \<and> pred_option utf8_valid (pa_MergeMethod p) \<and> pred_option utf8_valid (pa_DeploymentWorkflow p)
     \<and> pred_option utf8_valid (pa_DeploymentEnvironment p) \<and> pred_option (list_all utf8_valid) (pa_RequiredSecretReferences p)
     \<and> pred_option (list_all utf8_valid) (pa_RequiredVariableReferences p) \<and> pred_option (list_all utf8_valid) (pa_RequiredHealthChecks p)
     \<and> pred_option (list_all utf8_valid) (pa_RequiredPostMergeChecks p) \<and> pred_option utf8_valid (pa_RecoveryDefault p)"

lemma un_text_valid: "un_text v old = Some x \<Longrightarrow> value_utf8 v \<Longrightarrow> pred_option utf8_valid old \<Longrightarrow> pred_option utf8_valid x"
  by (auto simp: un_text_def un_pointer_def un_string_def split: jvalue.splits option.splits)

lemma un_texts_valid:
  "un_texts v old = Some x \<Longrightarrow> value_utf8 v \<Longrightarrow> pred_option (list_all utf8_valid) x"
  using un_elements_valid [of "[]" un_string _ _ utf8_valid]
  by (auto simp: un_texts_def un_pointer_def un_slice_def un_string_valid split: jvalue.splits option.splits)

lemma patch_field_keeps:
  assumes "(name, dec) \<in> set patch_fields_json" "dec v r = Some r'" "value_utf8 v" "patch_utf8 r"
  shows "patch_utf8 r'"
proof -
  from assms(1) consider get put where "dec = in_field get put un_text" "pred_option utf8_valid (get r)"
        "\<And>x. pred_option utf8_valid x \<Longrightarrow> patch_utf8 (put x r)"
    | get put where "dec = in_field get put un_texts" "\<And>x. pred_option (list_all utf8_valid) x \<Longrightarrow> patch_utf8 (put x r)"
    using assms(4) by (auto simp: patch_fields_json_def patch_utf8_def)
  then show ?thesis using assms(2,3) un_text_valid un_texts_valid by cases (fastforce simp: in_field_def)+
qed

lemma field_named_mem: "field_named fds key = Some dec \<Longrightarrow> \<exists>name. (name, dec) \<in> set fds"
  by (auto simp: field_named_def find_Some_iff dest: map_of_SomeD split: option.splits) (metis nth_mem)

lemma un_patch_fields_valid:
  "un_fields True patch_fields_json ms r = Some r' \<Longrightarrow> list_all (\<lambda>(k, v). value_utf8 v) ms \<Longrightarrow> patch_utf8 r \<Longrightarrow> patch_utf8 r'"
proof (induction ms arbitrary: r)
  case (Cons m ms)
  obtain k v where m: "m = (k, v)" by (cases m)
  with Cons.prems(1) obtain dec r1 where d: "field_named patch_fields_json k = Some dec" "dec v r = Some r1"
    "un_fields True patch_fields_json ms r1 = Some r'" by (auto split: option.splits)
  from field_named_mem [OF d(1)] obtain name where "(name, dec) \<in> set patch_fields_json" by blast
  from patch_field_keeps [OF this d(2)] Cons.prems(2,3) have "patch_utf8 r1" by (simp add: m)
  with Cons.IH [OF d(3)] Cons.prems(2) show ?case by simp
qed simp

lemma decode_patch_valid: "decode_patch text = Some p \<Longrightarrow> patch_utf8 p"
proof -
  assume "decode_patch text = Some p"
  then obtain v where v: "json_document text = Some v" "un_struct True patch_fields_json v empty_patch = Some p"
    by (auto simp: decode_patch_def json_unmarshal_def split: option.splits)
  have e: "patch_utf8 empty_patch" by (simp add: patch_utf8_def empty_patch_def)
  have "value_utf8 v" by (rule json_document_valid [OF v(1)])
  then have "list_all (\<lambda>(k, v). value_utf8 v) ms" if "v = VObj ms" for ms using that by (auto simp: list_all_iff)
  with v(2) e show ?thesis by (auto simp: un_struct_def un_patch_fields_valid split: jvalue.splits)
qed

lemma fold_max_le: "list_all (\<lambda>x. x \<le> n) xs \<Longrightarrow> m \<le> n \<Longrightarrow> fold max xs m \<le> (n::nat)"
  by (induction xs arbitrary: m) simp_all

definition flat :: "json \<Rightarrow> bool" where "flat v \<longleftrightarrow> json_valid v \<and> json_depth v \<le> 1"

lemma str_field_flat: "utf8_valid k \<Longrightarrow> pred_option utf8_valid v \<Longrightarrow> list_all (\<lambda>(k, v). utf8_valid k \<and> flat v) (str_field k v)"
  by (cases v) (simp_all add: str_field_def flat_def)

lemma list_field_flat:
  "utf8_valid k \<Longrightarrow> pred_option (list_all utf8_valid) v \<Longrightarrow> list_all (\<lambda>(k, v). utf8_valid k \<and> flat v) (list_field k v)"
proof (cases v)
  case (Some ss)
  have "fold max (map (json_depth \<circ> JStr) ss) 0 = (0::nat)" by (induction ss) simp_all
  moreover assume "utf8_valid k" "pred_option (list_all utf8_valid) v"
  ultimately show ?thesis using Some by (simp add: list_field_def flat_def list_all_iff)
qed (simp add: list_field_def)

lemma object_written:
  assumes "list_all (\<lambda>(k, v). utf8_valid k \<and> flat v) fs"
  shows "json_document (json_encode (JObj fs)) = Some (read_as (JObj fs))"
proof (rule json_document_written)
  show "json_valid (JObj fs)" using assms by (auto simp: flat_def list_all_iff)
  have "fold max (map (\<lambda>(k, v). json_depth v) fs) 0 \<le> 1" using assms by (intro fold_max_le) (auto simp: flat_def list_all_iff)
  then show "json_depth (JObj fs) \<le> maxNestingDepth" by (simp add: maxNestingDepth_def)
qed

lemma patch_names_valid:
  "list_all utf8_valid [''mode'', ''gate_approval_mode'', ''required_test_kinds'', ''allowed_target_branches'', ''merge_method'',
     ''deployment_workflow'', ''deployment_environment'', ''required_secret_references'', ''required_variable_references'',
     ''required_health_checks'', ''required_post_merge_checks'', ''recovery_default'']"
  by code_simp

lemma decode_patch_written:
  assumes "patch_utf8 p"
  shows "decode_patch (json_encode (patch_json p)) = Some p"
proof -
  have "json_document (json_encode (patch_json p)) = Some (read_as (patch_json p))"
    unfolding patch_json_def using assms patch_names_valid
    by (intro object_written) (simp add: str_field_flat list_field_flat patch_utf8_def)
  then show ?thesis by (simp add: decode_patch_def json_unmarshal_def decode_written_fields)
qed

text \<open>
  A policy proposal is stored as it was sent. The row that \<open>BuildProjectRevision\<close> returns is read
  back by the selector as a layer with exactly the patch that the caller sent, whatever characters its
  strings contain, in the scope and with the reason and expiry of the proposal, and the digest in the row is the digest
  of that layer; the row passes the validation that an approval repeats.
\<close>

theorem stored_proposal_reads_back:
  assumes "BuildProjectRevision env organizationID projectID actor input revisionID now = Inr r"
  shows "\<exists>patch layer. decodePolicyPatch (ri_Patch input) = Inr patch \<and> layerFromRevision env r = Inr layer
     \<and> la_Patch layer = patch \<and> LayerDigest layer = Some (pr_ContentSHA256 r) \<and> la_RevisionID layer = pe_string env revisionID
     \<and> la_Level layer = TrimSpace (ri_Level input) \<and> la_OrganizationID layer = TrimSpace organizationID
     \<and> la_ProjectID layer = pe_string env projectID \<and> la_Reason layer = TrimSpace (ri_Reason input)
     \<and> la_ExpiresAt layer = ri_ExpiresAt input \<and> ValidateRevision env r now = Inr ()"
proof -
  from assms obtain patch digest layer0 where patch: "decodePolicyPatch (ri_Patch input) = Inr patch"
    and digest: "LayerDigest layer0 = Some digest" and content: "pr_ContentSHA256 r = digest"
    and stored: "pr_PatchJSON r = json_encode (patch_json patch)" and valid: "ValidateRevision env r now = Inr ()"
    and sel: "pr_ID r = revisionID" "pr_Level r = ri_Level input" "pr_OrganizationID r = TrimSpace organizationID" "pr_ProjectID r = Some projectID"
      "pr_Reason r = TrimSpace (ri_Reason input)" "pr_ExpiresAt r = ri_ExpiresAt input"
    by (auto simp: BuildProjectRevision_def bindE_Inr_iff fromOption_Inr_iff Let_def split: if_splits)
  from patch obtain raw where "decode_patch raw = Some patch"
    by (auto simp: decodePolicyPatch_def split: if_splits option.splits)
  then have p: "decode_patch (pr_PatchJSON r) = Some patch" unfolding stored by (intro decode_patch_written decode_patch_valid)
  from digest obtain x where x: "digest = sha256_hex x" by (auto simp: LayerDigest_def split: option.splits)
  from valid obtain layer where layer: "layerFromRevision env r = Inr layer" by (auto simp: ValidateRevision_def bindE_Inr_iff)
  then have "la_Patch layer = patch" "LayerDigest layer = Some (pr_ContentSHA256 r)" "la_RevisionID layer = pe_string env revisionID"
    "la_Level layer = TrimSpace (ri_Level input)" "la_OrganizationID layer = TrimSpace organizationID"
    "la_ProjectID layer = pe_string env projectID" "la_Reason layer = TrimSpace (ri_Reason input)" "la_ExpiresAt layer = ri_ExpiresAt input"
    using p by (auto simp: layerFromRevision_def Let_def content x sel projectIDString_def TrimSpace_idem split: if_splits)
  with patch layer valid show ?thesis by blast
qed

end
