(* ===== verification/PolicyLedger.thy ===== *)
theory PolicyLedger
  imports PolicyStoreProps Orchestration StepSystem
begin

text \<open>
  The transactions around the policy store: controllers/delivery/policy\_management.go appends
  proposals and decisions, controllers/delivery/effective\_policy.go reads the effective policy. The
  state is the tables they touch. An HTTP request arrives here decoded, with the subject of its
  authenticated actor; the time of a call is read before its transaction waits for its locks. The
  theory then runs proposals and decisions one after the other, as the row lock on the project
  makes them.
\<close>

subsection \<open>Tables\<close>

record vault_revision =
  vr_ProjectID :: uuid
  vr_RepositoryReference :: string

record policy_tables =
  pl_projects :: "delivery_project list"
  pl_vaults :: "vault_revision list"
  pl_revisions :: "policy_revision list"
  pl_decisions :: "policy_decision list"

datatype ledger_error =
    LedgerNotFound
  | ProposalInvalid store_error
  | ProposalVaultMissing
  | LedgerConstraint
  | DecisionRequestInvalid
  | DigestUnexpected
  | ProposerApproves
  | DecisionVaultMissing
  | RevisionIntegrity
  | LatestIntegrity
  | TransitionRejected store_error
  | DecisionRejected store_error
  | ResolverUnavailable
  | HistoryTooLarge
  | ResolverContext policy_error
  | ResolverFailed store_error

definition project_row :: "'a policy_tables_scheme \<Rightarrow> uuid \<Rightarrow> ledger_error + delivery_project" where
  "project_row db projectID = fromOption LedgerNotFound (find (\<lambda>p. pj_ID p = projectID) (pl_projects db))"

definition requireApprovedVaultScope :: "policy_env \<Rightarrow> 'a policy_tables_scheme \<Rightarrow> uuid \<Rightarrow> string \<Rightarrow> bool" where
  "requireApprovedVaultScope env db projectID repository =
     (if repository = [] then list_ex (\<lambda>v. vr_ProjectID v = projectID) (pl_vaults db)
      else case CanonicalGitHubReference (pe_parse env) repository of
          None \<Rightarrow> False
        | Some canonical \<Rightarrow> list_ex (\<lambda>v. vr_ProjectID v = projectID \<and> vr_RepositoryReference v = canonical) (pl_vaults db))"

text \<open>The primary keys and the unique index on the content digest.\<close>

definition insert_revision :: "'a policy_tables_scheme \<Rightarrow> policy_revision \<Rightarrow> ledger_error + 'a policy_tables_scheme" where
  "insert_revision db r =
     (if list_ex (\<lambda>s. pr_ID s = pr_ID r \<or> pr_ContentSHA256 s = pr_ContentSHA256 r) (pl_revisions db) then Inl LedgerConstraint
      else Inr (db\<lparr>pl_revisions := pl_revisions db @ [r]\<rparr>))"

definition insert_decision :: "'a policy_tables_scheme \<Rightarrow> policy_decision \<Rightarrow> ledger_error + 'a policy_tables_scheme" where
  "insert_decision db d =
     (if list_ex (\<lambda>e. pd_ID e = pd_ID d) (pl_decisions db) then Inl LedgerConstraint
      else Inr (db\<lparr>pl_decisions := pl_decisions db @ [d]\<rparr>))"

subsection \<open>Proposals and decisions\<close>

definition CreateProjectPolicyRevision ::
  "policy_env \<Rightarrow> 'a policy_tables_scheme \<Rightarrow> uuid \<Rightarrow> string \<Rightarrow> revision_input \<Rightarrow> uuid \<Rightarrow> gotime
     \<Rightarrow> ledger_error + 'a policy_tables_scheme \<times> policy_revision" where
  "CreateProjectPolicyRevision env db projectID actor request revisionID now =
     bindE (project_row db projectID) (\<lambda>project.
       case BuildProjectRevision env (pe_string env (pj_ClientID project)) projectID actor
              (request\<lparr>ri_Level := TrimSpace (ri_Level request)\<rparr>) revisionID now of
         Inl e \<Rightarrow> Inl (ProposalInvalid e)
       | Inr revision \<Rightarrow>
           if \<not> requireApprovedVaultScope env db projectID (pr_RepositoryReference revision) then Inl ProposalVaultMissing
           else bindE (insert_revision db revision) (\<lambda>db'. Inr (db', revision)))"

record decision_request =
  rq_Action :: string
  rq_ExpectedDigest :: string
  rq_Reason :: string

text \<open>\<open>ORDER BY occurred_at DESC, id DESC\<close>, first row.\<close>

definition latest_decision :: "policy_decision list \<Rightarrow> uuid \<Rightarrow> policy_decision option" where
  "latest_decision decisions revisionID =
     (case sort_key (\<lambda>d. (pd_OccurredAt d, pd_ID d)) (filter (\<lambda>d. pd_PolicyRevisionID d = revisionID) decisions) of
        [] \<Rightarrow> None
      | d # ds \<Rightarrow> Some (last (d # ds)))"

definition DecideProjectPolicyRevision ::
  "policy_env \<Rightarrow> 'a policy_tables_scheme \<Rightarrow> uuid \<Rightarrow> string \<Rightarrow> uuid \<Rightarrow> decision_request \<Rightarrow> uuid \<Rightarrow> gotime
     \<Rightarrow> ledger_error + 'a policy_tables_scheme \<times> policy_decision \<times> bool" where
  "DecideProjectPolicyRevision env db projectID actor revisionID request decisionID now =
     (let action = ToLower (TrimSpace (rq_Action request)); expectedDigest = ToLower (TrimSpace (rq_ExpectedDigest request));
          reason = TrimSpace (rq_Reason request)
      in if revisionID = uuid_Nil then Inl DecisionRequestInvalid
         else if action \<noteq> ''approved'' \<and> action \<noteq> ''revoked'' \<or> \<not> digest_match expectedDigest then Inl DecisionRequestInvalid
         else if action = ''revoked'' \<and> reason = [] then Inl DecisionRequestInvalid
         else bindE (project_row db projectID) (\<lambda>project.
           case find (\<lambda>r. pr_ID r = revisionID \<and> pr_ProjectID r = Some projectID
                \<and> pr_OrganizationID r = pe_string env (pj_ClientID project)) (pl_revisions db) of
             None \<Rightarrow> Inl LedgerNotFound
           | Some revision \<Rightarrow>
               if pr_ContentSHA256 revision \<noteq> expectedDigest then Inl DigestUnexpected
               else if action = ''approved'' \<and> TrimSpace (pr_ProposedBy revision) = TrimSpace actor then Inl ProposerApproves
               else if \<not> requireApprovedVaultScope env db projectID (pr_RepositoryReference revision) then Inl DecisionVaultMissing
               else if \<not> isOk (ValidateRevision env revision now) then Inl RevisionIntegrity
               else
                 let latest = latest_decision (pl_decisions db) (pr_ID revision);
                     decision =
                       \<lparr>pd_ID = decisionID, pd_PolicyRevisionID = pr_ID revision, pd_PolicyDigest = pr_ContentSHA256 revision,
                        pd_Action = action, pd_Reason = reason, pd_ActorCognitoSub = actor, pd_OccurredAt = now\<rparr>
                 in if \<not> (case latest of None \<Rightarrow> True | Some l \<Rightarrow> isOk (ValidateDecision revision l now)) then Inl LatestIntegrity
                    else (case ValidateDecisionTransition latest action of
                        Inl e \<Rightarrow> Inl (TransitionRejected e)
                      | Inr _ \<Rightarrow>
                          (case latest of
                             Some l \<Rightarrow>
                               if pd_PolicyDigest l = expectedDigest \<and> pd_Action l = action then Inr (db, l, False)
                               else (case ValidateDecision revision decision now of
                                   Inl e \<Rightarrow> Inl (DecisionRejected e)
                                 | Inr _ \<Rightarrow> bindE (insert_decision db decision) (\<lambda>db'. Inr (db', decision, True)))
                           | None \<Rightarrow>
                               (case ValidateDecision revision decision now of
                                  Inl e \<Rightarrow> Inl (DecisionRejected e)
                                | Inr _ \<Rightarrow> bindE (insert_decision db decision) (\<lambda>db'. Inr (db', decision, True)))))))"

subsection \<open>Reading the effective policy\<close>

definition effectivePolicyRevisionLimit :: nat where "effectivePolicyRevisionLimit = 500"

definition effectivePolicyContext ::
  "policy_env \<Rightarrow> delivery_project \<Rightarrow> string \<Rightarrow> string \<Rightarrow> bool \<Rightarrow> gotime \<Rightarrow> policy_error + policy_context" where
  "effectivePolicyContext env project repository changeSetID overridesConsidered now =
     (case CanonicalGitHubReference (pe_parse env) repository of
        None \<Rightarrow> Inl ContextInvalid
      | Some canonical \<Rightarrow>
          bindE (Resolve (pe_parse env)
            \<lparr>cx_OrganizationID = pe_string env (pj_ClientID project), cx_ProjectID = pe_string env (pj_ID project),
             cx_Repository = canonical,
             cx_ChangeSetID = (if overridesConsidered then TrimSpace changeSetID else ''policy-preview'')\<rparr> [] now)
            (\<lambda>p. Inr (rs_Context p)))"

definition scope_sql :: "policy_context \<Rightarrow> uuid \<Rightarrow> bool \<Rightarrow> policy_revision \<Rightarrow> bool" where
  "scope_sql c projectID overridesConsidered r =
     (pr_Level r = ''platform''
      \<or> pr_Level r = ''organization'' \<and> pr_OrganizationID r = cx_OrganizationID c
      \<or> pr_Level r = ''project'' \<and> pr_OrganizationID r = cx_OrganizationID c \<and> pr_ProjectID r = Some projectID
      \<or> pr_Level r = ''repository'' \<and> pr_OrganizationID r = cx_OrganizationID c \<and> pr_ProjectID r = Some projectID
        \<and> pr_RepositoryReference r = cx_Repository c
      \<or> overridesConsidered \<and> pr_Level r = ''override'' \<and> pr_OrganizationID r = cx_OrganizationID c \<and> pr_ProjectID r = Some projectID
        \<and> pr_ChangeSetID r = cx_ChangeSetID c \<and> (pr_RepositoryReference r = [] \<or> pr_RepositoryReference r = cx_Repository c))"

text \<open>\<open>DISTINCT ON (policy_revision_id)\<close> in the order of time and identity, descending.\<close>

definition latest_decisions :: "policy_decision list \<Rightarrow> uuid list \<Rightarrow> policy_decision list" where
  "latest_decisions decisions revisionIDs =
     concat (map (\<lambda>i. case latest_decision decisions i of None \<Rightarrow> [] | Some d \<Rightarrow> [d]) (sort (remdups revisionIDs)))"

definition resolveEffectiveProjectPolicy ::
  "policy_env \<Rightarrow> (decided_revision list \<Rightarrow> decided_revision list) \<Rightarrow> 'a policy_tables_scheme \<Rightarrow> delivery_project \<Rightarrow> string \<Rightarrow> string
     \<Rightarrow> bool \<Rightarrow> gotime \<Rightarrow> ledger_error + resolved_policy" where
  "resolveEffectiveProjectPolicy env iter db project repository changeSetID overridesConsidered now =
     (if pj_ID project = uuid_Nil \<or> pj_ClientID project = uuid_Nil \<or> isZero now then Inl ResolverUnavailable
      else case effectivePolicyContext env project repository changeSetID overridesConsidered now of
          Inl e \<Rightarrow> Inl (ResolverContext e)
        | Inr c \<Rightarrow>
            let rows = take (effectivePolicyRevisionLimit + 1)
                  (rev (sort_key (\<lambda>r. (pr_CreatedAt r, pr_ID r))
                    (filter (scope_sql c (pj_ID project) overridesConsidered) (pl_revisions db))))
            in if length rows > effectivePolicyRevisionLimit then Inl HistoryTooLarge
               else (case ResolveEffective env iter c rows (latest_decisions (pl_decisions db) (map pr_ID rows)) now of
                   Inl e \<Rightarrow> Inl (ResolverFailed e)
                 | Inr p \<Rightarrow> Inr p))"

end
