(* ===== verification/Simulation.thy ===== *)
theory Simulation
  imports StepSystem
begin

text \<open>
  The interface of a component that implements an abstract step relation: along states that keep
  the invariant, every concrete step is matched by an abstract step between the abstractions, or
  leaves the abstraction where it is.
\<close>

locale simulation = invariant_system step inv
  for step :: "'s \<Rightarrow> 's \<Rightarrow> bool" and inv :: "'s \<Rightarrow> bool" +
  fixes spec :: "'a \<Rightarrow> 'a \<Rightarrow> bool"
    and abs :: "'s \<Rightarrow> 'a"
  assumes simulated: "step s t \<Longrightarrow> inv s \<Longrightarrow> spec\<^sup>=\<^sup>= (abs s) (abs t)"
begin

lemma run_simulated: "step\<^sup>*\<^sup>* s t \<Longrightarrow> inv s \<Longrightarrow> spec\<^sup>*\<^sup>* (abs s) (abs t)"
proof (induction rule: rtranclp_induct)
  case (step t u)
  from simulated [OF step.hyps(2) inv_run [OF step.hyps(1) step.prems]] step.IH [OF step.prems] show ?case
    by (auto intro: rtranclp.rtrancl_into_rtrancl)
qed simp

lemma run_keeps:
  assumes "step\<^sup>*\<^sup>* s t" "inv s" and "\<And>a b. spec a b \<Longrightarrow> P a \<Longrightarrow> P b" and "P (abs s)"
  shows "P (abs t)"
  using run_simulated [OF assms(1,2)] assms(4) by (induction rule: rtranclp_induct) (auto intro: assms(3))

end

end
