(* ===== verification/PolicyLedgerProps.thy ===== *)
theory PolicyLedgerProps
  imports PolicyLedger Simulation "HOL-Library.Sublist"
begin

text \<open>
  Runs of the policy ledger: it only grows, every row in it keeps its integrity, and, as long as the
  clock of later decisions is later, a revocation is final.
\<close>

subsection \<open>Steps\<close>

inductive ledger_step :: "policy_env \<Rightarrow> gotime \<Rightarrow> policy_tables \<Rightarrow> policy_tables \<Rightarrow> bool" for env now where
  propose: "CreateProjectPolicyRevision env db projectID actor request revisionID now = Inr (db', revision) \<Longrightarrow> ledger_step env now db db'"
| decide: "DecideProjectPolicyRevision env db projectID actor revisionID request decisionID now = Inr (db', decision, fresh) \<Longrightarrow>
     ledger_step env now db db'"

definition ledger_inv :: "policy_env \<Rightarrow> policy_tables \<Rightarrow> bool" where
  "ledger_inv env db \<longleftrightarrow>
     distinct (map pr_ID (pl_revisions db)) \<and> distinct (map pd_ID (pl_decisions db))
     \<and> (\<forall>r \<in> set (pl_revisions db). isOk (layerFromRevision env r))
     \<and> (\<forall>d \<in> set (pl_decisions db). \<exists>r \<in> set (pl_revisions db). validateDecision r d (pd_OccurredAt d) = Inr ())"

definition ledger_before :: "policy_tables \<Rightarrow> policy_tables \<Rightarrow> bool" where
  "ledger_before db db' \<longleftrightarrow>
     prefix (pl_revisions db) (pl_revisions db') \<and> prefix (pl_decisions db) (pl_decisions db')
     \<and> pl_projects db' = pl_projects db \<and> pl_vaults db' = pl_vaults db"

lemma BuildProjectRevision_valid:
  "BuildProjectRevision env organizationID projectID actor input revisionID now = Inr r \<Longrightarrow> ValidateRevision env r now = Inr ()"
  by (auto simp: BuildProjectRevision_def returns_Inr fromOption_Inr_iff Let_def)

lemma proposal_effect:
  assumes "CreateProjectPolicyRevision env db projectID actor request revisionID now = Inr (db', revision)"
  shows "db' = db\<lparr>pl_revisions := pl_revisions db @ [revision]\<rparr>" "pr_ID revision \<notin> pr_ID ` set (pl_revisions db)"
    "isOk (layerFromRevision env revision)"
proof -
  from assms obtain organizationID request' where
    "BuildProjectRevision env organizationID projectID actor request' revisionID now = Inr revision"
    and i: "insert_revision db revision = Inr db'" by (auto simp: CreateProjectPolicyRevision_def returns_Inr)
  then have "ValidateRevision env revision now = Inr ()" by (intro BuildProjectRevision_valid)
  then show "isOk (layerFromRevision env revision)" by (auto simp: ValidateRevision_def bindE_Inr_iff isOk_iff)
  from i show "db' = db\<lparr>pl_revisions := pl_revisions db @ [revision]\<rparr>" "pr_ID revision \<notin> pr_ID ` set (pl_revisions db)"
    by (auto simp: insert_revision_def if_Inl_eq_Inr_iff list_ex_iff)
qed

lemma find_in_list: "find P xs = Some x \<Longrightarrow> x \<in> set xs \<and> P x"
  by (auto simp: find_Some_iff)

lemma decision_effect:
  assumes "DecideProjectPolicyRevision env db projectID actor revisionID request decisionID now = Inr (db', d, fresh)"
  obtains (again) r where "r \<in> set (pl_revisions db)" "pr_ID r = revisionID" "db' = db" "\<not> fresh"
      "latest_decision (pl_decisions db) revisionID = Some d" "pd_Action d = ToLower (TrimSpace (rq_Action request))"
  | (new) r where "r \<in> set (pl_revisions db)" "pr_ID r = revisionID" "db' = db\<lparr>pl_decisions := pl_decisions db @ [d]\<rparr>" "fresh"
      "pd_ID d \<notin> pd_ID ` set (pl_decisions db)" "validateDecision r d now = Inr ()" "pd_OccurredAt d = now"
      "pd_Action d = ToLower (TrimSpace (rq_Action request))"
      "ValidateDecisionTransition (latest_decision (pl_decisions db) revisionID) (pd_Action d) = Inr ()"
      "\<And>l. latest_decision (pl_decisions db) revisionID = Some l \<Longrightarrow> pd_PolicyDigest l = pr_ContentSHA256 r \<Longrightarrow> pd_Action l \<noteq> pd_Action d"
proof -
  define decision where "decision r =
      \<lparr>pd_ID = decisionID, pd_PolicyRevisionID = pr_ID r, pd_PolicyDigest = pr_ContentSHA256 r,
       pd_Action = ToLower (TrimSpace (rq_Action request)), pd_Reason = TrimSpace (rq_Reason request), pd_ActorCognitoSub = actor,
       pd_OccurredAt = now\<rparr>" for r :: policy_revision
  from assms obtain r where r: "r \<in> set (pl_revisions db)" "pr_ID r = revisionID"
    and t: "ValidateDecisionTransition (latest_decision (pl_decisions db) revisionID) (ToLower (TrimSpace (rq_Action request))) = Inr ()"
    and e: "\<exists>l. latest_decision (pl_decisions db) revisionID = Some l \<and> pd_PolicyDigest l = pr_ContentSHA256 r
          \<and> pd_Action l = ToLower (TrimSpace (rq_Action request)) \<and> db' = db \<and> d = l \<and> \<not> fresh
        \<or> \<not> (\<exists>l. latest_decision (pl_decisions db) revisionID = Some l \<and> pd_PolicyDigest l = pr_ContentSHA256 r
          \<and> pd_Action l = ToLower (TrimSpace (rq_Action request)))
          \<and> validateDecision r (decision r) now = Inr () \<and> insert_decision db (decision r) = Inr db' \<and> d = decision r \<and> fresh"
    by (auto simp: DecideProjectPolicyRevision_def Let_def decision_def ValidateDecision_def returns_Inr dest!: find_in_list
        split: option.splits if_split_asm)
  show thesis
    using e
  proof (elim exE disjE conjE)
    fix l assume "latest_decision (pl_decisions db) revisionID = Some l" "pd_Action l = ToLower (TrimSpace (rq_Action request))"
      "db' = db" "d = l" "\<not> fresh"
    with r show thesis by (intro again) auto
  next
    assume "validateDecision r (decision r) now = Inr ()" "insert_decision db (decision r) = Inr db'" "d = decision r" "fresh"
      and "\<not> (\<exists>l. latest_decision (pl_decisions db) revisionID = Some l \<and> pd_PolicyDigest l = pr_ContentSHA256 r
          \<and> pd_Action l = ToLower (TrimSpace (rq_Action request)))"
    with r t show thesis by (intro new [of r]) (auto simp: insert_decision_def list_ex_iff decision_def split: if_splits)
  qed
qed

subsection \<open>The ledger only grows\<close>

lemma ledger_inv_proposal:
  assumes "ledger_inv env db" "pr_ID revision \<notin> pr_ID ` set (pl_revisions db)" "isOk (layerFromRevision env revision)"
  shows "ledger_inv env (db\<lparr>pl_revisions := pl_revisions db @ [revision]\<rparr>)"
  using assms by (auto simp: ledger_inv_def)

lemma ledger_inv_decision:
  assumes "ledger_inv env db" "pd_ID d \<notin> pd_ID ` set (pl_decisions db)" "r \<in> set (pl_revisions db)"
    "validateDecision r d (pd_OccurredAt d) = Inr ()"
  shows "ledger_inv env (db\<lparr>pl_decisions := pl_decisions db @ [d]\<rparr>)"
  using assms by (auto simp: ledger_inv_def)

lemma ledger_step_cases:
  assumes "ledger_step env now db db'"
  obtains "db' = db"
  | r where "db' = db\<lparr>pl_revisions := pl_revisions db @ [r]\<rparr>" "pr_ID r \<notin> pr_ID ` set (pl_revisions db)" "isOk (layerFromRevision env r)"
  | r d where "r \<in> set (pl_revisions db)" "db' = db\<lparr>pl_decisions := pl_decisions db @ [d]\<rparr>"
      "pd_ID d \<notin> pd_ID ` set (pl_decisions db)" "validateDecision r d now = Inr ()" "pd_OccurredAt d = now"
      "ValidateDecisionTransition (latest_decision (pl_decisions db) (pr_ID r)) (pd_Action d) = Inr ()"
      "\<And>l. latest_decision (pl_decisions db) (pr_ID r) = Some l \<Longrightarrow> pd_PolicyDigest l = pr_ContentSHA256 r \<Longrightarrow> pd_Action l \<noteq> pd_Action d"
  using assms
proof cases
  case (propose projectID actor request revisionID revision)
  with proposal_effect [OF propose] that(2) show ?thesis by blast
next
  case (decide projectID actor revisionID request decisionID d fresh)
  then show ?thesis by (rule decision_effect) (use that(1,3) in blast)+
qed

definition ledger_run_step :: "policy_env \<Rightarrow> policy_tables \<Rightarrow> policy_tables \<Rightarrow> bool" where
  "ledger_run_step env db db' \<longleftrightarrow> (\<exists>now. ledger_step env now db db')"

interpretation ledger: forward_system "ledger_run_step env" "ledger_inv env" ledger_before
proof
  fix db db' assume "ledger_run_step env db db'"
  then obtain now where s: "ledger_step env now db db'" by (auto simp: ledger_run_step_def)
  assume inv: "ledger_inv env db"
  from s show "ledger_inv env db'"
    by (cases rule: ledger_step_cases) (use inv ledger_inv_proposal ledger_inv_decision in blast)+
  from s show "ledger_before db db'" by (cases rule: ledger_step_cases) (auto simp: ledger_before_def)
qed (auto simp: ledger_before_def intro: prefix_order.trans)

definition no_history :: "policy_tables \<Rightarrow> bool" where
  "no_history db \<longleftrightarrow> pl_revisions db = [] \<and> pl_decisions db = []"

lemma no_history_inv: "no_history db \<Longrightarrow> ledger_inv env db"
  by (simp add: no_history_def ledger_inv_def)

text \<open>
  The policy ledger is append-only and every row in it stands on its own. From tables without
  history, any sequence of proposals and decisions, made by anybody at any time in any order, only appends:
  rows present at some moment are still there, unchanged and in the same order, later. Identities stay
  distinct, every revision decodes and carries the digest of its content, and every decision refers to a
  stored revision by its digest, an approval by somebody other than the proposer, a revocation with its reason.
\<close>

theorem policy_ledger_is_append_only:
  assumes "no_history db0" "(ledger_run_step env)\<^sup>*\<^sup>* db0 db" "(ledger_run_step env)\<^sup>*\<^sup>* db db'"
  shows "prefix (pl_revisions db) (pl_revisions db') \<and> prefix (pl_decisions db) (pl_decisions db')
     \<and> distinct (map pr_ID (pl_revisions db')) \<and> distinct (map pd_ID (pl_decisions db'))
     \<and> (\<forall>r \<in> set (pl_revisions db'). \<exists>layer. layerFromRevision env r = Inr layer \<and> LayerDigest layer = Some (la_Digest layer))
     \<and> (\<forall>d \<in> set (pl_decisions db'). \<exists>r \<in> set (pl_revisions db').
          pd_PolicyRevisionID d = pr_ID r \<and> pd_PolicyDigest d = pr_ContentSHA256 r
          \<and> (pd_Action d = ''approved'' \<and> TrimSpace (pd_ActorCognitoSub d) \<noteq> TrimSpace (pr_ProposedBy r)
             \<or> pd_Action d = ''revoked'' \<and> TrimSpace (pd_Reason d) \<noteq> []))"
proof -
  note inv = ledger.fwd.inv_run [OF assms(2) no_history_inv [OF assms(1)]]
  from ledger.before_run_inv [OF assms(3) inv] have b: "ledger_before db db'" and inv': "ledger_inv env db'" by auto
  have "\<exists>layer. layerFromRevision env r = Inr layer \<and> LayerDigest layer = Some (la_Digest layer)" if "r \<in> set (pl_revisions db')" for r
  proof -
    from that inv' obtain layer where l: "layerFromRevision env r = Inr layer" by (auto simp: ledger_inv_def isOk_iff)
    then have "LayerDigest layer = Some (la_Digest layer)" by (auto simp: layerFromRevision_def Let_def split: if_splits option.splits)
    with l show ?thesis by blast
  qed
  moreover have "\<exists>r \<in> set (pl_revisions db'). pd_PolicyRevisionID d = pr_ID r \<and> pd_PolicyDigest d = pr_ContentSHA256 r
      \<and> (pd_Action d = ''approved'' \<and> TrimSpace (pd_ActorCognitoSub d) \<noteq> TrimSpace (pr_ProposedBy r)
         \<or> pd_Action d = ''revoked'' \<and> TrimSpace (pd_Reason d) \<noteq> [])" if "d \<in> set (pl_decisions db')" for d
  proof -
    from that inv' obtain r where r: "r \<in> set (pl_revisions db')" "validateDecision r d (pd_OccurredAt d) = Inr ()"
      by (auto simp: ledger_inv_def)
    then show ?thesis by (intro bexI [OF _ r(1)]) (auto simp: validateDecision_def Let_def split: if_splits)
  qed
  ultimately show ?thesis using b inv' by (simp add: ledger_before_def ledger_inv_def)
qed

subsection \<open>The life of a revision\<close>

lemma sorted_last: "sorted (map k xs) \<Longrightarrow> x \<in> set xs \<Longrightarrow> k x \<le> k (last xs)"
  by (induction xs) auto

lemma sort_key_empty: "sort_key k xs = [] \<longleftrightarrow> xs = []"
  by (metis set_empty set_sort)

lemma latest_decision_Some:
  assumes "latest_decision ds i = Some l"
  shows "l \<in> set ds" "pd_PolicyRevisionID l = i"
    "\<And>d. d \<in> set ds \<Longrightarrow> pd_PolicyRevisionID d = i \<Longrightarrow> (pd_OccurredAt d, pd_ID d) \<le> (pd_OccurredAt l, pd_ID l)"
proof -
  let ?k = "\<lambda>d. (pd_OccurredAt d, pd_ID d)" and ?xs = "filter (\<lambda>d. pd_PolicyRevisionID d = i) ds"
  from assms have ne: "sort_key ?k ?xs \<noteq> []" and l: "l = last (sort_key ?k ?xs)"
    by (auto simp: latest_decision_def split: list.splits)
  have "l \<in> set (sort_key ?k ?xs)" unfolding l using ne by (rule last_in_set)
  then show "l \<in> set ds" "pd_PolicyRevisionID l = i" by auto
  fix d assume "d \<in> set ds" "pd_PolicyRevisionID d = i"
  then show "?k d \<le> ?k l" unfolding l by (intro sorted_last) auto
qed

lemma latest_decision_None: "latest_decision ds i = None \<longleftrightarrow> (\<forall>d \<in> set ds. pd_PolicyRevisionID d \<noteq> i)"
proof -
  have "latest_decision ds i = None \<longleftrightarrow> sort_key (\<lambda>d. (pd_OccurredAt d, pd_ID d)) (filter (\<lambda>d. pd_PolicyRevisionID d = i) ds) = []"
    by (auto simp: latest_decision_def split: list.splits)
  then show ?thesis by (simp add: sort_key_empty filter_empty_conv)
qed

lemma latest_decision_other: "pd_PolicyRevisionID d \<noteq> i \<Longrightarrow> latest_decision (ds @ [d]) i = latest_decision ds i"
  by (simp add: latest_decision_def)

lemma latest_decision_later:
  assumes "\<forall>e \<in> set ds. pd_OccurredAt e < pd_OccurredAt d"
  shows "latest_decision (ds @ [d]) (pd_PolicyRevisionID d) = Some d"
proof (cases "latest_decision (ds @ [d]) (pd_PolicyRevisionID d)")
  case (Some l)
  from latest_decision_Some(1) [OF this] latest_decision_Some(3) [OF this, of d] assms have "l = d" by fastforce
  with Some show ?thesis by simp
qed (simp add: latest_decision_None)

datatype revision_state = Absent | Proposed | Approved | Revoked

datatype life_action = Propose | Approve | Revoke

text \<open>
  The specification: a revision is proposed once, approved once, and revoked for good; to approve or to revoke it again
  changes nothing, and nothing else is possible.
\<close>

fun life_next :: "life_action \<Rightarrow> revision_state \<Rightarrow> revision_state option" where
  "life_next Propose Absent = Some Proposed"
| "life_next Approve Proposed = Some Approved"
| "life_next Approve Approved = Some Approved"
| "life_next Revoke Approved = Some Revoked"
| "life_next Revoke Revoked = Some Revoked"
| "life_next _ _ = None"

inductive life_step :: "(uuid \<Rightarrow> revision_state) \<Rightarrow> (uuid \<Rightarrow> revision_state) \<Rightarrow> bool" where
  moved: "life_next a (f i) = Some x \<Longrightarrow> life_step f (f(i := x))"

inductive_cases life_stepE: "life_step f g"

definition decision_state :: "string \<Rightarrow> revision_state" where
  "decision_state action = (if action = ''approved'' then Approved else Revoked)"

definition decision_act :: "string \<Rightarrow> life_action" where
  "decision_act action = (if action = ''approved'' then Approve else Revoke)"

definition revision_life :: "policy_tables \<Rightarrow> uuid \<Rightarrow> revision_state" where
  "revision_life db i =
     (case latest_decision (pl_decisions db) i of
        Some d \<Rightarrow> if pd_Action d = ''approved'' then Approved else Revoked
      | None \<Rightarrow> if i \<in> pr_ID ` set (pl_revisions db) then Proposed else Absent)"

text \<open>The clock of the host, read once for each call, moves on from call to call.\<close>

definition timed_step :: "policy_env \<Rightarrow> policy_tables \<times> gotime \<Rightarrow> policy_tables \<times> gotime \<Rightarrow> bool" where
  "timed_step env s t \<longleftrightarrow> snd s < snd t \<and> ledger_step env (snd t) (fst s) (fst t)"

definition timed_inv :: "policy_env \<Rightarrow> policy_tables \<times> gotime \<Rightarrow> bool" where
  "timed_inv env s \<longleftrightarrow> ledger_inv env (fst s) \<and> (\<forall>d \<in> set (pl_decisions (fst s)). pd_OccurredAt d \<le> snd s)"

lemma decision_in_life:
  assumes inv: "timed_inv env (db, t)" and t: "t < pd_OccurredAt d"
    and r: "r \<in> set (pl_revisions db)" and v: "validateDecision r d now = Inr ()"
    and tr: "ValidateDecisionTransition (latest_decision (pl_decisions db) (pr_ID r)) (pd_Action d) = Inr ()"
    and new: "\<And>l. latest_decision (pl_decisions db) (pr_ID r) = Some l \<Longrightarrow> pd_PolicyDigest l = pr_ContentSHA256 r \<Longrightarrow> pd_Action l \<noteq> pd_Action d"
  shows "revision_life (db\<lparr>pl_decisions := pl_decisions db @ [d]\<rparr>) = (revision_life db)(pr_ID r := decision_state (pd_Action d))"
    "life_next (decision_act (pd_Action d)) (revision_life db (pr_ID r)) = Some (decision_state (pd_Action d))"
    "revision_life db (pr_ID r) \<noteq> decision_state (pd_Action d)"
proof -
  let ?i = "pr_ID r" and ?l = "latest_decision (pl_decisions db) (pr_ID r)"
  from v have d: "pd_PolicyRevisionID d = ?i" "pd_Action d = ''approved'' \<or> pd_Action d = ''revoked''"
    by (auto simp: validateDecision_def Let_def if_Inl_eq_Inr_iff)
  have late: "\<forall>e \<in> set (pl_decisions db). pd_OccurredAt e < pd_OccurredAt d" using inv t by (auto simp: timed_inv_def)
  show "revision_life (db\<lparr>pl_decisions := pl_decisions db @ [d]\<rparr>) = (revision_life db)(?i := decision_state (pd_Action d))"
  proof
    fix i show "revision_life (db\<lparr>pl_decisions := pl_decisions db @ [d]\<rparr>) i = ((revision_life db)(?i := decision_state (pd_Action d))) i"
      using latest_decision_later [OF late] latest_decision_other [of d i "pl_decisions db"] d(1)
      by (cases "i = ?i") (simp_all add: revision_life_def decision_state_def)
  qed
  have digest: "pd_PolicyDigest l = pr_ContentSHA256 r \<and> (pd_Action l = ''approved'' \<or> pd_Action l = ''revoked'')" if "?l = Some l" for l
  proof -
    from latest_decision_Some(1,2) [OF that] inv obtain r' where "r' \<in> set (pl_revisions db)" "validateDecision r' l (pd_OccurredAt l) = Inr ()"
      "pd_PolicyRevisionID l = ?i" by (auto simp: timed_inv_def ledger_inv_def)
    moreover from this inv r have "r' = r"
      by (auto simp: timed_inv_def ledger_inv_def validateDecision_def Let_def if_Inl_eq_Inr_iff dest: distinct_map [THEN iffD1] inj_onD)
    ultimately show ?thesis by (auto simp: validateDecision_def Let_def if_Inl_eq_Inr_iff)
  qed
  from d(2) have "life_next (decision_act (pd_Action d)) (revision_life db ?i) = Some (decision_state (pd_Action d))
      \<and> revision_life db ?i \<noteq> decision_state (pd_Action d)"
  proof
    assume a: "pd_Action d = ''approved''"
    then have "?l = None" using tr new digest by (cases ?l) (fastforce simp: ValidateDecisionTransition_def if_Inl_eq_Inr_iff split: option.splits)+
    with r have "revision_life db ?i = Proposed" by (simp add: revision_life_def)
    with a show ?thesis by (simp add: decision_act_def decision_state_def)
  next
    assume a: "pd_Action d = ''revoked''"
    then obtain l where "?l = Some l" using tr by (cases ?l) (auto simp: ValidateDecisionTransition_def)
    with a new digest have "revision_life db ?i = Approved" by (fastforce simp: revision_life_def)
    with a show ?thesis by (simp add: decision_act_def decision_state_def)
  qed
  then show "life_next (decision_act (pd_Action d)) (revision_life db ?i) = Some (decision_state (pd_Action d))"
    "revision_life db ?i \<noteq> decision_state (pd_Action d)" by simp_all
qed

lemma timed_inv_step: "timed_step env s t \<Longrightarrow> timed_inv env s \<Longrightarrow> timed_inv env t"
proof -
  assume s: "timed_step env s t" and inv: "timed_inv env s"
  then have "ledger_inv env (fst t)" using ledger.inv_fstep by (auto simp: timed_step_def timed_inv_def ledger_run_step_def)
  moreover from s have "ledger_step env (snd t) (fst s) (fst t)" by (simp add: timed_step_def)
  then have "\<forall>d \<in> set (pl_decisions (fst t)). pd_OccurredAt d \<le> snd t"
    by (cases rule: ledger_step_cases) (use s inv in \<open>auto simp: timed_step_def timed_inv_def\<close>)
  ultimately show ?thesis by (simp add: timed_inv_def)
qed

lemma proposal_in_life:
  assumes "ledger_inv env db" "pr_ID r \<notin> pr_ID ` set (pl_revisions db)"
  shows "revision_life (db\<lparr>pl_revisions := pl_revisions db @ [r]\<rparr>) = (revision_life db)(pr_ID r := Proposed)" "revision_life db (pr_ID r) = Absent"
proof -
  have "pd_PolicyRevisionID d \<in> pr_ID ` set (pl_revisions db)" if "d \<in> set (pl_decisions db)" for d
    using assms(1) that by (force simp: ledger_inv_def validateDecision_def Let_def if_Inl_eq_Inr_iff)
  with assms(2) have "latest_decision (pl_decisions db) (pr_ID r) = None" unfolding latest_decision_None by metis
  with assms(2) show "revision_life (db\<lparr>pl_revisions := pl_revisions db @ [r]\<rparr>) = (revision_life db)(pr_ID r := Proposed)"
    "revision_life db (pr_ID r) = Absent" by (auto simp: revision_life_def fun_eq_iff)
qed

interpretation life: simulation "timed_step env" "timed_inv env" life_step "\<lambda>s. revision_life (fst s)"
proof
  fix s t assume s: "timed_step env s t" and inv: "timed_inv env s"
  then show "timed_inv env t" by (rule timed_inv_step)
  from s have "ledger_step env (snd t) (fst s) (fst t)" by (simp add: timed_step_def)
  then show "life_step\<^sup>=\<^sup>= (revision_life (fst s)) (revision_life (fst t))"
  proof (cases rule: ledger_step_cases)
    case (2 r)
    with inv proposal_in_life [of env "fst s" r] moved [of Propose "revision_life (fst s)" "pr_ID r"] show ?thesis by (simp add: timed_inv_def)
  next
    case (3 r d)
    with s inv have "revision_life (fst t) = (revision_life (fst s))(pr_ID r := decision_state (pd_Action d))"
      "life_next (decision_act (pd_Action d)) (revision_life (fst s) (pr_ID r)) = Some (decision_state (pd_Action d))"
      using decision_in_life(1,2) [of env "fst s" "snd s" d r "snd t"] by (simp_all add: timed_step_def)
    then show ?thesis using moved by (metis sup2I1)
  qed simp
qed

text \<open>
  C15. The ledger implements a simple life of each revision. After any run of proposals and decisions in which the clock moves on
  from call to call, the next proposal that succeeds takes its revision, and no other, from absent to proposed; the next
  decision that succeeds takes its revision, and no other, from proposed to approved or from approved to revoked, or finds it there
  already, and says so. So a revision that was never proposed cannot be approved, one that was not approved cannot be
  revoked, and one that is revoked is never approved again: such a call fails.
\<close>

theorem policy_ledger_refines_life:
  assumes "no_history (fst s0)" "(timed_step env)\<^sup>*\<^sup>* s0 (db, t)" "t < now"
  shows "(\<forall>projectID actor request revisionID db' r. CreateProjectPolicyRevision env db projectID actor request revisionID now = Inr (db', r) \<longrightarrow>
        life_next Propose (revision_life db (pr_ID r)) = Some Proposed \<and> revision_life db' = (revision_life db)(pr_ID r := Proposed))
     \<and> (\<forall>projectID actor revisionID request decisionID db' d fresh.
          DecideProjectPolicyRevision env db projectID actor revisionID request decisionID now = Inr (db', d, fresh) \<longrightarrow>
          (\<exists>a x. (ToLower (TrimSpace (rq_Action request)) = ''approved'' \<and> a = Approve \<or> ToLower (TrimSpace (rq_Action request)) = ''revoked'' \<and> a = Revoke)
             \<and> life_next a (revision_life db revisionID) = Some x \<and> revision_life db' = (revision_life db)(revisionID := x)
             \<and> (fresh \<longleftrightarrow> x \<noteq> revision_life db revisionID)))"
proof (intro conjI allI impI)
  have "timed_inv env s0" using assms(1) no_history_inv by (auto simp: timed_inv_def no_history_def)
  from life.inv_run [OF assms(2) this] have inv: "timed_inv env (db, t)" .
  fix projectID actor revisionID db'
  {
    fix request r assume "CreateProjectPolicyRevision env db projectID actor request revisionID now = Inr (db', r)"
    from proposal_effect(1,2) [OF this] proposal_in_life [of env db r] inv
    show "life_next Propose (revision_life db (pr_ID r)) = Some Proposed" "revision_life db' = (revision_life db)(pr_ID r := Proposed)"
      by (simp_all add: timed_inv_def)
  }
  fix request decisionID d fresh
  assume c: "DecideProjectPolicyRevision env db projectID actor revisionID request decisionID now = Inr (db', d, fresh)"
  let ?action = "ToLower (TrimSpace (rq_Action request))"
  have "?action = ''approved'' \<or> ?action = ''revoked''" using c by (auto simp: DecideProjectPolicyRevision_def Let_def split: if_splits)
  then have act: "?action = ''approved'' \<and> decision_act ?action = Approve \<or> ?action = ''revoked'' \<and> decision_act ?action = Revoke"
    by (auto simp: decision_act_def)
  from c have "life_next (decision_act ?action) (revision_life db revisionID) = Some (decision_state ?action)
      \<and> revision_life db' = (revision_life db)(revisionID := decision_state ?action) \<and> (fresh \<longleftrightarrow> decision_state ?action \<noteq> revision_life db revisionID)"
  proof (cases rule: decision_effect)
    case (again r)
    then have "revision_life db revisionID = decision_state ?action" by (simp add: revision_life_def decision_state_def)
    with again(3,4) show ?thesis by (auto simp: decision_act_def decision_state_def fun_upd_idem)
  next
    case (new r)
    have "decision_state ?action \<noteq> revision_life db revisionID"
      using decision_in_life(3) [OF inv _ new(1,6)] new assms(3) by metis
    moreover have "life_next (decision_act ?action) (revision_life db revisionID) = Some (decision_state ?action)"
      "revision_life db' = (revision_life db)(revisionID := decision_state ?action)"
      using decision_in_life(1,2) [OF inv _ new(1,6)] new assms(3) by metis+
    ultimately show ?thesis using new(4) by simp
  qed
  with act show "\<exists>a x. (?action = ''approved'' \<and> a = Approve \<or> ?action = ''revoked'' \<and> a = Revoke)
      \<and> life_next a (revision_life db revisionID) = Some x \<and> revision_life db' = (revision_life db)(revisionID := x)
      \<and> (fresh \<longleftrightarrow> x \<noteq> revision_life db revisionID)" by blast
qed

subsection \<open>Reading after a revocation\<close>

lemma latest_decisions_mem: "d \<in> set (latest_decisions ds is) \<longleftrightarrow> (\<exists>i \<in> set is. latest_decision ds i = Some d)"
  by (force simp: latest_decisions_def split: option.splits)

lemma distinct_take_sorted: "distinct (map f xs) \<Longrightarrow> distinct (map f (take n (rev (sort_key k (filter P xs)))))"
proof -
  assume "distinct (map f xs)"
  then have "distinct (map f (filter P xs))" by (rule distinct_map_filter)
  then have "distinct (map f (sort_key k (filter P xs)))" by (simp add: distinct_map)
  then show ?thesis by (simp add: take_map [symmetric] rev_map [symmetric])
qed

lemma source_is_approved:
  assumes inv: "ledger_inv env db" and inj: "inj (pe_string env)" and iter: "\<And>xs. mset (iter xs) = mset xs"
    and res: "resolveEffectiveProjectPolicy env iter db project repository changeSetID overrides now = Inr p"
    and s: "s \<in> set (rs_Sources p)"
  obtains r d where "r \<in> set (pl_revisions db)" "latest_decision (pl_decisions db) (pr_ID r) = Some d" "pd_Action d = ''approved''"
    "so_RevisionID s = TrimSpace (pe_string env (pr_ID r))"
proof -
  from res obtain c rows where rows: "rows = take (effectivePolicyRevisionLimit + 1) (rev (sort_key (\<lambda>r. (pr_CreatedAt r, pr_ID r))
        (filter (scope_sql c (pj_ID project) overrides) (pl_revisions db))))"
    and eff: "ResolveEffective env iter c rows (latest_decisions (pl_decisions db) (map pr_ID rows)) now = Inr p"
    unfolding resolveEffectiveProjectPolicy_def Let_def returns_Inr by auto
  have d: "distinct (map pr_ID rows)" unfolding rows using inv by (intro distinct_take_sorted) (simp add: ledger_inv_def)
  have sub: "set (latest_decisions (pl_decisions db) is) \<subseteq> set (pl_decisions db)" for "is"
    by (auto simp: latest_decisions_mem dest: latest_decision_Some(1))
  have "inj_on (decision_key env) (set (pl_decisions db))"
  proof (rule inj_onI)
    fix a b assume ab: "a \<in> set (pl_decisions db)" "b \<in> set (pl_decisions db)" "decision_key env a = decision_key env b"
    then have "pd_ID a = pd_ID b" using inj by (simp add: decision_key_def inj_eq)
    with ab(1,2) inv show "a = b" by (auto simp: ledger_inv_def distinct_map dest: inj_onD)
  qed
  from effective_rows [OF d inj_on_subset [OF this sub] iter eff] obtain repo layers
    where r: "Resolve (pe_parse env) (c\<lparr>cx_Repository := repo\<rparr>) layers now = Inr p"
    and l: "set layers = {governing_layer env r d | r d. governs env (c\<lparr>cx_Repository := repo\<rparr>) rows (latest_decisions (pl_decisions db) (map pr_ID rows)) r d}"
    and ok: "\<And>r d. governs env (c\<lparr>cx_Repository := repo\<rparr>) rows (latest_decisions (pl_decisions db) (map pr_ID rows)) r d \<Longrightarrow>
      isOk (layerFromRevision env r)" by (elim exE conjE) simp
  from s Resolve_Sources [OF r] l obtain r d where g: "s = source_of (governing_layer env r d)"
    "governs env (c\<lparr>cx_Repository := repo\<rparr>) rows (latest_decisions (pl_decisions db) (map pr_ID rows)) r d" by auto
  from ok [OF g(2)] obtain layer where "layerFromRevision env r = Inr layer" by (auto simp: isOk_iff)
  then have "so_RevisionID s = TrimSpace (pe_string env (pr_ID r))"
    by (auto simp: g(1) source_of_def governing_layer_def layerFromRevision_def Let_def split: if_splits option.splits)
  moreover from g(2) have rd: "r \<in> set rows" "d \<in> set (latest_decisions (pl_decisions db) (map pr_ID rows))" "pd_PolicyRevisionID d = pr_ID r"
    "pd_Action d = ''approved''" by (auto simp: governs_def latest_in_scope_def decides_on_def)
  moreover from rd(1) have "r \<in> set (pl_revisions db)" unfolding rows by (auto dest: in_set_takeD)
  moreover from rd(2,3) have "latest_decision (pl_decisions db) (pr_ID r) = Some d"
    using latest_decision_Some(2) unfolding latest_decisions_mem by metis
  ultimately show thesis using that by blast
qed

lemma life_next_revoked: "life_next a Revoked = Some x \<longleftrightarrow> a = Revoke \<and> x = Revoked"
  by (cases a) auto

lemma life_revoked: "life_step f g \<Longrightarrow> f i = Revoked \<Longrightarrow> g i = Revoked"
  by (auto elim!: life_stepE simp: life_next_revoked)

lemma revoked_now:
  assumes dec: "DecideProjectPolicyRevision env db projectID actor revisionID request decisionID now = Inr (db', d, fresh)"
    and req: "ToLower (TrimSpace (rq_Action request)) = ''revoked''" and inv: "timed_inv env (db, t)" and now: "t < now"
  shows "revision_life db' revisionID = Revoked"
  using dec
proof (cases rule: decision_effect)
  case (again r)
  then show ?thesis by (simp add: revision_life_def req)
next
  case (new r)
  have "\<forall>e \<in> set (pl_decisions db). pd_OccurredAt e < pd_OccurredAt d" using inv now new by (auto simp: timed_inv_def)
  from latest_decision_later [OF this] new have "latest_decision (pl_decisions db') revisionID = Some d"
    by (auto simp: validateDecision_def Let_def if_Inl_eq_Inr_iff)
  with new show ?thesis by (simp add: revision_life_def req)
qed

text \<open>
  C14. A revocation is final. Once a call of \<open>DecideProjectPolicyRevision\<close> with the action revoked has
  succeeded, no policy that \<open>resolveEffectiveProjectPolicy\<close> returns after it, whatever proposals and
  decisions were made in between, names that revision among its sources, provided the clock moves on
  from call to call. The text of a UUID identifies it and has no blanks around it.
\<close>

theorem revocation_is_final:
  assumes "no_history (fst s0)" "(timed_step env)\<^sup>*\<^sup>* s0 (db, t)" "t < now"
    and "DecideProjectPolicyRevision env db projectID actor revisionID request decisionID now = Inr (db', d, fresh)"
    and "ToLower (TrimSpace (rq_Action request)) = ''revoked''" "(timed_step env)\<^sup>*\<^sup>* (db', now) (db'', t'')"
    and "inj (pe_string env)" "\<And>u. TrimSpace (pe_string env u) = pe_string env u" "\<And>xs. mset (iter xs) = mset xs"
    and "resolveEffectiveProjectPolicy env iter db'' project repository changeSetID overrides at = Inr p"
  shows "pe_string env revisionID \<notin> so_RevisionID ` set (rs_Sources p)"
proof
  have "timed_inv env s0" using assms(1) no_history_inv by (auto simp: timed_inv_def no_history_def)
  from life.inv_run [OF assms(2) this] have inv: "timed_inv env (db, t)" .
  have "timed_step env (db, t) (db', now)" using assms(3) ledger_step.decide [OF assms(4)] by (simp add: timed_step_def)
  from timed_inv_step [OF this inv] have inv': "timed_inv env (db', now)" .
  have "revision_life (fst (db'', t'')) revisionID = Revoked"
    using revoked_now [OF assms(4,5) inv assms(3)]
    by (intro life.run_keeps [OF assms(6) inv', of "\<lambda>f. f revisionID = Revoked"]) (auto dest: life_revoked)
  then have rev: "revision_life db'' revisionID = Revoked" by simp
  from life.inv_run [OF assms(6) inv'] have inv'': "ledger_inv env db''" by (simp add: timed_inv_def)
  assume "pe_string env revisionID \<in> so_RevisionID ` set (rs_Sources p)"
  then obtain s where s: "s \<in> set (rs_Sources p)" "so_RevisionID s = pe_string env revisionID" by auto
  from inv'' assms(7,9,10) s(1) show False
  proof (rule source_is_approved)
    fix r e assume e: "latest_decision (pl_decisions db'') (pr_ID r) = Some e" "pd_Action e = ''approved''"
      and "so_RevisionID s = TrimSpace (pe_string env (pr_ID r))"
    then have "pe_string env (pr_ID r) = pe_string env revisionID" using s(2) assms(8) by simp
    then have "pr_ID r = revisionID" by (rule injD [OF assms(7)])
    with e rev show False by (simp add: revision_life_def)
  qed
qed

text \<open>
  C26. What the hypothesis on the clock is for. The time of a decision is read before its transaction
  waits for the lock on the project. A revocation whose time lies before that of the approval it follows is
  recorded and reported as new, but the approval stays the latest decision on the revision.
\<close>

theorem revocation_with_earlier_clock_is_void:
  assumes "DecideProjectPolicyRevision env db projectID actor revisionID request decisionID now = Inr (db', d, True)"
    and "latest_decision (pl_decisions db) revisionID = Some l" "now < pd_OccurredAt l"
  shows "pl_decisions db' = pl_decisions db @ [d] \<and> (\<exists>e. latest_decision (pl_decisions db') revisionID = Some e \<and> e \<noteq> d
     \<and> e \<in> set (pl_decisions db) \<and> pd_OccurredAt l \<le> pd_OccurredAt e)"
  using assms(1)
proof (cases rule: decision_effect)
  case (new r)
  from latest_decision_Some(1,2) [OF assms(2)] new(3) have l: "l \<in> set (pl_decisions db')" "pd_PolicyRevisionID l = revisionID" by auto
  then obtain e where e: "latest_decision (pl_decisions db') revisionID = Some e" by (metis latest_decision_None not_None_eq)
  from latest_decision_Some(3) [OF e l] have le: "pd_OccurredAt l \<le> pd_OccurredAt e" by auto
  with new(7) assms(3) have "e \<noteq> d" by auto
  with latest_decision_Some(1) [OF e] new(3) e le show ?thesis by auto
qed simp

end
