(* ===== verification/PolicyLedgerRun.thy ===== *)
theory PolicyLedgerRun
  imports PolicyLedgerProps DeliveryPolicyRun
begin

text \<open>
  A concrete life of a policy revision, to which the properties of the policy store and the policy
  ledger are applied: a project policy is proposed, approved by somebody else an hour later and
  revoked after another hour. The digest of the revision is symbolic.
\<close>

subsection \<open>The environment\<close>

definition lx_parse :: "string \<Rightarrow> parsed_url option" where
  "lx_parse s =
     (if s = ''github://policy-validation/repository'' then
        Some \<lparr>url_Scheme = ''github'', url_hasUser = False, url_Host = ''policy-validation'', url_Hostname = ''policy-validation'',
              url_Port = [], url_Path = ''/repository'', url_RawQuery = [], url_Fragment = []\<rparr>
      else ex_parse s)"

definition lx_env :: policy_env where
  "lx_env = \<lparr>pe_parse = lx_parse, pe_string = (\<lambda>u. show_nat (unat u))\<rparr>"

lemma lx_string_inj: "inj (pe_string lx_env)"
proof (rule injI)
  fix u v :: uuid assume "pe_string lx_env u = pe_string lx_env v"
  then have "decimal_value (show_nat (unat u)) = decimal_value (show_nat (unat v))" by (simp add: lx_env_def)
  then have "unat u = unat v" unfolding decimal_value_show of_nat_eq_iff .
  then show "u = v" by (simp add: word_unat_eq_iff)
qed

lemma lx_string_trimmed: "TrimSpace (pe_string lx_env u) = pe_string lx_env u"
proof (rule TrimSpace_all_graph)
  have "decimal c \<Longrightarrow> graph_char c" for c by (auto simp: decimal_def graph_char_def less_eq_char_def)
  with show_nat_shape [of "unat u"] show "list_all graph_char (pe_string lx_env u)" by (auto simp: lx_env_def list_all_iff)
qed

lemma lx_texts: "pe_string lx_env 1 = ''1''" "pe_string lx_env 2 = ''2''" "pe_string lx_env 10 = ''10''"
  by code_simp+

subsection \<open>The revision\<close>

definition lx_input :: revision_input where
  "lx_input =
     \<lparr>ri_Level = ''project'', ri_Repository = [], ri_ChangeSetID = [], ri_Patch = json_encode (patch_json ex_project_patch),
      ri_Reason = ''needed'', ri_ExpiresAt = None\<rparr>"

definition lx_draft :: "string \<Rightarrow> gotime \<Rightarrow> policy_layer" where
  "lx_draft by_whom at =
     \<lparr>la_SchemaVersion = 1, la_RevisionID = ''10'', la_Level = LevelProject, la_OrganizationID = ''2'', la_ProjectID = ''1'',
      la_Repository = [], la_ChangeSetID = [], la_Patch = ex_project_patch, la_Reason = ''needed'', la_ExpiresAt = None,
      la_Digest = [], la_Approved = True, la_ApprovedBy = by_whom, la_ApprovedAt = at\<rparr>"

definition lx_digest :: string where "lx_digest = the (LayerDigest (lx_draft [] 0))"

definition lx_revision :: policy_revision where
  "lx_revision =
     \<lparr>pr_ID = 10, pr_SchemaVersion = PolicySchemaVersion, pr_Level = ''project'', pr_OrganizationID = ''2'', pr_ProjectID = Some 1,
      pr_RepositoryReference = [], pr_ChangeSetID = [], pr_PatchJSON = json_encode (patch_json ex_project_patch),
      pr_Reason = ''needed'', pr_ExpiresAt = None, pr_ContentSHA256 = lx_digest, pr_ProposedBy = ''pm'', pr_CreatedAt = ex_approved\<rparr>"

lemma lx_layer_digest: "LayerDigest (l\<lparr>la_Approved := a, la_ApprovedBy := b, la_ApprovedAt := t, la_Digest := d\<rparr>) = LayerDigest l"
  by (simp add: LayerDigest_def cong: option.case_cong)

lemma lx_draft_digest: "LayerDigest (lx_draft b t) = Some lx_digest"
proof -
  have "LayerDigest (lx_draft b t) = LayerDigest (lx_draft [] 0)"
    using lx_layer_digest [where l = "lx_draft [] 0" and a = True and b = b and t = t and d = "[]"] by (simp add: lx_draft_def)
  moreover have "LayerDigest (lx_draft [] 0) \<noteq> None" by (simp add: LayerDigest_def lx_draft_def time_field_def)
  ultimately show ?thesis by (auto simp: lx_digest_def)
qed

lemma lx_digest_sha: "\<exists>x. lx_digest = sha256_hex x"
  using LayerDigest_sealed [of "lx_draft [] 0"] lx_draft_digest [of "[]" 0] by (auto simp: lx_draft_def time_field_def)

lemma lx_digest_canonical [simp]: "ToLower (TrimSpace lx_digest) = lx_digest" "digest_match lx_digest"
  using lx_digest_sha by (metis sha256_hex_TrimSpace sha256_hex_ToLower sha256_hex_digest_match)+

lemma lx_patch_reads: "decode_patch (json_encode (patch_json ex_project_patch)) = Some ex_project_patch"
proof (rule decode_patch_written)
  have "list_all utf8_valid [ModeRelease, GateApprovalDelegated, ''.github/workflows/deploy.yml'', ''production'', ''health'', ''rollback'']"
    by code_simp
  then show "patch_utf8 ex_project_patch" by (simp add: patch_utf8_def ex_project_patch_def)
qed

lemma lx_patch_accepted: "decodePolicyPatch (ri_Patch lx_input) = Inr ex_project_patch"
proof -
  have "0 < length (json_encode (patch_json ex_project_patch))" "length (json_encode (patch_json ex_project_patch)) < 1000"
    "TrimSpace (json_encode (patch_json ex_project_patch)) \<noteq> ''null''" by code_simp+
  then show ?thesis by (simp add: decodePolicyPatch_def lx_input_def lx_patch_reads maximumStoredPolicyPatchBytes_def)
qed

lemma lx_trimmed: "TrimSpace ''project'' = ''project''" "TrimSpace ''needed'' = ''needed''" "TrimSpace ''2'' = ''2''" "TrimSpace [] = []"
  "TrimSpace ''pm'' = ''pm''" "TrimSpace ''lead'' = ''lead''" "TrimSpace ''unsafe'' = ''unsafe''"
  "ToLower (TrimSpace ''approved'') = ''approved''" "ToLower (TrimSpace ''revoked'') = ''revoked''"
  by code_simp+

lemma lx_layer:
  "layerFromRevision lx_env lx_revision =
     Inr ((lx_draft [] 0)\<lparr>la_Digest := lx_digest, la_Approved := False, la_ApprovedBy := [], la_ApprovedAt := 0\<rparr>)"
proof -
  have "LayerDigest (lx_draft [] 0\<lparr>la_Digest := lx_digest, la_Approved := False, la_ApprovedBy := [], la_ApprovedAt := 0\<rparr>) = Some lx_digest"
    using lx_draft_digest [of "[]" 0] lx_layer_digest [where l = "lx_draft [] 0" and a = False and b = "[]" and t = 0 and d = lx_digest]
    by (simp add: lx_draft_def)
  then show ?thesis
    by (simp add: layerFromRevision_def lx_revision_def lx_patch_reads lx_texts lx_trimmed projectIDString_def PolicySchemaVersion_def
        lx_draft_def LevelProject_def Let_def)
qed

lemma resolve_one:
  assumes "normalizeContext parse context = Some c" "valid_draft parse c now l" "\<not> isZero now"
  obtains p where "Resolve parse context [seal_layer l] now = Inr p"
proof -
  have "ordered_layers [seal_layer l] = [seal_layer l]" by (simp add: ordered_layers_def)
  moreover have "\<forall>s \<in> set (rs_Sources (fold applyLayer [seal_layer l] (unresolved c))). rfc3339_nano (so_ApprovedAt s) \<noteq> None"
    using assms(2) unfolding fold_Sources by (auto simp: unresolved_def source_of_def valid_draft_def Option.is_none_def)
  from seal_total [OF this] obtain p where "seal (fold applyLayer [seal_layer l] (unresolved c)) = Inr p" by blast
  ultimately have "Resolve parse context [seal_layer l] now = Inr p"
    using assms valid_draft_sealed [OF assms(2)] by (auto simp: Resolve_Inr_iff)
  then show thesis by (rule that)
qed

definition lx_validation :: policy_context where
  "lx_validation =
     \<lparr>cx_OrganizationID = ''2'', cx_ProjectID = ''1'', cx_Repository = ''github://policy-validation/repository'',
      cx_ChangeSetID = ''policy-validation''\<rparr>"

text \<open>The times of the calls: the proposal, a clock that runs a second behind the approval, the approval, the revocation.\<close>

definition lx_times :: "gotime list" where
  "lx_times = [ex_approved, ex_approved + hour - second, ex_approved + hour, ex_approved + 2 * hour]"

lemma lx_draft_sealed:
  "(lx_draft [] 0)\<lparr>la_Digest := lx_digest, la_Approved := True, la_ApprovedBy := b, la_ApprovedAt := t\<rparr> = seal_layer (lx_draft b t)"
  by (simp add: seal_layer_def lx_draft_digest) (simp add: lx_draft_def)

lemma lx_drafts_valid:
  "list_all (\<lambda>t. valid_draft lx_parse lx_validation t (lx_draft ''policy-validator'' t) \<and> \<not> isZero t) lx_times"
  "normalizeContext lx_parse lx_validation = Some lx_validation"
  by code_simp+

lemma lx_validates: "t \<in> set lx_times \<Longrightarrow> ValidateRevision lx_env lx_revision t = Inr ()"
proof -
  assume "t \<in> set lx_times"
  with lx_drafts_valid(1) have "valid_draft lx_parse lx_validation t (lx_draft ''policy-validator'' t)" "\<not> isZero t" by (auto simp: list_all_iff)
  from resolve_one [OF lx_drafts_valid(2) this] obtain p where
    "Resolve lx_parse lx_validation [seal_layer (lx_draft ''policy-validator'' t)] t = Inr p" .
  moreover have "pe_parse lx_env = lx_parse" by (simp add: lx_env_def)
  ultimately show ?thesis
    unfolding ValidateRevision_def lx_layer lx_draft_sealed [symmetric]
    by (simp add: lx_revision_def projectIDString_def lx_texts lx_validation_def)
qed

lemma lx_built: "BuildProjectRevision lx_env ''2'' 1 ''pm'' lx_input 10 ex_approved = Inr lx_revision"
proof -
  have v: "ValidateRevision lx_env lx_revision ex_approved = Inr ()" by (rule lx_validates) (simp add: lx_times_def)
  let ?l = "(lx_draft [] 0)\<lparr>la_Digest := [], la_Approved := False, la_ApprovedBy := [], la_ApprovedAt := 0\<rparr>"
  have d: "LayerDigest ?l = Some lx_digest"
    using lx_draft_digest [of "[]" 0] lx_layer_digest [where l = "lx_draft [] 0" and a = False and b = "[]" and t = 0 and d = "[]"]
    by (simp add: lx_draft_def)
  let ?r = "lx_revision\<lparr>pr_ContentSHA256 := []\<rparr>"
  have l: "layerFromRevisionWithoutDigest lx_env ?r = Inr ?l"
    by (simp add: layerFromRevisionWithoutDigest_def lx_revision_def lx_patch_reads projectIDString_def lx_texts lx_draft_def
        PolicySchemaVersion_def LevelProject_def)
  have r: "?r\<lparr>pr_ContentSHA256 := lx_digest\<rparr> = lx_revision" by (simp add: lx_revision_def)
  have sc: "proposal_scope lx_env lx_input ex_approved = Inr []"
    by (simp add: proposal_scope_def lx_input_def lx_trimmed LevelProject_def)
  have "BuildProjectRevision lx_env ''2'' 1 ''pm'' lx_input 10 ex_approved =
      bindE (layerFromRevisionWithoutDigest lx_env ?r) (\<lambda>layer. bindE (fromOption ProposalDigestFailed (LayerDigest layer)) (\<lambda>digest.
        bindE (ValidateRevision env (?r\<lparr>pr_ContentSHA256 := digest\<rparr>) now) (\<lambda>_. Inr (?r\<lparr>pr_ContentSHA256 := digest\<rparr>))))"
    if "env = lx_env" "now = ex_approved" for env now
    using that by (simp add: BuildProjectRevision_def lx_patch_accepted sc lx_trimmed Let_def)
       (simp add: lx_revision_def lx_input_def lx_trimmed ex_approved_def)
  with l d r v show ?thesis by (simp add: fromOption_def)
qed

subsection \<open>The calls\<close>

definition lx_db :: "policy_revision list \<Rightarrow> policy_decision list \<Rightarrow> policy_tables" where
  "lx_db rs ds =
     \<lparr>pl_projects = [\<lparr>pj_ID = 1, pj_ClientID = 2\<rparr>], pl_vaults = [\<lparr>vr_ProjectID = 1, vr_RepositoryReference = ''github://acme/api''\<rparr>],
      pl_revisions = rs, pl_decisions = ds\<rparr>"

definition lx_request :: "string \<Rightarrow> decision_request" where
  "lx_request action = \<lparr>rq_Action = action, rq_ExpectedDigest = lx_digest, rq_Reason = ''unsafe''\<rparr>"

definition lx_decision :: "uuid \<Rightarrow> string \<Rightarrow> gotime \<Rightarrow> policy_decision" where
  "lx_decision i action at =
     \<lparr>pd_ID = i, pd_PolicyRevisionID = 10, pd_PolicyDigest = lx_digest, pd_Action = action, pd_Reason = ''unsafe'',
      pd_ActorCognitoSub = ''lead'', pd_OccurredAt = at\<rparr>"

abbreviation lx_approval :: policy_decision where "lx_approval \<equiv> lx_decision 20 ''approved'' (ex_approved + hour)"

lemma lx_vault: "requireApprovedVaultScope lx_env (lx_db rs ds) 1 []"
  by (simp add: requireApprovedVaultScope_def lx_db_def)

lemma lx_proposed: "CreateProjectPolicyRevision lx_env (lx_db [] []) 1 ''pm'' lx_input 10 ex_approved = Inr (lx_db [lx_revision] [], lx_revision)"
proof -
  have "lx_input\<lparr>ri_Level := TrimSpace (ri_Level lx_input)\<rparr> = lx_input" by (simp add: lx_input_def lx_trimmed)
  moreover have "project_row (lx_db [] []) 1 = Inr \<lparr>pj_ID = 1, pj_ClientID = 2\<rparr>" by (simp add: project_row_def lx_db_def fromOption_def)
  moreover have "pr_RepositoryReference lx_revision = []" by (simp add: lx_revision_def)
  moreover have "insert_revision (lx_db [] []) lx_revision = Inr (lx_db [lx_revision] [])" by (simp add: insert_revision_def lx_db_def)
  ultimately show ?thesis by (simp add: CreateProjectPolicyRevision_def lx_texts lx_built lx_vault)
qed

lemma lx_decided:
  assumes t: "t \<in> set lx_times" and a: "ToLower (TrimSpace action) = action" "action = ''approved'' \<or> action = ''revoked''"
    and l: "latest_decision ds 10 = latest" "\<And>e. latest = Some e \<Longrightarrow> validateDecision lx_revision e t = Inr () \<and> pd_Action e \<noteq> action"
    and tr: "ValidateDecisionTransition latest action = Inr ()" and i: "i \<noteq> 0" "i \<notin> pd_ID ` set ds"
  shows "DecideProjectPolicyRevision lx_env (lx_db [lx_revision] ds) 1 ''lead'' 10 (lx_request action) i t
     = Inr (lx_db [lx_revision] (ds @ [lx_decision i action t]), lx_decision i action t, True)"
proof -
  have nz: "\<not> isZero t" using t lx_drafts_valid(1) by (auto simp: list_all_iff)
  have v: "validateDecision lx_revision (lx_decision i action t) t = Inr ()"
    using a(2) i(1) nz by (auto simp: validateDecision_def lx_decision_def lx_revision_def lx_trimmed Let_def)
  have p: "project_row (lx_db rs ds) 1 = Inr \<lparr>pj_ID = 1, pj_ClientID = 2\<rparr>" for rs ds by (simp add: project_row_def lx_db_def fromOption_def)
  have ins: "insert_decision (lx_db [lx_revision] ds) (lx_decision i action t) = Inr (lx_db [lx_revision] (ds @ [lx_decision i action t]))"
    using i(2) by (auto simp: insert_decision_def lx_db_def lx_decision_def list_ex_iff)
  have sel: "pr_ID lx_revision = 10" "pr_ContentSHA256 lx_revision = lx_digest" "TrimSpace (pr_ProposedBy lx_revision) = ''pm''"
    "pr_RepositoryReference lx_revision = []" "pr_ProjectID lx_revision = Some 1" "pr_OrganizationID lx_revision = ''2''"
    by (simp_all add: lx_revision_def lx_trimmed)
  have db: "pl_revisions (lx_db [lx_revision] ds) = [lx_revision]" "pl_decisions (lx_db [lx_revision] ds) = ds" by (simp_all add: lx_db_def)
  have fold_it: "\<lparr>pd_ID = i, pd_PolicyRevisionID = 10, pd_PolicyDigest = lx_digest, pd_Action = action, pd_Reason = ''unsafe'',
      pd_ActorCognitoSub = ''lead'', pd_OccurredAt = t\<rparr> = lx_decision i action t" by (simp add: lx_decision_def)
  show ?thesis
    using a lx_validates [OF t] l(2) tr v ins
    by (cases latest)
       (auto simp: DecideProjectPolicyRevision_def lx_request_def lx_trimmed p lx_texts db sel lx_vault isOk_iff l(1) ValidateDecision_def
         fold_it Let_def)
qed

lemma lx_approved:
  "DecideProjectPolicyRevision lx_env (lx_db [lx_revision] []) 1 ''lead'' 10 (lx_request ''approved'') 20 (ex_approved + hour)
     = Inr (lx_db [lx_revision] [lx_approval], lx_approval, True)"
  using lx_decided [of "ex_approved + hour" "''approved''" "[]" None 20]
  by (simp add: lx_times_def lx_trimmed latest_decision_def ValidateDecisionTransition_def)

lemma lx_approval_valid: "ex_approved + hour - minute \<le> now \<Longrightarrow> validateDecision lx_revision lx_approval now = Inr ()"
  by (simp add: validateDecision_def lx_decision_def lx_revision_def lx_trimmed ex_approved_def Let_def)

lemma lx_latest: "latest_decision [lx_decision i action at] 10 = Some (lx_decision i action at)"
  by (simp add: latest_decision_def lx_decision_def)

lemma lx_revoked:
  assumes "t \<in> set lx_times" "ex_approved + hour - minute \<le> t"
  shows "DecideProjectPolicyRevision lx_env (lx_db [lx_revision] [lx_approval]) 1 ''lead'' 10 (lx_request ''revoked'') 21 t
     = Inr (lx_db [lx_revision] [lx_approval, lx_decision 21 ''revoked'' t], lx_decision 21 ''revoked'' t, True)"
  using lx_decided [of t "''revoked''" "[lx_approval]" "Some lx_approval" 21] assms lx_approval_valid lx_latest
  by (simp add: lx_trimmed ValidateDecisionTransition_def) (simp add: lx_decision_def)

subsection \<open>Reading the policy\<close>

definition lx_context :: policy_context where
  "lx_context =
     \<lparr>cx_OrganizationID = ''2'', cx_ProjectID = ''1'', cx_Repository = ''github://acme/api'', cx_ChangeSetID = ''policy-preview''\<rparr>"

definition lx_project :: delivery_project where "lx_project = \<lparr>pj_ID = 1, pj_ClientID = 2\<rparr>"

definition lx_read :: gotime where "lx_read = ex_approved + 3 * hour"

lemma lx_context_normal: "normalizeContext lx_parse lx_context = Some lx_context" "CanonicalGitHubReference lx_parse ''github://acme/api'' = Some ''github://acme/api''"
  "\<not> isZero lx_read"
  by code_simp+

lemma resolve_none:
  assumes "normalizeContext parse context = Some c" "\<not> isZero now"
  obtains p where "Resolve parse context [] now = Inr p" "rs_Context p = c" "rs_Sources p = []"
proof -
  have "\<forall>s \<in> set (rs_Sources (unresolved c)). rfc3339_nano (so_ApprovedAt s) \<noteq> None" by (simp add: unresolved_def)
  from seal_total [OF this] obtain p where p: "seal (unresolved c) = Inr p" by blast
  then have "Resolve parse context [] now = Inr p" using assms by (auto simp: Resolve_Inr_iff ordered_layers_def)
  then show thesis by (rule that) (simp_all add: seal_fields [OF p] unresolved_def)
qed

definition lx_candidate :: "policy_decision option \<Rightarrow> decided_revision" where
  "lx_candidate d = \<lparr>dr_revision = lx_revision, dr_layer = projr (layerFromRevision lx_env lx_revision), dr_decision = d\<rparr>"

lemma lx_scopes:
  "scopeKey lx_env lx_revision = ''project|2|1''" "revisionApplies lx_env lx_context lx_revision"
  "standing_keys lx_context = [''platform'', ''organization|2'', ''project|2|1'', ''repository|2|1|github://acme/api'']"
  "override_key lx_context ''github://acme/api'' = ''override|2|1|policy-preview|github://acme/api''"
  "override_key lx_context [] = ''override|2|1|policy-preview|''"
proof -
  have bars: "bar [''project'', ''2'', ''1''] = ''project|2|1''" "bar [''organization'', ''2''] = ''organization|2''"
    "bar [''repository'', ''2'', ''1'', ''github://acme/api''] = ''repository|2|1|github://acme/api''" by code_simp+
  show "scopeKey lx_env lx_revision = ''project|2|1''" "revisionApplies lx_env lx_context lx_revision"
    by (simp_all add: scopeKey_def revisionApplies_def lx_revision_def revision_repository_def lx_trimmed projectIDString_def lx_texts
        lx_context_def bars policy_names Let_def)
  show "standing_keys lx_context = [''platform'', ''organization|2'', ''project|2|1'', ''repository|2|1|github://acme/api'']"
    "override_key lx_context ''github://acme/api'' = ''override|2|1|policy-preview|github://acme/api''"
    "override_key lx_context [] = ''override|2|1|policy-preview|''" by code_simp+
qed

lemma lx_selected:
  assumes "validateDecision lx_revision d now = Inr ()" "\<not> isZero now" "pd_PolicyRevisionID d = 10"
  shows "ResolveEffective lx_env id lx_context [lx_revision] [d] now =
     (case Resolve lx_parse lx_context (if pd_Action d = ''approved'' then [approved_layer (lx_candidate (Some d))] else []) now of
        Inl e \<Rightarrow> Inl (EffectiveUnresolved e) | Inr p \<Rightarrow> Inr p)"
proof -
  have c: "lx_context\<lparr>cx_Repository := ''github://acme/api''\<rparr> = lx_context" "cx_Repository lx_context = ''github://acme/api''"
    "pe_parse lx_env = lx_parse" by (simp_all add: lx_context_def lx_env_def)
  have rel: "relevant_revisions lx_env lx_context [lx_revision] [] = Inr [(10, lx_candidate None)]"
    by (simp add: lx_scopes lx_layer lx_candidate_def) (simp add: lx_revision_def)
  have dec: "apply_decisions lx_env now [d] [(10, lx_candidate None)] = Inr [(10, lx_candidate (Some d))]"
    using assms by (simp add: lx_candidate_def supersedes_def)
  have scopes: "by_scope lx_env [lx_candidate (Some d)] [] = [(''project|2|1'', lx_candidate (Some d))]"
    by (simp add: lx_candidate_def lx_scopes)
  have sel: "select_revisions lx_context [(''project|2|1'', lx_candidate (Some d))] =
      (if pd_Action d = ''approved'' then [lx_candidate (Some d)] else [])"
    by (simp add: select_revisions_def lx_scopes c at_scope_def in_force_def lx_candidate_def)
  show ?thesis
    using assms(2) by (simp add: ResolveEffective_def c lx_context_normal rel dec scopes sel Let_def del: by_scope.simps relevant_revisions.simps apply_decisions.simps cong: if_cong)
qed

lemma lx_effective_context:
  "effectivePolicyContext lx_env lx_project ''github://acme/api'' changeSetID False lx_read = Inr lx_context"
proof -
  obtain p where p: "Resolve lx_parse lx_context [] lx_read = Inr p" "rs_Context p = lx_context"
    by (rule resolve_none [OF lx_context_normal(1,3)])
  then show ?thesis by (simp add: effectivePolicyContext_def lx_project_def lx_env_def lx_context_normal lx_texts [unfolded lx_env_def, simplified]
        lx_context_def)
qed

lemma lx_rows: "take n (rev (sort_key k (filter (scope_sql lx_context 1 False) [lx_revision]))) = take n [lx_revision]"
  by (simp add: scope_sql_def lx_revision_def lx_context_def)

lemma lx_resolved:
  assumes "latest_decision ds 10 = Some d" "validateDecision lx_revision d lx_read = Inr ()"
  shows "resolveEffectiveProjectPolicy lx_env id (lx_db [lx_revision] ds) lx_project ''github://acme/api'' [] False lx_read =
     (case ResolveEffective lx_env id lx_context [lx_revision] [d] lx_read of Inl e \<Rightarrow> Inl (ResolverFailed e) | Inr p \<Rightarrow> Inr p)"
proof -
  have i: "pr_ID lx_revision = 10" "pj_ID lx_project = 1" "pj_ClientID lx_project = 2" by (simp_all add: lx_revision_def lx_project_def)
  have db: "pl_revisions (lx_db [lx_revision] ds) = [lx_revision]" "pl_decisions (lx_db [lx_revision] ds) = ds" by (simp_all add: lx_db_def)
  have l: "latest_decisions ds [10] = [d]" by (simp add: latest_decisions_def assms(1))
  show ?thesis
    using lx_context_normal(3)
    by (simp add: resolveEffectiveProjectPolicy_def i db lx_effective_context lx_rows l effectivePolicyRevisionLimit_def Let_def
        del: filter.simps sort_key_simps)
qed

lemma lx_policy_in_force:
  obtains p where "ResolveEffective lx_env id lx_context [lx_revision] [lx_approval] lx_read = Inr p"
    "so_RevisionID ` set (rs_Sources p) = {''10''}"
proof -
  have v: "valid_draft lx_parse lx_context lx_read (lx_draft ''lead'' (ex_approved + hour))" by code_simp
  have l: "approved_layer (lx_candidate (Some lx_approval)) = seal_layer (lx_draft ''lead'' (ex_approved + hour))"
    unfolding lx_draft_sealed [symmetric] by (simp add: approved_layer_def lx_candidate_def lx_layer lx_decision_def lx_trimmed)
  from resolve_one [OF lx_context_normal(1) v lx_context_normal(3)] obtain p
    where p: "Resolve lx_parse lx_context [seal_layer (lx_draft ''lead'' (ex_approved + hour))] lx_read = Inr p" .
  have "ResolveEffective lx_env id lx_context [lx_revision] [lx_approval] lx_read = Inr p"
    using lx_selected [OF lx_approval_valid lx_context_normal(3)] l p by (simp add: lx_decision_def lx_read_def)
  moreover have "TrimSpace ''10'' = ''10''" by code_simp
  then have "so_RevisionID ` set (rs_Sources p) = {''10''}"
    by (simp add: Resolve_Sources [OF p] source_of_def) (simp add: lx_draft_def)
  ultimately show thesis by (rule that)
qed

subsection \<open>Witnesses\<close>

theorem effective_policy_follows_latest_decisions_witness:
  "\<exists>p layers. ResolveEffective lx_env id lx_context [lx_revision] [lx_approval] lx_read = Inr p
     \<and> Resolve lx_parse lx_context layers lx_read = Inr p
     \<and> set layers = {governing_layer lx_env r d | r d. governs lx_env lx_context [lx_revision] [lx_approval] r d}
     \<and> so_RevisionID ` set (rs_Sources p) = {''10''}"
proof -
  obtain p where p: "ResolveEffective lx_env id lx_context [lx_revision] [lx_approval] lx_read = Inr p"
    "so_RevisionID ` set (rs_Sources p) = {''10''}" by (rule lx_policy_in_force)
  have e: "pe_parse lx_env = lx_parse" "cx_Repository lx_context = ''github://acme/api''"
    "lx_context\<lparr>cx_Repository := ''github://acme/api''\<rparr> = lx_context" by (simp_all add: lx_env_def lx_context_def)
  have d: "distinct (map pr_ID [lx_revision])" and i: "inj_on (decision_key lx_env) (set [lx_approval])"
    and m: "\<And>xs :: decided_revision list. mset (id xs) = mset xs" by simp_all
  from effective_policy_follows_latest_decisions [OF d i m p(1)] obtain repository layers
    where r: "CanonicalGitHubReference (pe_parse lx_env) (cx_Repository lx_context) = Some repository"
    and l: "Resolve (pe_parse lx_env) (lx_context\<lparr>cx_Repository := repository\<rparr>) layers lx_read = Inr p"
      "set layers = {governing_layer lx_env r d | r d. governs lx_env (lx_context\<lparr>cx_Repository := repository\<rparr>) [lx_revision] [lx_approval] r d}"
    by (elim exE conjE)
  from r have "repository = ''github://acme/api''" by (simp add: e lx_context_normal)
  with l have "Resolve lx_parse lx_context layers lx_read = Inr p"
    "set layers = {governing_layer lx_env r d | r d. governs lx_env lx_context [lx_revision] [lx_approval] r d}" by (simp_all only: e)
  with p show ?thesis by blast
qed

theorem stored_proposal_reads_back_witness:
  "BuildProjectRevision lx_env ''2'' 1 ''pm'' lx_input 10 ex_approved = Inr lx_revision
     \<and> (\<exists>layer. layerFromRevision lx_env lx_revision = Inr layer \<and> la_Patch layer = ex_project_patch
          \<and> LayerDigest layer = Some (pr_ContentSHA256 lx_revision))"
proof -
  from stored_proposal_reads_back [OF lx_built] obtain patch layer where "decodePolicyPatch (ri_Patch lx_input) = Inr patch"
    "layerFromRevision lx_env lx_revision = Inr layer" "la_Patch layer = patch" "LayerDigest layer = Some (pr_ContentSHA256 lx_revision)"
    by (elim exE conjE)
  with lx_built lx_patch_accepted show ?thesis by simp
qed

lemma lx_run:
  "(timed_step lx_env)\<^sup>*\<^sup>* (lx_db [] [], 0) (lx_db [lx_revision] [lx_approval], ex_approved + hour)"
proof -
  have "timed_step lx_env (lx_db [] [], 0) (lx_db [lx_revision] [], ex_approved)"
    using ledger_step.propose [OF lx_proposed] by (simp add: timed_step_def ex_approved_def)
  moreover have "timed_step lx_env (lx_db [lx_revision] [], ex_approved) (lx_db [lx_revision] [lx_approval], ex_approved + hour)"
    using ledger_step.decide [OF lx_approved] by (simp add: timed_step_def)
  ultimately show ?thesis by (meson r_into_rtranclp rtranclp.rtrancl_into_rtrancl)
qed

lemmas lx_revoked_later = lx_revoked [of "ex_approved + 2 * hour"]

lemma lx_start: "no_history (lx_db [] [])"
  by (simp add: no_history_def lx_db_def)

theorem policy_ledger_is_append_only_witness:
  "no_history (lx_db [] []) \<and> prefix [lx_approval] (pl_decisions (lx_db [lx_revision] [lx_approval, lx_decision 21 ''revoked'' (ex_approved + 2 * hour)]))"
proof -
  have "ledger_run_step lx_env (lx_db [] []) (lx_db [lx_revision] [])"
    using ledger_step.propose [OF lx_proposed] by (auto simp: ledger_run_step_def)
  moreover have "ledger_run_step lx_env (lx_db [lx_revision] []) (lx_db [lx_revision] [lx_approval])"
    using ledger_step.decide [OF lx_approved] by (auto simp: ledger_run_step_def)
  ultimately have run: "(ledger_run_step lx_env)\<^sup>*\<^sup>* (lx_db [] []) (lx_db [lx_revision] [lx_approval])"
    by (meson r_into_rtranclp rtranclp.rtrancl_into_rtrancl)
  have "ledger_run_step lx_env (lx_db [lx_revision] [lx_approval]) (lx_db [lx_revision] [lx_approval, lx_decision 21 ''revoked'' (ex_approved + 2 * hour)])"
    using ledger_step.decide [OF lx_revoked_later] by (auto simp: ledger_run_step_def lx_times_def)
  then have "(ledger_run_step lx_env)\<^sup>*\<^sup>* (lx_db [lx_revision] [lx_approval])
      (lx_db [lx_revision] [lx_approval, lx_decision 21 ''revoked'' (ex_approved + 2 * hour)])" by simp
  from policy_ledger_is_append_only [OF lx_start run this] lx_start show ?thesis by (simp add: lx_db_def)
qed

theorem policy_ledger_refines_life_witness:
  "revision_life (lx_db [lx_revision] [lx_approval]) 10 = Approved
     \<and> revision_life (lx_db [lx_revision] [lx_approval, lx_decision 21 ''revoked'' (ex_approved + 2 * hour)]) 10 = Revoked"
proof -
  have "no_history (fst (lx_db [] [], 0))" "ex_approved + hour < ex_approved + 2 * hour" "ex_approved + 2 * hour \<in> set lx_times"
    "ex_approved + hour - minute \<le> ex_approved + 2 * hour" using lx_start by (simp_all add: lx_times_def)
  from policy_ledger_refines_life [OF this(1) lx_run this(2), THEN conjunct2, rule_format, OF lx_revoked [OF this(3,4)]]
  obtain a x where "life_next a (revision_life (lx_db [lx_revision] [lx_approval]) 10) = Some x" "a = Revoke"
    "revision_life (lx_db [lx_revision] [lx_approval, lx_decision 21 ''revoked'' (ex_approved + 2 * hour)])
       = (revision_life (lx_db [lx_revision] [lx_approval]))(10 := x)"
    by (auto simp: lx_request_def lx_trimmed)
  moreover have "revision_life (lx_db [lx_revision] [lx_approval]) 10 = Approved"
    using lx_latest [of 20 "''approved''" "ex_approved + hour"] by (simp add: revision_life_def lx_db_def) (simp add: lx_decision_def)
  ultimately show ?thesis by simp
qed

theorem revocation_is_final_witness:
  "\<exists>p. resolveEffectiveProjectPolicy lx_env id (lx_db [lx_revision] [lx_approval, lx_decision 21 ''revoked'' (ex_approved + 2 * hour)])
       lx_project ''github://acme/api'' [] False lx_read = Inr p
     \<and> pe_string lx_env 10 \<notin> so_RevisionID ` set (rs_Sources p)"
proof -
  let ?d = "lx_decision 21 ''revoked'' (ex_approved + 2 * hour)"
  have t: "ex_approved + 2 * hour \<in> set lx_times" "ex_approved + hour - minute \<le> ex_approved + 2 * hour" by (simp_all add: lx_times_def)
  have latest: "latest_decision [lx_approval, ?d] 10 = Some ?d" by (simp add: latest_decision_def lx_decision_def)
  have v: "validateDecision lx_revision ?d lx_read = Inr ()"
    by (simp add: validateDecision_def lx_decision_def lx_revision_def lx_trimmed lx_read_def ex_approved_def Let_def)
  obtain p where "Resolve lx_parse lx_context [] lx_read = Inr p" by (rule resolve_none [OF lx_context_normal(1,3)])
  then have r: "resolveEffectiveProjectPolicy lx_env id (lx_db [lx_revision] [lx_approval, ?d]) lx_project ''github://acme/api'' [] False lx_read = Inr p"
    using lx_resolved [OF latest v] lx_selected [OF v lx_context_normal(3)] by (simp add: lx_decision_def)
  have start: "no_history (fst (lx_db [] [], 0))" by (simp add: lx_start)
  have later: "ex_approved + hour < ex_approved + 2 * hour" by simp
  have action: "ToLower (TrimSpace (rq_Action (lx_request ''revoked''))) = ''revoked''" by (simp add: lx_request_def lx_trimmed)
  have m: "\<And>xs :: decided_revision list. mset (id xs) = mset xs" by simp
  from revocation_is_final [OF start lx_run later lx_revoked [OF t] action rtranclp.rtrancl_refl lx_string_inj lx_string_trimmed m r] r
  show ?thesis by blast
qed

theorem revocation_with_earlier_clock_is_void_witness:
  "\<exists>p. DecideProjectPolicyRevision lx_env (lx_db [lx_revision] [lx_approval]) 1 ''lead'' 10 (lx_request ''revoked'') 21 (ex_approved + hour - second)
       = Inr (lx_db [lx_revision] [lx_approval, lx_decision 21 ''revoked'' (ex_approved + hour - second)], lx_decision 21 ''revoked'' (ex_approved + hour - second), True)
     \<and> resolveEffectiveProjectPolicy lx_env id (lx_db [lx_revision] [lx_approval, lx_decision 21 ''revoked'' (ex_approved + hour - second)])
         lx_project ''github://acme/api'' [] False lx_read = Inr p
     \<and> ''10'' \<in> so_RevisionID ` set (rs_Sources p)"
proof -
  let ?now = "ex_approved + hour - second"
  let ?d = "lx_decision 21 ''revoked'' ?now"
  have t: "?now \<in> set lx_times" "ex_approved + hour - minute \<le> ?now" by (simp_all add: lx_times_def)
  have l: "latest_decision (pl_decisions (lx_db [lx_revision] [lx_approval])) 10 = Some lx_approval" using lx_latest by (simp add: lx_db_def)
  have "?now < pd_OccurredAt lx_approval" by (simp add: lx_decision_def)
  from revocation_with_earlier_clock_is_void [OF lx_revoked [OF t] l this]
  have latest: "latest_decision [lx_approval, ?d] 10 = Some lx_approval" by (auto simp: lx_db_def)
  obtain p where p: "ResolveEffective lx_env id lx_context [lx_revision] [lx_approval] lx_read = Inr p"
    "so_RevisionID ` set (rs_Sources p) = {''10''}" by (rule lx_policy_in_force)
  have v: "validateDecision lx_revision lx_approval lx_read = Inr ()" by (rule lx_approval_valid) (simp add: lx_read_def)
  from lx_resolved [OF latest v] p lx_revoked [OF t] show ?thesis by simp
qed

end
