(* ===== verification/AutomationCost.thy ===== *)
theory AutomationCost
  imports GoJson "HOL-Library.AList"
begin

text \<open>
  services/automationcost: usage.go validates and aggregates the token counts a provider reports,
  ledger.go prices them. A reported value is a Go value of type \<open>any\<close>: \<open>int\<close> and \<open>int64\<close> are 64-bit
  words, a finite \<open>float64\<close> is the dyadic number \<open>m / 2 ^ e\<close>, and a \<open>map[string]any\<close> is an association
  list. Sums and products of \<open>int64\<close> wrap around, as \<open>wrap64\<close> writes out. \<open>iter\<close> is the order in
  which the code ranges over the map \<open>usageDetails\<close>. The percentages of profile.go are not modelled.
\<close>

subsection \<open>Values of 64 bits\<close>

definition wrap64 :: "int \<Rightarrow> int" where
  "wrap64 n = (n + 2 ^ 63) mod 2 ^ 64 - 2 ^ 63"

text \<open>Division truncates towards zero.\<close>

definition quot64 :: "int \<Rightarrow> int \<Rightarrow> int" where
  "quot64 a b = sgn a * sgn b * (\<bar>a\<bar> div \<bar>b\<bar>)"

subsection \<open>Reported usage\<close>

datatype usage_value =
    UNil
  | UInt "64 word"
  | UInt64 "64 word"
  | UFloat int nat
  | UPositiveInfinity
  | UNotANumber
  | UNumber string
  | UMap "(string \<times> usage_value) list"
  | UOther

type_synonym usage = "(string \<times> usage_value) list"

datatype cost_error =
    AccountingIdentity
  | InvalidTokenCount string
  | InvalidTokenDetails string
  | ConflictingAliases string
  | MissingAccounting
  | ReasoningExceedsOutput
  | CacheDoesNotReconcile
  | TokenRange
  | CacheExceedsInput
  | TotalInconsistent
  | CostRange
  | AdmissionIdentity
  | NotPriced
  | CatalogNotJSON
  | CatalogIncomplete
  | CatalogRates

definition usage_at :: "usage \<Rightarrow> string \<Rightarrow> usage_value" where
  "usage_at u k = (case map_of u k of None \<Rightarrow> UNil | Some v \<Rightarrow> v)"

definition mapValue :: "usage_value \<Rightarrow> usage" where
  "mapValue v = (case v of UMap m \<Rightarrow> m | _ \<Rightarrow> [])"

text \<open>\<open>json.Number.Int64\<close>: a value, and whether it was read without an error.\<close>

definition number_int64 :: "string \<Rightarrow> int \<times> bool" where
  "number_int64 s =
     (let neg = HasPrefix s ''-''; ds = (if neg \<or> HasPrefix s ''+'' then tl s else s);
          n = (if neg then - decimal_value ds else decimal_value ds)
      in if ds = [] \<or> \<not> list_all decimal ds then (0, False)
         else if n < - MaxInt64 - 1 then (- MaxInt64 - 1, False)
         else if MaxInt64 < n then (MaxInt64, False)
         else (n, True))"

text \<open>The conversion of a float that does not fit gives the smallest integer.\<close>

definition float_int64 :: "int \<Rightarrow> nat \<Rightarrow> int" where
  "float_int64 m e = (let n = quot64 m (2 ^ e) in if - MaxInt64 - 1 \<le> n \<and> n \<le> MaxInt64 then n else - MaxInt64 - 1)"

definition tokenCount :: "usage_value \<Rightarrow> int \<times> bool" where
  "tokenCount v =
     (case v of
        UInt w \<Rightarrow> (sint w, 0 \<le> sint w)
      | UInt64 w \<Rightarrow> (sint w, 0 \<le> sint w)
      | UFloat m e \<Rightarrow> if 0 \<le> m \<and> m < 2 ^ 63 * 2 ^ e \<and> m mod 2 ^ e = 0 then (float_int64 m e, True) else (0, False)
      | UNumber s \<Rightarrow> let (n, ok) = number_int64 s in (n, ok \<and> 0 \<le> n)
      | _ \<Rightarrow> (0, False))"

definition usage_number :: "usage_value \<Rightarrow> int option" where
  "usage_number v =
     (case v of
        UFloat m e \<Rightarrow> if 0 \<le> m then Some (float_int64 m e) else None
      | UPositiveInfinity \<Rightarrow> Some (- MaxInt64 - 1)
      | UInt64 w \<Rightarrow> if 0 \<le> sint w then Some (sint w) else None
      | UInt w \<Rightarrow> if 0 \<le> sint w then Some (sint w) else None
      | UNumber s \<Rightarrow> let (n, ok) = number_int64 s in if ok \<and> 0 \<le> n then Some n else None
      | _ \<Rightarrow> None)"

fun usageNumber :: "usage \<Rightarrow> string list \<Rightarrow> int" where
  "usageNumber u [] = 0"
| "usageNumber u (key # keys) = (case usage_number (usage_at u key) of Some n \<Rightarrow> n | None \<Rightarrow> usageNumber u keys)"

definition usageKeys :: "string list" where
  "usageKeys =
     [''input_tokens'', ''prompt_tokens'', ''prompt_token_count'', ''output_tokens'', ''completion_tokens'', ''completion_token_count'',
      ''total_tokens'', ''cache_read_input_tokens'', ''cached_input_tokens'', ''cache_read_tokens'', ''cache_creation_input_tokens'',
      ''cache_write_tokens'', ''prompt_cache_hit_tokens'', ''prompt_cache_miss_tokens'', ''reasoning_tokens'', ''thinking_tokens'']"

definition usageDetails :: "(string \<times> string list) list" where
  "usageDetails =
     [(''prompt_tokens_details'',
        [''cached_tokens'', ''cache_read_input_tokens'', ''cache_write_tokens'', ''cache_creation_input_tokens'', ''cache_creation_tokens'']),
      (''input_tokens_details'',
        [''cached_tokens'', ''cache_read_input_tokens'', ''cache_write_tokens'', ''cache_creation_input_tokens'', ''cache_creation_tokens'']),
      (''completion_tokens_details'', [''reasoning_tokens'', ''thinking_tokens'']),
      (''output_tokens_details'', [''reasoning_tokens'', ''thinking_tokens''])]"

definition cacheWriteKeys :: "string list" where
  "cacheWriteKeys = [''cache_write_tokens'', ''cache_creation_input_tokens'', ''cache_creation_tokens'']"

definition usageReported :: "usage \<Rightarrow> string list \<Rightarrow> string list \<Rightarrow> bool" where
  "usageReported raw keys parents =
     (list_ex (\<lambda>key. map_of raw key \<noteq> None) keys
      \<or> list_ex (\<lambda>parent. list_ex (\<lambda>key. map_of (mapValue (usage_at raw parent)) key \<noteq> None) keys) parents)"

definition cacheReported :: "usage \<Rightarrow> bool" where
  "cacheReported raw =
     usageReported raw [''cache_read_input_tokens'', ''cached_input_tokens'', ''cache_read_tokens'', ''prompt_cache_hit_tokens'', ''cached_tokens'']
       [''prompt_tokens_details'', ''input_tokens_details'']"

definition reasoningReported :: "usage \<Rightarrow> bool" where
  "reasoningReported raw =
     usageReported raw [''reasoning_tokens'', ''thinking_tokens''] [''completion_tokens_details'', ''output_tokens_details'']"

subsection \<open>Validation\<close>

fun validate_counts :: "usage \<Rightarrow> string list \<Rightarrow> cost_error + unit" where
  "validate_counts values [] = Inr ()"
| "validate_counts values (key # keys) =
     (case map_of values key of
        Some v \<Rightarrow> if snd (tokenCount v) then validate_counts values keys else Inl (InvalidTokenCount key)
      | None \<Rightarrow> validate_counts values keys)"

fun validate_details :: "usage \<Rightarrow> (string \<times> string list) list \<Rightarrow> cost_error + unit" where
  "validate_details raw [] = Inr ()"
| "validate_details raw ((parent, keys) # rest) =
     (case map_of raw parent of
        None \<Rightarrow> validate_details raw rest
      | Some UNil \<Rightarrow> validate_details raw rest
      | Some (UMap child) \<Rightarrow> bindE (validate_counts child keys) (\<lambda>_. validate_details raw rest)
      | Some _ \<Rightarrow> Inl (InvalidTokenDetails parent))"

definition dimensions :: "(string list \<times> string list) list" where
  "dimensions =
     [([''input_tokens'', ''prompt_tokens'', ''prompt_token_count''], []),
      ([''output_tokens'', ''completion_tokens'', ''completion_token_count''], []),
      ([''cache_read_input_tokens'', ''cached_input_tokens'', ''cache_read_tokens'', ''prompt_cache_hit_tokens'', ''cached_tokens''],
        [''input_tokens_details'', ''prompt_tokens_details'']),
      ([''cache_creation_input_tokens'', ''cache_write_tokens'', ''cache_creation_tokens''], [''input_tokens_details'', ''prompt_tokens_details'']),
      ([''reasoning_tokens'', ''thinking_tokens''], [''output_tokens_details'', ''completion_tokens_details''])]"

text \<open>The values reported for one dimension, in the order in which the code meets them.\<close>

definition reported_values :: "usage \<Rightarrow> string list \<times> string list \<Rightarrow> (string \<times> usage_value) list" where
  "reported_values raw = (\<lambda>(keys, parents).
     concat (map (\<lambda>values. concat (map (\<lambda>key. case map_of values key of None \<Rightarrow> [] | Some v \<Rightarrow> [(key, v)]) keys))
       (raw # map (\<lambda>parent. mapValue (usage_at raw parent)) parents)))"

fun check_aliases :: "(string \<times> usage_value) list \<Rightarrow> int option \<Rightarrow> cost_error + unit" where
  "check_aliases [] previous = Inr ()"
| "check_aliases ((key, v) # rest) previous =
     (let (count, valid) = tokenCount v
      in if \<not> valid then Inl (InvalidTokenCount key)
         else if previous \<noteq> None \<and> previous \<noteq> Some count then Inl (ConflictingAliases key)
         else check_aliases rest (Some count))"

fun check_dimensions :: "usage \<Rightarrow> (string list \<times> string list) list \<Rightarrow> cost_error + unit" where
  "check_dimensions raw [] = Inr ()"
| "check_dimensions raw (d # ds) = bindE (check_aliases (reported_values raw d) None) (\<lambda>_. check_dimensions raw ds)"

type_synonym details_order = "(string \<times> string list) list \<Rightarrow> (string \<times> string list) list"

definition ValidateTokenUsage :: "details_order \<Rightarrow> usage \<Rightarrow> cost_error + unit" where
  "ValidateTokenUsage iter raw =
     bindE (validate_counts raw usageKeys) (\<lambda>_.
     bindE (validate_details raw (iter usageDetails)) (\<lambda>_.
     check_dimensions raw dimensions))"

definition VerifyTokenUsage :: "details_order \<Rightarrow> usage \<Rightarrow> cost_error + unit" where
  "VerifyTokenUsage iter raw =
     bindE (ValidateTokenUsage iter raw) (\<lambda>_.
       if list_all (\<lambda>keys. list_ex (\<lambda>key. map_of raw key \<noteq> None) keys)
            [[''input_tokens'', ''prompt_tokens'', ''prompt_token_count''], [''output_tokens'', ''completion_tokens'', ''completion_token_count'']]
       then Inr () else Inl MissingAccounting)"

text \<open>The known fields with valid counts.\<close>

definition clean_counts :: "usage \<Rightarrow> string list \<Rightarrow> usage" where
  "clean_counts values keys =
     concat (map (\<lambda>key. case map_of values key of
        Some v \<Rightarrow> if snd (tokenCount v) then [(key, v)] else [] | None \<Rightarrow> []) keys)"

definition TokenUsage :: "details_order \<Rightarrow> usage \<Rightarrow> usage" where
  "TokenUsage iter raw =
     clean_counts raw usageKeys
     @ concat (map (\<lambda>(parent, keys). case map_of raw parent of
         Some (UMap child) \<Rightarrow> let filtered = clean_counts child keys in if filtered = [] then [] else [(parent, UMap filtered)]
       | _ \<Rightarrow> []) (iter usageDetails))"

subsection \<open>Prices\<close>

record rates =
  rt_Input :: int
  rt_Output :: int
  rt_Cached :: int
  rt_CacheWrite :: int

record catalog =
  ct_Version :: string
  ct_Basis :: string
  ct_Models :: "(string \<times> rates) list"

definition no_rates :: rates where
  "no_rates = \<lparr>rt_Input = 0, rt_Output = 0, rt_Cached = 0, rt_CacheWrite = 0\<rparr>"

abbreviation rates_of :: "int \<Rightarrow> int \<Rightarrow> int \<Rightarrow> int \<Rightarrow> rates" where
  "rates_of i oo c w \<equiv> \<lparr>rt_Input = i, rt_Output = oo, rt_Cached = c, rt_CacheWrite = w\<rparr>"

definition default_catalog :: catalog where
  "default_catalog =
     \<lparr>ct_Version = ''official-text-prices-2026-09-23'', ct_Basis = ''official_api_price'',
      ct_Models =
        [(''minimax:minimax-m3'', rates_of 600000 2400000 120000 0),
         (''minimax:minimax-m2.7'', rates_of 300000 1200000 60000 375000),
         (''minimax:minimax-m2.7-highspeed'', rates_of 600000 2400000 60000 375000),
         (''deepseek:deepseek-flash'', rates_of 300000 1200000 6000 0),
         (''deepseek:deepseek-v4-pro'', rates_of 1320000 3960000 44000 0),
         (''openai:gpt-6-astra'', rates_of 5000000 25000000 500000 6250000),
         (''openai:gpt-6-sol'', rates_of 1000000 5000000 100000 1250000),
         (''openai:gpt-6-luna'', rates_of 50000 250000 5000 62500),
         (''openai:gpt-5.3-codex'', rates_of 1750000 14000000 175000 0),
         (''anthropic:claude-opus-4-1-20250805'', rates_of 15000000 75000000 1500000 18750000),
         (''anthropic:claude-opus-4-20250514'', rates_of 15000000 75000000 1500000 18750000),
         (''anthropic:claude-sonnet-4-20250514'', rates_of 3000000 15000000 300000 3750000),
         (''anthropic:claude-3-7-sonnet-20250219'', rates_of 3000000 15000000 300000 3750000),
         (''anthropic:claude-3-5-haiku-20241022'', rates_of 800000 4000000 80000 1000000)]\<rparr>"

text \<open>A JSON object into a map: the entries already there stay, a repeated key is overwritten.\<close>

fun un_entries :: "'a \<Rightarrow> 'a decoder \<Rightarrow> (string \<times> jvalue) list \<Rightarrow> (string \<times> 'a) list \<Rightarrow> (string \<times> 'a) list option" where
  "un_entries zero dec [] m = Some m"
| "un_entries zero dec ((k, v) # vs) m = (case dec v zero of None \<Rightarrow> None | Some x \<Rightarrow> un_entries zero dec vs (AList.update k x m))"

definition un_map :: "'a \<Rightarrow> 'a decoder \<Rightarrow> (string \<times> 'a) list decoder" where
  "un_map zero dec v old = (case v of VObj ms \<Rightarrow> un_entries zero dec ms old | VNull \<Rightarrow> Some [] | _ \<Rightarrow> None)"

definition rates_fields :: "rates field_decoders" where
  "rates_fields =
     [(''input_microusd_per_million'', in_field rt_Input (\<lambda>x. rt_Input_update (\<lambda>_. x)) un_int),
      (''output_microusd_per_million'', in_field rt_Output (\<lambda>x. rt_Output_update (\<lambda>_. x)) un_int),
      (''cached_microusd_per_million'', in_field rt_Cached (\<lambda>x. rt_Cached_update (\<lambda>_. x)) un_int),
      (''cache_write_microusd_per_million'', in_field rt_CacheWrite (\<lambda>x. rt_CacheWrite_update (\<lambda>_. x)) un_int)]"

definition catalog_fields :: "catalog field_decoders" where
  "catalog_fields =
     [(''version'', in_field ct_Version (\<lambda>x. ct_Version_update (\<lambda>_. x)) un_string),
      (''basis'', in_field ct_Basis (\<lambda>x. ct_Basis_update (\<lambda>_. x)) un_string),
      (''models'', in_field ct_Models (\<lambda>x. ct_Models_update (\<lambda>_. x)) (un_map no_rates (un_struct False rates_fields)))]"

definition catalogFor :: "string \<Rightarrow> cost_error + catalog" where
  "catalogFor configured =
     (if TrimSpace configured = [] then Inr default_catalog
      else case json_unmarshal (un_struct False catalog_fields) \<lparr>ct_Version = [], ct_Basis = [], ct_Models = []\<rparr> configured of
          None \<Rightarrow> Inl CatalogNotJSON
        | Some c \<Rightarrow>
            if TrimSpace (ct_Version c) = [] \<or> TrimSpace (ct_Basis c) = [] \<or> ct_Models c = [] then Inl CatalogIncomplete
            else if list_ex (\<lambda>(key, r). TrimSpace key = [] \<or> rt_Input r < 0 \<or> rt_Output r < 0 \<or> rt_Cached r < 0 \<or> rt_CacheWrite r < 0)
              (ct_Models c) then Inl CatalogRates
            else Inr c)"

definition rates_for :: "catalog \<Rightarrow> string \<Rightarrow> string \<Rightarrow> rates option" where
  "rates_for c provider model =
     (case map_of (ct_Models c) (provider @ '':'' @ model) of
        Some r \<Rightarrow> Some r
      | None \<Rightarrow> map_of (ct_Models c) (provider @ '':*''))"

definition RatesFor :: "string \<Rightarrow> string \<Rightarrow> string \<Rightarrow> cost_error + rates \<times> bool" where
  "RatesFor provider model configured =
     bindE (catalogFor configured) (\<lambda>c.
       case rates_for c (ToLower (TrimSpace provider)) (ToLower (TrimSpace model)) of
         Some r \<Rightarrow> Inr (r, True)
       | None \<Rightarrow> Inr (no_rates, False))"

definition perMillion :: int where "perMillion = 1000000"

definition cost :: "int \<Rightarrow> int \<Rightarrow> cost_error + int" where
  "cost tokens rate =
     (if tokens \<le> 0 \<or> rate \<le> 0 then Inr 0
      else if quot64 (MaxInt64 - quot64 perMillion 2) rate < tokens then Inl CostRange
      else Inr (quot64 (wrap64 (wrap64 (tokens * rate) + quot64 perMillion 2)) perMillion))"

fun sum_from :: "int \<Rightarrow> int list \<Rightarrow> cost_error + int" where
  "sum_from acc [] = Inr acc"
| "sum_from acc (v # vs) = (if v < 0 \<or> wrap64 (MaxInt64 - v) < acc then Inl CostRange else sum_from (wrap64 (acc + v)) vs)"

definition sumNonNegative :: "int list \<Rightarrow> cost_error + int" where
  "sumNonNegative values = sum_from 0 values"

definition sumCost :: "int list \<Rightarrow> cost_error + int" where
  "sumCost values = sumNonNegative values"

subsection \<open>The ledger of one call\<close>

record cost_ledger =
  lg_InputTokens :: int
  lg_OutputTokens :: int
  lg_CachedInputTokens :: int
  lg_CacheWriteTokens :: int
  lg_ReasoningTokens :: int
  lg_TotalTokens :: int
  lg_InputCostMicros :: int
  lg_OutputCostMicros :: int
  lg_CachedCostMicros :: int
  lg_CacheWriteCostMicros :: int
  lg_TotalCostMicros :: int
  lg_PricingBasis :: string
  lg_PricingSnapshot :: string

definition reported_ledger :: "usage \<Rightarrow> cost_ledger" where
  "reported_ledger u =
     \<lparr>lg_InputTokens = usageNumber u [''input_tokens'', ''prompt_tokens'', ''prompt_token_count''],
      lg_OutputTokens = usageNumber u [''output_tokens'', ''completion_tokens'', ''completion_token_count''],
      lg_CachedInputTokens =
        usageNumber u [''cache_read_input_tokens'', ''cached_input_tokens'', ''cache_read_tokens'', ''prompt_cache_hit_tokens''],
      lg_CacheWriteTokens = usageNumber u [''cache_creation_input_tokens'', ''cache_write_tokens''],
      lg_ReasoningTokens = usageNumber u [''reasoning_tokens'', ''thinking_tokens''],
      lg_TotalTokens = usageNumber u [''total_tokens''],
      lg_InputCostMicros = 0, lg_OutputCostMicros = 0, lg_CachedCostMicros = 0, lg_CacheWriteCostMicros = 0, lg_TotalCostMicros = 0,
      lg_PricingBasis = ''unpriced'', lg_PricingSnapshot = []\<rparr>"

text \<open>A counter that is still zero is read from the details, the first object first.\<close>

definition or_nested :: "usage \<Rightarrow> string list \<Rightarrow> string list \<Rightarrow> int \<Rightarrow> int" where
  "or_nested u parents keys n =
     foldl (\<lambda>n parent. if n = 0 then usageNumber (mapValue (usage_at u parent)) keys else n) n parents"

definition nested_ledger :: "usage \<Rightarrow> cost_ledger \<Rightarrow> cost_ledger" where
  "nested_ledger u l =
     l\<lparr>lg_CachedInputTokens :=
         or_nested u [''prompt_tokens_details'', ''input_tokens_details''] [''cached_tokens'', ''cache_read_input_tokens''] (lg_CachedInputTokens l),
       lg_CacheWriteTokens :=
         or_nested u [''prompt_tokens_details'', ''input_tokens_details'']
           [''cache_write_tokens'', ''cache_creation_input_tokens'', ''cache_creation_tokens''] (lg_CacheWriteTokens l),
       lg_ReasoningTokens :=
         or_nested u [''completion_tokens_details'', ''output_tokens_details''] [''reasoning_tokens'', ''thinking_tokens'']
           (lg_ReasoningTokens l)\<rparr>"

text \<open>Native Messages usage leaves the cache out of the input.\<close>

definition native_input :: "string \<Rightarrow> usage \<Rightarrow> bool" where
  "native_input provider u =
     ((provider = ''anthropic'' \<or> provider = ''opencode-go'')
      \<and> usage_at u ''cached_input_tokens'' = UNil \<and> usage_at u ''prompt_tokens'' = UNil \<and> usage_at u ''input_tokens_details'' = UNil
      \<and> (usage_at u ''cache_creation_input_tokens'' \<noteq> UNil \<or> usage_at u ''cache_read_input_tokens'' \<noteq> UNil))"

definition reconciled_input :: "string \<Rightarrow> usage \<Rightarrow> cost_ledger \<Rightarrow> cost_error + cost_ledger" where
  "reconciled_input provider u l =
     (if native_input provider u
      then bindE (sumNonNegative [lg_InputTokens l, lg_CachedInputTokens l, lg_CacheWriteTokens l]) (\<lambda>n. Inr (l\<lparr>lg_InputTokens := n\<rparr>))
      else Inr l)"

definition hits_and_misses_ok :: "usage \<Rightarrow> cost_ledger \<Rightarrow> bool" where
  "hits_and_misses_ok u l =
     (case (map_of u ''prompt_cache_hit_tokens'', map_of u ''prompt_cache_miss_tokens'') of
        (Some hit, Some miss) \<Rightarrow> sumNonNegative [fst (tokenCount hit), fst (tokenCount miss)] = Inr (lg_InputTokens l)
      | _ \<Rightarrow> True)"

definition with_total :: "cost_ledger \<Rightarrow> cost_error + cost_ledger" where
  "with_total l =
     (case sumNonNegative [lg_InputTokens l, lg_OutputTokens l] of
        Inl _ \<Rightarrow> Inl TokenRange
      | Inr minimumTotal \<Rightarrow>
          let l' = (if lg_TotalTokens l = 0 then l\<lparr>lg_TotalTokens := minimumTotal\<rparr> else l)
          in case sumNonNegative [lg_CachedInputTokens l', lg_CacheWriteTokens l'] of
               Inl _ \<Rightarrow> Inl CacheExceedsInput
             | Inr cacheInput \<Rightarrow>
                 if lg_InputTokens l' < cacheInput then Inl CacheExceedsInput
                 else if lg_TotalTokens l' < minimumTotal then Inl TotalInconsistent
                 else Inr l')"

definition priced_ledger :: "catalog \<Rightarrow> rates \<Rightarrow> cost_ledger \<Rightarrow> cost_error + cost_ledger" where
  "priced_ledger c r l =
     (let billableInput = wrap64 (wrap64 (lg_InputTokens l - lg_CachedInputTokens l) - lg_CacheWriteTokens l)
      in bindE (cost billableInput (rt_Input r)) (\<lambda>i.
         bindE (cost (lg_OutputTokens l) (rt_Output r)) (\<lambda>oo.
         bindE (cost (lg_CachedInputTokens l) (rt_Cached r)) (\<lambda>h.
         bindE (cost (lg_CacheWriteTokens l) (rt_CacheWrite r)) (\<lambda>w.
         bindE (sumCost [i, oo, h, w]) (\<lambda>t.
           Inr (l\<lparr>lg_InputCostMicros := i, lg_OutputCostMicros := oo, lg_CachedCostMicros := h, lg_CacheWriteCostMicros := w,
                  lg_TotalCostMicros := t, lg_PricingBasis := ct_Basis c\<rparr>)))))))"

definition rates_json :: "rates \<Rightarrow> json" where
  "rates_json r =
     JObj [(''input_microusd_per_million'', JInt (rt_Input r)), (''output_microusd_per_million'', JInt (rt_Output r)),
           (''cached_microusd_per_million'', JInt (rt_Cached r)), (''cache_write_microusd_per_million'', JInt (rt_CacheWrite r))]"

text \<open>\<open>json.Marshal\<close> sorts the keys of a map.\<close>

definition pricing_snapshot :: "catalog \<Rightarrow> string \<Rightarrow> string \<Rightarrow> rates \<Rightarrow> string" where
  "pricing_snapshot c provider model r =
     json_encode (JObj [(''basis'', JStr (ct_Basis c)), (''catalog_version'', JStr (ct_Version c)), (''model'', JStr model),
       (''provider'', JStr provider), (''rates_microusd_per_million'', rates_json r)])"

definition Build :: "details_order \<Rightarrow> string \<Rightarrow> string \<Rightarrow> usage \<Rightarrow> string \<Rightarrow> cost_error + cost_ledger" where
  "Build iter provider0 model0 u configured =
     (let provider = ToLower (TrimSpace provider0); model = ToLower (TrimSpace model0)
      in if provider = [] \<or> model = [] then Inl AccountingIdentity
         else bindE (ValidateTokenUsage iter u) (\<lambda>_.
              bindE (catalogFor configured) (\<lambda>c.
              bindE (reconciled_input provider u (nested_ledger u (reported_ledger u))) (\<lambda>l.
                if lg_OutputTokens l < lg_ReasoningTokens l then Inl ReasoningExceedsOutput
                else if \<not> hits_and_misses_ok u l then Inl CacheDoesNotReconcile
                else bindE (with_total l) (\<lambda>l1.
                     let priced = rates_for c provider model
                     in bindE (case priced of None \<Rightarrow> Inr l1 | Some r \<Rightarrow> priced_ledger c r l1) (\<lambda>l2.
                        Inr (l2\<lparr>lg_PricingSnapshot :=
                          pricing_snapshot c provider model (case priced of None \<Rightarrow> no_rates | Some r \<Rightarrow> r)\<rparr>)))))))"

subsection \<open>Admission\<close>

definition input_rate :: "rates \<Rightarrow> int" where
  "input_rate r =
     (let a = rt_Input r; b = (if a < rt_Cached r then rt_Cached r else a) in if b < rt_CacheWrite r then rt_CacheWrite r else b)"

definition EstimateUpperBound :: "string \<Rightarrow> string \<Rightarrow> 64 word \<Rightarrow> 64 word \<Rightarrow> string \<Rightarrow> cost_error + int" where
  "EstimateUpperBound provider0 model0 inputBytes maxCompletionTokens configured =
     (let provider = ToLower (TrimSpace provider0); model = ToLower (TrimSpace model0)
      in if provider = [] \<or> model = [] \<or> sint inputBytes < 0 \<or> sint maxCompletionTokens < 0 then Inl AdmissionIdentity
         else bindE (catalogFor configured) (\<lambda>c.
           case rates_for c provider model of
             None \<Rightarrow> Inl NotPriced
           | Some r \<Rightarrow>
               bindE (cost (sint inputBytes) (input_rate r)) (\<lambda>inputCost.
               bindE (cost (sint maxCompletionTokens) (rt_Output r)) (\<lambda>outputCost.
                 sumCost [inputCost, outputCost]))))"

subsection \<open>Several calls\<close>

definition usageOnlyCatalog :: string where
  "usageOnlyCatalog =
     ''{'' @ [CHR 0x22] @ ''version'' @ [CHR 0x22] @ '':'' @ [CHR 0x22] @ ''usage-only'' @ [CHR 0x22] @ '','' @ [CHR 0x22] @ ''basis'' @ [CHR 0x22]
     @ '':'' @ [CHR 0x22] @ ''unpriced'' @ [CHR 0x22] @ '','' @ [CHR 0x22] @ ''models'' @ [CHR 0x22] @ '':{'' @ [CHR 0x22] @ ''usage-only:*''
     @ [CHR 0x22] @ '':{}}}''"

definition ledger_counts :: "cost_ledger \<Rightarrow> (string \<times> int) list" where
  "ledger_counts l =
     [(''input_tokens'', lg_InputTokens l), (''output_tokens'', lg_OutputTokens l), (''total_tokens'', lg_TotalTokens l),
      (''cached_input_tokens'', lg_CachedInputTokens l), (''cache_write_tokens'', lg_CacheWriteTokens l),
      (''reasoning_tokens'', lg_ReasoningTokens l)]"

fun add_counts :: "(string \<times> int) list \<Rightarrow> usage \<Rightarrow> cost_error + usage" where
  "add_counts [] result = Inr result"
| "add_counts ((key, c) # rest) result =
     bindE (sumNonNegative [fst (tokenCount (usage_at result key)), c]) (\<lambda>n.
       add_counts rest (AList.update key (UInt64 (word_of_int n)) result))"

fun add_calls :: "details_order \<Rightarrow> string \<Rightarrow> string \<Rightarrow> usage list \<Rightarrow> usage \<Rightarrow> cost_error + usage" where
  "add_calls iter provider model [] result = Inr result"
| "add_calls iter provider model (u # us) result =
     bindE (Build iter provider model u usageOnlyCatalog) (\<lambda>l.
     bindE (add_counts (ledger_counts l) result) (\<lambda>result'.
       add_calls iter provider model us result'))"

definition writesReported :: "usage \<Rightarrow> bool" where
  "writesReported u = usageReported u cacheWriteKeys [''prompt_tokens_details'', ''input_tokens_details'']"

definition AggregateUsage :: "details_order \<Rightarrow> string \<Rightarrow> string \<Rightarrow> usage list \<Rightarrow> cost_error + usage" where
  "AggregateUsage iter provider model calls =
     bindE (add_calls iter provider model calls []) (\<lambda>result.
       let r1 = (if list_all cacheReported calls then result else AList.delete ''cached_input_tokens'' result);
           r2 = (if list_all reasoningReported calls then r1 else AList.delete ''reasoning_tokens'' r1)
       in Inr (if list_all writesReported calls then r2 else AList.delete ''cache_write_tokens'' r2))"

end
