(* ===== verification/AutomationCostProps.thy ===== *)
theory AutomationCostProps
  imports AutomationCost
begin

text \<open>
  Properties of the cost accounting: the arithmetic never wraps around, the ledger reconciles, the
  admission hold covers the cost up to one micro-dollar of rounding, and validation and aggregation do
  exactly what they are for.
\<close>

subsection \<open>Arithmetic\<close>

lemma wrap64_id: "- MaxInt64 - 1 \<le> n \<Longrightarrow> n \<le> MaxInt64 \<Longrightarrow> wrap64 n = n"
  by (simp add: wrap64_def)

lemma quot64_pos: "0 \<le> a \<Longrightarrow> 0 < b \<Longrightarrow> quot64 a b = a div b"
  by (cases "a = 0") (simp_all add: quot64_def)

lemma quot64_half: "quot64 perMillion 2 = 500000"
  by (simp add: perMillion_def quot64_def)

lemma sum_from_Inr:
  assumes "0 \<le> acc" "acc \<le> MaxInt64" "\<forall>v \<in> set vs. v \<le> MaxInt64"
  shows "sum_from acc vs = Inr t \<longleftrightarrow> (\<forall>v \<in> set vs. 0 \<le> v) \<and> acc + sum_list vs \<le> MaxInt64 \<and> t = acc + sum_list vs"
  using assms
proof (induction vs arbitrary: acc)
  case (Cons v vs)
  show ?case
  proof (cases "0 \<le> v \<and> acc + v \<le> MaxInt64")
    case True
    with Cons show ?thesis by (simp add: wrap64_id algebra_simps)
  next
    case False
    have "(\<forall>v \<in> set vs. 0 \<le> v) \<Longrightarrow> 0 \<le> sum_list vs" by (induction vs) auto
    with False Cons.prems show ?thesis by (auto simp: wrap64_id)
  qed
qed auto

lemma sumNonNegative_Inr:
  "\<forall>v \<in> set vs. v \<le> MaxInt64 \<Longrightarrow>
     sumNonNegative vs = Inr t \<longleftrightarrow> (\<forall>v \<in> set vs. 0 \<le> v) \<and> sum_list vs \<le> MaxInt64 \<and> t = sum_list vs"
  by (simp add: sumNonNegative_def sum_from_Inr)

text \<open>The price of some tokens in micro-dollars, rounded half up, over unbounded integers.\<close>

definition micro_cost :: "int \<Rightarrow> int \<Rightarrow> int" where
  "micro_cost n r = (max 0 n * max 0 r + 500000) div 1000000"

lemma cost_Inr: "cost n r = Inr c \<Longrightarrow> c = micro_cost n r \<and> 0 \<le> c \<and> c \<le> MaxInt64"
proof (cases "n \<le> 0 \<or> r \<le> 0")
  case True
  assume "cost n r = Inr c"
  with True show ?thesis by (auto simp: cost_def micro_cost_def max_def)
next
  case False
  assume "cost n r = Inr c"
  with False have le: "n \<le> (MaxInt64 - 500000) div r" and c: "c = quot64 (wrap64 (wrap64 (n * r) + 500000)) perMillion"
    by (auto simp: cost_def quot64_half quot64_pos split: if_splits)
  have "n * r \<le> (MaxInt64 - 500000) div r * r" using le False by (intro mult_right_mono) auto
  also have "\<dots> \<le> MaxInt64 - 500000" using False by (simp add: minus_mod_eq_div_mult [symmetric])
  finally have "n * r \<le> MaxInt64 - 500000" .
  moreover have "0 \<le> n * r" using False by simp
  moreover from calculation have "0 \<le> (n * r + 500000) div 1000000" "(n * r + 500000) div 1000000 \<le> MaxInt64" by linarith+
  ultimately show ?thesis using c False by (simp add: wrap64_id quot64_pos micro_cost_def perMillion_def max_def)
qed

lemma micro_cost_mono: "n \<le> m \<Longrightarrow> r \<le> q \<Longrightarrow> micro_cost n r \<le> micro_cost m q"
  unfolding micro_cost_def by (intro zdiv_mono1 add_right_mono mult_mono) auto

lemma micro_cost_parts:
  assumes "0 \<le> a" "0 \<le> b" "0 \<le> c" "ra \<le> q" "rb \<le> q" "rc \<le> q"
  shows "micro_cost a ra + micro_cost b rb + micro_cost c rc \<le> micro_cost (a + b + c) q + 1"
proof -
  define A B C H where d: "A = max 0 a * max 0 ra" "B = max 0 b * max 0 rb" "C = max 0 c * max 0 rc" "H = max 0 (a + b + c) * max 0 q"
  have "A \<le> max 0 a * max 0 q" "B \<le> max 0 b * max 0 q" "C \<le> max 0 c * max 0 q"
    unfolding d using assms by (auto intro!: mult_left_mono)
  then have "A + B + C \<le> H" using assms by (simp add: d algebra_simps)
  then show ?thesis unfolding micro_cost_def d [symmetric] by linarith
qed

subsection \<open>Counts\<close>

lemma sint64_range: "- MaxInt64 - 1 \<le> sint (w :: 64 word) \<and> sint w \<le> MaxInt64"
  using sint_ge [of w] sint_lt [of w] by simp

lemma float_int64_range: "- MaxInt64 - 1 \<le> float_int64 m e \<and> float_int64 m e \<le> MaxInt64"
  by (simp add: float_int64_def Let_def)

lemma number_int64_range: "number_int64 s = (n, ok) \<Longrightarrow> - MaxInt64 - 1 \<le> n \<and> n \<le> MaxInt64"
  by (auto simp: number_int64_def Let_def split: if_splits)

lemma usage_number_range: "usage_number v = Some n \<Longrightarrow> n \<le> MaxInt64"
  using sint64_range float_int64_range
  by (auto simp: usage_number_def split: usage_value.splits if_splits prod.splits dest: number_int64_range)

lemma usageNumber_le: "usageNumber u keys \<le> MaxInt64"
  by (induction u keys rule: usageNumber.induct) (auto split: option.splits dest: usage_number_range)

lemma tokenCount_range: "- MaxInt64 - 1 \<le> fst (tokenCount v) \<and> fst (tokenCount v) \<le> MaxInt64"
  using sint64_range float_int64_range
  by (auto simp: tokenCount_def split: usage_value.splits prod.splits dest: number_int64_range)

lemma float_int64_nonneg: "0 \<le> m \<Longrightarrow> m < 2 ^ 63 * 2 ^ e \<Longrightarrow> 0 \<le> float_int64 m e"
proof -
  assume m: "0 \<le> m" "m < 2 ^ 63 * 2 ^ e"
  have "m div 2 ^ e < 2 ^ 63"
  proof (rule ccontr)
    assume "\<not> m div 2 ^ e < 2 ^ 63"
    then have "2 ^ 63 * 2 ^ e \<le> m div 2 ^ e * 2 ^ e" by (intro mult_right_mono) auto
    also have "\<dots> \<le> m" by (simp add: minus_mod_eq_div_mult [symmetric])
    finally show False using m by simp
  qed
  moreover have "0 \<le> m div 2 ^ e" using m by (simp add: pos_imp_zdiv_nonneg_iff)
  ultimately show ?thesis using m by (simp add: float_int64_def quot64_pos Let_def)
qed

lemma usage_number_nonneg: "snd (tokenCount v) \<Longrightarrow> usage_number v = Some n \<Longrightarrow> 0 \<le> n"
  by (auto simp: usage_number_def tokenCount_def float_int64_nonneg split: usage_value.splits if_splits prod.splits)

lemma usageNumber_nonneg:
  "\<forall>key \<in> set keys. \<forall>v. map_of u key = Some v \<longrightarrow> snd (tokenCount v) \<Longrightarrow> 0 \<le> usageNumber u keys"
proof (induction u keys rule: usageNumber.induct)
  case (2 u key keys)
  then show ?case
    by (cases "map_of u key") (auto simp: usage_at_def usage_number_def [of UNil] split: option.splits intro: usage_number_nonneg)
qed simp

subsection \<open>What validation accepts\<close>

lemma validate_counts_iff:
  "validate_counts m keys = Inr () \<longleftrightarrow> (\<forall>key \<in> set keys. \<forall>v. map_of m key = Some v \<longrightarrow> snd (tokenCount v))"
  by (induction m keys rule: validate_counts.induct) (auto split: option.splits)

definition details_ok :: "usage \<Rightarrow> string \<Rightarrow> string list \<Rightarrow> bool" where
  "details_ok raw parent keys \<longleftrightarrow>
     (case map_of raw parent of
        None \<Rightarrow> True
      | Some v \<Rightarrow> v = UNil
          \<or> (\<exists>child. v = UMap child \<and> (\<forall>key \<in> set keys. \<forall>x. map_of child key = Some x \<longrightarrow> snd (tokenCount x))))"

lemma validate_details_iff:
  "validate_details raw ds = Inr () \<longleftrightarrow> (\<forall>(parent, keys) \<in> set ds. details_ok raw parent keys)"
  by (induction raw ds rule: validate_details.induct)
     (auto simp: details_ok_def bindE_Inr_iff validate_counts_iff split: option.splits usage_value.splits)

lemma check_aliases_iff:
  "check_aliases vs p = Inr () \<longleftrightarrow>
     (\<exists>n. (\<forall>(key, v) \<in> set vs. tokenCount v = (n, True)) \<and> (case p of None \<Rightarrow> True | Some m \<Rightarrow> vs = [] \<or> m = n))"
proof (induction vs p rule: check_aliases.induct)
  case (2 key v rest p)
  obtain c ok where v: "tokenCount v = (c, ok)" by (cases "tokenCount v")
  show ?case
  proof (cases "ok \<and> (p = None \<or> p = Some c)")
    case True
    with 2 [OF v [symmetric] refl] v show ?thesis by (cases "rest = []") (auto split: option.splits)
  next
    case False
    with v show ?thesis by (auto split: option.splits)
  qed
qed (auto split: option.splits)

lemma check_dimensions_iff:
  "check_dimensions raw ds = Inr () \<longleftrightarrow>
     (\<forall>d \<in> set ds. \<exists>n. \<forall>(key, v) \<in> set (reported_values raw d). tokenCount v = (n, True))"
  by (induction raw ds rule: check_dimensions.induct) (auto simp: bindE_Inr_iff check_aliases_iff)

text \<open>A dimension is reported at the top, or in one of the details objects.\<close>

definition reports :: "usage \<Rightarrow> string list \<times> string list \<Rightarrow> usage_value \<Rightarrow> bool" where
  "reports raw d v \<longleftrightarrow>
     (\<exists>key \<in> set (fst d). map_of raw key = Some v
       \<or> (\<exists>parent \<in> set (snd d). \<exists>child. map_of raw parent = Some (UMap child) \<and> map_of child key = Some v))"

lemma mapValue_at: "map_of (mapValue (usage_at raw parent)) key = Some v \<longleftrightarrow> (\<exists>child. map_of raw parent = Some (UMap child) \<and> map_of child key = Some v)"
  by (auto simp: mapValue_def usage_at_def split: option.splits usage_value.splits)

lemma reported_values_iff: "(\<exists>key. (key, v) \<in> set (reported_values raw d)) \<longleftrightarrow> reports raw d v"
proof -
  obtain keys parents where d: "d = (keys, parents)" by (cases d)
  have m: "(k, v) \<in> set (case map_of m key of None \<Rightarrow> [] | Some x \<Rightarrow> [(key, x)]) \<longleftrightarrow> k = key \<and> map_of m key = Some v" for k key m
    by (auto split: option.splits)
  have "(\<exists>key. (key, v) \<in> set (reported_values raw d)) \<longleftrightarrow>
      (\<exists>key \<in> set keys. map_of raw key = Some v \<or> (\<exists>parent \<in> set parents. map_of (mapValue (usage_at raw parent)) key = Some v))"
    by (simp add: reported_values_def d m) metis
  then show ?thesis by (simp add: mapValue_at reports_def d)
qed

lemma validation_iff:
  assumes "set (iter usageDetails) = set usageDetails"
  shows "ValidateTokenUsage iter raw = Inr () \<longleftrightarrow>
     (\<forall>key \<in> set usageKeys. \<forall>v. map_of raw key = Some v \<longrightarrow> snd (tokenCount v))
     \<and> (\<forall>(parent, keys) \<in> set usageDetails. details_ok raw parent keys)
     \<and> (\<forall>d \<in> set dimensions. \<exists>n. \<forall>v. reports raw d v \<longrightarrow> tokenCount v = (n, True))"
proof -
  have "(\<forall>(key, v) \<in> set (reported_values raw d). tokenCount v = (n, True)) \<longleftrightarrow> (\<forall>v. reports raw d v \<longrightarrow> tokenCount v = (n, True))" for d n
    unfolding reported_values_iff [symmetric] by auto
  with assms show ?thesis by (simp add: ValidateTokenUsage_def bindE_Inr_iff validate_counts_iff validate_details_iff check_dimensions_iff)
qed

text \<open>
  What a count is, apart from how the code reads it: a value that stands for a non-negative integer below 2 to the power of 63. A word
  is read as a signed number, \<open>m / 2 ^ e\<close> is an integer if \<open>m\<close> is the multiple, and a literal is digits with perhaps a sign, where
  only zero may have a minus.
\<close>

definition carries_count :: "usage_value \<Rightarrow> nat \<Rightarrow> bool" where
  "carries_count v n \<longleftrightarrow> n < 2 ^ 63
     \<and> (case v of
          UInt w \<Rightarrow> sint w = int n
        | UInt64 w \<Rightarrow> sint w = int n
        | UFloat m e \<Rightarrow> m = int n * 2 ^ e
        | UNumber s \<Rightarrow>
            \<exists>sign digits. s = sign @ digits \<and> digits \<noteq> [] \<and> list_all decimal digits \<and> decimal_value digits = int n
              \<and> (sign = [] \<or> sign = ''+'' \<or> sign = ''-'' \<and> n = 0)
        | _ \<Rightarrow> False)"

lemma decimal_value_nonneg: "list_all decimal ds \<Longrightarrow> 0 \<le> decimal_value ds"
proof (induction ds rule: rev_induct)
  case (snoc c ds)
  then have "48 \<le> (of_char c :: nat)" by (simp add: decimal_def less_eq_char_def)
  with snoc show ?case by (simp add: decimal_value_snoc)
qed (simp add: decimal_value_def)

lemma decimal_not_sign: "decimal c \<Longrightarrow> c \<noteq> CHR ''-'' \<and> c \<noteq> CHR ''+''"
proof -
  have "\<not> decimal (CHR ''-'')" "\<not> decimal (CHR ''+'')" by code_simp+
  then show "decimal c \<Longrightarrow> c \<noteq> CHR ''-'' \<and> c \<noteq> CHR ''+''" by metis
qed

lemma number_count:
  "(number_int64 s = (int n, True)) \<longleftrightarrow> n < 2 ^ 63 \<and>
     (\<exists>sign digits. s = sign @ digits \<and> digits \<noteq> [] \<and> list_all decimal digits \<and> decimal_value digits = int n
        \<and> (sign = [] \<or> sign = ''+'' \<or> sign = ''-'' \<and> n = 0))" (is "?l \<longleftrightarrow> _ \<and> ?r")
proof -
  define sign where "sign = (if HasPrefix s ''-'' then ''-'' else if HasPrefix s ''+'' then ''+'' else [])"
  define ds where "ds = (if HasPrefix s ''-'' \<or> HasPrefix s ''+'' then tl s else s)"
  have s: "s = sign @ ds" by (cases s) (auto simp: sign_def ds_def HasPrefix_def)
  have unique: "sign' = sign \<and> ds' = ds" if "s = sign' @ ds'" "ds' \<noteq> []" "list_all decimal ds'" "sign' = [] \<or> sign' = ''+'' \<or> sign' = ''-''" for sign' ds'
    using that decimal_not_sign by (cases ds') (auto simp: sign_def ds_def HasPrefix_def)
  have signs: "sign = [] \<or> sign = ''+'' \<or> sign = ''-''" by (simp add: sign_def)
  have r: "?r \<longleftrightarrow> ds \<noteq> [] \<and> list_all decimal ds \<and> decimal_value ds = int n \<and> (sign = ''-'' \<longrightarrow> n = 0)"
  proof
    assume ?r
    then obtain sign' ds' where w: "s = sign' @ ds'" "ds' \<noteq> []" "list_all decimal ds'" "decimal_value ds' = int n"
      "sign' = [] \<or> sign' = ''+'' \<or> sign' = ''-'' \<and> n = 0" by blast
    with unique [of sign' ds'] show "ds \<noteq> [] \<and> list_all decimal ds \<and> decimal_value ds = int n \<and> (sign = ''-'' \<longrightarrow> n = 0)" by auto
  next
    assume "ds \<noteq> [] \<and> list_all decimal ds \<and> decimal_value ds = int n \<and> (sign = ''-'' \<longrightarrow> n = 0)"
    with s signs show ?r by blast
  qed
  have l: "?l \<longleftrightarrow> ds \<noteq> [] \<and> list_all decimal ds \<and> (if sign = ''-'' then - decimal_value ds else decimal_value ds) = int n \<and> int n \<le> MaxInt64"
    by (auto simp: number_int64_def Let_def sign_def ds_def)
  have "(if sign = ''-'' then - decimal_value ds else decimal_value ds) = int n \<longleftrightarrow> decimal_value ds = int n \<and> (sign = ''-'' \<longrightarrow> n = 0)"
    if "list_all decimal ds" using decimal_value_nonneg [OF that] by auto
  then show ?thesis unfolding l r by auto
qed

lemma word_count: "sint (w :: 64 word) = int n \<Longrightarrow> n < 2 ^ 63"
  using sint64_range [of w] by simp

lemma tokenCount_iff: "tokenCount v = (int n, True) \<longleftrightarrow> carries_count v n"
proof (cases v)
  case (UFloat m e)
  have "(0 \<le> m \<and> m < 2 ^ 63 * 2 ^ e \<and> m mod 2 ^ e = 0 \<and> float_int64 m e = int n) \<longleftrightarrow> n < 2 ^ 63 \<and> m = int n * 2 ^ e"
  proof
    assume a: "0 \<le> m \<and> m < 2 ^ 63 * 2 ^ e \<and> m mod 2 ^ e = 0 \<and> float_int64 m e = int n"
    then obtain q where q: "m = 2 ^ e * q" by (auto simp: mod_eq_0_iff_dvd)
    with a have "0 \<le> q" "q < 2 ^ 63" by (simp_all add: zero_le_mult_iff)
    moreover from this a q have "q = int n" by (simp add: float_int64_def quot64_pos Let_def split: if_splits)
    ultimately show "n < 2 ^ 63 \<and> m = int n * 2 ^ e" using q by simp
  next
    assume a: "n < 2 ^ 63 \<and> m = int n * 2 ^ e"
    then have "int n < 2 ^ 63" by simp
    with a show "0 \<le> m \<and> m < 2 ^ 63 * 2 ^ e \<and> m mod 2 ^ e = 0 \<and> float_int64 m e = int n"
      by (simp add: float_int64_def quot64_pos Let_def)
  qed
  moreover have "tokenCount v = (int n, True) \<longleftrightarrow> 0 \<le> m \<and> m < 2 ^ 63 * 2 ^ e \<and> m mod 2 ^ e = 0 \<and> float_int64 m e = int n"
    unfolding UFloat tokenCount_def usage_value.case by (simp split: if_split) (metis mult.commute)
  ultimately show ?thesis by (simp add: UFloat carries_count_def)
next
  case (UNumber s)
  have "tokenCount v = (int n, True) \<longleftrightarrow> number_int64 s = (int n, True)"
    by (auto simp: UNumber tokenCount_def split: prod.splits)
  then show ?thesis by (simp add: UNumber number_count carries_count_def)
qed (auto simp: tokenCount_def carries_count_def dest: word_count)

lemma tokenCount_ok: "snd (tokenCount v) \<longleftrightarrow> (\<exists>n. carries_count v n)"
proof -
  have "snd (tokenCount v) \<Longrightarrow> 0 \<le> fst (tokenCount v)"
    by (auto simp: tokenCount_def float_int64_nonneg split: usage_value.splits prod.splits if_splits)
  then have "snd (tokenCount v) \<longleftrightarrow> (\<exists>n. tokenCount v = (int n, True))" by (metis prod.collapse snd_conv zero_le_imp_eq_int)
  then show ?thesis by (simp add: tokenCount_iff)
qed

text \<open>
  C31. Validation of provider usage is exact. \<open>ValidateTokenUsage\<close> accepts a report if and only if every known
  counter in it stands for a non-negative integer that fits a signed 64-bit one, every details object is absent, null or an object
  of such counters, and all names under which one dimension is reported, at the top or in the details, carry one count;
  a negative, fractional, oversized or contradicting report is an error.
\<close>

theorem usage_check_is_exact:
  assumes "set (iter usageDetails) = set usageDetails"
  shows "isOk (ValidateTokenUsage iter raw) \<longleftrightarrow>
     (\<forall>key \<in> set usageKeys. \<forall>v. map_of raw key = Some v \<longrightarrow> (\<exists>n. carries_count v n))
     \<and> (\<forall>(parent, keys) \<in> set usageDetails. \<forall>v. map_of raw parent = Some v \<longrightarrow>
          v = UNil \<or> (\<exists>child. v = UMap child \<and> (\<forall>key \<in> set keys. \<forall>x. map_of child key = Some x \<longrightarrow> (\<exists>n. carries_count x n))))
     \<and> (\<forall>d \<in> set dimensions. \<exists>n. \<forall>v. reports raw d v \<longrightarrow> carries_count v n)"
proof -
  have d: "details_ok raw parent keys \<longleftrightarrow> (\<forall>v. map_of raw parent = Some v \<longrightarrow>
      v = UNil \<or> (\<exists>child. v = UMap child \<and> (\<forall>key \<in> set keys. \<forall>x. map_of child key = Some x \<longrightarrow> (\<exists>n. carries_count x n))))" for parent keys
    unfolding details_ok_def tokenCount_ok by (cases "map_of raw parent") simp_all
  have n: "(\<exists>n. \<forall>v. reports raw d v \<longrightarrow> tokenCount v = (n, True)) \<longleftrightarrow> (\<exists>n. \<forall>v. reports raw d v \<longrightarrow> carries_count v n)" for d
  proof
    assume "\<exists>n. \<forall>v. reports raw d v \<longrightarrow> tokenCount v = (n, True)"
    then obtain n where n: "\<And>v. reports raw d v \<Longrightarrow> tokenCount v = (n, True)" by blast
    have "carries_count v (nat n)" if "reports raw d v" for v
    proof -
      from n [OF that] tokenCount_ok [of v] obtain m where "carries_count v m" by auto
      with n [OF that] tokenCount_iff [of v m] show ?thesis by simp
    qed
    then show "\<exists>n. \<forall>v. reports raw d v \<longrightarrow> carries_count v n" by blast
  next
    assume "\<exists>n. \<forall>v. reports raw d v \<longrightarrow> carries_count v n"
    then show "\<exists>n. \<forall>v. reports raw d v \<longrightarrow> tokenCount v = (n, True)" unfolding tokenCount_iff [symmetric] by blast
  qed
  show ?thesis
    using validation_iff [where iter = iter and raw = raw, OF assms] unfolding isOk_iff by (simp add: d [symmetric] n [symmetric] tokenCount_ok)
qed

text \<open>A report under two names that disagree is refused, one under two names that agree is not; a negative count is refused.\<close>

theorem usage_check_is_exact_witness:
  "\<not> isOk (ValidateTokenUsage id [(''input_tokens'', UInt 5), (''prompt_tokens'', UInt 6)])
   \<and> \<not> isOk (ValidateTokenUsage id [(''input_tokens'', UInt64 (- 1))])
   \<and> isOk (ValidateTokenUsage id [(''input_tokens'', UInt 5), (''prompt_tokens'', UNumber ''5'')])"
proof (intro conjI)
  have iter: "set (id usageDetails) = set usageDetails" by simp
  note exact = usage_check_is_exact [where iter = id, OF iter]
  show "\<not> isOk (ValidateTokenUsage id [(''input_tokens'', UInt64 (- 1))])"
    unfolding exact by (simp add: usageKeys_def carries_count_def)
  show "isOk (ValidateTokenUsage id [(''input_tokens'', UInt 5), (''prompt_tokens'', UNumber ''5'')])"
    by (simp add: ValidateTokenUsage_def usageKeys_def usageDetails_def dimensions_def reported_values_def tokenCount_def mapValue_def
        usage_at_def number_int64_def HasPrefix_def decimal_def decimal_value_def)
  let ?raw = "[(''input_tokens'', UInt 5), (''prompt_tokens'', UInt 6)]"
  let ?d = "([''input_tokens'', ''prompt_tokens'', ''prompt_token_count''], []) :: string list \<times> string list"
  show "\<not> isOk (ValidateTokenUsage id ?raw)"
  proof
    assume "isOk (ValidateTokenUsage id ?raw)"
    then have "\<forall>d \<in> set dimensions. \<exists>n. \<forall>v. reports ?raw d v \<longrightarrow> carries_count v n" unfolding exact by (elim conjE)
    moreover have "?d \<in> set dimensions" by (simp add: dimensions_def)
    ultimately obtain n where "\<And>v. reports ?raw ?d v \<Longrightarrow> carries_count v n" by blast
    moreover have "reports ?raw ?d (UInt 5)" "reports ?raw ?d (UInt 6)" by (auto simp: reports_def)
    ultimately have "carries_count (UInt 5) n" "carries_count (UInt 6) n" by simp_all
    then show False by (simp add: carries_count_def)
  qed
qed

subsection \<open>The ledger\<close>

lemma or_nested_le: "n \<le> MaxInt64 \<Longrightarrow> or_nested u parents keys n \<le> MaxInt64"
  unfolding or_nested_def by (induction parents arbitrary: n) (simp_all add: usageNumber_le)

lemma or_nested_nonneg:
  assumes "0 \<le> n" "\<forall>parent \<in> set parents. \<forall>key \<in> set keys. \<forall>v. map_of (mapValue (usage_at u parent)) key = Some v \<longrightarrow> snd (tokenCount v)"
  shows "0 \<le> or_nested u parents keys n"
  using assms unfolding or_nested_def by (induction parents arbitrary: n) (simp_all add: usageNumber_nonneg)

lemma ledger_tokens_le:
  "lg_InputTokens (nested_ledger u (reported_ledger u)) \<le> MaxInt64" "lg_OutputTokens (nested_ledger u (reported_ledger u)) \<le> MaxInt64"
  "lg_CachedInputTokens (nested_ledger u (reported_ledger u)) \<le> MaxInt64" "lg_CacheWriteTokens (nested_ledger u (reported_ledger u)) \<le> MaxInt64"
  "lg_TotalTokens (nested_ledger u (reported_ledger u)) \<le> MaxInt64"
  by (simp_all add: nested_ledger_def reported_ledger_def usageNumber_le or_nested_le del: usageNumber.simps)

lemma reasoning_nonneg:
  assumes iter: "set (iter usageDetails) = set usageDetails" and v: "ValidateTokenUsage iter u = Inr ()"
  shows "0 \<le> lg_ReasoningTokens (nested_ledger u (reported_ledger u))"
proof -
  have top: "\<forall>key \<in> set [''reasoning_tokens'', ''thinking_tokens'']. \<forall>x. map_of u key = Some x \<longrightarrow> snd (tokenCount x)"
    using v unfolding validation_iff [where iter = iter, OF iter] by (auto simp: usageKeys_def)
  have "snd (tokenCount x)" if p: "parent \<in> set [''completion_tokens_details'', ''output_tokens_details'']"
      and k: "key \<in> set [''reasoning_tokens'', ''thinking_tokens'']" and x: "map_of (mapValue (usage_at u parent)) key = Some x" for parent key x
  proof -
    have "(parent, [''reasoning_tokens'', ''thinking_tokens'']) \<in> set usageDetails" using p by (auto simp: usageDetails_def)
    then have "details_ok u parent [''reasoning_tokens'', ''thinking_tokens'']"
      using v unfolding validation_iff [where iter = iter, OF iter] by blast
    with x k show ?thesis unfolding mapValue_at by (auto simp: details_ok_def)
  qed
  then have "0 \<le> or_nested u [''completion_tokens_details'', ''output_tokens_details''] [''reasoning_tokens'', ''thinking_tokens'']
      (usageNumber u [''reasoning_tokens'', ''thinking_tokens''])"
    by (intro or_nested_nonneg usageNumber_nonneg top) blast
  then show ?thesis by (simp add: nested_ledger_def reported_ledger_def del: usageNumber.simps)
qed

text \<open>The counters of a ledger reconcile, and its costs are the exact ones.\<close>

definition reconciles :: "cost_ledger \<Rightarrow> bool" where
  "reconciles l \<longleftrightarrow>
     0 \<le> lg_OutputTokens l \<and> lg_ReasoningTokens l \<le> lg_OutputTokens l
     \<and> 0 \<le> lg_CachedInputTokens l \<and> 0 \<le> lg_CacheWriteTokens l \<and> lg_CachedInputTokens l + lg_CacheWriteTokens l \<le> lg_InputTokens l
     \<and> lg_InputTokens l + lg_OutputTokens l \<le> lg_TotalTokens l \<and> lg_TotalTokens l \<le> MaxInt64"

definition exactly_priced :: "rates \<Rightarrow> cost_ledger \<Rightarrow> bool" where
  "exactly_priced r l \<longleftrightarrow>
     lg_InputCostMicros l = micro_cost (lg_InputTokens l - lg_CachedInputTokens l - lg_CacheWriteTokens l) (rt_Input r)
     \<and> lg_OutputCostMicros l = micro_cost (lg_OutputTokens l) (rt_Output r)
     \<and> lg_CachedCostMicros l = micro_cost (lg_CachedInputTokens l) (rt_Cached r)
     \<and> lg_CacheWriteCostMicros l = micro_cost (lg_CacheWriteTokens l) (rt_CacheWrite r)
     \<and> lg_TotalCostMicros l = lg_InputCostMicros l + lg_OutputCostMicros l + lg_CachedCostMicros l + lg_CacheWriteCostMicros l
     \<and> lg_TotalCostMicros l \<le> MaxInt64"

lemma reconciled_input_Inr:
  assumes "reconciled_input provider u l = Inr l'" "lg_InputTokens l \<le> MaxInt64" "lg_CachedInputTokens l \<le> MaxInt64" "lg_CacheWriteTokens l \<le> MaxInt64"
  shows "\<exists>n. l' = l\<lparr>lg_InputTokens := n\<rparr> \<and> n \<le> MaxInt64"
proof (cases "native_input provider u")
  case True
  with assms show ?thesis by (auto simp: reconciled_input_def bindE_Inr_iff sumNonNegative_Inr)
next
  case False
  with assms have "l' = l\<lparr>lg_InputTokens := lg_InputTokens l\<rparr>" by (simp add: reconciled_input_def)
  with assms show ?thesis by blast
qed

lemma with_total_Inr:
  assumes "with_total l = Inr l'" "lg_InputTokens l \<le> MaxInt64" "lg_OutputTokens l \<le> MaxInt64" "lg_CachedInputTokens l \<le> MaxInt64"
    "lg_CacheWriteTokens l \<le> MaxInt64" "lg_TotalTokens l \<le> MaxInt64" "lg_ReasoningTokens l \<le> lg_OutputTokens l"
  shows "reconciles l' \<and> (\<exists>n. l' = l\<lparr>lg_TotalTokens := n\<rparr>)"
proof -
  have same: "lg_CachedInputTokens (if b then l\<lparr>lg_TotalTokens := n\<rparr> else l) = lg_CachedInputTokens l"
    "lg_CacheWriteTokens (if b then l\<lparr>lg_TotalTokens := n\<rparr> else l) = lg_CacheWriteTokens l"
    "lg_InputTokens (if b then l\<lparr>lg_TotalTokens := n\<rparr> else l) = lg_InputTokens l" for b n by simp_all
  from assms(1) obtain m c where m: "sumNonNegative [lg_InputTokens l, lg_OutputTokens l] = Inr m"
    and c: "sumNonNegative [lg_CachedInputTokens l, lg_CacheWriteTokens l] = Inr c" "c \<le> lg_InputTokens l"
    and l': "l' = (if lg_TotalTokens l = 0 then l\<lparr>lg_TotalTokens := m\<rparr> else l)" "m \<le> lg_TotalTokens l'"
    by (auto simp: with_total_def Let_def returns_Inr same not_less)
  have "\<exists>n. l' = l\<lparr>lg_TotalTokens := n\<rparr>" using l'(1) by (metis cost_ledger.surjective cost_ledger.update_convs(6))
  moreover have "m = lg_InputTokens l + lg_OutputTokens l" "0 \<le> lg_InputTokens l" "0 \<le> lg_OutputTokens l" "m \<le> MaxInt64"
    using m assms(2,3) by (simp_all add: sumNonNegative_Inr)
  moreover have "c = lg_CachedInputTokens l + lg_CacheWriteTokens l" "0 \<le> lg_CachedInputTokens l" "0 \<le> lg_CacheWriteTokens l"
    using c assms(4,5) by (simp_all add: sumNonNegative_Inr)
  ultimately show ?thesis using c(2) l'(2) assms(6,7) by (cases "lg_TotalTokens l = 0") (auto simp: reconciles_def l'(1))
qed

lemma priced_ledger_Inr:
  assumes "priced_ledger c r l = Inr l'" "reconciles l"
  shows "exactly_priced r l' \<and> reconciles l' \<and> lg_PricingBasis l' = ct_Basis c \<and> lg_InputTokens l' = lg_InputTokens l
     \<and> lg_OutputTokens l' = lg_OutputTokens l \<and> lg_ReasoningTokens l' = lg_ReasoningTokens l"
proof -
  have b: "wrap64 (wrap64 (lg_InputTokens l - lg_CachedInputTokens l) - lg_CacheWriteTokens l) =
      lg_InputTokens l - lg_CachedInputTokens l - lg_CacheWriteTokens l"
    using assms(2) by (simp add: reconciles_def wrap64_id)
  from assms(1) obtain i oo h w t where
    parts: "cost (lg_InputTokens l - lg_CachedInputTokens l - lg_CacheWriteTokens l) (rt_Input r) = Inr i" "cost (lg_OutputTokens l) (rt_Output r) = Inr oo"
      "cost (lg_CachedInputTokens l) (rt_Cached r) = Inr h" "cost (lg_CacheWriteTokens l) (rt_CacheWrite r) = Inr w"
    and t: "sumCost [i, oo, h, w] = Inr t"
    and l': "l' = l\<lparr>lg_InputCostMicros := i, lg_OutputCostMicros := oo, lg_CachedCostMicros := h, lg_CacheWriteCostMicros := w,
      lg_TotalCostMicros := t, lg_PricingBasis := ct_Basis c\<rparr>"
    by (auto simp: priced_ledger_def bindE_Inr_iff b Let_def)
  note p = cost_Inr [OF parts(1)] cost_Inr [OF parts(2)] cost_Inr [OF parts(3)] cost_Inr [OF parts(4)]
  with t have "t = i + oo + h + w" "t \<le> MaxInt64" by (simp_all add: sumCost_def sumNonNegative_Inr)
  with p assms(2) show ?thesis by (simp add: l' exactly_priced_def reconciles_def)
qed

lemma Build_parts:
  assumes iter: "set (iter usageDetails) = set usageDetails" and b: "Build iter provider model u configured = Inr l"
  shows "reconciles l \<and> 0 \<le> lg_ReasoningTokens l
     \<and> (\<exists>c. catalogFor configured = Inr c
          \<and> (case rates_for c (ToLower (TrimSpace provider)) (ToLower (TrimSpace model)) of
               None \<Rightarrow> lg_TotalCostMicros l = 0 \<and> lg_PricingBasis l = ''unpriced''
             | Some r \<Rightarrow> exactly_priced r l \<and> lg_PricingBasis l = ct_Basis c))"
proof -
  let ?l0 = "nested_ledger u (reported_ledger u)"
  from b obtain c l1 l2 l3 where v: "ValidateTokenUsage iter u = Inr ()" and c: "catalogFor configured = Inr c"
    and l1: "reconciled_input (ToLower (TrimSpace provider)) u ?l0 = Inr l1" and r: "lg_ReasoningTokens l1 \<le> lg_OutputTokens l1"
    and l2: "with_total l1 = Inr l2"
    and l3: "(case rates_for c (ToLower (TrimSpace provider)) (ToLower (TrimSpace model)) of None \<Rightarrow> Inr l2 | Some r \<Rightarrow> priced_ledger c r l2) = Inr l3"
    and l: "l = l3\<lparr>lg_PricingSnapshot := pricing_snapshot c (ToLower (TrimSpace provider)) (ToLower (TrimSpace model))
      (case rates_for c (ToLower (TrimSpace provider)) (ToLower (TrimSpace model)) of None \<Rightarrow> no_rates | Some r \<Rightarrow> r)\<rparr>"
    by (auto simp: Build_def bindE_Inr_iff Let_def split: if_splits)
  from reconciled_input_Inr [OF l1] obtain n where n: "l1 = ?l0\<lparr>lg_InputTokens := n\<rparr>" "n \<le> MaxInt64" using ledger_tokens_le [of u] by auto
  have rec: "reconciles l2 \<and> (\<exists>t. l2 = l1\<lparr>lg_TotalTokens := t\<rparr>)"
    using n r ledger_tokens_le [of u] by (intro with_total_Inr [OF l2]) auto
  then obtain t where t: "l2 = l1\<lparr>lg_TotalTokens := t\<rparr>" by blast
  have zero: "lg_TotalCostMicros l2 = 0" "lg_PricingBasis l2 = ''unpriced''" by (simp_all add: t n nested_ledger_def reported_ledger_def)
  have rs: "0 \<le> lg_ReasoningTokens l2" using reasoning_nonneg [where iter = iter, OF iter v] by (simp add: t n)
  obtain s where s: "l = l3\<lparr>lg_PricingSnapshot := s\<rparr>" using l by blast
  have keep: "reconciles (k\<lparr>lg_PricingSnapshot := s\<rparr>) = reconciles k" "exactly_priced q (k\<lparr>lg_PricingSnapshot := s\<rparr>) = exactly_priced q k" for k q
    by (simp_all add: reconciles_def exactly_priced_def)
  show ?thesis
  proof (cases "rates_for c (ToLower (TrimSpace provider)) (ToLower (TrimSpace model))")
    case None
    with l3 rec zero rs c show ?thesis by (simp add: s keep)
  next
    case (Some q)
    with l3 have "priced_ledger c q l2 = Inr l3" by simp
    from priced_ledger_Inr [OF this] rec Some rs c show ?thesis by (simp add: s keep)
  qed
qed

text \<open>
  C30. The ledger is exact. Whenever \<open>Build\<close> accepts a report, its counters reconcile: cache reads and writes
  are part of the input, reasoning is part of the output, and input and output are part of the total,
  all non-negative and within 64 bits. Every cost is the mathematically exact price, tokens times rate in
  micro-dollars rounded half up, and the total is their exact sum: no product or sum wraps around.
\<close>

theorem cost_ledger_is_exact:
  assumes "set (iter usageDetails) = set usageDetails" and "Build iter provider model u configured = Inr l"
  shows "reconciles l \<and> 0 \<le> lg_ReasoningTokens l
     \<and> (\<exists>c. catalogFor configured = Inr c
          \<and> (case rates_for c (ToLower (TrimSpace provider)) (ToLower (TrimSpace model)) of
               None \<Rightarrow> lg_TotalCostMicros l = 0 \<and> lg_PricingBasis l = ''unpriced''
             | Some r \<Rightarrow> exactly_priced r l \<and> lg_PricingBasis l = ct_Basis c))"
  using Build_parts [where iter = iter, OF assms] .

text \<open>
  The admission hold covers the call. If \<open>EstimateUpperBound\<close> grants a hold for a number of input bytes and
  output tokens, then the ledger of a call that stays within these bounds, however the provider
  splits its input into plain, cached and cache-writing tokens, costs at most one micro-dollar more
  than the hold; that micro-dollar is the rounding of the three parts.
\<close>

theorem hold_covers_cost_up_to_rounding:
  assumes iter: "set (iter usageDetails) = set usageDetails" and b: "Build iter provider model u configured = Inr l"
    and h: "EstimateUpperBound provider model inputBytes maxCompletionTokens configured = Inr hold"
    and i: "lg_InputTokens l \<le> sint inputBytes" and o: "lg_OutputTokens l \<le> sint maxCompletionTokens"
  shows "lg_TotalCostMicros l \<le> hold + 1"
proof -
  from h obtain c r ic oc where c: "catalogFor configured = Inr c" "rates_for c (ToLower (TrimSpace provider)) (ToLower (TrimSpace model)) = Some r"
    and parts: "cost (sint inputBytes) (input_rate r) = Inr ic" "cost (sint maxCompletionTokens) (rt_Output r) = Inr oc"
    and s: "sumCost [ic, oc] = Inr hold"
    by (auto simp: EstimateUpperBound_def bindE_Inr_iff Let_def split: if_splits option.splits)
  note p = cost_Inr [OF parts(1)] cost_Inr [OF parts(2)]
  with s have hold: "hold = micro_cost (sint inputBytes) (input_rate r) + micro_cost (sint maxCompletionTokens) (rt_Output r)"
    by (simp add: sumCost_def sumNonNegative_Inr)
  from Build_parts [where iter = iter, OF iter b] c have l: "reconciles l" "exactly_priced r l" by auto
  have q: "rt_Input r \<le> input_rate r" "rt_Cached r \<le> input_rate r" "rt_CacheWrite r \<le> input_rate r" by (simp_all add: input_rate_def Let_def)
  let ?plain = "lg_InputTokens l - lg_CachedInputTokens l - lg_CacheWriteTokens l"
  have "micro_cost ?plain (rt_Input r) + micro_cost (lg_CachedInputTokens l) (rt_Cached r) + micro_cost (lg_CacheWriteTokens l) (rt_CacheWrite r)
      \<le> micro_cost (?plain + lg_CachedInputTokens l + lg_CacheWriteTokens l) (input_rate r) + 1"
    using l(1) q by (intro micro_cost_parts) (auto simp: reconciles_def)
  also have "micro_cost (?plain + lg_CachedInputTokens l + lg_CacheWriteTokens l) (input_rate r) \<le> micro_cost (sint inputBytes) (input_rate r)"
    using i by (intro micro_cost_mono) auto
  finally have "micro_cost ?plain (rt_Input r) + micro_cost (lg_CachedInputTokens l) (rt_Cached r) + micro_cost (lg_CacheWriteTokens l) (rt_CacheWrite r)
      \<le> micro_cost (sint inputBytes) (input_rate r) + 1" by simp
  moreover have "micro_cost (lg_OutputTokens l) (rt_Output r) \<le> micro_cost (sint maxCompletionTokens) (rt_Output r)"
    using o by (intro micro_cost_mono) auto
  ultimately show ?thesis using l(2) hold by (simp add: exactly_priced_def)
qed

end
