(* ===== verification/AutomationCostRun.thy ===== *)
theory AutomationCostRun
  imports AutomationCostProps
begin

text \<open>
  Aggregation over several calls, and concrete reports to which the properties of the accounting are
  applied.
\<close>

subsection \<open>Aggregation\<close>

definition counter_names :: "string list" where
  "counter_names = [''input_tokens'', ''output_tokens'', ''total_tokens'', ''cached_input_tokens'', ''cache_write_tokens'', ''reasoning_tokens'']"

definition counter :: "string \<Rightarrow> cost_ledger \<Rightarrow> int" where
  "counter key l = the (map_of (ledger_counts l) key)"

definition total_at :: "usage \<Rightarrow> string \<Rightarrow> int" where
  "total_at u key = fst (tokenCount (usage_at u key))"

lemma stored_total: "0 \<le> n \<Longrightarrow> n \<le> MaxInt64 \<Longrightarrow> tokenCount (UInt64 (word_of_int n)) = (n, True)"
  by (simp add: tokenCount_def signed_take_bit_int_eq_self sint_sbintrunc')

lemma total_at_nil: "total_at [] key = 0"
  by (simp add: total_at_def usage_at_def tokenCount_def)

lemma add_counts_Inr:
  assumes "add_counts ks result = Inr result'" "distinct (map fst ks)" "\<forall>(key, c) \<in> set ks. c \<le> MaxInt64"
  shows "\<forall>key. case map_of ks key of
       None \<Rightarrow> map_of result' key = map_of result key
     | Some c \<Rightarrow> 0 \<le> total_at result key + c \<and> total_at result key + c \<le> MaxInt64
         \<and> map_of result' key = Some (UInt64 (word_of_int (total_at result key + c)))"
  using assms
proof (induction ks result arbitrary: result' rule: add_counts.induct)
  case (2 k c rest result)
  from "2.prems"(1) obtain n where n: "sumNonNegative [total_at result k, c] = Inr n"
    and rest: "add_counts rest (AList.update k (UInt64 (word_of_int n)) result) = Inr result'"
    by (auto simp: bindE_Inr_iff total_at_def)
  have bounds: "n = total_at result k + c" "0 \<le> n" "n \<le> MaxInt64"
    using n "2.prems"(3) tokenCount_range by (auto simp: sumNonNegative_Inr total_at_def)
  have IH: "case map_of rest key of
       None \<Rightarrow> map_of result' key = map_of (AList.update k (UInt64 (word_of_int n)) result) key
     | Some c \<Rightarrow> 0 \<le> total_at (AList.update k (UInt64 (word_of_int n)) result) key + c
         \<and> total_at (AList.update k (UInt64 (word_of_int n)) result) key + c \<le> MaxInt64
         \<and> map_of result' key = Some (UInt64 (word_of_int (total_at (AList.update k (UInt64 (word_of_int n)) result) key + c)))" for key
    using "2.IH" [OF rest] "2.prems" by auto
  have other: "total_at (AList.update k x result) key = total_at result key" if "key \<noteq> k" for key x
    using that by (simp add: total_at_def usage_at_def update_conv')
  show ?case
  proof
    fix key
    show "case map_of ((k, c) # rest) key of
         None \<Rightarrow> map_of result' key = map_of result key
       | Some c \<Rightarrow> 0 \<le> total_at result key + c \<and> total_at result key + c \<le> MaxInt64
           \<and> map_of result' key = Some (UInt64 (word_of_int (total_at result key + c)))"
    proof (cases "key = k")
      case True
      then have "map_of rest key = None" using "2.prems"(2) by (auto simp: map_of_eq_None_iff)
      with IH [of key] True bounds show ?thesis by (simp add: update_conv' del: of_int_add)
    next
      case False
      with IH [of key] other [OF False] show ?thesis by (simp add: update_conv' del: of_int_add cong: option.case_cong)
    qed
  qed
qed (simp add: )

lemma ledger_counts_map: "map_of (ledger_counts l) key = (if key \<in> set counter_names then Some (counter key l) else None)"
  by (auto simp: ledger_counts_def counter_names_def counter_def)

lemma ledger_counts_keys: "distinct (map fst (ledger_counts l))"
  by (simp add: ledger_counts_def)

lemma counts_bounded: "reconciles l \<Longrightarrow> \<forall>(key, c) \<in> set (ledger_counts l). c \<le> MaxInt64"
  by (auto simp: ledger_counts_def reconciles_def)

lemma counts_nonneg: "reconciles l \<Longrightarrow> 0 \<le> lg_ReasoningTokens l \<Longrightarrow> key \<in> set counter_names \<Longrightarrow> 0 \<le> counter key l"
  by (auto simp: counter_def ledger_counts_def reconciles_def counter_names_def)

lemma add_calls_Inr:
  assumes iter: "set (iter usageDetails) = set usageDetails" and "add_calls iter provider model calls result = Inr result'"
  shows "\<exists>ls. list_all2 (\<lambda>u l. Build iter provider model u usageOnlyCatalog = Inr l) calls ls
     \<and> (calls \<noteq> [] \<longrightarrow> (\<forall>key \<in> set counter_names.
          0 \<le> total_at result key + sum_list (map (counter key) ls) \<and> total_at result key + sum_list (map (counter key) ls) \<le> MaxInt64
          \<and> map_of result' key = Some (UInt64 (word_of_int (total_at result key + sum_list (map (counter key) ls))))))"
  using assms(2)
proof (induction calls arbitrary: result)
  case Nil
  then show ?case by simp
next
  case (Cons u us)
  from Cons.prems obtain l r1 where l: "Build iter provider model u usageOnlyCatalog = Inr l"
    and r1: "add_counts (ledger_counts l) result = Inr r1" and rest: "add_calls iter provider model us r1 = Inr result'"
    by (auto simp: bindE_Inr_iff)
  from Build_parts [where iter = iter, OF iter l] have "reconciles l" by blast
  note step = add_counts_Inr [OF r1 ledger_counts_keys counts_bounded [OF this]]
  have at: "0 \<le> total_at result key + counter key l \<and> total_at result key + counter key l \<le> MaxInt64
      \<and> map_of r1 key = Some (UInt64 (word_of_int (total_at result key + counter key l)))" if "key \<in> set counter_names" for key
    using spec [OF step, of key] that by (simp add: ledger_counts_map)
  have t: "total_at r1 key = total_at result key + counter key l" if "key \<in> set counter_names" for key
  proof -
    from at [OF that] have "usage_at r1 key = UInt64 (word_of_int (total_at result key + counter key l))" by (simp only: usage_at_def option.case)
    then show ?thesis unfolding total_at_def [of r1] using stored_total at [OF that] by (simp only: fst_conv)
  qed
  from Cons.IH [OF rest] obtain ls where ls: "list_all2 (\<lambda>u l. Build iter provider model u usageOnlyCatalog = Inr l) us ls"
    "us \<noteq> [] \<longrightarrow> (\<forall>key \<in> set counter_names.
          0 \<le> total_at r1 key + sum_list (map (counter key) ls) \<and> total_at r1 key + sum_list (map (counter key) ls) \<le> MaxInt64
          \<and> map_of result' key = Some (UInt64 (word_of_int (total_at r1 key + sum_list (map (counter key) ls)))))" by blast
  have "0 \<le> total_at result key + sum_list (map (counter key) (l # ls)) \<and> total_at result key + sum_list (map (counter key) (l # ls)) \<le> MaxInt64
      \<and> map_of result' key = Some (UInt64 (word_of_int (total_at result key + sum_list (map (counter key) (l # ls)))))"
    if k: "key \<in> set counter_names" for key
  proof (cases "us = []")
    case True
    with ls(1) rest at [OF k] show ?thesis by (simp del: of_int_add)
  next
    case False
    have "total_at result key + sum_list (map (counter key) (l # ls)) = total_at r1 key + sum_list (map (counter key) ls)" by (simp add: t [OF k])
    with bspec [OF mp [OF ls(2) False] k] show ?thesis by (simp only:)
  qed
  with ls(1) l show ?case by (intro exI [of _ "l # ls"]) simp
qed

definition optional_counter :: "string \<Rightarrow> usage \<Rightarrow> bool" where
  "optional_counter key u =
     (if key = ''cached_input_tokens'' then cacheReported u else if key = ''reasoning_tokens'' then reasoningReported u
      else if key = ''cache_write_tokens'' then writesReported u else True)"

text \<open>
  Aggregation adds up normalised calls. When \<open>AggregateUsage\<close> succeeds, every call has a ledger of its own, and
  each counter of the result is the exact sum of that counter over the ledgers, within 64 bits; a
  counter that some call did not report is absent rather than a partial sum.
\<close>

theorem aggregate_sums_ledgers:
  assumes "set (iter usageDetails) = set usageDetails" "calls \<noteq> []" "AggregateUsage iter provider model calls = Inr result"
  shows "\<exists>ls. list_all2 (\<lambda>u l. Build iter provider model u usageOnlyCatalog = Inr l) calls ls
     \<and> (\<forall>key \<in> set counter_names.
          if list_all (optional_counter key) calls
          then map_of (map (\<lambda>(k, v). (k, tokenCount v)) result) key = Some (sum_list (map (counter key) ls), True)
          else map_of result key = None)"
proof -
  from assms(3) obtain r where r: "add_calls iter provider model calls [] = Inr r"
    and result: "result = (let r1 = (if list_all cacheReported calls then r else AList.delete ''cached_input_tokens'' r);
           r2 = (if list_all reasoningReported calls then r1 else AList.delete ''reasoning_tokens'' r1)
       in (if list_all writesReported calls then r2 else AList.delete ''cache_write_tokens'' r2))"
    by (auto simp: AggregateUsage_def bindE_Inr_iff Let_def)
  from add_calls_Inr [where iter = iter, OF assms(1) r] assms(2) obtain ls
    where ls: "list_all2 (\<lambda>u l. Build iter provider model u usageOnlyCatalog = Inr l) calls ls"
    and at: "\<And>key. key \<in> set counter_names \<Longrightarrow> 0 \<le> sum_list (map (counter key) ls) \<and> sum_list (map (counter key) ls) \<le> MaxInt64
        \<and> map_of r key = Some (UInt64 (word_of_int (sum_list (map (counter key) ls))))"
    by (auto simp: total_at_nil)
  have m: "map_of result key = (if list_all (optional_counter key) calls then map_of r key else None)" for key
  proof -
    have "list_all (optional_counter key) calls =
        (if key = ''cached_input_tokens'' then list_all cacheReported calls else if key = ''reasoning_tokens'' then list_all reasoningReported calls
         else if key = ''cache_write_tokens'' then list_all writesReported calls else True)"
      by (simp add: optional_counter_def [abs_def] list_all_iff)
    then show ?thesis by (simp add: result delete_conv' Let_def)
  qed
  have "if list_all (optional_counter key) calls
          then map_of (map (\<lambda>(k, v). (k, tokenCount v)) result) key = Some (sum_list (map (counter key) ls), True)
          else map_of result key = None" if "key \<in> set counter_names" for key
    using m [of key] at [OF that] by (auto simp: map_of_map stored_total)
  with ls show ?thesis by blast
qed

subsection \<open>Concrete reports\<close>

lemma Build_by_parts:
  assumes "ToLower (TrimSpace provider0) = provider" "ToLower (TrimSpace model0) = model" "provider \<noteq> []" "model \<noteq> []"
    "ValidateTokenUsage iter u = Inr ()" "catalogFor configured = Inr c"
    "reconciled_input provider u (nested_ledger u (reported_ledger u)) = Inr l" "lg_ReasoningTokens l \<le> lg_OutputTokens l"
    "hits_and_misses_ok u l" "with_total l = Inr l1" "(case rates_for c provider model of None \<Rightarrow> Inr l1 | Some r \<Rightarrow> priced_ledger c r l1) = Inr l2"
  shows "\<exists>snapshot. Build iter provider0 model0 u configured = Inr (l2\<lparr>lg_PricingSnapshot := snapshot\<rparr>)"
  using assms by (simp add: Build_def not_less) blast

definition cache_report :: usage where
  "cache_report = [(''input_tokens'', UInt 6), (''cache_write_tokens'', UInt 4)]"

definition cache_ledger :: cost_ledger where
  "cache_ledger = (reported_ledger [])\<lparr>lg_InputTokens := 6, lg_CacheWriteTokens := 4, lg_TotalTokens := 6\<rparr>"

definition cache_priced :: cost_ledger where
  "cache_priced = cache_ledger\<lparr>lg_InputCostMicros := 1, lg_CacheWriteCostMicros := 2, lg_TotalCostMicros := 3, lg_PricingBasis := ''official_api_price''\<rparr>"

lemma default_catalog_used: "catalogFor [] = Inr default_catalog"
  by code_simp

lemma cache_build: "\<exists>snapshot. Build id ''minimax'' ''minimax-m2.7'' cache_report [] = Inr (cache_priced\<lparr>lg_PricingSnapshot := snapshot\<rparr>)"
  by (rule Build_by_parts [where provider = "''minimax''" and model = "''minimax-m2.7''" and c = default_catalog
        and l = "cache_ledger\<lparr>lg_TotalTokens := 0\<rparr>" and ?l1.0 = cache_ledger]) (rule default_catalog_used | code_simp)+

lemma cache_fields: "lg_InputTokens cache_priced = 6 \<and> lg_OutputTokens cache_priced = 0 \<and> lg_TotalCostMicros cache_priced = 3"
  by code_simp

lemma cache_hold: "EstimateUpperBound ''minimax'' ''minimax-m2.7'' 6 0 [] = Inr 2"
  by code_simp

text \<open>
  The six tokens of the report cost 3 micro-dollars, the hold for six bytes is 2: the comment on
  \<open>EstimateUpperBound\<close> promises a bound without the rounding.
\<close>

lemma hold_exceeded_by_rounding:
  "\<exists>l. Build id ''minimax'' ''minimax-m2.7'' cache_report [] = Inr l \<and> lg_InputTokens l = 6 \<and> lg_OutputTokens l = 0
     \<and> EstimateUpperBound ''minimax'' ''minimax-m2.7'' 6 0 [] = Inr 2 \<and> lg_TotalCostMicros l = 3"
  using cache_build cache_hold cache_fields by auto

lemma cost_ledger_is_exact_witness:
  "\<exists>l. Build id ''minimax'' ''minimax-m2.7'' cache_report [] = Inr l \<and> lg_TotalCostMicros l = 3 \<and> reconciles l \<and> 0 \<le> lg_ReasoningTokens l"
proof -
  from cache_build obtain s where l: "Build id ''minimax'' ''minimax-m2.7'' cache_report [] = Inr (cache_priced\<lparr>lg_PricingSnapshot := s\<rparr>)" by blast
  have "set (id usageDetails) = set usageDetails" by simp
  from cost_ledger_is_exact [where iter = id, OF this l] l cache_fields show ?thesis by auto
qed

lemma hold_covers_cost_up_to_rounding_witness:
  "\<exists>l. Build id ''minimax'' ''minimax-m2.7'' cache_report [] = Inr l \<and> lg_TotalCostMicros l \<le> 2 + 1"
proof -
  from cache_build obtain s where l: "Build id ''minimax'' ''minimax-m2.7'' cache_report [] = Inr (cache_priced\<lparr>lg_PricingSnapshot := s\<rparr>)" by blast
  have "set (id usageDetails) = set usageDetails" by simp
  from hold_covers_cost_up_to_rounding [where iter = id, OF this l cache_hold] l cache_fields show ?thesis by simp
qed

definition two_calls :: "usage list" where
  "two_calls = [[(''input_tokens'', UInt 5), (''output_tokens'', UInt 2)], [(''input_tokens'', UInt 7)]]"

definition plain_ledger :: "int \<Rightarrow> int \<Rightarrow> int \<Rightarrow> cost_ledger" where
  "plain_ledger i n t = (reported_ledger [])\<lparr>lg_InputTokens := i, lg_OutputTokens := n, lg_TotalTokens := t\<rparr>"

definition usage_catalog :: catalog where
  "usage_catalog = \<lparr>ct_Version = ''usage-only'', ct_Basis = ''unpriced'', ct_Models = [(''usage-only:*'', no_rates)]\<rparr>"

lemma usage_catalog_used: "catalogFor usageOnlyCatalog = Inr usage_catalog"
  by code_simp

lemma first_build: "\<exists>s. Build id ''minimax'' ''m3'' (two_calls ! 0) usageOnlyCatalog = Inr (plain_ledger 5 2 7\<lparr>lg_PricingSnapshot := s\<rparr>)"
  by (rule Build_by_parts [where provider = "''minimax''" and model = "''m3''" and c = usage_catalog
        and l = "plain_ledger 5 2 0" and ?l1.0 = "plain_ledger 5 2 7"]) (rule usage_catalog_used | code_simp)+

lemma second_build: "\<exists>s. Build id ''minimax'' ''m3'' (two_calls ! 1) usageOnlyCatalog = Inr (plain_ledger 7 0 7\<lparr>lg_PricingSnapshot := s\<rparr>)"
  by (rule Build_by_parts [where provider = "''minimax''" and model = "''m3''" and c = usage_catalog
        and l = "plain_ledger 7 0 0" and ?l1.0 = "plain_ledger 7 0 7"]) (rule usage_catalog_used | code_simp)+

lemma two_calls_added:
  "add_calls id ''minimax'' ''m3'' two_calls [] =
     Inr [(''input_tokens'', UInt64 12), (''output_tokens'', UInt64 2), (''total_tokens'', UInt64 14),
          (''cached_input_tokens'', UInt64 0), (''cache_write_tokens'', UInt64 0), (''reasoning_tokens'', UInt64 0)]"
proof -
  from first_build second_build obtain s1 s2 where b:
    "Build id ''minimax'' ''m3'' [(''input_tokens'', UInt 5), (''output_tokens'', UInt 2)] usageOnlyCatalog = Inr (plain_ledger 5 2 7\<lparr>lg_PricingSnapshot := s1\<rparr>)"
    "Build id ''minimax'' ''m3'' [(''input_tokens'', UInt 7)] usageOnlyCatalog = Inr (plain_ledger 7 0 7\<lparr>lg_PricingSnapshot := s2\<rparr>)"
    by (auto simp: two_calls_def)
  have counts: "ledger_counts (l\<lparr>lg_PricingSnapshot := s\<rparr>) = ledger_counts l" for l s by (simp add: ledger_counts_def)
  have "bindE (add_counts (ledger_counts (plain_ledger 5 2 7)) []) (add_counts (ledger_counts (plain_ledger 7 0 7))) =
     Inr [(''input_tokens'', UInt64 12), (''output_tokens'', UInt64 2), (''total_tokens'', UInt64 14),
          (''cached_input_tokens'', UInt64 0), (''cache_write_tokens'', UInt64 0), (''reasoning_tokens'', UInt64 0)]"
    by code_simp
  then show ?thesis by (auto simp: two_calls_def b counts bindE_Inr_iff)
qed

lemma aggregate_sums_ledgers_witness:
  "AggregateUsage id ''minimax'' ''m3'' two_calls = Inr [(''input_tokens'', UInt64 12), (''output_tokens'', UInt64 2), (''total_tokens'', UInt64 14)]
     \<and> (\<exists>ls. list_all2 (\<lambda>u l. Build id ''minimax'' ''m3'' u usageOnlyCatalog = Inr l) two_calls ls
          \<and> sum_list (map (counter ''input_tokens'') ls) = 12)"
proof -
  have agg: "AggregateUsage id ''minimax'' ''m3'' two_calls = Inr [(''input_tokens'', UInt64 12), (''output_tokens'', UInt64 2), (''total_tokens'', UInt64 14)]"
    unfolding AggregateUsage_def two_calls_added bindE_simps by code_simp
  have "set (id usageDetails) = set usageDetails" "two_calls \<noteq> []" by (simp_all add: two_calls_def)
  from aggregate_sums_ledgers [where iter = id, OF this agg] obtain ls where
    ls: "list_all2 (\<lambda>u l. Build id ''minimax'' ''m3'' u usageOnlyCatalog = Inr l) two_calls ls"
    and k: "if list_all (optional_counter ''input_tokens'') two_calls
      then map_of (map (\<lambda>(k, v). (k, tokenCount v)) [(''input_tokens'', UInt64 12), (''output_tokens'', UInt64 2), (''total_tokens'', UInt64 14)]) ''input_tokens''
        = Some (sum_list (map (counter ''input_tokens'') ls), True)
      else map_of [(''input_tokens'', UInt64 12), (''output_tokens'', UInt64 2), (''total_tokens'', UInt64 14)] ''input_tokens'' = None"
    by (auto simp: counter_names_def)
  have "list_all (optional_counter ''input_tokens'') two_calls" by code_simp
  moreover have "tokenCount (UInt64 12) = (12, True)" by code_simp
  ultimately have "sum_list (map (counter ''input_tokens'') ls) = 12" using k by simp
  with agg ls show ?thesis by blast
qed

text \<open>
  \<open>cacheReported\<close> and the check of aliases know a count \<open>cached_tokens\<close> at the top of a report, \<open>Build\<close> reads it in
  the details only: the aggregate of such a call states a reported total of zero.
\<close>

definition top_level_cached :: usage where
  "top_level_cached = [(''input_tokens'', UInt 10), (''output_tokens'', UInt 0), (''cached_tokens'', UInt 4)]"

lemma top_level_cached_build:
  "\<exists>s. Build id ''minimax'' ''m3'' top_level_cached usageOnlyCatalog = Inr (plain_ledger 10 0 10\<lparr>lg_PricingSnapshot := s\<rparr>)"
  by (rule Build_by_parts [where provider = "''minimax''" and model = "''m3''" and c = usage_catalog
        and l = "plain_ledger 10 0 0" and ?l1.0 = "plain_ledger 10 0 10"]) (rule usage_catalog_used | code_simp)+

lemma reported_cache_lost:
  "\<exists>result. AggregateUsage id ''minimax'' ''m3'' [top_level_cached] = Inr result
     \<and> cacheReported top_level_cached \<and> usage_at top_level_cached ''cached_tokens'' = UInt 4
     \<and> map_of result ''cached_input_tokens'' = Some (UInt64 0)"
proof -
  from top_level_cached_build obtain s where
    b: "Build id ''minimax'' ''m3'' top_level_cached usageOnlyCatalog = Inr (plain_ledger 10 0 10\<lparr>lg_PricingSnapshot := s\<rparr>)" by blast
  have "ledger_counts (plain_ledger 10 0 10\<lparr>lg_PricingSnapshot := s\<rparr>) = ledger_counts (plain_ledger 10 0 10)" by (simp add: ledger_counts_def)
  moreover have "add_counts (ledger_counts (plain_ledger 10 0 10)) [] =
     Inr [(''input_tokens'', UInt64 10), (''output_tokens'', UInt64 0), (''total_tokens'', UInt64 10),
          (''cached_input_tokens'', UInt64 0), (''cache_write_tokens'', UInt64 0), (''reasoning_tokens'', UInt64 0)]" by code_simp
  ultimately have "add_calls id ''minimax'' ''m3'' [top_level_cached] [] =
     Inr [(''input_tokens'', UInt64 10), (''output_tokens'', UInt64 0), (''total_tokens'', UInt64 10),
          (''cached_input_tokens'', UInt64 0), (''cache_write_tokens'', UInt64 0), (''reasoning_tokens'', UInt64 0)]" by (simp add: b)
  moreover have "cacheReported top_level_cached" by code_simp
  moreover have "usage_at top_level_cached ''cached_tokens'' = UInt 4" by code_simp
  ultimately show ?thesis by (simp add: AggregateUsage_def Let_def delete_conv')
qed

end
