(* ===== verification/Outbox.thy ===== *)
theory Outbox
  imports GoJson StepSystem
begin

text \<open>
  The transactional outbox: internal/runtimeroute admits event types, outboxrepository stores events and
  leases them in fair batches, services/outbox dispatches them. The state is the table of events and the
  row of the dispatch cursor. \<open>locked\<close> holds the identities of the rows that other transactions have
  locked, which \<open>SKIP LOCKED\<close> passes over; \<open>collate\<close> is the order in which the database returns
  the lanes. The lock on the cursor makes claims run one after the other.
\<close>

subsection \<open>Routes\<close>

record route =
  ro_EventType :: string
  ro_Runtime :: string
  ro_QueueNamespace :: string
  ro_NotificationLane :: bool
  ro_ITBEMOnly :: bool

datatype outbox_error =
    UnsupportedEventType
  | IncompleteRoute
  | RestrictedToITBEM
  | RuntimeMismatch
  | NamespaceMismatch

definition RuntimeRustWorker :: string where "RuntimeRustWorker = ''rust-worker''"
definition RuntimeMediaLambda :: string where "RuntimeMediaLambda = ''media-lambda''"
definition RuntimeLocalAgent :: string where "RuntimeLocalAgent = ''local-ai-agent''"
definition AnalyticsRollupType :: string where "AnalyticsRollupType = ''analytics.rollup''"
definition SlackNotificationType :: string where "SlackNotificationType = ''notification.slack''"
definition AutomationProcessType :: string where "AutomationProcessType = ''automation.ai.local.process''"
definition MediaProcessType :: string where "MediaProcessType = ''media.process''"

definition routes :: "(string \<times> route) list" where
  "routes =
     [(AnalyticsRollupType,
        \<lparr>ro_EventType = AnalyticsRollupType, ro_Runtime = RuntimeRustWorker, ro_QueueNamespace = ''rust-worker-prod-workloads'',
         ro_NotificationLane = False, ro_ITBEMOnly = False\<rparr>),
      (SlackNotificationType,
        \<lparr>ro_EventType = SlackNotificationType, ro_Runtime = RuntimeRustWorker, ro_QueueNamespace = ''rust-worker-prod-notifications'',
         ro_NotificationLane = True, ro_ITBEMOnly = False\<rparr>),
      (AutomationProcessType,
        \<lparr>ro_EventType = AutomationProcessType, ro_Runtime = RuntimeLocalAgent, ro_QueueNamespace = ''itbem-ai-local'',
         ro_NotificationLane = False, ro_ITBEMOnly = True\<rparr>),
      (MediaProcessType,
        \<lparr>ro_EventType = MediaProcessType, ro_Runtime = RuntimeMediaLambda, ro_QueueNamespace = ''itbem-media'',
         ro_NotificationLane = False, ro_ITBEMOnly = False\<rparr>)]"

definition RouteFor :: "string \<Rightarrow> outbox_error + route" where
  "RouteFor eventType = fromOption UnsupportedEventType (map_of routes (TrimSpace eventType))"

definition ValidateRoute :: "route \<Rightarrow> string \<Rightarrow> outbox_error + unit" where
  "ValidateRoute r tenantCode =
     (if ro_Runtime r = [] \<or> TrimSpace (ro_QueueNamespace r) = [] then Inl IncompleteRoute
      else if ro_ITBEMOnly r \<and> \<not> EqualFold (TrimSpace tenantCode) ''itbem'' then Inl RestrictedToITBEM
      else Inr ())"

subsection \<open>Events\<close>

record outbox_event =
  ob_ID :: uuid
  ob_EventType :: string
  ob_TargetRuntime :: string
  ob_QueueNamespace :: string
  ob_FairnessKey :: string
  ob_DedupeKey :: string
  ob_TenantCode :: string
  ob_CorrelationID :: string
  ob_Payload :: string
  ob_State :: string
  ob_Attempts :: int
  ob_AvailableAt :: gotime
  ob_LeaseUntil :: "gotime option"
  ob_LastError :: string
  ob_ProcessedAt :: "gotime option"
  ob_CreatedAt :: gotime

definition StatePending :: string where "StatePending = ''pending''"
definition StateProcessing :: string where "StateProcessing = ''processing''"
definition StateCompleted :: string where "StateCompleted = ''completed''"

record outbox_db =
  od_events :: "outbox_event list"
  od_cursor :: "string option"

text \<open>The lane of an event, from its decoded payload.\<close>

record fairness_payload =
  fp_ProjectID :: string
  fp_Operation :: string

definition fairness_fields :: "fairness_payload field_decoders" where
  "fairness_fields =
     [(''payload'', un_struct False
        [(''project_id'', in_field fp_ProjectID (\<lambda>x. fp_ProjectID_update (\<lambda>_. x)) un_string),
         (''operation'', in_field fp_Operation (\<lambda>x. fp_Operation_update (\<lambda>_. x)) un_string)])]"

definition event_lane :: "outbox_event \<Rightarrow> string" where
  "event_lane e = ''event:'' @ TrimSpace (ob_TenantCode e) @ '':'' @ TrimSpace (ob_EventType e)"

definition fairnessKey :: "outbox_event \<Rightarrow> string" where
  "fairnessKey e =
     (if ob_EventType e = ''automation.ai.local.process'' then
        (case json_unmarshal (un_struct False fairness_fields) \<lparr>fp_ProjectID = [], fp_Operation = []\<rparr> (ob_Payload e) of
           None \<Rightarrow> event_lane e
         | Some m \<Rightarrow>
             let project = TrimSpace (fp_ProjectID m); operation = TrimSpace (fp_Operation m)
             in if project \<noteq> [] \<or> operation \<noteq> [] then ''automation:'' @ project @ '':'' @ operation else event_lane e)
      else event_lane e)"

definition ApplyRoute :: "outbox_event \<Rightarrow> outbox_error + outbox_event" where
  "ApplyRoute e =
     bindE (RouteFor (ob_EventType e)) (\<lambda>r.
     bindE (ValidateRoute r (ob_TenantCode e)) (\<lambda>_.
       if ob_TargetRuntime e \<noteq> [] \<and> ob_TargetRuntime e \<noteq> ro_Runtime r then Inl RuntimeMismatch
       else if ob_QueueNamespace e \<noteq> [] \<and> ob_QueueNamespace e \<noteq> ro_QueueNamespace r then Inl NamespaceMismatch
       else Inr (e\<lparr>ob_TargetRuntime := ro_Runtime r, ob_QueueNamespace := ro_QueueNamespace r\<rparr>)))"

text \<open>\<open>ON CONFLICT DO NOTHING\<close>: the primary key and the unique index on the deduplication key.\<close>

definition Enqueue :: "outbox_db \<Rightarrow> outbox_event \<Rightarrow> gotime \<Rightarrow> outbox_error + outbox_db \<times> bool" where
  "Enqueue db event now =
     bindE (ApplyRoute event) (\<lambda>e0.
       let e1 = e0\<lparr>ob_FairnessKey := fairnessKey e0\<rparr>;
           e2 = (if ob_State e1 = [] then e1\<lparr>ob_State := StatePending\<rparr> else e1);
           e3 = (if isZero (ob_AvailableAt e2) then e2\<lparr>ob_AvailableAt := now\<rparr> else e2)
       in if list_ex (\<lambda>e. ob_ID e = ob_ID e3 \<or> ob_DedupeKey e = ob_DedupeKey e3) (od_events db) then Inr (db, False)
          else Inr (db\<lparr>od_events := od_events db @ [e3]\<rparr>, True))"

subsection \<open>Claims\<close>

definition ready_at :: "gotime \<Rightarrow> outbox_event \<Rightarrow> bool" where
  "ready_at now e =
     (ob_State e = StatePending \<and> ob_AvailableAt e \<le> now
      \<or> ob_State e = StateProcessing \<and> (case ob_LeaseUntil e of None \<Rightarrow> False | Some t \<Rightarrow> t < now))"

definition oldest_first :: "outbox_event list \<Rightarrow> outbox_event list" where
  "oldest_first es = sort_key (\<lambda>e. (ob_CreatedAt e, ob_ID e)) es"

definition readyFairnessKeys :: "(string list \<Rightarrow> string list) \<Rightarrow> outbox_event list \<Rightarrow> gotime \<Rightarrow> string list" where
  "readyFairnessKeys collate es now = collate (remdups (map ob_FairnessKey (filter (ready_at now) es)))"

definition update_event :: "uuid \<Rightarrow> (outbox_event \<Rightarrow> outbox_event) \<Rightarrow> outbox_event list \<Rightarrow> outbox_event list" where
  "update_event i f es = map (\<lambda>e. if ob_ID e = i then f e else e) es"

definition normalizeLegacyFairnessKeys :: "(uuid \<Rightarrow> bool) \<Rightarrow> outbox_event list \<Rightarrow> gotime \<Rightarrow> nat \<Rightarrow> outbox_event list" where
  "normalizeLegacyFairnessKeys locked es now limit =
     fold (\<lambda>e. update_event (ob_ID e) (ob_FairnessKey_update (\<lambda>_. fairnessKey e)))
       (take limit (oldest_first (filter (\<lambda>e. ob_FairnessKey e = [] \<and> ready_at now e \<and> \<not> locked (ob_ID e)) es))) es"

text \<open>\<open>sort.Search\<close> finds the first lane after the last one served.\<close>

definition rotateFairnessKeys :: "string list \<Rightarrow> string \<Rightarrow> string list" where
  "rotateFairnessKeys keys0 last_key =
     (if length keys0 < 2 \<or> TrimSpace last_key = [] then keys0
      else
        let keys = sort keys0; found = length (takeWhile (\<lambda>k. \<not> last_key < k) keys);
            start = (if found = length keys then 0 else found)
        in drop start keys @ take start keys)"

definition oldest_ready :: "(uuid \<Rightarrow> bool) \<Rightarrow> gotime \<Rightarrow> string \<Rightarrow> outbox_event list \<Rightarrow> outbox_event option" where
  "oldest_ready locked now key es =
     (case oldest_first (filter (\<lambda>e. ob_FairnessKey e = key \<and> ready_at now e \<and> \<not> locked (ob_ID e)) es) of
        [] \<Rightarrow> None
      | e # _ \<Rightarrow> Some e)"

definition leased :: "gotime \<Rightarrow> outbox_event \<Rightarrow> outbox_event" where
  "leased leaseUntil e = e\<lparr>ob_State := StateProcessing, ob_LeaseUntil := Some leaseUntil, ob_Attempts := ob_Attempts e + 1, ob_LastError := []\<rparr>"

text \<open>The copy that is returned keeps its last error.\<close>

definition claimed_copy :: "gotime \<Rightarrow> outbox_event \<Rightarrow> outbox_event" where
  "claimed_copy leaseUntil e = e\<lparr>ob_State := StateProcessing, ob_LeaseUntil := Some leaseUntil, ob_Attempts := ob_Attempts e + 1\<rparr>"

text \<open>One pass over the lanes: the table, what was selected, and whether there was progress.\<close>

fun claim_pass ::
  "(uuid \<Rightarrow> bool) \<Rightarrow> nat \<Rightarrow> gotime \<Rightarrow> gotime \<Rightarrow> string list \<Rightarrow> outbox_event list \<Rightarrow> outbox_event list \<Rightarrow> bool
     \<Rightarrow> outbox_event list \<times> outbox_event list \<times> bool" where
  "claim_pass locked limit now leaseUntil [] es selected progress = (es, selected, progress)"
| "claim_pass locked limit now leaseUntil (key # keys) es selected progress =
     (if length selected = limit then (es, selected, progress)
      else case oldest_ready locked now key es of
          None \<Rightarrow> claim_pass locked limit now leaseUntil keys es selected progress
        | Some e \<Rightarrow>
            claim_pass locked limit now leaseUntil keys (update_event (ob_ID e) (leased leaseUntil) es)
              (selected @ [claimed_copy leaseUntil e]) True)"

lemma claim_pass_progress:
  "claim_pass locked limit now leaseUntil keys es selected p = (es', selected', p') \<Longrightarrow>
     length selected \<le> length selected' \<and> (p' \<and> \<not> p \<longrightarrow> length selected < length selected')"
  by (induction locked limit now leaseUntil keys es selected p rule: claim_pass.induct) (fastforce split: if_splits option.splits)+

function claim_loop ::
  "(uuid \<Rightarrow> bool) \<Rightarrow> string list \<Rightarrow> nat \<Rightarrow> gotime \<Rightarrow> gotime \<Rightarrow> outbox_event list \<Rightarrow> outbox_event list
     \<Rightarrow> outbox_event list \<times> outbox_event list" where
  "claim_loop locked keys limit now leaseUntil es selected =
     (if length selected < limit then
        let (es', selected', progress) = claim_pass locked limit now leaseUntil keys es selected False
        in if progress then claim_loop locked keys limit now leaseUntil es' selected' else (es', selected')
      else (es, selected))"
  by pat_completeness auto
termination
  by (relation "measure (\<lambda>(locked, keys, limit, now, leaseUntil, es, selected). limit - length selected)")
     (auto dest: claim_pass_progress [OF sym])

declare claim_loop.simps [simp del]

definition claimFairRows ::
  "(uuid \<Rightarrow> bool) \<Rightarrow> outbox_event list \<Rightarrow> string list \<Rightarrow> nat \<Rightarrow> gotime \<Rightarrow> gotime \<Rightarrow> outbox_event list \<times> outbox_event list" where
  "claimFairRows locked es keys limit now leaseUntil =
     (if limit = 0 \<or> keys = [] then (es, []) else claim_loop locked keys limit now leaseUntil es [])"

definition fairnessNormalizationLimit :: "int \<Rightarrow> int" where
  "fairnessNormalizationLimit limit = (let l = (if limit \<le> 0 then 10 else limit) in (if 100 < l then 100 else l) * 4)"

text \<open>The cursor row is created by the first claim.\<close>

definition lockDispatchCursor :: "outbox_db \<Rightarrow> outbox_db \<times> string" where
  "lockDispatchCursor db = (case od_cursor db of None \<Rightarrow> (db\<lparr>od_cursor := Some []\<rparr>, []) | Some k \<Rightarrow> (db, k))"

definition ClaimBatch ::
  "(string list \<Rightarrow> string list) \<Rightarrow> (uuid \<Rightarrow> bool) \<Rightarrow> outbox_db \<Rightarrow> int \<Rightarrow> duration \<Rightarrow> gotime \<Rightarrow> outbox_db \<times> outbox_event list" where
  "ClaimBatch collate locked db0 limit0 lease now =
     (let limit = (if limit0 \<le> 0 then 10 else limit0);
          (db, cursor) = lockDispatchCursor db0;
          es = normalizeLegacyFairnessKeys locked (od_events db) now (nat (fairnessNormalizationLimit limit));
          keys = rotateFairnessKeys (readyFairnessKeys collate es now) cursor;
          (es', selected) = claimFairRows locked es keys (nat limit) now (now + lease);
          events = map (ob_State_update (\<lambda>_. StateProcessing)) selected
      in (db\<lparr>od_events := es', od_cursor := (if events = [] then od_cursor db else Some (ob_FairnessKey (last events)))\<rparr>, events))"

subsection \<open>The reference of the round robin\<close>

fun add_to_lane :: "string \<Rightarrow> outbox_event \<Rightarrow> (string \<times> outbox_event list) list \<Rightarrow> (string \<times> outbox_event list) list" where
  "add_to_lane key e [] = [(key, [e])]"
| "add_to_lane key e ((k, q) # lanes) = (if k = key then (k, q @ [e]) # lanes else (k, q) # add_to_lane key e lanes)"

fun pick_pass ::
  "nat \<Rightarrow> string list \<Rightarrow> (string \<Rightarrow> outbox_event list) \<Rightarrow> outbox_event list \<Rightarrow> bool
     \<Rightarrow> (string \<Rightarrow> outbox_event list) \<times> outbox_event list \<times> bool" where
  "pick_pass limit [] lanes selected progress = (lanes, selected, progress)"
| "pick_pass limit (key # keys) lanes selected progress =
     (case lanes key of
        [] \<Rightarrow> pick_pass limit keys lanes selected progress
      | e # q \<Rightarrow>
          let selected' = selected @ [e]; lanes' = lanes(key := q)
          in if length selected' = limit then (lanes', selected', True) else pick_pass limit keys lanes' selected' True)"

lemma pick_pass_progress:
  "pick_pass limit keys lanes selected p = (lanes', selected', p') \<Longrightarrow>
     length selected \<le> length selected' \<and> (p' \<and> \<not> p \<longrightarrow> length selected < length selected')"
  by (induction limit keys lanes selected p rule: pick_pass.induct) (fastforce simp: Let_def split: if_splits list.splits)+

function pick_loop ::
  "string list \<Rightarrow> nat \<Rightarrow> (string \<Rightarrow> outbox_event list) \<Rightarrow> outbox_event list \<Rightarrow> outbox_event list" where
  "pick_loop order limit lanes selected =
     (if length selected < limit then
        let (lanes', selected', progress) = pick_pass limit order lanes selected False
        in if progress then pick_loop order limit lanes' selected' else selected'
      else selected)"
  by pat_completeness auto
termination
  by (relation "measure (\<lambda>(order, limit, lanes, selected). limit - length selected)") (auto dest: pick_pass_progress [OF sym])

declare pick_loop.simps [simp del]

definition lane_of :: "(string \<times> outbox_event list) list \<Rightarrow> string \<Rightarrow> outbox_event list" where
  "lane_of lanes key = (case map_of lanes key of None \<Rightarrow> [] | Some q \<Rightarrow> q)"

definition pickFairBatch :: "outbox_event list \<Rightarrow> nat \<Rightarrow> outbox_event list" where
  "pickFairBatch candidates limit =
     (if limit = 0 \<or> candidates = [] then []
      else
        let lanes = fold (\<lambda>e. add_to_lane (fairnessKey e) e) candidates [];
            order = (if 1 < length lanes then sort (map fst lanes) else map fst lanes)
        in pick_loop order limit (lane_of lanes) [])"

subsection \<open>Completion, retries and cleanup\<close>

definition MarkCompleted :: "outbox_db \<Rightarrow> uuid \<Rightarrow> gotime \<Rightarrow> outbox_db" where
  "MarkCompleted db i now =
     db\<lparr>od_events := map (\<lambda>e. if ob_ID e = i \<and> ob_State e = StateProcessing
        then e\<lparr>ob_State := StateCompleted, ob_ProcessedAt := Some now, ob_LeaseUntil := None, ob_LastError := []\<rparr> else e) (od_events db)\<rparr>"

definition retryDelay :: "int \<Rightarrow> duration" where
  "retryDelay attempts =
     (if attempts \<le> 1 then 2 * second else if attempts = 2 then 10 * second else if attempts = 3 then 30 * second else 2 * minute)"

text \<open>The error message arrives sanitized.\<close>

definition ScheduleRetry :: "outbox_db \<Rightarrow> outbox_event \<Rightarrow> string \<Rightarrow> gotime \<Rightarrow> outbox_db" where
  "ScheduleRetry db event message now =
     db\<lparr>od_events := map (\<lambda>e. if ob_ID e = ob_ID event \<and> ob_State e = StateProcessing
        then e\<lparr>ob_State := StatePending, ob_AvailableAt := now + retryDelay (ob_Attempts event), ob_LeaseUntil := None, ob_LastError := message\<rparr>
        else e) (od_events db)\<rparr>"

definition DeleteCompletedBefore :: "outbox_db \<Rightarrow> gotime \<Rightarrow> outbox_db" where
  "DeleteCompletedBefore db cutoff =
     db\<lparr>od_events := filter (\<lambda>e. \<not> (ob_State e = StateCompleted \<and> (case ob_ProcessedAt e of None \<Rightarrow> False | Some t \<Rightarrow> t < cutoff))) (od_events db)\<rparr>"

end
