(* ===== verification/OutboxProps.thy ===== *)
theory OutboxProps
  imports Outbox
begin

text \<open>
  The fairness of the outbox: the claim over the table equals the in-memory round robin that the
  repository keeps as its reference, and no ready lane waits for more batches than there are lanes.
\<close>

subsection \<open>The queue of a lane\<close>

definition queue :: "(uuid \<Rightarrow> bool) \<Rightarrow> gotime \<Rightarrow> outbox_event list \<Rightarrow> string \<Rightarrow> outbox_event list" where
  "queue locked now es key = oldest_first (filter (\<lambda>e. ob_FairnessKey e = key \<and> ready_at now e \<and> \<not> locked (ob_ID e)) es)"

lemma oldest_ready_queue: "oldest_ready locked now key es = (case queue locked now es key of [] \<Rightarrow> None | e # _ \<Rightarrow> Some e)"
  by (simp add: oldest_ready_def queue_def)

lemma insort_key_map: "insort_key f (g x) (map g xs) = map g (insort_key (\<lambda>y. f (g y)) x xs)"
  by (induction xs) auto

lemma sort_key_map: "sort_key f (map g xs) = map g (sort_key (\<lambda>y. f (g y)) xs)"
  by (induction xs) (simp_all add: insort_key_map)

lemma oldest_first_update:
  assumes "\<And>e. ob_CreatedAt (f e) = ob_CreatedAt e" "\<And>e. ob_ID (f e) = ob_ID e"
  shows "oldest_first (update_event i f es) = update_event i f (oldest_first es)"
proof -
  have "(\<lambda>e. (ob_CreatedAt (if ob_ID e = i then f e else e), ob_ID (if ob_ID e = i then f e else e))) = (\<lambda>e. (ob_CreatedAt e, ob_ID e))"
    using assms by auto
  then show ?thesis by (simp add: oldest_first_def update_event_def sort_key_map)
qed

lemma queue_filter: "queue locked now es key = filter (\<lambda>e. ob_FairnessKey e = key \<and> ready_at now e \<and> \<not> locked (ob_ID e)) (oldest_first es)"
  by (simp add: queue_def oldest_first_def filter_sort)

lemma not_ready_leased: "now \<le> leaseUntil \<Longrightarrow> \<not> ready_at now (leased leaseUntil e)"
  by (simp add: ready_at_def leased_def StatePending_def StateProcessing_def)

lemma filter_tl:
  assumes "filter P xs = e # q" "distinct (map f xs)"
  shows "filter (\<lambda>x. P x \<and> f x \<noteq> f e) xs = q"
proof -
  from assms(1) obtain us vs where xs: "xs = us @ e # vs" and us: "\<forall>u \<in> set us. \<not> P u" and q: "q = filter P vs"
    by (auto simp: filter_eq_Cons_iff)
  have "filter (\<lambda>x. P x \<and> f x \<noteq> f e) us = []" using us by (simp add: filter_empty_conv)
  moreover have "filter (\<lambda>x. P x \<and> f x \<noteq> f e) vs = filter P vs"
    using assms(2) by (intro filter_cong) (auto simp: xs image_iff)
  ultimately show ?thesis by (simp add: xs q)
qed

lemma filter_update:
  assumes "\<And>e. \<not> P (f e)"
  shows "filter P (update_event i f xs) = filter (\<lambda>e. P e \<and> ob_ID e \<noteq> i) xs"
  by (induction xs) (auto simp: update_event_def assms)

lemma queue_claim:
  assumes e: "queue locked now es key = e # q" and d: "distinct (map ob_ID es)" and t: "now \<le> leaseUntil"
  shows "queue locked now (update_event (ob_ID e) (leased leaseUntil) es) = (queue locked now es)(key := q)"
proof
  fix k
  let ?P = "\<lambda>k e. ob_FairnessKey e = k \<and> ready_at now e \<and> \<not> locked (ob_ID e)"
  have "oldest_first (update_event (ob_ID e) (leased leaseUntil) es) = update_event (ob_ID e) (leased leaseUntil) (oldest_first es)"
    by (rule oldest_first_update) (simp_all add: leased_def)
  then have "queue locked now (update_event (ob_ID e) (leased leaseUntil) es) k =
      filter (?P k) (update_event (ob_ID e) (leased leaseUntil) (oldest_first es))" by (simp add: queue_filter)
  also have "\<dots> = filter (\<lambda>x. ?P k x \<and> ob_ID x \<noteq> ob_ID e) (oldest_first es)"
    by (rule filter_update) (simp add: not_ready_leased [OF t])
  finally have q: "queue locked now (update_event (ob_ID e) (leased leaseUntil) es) k = filter (\<lambda>x. ?P k x \<and> ob_ID x \<noteq> ob_ID e) (oldest_first es)" .
  have dist: "distinct (map ob_ID (oldest_first es))" using d by (simp add: oldest_first_def distinct_map)
  have mem: "e \<in> set (oldest_first es)" "?P key e"
    using e unfolding queue_filter by (auto simp: filter_eq_Cons_iff)
  show "queue locked now (update_event (ob_ID e) (leased leaseUntil) es) k = ((queue locked now es)(key := q)) k"
  proof (cases "k = key")
    case True
    with q filter_tl [OF e [unfolded queue_filter] dist] show ?thesis by simp
  next
    case False
    have "filter (\<lambda>x. ?P k x \<and> ob_ID x \<noteq> ob_ID e) (oldest_first es) = filter (?P k) (oldest_first es)"
    proof (rule filter_cong [OF refl])
      fix x assume "x \<in> set (oldest_first es)"
      then have "ob_ID x = ob_ID e \<Longrightarrow> x = e" using dist mem(1) by (auto simp: distinct_map dest: inj_onD)
      then show "(?P k x \<and> ob_ID x \<noteq> ob_ID e) = ?P k x" using False mem(2) by auto
    qed
    with q False show ?thesis by (simp add: queue_filter)
  qed
qed

lemma update_ids: "(\<And>e. ob_ID (f e) = ob_ID e) \<Longrightarrow> map ob_ID (update_event i f es) = map ob_ID es"
  by (simp add: update_event_def comp_def if_distrib cong: if_cong)

subsection \<open>Claims pick in rounds\<close>

lemma claim_pass_picks:
  assumes "distinct (map ob_ID es)" "now \<le> leaseUntil" "length picked < limit"
    and "claim_pass locked limit now leaseUntil keys es (map (claimed_copy leaseUntil) picked) p = (es', selected', p')"
  shows "\<exists>picked'. pick_pass limit keys (queue locked now es) picked p = (queue locked now es', picked', p')
     \<and> selected' = map (claimed_copy leaseUntil) picked' \<and> map ob_ID es' = map ob_ID es"
  using assms
proof (induction keys arbitrary: es picked p)
  case (Cons key keys)
  show ?case
  proof (cases "queue locked now es key")
    case Nil
    with Cons show ?thesis by (simp add: oldest_ready_queue)
  next
    case (Cons e q)
    let ?es = "update_event (ob_ID e) (leased leaseUntil) es"
    have ids: "map ob_ID ?es = map ob_ID es" by (rule update_ids) (simp add: leased_def)
    have q: "(queue locked now es)(key := q) = queue locked now ?es" using queue_claim [OF Cons Cons.prems(1,2)] by simp
    from Cons.prems(3,4) Cons have step: "claim_pass locked limit now leaseUntil keys ?es (map (claimed_copy leaseUntil) (picked @ [e])) True = (es', selected', p')"
      by (simp add: oldest_ready_queue)
    show ?thesis
    proof (cases "length (picked @ [e]) = limit")
      case True
      have "claim_pass locked limit now leaseUntil keys ?es (map (claimed_copy leaseUntil) (picked @ [e])) True = (?es, map (claimed_copy leaseUntil) (picked @ [e]), True)"
        using True by (cases keys) simp_all
      with step True Cons q ids show ?thesis by (auto simp: Let_def)
    next
      case False
      with Cons.prems(3) have "length (picked @ [e]) < limit" by simp
      from Cons.IH [OF _ Cons.prems(2) this step] ids Cons.prems(1) Cons False q show ?thesis by (auto simp: Let_def)
    qed
  qed
qed simp

lemma claim_loop_picks:
  assumes "distinct (map ob_ID es)" "now \<le> leaseUntil" "selected = map (claimed_copy leaseUntil) picked"
  shows "snd (claim_loop locked keys limit now leaseUntil es selected)
     = map (claimed_copy leaseUntil) (pick_loop keys limit (queue locked now es) picked)"
  using assms
proof (induction locked keys limit now leaseUntil es selected arbitrary: picked rule: claim_loop.induct)
  case (1 locked keys limit now leaseUntil es selected)
  show ?case
  proof (cases "length selected < limit")
    case True
    obtain es' selected' progress where pass: "claim_pass locked limit now leaseUntil keys es selected False = (es', selected', progress)"
      by (rule prod_cases3)
    from claim_pass_picks [OF "1.prems"(1,2) _ pass [unfolded "1.prems"(3)]] True "1.prems"(3) obtain picked'
      where p: "pick_pass limit keys (queue locked now es) picked False = (queue locked now es', picked', progress)"
        "selected' = map (claimed_copy leaseUntil) picked'" "map ob_ID es' = map ob_ID es" by auto
    have "progress \<Longrightarrow> snd (claim_loop locked keys limit now leaseUntil es' selected') =
        map (claimed_copy leaseUntil) (pick_loop keys limit (queue locked now es') picked')"
      using "1.IH" [OF True pass [symmetric] refl] p "1.prems" by simp
    then show ?thesis
      using True pass p "1.prems"(3)
      by (simp add: claim_loop.simps [of locked keys limit now leaseUntil es] pick_loop.simps [of keys limit "queue locked now es"])
  next
    case False
    then show ?thesis using "1.prems"(3)
      by (simp add: claim_loop.simps [of locked keys limit now leaseUntil es] pick_loop.simps [of keys limit "queue locked now es"])
  qed
qed

subsection \<open>The lanes of the reference\<close>

lemma lanes_filled: "lane_of (fold (\<lambda>e. add_to_lane (g e) e) cs lanes) key = lane_of lanes key @ filter (\<lambda>e. g e = key) cs"
proof (induction cs arbitrary: lanes)
  case (Cons e cs)
  have "lane_of (add_to_lane k e lanes) key = lane_of lanes key @ (if k = key then [e] else [])" for k
    by (induction k e lanes rule: add_to_lane.induct) (auto simp: lane_of_def)
  with Cons show ?case by simp
qed simp

lemma add_to_lane_keys: "map fst (add_to_lane k e lanes) = map fst lanes @ (if k \<in> fst ` set lanes then [] else [k])"
  by (induction k e lanes rule: add_to_lane.induct) auto

lemma lanes_keys:
  "distinct (map fst lanes) \<Longrightarrow> distinct (map fst (fold (\<lambda>e. add_to_lane (g e) e) cs lanes))
     \<and> fst ` set (fold (\<lambda>e. add_to_lane (g e) e) cs lanes) = fst ` set lanes \<union> g ` set cs"
proof (induction cs arbitrary: lanes)
  case (Cons e cs)
  have k: "fst ` set (add_to_lane (g e) e lanes) = insert (g e) (fst ` set lanes)"
    using arg_cong [OF add_to_lane_keys [of "g e" e lanes], of set] by auto
  have "distinct (map fst (add_to_lane (g e) e lanes))" using Cons.prems by (simp add: add_to_lane_keys)
  from Cons.IH [OF this] k show ?case by auto
qed simp

lemma pick_pass_skips:
  assumes "\<And>key. key \<notin> S \<Longrightarrow> lanes key = []"
  shows "pick_pass limit (filter (\<lambda>key. key \<in> S) keys) lanes selected p = pick_pass limit keys lanes selected p
     \<and> (\<forall>key. key \<notin> S \<longrightarrow> fst (pick_pass limit keys lanes selected p) key = [])"
  using assms
proof (induction keys arbitrary: lanes selected p)
  case (Cons key keys)
  show ?case
  proof (cases "lanes key")
    case Nil
    with Cons show ?thesis by simp
  next
    case q: (Cons e q)
    then have "key \<in> S" using Cons.prems by force
    then have rest: "\<And>k. k \<notin> S \<Longrightarrow> (lanes(key := q)) k = []" using Cons.prems by auto
    from Cons.IH [where lanes = "lanes(key := q)" and selected = "selected @ [e]" and p = True, OF this] q rest \<open>key \<in> S\<close> show ?thesis by (simp add: Let_def del: fun_upd_apply)
  qed
qed simp

lemma pick_loop_skips:
  "(\<And>key. key \<notin> S \<Longrightarrow> lanes key = []) \<Longrightarrow> pick_loop (filter (\<lambda>key. key \<in> S) keys) limit lanes selected = pick_loop keys limit lanes selected"
proof (induction keys limit lanes selected rule: pick_loop.induct)
  case (1 keys limit lanes selected)
  obtain lanes' selected' p where pass: "pick_pass limit keys lanes selected False = (lanes', selected', p)" by (rule prod_cases3)
  from pick_pass_skips [of S lanes limit keys selected False] "1.prems" pass
  have "pick_pass limit (filter (\<lambda>key. key \<in> S) keys) lanes selected False = (lanes', selected', p)" "\<And>key. key \<notin> S \<Longrightarrow> lanes' key = []" by auto
  then show ?case
    using pass "1.IH" [OF _ pass [symmetric] refl]
    by (simp add: pick_loop.simps [of keys limit lanes] pick_loop.simps [of "filter (\<lambda>key. key \<in> S) keys" limit lanes])
qed

text \<open>The pick from the oldest rows, as a loop over the ready lanes and their queues.\<close>

lemma fair_pick_loop:
  assumes named: "\<And>e. e \<in> set es \<Longrightarrow> ob_FairnessKey e = fairnessKey e"
  shows "pickFairBatch (oldest_first (filter (\<lambda>e. ready_at now e \<and> \<not> locked (ob_ID e)) es)) limit = (if limit = 0 then [] else pick_loop (readyFairnessKeys sort es now) limit (queue locked now es) [])"
proof -
  let ?cs = "oldest_first (filter (\<lambda>e. ready_at now e \<and> \<not> locked (ob_ID e)) es)"
  let ?lanes = "fold (\<lambda>e. add_to_lane (fairnessKey e) e) ?cs []"
  let ?keys = "readyFairnessKeys sort es now"
  let ?S = "fairnessKey ` set ?cs"
  have cs: "set ?cs = {e \<in> set es. ready_at now e \<and> \<not> locked (ob_ID e)}" by (auto simp: oldest_first_def)
  have q: "lane_of ?lanes = queue locked now es"
  proof
    fix key
    have "lane_of ?lanes key = filter (\<lambda>e. fairnessKey e = key) ?cs" by (simp add: lanes_filled) (simp add: lane_of_def)
    also have "\<dots> = filter (\<lambda>e. ob_FairnessKey e = key) ?cs" using named cs by (intro filter_cong) auto
    also have "\<dots> = queue locked now es key" by (simp add: queue_def oldest_first_def filter_sort conj_ac)
    finally show "lane_of ?lanes key = queue locked now es key" .
  qed
  have outside: "queue locked now es key = []" if "key \<notin> ?S" for key
    using that named unfolding queue_filter cs by (auto simp: filter_empty_conv oldest_first_def)
  have keys: "distinct (map fst ?lanes)" "set (map fst ?lanes) = ?S" using lanes_keys [of "[]" fairnessKey ?cs] by auto
  have order: "(if 1 < length ?lanes then sort (map fst ?lanes) else map fst ?lanes) = filter (\<lambda>key. key \<in> ?S) ?keys"
  proof -
    have "sort (map fst ?lanes) = filter (\<lambda>key. key \<in> ?S) ?keys"
    proof (rule sorted_distinct_set_unique)
      have "?S \<subseteq> set ?keys" using named by (auto simp: readyFairnessKeys_def cs)
      then show "set (sort (map fst ?lanes)) = set (filter (\<lambda>key. key \<in> ?S) ?keys)" unfolding set_sort keys(2) by auto
    qed (use keys(1) in \<open>auto simp: readyFairnessKeys_def sorted_filter [where f = id, simplified]\<close>)
    moreover have "sort (map fst ?lanes) = map fst ?lanes" if "\<not> 1 < length ?lanes"
      using that by (cases ?lanes) auto
    ultimately show ?thesis by simp
  qed
  have pick: "pickFairBatch ?cs limit = (if limit = 0 \<or> ?cs = [] then [] else pick_loop ?keys limit (queue locked now es) [])"
    using pick_loop_skips [of ?S "queue locked now es" ?keys limit "[]"] outside by (simp add: pickFairBatch_def order [simplified] q Let_def)
  have "pick_loop ?keys limit (queue locked now es) [] = []" if "?cs = []"
  proof -
    have "pick_loop (filter (\<lambda>key. key \<in> ?S) ?keys) limit (queue locked now es) [] = pick_loop ?keys limit (queue locked now es) []"
      using outside by (intro pick_loop_skips) auto
    moreover have "pick_loop [] limit (queue locked now es) [] = []" by (simp add: pick_loop.simps [of "[]"])
    ultimately show ?thesis using that by simp
  qed
  with pick show ?thesis by auto
qed

text \<open>
  Claims are the reference round robin. On a table whose rows carry their own lanes, claiming with
  \<open>SKIP LOCKED\<close> row by row, with the lanes in ascending order, selects exactly the events, in exactly the order, that
  the in-memory \<open>pickFairBatch\<close> picks from the ready rows that nobody else has locked, oldest first.
\<close>

theorem claim_is_fair_pick:
  assumes d: "distinct (map ob_ID es)" and t: "now \<le> leaseUntil" and named: "\<And>e. e \<in> set es \<Longrightarrow> ob_FairnessKey e = fairnessKey e"
  shows "snd (claimFairRows locked es (readyFairnessKeys sort es now) limit now leaseUntil) =
    map (claimed_copy leaseUntil) (pickFairBatch (oldest_first (filter (\<lambda>e. ready_at now e \<and> \<not> locked (ob_ID e)) es)) limit)"
proof (cases "limit = 0 \<or> readyFairnessKeys sort es now = []")
  case True
  have "pick_loop [] limit (queue locked now es) [] = []" by (simp add: pick_loop.simps [of "[]"])
  with True show ?thesis by (auto simp: claimFairRows_def fair_pick_loop [OF named])
next
  case False
  then show ?thesis
    using claim_loop_picks [OF d t, of "[]" "[]" locked "readyFairnessKeys sort es now" limit]
    by (simp add: claimFairRows_def fair_pick_loop [OF named])
qed

subsection \<open>Lanes that wait\<close>

lemma pick_pass_extends: "pick_pass limit keys lanes selected p = (lanes', selected', p') \<Longrightarrow> \<exists>more. selected' = selected @ more"
proof (induction keys arbitrary: lanes selected p)
  case (Cons key keys)
  show ?case
  proof (cases "lanes key")
    case Nil
    with Cons show ?thesis by simp
  next
    case q: (Cons e q)
    show ?thesis
    proof (cases "length (selected @ [e]) = limit")
      case True
      with Cons.prems q have "selected' = selected @ [e]" by (simp add: Let_def)
      then show ?thesis by blast
    next
      case False
      with Cons.prems q have "pick_pass limit keys (lanes(key := q)) (selected @ [e]) True = (lanes', selected', p')"
        by (simp add: Let_def del: fun_upd_apply)
      from Cons.IH [OF this] show ?thesis by auto
    qed
  qed
qed simp

lemma pick_pass_serves:
  assumes "pick_pass limit keys lanes selected p = (lanes', selected', p')" "length selected < limit" "k \<in> set keys" "lanes k \<noteq> []"
    and "\<And>key e. e \<in> set (lanes key) \<Longrightarrow> ob_FairnessKey e = key"
  shows "\<exists>new. selected' = selected @ new \<and> ((\<exists>e \<in> set new. ob_FairnessKey e = k)
     \<or> length selected' = limit \<and> new \<noteq> [] \<and> (\<forall>e \<in> set new. ob_FairnessKey e \<in> set (takeWhile (\<lambda>x. x \<noteq> k) keys)))"
  using assms
proof (induction keys arbitrary: lanes selected p)
  case (Cons key keys)
  note lane = Cons.prems(5)
  show ?case
  proof (cases "lanes key")
    case Nil
    with Cons.prems(3,4) have "key \<noteq> k" "k \<in> set keys" by auto
    moreover from Cons.prems(1) Nil have "pick_pass limit keys lanes selected p = (lanes', selected', p')" by simp
    ultimately obtain new where "selected' = selected @ new" "(\<exists>e \<in> set new. ob_FairnessKey e = k)
       \<or> length selected' = limit \<and> new \<noteq> [] \<and> (\<forall>e \<in> set new. ob_FairnessKey e \<in> set (takeWhile (\<lambda>x. x \<noteq> k) keys))"
      using Cons.IH [where lanes = lanes and selected = selected and p = p] Cons.prems(2,4) lane by blast
    with \<open>key \<noteq> k\<close> show ?thesis by (intro exI [of _ new]) auto
  next
    case q: (Cons e q)
    then have e: "ob_FairnessKey e = key" using lane by force
    show ?thesis
    proof (cases "length (selected @ [e]) = limit")
      case True
      with Cons.prems(1) q have "selected' = selected @ [e]" by (simp add: Let_def)
      with True e show ?thesis by (intro exI [of _ "[e]"]) auto
    next
      case False
      with Cons.prems(1) q have step: "pick_pass limit keys (lanes(key := q)) (selected @ [e]) True = (lanes', selected', p')"
        by (simp add: Let_def del: fun_upd_apply)
      show ?thesis
      proof (cases "key = k")
        case True
        from step have "\<exists>more. selected' = (selected @ [e]) @ more" by (rule pick_pass_extends)
        with e True show ?thesis by auto
      next
        case other: False
        have len: "length (selected @ [e]) < limit" using False Cons.prems(2) by simp
        have "\<And>key' x. x \<in> set ((lanes(key := q)) key') \<Longrightarrow> ob_FairnessKey x = key'"
          using lane q by (auto split: if_splits)
        with Cons.IH [where lanes = "lanes(key := q)" and selected = "selected @ [e]" and p = True, OF step len] Cons.prems(3,4) other obtain new where "selected' = (selected @ [e]) @ new"
          "(\<exists>e \<in> set new. ob_FairnessKey e = k)
             \<or> length selected' = limit \<and> new \<noteq> [] \<and> (\<forall>e \<in> set new. ob_FairnessKey e \<in> set (takeWhile (\<lambda>x. x \<noteq> k) keys))" by auto
        with e other show ?thesis by (intro exI [of _ "e # new"]) auto
      qed
    qed
  qed
qed simp

lemma pick_loop_extends: "\<exists>more. pick_loop keys limit lanes selected = selected @ more"
proof (induction keys limit lanes selected rule: pick_loop.induct)
  case (1 keys limit lanes selected)
  obtain lanes' selected' p where pass: "pick_pass limit keys lanes selected False = (lanes', selected', p)" by (rule prod_cases3)
  obtain more where more: "selected' = selected @ more" using pick_pass_extends [OF pass] by blast
  show ?case
  proof (cases "length selected < limit \<and> p")
    case True
    then obtain rest where "pick_loop keys limit lanes' selected' = selected' @ rest" using "1.IH" [OF _ pass [symmetric] refl] by blast
    with True pass more show ?thesis by (simp add: pick_loop.simps [of keys limit lanes selected])
  next
    case False
    with pass more show ?thesis by (auto simp: pick_loop.simps [of keys limit lanes selected])
  qed
qed

lemma pick_loop_serves:
  assumes "0 < limit" "k \<in> set keys" "lanes k \<noteq> []" and lane: "\<And>key e. e \<in> set (lanes key) \<Longrightarrow> ob_FairnessKey e = key"
  shows "(\<exists>e \<in> set (pick_loop keys limit lanes []). ob_FairnessKey e = k)
     \<or> pick_loop keys limit lanes [] \<noteq> [] \<and> (\<forall>e \<in> set (pick_loop keys limit lanes []). ob_FairnessKey e \<in> set (takeWhile (\<lambda>x. x \<noteq> k) keys))"
proof -
  obtain lanes' selected p where pass: "pick_pass limit keys lanes [] False = (lanes', selected, p)" by (rule prod_cases3)
  from pick_pass_serves [where lanes = lanes and selected = "[]", OF pass _ assms(2,3) lane] assms(1) consider
      (served) "\<exists>e \<in> set selected. ob_FairnessKey e = k"
    | (full) "length selected = limit" "selected \<noteq> []" "\<forall>e \<in> set selected. ob_FairnessKey e \<in> set (takeWhile (\<lambda>x. x \<noteq> k) keys)" by auto
  moreover have "pick_loop keys limit lanes [] = (if p then pick_loop keys limit lanes' selected else selected)"
    using assms(1) pass by (simp add: pick_loop.simps [of keys limit lanes])
  moreover have "\<exists>more. pick_loop keys limit lanes' selected = selected @ more" by (rule pick_loop_extends)
  moreover have "pick_loop keys limit lanes' selected = selected" if "length selected = limit"
    using that by (simp add: pick_loop.simps [of keys limit lanes'])
  ultimately show ?thesis by cases (auto split: if_splits)
qed

text \<open>The lanes between the cursor and a lane, in the circular order.\<close>

definition ahead :: "string \<Rightarrow> string \<Rightarrow> string \<Rightarrow> bool" where
  "ahead c k x \<longleftrightarrow> (if c < k then c < x \<and> x < k else c < x \<or> x < k)"

lemma ahead_shrinks: "ahead c k y \<Longrightarrow> y \<noteq> k \<Longrightarrow> ahead y k x \<Longrightarrow> ahead c k x"
  by (auto simp: ahead_def split: if_splits)

lemma ahead_self: "\<not> ahead y k y" if "y \<noteq> k"
  using that by (auto simp: ahead_def)

lemma takeWhile_sorted: "sorted xs \<Longrightarrow> distinct xs \<Longrightarrow> k \<in> set xs \<Longrightarrow> x \<in> set (takeWhile (\<lambda>y. y \<noteq> k) xs) \<Longrightarrow> x < (k :: string)"
  by (induction xs) (auto split: if_splits)

lemma rotated_ahead:
  assumes "k \<in> set keys" "distinct keys" "TrimSpace c \<noteq> []" "2 \<le> length keys"
    and y: "y \<in> set (takeWhile (\<lambda>x. x \<noteq> k) (rotateFairnessKeys keys c))"
  shows "ahead c k y"
proof -
  let ?ks = "sort keys"
  define A B where ab: "A = takeWhile (\<lambda>k. \<not> c < k) ?ks" "B = dropWhile (\<lambda>k. \<not> c < k) ?ks"
  have ks: "?ks = A @ B" by (simp add: ab)
  have A: "x \<le> c" if "x \<in> set A" for x using that unfolding ab by (meson not_less set_takeWhileD)
  then have all: "takeWhile (\<lambda>k. \<not> c < k) A = A" by (simp add: takeWhile_eq_all_conv not_less)
  have tw: "takeWhile (\<lambda>k. \<not> c < k) (A @ B) = A" using ks ab(1) by metis
  have len: "length keys = length A + length B" using ks by (metis length_append length_sort)
  have rot: "rotateFairnessKeys keys c = B @ A"
    using assms(3,4) by (cases "B = []") (simp_all add: rotateFairnessKeys_def ks tw all Let_def)
  have sorted: "sorted A" "sorted B" "distinct A" "distinct B"
    using ks assms(2) by (metis distinct_append distinct_sort sorted_append sorted_sort)+
  have B: "c < x" if "x \<in> set B" for x
  proof -
    from that obtain b bs where b: "B = b # bs" by (cases B) auto
    then have "c < b" unfolding ab by (metis dropWhile_eq_Cons_conv)
    with b sorted(2) that show ?thesis by (auto intro: order_less_le_trans)
  qed
  have k: "k \<in> set A \<or> k \<in> set B" using assms(1) ks by (metis Un_iff set_append set_sort)
  show ?thesis
  proof (cases "k \<in> set B")
    case True
    with y have "y \<in> set (takeWhile (\<lambda>x. x \<noteq> k) B)" by (simp add: rot takeWhile_append1)
    with True sorted have "y < k" "c < y" "c < k" by (auto intro: takeWhile_sorted B dest: set_takeWhileD)
    then show ?thesis by (simp add: ahead_def)
  next
    case False
    with k have "k \<in> set A" "k \<le> c" by (auto intro: A)
    moreover from y False have "y \<in> set B \<or> y \<in> set (takeWhile (\<lambda>x. x \<noteq> k) A)"
    proof -
      have "takeWhile (\<lambda>x. x \<noteq> k) (B @ A) = B @ takeWhile (\<lambda>x. x \<noteq> k) A" using False by (intro takeWhile_append2) auto
      with y show ?thesis by (simp add: rot)
    qed
    ultimately show ?thesis using sorted takeWhile_sorted B by (auto simp: ahead_def)
  qed
qed

text \<open>One batch: a ready lane is served, or the cursor comes to rest on a lane between the cursor and it.\<close>

lemma normal_already:
  assumes "\<And>e. e \<in> set es \<Longrightarrow> ready_at now e \<Longrightarrow> ob_FairnessKey e \<noteq> []"
  shows "normalizeLegacyFairnessKeys locked es now n = es"
proof -
  have "filter (\<lambda>e. ob_FairnessKey e = [] \<and> ready_at now e \<and> \<not> locked (ob_ID e)) es = []" using assms by (auto simp: filter_empty_conv)
  then show ?thesis by (simp add: normalizeLegacyFairnessKeys_def oldest_first_def)
qed

lemma readyFairnessKeys_set:
  assumes "\<And>xs. mset (collate xs) = mset xs"
  shows "set (readyFairnessKeys collate es now) = {ob_FairnessKey e | e. e \<in> set es \<and> ready_at now e}"
    "distinct (readyFairnessKeys collate es now)"
proof -
  have "mset (readyFairnessKeys collate es now) = mset (remdups (map ob_FairnessKey (filter (ready_at now) es)))"
    by (simp add: readyFairnessKeys_def assms)
  from mset_eq_setD [OF this] mset_eq_imp_distinct_iff [OF this]
  show "set (readyFairnessKeys collate es now) = {ob_FairnessKey e | e. e \<in> set es \<and> ready_at now e}"
    "distinct (readyFairnessKeys collate es now)" by auto
qed

lemma set_rotate_keys: "set (rotateFairnessKeys keys c) = set keys"
proof -
  have "set (drop n xs @ take n xs) = set xs" for n :: nat and xs :: "string list"
    by (metis append_take_drop_id set_append sup_commute)
  then show ?thesis by (simp add: rotateFairnessKeys_def Let_def)
qed

lemma batch_serves:
  assumes d: "distinct (map ob_ID (od_events db))" and l: "0 \<le> lease" and collate: "\<And>xs. mset (collate xs) = mset xs"
    and named: "\<And>e. e \<in> set (od_events db) \<Longrightarrow> ready_at now e \<Longrightarrow> ob_FairnessKey e \<noteq> []"
    and e: "e \<in> set (od_events db)" "ready_at now e" "\<not> locked (ob_ID e)" "ob_FairnessKey e = k"
    and batch: "ClaimBatch collate locked db limit lease now = (db', events)"
  shows "(\<exists>x \<in> set events. ob_FairnessKey x = k)
     \<or> (\<exists>y. od_cursor db' = Some y \<and> y \<noteq> k \<and> (\<exists>x \<in> set (od_events db). ready_at now x \<and> ob_FairnessKey x = y)
          \<and> (\<forall>c. od_cursor db = Some c \<longrightarrow> TrimSpace c \<noteq> [] \<longrightarrow> ahead c k y))"
proof -
  define c where "c = (case od_cursor db of None \<Rightarrow> [] | Some c \<Rightarrow> c)"
  define keys0 where "keys0 = readyFairnessKeys collate (od_events db) now"
  define keys where "keys = rotateFairnessKeys keys0 c"
  define n where "n = nat (if limit \<le> 0 then 10 else limit)"
  define picked where "picked = pick_loop keys n (queue locked now (od_events db)) []"
  have k0: "k \<in> set keys0" using e by (auto simp: keys0_def readyFairnessKeys_set [OF collate])
  then have k: "k \<in> set keys" by (simp add: keys_def set_rotate_keys)
  have n: "0 < n" by (simp add: n_def)
  have q: "queue locked now (od_events db) k \<noteq> []" using e by (auto simp: queue_filter filter_empty_conv oldest_first_def)
  have lane: "x \<in> set (queue locked now (od_events db) key) \<Longrightarrow> ob_FairnessKey x = key" for key x by (simp add: queue_filter)
  have claim: "snd (claimFairRows locked (od_events db) keys n now (now + lease)) = map (claimed_copy (now + lease)) picked"
    using claim_loop_picks [OF d, of now "now + lease" "[]" "[]" locked keys n] l n k by (auto simp: claimFairRows_def picked_def)
  have copy: "ob_FairnessKey (ob_State_update (\<lambda>_. StateProcessing) (claimed_copy t x)) = ob_FairnessKey x" for t x by (simp add: claimed_copy_def)
  have normal: "normalizeLegacyFairnessKeys locked (od_events db) now m = od_events db" for m by (rule normal_already [OF named])
  have "od_cursor db = None \<or> od_cursor db = Some c" "od_cursor db = None \<Longrightarrow> c = []" by (auto simp: c_def split: option.splits)
  then have lock: "lockDispatchCursor db = (db\<lparr>od_cursor := Some c\<rparr>, c)" by (auto simp: lockDispatchCursor_def)
  have result: "events = map (\<lambda>x. ob_State_update (\<lambda>_. StateProcessing) (claimed_copy (now + lease) x)) picked
    \<and> od_cursor db' = (if events = [] then Some c else Some (ob_FairnessKey (last events)))"
    using batch claim unfolding ClaimBatch_def lock Let_def
    by (cases "picked = []") (auto simp: normal n_def keys_def keys0_def case_prod_beta comp_def)
  note ev = conjunct1 [OF result] and cur = conjunct2 [OF result]
  from pick_loop_serves [where lanes = "queue locked now (od_events db)", OF n k q lane, folded picked_def] show ?thesis
  proof
    assume "\<exists>x \<in> set picked. ob_FairnessKey x = k"
    then show ?thesis by (auto simp: ev copy)
  next
    assume p: "picked \<noteq> [] \<and> (\<forall>x \<in> set picked. ob_FairnessKey x \<in> set (takeWhile (\<lambda>x. x \<noteq> k) keys))"
    define y where "y = ob_FairnessKey (last picked)"
    have y: "y \<in> set (takeWhile (\<lambda>x. x \<noteq> k) keys)" using p by (simp add: y_def)
    then have yk: "y \<in> set keys0" "y \<noteq> k" by (auto simp: keys_def dest!: set_takeWhileD) (metis set_rotate_keys)
    have "ahead c k y" if "TrimSpace c \<noteq> []"
    proof (rule rotated_ahead [OF k0 _ that])
      show "distinct keys0" by (simp add: keys0_def readyFairnessKeys_set [OF collate])
      have "card {k, y} \<le> card (set keys0)" using k0 yk by (intro card_mono) auto
      then show "2 \<le> length keys0" using yk(2) card_length [of keys0] by simp
    qed (use y in \<open>simp add: keys_def\<close>)
    moreover have "od_cursor db' = Some y" using p cur by (simp add: ev y_def last_map copy)
    moreover have "\<exists>x \<in> set (od_events db). ready_at now x \<and> ob_FairnessKey x = y"
      using yk(1) by (auto simp: keys0_def readyFairnessKeys_set [OF collate])
    ultimately show ?thesis using yk(2) by (auto simp: c_def)
  qed
qed

text \<open>
  C27. No lane starves. Let \<open>L\<close> be the lanes that have ready rows over some batches, whatever happens to the table
  between them. A lane that has a ready row which nobody has locked in each of \<open>card L + 1\<close> successive batches is served by
  one of them, whatever the batch limit and however many rows the other lanes have.
\<close>

theorem waiting_lane_is_served:
  fixes dbs :: "nat \<Rightarrow> outbox_db"
  assumes L: "finite L" "\<And>x. x \<in> L \<Longrightarrow> TrimSpace x \<noteq> []"
    and rows: "\<And>i. i \<le> card L \<Longrightarrow> distinct (map ob_ID (od_events (dbs i)))"
      "\<And>i e. i \<le> card L \<Longrightarrow> e \<in> set (od_events (dbs i)) \<Longrightarrow> ready_at (now i) e \<Longrightarrow> ob_FairnessKey e \<in> L"
    and env: "0 \<le> lease" "\<And>xs. mset (collate xs) = mset xs"
    and cursor: "\<And>i. i < card L \<Longrightarrow> od_cursor (dbs (Suc i)) = od_cursor (fst (ClaimBatch collate (locked i) (dbs i) limit lease (now i)))"
    and waits: "\<And>i. i \<le> card L \<Longrightarrow> \<exists>e \<in> set (od_events (dbs i)). ready_at (now i) e \<and> \<not> locked i (ob_ID e) \<and> ob_FairnessKey e = k"
  shows "\<exists>i \<le> card L. \<exists>e \<in> set (snd (ClaimBatch collate (locked i) (dbs i) limit lease (now i))). ob_FairnessKey e = k"
proof (rule ccontr)
  let ?batch = "\<lambda>i. ClaimBatch collate (locked i) (dbs i) limit lease (now i)"
  assume "\<not> ?thesis"
  then have never: "\<And>i e. i \<le> card L \<Longrightarrow> e \<in> set (snd (?batch i)) \<Longrightarrow> ob_FairnessKey e \<noteq> k" by blast
  have blank: "TrimSpace [] = []" by code_simp
  have step: "\<exists>y \<in> L. y \<noteq> k \<and> od_cursor (fst (?batch i)) = Some y
      \<and> (\<forall>c. od_cursor (dbs i) = Some c \<longrightarrow> TrimSpace c \<noteq> [] \<longrightarrow> ahead c k y)" if i: "i \<le> card L" for i
  proof -
    from waits [OF i] obtain e where e: "e \<in> set (od_events (dbs i))" "ready_at (now i) e" "\<not> locked i (ob_ID e)" "ob_FairnessKey e = k" by blast
    have named: "x \<in> set (od_events (dbs i)) \<Longrightarrow> ready_at (now i) x \<Longrightarrow> ob_FairnessKey x \<noteq> []" for x
      using rows(2) [OF i] L(2) blank by metis
    have "(\<exists>x \<in> set (snd (?batch i)). ob_FairnessKey x = k)
       \<or> (\<exists>y. od_cursor (fst (?batch i)) = Some y \<and> y \<noteq> k
            \<and> (\<exists>x \<in> set (od_events (dbs i)). ready_at (now i) x \<and> ob_FairnessKey x = y)
            \<and> (\<forall>c. od_cursor (dbs i) = Some c \<longrightarrow> TrimSpace c \<noteq> [] \<longrightarrow> ahead c k y))"
      by (rule batch_serves [where db = "dbs i" and now = "now i" and locked = "locked i" and e = e and collate = collate and lease = lease and limit = limit])
         (use rows(1) [OF i] env named e in simp_all)
    then show ?thesis using rows(2) [OF i] never [OF i] by blast
  qed
  define between where "between i = card {x \<in> L. \<exists>c. od_cursor (fst (?batch i)) = Some c \<and> ahead c k x}" for i
  have less: "between i + i < card L" if "i \<le> card L" for i
    using that
  proof (induction i)
    case 0
    from step [OF 0] obtain y where y: "y \<in> L" "y \<noteq> k" "od_cursor (fst (?batch 0)) = Some y" by blast
    have "y \<notin> {x \<in> L. \<exists>c. od_cursor (fst (?batch 0)) = Some c \<and> ahead c k x}" using y ahead_self by auto
    with y(1) L(1) show ?case unfolding between_def by (auto intro!: psubset_card_mono)
  next
    case (Suc i)
    from step [of i] Suc.prems obtain c where c: "c \<in> L" "c \<noteq> k" "od_cursor (fst (?batch i)) = Some c" by auto
    then have cs: "od_cursor (dbs (Suc i)) = Some c" using cursor [of i] Suc.prems by simp
    with step [OF Suc.prems] L(2) [OF c(1)] obtain y where y: "y \<in> L" "y \<noteq> k" "od_cursor (fst (?batch (Suc i))) = Some y" "ahead c k y" by blast
    have "{x \<in> L. ahead y k x} \<subset> {x \<in> L. ahead c k x}"
      using y ahead_self [OF y(2)] ahead_shrinks [OF y(4,2)] by auto
    then have "between (Suc i) < between i"
      using L(1) y(3) c(3) unfolding between_def by (auto intro: psubset_card_mono)
    with Suc show ?case by simp
  qed
  from less [of "card L"] show False by simp
qed

end
