(* ===== verification/OutboxDispatch.thy ===== *)
theory OutboxDispatch
  imports OutboxProps
begin

text \<open>
  The dispatcher of services/outbox as a system: API processes enqueue events, any number of
  dispatchers claim batches, publish them and record the outcome, processes may stop at any point, and
  completed events are removed after a week. The steps interleave freely. Two histories go beside the
  table: what was accepted into the outbox and what the queues took. Every table a run reaches holds
  well-formed rows only, and no accepted event is ever lost.
\<close>

subsection \<open>The publisher\<close>

datatype queue_target = AgentQueue | WorkerQueue bool | MediaQueue

datatype publish_error = PublishRouteError outbox_error | UnsupportedRuntime string string

definition publish_target :: "string \<Rightarrow> string \<Rightarrow> publish_error + queue_target" where
  "publish_target eventType tenantCode =
     (case RouteFor eventType of
        Inl err \<Rightarrow> Inl (PublishRouteError err)
      | Inr r \<Rightarrow>
          (case ValidateRoute r tenantCode of
             Inl err \<Rightarrow> Inl (PublishRouteError err)
           | Inr _ \<Rightarrow>
               if ro_Runtime r = RuntimeLocalAgent then Inr AgentQueue
               else if ro_Runtime r = RuntimeRustWorker then Inr (WorkerQueue (ro_NotificationLane r))
               else if ro_Runtime r = RuntimeMediaLambda then Inr MediaQueue
               else Inl (UnsupportedRuntime (ro_EventType r) (ro_Runtime r))))"

text \<open>
  \<open>dispatchOnce\<close>: \<open>send\<close> says whether the queue of a target takes an event, \<open>clock\<close> when its
  outcome is recorded, and the context is cancelled after \<open>alive\<close> events.
\<close>

definition publish :: "(queue_target \<Rightarrow> outbox_event \<Rightarrow> bool) \<Rightarrow> outbox_event \<Rightarrow> bool" where
  "publish send e = (case publish_target (ob_EventType e) (ob_TenantCode e) of Inl _ \<Rightarrow> False | Inr q \<Rightarrow> send q e)"

definition dispatch_event ::
  "(queue_target \<Rightarrow> outbox_event \<Rightarrow> bool) \<Rightarrow> (outbox_event \<Rightarrow> string) \<Rightarrow> (outbox_event \<Rightarrow> gotime) \<Rightarrow> outbox_event \<Rightarrow> outbox_db \<Rightarrow> outbox_db" where
  "dispatch_event send failure clock e db =
     (if publish send e then MarkCompleted db (ob_ID e) (clock e) else ScheduleRetry db e (failure e) (clock e))"

definition dispatchOnce ::
  "(string list \<Rightarrow> string list) \<Rightarrow> (uuid \<Rightarrow> bool) \<Rightarrow> (queue_target \<Rightarrow> outbox_event \<Rightarrow> bool) \<Rightarrow> (outbox_event \<Rightarrow> string)
     \<Rightarrow> (outbox_event \<Rightarrow> gotime) \<Rightarrow> nat \<Rightarrow> gotime \<Rightarrow> outbox_db \<Rightarrow> outbox_db" where
  "dispatchOnce collate locked send failure clock alive now db =
     (let (db', events) = ClaimBatch collate locked db 20 (30 * second) now
      in fold (dispatch_event send failure clock) (take alive events) db')"

definition retention :: duration where "retention = 7 * 24 * 60 * minute"

subsection \<open>The system\<close>

type_synonym handoff = "uuid \<times> string \<times> string \<times> string"

definition handoff_of :: "outbox_event \<Rightarrow> handoff" where
  "handoff_of e = (ob_ID e, ob_EventType e, ob_Payload e, ob_TenantCode e)"

record outbox_world =
  ow_db :: outbox_db
  ow_claimed :: "outbox_event list"
  ow_sent :: "outbox_event list"
  ow_accepted :: "handoff list"
  ow_published :: "handoff list"

text \<open>What the callers of \<open>Enqueue\<close> build: a pending event that no dispatcher has seen, under a fresh identity.\<close>

definition new_event :: "outbox_world \<Rightarrow> outbox_event \<Rightarrow> bool" where
  "new_event w e \<longleftrightarrow> ob_State e \<in> {[], StatePending} \<and> ob_LeaseUntil e = None \<and> ob_ID e \<notin> fst ` set (ow_accepted w)"

inductive outbox_step :: "outbox_world \<Rightarrow> outbox_world \<Rightarrow> bool" where
  step_enqueue: "new_event w e \<Longrightarrow> Enqueue (ow_db w) e now = Inr (db, True)
     \<Longrightarrow> outbox_step w (w\<lparr>ow_db := db, ow_accepted := handoff_of e # ow_accepted w\<rparr>)"
| step_claim: "ClaimBatch collate locked (ow_db w) 20 (30 * second) now = (db, events)
     \<Longrightarrow> outbox_step w (w\<lparr>ow_db := db, ow_claimed := ow_claimed w @ events\<rparr>)"
| step_publish: "e \<in> set (ow_claimed w) \<Longrightarrow> publish_target (ob_EventType e) (ob_TenantCode e) = Inr q
     \<Longrightarrow> outbox_step w (w\<lparr>ow_claimed := remove1 e (ow_claimed w), ow_sent := e # ow_sent w, ow_published := handoff_of e # ow_published w\<rparr>)"
| step_complete: "e \<in> set (ow_sent w)
     \<Longrightarrow> outbox_step w (w\<lparr>ow_db := MarkCompleted (ow_db w) (ob_ID e) now, ow_sent := remove1 e (ow_sent w)\<rparr>)"
| step_retry: "e \<in> set (ow_claimed w)
     \<Longrightarrow> outbox_step w (w\<lparr>ow_db := ScheduleRetry (ow_db w) e message now, ow_claimed := remove1 e (ow_claimed w)\<rparr>)"
| step_stop: "mset claimed \<subseteq># mset (ow_claimed w) \<Longrightarrow> mset sent \<subseteq># mset (ow_sent w)
     \<Longrightarrow> outbox_step w (w\<lparr>ow_claimed := claimed, ow_sent := sent\<rparr>)"
| step_cleanup: "outbox_step w (w\<lparr>ow_db := DeleteCompletedBefore (ow_db w) (now - retention)\<rparr>)"

inductive_cases outbox_stepE: "outbox_step w w'"

definition empty_world :: outbox_world where
  "empty_world = \<lparr>ow_db = \<lparr>od_events = [], od_cursor = None\<rparr>, ow_claimed = [], ow_sent = [], ow_accepted = [], ow_published = []\<rparr>"

subsection \<open>Rows\<close>

text \<open>A well-formed row: routed by the registry, and in a state that the dispatcher can go on from.\<close>

definition routed_to :: "string \<Rightarrow> string \<Rightarrow> string \<Rightarrow> string \<Rightarrow> bool" where
  "routed_to eventType tenantCode runtime namespace \<longleftrightarrow>
     (case RouteFor eventType of
        Inl _ \<Rightarrow> False
      | Inr r \<Rightarrow> ValidateRoute r tenantCode = Inr () \<and> runtime = ro_Runtime r \<and> namespace = ro_QueueNamespace r)"

definition row_routed :: "outbox_event \<Rightarrow> bool" where
  "row_routed e \<longleftrightarrow> routed_to (ob_EventType e) (ob_TenantCode e) (ob_TargetRuntime e) (ob_QueueNamespace e)"

definition row_ok :: "outbox_event \<Rightarrow> bool" where
  "row_ok e \<longleftrightarrow> row_routed e \<and> ob_State e \<in> {StatePending, StateProcessing, StateCompleted}
     \<and> (ob_State e = StateProcessing \<longleftrightarrow> ob_LeaseUntil e \<noteq> None)
     \<and> (ob_State e = StateCompleted \<longrightarrow> ob_ProcessedAt e \<noteq> None)"

lemma outbox_states [simp]:
  "StatePending \<noteq> StateProcessing" "StateProcessing \<noteq> StatePending" "StatePending \<noteq> StateCompleted"
  "StateCompleted \<noteq> StatePending" "StateProcessing \<noteq> StateCompleted" "StateCompleted \<noteq> StateProcessing"
  "StatePending \<noteq> []" "StateProcessing \<noteq> []" "StateCompleted \<noteq> []"
  by (simp_all add: StatePending_def StateProcessing_def StateCompleted_def)

text \<open>What an update of a row by a claim leaves as it was.\<close>

definition row_kept :: "outbox_event \<Rightarrow> outbox_event \<Rightarrow> bool" where
  "row_kept e e' \<longleftrightarrow> handoff_of e' = handoff_of e \<and> (row_ok e \<longrightarrow> row_ok e') \<and> (ob_State e' = StateCompleted \<longrightarrow> ob_State e = StateCompleted)"

abbreviation rows_kept :: "outbox_event list \<Rightarrow> outbox_event list \<Rightarrow> bool" where
  "rows_kept \<equiv> list_all2 row_kept"

lemma row_kept_refl [simp]: "row_kept e e"
  by (simp add: row_kept_def)

lemma rows_kept_refl [simp]: "rows_kept es es"
  by (simp add: list.rel_refl)

lemma rows_kept_trans: "rows_kept as bs \<Longrightarrow> rows_kept bs cs \<Longrightarrow> rows_kept as cs"
  by (erule (1) list_all2_trans [rotated]) (auto simp: row_kept_def)

lemma rows_kept_update: "(\<And>e. row_kept e (f e)) \<Longrightarrow> rows_kept es (update_event i f es)"
  by (simp add: update_event_def list_all2_map2 list.rel_refl_strong)

lemma kept_lane: "row_kept e (ob_FairnessKey_update f e)"
  by (auto simp: row_kept_def row_ok_def row_routed_def handoff_of_def)

lemma kept_leased: "row_kept e (leased t e)"
  by (auto simp: row_kept_def row_ok_def row_routed_def handoff_of_def leased_def)

lemma kept_normalized: "rows_kept es (normalizeLegacyFairnessKeys locked es now n)"
proof -
  have "rows_kept es (fold (\<lambda>e. update_event (ob_ID e) (ob_FairnessKey_update (\<lambda>_. fairnessKey e))) xs es)" for xs
  proof (induction xs arbitrary: es)
    case (Cons x xs)
    show ?case
      by simp (rule rows_kept_trans [OF rows_kept_update Cons.IH], rule kept_lane)
  qed simp
  then show ?thesis by (simp add: normalizeLegacyFairnessKeys_def)
qed

lemma kept_handoffs: "rows_kept es es' \<Longrightarrow> handoff_of ` set es' = handoff_of ` set es"
proof -
  assume "rows_kept es es'"
  then have "map handoff_of es' = map handoff_of es" by (induction rule: list_all2_induct) (simp_all add: row_kept_def)
  then show ?thesis by (metis set_map)
qed

lemma kept_rows:
  assumes "rows_kept es es'" "e' \<in> set es'"
  obtains e where "e \<in> set es" "row_kept e e'"
  using assms by (metis list_all2_conv_all_nth in_set_conv_nth)

lemma oldest_ready_row: "oldest_ready locked now k es = Some e \<Longrightarrow> e \<in> set es \<and> ready_at now e"
  by (auto simp: oldest_ready_def oldest_first_def dest!: arg_cong [where f = set] split: list.splits)

lemma claim_pass_kept:
  "claim_pass locked limit now t keys es selected p = (es', selected', p') \<Longrightarrow>
     rows_kept es es' \<and> handoff_of ` set selected' \<subseteq> handoff_of ` set selected \<union> handoff_of ` set es"
proof (induction locked limit now t keys es selected p rule: claim_pass.induct)
  case (2 locked limit now t key keys es selected p)
  show ?case
  proof (cases "length selected = limit \<or> oldest_ready locked now key es = None")
    case True
    with 2 show ?thesis by (auto split: if_splits)
  next
    case False
    then obtain e where e: "oldest_ready locked now key es = Some e" "length selected \<noteq> limit" by auto
    let ?es = "update_event (ob_ID e) (leased t) es"
    have kept: "rows_kept es ?es" by (rule rows_kept_update) (rule kept_leased)
    have "handoff_of (claimed_copy t e) = handoff_of e" by (simp add: handoff_of_def claimed_copy_def)
    with 2(2) [OF e(2,1)] 2(3) e oldest_ready_row [OF e(1)] kept_handoffs [OF kept]
    show ?thesis by (auto intro: rows_kept_trans [OF kept])
  qed
qed auto

lemma claim_loop_kept:
  "claim_loop locked keys limit now t es selected = (es', selected') \<Longrightarrow>
     rows_kept es es' \<and> handoff_of ` set selected' \<subseteq> handoff_of ` set selected \<union> handoff_of ` set es"
proof (induction locked keys limit now t es selected rule: claim_loop.induct)
  case (1 locked keys limit now t es selected)
  obtain es1 s1 p1 where pass: "claim_pass locked limit now t keys es selected False = (es1, s1, p1)" by (metis prod_cases3)
  note first = claim_pass_kept [OF pass]
  have unfold: "claim_loop locked keys limit now t es selected
      = (if length selected < limit then if p1 then claim_loop locked keys limit now t es1 s1 else (es1, s1) else (es, selected))"
    by (subst claim_loop.simps) (simp add: pass)
  show ?case
  proof (cases "length selected < limit \<and> p1")
    case True
    with 1(2) unfold have "claim_loop locked keys limit now t es1 s1 = (es', selected')" by simp
    from 1(1) [OF conjunct1 [OF True] pass [symmetric] refl refl conjunct2 [OF True] this]
    have rest: "rows_kept es1 es'" "handoff_of ` set selected' \<subseteq> handoff_of ` set s1 \<union> handoff_of ` set es1" by simp_all
    show ?thesis
    proof
      show "rows_kept es es'" by (rule rows_kept_trans [OF conjunct1 [OF first] rest(1)])
      show "handoff_of ` set selected' \<subseteq> handoff_of ` set selected \<union> handoff_of ` set es"
        using rest(2) conjunct2 [OF first] unfolding kept_handoffs [OF conjunct1 [OF first]] by (rule subset_trans [OF _ Un_least]) simp
    qed
  next
    case False
    with 1(2) unfold first show ?thesis by (auto split: if_splits)
  qed
qed

lemma ClaimBatch_kept:
  assumes "ClaimBatch collate locked db limit lease now = (db', events)"
  shows "rows_kept (od_events db) (od_events db')" "handoff_of ` set events \<subseteq> handoff_of ` set (od_events db)"
proof -
  have db: "od_events (fst (lockDispatchCursor db)) = od_events db" by (simp add: lockDispatchCursor_def split: option.splits)
  define es where "es = normalizeLegacyFairnessKeys locked (od_events db) now (nat (fairnessNormalizationLimit (if limit \<le> 0 then 10 else limit)))"
  define keys where "keys = rotateFairnessKeys (readyFairnessKeys collate es now) (snd (lockDispatchCursor db))"
  obtain es' sel where claim: "claimFairRows locked es keys (nat (if limit \<le> 0 then 10 else limit)) now (now + lease) = (es', sel)" by fastforce
  have normal: "rows_kept (od_events db) es" unfolding es_def by (rule kept_normalized)
  have "rows_kept es es' \<and> handoff_of ` set sel \<subseteq> handoff_of ` set es"
    using claim claim_loop_kept [of locked keys _ now "now + lease" es "[]" es' sel]
    by (cases "keys = []") (auto simp: claimFairRows_def split: if_splits)
  moreover have "od_events db' = es'" "events = map (ob_State_update (\<lambda>_. StateProcessing)) sel"
    using assms claim [unfolded keys_def es_def] by (auto simp: ClaimBatch_def case_prod_beta db Let_def)
  moreover have "handoff_of (ob_State_update f x) = handoff_of x" for f x by (simp add: handoff_of_def)
  ultimately show "rows_kept (od_events db) (od_events db')" "handoff_of ` set events \<subseteq> handoff_of ` set (od_events db)"
    using normal kept_handoffs [OF normal] by (auto intro: rows_kept_trans simp: image_image)
qed

subsection \<open>The invariant\<close>

lemma Enqueue_Inr:
  assumes "Enqueue db e now = Inr (db', True)" "ob_State e \<in> {[], StatePending}" "ob_LeaseUntil e = None"
  shows "\<exists>row. od_events db' = od_events db @ [row] \<and> handoff_of row = handoff_of e \<and> row_ok row \<and> ob_State row \<noteq> StateCompleted"
proof -
  from assms(1) obtain e0 where e0: "ApplyRoute e = Inr e0" by (auto simp: Enqueue_def bindE_Inr_iff)
  then have "row_routed e0 \<and> handoff_of e0 = handoff_of e \<and> ob_State e0 = ob_State e \<and> ob_LeaseUntil e0 = None"
    using assms(3) by (auto simp: ApplyRoute_def returns_Inr row_routed_def routed_to_def handoff_of_def)
  note kept = this
  define e1 where "e1 = e0\<lparr>ob_FairnessKey := fairnessKey e0\<rparr>"
  define e2 where "e2 = (if ob_State e1 = [] then e1\<lparr>ob_State := StatePending\<rparr> else e1)"
  define row where "row = (if isZero (ob_AvailableAt e2) then e2\<lparr>ob_AvailableAt := now\<rparr> else e2)"
  have "od_events db' = od_events db @ [row]"
    using assms(1) unfolding Enqueue_def e0 bindE_simps Let_def e1_def [symmetric] e2_def [symmetric] row_def [symmetric]
    by (auto split: if_split_asm)
  moreover have "row_routed row" "handoff_of row = handoff_of e" "ob_State row = StatePending" "ob_LeaseUntil row = None"
    using kept assms(2) by (auto simp: row_def e2_def e1_def row_routed_def handoff_of_def)
  ultimately show ?thesis by (auto simp: row_ok_def)
qed

text \<open>Everything that moves was accepted, and a completed row was published.\<close>

definition outbox_inv :: "outbox_world \<Rightarrow> bool" where
  "outbox_inv w \<longleftrightarrow>
     inj_on fst (set (ow_accepted w))
     \<and> handoff_of ` set (od_events (ow_db w)) \<subseteq> set (ow_accepted w)
     \<and> handoff_of ` set (ow_claimed w) \<subseteq> set (ow_accepted w)
     \<and> handoff_of ` set (ow_sent w) \<subseteq> set (ow_published w)
     \<and> set (ow_published w) \<subseteq> set (ow_accepted w)
     \<and> set (ow_accepted w) \<subseteq> set (ow_published w) \<union> handoff_of ` set (od_events (ow_db w))
     \<and> (\<forall>e \<in> set (od_events (ow_db w)). row_ok e \<and> (ob_State e = StateCompleted \<longrightarrow> handoff_of e \<in> set (ow_published w)))"

lemma completed_row:
  assumes "outbox_inv w" "e \<in> set (ow_sent w)" "row \<in> set (od_events (ow_db w))" "ob_ID row = ob_ID e"
  shows "handoff_of row \<in> set (ow_published w)"
proof -
  have "handoff_of row \<in> set (ow_accepted w)" "handoff_of e \<in> set (ow_accepted w)" "handoff_of e \<in> set (ow_published w)"
    using assms by (auto simp: outbox_inv_def)
  moreover have "fst (handoff_of row) = fst (handoff_of e)" using assms(4) by (simp add: handoff_of_def)
  ultimately show ?thesis using assms(1) by (metis outbox_inv_def inj_onD)
qed

lemma remove1_handoffs: "handoff_of ` set xs \<subseteq> A \<Longrightarrow> handoff_of ` set (remove1 e xs) \<subseteq> A"
  by (rule subset_trans [OF image_mono [OF set_remove1_subset]])

lemma outbox_inv_rows:
  assumes "outbox_inv w" "od_events db = map f (od_events (ow_db w))"
    and f: "\<And>x. handoff_of (f x) = handoff_of x" "\<And>x. row_ok x \<Longrightarrow> row_ok (f x)"
    and finished: "\<And>x. x \<in> set (od_events (ow_db w)) \<Longrightarrow> ob_State (f x) = StateCompleted \<Longrightarrow> handoff_of x \<in> set (ow_published w)"
  shows "outbox_inv (w\<lparr>ow_db := db\<rparr>)"
proof -
  have "handoff_of ` set (od_events db) = handoff_of ` set (od_events (ow_db w))" by (simp add: assms(2) image_image f(1))
  with assms(1) show ?thesis using f(2) finished by (auto simp: outbox_inv_def assms(2) f(1))
qed

lemma outbox_inv_step:
  assumes "outbox_step w w'" "outbox_inv w"
  shows "outbox_inv w'"
  using assms(1)
proof cases
  case (step_enqueue e now db)
  from step_enqueue Enqueue_Inr [of "ow_db w" e now db] obtain row where
    row: "od_events db = od_events (ow_db w) @ [row]" "handoff_of row = handoff_of e" "row_ok row" "ob_State row \<noteq> StateCompleted"
    by (auto simp: new_event_def)
  have "inj_on fst (insert (handoff_of e) (set (ow_accepted w)))"
    using step_enqueue assms(2) by (auto simp: new_event_def outbox_inv_def handoff_of_def)
  with assms(2) row step_enqueue show ?thesis by (auto simp: outbox_inv_def)
next
  case (step_claim collate locked now db events)
  note kept = ClaimBatch_kept [OF step_claim(2)]
  have rows: "row_ok e' \<and> (ob_State e' = StateCompleted \<longrightarrow> handoff_of e' \<in> set (ow_published w))" if "e' \<in> set (od_events db)" for e'
  proof -
    from kept(1) that obtain e where "e \<in> set (od_events (ow_db w))" "row_kept e e'" by (rule kept_rows)
    with assms(2) show ?thesis by (auto simp: outbox_inv_def row_kept_def)
  qed
  with assms(2) kept(2) step_claim(1) show ?thesis by (auto simp: outbox_inv_def kept_handoffs [OF kept(1)])
next
  case (step_publish e q)
  with assms(2) set_remove1_subset [of e "ow_claimed w"] show ?thesis by (auto simp: outbox_inv_def image_subset_iff)
next
  case (step_complete e now)
  let ?f = "\<lambda>x. if ob_ID x = ob_ID e \<and> ob_State x = StateProcessing
    then x\<lparr>ob_State := StateCompleted, ob_ProcessedAt := Some now, ob_LeaseUntil := None, ob_LastError := []\<rparr> else x"
  have h: "handoff_of (?f x) = handoff_of x" for x by (simp add: handoff_of_def)
  have "row_ok (?f x)" if "row_ok x" for x using that by (auto simp: row_ok_def row_routed_def)
  moreover have "handoff_of x \<in> set (ow_published w)" if "x \<in> set (od_events (ow_db w))" "ob_State (?f x) = StateCompleted" for x
    using that completed_row [OF assms(2) step_complete(2)] assms(2) by (auto simp: outbox_inv_def split: if_splits)
  moreover have "handoff_of ` set (remove1 e (ow_sent w)) \<subseteq> set (ow_published w)"
    by (rule remove1_handoffs) (use assms(2) in \<open>simp add: outbox_inv_def\<close>)
  moreover have "outbox_inv (w\<lparr>ow_db := MarkCompleted (ow_db w) (ob_ID e) now\<rparr>)"
    using assms(2) calculation(1,2) h by (intro outbox_inv_rows [where f = ?f]) (simp_all add: MarkCompleted_def)
  ultimately show ?thesis using step_complete(1) by (simp add: outbox_inv_def)
next
  case (step_retry e message now)
  let ?f = "\<lambda>x. if ob_ID x = ob_ID e \<and> ob_State x = StateProcessing
    then x\<lparr>ob_State := StatePending, ob_AvailableAt := now + retryDelay (ob_Attempts e), ob_LeaseUntil := None, ob_LastError := message\<rparr> else x"
  have h: "handoff_of (?f x) = handoff_of x" for x by (simp add: handoff_of_def)
  have "row_ok (?f x)" if "row_ok x" for x using that by (auto simp: row_ok_def row_routed_def)
  moreover have "handoff_of x \<in> set (ow_published w)" if "x \<in> set (od_events (ow_db w))" "ob_State (?f x) = StateCompleted" for x
    using that assms(2) by (auto simp: outbox_inv_def split: if_splits)
  moreover have "handoff_of ` set (remove1 e (ow_claimed w)) \<subseteq> set (ow_accepted w)"
    by (rule remove1_handoffs) (use assms(2) in \<open>simp add: outbox_inv_def\<close>)
  moreover have "outbox_inv (w\<lparr>ow_db := ScheduleRetry (ow_db w) e message now\<rparr>)"
    using assms(2) calculation(1,2) h by (intro outbox_inv_rows [where f = ?f]) (simp_all add: ScheduleRetry_def)
  ultimately show ?thesis using step_retry(1) by (simp add: outbox_inv_def)
next
  case (step_stop claimed sent)
  then have "set claimed \<subseteq> set (ow_claimed w)" "set sent \<subseteq> set (ow_sent w)" by (metis mset_subset_eqD set_mset_mset subsetI)+
  with assms(2) step_stop(1) show ?thesis
    by (simp add: outbox_inv_def) (meson image_mono subset_trans)
next
  case (step_cleanup now)
  have "h \<in> set (ow_published w) \<union> handoff_of ` set (od_events (DeleteCompletedBefore (ow_db w) t))" if "h \<in> set (ow_accepted w)" for h t
  proof (cases "h \<in> set (ow_published w)")
    case False
    with that assms(2) obtain e where "e \<in> set (od_events (ow_db w))" "h = handoff_of e" unfolding outbox_inv_def by blast
    moreover from this False assms(2) have "ob_State e \<noteq> StateCompleted" unfolding outbox_inv_def by blast
    ultimately show ?thesis by (simp add: DeleteCompletedBefore_def)
  qed simp
  then have "set (ow_accepted w) \<subseteq> set (ow_published w) \<union> handoff_of ` set (od_events (DeleteCompletedBefore (ow_db w) (now - retention)))"
    by blast
  moreover have "set (od_events (DeleteCompletedBefore (ow_db w) t)) \<subseteq> set (od_events (ow_db w))" for t by (auto simp: DeleteCompletedBefore_def)
  then have "set (od_events (DeleteCompletedBefore (ow_db w) (now - retention))) \<subseteq> set (od_events (ow_db w))" .
  ultimately show ?thesis using assms(2) step_cleanup(1) by (simp add: outbox_inv_def) (meson image_mono subset_trans subsetD)
qed

interpretation outbox: invariant_system outbox_step outbox_inv
  by unfold_locales (rule outbox_inv_step)

lemma outbox_inv_empty: "outbox_inv empty_world"
  by (simp add: outbox_inv_def empty_world_def)

lemma outbox_reaches: "outbox_step\<^sup>*\<^sup>* empty_world w \<Longrightarrow> outbox_inv w"
  by (erule outbox.inv_run) (rule outbox_inv_empty)

text \<open>A row that is well-formed and not completed becomes ready again.\<close>

lemma row_gets_ready:
  assumes "row_ok e" "ob_State e \<noteq> StateCompleted"
  shows "\<exists>t. \<forall>now > t. ready_at now e"
proof (cases "ob_State e = StatePending")
  case True
  then show ?thesis by (intro exI [of _ "ob_AvailableAt e"]) (simp add: ready_at_def)
next
  case False
  with assms obtain t where "ob_State e = StateProcessing" "ob_LeaseUntil e = Some t" by (auto simp: row_ok_def)
  then show ?thesis by (intro exI [of _ t]) (simp add: ready_at_def)
qed

text \<open>Every registered route has a queue, and the queue of the local agents is for ITBEM only.\<close>

lemma routed_target:
  assumes "row_routed e"
  shows "\<exists>q. publish_target (ob_EventType e) (ob_TenantCode e) = Inr q
     \<and> (q = AgentQueue \<longrightarrow> EqualFold (TrimSpace (ob_TenantCode e)) ''itbem'')"
proof -
  from assms obtain r where r: "RouteFor (ob_EventType e) = Inr r" "ValidateRoute r (ob_TenantCode e) = Inr ()"
    by (auto simp: row_routed_def routed_to_def split: sum.splits)
  then have "map_of routes (TrimSpace (ob_EventType e)) = Some r" by (cases "map_of routes (TrimSpace (ob_EventType e))") (simp_all add: RouteFor_def fromOption_def)
  then have "r \<in> snd ` set routes" by (metis imageI map_of_SomeD snd_conv)
  then have "ro_Runtime r = RuntimeLocalAgent \<and> ro_ITBEMOnly r \<or> ro_Runtime r \<noteq> RuntimeLocalAgent \<and> ro_Runtime r \<in> {RuntimeRustWorker, RuntimeMediaLambda}"
    by (auto simp: routes_def RuntimeLocalAgent_def RuntimeRustWorker_def RuntimeMediaLambda_def)
  then show ?thesis
    using r by (auto simp: publish_target_def ValidateRoute_def split: if_splits)
qed

text \<open>
  C16. No accepted event is lost, however claims, publications, failures, crashes and cleanups interleave: it was published,
  or its row is still in the table, not completed, and ready for a claim at every late enough time.
\<close>

theorem no_event_is_lost:
  assumes "outbox_step\<^sup>*\<^sup>* empty_world w" "h \<in> set (ow_accepted w)"
  shows "h \<in> set (ow_published w)
     \<or> (\<exists>e \<in> set (od_events (ow_db w)). handoff_of e = h \<and> ob_State e \<noteq> StateCompleted \<and> (\<exists>t. \<forall>now > t. ready_at now e))"
proof (cases "h \<in> set (ow_published w)")
  case False
  note inv = outbox_reaches [OF assms(1), unfolded outbox_inv_def]
  with False assms(2) have "h \<in> handoff_of ` set (od_events (ow_db w))" by blast
  then obtain e where "e \<in> set (od_events (ow_db w))" "handoff_of e = h" by blast
  moreover from this inv False have "ob_State e \<noteq> StateCompleted" "row_ok e" by blast+
  ultimately show ?thesis using row_gets_ready by blast
qed simp

text \<open>
  C28. Every row of the outbox keeps its type: it carries the runtime and the namespace that the registry gives its event
  type, its state is one of three and has the times the dispatcher needs to go on from it, and publishing it always finds
  a queue, which is the queue of the local agents for tenants of ITBEM only.
\<close>

theorem rows_are_well_formed:
  assumes "outbox_step\<^sup>*\<^sup>* empty_world w" "e \<in> set (od_events (ow_db w))"
  shows "row_ok e \<and> (\<exists>q. publish_target (ob_EventType e) (ob_TenantCode e) = Inr q
     \<and> (q = AgentQueue \<longrightarrow> EqualFold (TrimSpace (ob_TenantCode e)) ''itbem''))"
proof -
  have "row_ok e" using outbox_reaches [OF assms(1)] assms(2) by (auto simp: outbox_inv_def)
  moreover from this have "row_routed e" by (simp add: row_ok_def)
  ultimately show ?thesis using routed_target by blast
qed

subsection \<open>One dispatch as a run\<close>

lemma dispatch_run:
  assumes "mset xs \<subseteq># mset (ow_claimed w)"
  shows "\<exists>w'. outbox_step\<^sup>*\<^sup>* w w' \<and> ow_db w' = fold (dispatch_event send failure clock) xs (ow_db w) \<and> ow_accepted w' = ow_accepted w
     \<and> set (ow_published w') = set (ow_published w) \<union> handoff_of ` {e \<in> set xs. publish send e}"
  using assms
proof (induction xs arbitrary: w)
  case Nil
  then show ?case by (intro exI [of _ w]) simp
next
  case (Cons x xs)
  then have x: "x \<in> set (ow_claimed w)" "mset xs \<subseteq># mset (remove1 x (ow_claimed w))"
    by (auto simp: insert_subset_eq_iff)
  let ?w1 = "w\<lparr>ow_db := dispatch_event send failure clock x (ow_db w), ow_claimed := remove1 x (ow_claimed w),
    ow_published := (if publish send x then handoff_of x # ow_published w else ow_published w)\<rparr>"
  have first: "outbox_step\<^sup>*\<^sup>* w ?w1"
  proof (cases "publish send x")
    case True
    then obtain q where "publish_target (ob_EventType x) (ob_TenantCode x) = Inr q" by (auto simp: publish_def split: sum.splits)
    from step_publish [where w = w, OF x(1) this]
    have a: "outbox_step w (w\<lparr>ow_claimed := remove1 x (ow_claimed w), ow_sent := x # ow_sent w, ow_published := handoff_of x # ow_published w\<rparr>)" .
    let ?sent = "w\<lparr>ow_claimed := remove1 x (ow_claimed w), ow_sent := x # ow_sent w, ow_published := handoff_of x # ow_published w\<rparr>"
    have "?w1 = ?sent\<lparr>ow_db := MarkCompleted (ow_db ?sent) (ob_ID x) (clock x), ow_sent := remove1 x (ow_sent ?sent)\<rparr>"
      using True by (simp add: dispatch_event_def)
    moreover have "x \<in> set (ow_sent ?sent)" by simp
    ultimately have "outbox_step ?sent ?w1" by (simp only: step_complete)
    with a show ?thesis by (meson converse_rtranclp_into_rtranclp r_into_rtranclp)
  next
    case False
    with step_retry [where w = w and message = "failure x" and now = "clock x", OF x(1)] show ?thesis by (simp add: dispatch_event_def r_into_rtranclp)
  qed
  from Cons.IH [of ?w1] x(2) obtain w' where "outbox_step\<^sup>*\<^sup>* ?w1 w'" "ow_db w' = fold (dispatch_event send failure clock) xs (ow_db ?w1)"
    "ow_accepted w' = ow_accepted w" "set (ow_published w') = set (ow_published ?w1) \<union> handoff_of ` {e \<in> set xs. publish send e}" by auto
  with first show ?case by (intro exI [of _ w']) (auto intro: rtranclp_trans)
qed

text \<open>
  C29. \<open>dispatchOnce\<close> refines the steps: whatever the queues answer and wherever the context is cancelled, its effect on the
  table is a run of the system, which accepts nothing and publishes exactly the events of the batch, up to the
  cancellation, that a queue took.
\<close>

theorem dispatchOnce_is_a_run:
  "\<exists>w'. outbox_step\<^sup>*\<^sup>* w w' \<and> ow_db w' = dispatchOnce collate locked send failure clock alive now (ow_db w)
     \<and> ow_accepted w' = ow_accepted w
     \<and> set (ow_published w') = set (ow_published w)
         \<union> handoff_of ` {e \<in> set (take alive (snd (ClaimBatch collate locked (ow_db w) 20 (30 * second) now))). publish send e}"
proof -
  obtain db events where batch: "ClaimBatch collate locked (ow_db w) 20 (30 * second) now = (db, events)" by fastforce
  let ?w1 = "w\<lparr>ow_db := db, ow_claimed := ow_claimed w @ events\<rparr>"
  have "mset (take alive events) \<subseteq># mset (ow_claimed w @ events)"
    by (metis append_take_drop_id mset_append mset_subset_eq_add_left mset_subset_eq_add_right subset_mset.order_trans)
  with dispatch_run [of "take alive events" ?w1 send failure clock] obtain w' where
    "outbox_step\<^sup>*\<^sup>* ?w1 w'" "ow_db w' = fold (dispatch_event send failure clock) (take alive events) db" "ow_accepted w' = ow_accepted w"
    "set (ow_published w') = set (ow_published w) \<union> handoff_of ` {e \<in> set (take alive events). publish send e}" by auto
  moreover have "outbox_step w ?w1" by (rule step_claim [OF batch])
  ultimately show ?thesis
    by (intro exI [of _ w']) (unfold dispatchOnce_def batch, auto intro: converse_rtranclp_into_rtranclp)
qed

end
