(* ===== verification/OutboxRun.thy ===== *)
theory OutboxRun
  imports OutboxDispatch
begin

text \<open>
  Concrete runs of the outbox: one event from its acceptance to its publication, and two lanes that share a dispatcher
  which takes one event at a time. They show that the hypotheses of the theorems on the outbox hold of real tables.
\<close>

subsection \<open>One event\<close>

definition media_event :: outbox_event where
  "media_event =
     \<lparr>ob_ID = 1, ob_EventType = MediaProcessType, ob_TargetRuntime = [], ob_QueueNamespace = [], ob_FairnessKey = [],
      ob_DedupeKey = ''job'', ob_TenantCode = ''eventiapp'', ob_CorrelationID = [], ob_Payload = ''{}'', ob_State = StatePending,
      ob_Attempts = 0, ob_AvailableAt = 100, ob_LeaseUntil = None, ob_LastError = [], ob_ProcessedAt = None, ob_CreatedAt = 100\<rparr>"

definition stored_event :: outbox_event where
  "stored_event = media_event\<lparr>ob_TargetRuntime := RuntimeMediaLambda, ob_QueueNamespace := ''itbem-media'', ob_FairnessKey := ''event:eventiapp:media.process''\<rparr>"

lemma media_enqueued: "Enqueue (ow_db empty_world) media_event 100 = Inr (\<lparr>od_events = [stored_event], od_cursor = None\<rparr>, True)"
  by code_simp

lemma media_claimed:
  "ClaimBatch id (\<lambda>_. False) \<lparr>od_events = [stored_event], od_cursor = None\<rparr> 20 (30 * second) 200
     = (\<lparr>od_events = [leased (200 + 30 * second) stored_event], od_cursor = Some (ob_FairnessKey stored_event)\<rparr>, [claimed_copy (200 + 30 * second) stored_event])"
  by code_simp

definition accepted_world :: outbox_world where
  "accepted_world = empty_world\<lparr>ow_db := \<lparr>od_events = [stored_event], od_cursor = None\<rparr>, ow_accepted := [handoff_of media_event]\<rparr>"

definition claimed_world :: outbox_world where
  "claimed_world = accepted_world\<lparr>ow_db := \<lparr>od_events = [leased (200 + 30 * second) stored_event], od_cursor = Some (ob_FairnessKey stored_event)\<rparr>,
     ow_claimed := [claimed_copy (200 + 30 * second) stored_event]\<rparr>"

lemma accepted_reached: "outbox_step\<^sup>*\<^sup>* empty_world accepted_world"
proof -
  have "new_event empty_world media_event" by (simp add: new_event_def empty_world_def media_event_def)
  from step_enqueue [OF this media_enqueued] show ?thesis
    by (simp add: accepted_world_def r_into_rtranclp) (simp add: empty_world_def r_into_rtranclp)
qed

lemma claimed_reached: "outbox_step\<^sup>*\<^sup>* empty_world claimed_world"
proof -
  have "ow_db accepted_world = \<lparr>od_events = [stored_event], od_cursor = None\<rparr>" by (simp add: accepted_world_def)
  with media_claimed have "outbox_step accepted_world (accepted_world\<lparr>ow_db := \<lparr>od_events = [leased (200 + 30 * second) stored_event], od_cursor = Some (ob_FairnessKey stored_event)\<rparr>,
      ow_claimed := ow_claimed accepted_world @ [claimed_copy (200 + 30 * second) stored_event]\<rparr>)"
    by (intro step_claim [where collate = id and locked = "\<lambda>_. False" and now = 200]) simp
  moreover have "ow_claimed accepted_world = []" by (simp add: accepted_world_def empty_world_def)
  ultimately show ?thesis using accepted_reached by (simp add: claimed_world_def)
qed

lemma no_event_is_lost_witness:
  "handoff_of media_event \<notin> set (ow_published claimed_world)
     \<and> (\<exists>e \<in> set (od_events (ow_db claimed_world)). handoff_of e = handoff_of media_event \<and> ob_State e \<noteq> StateCompleted
          \<and> (\<exists>t. \<forall>now > t. ready_at now e))"
proof -
  have "handoff_of media_event \<in> set (ow_accepted claimed_world)" "handoff_of media_event \<notin> set (ow_published claimed_world)"
    by (simp_all add: claimed_world_def accepted_world_def empty_world_def)
  with no_event_is_lost [OF claimed_reached] show ?thesis by blast
qed

lemma rows_are_well_formed_witness:
  "row_ok (leased (200 + 30 * second) stored_event)
     \<and> publish_target (ob_EventType stored_event) (ob_TenantCode stored_event) = Inr MediaQueue"
proof -
  have "leased (200 + 30 * second) stored_event \<in> set (od_events (ow_db claimed_world))" by (simp add: claimed_world_def)
  from rows_are_well_formed [OF claimed_reached this] have "row_ok (leased (200 + 30 * second) stored_event)" by simp
  moreover have "publish_target (ob_EventType stored_event) (ob_TenantCode stored_event) = Inr MediaQueue" by code_simp
  ultimately show ?thesis by simp
qed

subsection \<open>Two lanes\<close>

definition lane_event :: "uuid \<Rightarrow> string \<Rightarrow> outbox_event" where
  "lane_event i tenant = stored_event\<lparr>ob_ID := i, ob_TenantCode := tenant, ob_FairnessKey := ''event:'' @ tenant @ '':media.process''\<rparr>"

definition lane_rows :: "outbox_event list" where
  "lane_rows = [lane_event 1 ''x'', lane_event 2 ''x'', lane_event 3 ''y'', lane_event 4 ''y'']"

lemma claim_is_fair_pick_witness:
  "snd (claimFairRows (\<lambda>_. False) lane_rows (readyFairnessKeys sort lane_rows 200) 2 200 300)
     = map (claimed_copy 300) [lane_event 1 ''x'', lane_event 3 ''y'']"
proof -
  have "pickFairBatch (oldest_first (filter (\<lambda>e. ready_at 200 e \<and> \<not> False) lane_rows)) 2 = [lane_event 1 ''x'', lane_event 3 ''y'']"
    by code_simp
  moreover have "list_all (\<lambda>e. ob_FairnessKey e = fairnessKey e) lane_rows" by code_simp
  then have "e \<in> set lane_rows \<Longrightarrow> ob_FairnessKey e = fairnessKey e" for e by (simp add: list_all_iff)
  moreover have "distinct (map ob_ID lane_rows)" by code_simp
  ultimately show ?thesis
    using claim_is_fair_pick [of lane_rows 200 300 "\<lambda>_. False" 2] by simp
qed

fun lane_tables :: "nat \<Rightarrow> outbox_db" where
  "lane_tables 0 = \<lparr>od_events = lane_rows, od_cursor = None\<rparr>"
| "lane_tables (Suc i) = fst (ClaimBatch sort (\<lambda>_. False) (lane_tables i) 1 (30 * second) 200)"

definition lane_checks :: "outbox_db \<Rightarrow> bool" where
  "lane_checks db \<longleftrightarrow> distinct (map ob_ID (od_events db))
     \<and> list_all (\<lambda>e. ready_at 200 e \<longrightarrow> ob_FairnessKey e \<in> {''event:x:media.process'', ''event:y:media.process''}) (od_events db)
     \<and> list_ex (\<lambda>e. ready_at 200 e \<and> ob_FairnessKey e = ''event:y:media.process'') (od_events db)"

lemma lane_tables_checks: "i \<le> 2 \<Longrightarrow> lane_checks (lane_tables i)"
proof -
  have "lane_checks (lane_tables 0)" "lane_checks (lane_tables 1)" "lane_checks (lane_tables 2)" by code_simp+
  moreover assume "i \<le> 2"
  then have "i = 0 \<or> i = 1 \<or> i = 2" by auto
  ultimately show ?thesis by auto
qed

lemma waiting_lane_is_served_witness:
  "\<exists>i \<le> 2. \<exists>e \<in> set (snd (ClaimBatch sort (\<lambda>_. False) (lane_tables i) 1 (30 * second) 200)). ob_FairnessKey e = ''event:y:media.process''"
proof -
  let ?L = "{''event:x:media.process'', ''event:y:media.process''}"
  have L: "card ?L = 2" by simp
  have "TrimSpace ''event:x:media.process'' \<noteq> [] \<and> TrimSpace ''event:y:media.process'' \<noteq> []" by code_simp
  moreover note checks = lane_tables_checks [unfolded lane_checks_def list_all_iff list_ex_iff]
  ultimately show ?thesis
    using waiting_lane_is_served [of ?L lane_tables "\<lambda>_. 200" "30 * second" sort "\<lambda>_ _. False" 1 "''event:y:media.process''"]
    unfolding L by (simp add: checks) (metis checks insert_iff empty_iff)
qed

end
