(* ===== verification/Access.thy ===== *)
theory Access
  imports GoStd
begin

text \<open>
  What authorization rests on: the registry of products (internal/products), the vocabulary of
  capabilities (internal/capabilities) and the levels of platform administrators (models/User.go).
\<close>

subsection \<open>Products\<close>

record product =
  pr_Code :: string
  pr_Name :: string
  pr_ProductLabel :: string
  pr_Modules :: "string list"
  pr_AllowsPlatformAuthority :: bool
  pr_SupportsEventOperations :: bool
  pr_SupportsAutomation :: bool

definition EventiApp :: string where "EventiApp = ''eventiapp''"
definition ITBEM :: string where "ITBEM = ''itbem''"
definition CafettonHouse :: string where "CafettonHouse = ''cafettonhouse''"

definition DefaultCode :: string where "DefaultCode = EventiApp"

definition EventiApp_Definition :: product where
  "EventiApp_Definition =
     \<lparr>pr_Code = EventiApp, pr_Name = ''EventiApp'', pr_ProductLabel = ''Event operations'', pr_Modules = [''home'', ''events'', ''metrics''],
      pr_AllowsPlatformAuthority = True, pr_SupportsEventOperations = True, pr_SupportsAutomation = False\<rparr>"

definition ITBEM_Definition :: product where
  "ITBEM_Definition =
     \<lparr>pr_Code = ITBEM, pr_Name = ''ITBEM'', pr_ProductLabel = ''Business operations'',
      pr_Modules = [''home'', ''users'', ''organizations'', ''metrics'', ''automation''],
      pr_AllowsPlatformAuthority = True, pr_SupportsEventOperations = False, pr_SupportsAutomation = True\<rparr>"

definition CafettonHouse_Definition :: product where
  "CafettonHouse_Definition =
     \<lparr>pr_Code = CafettonHouse, pr_Name = ''Cafetton House'', pr_ProductLabel = ''Client operations'',
      pr_Modules = [''home'', ''users'', ''organizations'', ''metrics''],
      pr_AllowsPlatformAuthority = False, pr_SupportsEventOperations = False, pr_SupportsAutomation = False\<rparr>"

lemmas product_definitions = EventiApp_Definition_def ITBEM_Definition_def CafettonHouse_Definition_def

definition orderedDefinitions :: "product list" where
  "orderedDefinitions = [EventiApp_Definition, ITBEM_Definition, CafettonHouse_Definition]"

definition normalizeCode :: "string \<Rightarrow> string" where
  "normalizeCode code = ToLower (TrimSpace code)"

definition ResolveProduct :: "string \<Rightarrow> product option" where
  "ResolveProduct code = find (\<lambda>p. pr_Code p = normalizeCode code) orderedDefinitions"

definition NormalizeOrDefault :: "string \<Rightarrow> string" where
  "NormalizeOrDefault code = (case ResolveProduct code of Some p \<Rightarrow> pr_Code p | None \<Rightarrow> DefaultCode)"

definition AllowsPlatformAuthority :: "string \<Rightarrow> bool" where
  "AllowsPlatformAuthority code = (case ResolveProduct code of Some p \<Rightarrow> pr_AllowsPlatformAuthority p | None \<Rightarrow> False)"

definition SupportsEventOperations :: "string \<Rightarrow> bool" where
  "SupportsEventOperations code = (case ResolveProduct code of Some p \<Rightarrow> pr_SupportsEventOperations p | None \<Rightarrow> False)"

definition SupportsAutomation :: "string \<Rightarrow> bool" where
  "SupportsAutomation code = (case ResolveProduct code of Some p \<Rightarrow> pr_SupportsAutomation p | None \<Rightarrow> False)"

text \<open>Modules and paths that a product keeps to itself, and the flag of the event clients.\<close>

definition EventiAppOrganizationAdminModules :: "string list" where
  "EventiAppOrganizationAdminModules = [''metrics'']"

definition organizationAdminModules :: "(string \<times> string list) list" where
  "organizationAdminModules = [(EventiApp, EventiAppOrganizationAdminModules)]"

definition ModuleRequiresOrganizationAdmin :: "string \<Rightarrow> string \<Rightarrow> bool" where
  "ModuleRequiresOrganizationAdmin product module =
     (case ResolveProduct product of
        None \<Rightarrow> False
      | Some p \<Rightarrow>
          TrimSpace module \<noteq> []
          \<and> list_ex (\<lambda>reserved. EqualFold (TrimSpace reserved) (TrimSpace module))
              (case map_of organizationAdminModules (pr_Code p) of None \<Rightarrow> [] | Some ms \<Rightarrow> ms))"

definition canonical_path :: "string \<Rightarrow> string" where
  "canonical_path path = TrimSuffix (ToLower (TrimSpace path)) ''/''"

definition protectedSurfacePrefixes :: "string list" where
  "protectedSurfacePrefixes =
     [''/api/events'', ''/api/guests'', ''/api/moments'', ''/api/invitations'', ''/api/sections'', ''/api/tables'', ''/api/resources'',
      ''/api/admin/resources'', ''/api/fonts'', ''/api/catalogs/design-templates'', ''/api/catalogs/design-workspace'',
      ''/api/catalogs/color-palettes'', ''/api/catalogs/font-sets'', ''/api/catalogs/resource-types'', ''/api/catalogs/guest-statuses'',
      ''/api/event-types'']"

definition OwnsProtectedSurface :: "string \<Rightarrow> bool" where
  "OwnsProtectedSurface path = list_ex (HasPrefix (canonical_path path)) protectedSurfacePrefixes"

definition OwnsAutomationSurface :: "string \<Rightarrow> bool" where
  "OwnsAutomationSurface path = HasPrefix (canonical_path path) ''/api/automation''"

definition RequiresEventOperationsPath :: "string \<Rightarrow> bool" where
  "RequiresEventOperationsPath path = OwnsProtectedSurface path"

definition RequiresAutomationPath :: "string \<Rightarrow> bool" where
  "RequiresAutomationPath path = OwnsAutomationSurface path"

definition ParseEventClientAccess :: "string \<Rightarrow> bool" where
  "ParseEventClientAccess raw = (ToLower (TrimSpace raw) = ''on'')"

subsection \<open>Capabilities\<close>

type_synonym capability = string

definition CapView :: capability where "CapView = ''view''"
definition CapEventCreate :: capability where "CapEventCreate = ''event:create''"
definition CapEventManage :: capability where "CapEventManage = ''event:manage''"
definition CapEventDelete :: capability where "CapEventDelete = ''event:delete''"
definition CapGuestManage :: capability where "CapGuestManage = ''guest:manage''"
definition CapCheckin :: capability where "CapCheckin = ''checkin:run''"
definition CapAnalyticsView :: capability where "CapAnalyticsView = ''analytics:view''"
definition CapMembersManage :: capability where "CapMembersManage = ''members:manage''"
definition CapOrgManage :: capability where "CapOrgManage = ''organization:manage''"
definition CapMetricsView :: capability where "CapMetricsView = ''metrics:view''"
definition CapEventClientsManage :: capability where "CapEventClientsManage = ''event:clients:manage''"

lemmas capability_names =
  CapView_def CapEventCreate_def CapEventManage_def CapEventDelete_def CapGuestManage_def CapCheckin_def CapAnalyticsView_def
  CapMembersManage_def CapOrgManage_def CapMetricsView_def CapEventClientsManage_def

definition allCapabilities :: "capability list" where
  "allCapabilities =
     [CapView, CapEventCreate, CapEventManage, CapEventDelete, CapGuestManage, CapCheckin, CapAnalyticsView, CapMembersManage, CapOrgManage,
      CapMetricsView, CapEventClientsManage]"

definition sessionNames :: "(capability \<times> string) list" where
  "sessionNames =
     [(CapView, ''events:view''), (CapEventCreate, ''events:create''), (CapEventManage, ''events:manage''), (CapEventDelete, ''events:delete''),
      (CapGuestManage, ''guests:manage''), (CapCheckin, ''checkin:run''), (CapAnalyticsView, ''analytics:view''),
      (CapMembersManage, ''members:manage''), (CapOrgManage, ''organizations:manage''), (CapMetricsView, ''metrics:view''),
      (CapEventClientsManage, ''events:clients:manage'')]"

definition SessionName :: "capability \<Rightarrow> string option" where
  "SessionName capability = map_of sessionNames capability"

definition roleCapabilities :: "(string \<times> capability list) list" where
  "roleCapabilities =
     [(''EVENT_MANAGER'', [CapView, CapEventCreate, CapEventManage, CapGuestManage, CapCheckin, CapAnalyticsView, CapEventClientsManage]),
      (''EDITOR'', [CapView, CapEventManage, CapGuestManage, CapAnalyticsView]),
      (''MEMBER'', [CapView, CapGuestManage]),
      (''CHECKIN'', [CapView, CapCheckin]),
      (''ANALYST'', [CapView, CapAnalyticsView]),
      (''GUEST'', [CapView]),
      (''VIEWER'', [CapView])]"

definition NormalizeRole :: "string \<Rightarrow> string" where
  "NormalizeRole role = TrimPrefix (ToUpper (TrimSpace role)) ''INHERITED_''"

definition IsOrganizationAdmin :: "string \<Rightarrow> bool" where
  "IsOrganizationAdmin role = (NormalizeRole role \<in> {''OWNER'', ''ADMIN''})"

definition IsKnownRole :: "string \<Rightarrow> bool" where
  "IsKnownRole role = (NormalizeRole role \<in> {''OWNER'', ''ADMIN''} \<or> map_of roleCapabilities (NormalizeRole role) \<noteq> None)"

definition RoleCapabilities :: "string \<Rightarrow> capability list" where
  "RoleCapabilities role =
     (let code = NormalizeRole role
      in if code = [] then []
         else if code = ''OWNER'' \<or> code = ''ADMIN'' then allCapabilities
         else case map_of roleCapabilities code of Some known \<Rightarrow> known | None \<Rightarrow> [CapView])"

definition RoleHas :: "string \<Rightarrow> capability \<Rightarrow> bool" where
  "RoleHas role capability = (capability \<in> set (RoleCapabilities role))"

definition EventClientCapabilities :: "capability list" where
  "EventClientCapabilities = [CapView, CapEventManage, CapGuestManage, CapCheckin, CapAnalyticsView]"

definition policyAllowList :: "(string \<times> string list) list" where
  "policyAllowList =
     [(''itbem'', [''dashboard:view'', ''metrics:view'', ''audit:view'', ''automation:view'', ''automation:manage'', ''platform:users:view'',
        ''organizations:view'', ''members:manage'']),
      (''eventiapp'', [''dashboard:view'', ''metrics:view'', ''events:view'', ''events:create'', ''events:manage'', ''guests:manage'',
        ''checkin:run'', ''analytics:view'', ''members:manage'']),
      (''cafettonhouse'', [''dashboard:view'', ''metrics:view'', ''events:view'', ''events:create'', ''events:manage'', ''guests:manage'',
        ''checkin:run'', ''analytics:view'', ''members:manage''])]"

definition policy_names :: "string \<Rightarrow> string list" where
  "policy_names application = (case map_of policyAllowList (normalizeCode application) of None \<Rightarrow> [] | Some names \<Rightarrow> names)"

definition PolicyAllowList :: "string \<Rightarrow> string list" where
  "PolicyAllowList application = sort (policy_names application)"

definition PolicyAllows :: "string \<Rightarrow> string \<Rightarrow> bool" where
  "PolicyAllows application name = (name \<in> set (policy_names application))"

definition PolicyApplications :: "string list" where
  "PolicyApplications = sort (map fst policyAllowList)"

text \<open>Rollout modes: an invalid flag is off, with an error.\<close>

datatype rollout_mode = ModeOff | ModeShadow | ModeEnforce

definition ParseMode :: "string \<Rightarrow> rollout_mode \<times> bool" where
  "ParseMode raw =
     (let v = ToLower (TrimSpace raw)
      in if v = [] \<or> v = ''off'' then (ModeOff, True)
         else if v = ''shadow'' then (ModeShadow, True)
         else if v = ''enforce'' then (ModeEnforce, True)
         else (ModeOff, False))"

subsection \<open>Users\<close>

record auth_user =
  au_ID :: uuid
  au_RootLevel :: int
  au_IsRoot :: bool
  au_AuthTenantCode :: string
  au_AuthApplicationCode :: string
  au_AuthPolicyRestricted :: bool
  au_AuthPolicyCapabilities :: "string list"
  au_SessionApplicationCode :: string
  au_HasMemo :: bool
  au_CognitoSub :: string
  au_Email :: string
  au_FirstName :: string
  au_LastName :: string
  au_ProfileImage :: string
  au_IsActive :: bool

definition RootLevelNone :: int where "RootLevelNone = 0"
definition RootLevelPrimary :: int where "RootLevelPrimary = 1"
definition RootLevelOperational :: int where "RootLevelOperational = 2"

definition EffectiveRootLevel :: "auth_user \<Rightarrow> int" where
  "EffectiveRootLevel u = (if RootLevelNone < au_RootLevel u then au_RootLevel u else if au_IsRoot u then RootLevelPrimary else RootLevelNone)"

definition IsPlatformAdmin :: "auth_user \<Rightarrow> bool" where
  "IsPlatformAdmin u = (RootLevelNone < EffectiveRootLevel u)"

definition IsPrimaryRoot :: "auth_user \<Rightarrow> bool" where
  "IsPrimaryRoot u = (EffectiveRootLevel u = RootLevelPrimary)"

end
