(* ===== verification/OrgTree.thy ===== *)
theory OrgTree
  imports Access
begin

text \<open>
  The tree of organizations: the queries of repositories/clientrepository that answer which role a user
  has in an organization (access\_checks.go) and which organizations a user reaches (clientRepository.go),
  over the tables they read. A recursive query is unrolled level by level. \<open>scan\<close> is the order in which the
  database returns rows that a query leaves unordered.
\<close>

subsection \<open>Tables\<close>

record org_client =
  cl_ID :: uuid
  cl_Code :: string
  cl_IsActive :: bool
  cl_ParentID :: "uuid option"
  cl_Deleted :: bool
  cl_Name :: string
  cl_Logo :: string

record client_member =
  cm_ID :: uuid
  cm_ClientID :: uuid
  cm_UserID :: uuid
  cm_ClientRoleID :: uuid
  cm_IsActive :: bool

record client_role =
  cr_ID :: uuid
  cr_Code :: string

record application =
  ap_ID :: uuid
  ap_Code :: string
  ap_IsActive :: bool
  ap_Name :: string
  ap_Modules :: "string list"
  ap_AllowsPlatformAdmin :: bool

record client_application =
  ca_ClientID :: uuid
  ca_ApplicationID :: uuid
  ca_IsActive :: bool

record member_application =
  cma_ClientMemberID :: uuid
  cma_ApplicationID :: uuid
  cma_IsActive :: bool

record org_tables =
  ot_clients :: "org_client list"
  ot_members :: "client_member list"
  ot_roles :: "client_role list"
  ot_applications :: "application list"
  ot_client_applications :: "client_application list"
  ot_member_applications :: "member_application list"

subsection \<open>The role of a user in an organization\<close>

text \<open>The target and its ancestors, nearest first; the walk stops after 32 levels.\<close>

definition living :: "org_client list \<Rightarrow> uuid \<Rightarrow> org_client option" where
  "living cs i = find (\<lambda>c. cl_ID c = i \<and> \<not> cl_Deleted c) cs"

fun ancestry :: "org_client list \<Rightarrow> nat \<Rightarrow> uuid \<Rightarrow> org_client list" where
  "ancestry cs 0 i = []"
| "ancestry cs (Suc n) i =
     (case living cs i of
        None \<Rightarrow> []
      | Some c \<Rightarrow> c # (case cl_ParentID c of None \<Rightarrow> [] | Some p \<Rightarrow> ancestry cs n p))"

definition maximumLevels :: nat where "maximumLevels = 32"

definition anc :: "org_tables \<Rightarrow> uuid \<Rightarrow> org_client list" where
  "anc t client = ancestry (ot_clients t) maximumLevels client"

text \<open>The active memberships of a user in one organization, with the codes of their roles.\<close>

definition memberships_at :: "(client_member list \<Rightarrow> client_member list) \<Rightarrow> org_tables \<Rightarrow> uuid \<Rightarrow> org_client \<Rightarrow> (uuid \<times> string) list" where
  "memberships_at scan t user c =
     [(cm_ID m, cr_Code r).
        m \<leftarrow> scan (ot_members t), cm_ClientID m = cl_ID c \<and> cm_UserID m = user \<and> cm_IsActive m,
        r \<leftarrow> ot_roles t, cr_ID r = cm_ClientRoleID m]"

definition membership_rows ::
  "(client_member list \<Rightarrow> client_member list) \<Rightarrow> org_tables \<Rightarrow> uuid \<Rightarrow> org_client list \<Rightarrow> (uuid \<times> string \<times> nat) list" where
  "membership_rows scan t user cs =
     [(m, code, level). (level, c) \<leftarrow> List.enumerate 0 cs, (m, code) \<leftarrow> memberships_at scan t user c]"

definition resolveOrganizationRole :: "string \<Rightarrow> nat \<Rightarrow> bool \<times> string" where
  "resolveOrganizationRole roleCode level =
     (if roleCode = [] then (False, [])
      else if level = 0 then (True, roleCode)
      else let roleUpper = ToUpper roleCode
           in if roleUpper = ''OWNER'' \<or> roleUpper = ''ADMIN'' then (True, ''INHERITED_'' @ roleUpper) else (False, []))"

definition checkAccessRecursiveE :: "(client_member list \<Rightarrow> client_member list) \<Rightarrow> org_tables \<Rightarrow> uuid \<Rightarrow> uuid \<Rightarrow> bool \<times> string" where
  "checkAccessRecursiveE scan t user client =
     (case membership_rows scan t user (anc t client) of
        [] \<Rightarrow> resolveOrganizationRole [] 0
      | (_, code, level) # _ \<Rightarrow> resolveOrganizationRole code level)"

subsection \<open>The entitlement to a product\<close>

record application_access =
  aa_Allowed :: bool
  aa_Role :: string
  aa_Entitled :: bool
  aa_Reason :: string

record access_row =
  rw_RoleCode :: string
  rw_Level :: nat
  rw_TargetActive :: bool
  rw_TargetProduct :: string
  rw_ProductEnabled :: bool
  rw_MemberEntitled :: bool

definition no_row :: access_row where
  "no_row = \<lparr>rw_RoleCode = [], rw_Level = 0, rw_TargetActive = False, rw_TargetProduct = [], rw_ProductEnabled = False, rw_MemberEntitled = False\<rparr>"

text \<open>The nearest ancestor whose code is that of an active application.\<close>

definition branded :: "org_tables \<Rightarrow> org_client list \<Rightarrow> (uuid \<times> application) option" where
  "branded t cs =
     (case [(cl_ID c, a). c \<leftarrow> cs, a \<leftarrow> ot_applications t, ToLower (ap_Code a) = ToLower (cl_Code c) \<and> ap_IsActive a] of
        [] \<Rightarrow> None
      | b # _ \<Rightarrow> Some b)"

definition applicationAccessRow ::
  "(client_member list \<Rightarrow> client_member list) \<Rightarrow> org_tables \<Rightarrow> uuid \<Rightarrow> uuid \<Rightarrow> string \<Rightarrow> access_row" where
  "applicationAccessRow scan t user client app =
     (let cs = anc t client; b = branded t cs
      in case membership_rows scan t user cs of
           [] \<Rightarrow> no_row
         | (m, code, level) # _ \<Rightarrow>
             \<lparr>rw_RoleCode = code, rw_Level = level,
              rw_TargetActive = (case cs of [] \<Rightarrow> False | c # _ \<Rightarrow> cl_IsActive c),
              rw_TargetProduct = (case b of None \<Rightarrow> [] | Some (_, a) \<Rightarrow> ToLower (ap_Code a)),
              rw_ProductEnabled =
                (case b of
                   None \<Rightarrow> False
                 | Some (root, a) \<Rightarrow>
                     list_ex (\<lambda>ca. ca_ClientID ca = root \<and> ca_ApplicationID ca = ap_ID a \<and> ca_IsActive ca) (ot_client_applications t)),
              rw_MemberEntitled =
                list_ex (\<lambda>cma. cma_ClientMemberID cma = m \<and> cma_IsActive cma
                    \<and> list_ex (\<lambda>a. ap_ID a = cma_ApplicationID cma \<and> ap_IsActive a \<and> ToLower (ap_Code a) = app) (ot_applications t))
                  (ot_member_applications t)\<rparr>)"

definition evaluateApplicationAccess :: "access_row \<Rightarrow> string \<Rightarrow> application_access" where
  "evaluateApplicationAccess row app =
     (let (allowed, role) = resolveOrganizationRole (rw_RoleCode row) (rw_Level row);
          access = \<lparr>aa_Allowed = allowed, aa_Role = role, aa_Entitled = False, aa_Reason = []\<rparr>
      in if \<not> allowed then access
         else if \<not> rw_TargetActive row then access\<lparr>aa_Reason := ''organization_inactive''\<rparr>
         else if \<not> EqualFold (rw_TargetProduct row) app then access\<lparr>aa_Reason := ''product_mismatch''\<rparr>
         else if \<not> rw_ProductEnabled row then access\<lparr>aa_Reason := ''product_disabled''\<rparr>
         else if \<not> rw_MemberEntitled row then access\<lparr>aa_Reason := ''member_not_entitled''\<rparr>
         else access\<lparr>aa_Entitled := True\<rparr>)"

definition checkApplicationAccessRecursive ::
  "(client_member list \<Rightarrow> client_member list) \<Rightarrow> org_tables \<Rightarrow> uuid \<Rightarrow> uuid \<Rightarrow> string \<Rightarrow> application_access" where
  "checkApplicationAccessRecursive scan t user client app0 =
     (let app = ToLower (TrimSpace app0) in evaluateApplicationAccess (applicationAccessRow scan t user client app) app)"

subsection \<open>The organizations a user reaches\<close>

text \<open>
  Rows of the recursive query: an organization, the role it came with and its depth. Roles of owners and
  administrators descend, except into the portal of another application. Without an application the query
  has no bound; a tree has no more levels than organizations.
\<close>

type_synonym reach_row = "uuid \<times> string \<times> nat"

definition direct_rows :: "org_tables \<Rightarrow> uuid \<Rightarrow> reach_row list" where
  "direct_rows t user =
     [(cm_ClientID m, cr_Code r, 0). m \<leftarrow> ot_members t, cm_UserID m = user \<and> cm_IsActive m, r \<leftarrow> ot_roles t, cr_ID r = cm_ClientRoleID m]"

definition foreign_portal :: "org_tables \<Rightarrow> string \<Rightarrow> org_client \<Rightarrow> bool" where
  "foreign_portal t app c =
     (app \<noteq> [] \<and> list_ex (\<lambda>a. ToLower (ap_Code a) = ToLower (cl_Code c) \<and> ToLower (ap_Code a) \<noteq> app) (ot_applications t))"

definition child_rows :: "org_tables \<Rightarrow> string \<Rightarrow> reach_row \<Rightarrow> reach_row list" where
  "child_rows t app = (\<lambda>(client, role, depth).
     [(cl_ID c, role, Suc depth).
        c \<leftarrow> ot_clients t, cl_ParentID c = Some client \<and> \<not> cl_Deleted c \<and> ToUpper role \<in> {''OWNER'', ''ADMIN''} \<and> \<not> foreign_portal t app c])"

fun reachable_rows :: "org_tables \<Rightarrow> string \<Rightarrow> nat \<Rightarrow> reach_row list \<Rightarrow> reach_row list" where
  "reachable_rows t app 0 rows = rows"
| "reachable_rows t app (Suc n) rows = rows @ reachable_rows t app n (concat (map (child_rows t app) rows))"

definition scopedAccess :: "org_tables \<Rightarrow> uuid \<Rightarrow> string \<Rightarrow> reach_row list" where
  "scopedAccess t user applicationCode =
     (let app = ToLower (TrimSpace applicationCode)
      in reachable_rows t app (if app = [] then length (ot_clients t) else 31) (direct_rows t user))"

text \<open>\<open>DISTINCT ON\<close> keeps a row of the smallest depth.\<close>

definition access_role :: "reach_row list \<Rightarrow> uuid \<Rightarrow> string option" where
  "access_role rows client =
     (case sort_key (\<lambda>(_, _, depth). depth) (filter (\<lambda>(c, _, _). c = client) rows) of
        [] \<Rightarrow> None
      | (_, role, depth) # _ \<Rightarrow> Some (if depth = 0 then role else ''INHERITED_'' @ role))"

definition ReachableClientIDsInApplication :: "org_tables \<Rightarrow> uuid \<Rightarrow> string \<Rightarrow> uuid list \<Rightarrow> uuid \<Rightarrow> bool" where
  "ReachableClientIDsInApplication t user applicationCode ids client =
     (client \<in> set ids \<and> list_ex (\<lambda>c. cl_ID c = client \<and> \<not> cl_Deleted c) (ot_clients t)
      \<and> list_ex (\<lambda>(c, _, _). c = client) (scopedAccess t user applicationCode))"

end
