(* ===== verification/Authz.thy ===== *)
theory Authz
  imports OrgTree "HOL-Library.AList"
begin

text \<open>
  internal/authz: who may do what. authz.go holds the checks of organizations, events and the things in
  them, enforcement.go the product entitlement and the policy ceiling with their rollout modes,
  event\_authority.go the precedence platform, organization, event client. The hooks that read the database
  are an argument; a hook that is not configured is \<open>None\<close>, one that succeeds returns a row. A request
  carries two caches, which every check reads and fills. Logging of shadow denials changes no decision;
  the bounded set that keeps it from repeating is \<open>shadow_first\<close>.
\<close>

subsection \<open>Failures, hooks and requests\<close>

record failure =
  fl_Status :: nat
  fl_Message :: string
  fl_Detail :: string

definition fails :: "nat \<Rightarrow> string \<Rightarrow> string \<Rightarrow> failure" where
  "fails status message detail = \<lparr>fl_Status = status, fl_Message = message, fl_Detail = detail\<rparr>"

definition forbidden :: "string \<Rightarrow> failure" where
  "forbidden detail = fails 403 ''Access denied'' detail"

definition dependencyFailure :: "string \<Rightarrow> failure" where
  "dependencyFailure name = fails 500 ''Authorization dependency unavailable'' (name @ '' hook is not configured'')"

datatype lookup_error = RecordNotFound string | LookupError string

definition lookupFailure :: "string \<Rightarrow> lookup_error \<Rightarrow> failure" where
  "lookupFailure kind err =
     (case err of
        RecordNotFound d \<Rightarrow> fails 404 (kind @ '' not found'') d
      | LookupError d \<Rightarrow> fails 500 (kind @ '' lookup failed'') d)"

definition organizationLookupFailure :: failure where
  "organizationLookupFailure = fails 500 ''Authorization error'' ''Organization access lookup failed''"

record auth_event =
  ev_ID :: uuid
  ev_ClientID :: "uuid option"

record auth_hooks =
  hk_SyncUser :: "(string \<Rightarrow> string + auth_user) option"
  hk_CheckAccessRecursive :: "(uuid \<Rightarrow> uuid \<Rightarrow> bool \<times> string) option"
  hk_CheckAccessRecursiveE :: "(uuid \<Rightarrow> uuid \<Rightarrow> string + bool \<times> string) option"
  hk_CheckApplicationAccessRecursive :: "(uuid \<Rightarrow> uuid \<Rightarrow> string \<Rightarrow> string + application_access) option"
  hk_GetClientByID :: "(uuid \<Rightarrow> org_client option) option"
  hk_GetEventByIDRaw :: "(uuid \<Rightarrow> lookup_error + auth_event) option"
  hk_GetEventSectionByID :: "(uuid \<Rightarrow> lookup_error + uuid) option"
  hk_GetMomentByID :: "(uuid \<Rightarrow> lookup_error + uuid option) option"
  hk_GetGuestByID :: "(uuid \<Rightarrow> lookup_error + uuid) option"
  hk_GetInvitationByIDLite :: "(uuid \<Rightarrow> lookup_error + uuid) option"
  hk_GetResourceByID :: "(uuid \<Rightarrow> lookup_error + uuid option) option"
  hk_GetEventMemberRole :: "(uuid \<Rightarrow> uuid \<Rightarrow> string + string option) option"
  hk_HasEventClientGrant :: "(uuid \<Rightarrow> uuid \<Rightarrow> string + bool) option"
  hk_ResolveClientProduct :: "(uuid \<Rightarrow> string + string) option"
  hk_GetEventMemberRoles :: "(uuid list \<Rightarrow> uuid \<Rightarrow> string + (uuid \<times> string) list) option"
  hk_ReachableClientIDsInApplication :: "(uuid \<Rightarrow> string \<Rightarrow> uuid list \<Rightarrow> string + (uuid \<Rightarrow> bool)) option"

record enforcement =
  en_entitlement :: rollout_mode
  en_ceiling :: rollout_mode

text \<open>The values of a request context: tenant code, subject of the token, application session.\<close>

record request =
  rq_tenant_code :: string
  rq_cognito_sub :: string
  rq_session :: "(string \<times> string list \<times> bool) option"

datatype event_authority = AuthorityOrganization application_access | AuthorityPlatform | AuthorityEventClient

record auth_memo =
  mm_access :: "((uuid \<times> uuid \<times> bool) \<times> application_access) list"
  mm_authority :: "((uuid \<times> uuid option) \<times> event_authority) list"

definition no_memo :: auth_memo where
  "no_memo = \<lparr>mm_access = [], mm_authority = []\<rparr>"

text \<open>A check reads and extends the caches, and fails or returns a value.\<close>

type_synonym 'a check = "auth_memo \<Rightarrow> (failure + 'a) \<times> auth_memo"

definition give :: "'a \<Rightarrow> 'a check" where "give x = (\<lambda>m. (Inr x, m))"

definition deny :: "failure \<Rightarrow> 'a check" where "deny f = (\<lambda>m. (Inl f, m))"

definition lift :: "failure + 'a \<Rightarrow> 'a check" where "lift r = (\<lambda>m. (r, m))"

definition andThen :: "'a check \<Rightarrow> ('a \<Rightarrow> 'b check) \<Rightarrow> 'b check" where
  "andThen c k = (\<lambda>m. case c m of (Inl f, m') \<Rightarrow> (Inl f, m') | (Inr x, m') \<Rightarrow> k x m')"

definition hook :: "string \<Rightarrow> 'h option \<Rightarrow> failure + 'h" where
  "hook name h = (case h of None \<Rightarrow> Inl (dependencyFailure name) | Some f \<Rightarrow> Inr f)"

subsection \<open>The current user\<close>

definition stampRequestAuthorization :: "request \<Rightarrow> auth_user \<Rightarrow> auth_user" where
  "stampRequestAuthorization rq u =
     (let tenant = ToLower (TrimSpace (rq_tenant_code rq));
          code = (case rq_session rq of None \<Rightarrow> [] | Some (code, _) \<Rightarrow> ToLower (TrimSpace code));
          (allowed, restricted) = (case rq_session rq of None \<Rightarrow> ([], False) | Some (_, ceiling) \<Rightarrow> ceiling)
      in u\<lparr>au_AuthApplicationCode := (if code \<noteq> [] then code else tenant), au_AuthPolicyRestricted := restricted,
           au_AuthPolicyCapabilities := allowed, au_HasMemo := True\<rparr>)"

definition scopeUserToTenant :: "request \<Rightarrow> auth_user \<Rightarrow> auth_user" where
  "scopeUserToTenant rq u =
     (let tenantCode = rq_tenant_code rq;
          u1 = (case ResolveProduct tenantCode of Some p \<Rightarrow> u\<lparr>au_SessionApplicationCode := pr_Code p\<rparr> | None \<Rightarrow> u);
          u2 = (if tenantCode \<noteq> [] \<and> \<not> AllowsPlatformAuthority tenantCode
                then u1\<lparr>au_IsRoot := False, au_RootLevel := RootLevelNone, au_AuthTenantCode := ToLower (TrimSpace tenantCode)\<rparr> else u1)
      in stampRequestAuthorization rq u2)"

definition cognitoSubFromContext :: "request \<Rightarrow> failure + string" where
  "cognitoSubFromContext rq =
     (if rq_cognito_sub rq = [] then Inl (fails 401 ''Unauthorized'' ''Invalid token'') else Inr (rq_cognito_sub rq))"

definition currentUserByCognitoSub :: "auth_hooks \<Rightarrow> string \<Rightarrow> failure + auth_user" where
  "currentUserByCognitoSub hk sub =
     bindE (hook ''SyncUser'' (hk_SyncUser hk)) (\<lambda>sync.
       case sync sub of Inl d \<Rightarrow> Inl (fails 401 ''User not found'' d) | Inr u \<Rightarrow> Inr u)"

definition CurrentUser :: "auth_hooks \<Rightarrow> request \<Rightarrow> failure + auth_user" where
  "CurrentUser hk rq =
     bindE (cognitoSubFromContext rq) (\<lambda>sub.
     bindE (currentUserByCognitoSub hk sub) (\<lambda>u. Inr (scopeUserToTenant rq u)))"

definition RequireRoot :: "auth_hooks \<Rightarrow> request \<Rightarrow> failure + auth_user" where
  "RequireRoot hk rq =
     bindE (CurrentUser hk rq) (\<lambda>u. if IsPlatformAdmin u then Inr u else Inl (fails 403 ''Forbidden'' ''Admin only''))"

definition RequirePrimaryRoot :: "auth_hooks \<Rightarrow> request \<Rightarrow> failure + auth_user" where
  "RequirePrimaryRoot hk rq =
     bindE (CurrentUser hk rq) (\<lambda>u.
       if IsPrimaryRoot u then Inr u else Inl (fails 403 ''Forbidden'' ''Primary platform administrator required''))"

subsection \<open>Capabilities of platform administrators, members and event clients\<close>

definition platformHasCapability :: "auth_user \<Rightarrow> capability \<Rightarrow> bool" where
  "platformHasCapability u capability =
     (if IsPrimaryRoot u then True
      else if EffectiveRootLevel u \<noteq> RootLevelOperational then False
      else capability \<in> {CapView, CapGuestManage, CapCheckin, CapAnalyticsView, CapMetricsView, CapMembersManage})"

definition PlatformRootMayGrantRole :: "auth_user \<Rightarrow> string \<Rightarrow> bool" where
  "PlatformRootMayGrantRole u roleCode =
     (IsPlatformAdmin u \<and> list_all (\<lambda>c. \<not> (RoleHas roleCode c \<and> \<not> platformHasCapability u c)) allCapabilities)"

definition eventRoleHasCapability :: "string \<Rightarrow> capability \<Rightarrow> bool" where
  "eventRoleHasCapability role capability =
     (let code = ToUpper (TrimSpace role)
      in if code \<in> {''EVENT_OWNER'', ''OWNER'', ''MANAGER'', ''EVENT_MANAGER''} then True
         else if capability = CapView then code \<in> {''EDITOR'', ''CHECKIN'', ''ANALYST'', ''VIEWER''}
         else if capability = CapEventCreate then False
         else if capability = CapEventManage then code = ''EDITOR''
         else if capability = CapEventDelete then False
         else if capability = CapGuestManage then code = ''EDITOR''
         else if capability = CapCheckin then code \<in> {''EDITOR'', ''CHECKIN''}
         else if capability = CapAnalyticsView then code \<in> {''EDITOR'', ''ANALYST''}
         else False)"

definition eventClientCeiling :: "capability list" where
  "eventClientCeiling = [CapView, CapEventManage, CapGuestManage, CapCheckin, CapAnalyticsView]"

definition eventClientHasCapability :: "capability \<Rightarrow> bool" where
  "eventClientHasCapability capability = (capability \<in> set eventClientCeiling)"

subsection \<open>Entitlement and ceiling\<close>

definition enforceProductEntitlement :: "enforcement \<Rightarrow> application_access \<Rightarrow> failure + unit" where
  "enforceProductEntitlement en access =
     (if \<not> aa_Allowed access \<or> aa_Entitled access then Inr ()
      else case en_entitlement en of
          ModeEnforce \<Rightarrow> Inl (forbidden ''Your organization is not enabled for this application'')
        | _ \<Rightarrow> Inr ())"

definition enforcePolicyCeiling :: "enforcement \<Rightarrow> auth_user \<Rightarrow> capability \<Rightarrow> failure + unit" where
  "enforcePolicyCeiling en u capability =
     (if en_ceiling en = ModeOff \<or> \<not> au_AuthPolicyRestricted u \<or> IsPrimaryRoot u then Inr ()
      else case SessionName capability of
          None \<Rightarrow> Inr ()
        | Some name \<Rightarrow>
            if \<not> PolicyAllows (au_AuthApplicationCode u) name then Inr ()
            else if name \<in> set (au_AuthPolicyCapabilities u) then Inr ()
            else if en_ceiling en = ModeShadow then Inr ()
            else Inl (forbidden ''Your application access policy does not allow this action''))"

definition finalizeAuthorityDecision :: "enforcement \<Rightarrow> auth_user \<Rightarrow> capability \<Rightarrow> application_access \<Rightarrow> failure + unit" where
  "finalizeAuthorityDecision en u capability access =
     bindE (enforceProductEntitlement en access) (\<lambda>_. enforcePolicyCeiling en u capability)"

text \<open>The log of shadow denials: whether a key is new within its time to live. At capacity expired keys are dropped, then all.\<close>

definition shadow_room :: "duration \<Rightarrow> nat \<Rightarrow> gotime \<Rightarrow> (string \<times> gotime) list \<Rightarrow> (string \<times> gotime) list" where
  "shadow_room ttl maximum now seen =
     (if length seen < maximum then seen
      else let alive = filter (\<lambda>(_, seenAt). now - seenAt < ttl) seen in if length alive < maximum then alive else [])"

definition shadow_first :: "duration \<Rightarrow> nat \<Rightarrow> gotime \<Rightarrow> string \<Rightarrow> (string \<times> gotime) list \<Rightarrow> bool \<times> (string \<times> gotime) list" where
  "shadow_first ttl maximum now key seen =
     (if (case map_of seen key of None \<Rightarrow> False | Some seenAt \<Rightarrow> now - seenAt < ttl) then (False, seen)
      else (True, AList.update key now (shadow_room ttl maximum now seen)))"

subsection \<open>Organizations\<close>

datatype access_scope = ScopeOrganization | ScopeEventResource

definition checkAccessRecursive :: "auth_hooks \<Rightarrow> uuid \<Rightarrow> uuid \<Rightarrow> failure + bool \<times> string" where
  "checkAccessRecursive hk user client =
     (case hk_CheckAccessRecursiveE hk of
        Some f \<Rightarrow> (case f user client of Inl _ \<Rightarrow> Inl organizationLookupFailure | Inr r \<Rightarrow> Inr r)
      | None \<Rightarrow>
          (case hk_CheckAccessRecursive hk of
             Some f \<Rightarrow> Inr (f user client)
           | None \<Rightarrow> Inl (dependencyFailure ''CheckAccessRecursive'')))"

definition organization_access :: "auth_hooks \<Rightarrow> enforcement \<Rightarrow> auth_user \<Rightarrow> uuid \<Rightarrow> bool \<Rightarrow> failure + application_access" where
  "organization_access hk en u client evaluateEntitlement =
     (case (if evaluateEntitlement then hk_CheckApplicationAccessRecursive hk else None) of
        Some f \<Rightarrow> (case f (au_ID u) client DefaultCode of Inl _ \<Rightarrow> Inl organizationLookupFailure | Inr a \<Rightarrow> Inr a)
      | None \<Rightarrow>
          if evaluateEntitlement \<and> en_entitlement en = ModeEnforce then Inl (dependencyFailure ''CheckApplicationAccessRecursive'')
          else bindE (checkAccessRecursive hk (au_ID u) client) (\<lambda>(allowed, role).
                 Inr \<lparr>aa_Allowed = allowed, aa_Role = role, aa_Entitled = True, aa_Reason = []\<rparr>))"

definition lookupOrganizationAccess ::
  "auth_hooks \<Rightarrow> enforcement \<Rightarrow> auth_user \<Rightarrow> uuid \<Rightarrow> access_scope \<Rightarrow> application_access check" where
  "lookupOrganizationAccess hk en u client scope m =
     (let evaluateEntitlement = (scope = ScopeEventResource \<and> en_entitlement en \<noteq> ModeOff);
          key = (au_ID u, client, evaluateEntitlement)
      in case (if au_HasMemo u then map_of (mm_access m) key else None) of
           Some cached \<Rightarrow> (Inr cached, m)
         | None \<Rightarrow>
             (case organization_access hk en u client evaluateEntitlement of
                Inl f \<Rightarrow> (Inl f, m)
              | Inr access \<Rightarrow> (Inr access, if au_HasMemo u then m\<lparr>mm_access := AList.update key access (mm_access m)\<rparr> else m)))"

text \<open>The walk from an organization to an ancestor with the code of the tenant, at most 32 steps.\<close>

fun tenant_walk :: "(uuid \<Rightarrow> org_client option) \<Rightarrow> string \<Rightarrow> nat \<Rightarrow> uuid \<Rightarrow> bool" where
  "tenant_walk get tenant 0 current = False"
| "tenant_walk get tenant (Suc depth) current =
     (if current = 0 then False
      else case get current of
          None \<Rightarrow> False
        | Some c \<Rightarrow>
            if EqualFold (TrimSpace (cl_Code c)) tenant then True
            else case cl_ParentID c of None \<Rightarrow> False | Some p \<Rightarrow> tenant_walk get tenant depth p)"

definition requireTenantClientBoundary :: "auth_hooks \<Rightarrow> auth_user \<Rightarrow> uuid \<Rightarrow> failure + unit" where
  "requireTenantClientBoundary hk u client =
     (if TrimSpace (au_AuthTenantCode u) = [] \<or> NormalizeOrDefault (au_AuthTenantCode u) = DefaultCode then Inr ()
      else bindE (hook ''GetClientByID'' (hk_GetClientByID hk)) (\<lambda>get.
        if tenant_walk get (au_AuthTenantCode u) maximumLevels client then Inr ()
        else Inl (forbidden ''Client is outside the authenticated tenant'')))"

definition requireSessionApplicationReach :: "auth_hooks \<Rightarrow> auth_user \<Rightarrow> uuid \<Rightarrow> failure + unit" where
  "requireSessionApplicationReach hk u client =
     (let applicationCode = TrimSpace (au_SessionApplicationCode u)
      in if applicationCode = [] then Inr ()
         else bindE (hook ''ReachableClientIDsInApplication'' (hk_ReachableClientIDsInApplication hk)) (\<lambda>reach.
           case reach (au_ID u) applicationCode [client] of
             Inl _ \<Rightarrow> Inl (fails 500 ''Authorization error'' ''application reach lookup failed'')
           | Inr reachable \<Rightarrow> if reachable client then Inr () else Inl (forbidden ''Client is outside the current application'')))"

definition requireClientAccess :: "auth_hooks \<Rightarrow> enforcement \<Rightarrow> auth_user \<Rightarrow> uuid \<Rightarrow> access_scope \<Rightarrow> unit check" where
  "requireClientAccess hk en u client scope =
     andThen (lift (requireTenantClientBoundary hk u client)) (\<lambda>_.
       if IsPlatformAdmin u then give ()
       else andThen (lookupOrganizationAccess hk en u client scope) (\<lambda>access.
         if \<not> aa_Allowed access then deny (forbidden ''You do not have access to this client'')
         else lift (bindE (requireSessionApplicationReach hk u client) (\<lambda>_. enforceProductEntitlement en access))))"

definition RequireClientAccess :: "auth_hooks \<Rightarrow> enforcement \<Rightarrow> auth_user \<Rightarrow> uuid \<Rightarrow> unit check" where
  "RequireClientAccess hk en u client = requireClientAccess hk en u client ScopeOrganization"

definition RequireEventListAccess :: "auth_hooks \<Rightarrow> enforcement \<Rightarrow> auth_user \<Rightarrow> uuid \<Rightarrow> unit check" where
  "RequireEventListAccess hk en u client = requireClientAccess hk en u client ScopeEventResource"

definition requireClientCapability ::
  "auth_hooks \<Rightarrow> enforcement \<Rightarrow> auth_user \<Rightarrow> uuid \<Rightarrow> capability \<Rightarrow> access_scope \<Rightarrow> unit check" where
  "requireClientCapability hk en u client capability scope =
     andThen (lift (requireTenantClientBoundary hk u client)) (\<lambda>_.
       if IsPlatformAdmin u then
         (if platformHasCapability u capability then lift (enforcePolicyCeiling en u capability)
          else deny (forbidden ''Your platform administrator level cannot perform this action''))
       else andThen (lookupOrganizationAccess hk en u client scope) (\<lambda>access.
         if \<not> aa_Allowed access \<or> \<not> RoleHas (aa_Role access) capability
         then deny (forbidden ''Your organization role cannot perform this action'')
         else lift (bindE (requireSessionApplicationReach hk u client) (\<lambda>_. finalizeAuthorityDecision en u capability access))))"

definition RequireClientCapability :: "auth_hooks \<Rightarrow> enforcement \<Rightarrow> auth_user \<Rightarrow> uuid \<Rightarrow> capability \<Rightarrow> unit check" where
  "RequireClientCapability hk en u client capability = requireClientCapability hk en u client capability ScopeOrganization"

subsection \<open>Events\<close>

definition eventClientGrantAccess :: application_access where
  "eventClientGrantAccess = \<lparr>aa_Allowed = True, aa_Role = [], aa_Entitled = True, aa_Reason = []\<rparr>"

definition eventClientGrantApplies :: "auth_hooks \<Rightarrow> auth_user \<Rightarrow> uuid \<Rightarrow> uuid \<Rightarrow> failure + bool" where
  "eventClientGrantApplies hk u eventID client =
     (case hk_HasEventClientGrant hk of
        None \<Rightarrow> Inr False
      | Some grant \<Rightarrow>
          if TrimSpace (au_AuthTenantCode u) \<noteq> [] then Inr False
          else case grant eventID (au_ID u) of
              Inl _ \<Rightarrow> Inl (fails 500 ''Authorization error'' ''event client grant lookup failed'')
            | Inr granted \<Rightarrow>
                if \<not> granted then Inr False
                else bindE (hook ''ResolveClientProduct'' (hk_ResolveClientProduct hk)) (\<lambda>product_of.
                  case product_of client of
                    Inl _ \<Rightarrow> Inl (fails 500 ''Authorization error'' ''organization product lookup failed'')
                  | Inr product \<Rightarrow> Inr (SupportsEventOperations product)))"

definition resolveEventAuthority :: "auth_hooks \<Rightarrow> enforcement \<Rightarrow> auth_user \<Rightarrow> auth_event \<Rightarrow> event_authority check" where
  "resolveEventAuthority hk en u event =
     (if IsPlatformAdmin u then give AuthorityPlatform
      else case ev_ClientID event of
          None \<Rightarrow> deny (forbidden ''Event is not linked to a client'')
        | Some client \<Rightarrow>
            andThen (lift (requireTenantClientBoundary hk u client)) (\<lambda>_.
            andThen (lookupOrganizationAccess hk en u client ScopeEventResource) (\<lambda>access.
              if aa_Allowed access then give (AuthorityOrganization access)
              else andThen (lift (eventClientGrantApplies hk u (ev_ID event) client)) (\<lambda>granted.
                if granted then give AuthorityEventClient else deny (forbidden ''You do not have access to this client'')))))"

definition eventAuthorityContextKey :: "auth_event \<Rightarrow> uuid \<times> uuid option" where
  "eventAuthorityContextKey event = (ev_ID event, ev_ClientID event)"

definition memoizedEventAuthority :: "auth_hooks \<Rightarrow> enforcement \<Rightarrow> auth_user \<Rightarrow> auth_event \<Rightarrow> event_authority check" where
  "memoizedEventAuthority hk en u event m =
     (case map_of (mm_authority m) (eventAuthorityContextKey event) of
        Some cached \<Rightarrow> (Inr cached, m)
      | None \<Rightarrow>
          (case resolveEventAuthority hk en u event m of
             (Inl f, m') \<Rightarrow> (Inl f, m')
           | (Inr authority, m') \<Rightarrow>
               (Inr authority, m'\<lparr>mm_authority := AList.update (eventAuthorityContextKey event) authority (mm_authority m')\<rparr>)))"

definition authorizeEventView :: "enforcement \<Rightarrow> auth_event \<Rightarrow> event_authority \<Rightarrow> failure + unit" where
  "authorizeEventView en event authority =
     (case (authority, ev_ClientID event) of
        (AuthorityOrganization access, Some _) \<Rightarrow> enforceProductEntitlement en access
      | _ \<Rightarrow> Inr ())"

definition lookupEventByID :: "auth_hooks \<Rightarrow> uuid \<Rightarrow> failure + auth_event" where
  "lookupEventByID hk eventID =
     bindE (hook ''GetEventByIDRaw'' (hk_GetEventByIDRaw hk)) (\<lambda>get.
       case get eventID of Inl err \<Rightarrow> Inl (lookupFailure ''Event'' err) | Inr event \<Rightarrow> Inr event)"

text \<open>The two reads run concurrently; the error of the user has priority.\<close>

definition loadEventAccessInputs :: "failure + auth_user \<Rightarrow> failure + auth_event \<Rightarrow> failure + auth_user \<times> auth_event" where
  "loadEventAccessInputs user event = bindE user (\<lambda>u. bindE event (\<lambda>e. Inr (u, e)))"

definition RequireEventAccess :: "auth_hooks \<Rightarrow> enforcement \<Rightarrow> request \<Rightarrow> uuid \<Rightarrow> (auth_user \<times> auth_event) check" where
  "RequireEventAccess hk en rq eventID =
     (if TrimSpace (rq_tenant_code rq) \<noteq> [] \<and> \<not> SupportsEventOperations (rq_tenant_code rq)
      then deny (fails 403 ''Application surface denied'' ''Event operations are only available in the EventiApp application'')
      else andThen (lift (cognitoSubFromContext rq)) (\<lambda>sub.
           andThen (lift (loadEventAccessInputs (bindE (currentUserByCognitoSub hk sub) (\<lambda>u. Inr (scopeUserToTenant rq u))) (lookupEventByID hk eventID))) (\<lambda>(u, event).
           andThen (memoizedEventAuthority hk en u event) (\<lambda>authority.
           andThen (lift (authorizeEventView en event authority)) (\<lambda>_. give (u, event))))))"

definition EnsureEventAccess :: "auth_hooks \<Rightarrow> enforcement \<Rightarrow> auth_user \<Rightarrow> auth_event \<Rightarrow> unit check" where
  "EnsureEventAccess hk en u event =
     andThen (resolveEventAuthority hk en u event) (\<lambda>authority. lift (authorizeEventView en event authority))"

definition EnsureEventIDAccess :: "auth_hooks \<Rightarrow> enforcement \<Rightarrow> auth_user \<Rightarrow> uuid \<Rightarrow> auth_event check" where
  "EnsureEventIDAccess hk en u eventID =
     andThen (lift (lookupEventByID hk eventID)) (\<lambda>event.
     andThen (EnsureEventAccess hk en u event) (\<lambda>_. give event))"

text \<open>An event assignment narrows what the role of the organization allows.\<close>

definition member_allows :: "auth_hooks \<Rightarrow> auth_user \<Rightarrow> uuid \<Rightarrow> capability \<Rightarrow> failure + unit" where
  "member_allows hk u eventID capability =
     (case hk_GetEventMemberRole hk of
        None \<Rightarrow> Inr ()
      | Some role_of \<Rightarrow>
          (case role_of eventID (au_ID u) of
             Inl d \<Rightarrow> Inl (fails 500 ''Authorization error'' d)
           | Inr None \<Rightarrow> Inr ()
           | Inr (Some role) \<Rightarrow>
               if eventRoleHasCapability role capability then Inr () else Inl (forbidden ''Your event assignment cannot perform this action'')))"

definition event_capability ::
  "auth_hooks \<Rightarrow> enforcement \<Rightarrow> auth_user \<Rightarrow> auth_event \<Rightarrow> uuid \<Rightarrow> event_authority \<Rightarrow> capability \<Rightarrow> failure + unit" where
  "event_capability hk en u event eventID authority capability =
     (case authority of
        AuthorityPlatform \<Rightarrow>
          if platformHasCapability u capability then enforcePolicyCeiling en u capability
          else Inl (forbidden ''Your platform administrator level cannot perform this action'')
      | AuthorityEventClient \<Rightarrow>
          if eventClientHasCapability capability then finalizeAuthorityDecision en u capability eventClientGrantAccess
          else Inl (forbidden ''Your event client access cannot perform this action'')
      | AuthorityOrganization access \<Rightarrow>
          if ev_ClientID event = None then Inl (forbidden ''Event is not linked to a client'')
          else if \<not> RoleHas (aa_Role access) capability then Inl (forbidden ''Your organization role cannot perform this action'')
          else bindE (finalizeAuthorityDecision en u capability access) (\<lambda>_. member_allows hk u eventID capability))"

definition RequireEventCapability ::
  "auth_hooks \<Rightarrow> enforcement \<Rightarrow> request \<Rightarrow> uuid \<Rightarrow> capability \<Rightarrow> (auth_user \<times> auth_event) check" where
  "RequireEventCapability hk en rq eventID capability =
     andThen (RequireEventAccess hk en rq eventID) (\<lambda>(u, event).
     andThen (memoizedEventAuthority hk en u event) (\<lambda>authority.
     andThen (lift (event_capability hk en u event eventID authority capability)) (\<lambda>_. give (u, event))))"

subsection \<open>Things inside an event\<close>

definition fetch :: "string \<Rightarrow> string \<Rightarrow> (uuid \<Rightarrow> lookup_error + 'a) option \<Rightarrow> uuid \<Rightarrow> failure + 'a" where
  "fetch name kind h i =
     bindE (hook name h) (\<lambda>get. case get i of Inl err \<Rightarrow> Inl (lookupFailure kind err) | Inr x \<Rightarrow> Inr x)"

text \<open>A section is known by its event.\<close>

definition EnsureEventSectionAccess :: "auth_hooks \<Rightarrow> enforcement \<Rightarrow> auth_user \<Rightarrow> uuid \<Rightarrow> uuid check" where
  "EnsureEventSectionAccess hk en u sectionID =
     andThen (lift (fetch ''GetEventSectionByID'' ''Event section'' (hk_GetEventSectionByID hk) sectionID)) (\<lambda>eventID.
     andThen (EnsureEventIDAccess hk en u eventID) (\<lambda>_. give eventID))"

definition RequireEventSectionAccess :: "auth_hooks \<Rightarrow> enforcement \<Rightarrow> request \<Rightarrow> uuid \<Rightarrow> (auth_user \<times> uuid) check" where
  "RequireEventSectionAccess hk en rq sectionID =
     andThen (lift (CurrentUser hk rq)) (\<lambda>u.
     andThen (EnsureEventSectionAccess hk en u sectionID) (\<lambda>eventID. give (u, eventID)))"

definition RequireEventSectionCapability ::
  "auth_hooks \<Rightarrow> enforcement \<Rightarrow> request \<Rightarrow> uuid \<Rightarrow> capability \<Rightarrow> (auth_user \<times> uuid) check" where
  "RequireEventSectionCapability hk en rq sectionID capability =
     andThen (RequireEventSectionAccess hk en rq sectionID) (\<lambda>(u, eventID).
     andThen (RequireEventCapability hk en rq eventID capability) (\<lambda>_. give (u, eventID)))"

text \<open>A moment need not belong to an event.\<close>

definition EnsureMomentAccess :: "auth_hooks \<Rightarrow> enforcement \<Rightarrow> auth_user \<Rightarrow> uuid \<Rightarrow> uuid option check" where
  "EnsureMomentAccess hk en u momentID =
     andThen (lift (fetch ''GetMomentByID'' ''Moment'' (hk_GetMomentByID hk) momentID)) (\<lambda>event.
       if IsPlatformAdmin u then give event
       else case event of
           None \<Rightarrow> deny (forbidden ''Moment is not linked to an event'')
         | Some eventID \<Rightarrow> andThen (EnsureEventIDAccess hk en u eventID) (\<lambda>_. give event))"

definition RequireMomentAccess :: "auth_hooks \<Rightarrow> enforcement \<Rightarrow> request \<Rightarrow> uuid \<Rightarrow> (auth_user \<times> uuid option) check" where
  "RequireMomentAccess hk en rq momentID =
     andThen (lift (CurrentUser hk rq)) (\<lambda>u.
     andThen (EnsureMomentAccess hk en u momentID) (\<lambda>event. give (u, event)))"

definition RequireMomentCapability ::
  "auth_hooks \<Rightarrow> enforcement \<Rightarrow> request \<Rightarrow> uuid \<Rightarrow> capability \<Rightarrow> (auth_user \<times> uuid option) check" where
  "RequireMomentCapability hk en rq momentID capability =
     andThen (RequireMomentAccess hk en rq momentID) (\<lambda>(u, event).
       if IsPlatformAdmin u then
         (if platformHasCapability u capability then give (u, event)
          else deny (forbidden ''Your platform administrator level cannot perform this action''))
       else case event of
           None \<Rightarrow> deny (forbidden ''Moment is not linked to an event'')
         | Some eventID \<Rightarrow> andThen (RequireEventCapability hk en rq eventID capability) (\<lambda>_. give (u, event)))"

definition EnsureGuestAccess :: "auth_hooks \<Rightarrow> enforcement \<Rightarrow> auth_user \<Rightarrow> uuid \<Rightarrow> uuid check" where
  "EnsureGuestAccess hk en u guestID =
     andThen (lift (fetch ''GetGuestByID'' ''Guest'' (hk_GetGuestByID hk) guestID)) (\<lambda>eventID.
       if eventID = 0 then deny (forbidden ''Guest is not linked to an event'')
       else andThen (EnsureEventIDAccess hk en u eventID) (\<lambda>_. give eventID))"

definition RequireGuestAccess :: "auth_hooks \<Rightarrow> enforcement \<Rightarrow> request \<Rightarrow> uuid \<Rightarrow> (auth_user \<times> uuid) check" where
  "RequireGuestAccess hk en rq guestID =
     andThen (lift (CurrentUser hk rq)) (\<lambda>u.
     andThen (EnsureGuestAccess hk en u guestID) (\<lambda>eventID. give (u, eventID)))"

definition RequireGuestCapability ::
  "auth_hooks \<Rightarrow> enforcement \<Rightarrow> request \<Rightarrow> uuid \<Rightarrow> capability \<Rightarrow> (auth_user \<times> uuid) check" where
  "RequireGuestCapability hk en rq guestID capability =
     andThen (RequireGuestAccess hk en rq guestID) (\<lambda>(u, eventID).
     andThen (RequireEventCapability hk en rq eventID capability) (\<lambda>_. give (u, eventID)))"

definition RequireInvitationAccess :: "auth_hooks \<Rightarrow> enforcement \<Rightarrow> request \<Rightarrow> uuid \<Rightarrow> (auth_user \<times> uuid) check" where
  "RequireInvitationAccess hk en rq invitationID =
     andThen (lift (CurrentUser hk rq)) (\<lambda>u.
     andThen (lift (fetch ''GetInvitationByIDLite'' ''Invitation'' (hk_GetInvitationByIDLite hk) invitationID)) (\<lambda>eventID.
       if eventID = 0 then deny (forbidden ''Invitation is not linked to an event'')
       else andThen (EnsureEventIDAccess hk en u eventID) (\<lambda>_. give (u, eventID))))"

definition RequireInvitationCapability ::
  "auth_hooks \<Rightarrow> enforcement \<Rightarrow> request \<Rightarrow> uuid \<Rightarrow> capability \<Rightarrow> (auth_user \<times> uuid) check" where
  "RequireInvitationCapability hk en rq invitationID capability =
     andThen (RequireInvitationAccess hk en rq invitationID) (\<lambda>(u, eventID).
     andThen (RequireEventCapability hk en rq eventID capability) (\<lambda>_. give (u, eventID)))"

text \<open>A resource without a section belongs to the platform.\<close>

definition RequireResourceAccess :: "auth_hooks \<Rightarrow> enforcement \<Rightarrow> request \<Rightarrow> uuid \<Rightarrow> (auth_user \<times> uuid option) check" where
  "RequireResourceAccess hk en rq resourceID =
     andThen (lift (CurrentUser hk rq)) (\<lambda>u.
     andThen (lift (fetch ''GetResourceByID'' ''Resource'' (hk_GetResourceByID hk) resourceID)) (\<lambda>sect.
       case sect of
         None \<Rightarrow> if IsPlatformAdmin u then give (u, sect) else deny (forbidden ''Resource is not linked to an event section'')
       | Some sectionID \<Rightarrow> andThen (EnsureEventSectionAccess hk en u sectionID) (\<lambda>_. give (u, sect))))"

definition RequireResourceCapability ::
  "auth_hooks \<Rightarrow> enforcement \<Rightarrow> request \<Rightarrow> uuid \<Rightarrow> capability \<Rightarrow> (auth_user \<times> uuid option) check" where
  "RequireResourceCapability hk en rq resourceID capability =
     andThen (RequireResourceAccess hk en rq resourceID) (\<lambda>(u, sect).
       case sect of
         None \<Rightarrow>
           if IsPrimaryRoot u then give (u, sect)
           else deny (forbidden ''Only the primary platform administrator can mutate platform resources'')
       | Some sectionID \<Rightarrow> andThen (RequireEventSectionCapability hk en rq sectionID capability) (\<lambda>_. give (u, sect)))"

subsection \<open>Creating and moving\<close>

definition RequireEventClientForCreate :: "auth_hooks \<Rightarrow> enforcement \<Rightarrow> auth_user \<Rightarrow> uuid option \<Rightarrow> unit check" where
  "RequireEventClientForCreate hk en u clientID =
     (case clientID of
        None \<Rightarrow> deny (fails 400 ''client_id required'' ''Events must belong to a client'')
      | Some client \<Rightarrow> requireClientCapability hk en u client CapEventCreate ScopeEventResource)"

definition RequireEventSectionForCreate :: "auth_hooks \<Rightarrow> enforcement \<Rightarrow> auth_user \<Rightarrow> uuid \<Rightarrow> unit check" where
  "RequireEventSectionForCreate hk en u eventID =
     (if eventID = 0 then deny (fails 400 ''event_id required'' ''Event sections must belong to an event'')
      else andThen (EnsureEventIDAccess hk en u eventID) (\<lambda>_. give ()))"

definition RequireResourceSectionForCreate :: "auth_hooks \<Rightarrow> enforcement \<Rightarrow> auth_user \<Rightarrow> uuid option \<Rightarrow> unit check" where
  "RequireResourceSectionForCreate hk en u sectionID =
     (case sectionID of
        None \<Rightarrow>
          if IsPrimaryRoot u then give ()
          else deny (fails 400 ''section_id required'' ''Resources created from the dashboard must belong to an event section'')
      | Some i \<Rightarrow> andThen (EnsureEventSectionAccess hk en u i) (\<lambda>_. give ()))"

definition RequireClientMoveAccess :: "auth_hooks \<Rightarrow> enforcement \<Rightarrow> auth_user \<Rightarrow> uuid option \<Rightarrow> uuid option \<Rightarrow> unit check" where
  "RequireClientMoveAccess hk en u old new =
     (case new of
        None \<Rightarrow>
          (if old = None then give ()
           else deny (fails 400 ''client_id es obligatorio'' ''An event cannot be detached from its organization''))
      | Some n \<Rightarrow>
          if old = Some n then give ()
          else andThen (case old of None \<Rightarrow> give () | Some i \<Rightarrow> RequireClientCapability hk en u i CapEventManage) (\<lambda>_.
               RequireClientCapability hk en u n CapEventManage))"

subsection \<open>Many events of one organization\<close>

definition finalAuthorityAllows :: "failure + unit \<Rightarrow> failure + bool" where
  "finalAuthorityAllows r =
     (case r of Inr _ \<Rightarrow> Inr True | Inl f \<Rightarrow> if fl_Status f < 500 then Inr False else Inl f)"

definition EventCapabilityForOrganizationEvents ::
  "auth_hooks \<Rightarrow> enforcement \<Rightarrow> auth_user \<Rightarrow> uuid \<Rightarrow> uuid list \<Rightarrow> capability \<Rightarrow> (uuid \<times> bool) list check" where
  "EventCapabilityForOrganizationEvents hk en u org eventIDs capability =
     (case requireTenantClientBoundary hk u org of
        Inl _ \<Rightarrow> give []
      | Inr _ \<Rightarrow>
          if IsPlatformAdmin u then
            (if platformHasCapability u capability
             then andThen (lift (finalAuthorityAllows (enforcePolicyCeiling en u capability))) (\<lambda>allowed. give (map (\<lambda>i. (i, allowed)) eventIDs))
             else give (map (\<lambda>i. (i, False)) eventIDs))
          else andThen (lookupOrganizationAccess hk en u org ScopeEventResource) (\<lambda>access.
            andThen (if aa_Allowed access \<and> RoleHas (aa_Role access) capability
                     then lift (finalAuthorityAllows (finalizeAuthorityDecision en u capability access)) else give False) (\<lambda>allowed.
              if \<not> allowed then give (map (\<lambda>i. (i, False)) eventIDs)
              else andThen (if eventIDs = [] then give []
                            else andThen (lift (hook ''GetEventMemberRoles'' (hk_GetEventMemberRoles hk))) (\<lambda>roles_of.
                              case roles_of eventIDs (au_ID u) of
                                Inl _ \<Rightarrow> deny (fails 500 ''Authorization error'' ''event member lookup failed'')
                              | Inr roles \<Rightarrow> give roles)) (\<lambda>roles.
                give (map (\<lambda>i. (i, case map_of roles i of None \<Rightarrow> True | Some role \<Rightarrow> eventRoleHasCapability role capability)) eventIDs)))))"

end
