(* ===== verification/AuthzProps.thy ===== *)
theory AuthzProps
  imports Authz
begin

text \<open>
  Properties of the authorization checks. The caches of a request are invisible: every check answers as if it
  were alone. A check on an event succeeds exactly when the permission specification \<open>event_permission\<close>
  holds, branded tenants stay inside their tree, operational administrators cannot grant what they lack, and
  the batch for many events agrees with the single checks.
\<close>

subsection \<open>Checks that keep an invariant of the caches\<close>

text \<open>From good caches the check answers \<open>r\<close> and leaves good caches.\<close>

definition computes :: "(auth_memo \<Rightarrow> bool) \<Rightarrow> 'a check \<Rightarrow> failure + 'a \<Rightarrow> bool" where
  "computes ok c r \<longleftrightarrow> (\<forall>m. ok m \<longrightarrow> fst (c m) = r \<and> ok (snd (c m)))"

lemma computesD: "computes ok c r \<Longrightarrow> ok m \<Longrightarrow> fst (c m) = r \<and> ok (snd (c m))"
  by (simp add: computes_def)

lemma computes_give [intro!]: "computes ok (give x) (Inr x)"
  and computes_deny [intro!]: "computes ok (deny f) (Inl f)"
  and computes_lift [intro!]: "computes ok (lift r) r"
  by (simp_all add: computes_def give_def deny_def lift_def)

lemma computes_andThen [intro]:
  assumes "computes ok c r" "\<And>x. r = Inr x \<Longrightarrow> computes ok (k x) (s x)"
  shows "computes ok (andThen c k) (bindE r s)"
proof -
  have "fst (andThen c k m) = bindE r s \<and> ok (snd (andThen c k m))" if "ok m" for m
    using computesD [OF assms(1) that] assms(2)
    by (cases "c m"; cases r) (auto simp: andThen_def computes_def)
  then show ?thesis by (simp add: computes_def)
qed

text \<open>Good caches hold what the database answers for one user.\<close>

definition authority_of :: "auth_hooks \<Rightarrow> enforcement \<Rightarrow> auth_user \<Rightarrow> auth_event \<Rightarrow> failure + event_authority" where
  "authority_of hk en u event =
     (if IsPlatformAdmin u then Inr AuthorityPlatform
      else case ev_ClientID event of
          None \<Rightarrow> Inl (forbidden ''Event is not linked to a client'')
        | Some client \<Rightarrow>
            bindE (requireTenantClientBoundary hk u client) (\<lambda>_.
            bindE (organization_access hk en u client (en_entitlement en \<noteq> ModeOff)) (\<lambda>access.
              if aa_Allowed access then Inr (AuthorityOrganization access)
              else bindE (eventClientGrantApplies hk u (ev_ID event) client) (\<lambda>granted.
                if granted then Inr AuthorityEventClient else Inl (forbidden ''You do not have access to this client'')))))"

definition memo_ok :: "auth_hooks \<Rightarrow> enforcement \<Rightarrow> auth_user \<Rightarrow> auth_memo \<Rightarrow> bool" where
  "memo_ok hk en u m \<longleftrightarrow>
     (\<forall>client flag a. map_of (mm_access m) (au_ID u, client, flag) = Some a \<longrightarrow> organization_access hk en u client flag = Inr a)
     \<and> (\<forall>eventID client a. map_of (mm_authority m) (eventID, client) = Some a
          \<longrightarrow> authority_of hk en u \<lparr>ev_ID = eventID, ev_ClientID = client\<rparr> = Inr a)"

lemma memo_ok_empty: "memo_ok hk en u no_memo"
  by (simp add: memo_ok_def no_memo_def)

lemma lookup_computes:
  "computes (memo_ok hk en u) (lookupOrganizationAccess hk en u client scope)
     (organization_access hk en u client (scope = ScopeEventResource \<and> en_entitlement en \<noteq> ModeOff))"
  by (auto simp: computes_def lookupOrganizationAccess_def memo_ok_def Let_def update_conv' split: option.splits sum.splits if_splits)

lemma authority_computes: "computes (memo_ok hk en u) (resolveEventAuthority hk en u event) (authority_of hk en u event)"
  unfolding resolveEventAuthority_def authority_of_def
  by (auto split: option.splits simp del: not_None_eq intro!: computes_andThen lookup_computes [of _ _ _ _ ScopeEventResource, simplified])

lemma memoized_computes: "computes (memo_ok hk en u) (memoizedEventAuthority hk en u event) (authority_of hk en u event)"
proof -
  have e: "\<lparr>ev_ID = ev_ID event, ev_ClientID = ev_ClientID event\<rparr> = event" by simp
  have "fst (memoizedEventAuthority hk en u event m) = authority_of hk en u event \<and> memo_ok hk en u (snd (memoizedEventAuthority hk en u event m))"
    if ok: "memo_ok hk en u m" for m
  proof (cases "map_of (mm_authority m) (ev_ID event, ev_ClientID event)")
    case None
    obtain r m' where r: "resolveEventAuthority hk en u event m = (r, m')" by fastforce
    with computesD [OF authority_computes ok, of event] have m': "r = authority_of hk en u event" "memo_ok hk en u m'" by auto
    then show ?thesis
      using None r by (auto simp: memoizedEventAuthority_def eventAuthorityContextKey_def memo_ok_def update_conv' e split: sum.splits if_splits)
  next
    case (Some a)
    with ok have "authority_of hk en u \<lparr>ev_ID = ev_ID event, ev_ClientID = ev_ClientID event\<rparr> = Inr a" unfolding memo_ok_def by blast
    then have "authority_of hk en u event = Inr a" unfolding e .
    with Some ok show ?thesis by (simp add: memoizedEventAuthority_def eventAuthorityContextKey_def)
  qed
  then show ?thesis by (simp add: computes_def)
qed

subsection \<open>A request of several checks\<close>

datatype check_call =
    CallClientAccess uuid
  | CallEventList uuid
  | CallClientCapability uuid capability
  | CallEventAccess uuid
  | CallEventCapability uuid capability
  | CallSectionCapability uuid capability
  | CallMomentCapability uuid capability
  | CallGuestCapability uuid capability
  | CallInvitationCapability uuid capability
  | CallResourceCapability uuid capability
  | CallCreateEvent "uuid option"
  | CallMoveEvent "uuid option" "uuid option"
  | CallManyEvents uuid "uuid list" capability

definition as_user :: "auth_hooks \<Rightarrow> request \<Rightarrow> (auth_user \<Rightarrow> 'a check) \<Rightarrow> 'a check" where
  "as_user hk rq k = andThen (lift (CurrentUser hk rq)) k"

definition quiet :: "'a check \<Rightarrow> (uuid \<times> bool) list check" where
  "quiet c = andThen c (\<lambda>_. give [])"

fun answer :: "auth_hooks \<Rightarrow> enforcement \<Rightarrow> request \<Rightarrow> check_call \<Rightarrow> (uuid \<times> bool) list check" where
  "answer hk en rq (CallClientAccess i) = quiet (as_user hk rq (\<lambda>u. RequireClientAccess hk en u i))"
| "answer hk en rq (CallEventList i) = quiet (as_user hk rq (\<lambda>u. RequireEventListAccess hk en u i))"
| "answer hk en rq (CallClientCapability i c) = quiet (as_user hk rq (\<lambda>u. RequireClientCapability hk en u i c))"
| "answer hk en rq (CallEventAccess i) = quiet (RequireEventAccess hk en rq i)"
| "answer hk en rq (CallEventCapability i c) = quiet (RequireEventCapability hk en rq i c)"
| "answer hk en rq (CallSectionCapability i c) = quiet (RequireEventSectionCapability hk en rq i c)"
| "answer hk en rq (CallMomentCapability i c) = quiet (RequireMomentCapability hk en rq i c)"
| "answer hk en rq (CallGuestCapability i c) = quiet (RequireGuestCapability hk en rq i c)"
| "answer hk en rq (CallInvitationCapability i c) = quiet (RequireInvitationCapability hk en rq i c)"
| "answer hk en rq (CallResourceCapability i c) = quiet (RequireResourceCapability hk en rq i c)"
| "answer hk en rq (CallCreateEvent i) = quiet (as_user hk rq (\<lambda>u. RequireEventClientForCreate hk en u i))"
| "answer hk en rq (CallMoveEvent i j) = quiet (as_user hk rq (\<lambda>u. RequireClientMoveAccess hk en u i j))"
| "answer hk en rq (CallManyEvents i js c) = as_user hk rq (\<lambda>u. EventCapabilityForOrganizationEvents hk en u i js c)"

fun answers :: "auth_hooks \<Rightarrow> enforcement \<Rightarrow> request \<Rightarrow> check_call list \<Rightarrow> auth_memo \<Rightarrow> (failure + (uuid \<times> bool) list) list" where
  "answers hk en rq [] m = []"
| "answers hk en rq (c # cs) m = (let (r, m') = answer hk en rq c m in r # answers hk en rq cs m')"

text \<open>Every check has a reading without caches.\<close>

definition cacheless :: "auth_hooks \<Rightarrow> enforcement \<Rightarrow> auth_user \<Rightarrow> 'a check \<Rightarrow> bool" where
  "cacheless hk en u c \<longleftrightarrow> (\<exists>r. computes (memo_ok hk en u) c r)"

lemma cacheless_andThen [intro]:
  "cacheless hk en u c \<Longrightarrow> (\<And>x. cacheless hk en u (k x)) \<Longrightarrow> cacheless hk en u (andThen c k)"
  unfolding cacheless_def by (metis computes_andThen)

lemma cacheless_parts [intro!]:
  "cacheless hk en u (give x)" "cacheless hk en u (deny f)" "cacheless hk en u (lift r)"
  "cacheless hk en u (lookupOrganizationAccess hk en u client scope)" "cacheless hk en u (resolveEventAuthority hk en u event)"
  "cacheless hk en u (memoizedEventAuthority hk en u event)"
  unfolding cacheless_def using computes_give computes_deny computes_lift lookup_computes authority_computes memoized_computes by blast+

lemma cacheless_if [intro]: "cacheless hk en u c \<Longrightarrow> cacheless hk en u d \<Longrightarrow> cacheless hk en u (if b then c else d)"
  by simp

lemma cacheless_option [intro]: "cacheless hk en u c \<Longrightarrow> (\<And>x. cacheless hk en u (k x)) \<Longrightarrow> cacheless hk en u (case v of None \<Rightarrow> c | Some x \<Rightarrow> k x)"
  by (cases v) auto

lemma cacheless_sum [intro]:
  "(\<And>x. cacheless hk en u (h x)) \<Longrightarrow> (\<And>x. cacheless hk en u (k x)) \<Longrightarrow> cacheless hk en u (case v of Inl x \<Rightarrow> h x | Inr x \<Rightarrow> k x)"
  by (cases v) auto

lemma cacheless_prod [intro]: "(\<And>x y. v = (x, y) \<Longrightarrow> cacheless hk en u (k x y)) \<Longrightarrow> cacheless hk en u (case v of (x, y) \<Rightarrow> k x y)"
  by (cases v) auto

text \<open>All checks of a request see one user.\<close>

definition one_user :: "auth_hooks \<Rightarrow> request \<Rightarrow> auth_user \<Rightarrow> bool" where
  "one_user hk rq v \<longleftrightarrow> (\<forall>u. CurrentUser hk rq = Inr u \<longrightarrow> u = v)"

lemma one_userD: "one_user hk rq v \<Longrightarrow> CurrentUser hk rq = Inr u \<Longrightarrow> u = v"
  by (simp add: one_user_def)

lemma cacheless_user:
  assumes "one_user hk rq v" "cacheless hk en v (k v)"
  shows "cacheless hk en v (andThen (lift (CurrentUser hk rq)) k)"
proof (cases "CurrentUser hk rq")
  case (Inr u)
  with assms show ?thesis by (auto simp: andThen_def lift_def dest: one_userD)
next
  case (Inl f)
  then have "andThen (lift (CurrentUser hk rq)) k = deny f" by (simp add: andThen_def lift_def deny_def)
  then show ?thesis by auto
qed

definition event_access :: "auth_hooks \<Rightarrow> enforcement \<Rightarrow> request \<Rightarrow> uuid \<Rightarrow> failure + auth_user \<times> auth_event" where
  "event_access hk en rq eventID =
     (if TrimSpace (rq_tenant_code rq) \<noteq> [] \<and> \<not> SupportsEventOperations (rq_tenant_code rq)
      then Inl (fails 403 ''Application surface denied'' ''Event operations are only available in the EventiApp application'')
      else bindE (CurrentUser hk rq) (\<lambda>u.
           bindE (lookupEventByID hk eventID) (\<lambda>event.
           bindE (authority_of hk en u event) (\<lambda>authority.
           bindE (authorizeEventView en event authority) (\<lambda>_. Inr (u, event))))))"

lemma RequireEventAccess_computes:
  assumes "one_user hk rq v"
  shows "computes (memo_ok hk en v) (RequireEventAccess hk en rq eventID) (event_access hk en rq eventID)"
proof (cases "TrimSpace (rq_tenant_code rq) \<noteq> [] \<and> \<not> SupportsEventOperations (rq_tenant_code rq)")
  case True
  then show ?thesis by (auto simp: RequireEventAccess_def event_access_def)
next
  case False
  have inputs: "bindE (cognitoSubFromContext rq) (\<lambda>sub. loadEventAccessInputs (bindE (currentUserByCognitoSub hk sub) (\<lambda>u. Inr (scopeUserToTenant rq u))) (lookupEventByID hk eventID))
      = bindE (CurrentUser hk rq) (\<lambda>u. bindE (lookupEventByID hk eventID) (\<lambda>event. Inr (u, event)))"
    by (auto simp: CurrentUser_def loadEventAccessInputs_def bindE_def split: sum.splits)
  have merged: "andThen (lift r) (\<lambda>x. andThen (lift (s x)) k) = andThen (lift (bindE r s)) k" for r :: "failure + 'x" and s :: "'x \<Rightarrow> failure + 'y" and k :: "'y \<Rightarrow> 'z check"
    by (cases r) (auto simp: andThen_def lift_def fun_eq_iff)
  let ?rest = "\<lambda>(u, event). andThen (memoizedEventAuthority hk en u event) (\<lambda>authority. andThen (lift (authorizeEventView en event authority)) (\<lambda>_. give (u, event)))"
  let ?pure = "\<lambda>(u, event). bindE (authority_of hk en u event) (\<lambda>authority. bindE (authorizeEventView en event authority) (\<lambda>_. Inr (u, event)))"
  have "computes (memo_ok hk en v) (andThen (lift (bindE (CurrentUser hk rq) (\<lambda>u. bindE (lookupEventByID hk eventID) (\<lambda>event. Inr (u, event))))) ?rest)
      (bindE (bindE (CurrentUser hk rq) (\<lambda>u. bindE (lookupEventByID hk eventID) (\<lambda>event. Inr (u, event)))) ?pure)"
    using one_userD [OF assms] by (intro computes_andThen) (auto simp: bindE_Inr_iff intro!: computes_andThen memoized_computes)
  moreover have "bindE (bindE (CurrentUser hk rq) (\<lambda>u. bindE (lookupEventByID hk eventID) (\<lambda>event. Inr (u, event)))) ?pure = event_access hk en rq eventID"
    using False by (auto simp: event_access_def bindE_def split: sum.splits)
  ultimately show ?thesis using False unfolding RequireEventAccess_def merged inputs by auto
qed

definition event_decision :: "auth_hooks \<Rightarrow> enforcement \<Rightarrow> request \<Rightarrow> uuid \<Rightarrow> capability \<Rightarrow> failure + auth_user \<times> auth_event" where
  "event_decision hk en rq eventID capability =
     bindE (event_access hk en rq eventID) (\<lambda>(u, event).
     bindE (authority_of hk en u event) (\<lambda>authority.
     bindE (event_capability hk en u event eventID authority capability) (\<lambda>_. Inr (u, event))))"

lemma event_access_user: "event_access hk en rq eventID = Inr (u, event) \<Longrightarrow> CurrentUser hk rq = Inr u"
  by (auto simp: event_access_def bindE_Inr_iff split: if_splits)

lemma RequireEventCapability_computes:
  assumes "one_user hk rq v"
  shows "computes (memo_ok hk en v) (RequireEventCapability hk en rq eventID capability) (event_decision hk en rq eventID capability)"
  unfolding RequireEventCapability_def event_decision_def
  using one_userD [OF assms event_access_user]
  by (intro computes_andThen RequireEventAccess_computes [OF assms]) (auto intro!: computes_andThen memoized_computes)

subsection \<open>The caches are invisible\<close>

lemma cacheless_event:
  assumes "one_user hk rq v"
  shows "cacheless hk en v (RequireEventAccess hk en rq i)" "cacheless hk en v (RequireEventCapability hk en rq i c)"
  unfolding cacheless_def using RequireEventAccess_computes [OF assms] RequireEventCapability_computes [OF assms] by blast+

lemma cacheless_client:
  "cacheless hk en u (requireClientAccess hk en u client scope)" "cacheless hk en u (requireClientCapability hk en u client capability scope)"
  unfolding requireClientAccess_def requireClientCapability_def by (rule cacheless_andThen cacheless_if cacheless_parts)+

lemma cacheless_ensure:
  "cacheless hk en u (EnsureEventIDAccess hk en u eventID)" "cacheless hk en u (EnsureEventSectionAccess hk en u sectionID)"
  unfolding EnsureEventIDAccess_def EnsureEventSectionAccess_def EnsureEventAccess_def by (rule cacheless_andThen cacheless_parts)+

lemma cacheless_many: "cacheless hk en u (EventCapabilityForOrganizationEvents hk en u org eventIDs capability)"
  unfolding EventCapabilityForOrganizationEvents_def
  by (rule cacheless_sum cacheless_andThen cacheless_if cacheless_parts)+

lemmas check_defs =
  answer.simps quiet_def as_user_def
  RequireClientAccess_def RequireEventListAccess_def RequireClientCapability_def RequireEventClientForCreate_def RequireClientMoveAccess_def
  RequireEventSectionAccess_def RequireEventSectionCapability_def EnsureMomentAccess_def RequireMomentAccess_def RequireMomentCapability_def
  EnsureGuestAccess_def RequireGuestAccess_def RequireGuestCapability_def RequireInvitationAccess_def RequireInvitationCapability_def
  RequireResourceAccess_def RequireResourceCapability_def

lemma cacheless_answer:
  assumes v: "one_user hk rq v"
  shows "cacheless hk en v (answer hk en rq c)"
  by (cases c; simp only: check_defs;
      (rule cacheless_user [OF v] cacheless_event [OF v] cacheless_client cacheless_ensure cacheless_many
        cacheless_andThen cacheless_if cacheless_option cacheless_prod cacheless_parts)+)

lemma answers_alone:
  assumes v: "one_user hk rq v" and m: "memo_ok hk en v m"
  shows "answers hk en rq cs m = map (\<lambda>c. fst (answer hk en rq c no_memo)) cs"
  using m
proof (induction cs arbitrary: m)
  case (Cons c cs)
  from cacheless_answer [OF v, of en c] obtain r where r: "computes (memo_ok hk en v) (answer hk en rq c) r" by (auto simp: cacheless_def)
  obtain x m' where x: "answer hk en rq c m = (x, m')" by fastforce
  with computesD [OF r Cons.prems] have "x = r" "memo_ok hk en v m'" by auto
  moreover have "fst (answer hk en rq c no_memo) = r" using computesD [OF r memo_ok_empty] by simp
  ultimately show ?case using Cons.IH by (simp add: x)
qed simp

text \<open>
  C32. The caches of a request are invisible: in any sequence of checks of one request, over organizations, events,
  sections, moments, guests, invitations, resources and batches, every check gives the answer, or the failure, that it
  gives alone with empty caches.
\<close>

theorem request_caches_are_invisible:
  "answers hk en rq cs no_memo = map (\<lambda>c. fst (answer hk en rq c no_memo)) cs"
proof -
  have "one_user hk rq (case CurrentUser hk rq of Inr u \<Rightarrow> u | Inl _ \<Rightarrow> undefined)" by (simp add: one_user_def)
  from answers_alone [OF this memo_ok_empty] show ?thesis .
qed

subsection \<open>The permission on an event\<close>

definition policy_excludes :: "enforcement \<Rightarrow> auth_user \<Rightarrow> capability \<Rightarrow> bool" where
  "policy_excludes en u capability \<longleftrightarrow> en_ceiling en = ModeEnforce \<and> au_AuthPolicyRestricted u \<and> \<not> IsPrimaryRoot u
     \<and> (\<exists>name. SessionName capability = Some name \<and> PolicyAllows (au_AuthApplicationCode u) name \<and> name \<notin> set (au_AuthPolicyCapabilities u))"

definition entitlement_blocks :: "enforcement \<Rightarrow> application_access \<Rightarrow> bool" where
  "entitlement_blocks en access \<longleftrightarrow> en_entitlement en = ModeEnforce \<and> aa_Allowed access \<and> \<not> aa_Entitled access"

lemma enforcePolicyCeiling_ok: "enforcePolicyCeiling en u capability = Inr () \<longleftrightarrow> \<not> policy_excludes en u capability"
  by (cases "en_ceiling en") (auto simp: enforcePolicyCeiling_def policy_excludes_def split: option.splits)

lemma enforceProductEntitlement_ok: "enforceProductEntitlement en access = Inr () \<longleftrightarrow> \<not> entitlement_blocks en access"
  by (cases "en_entitlement en") (auto simp: enforceProductEntitlement_def entitlement_blocks_def)

lemma finalize_ok:
  "finalizeAuthorityDecision en u capability access = Inr () \<longleftrightarrow> \<not> entitlement_blocks en access \<and> \<not> policy_excludes en u capability"
  by (auto simp: finalizeAuthorityDecision_def bindE_Inr_iff enforceProductEntitlement_ok enforcePolicyCeiling_ok)

text \<open>Which of the three authorities admits a user who is not a platform administrator, with the role of a member.\<close>

definition organization_role :: "auth_hooks \<Rightarrow> enforcement \<Rightarrow> auth_user \<Rightarrow> auth_event \<Rightarrow> application_access \<Rightarrow> bool" where
  "organization_role hk en u event access \<longleftrightarrow>
     (\<exists>client. ev_ClientID event = Some client \<and> requireTenantClientBoundary hk u client = Inr ()
        \<and> organization_access hk en u client (en_entitlement en \<noteq> ModeOff) = Inr access)"

definition event_permission :: "auth_hooks \<Rightarrow> enforcement \<Rightarrow> auth_user \<Rightarrow> auth_event \<Rightarrow> uuid \<Rightarrow> capability \<Rightarrow> bool" where
  "event_permission hk en u event eventID capability \<longleftrightarrow>
     \<not> policy_excludes en u capability \<and>
     (if IsPlatformAdmin u then platformHasCapability u capability
      else \<exists>access. organization_role hk en u event access \<and>
        (if aa_Allowed access
         then RoleHas (aa_Role access) capability \<and> \<not> entitlement_blocks en access \<and> member_allows hk u eventID capability = Inr ()
         else (\<exists>client. ev_ClientID event = Some client \<and> eventClientGrantApplies hk u (ev_ID event) client = Inr True)
           \<and> capability \<in> set EventClientCapabilities))"

lemma authority_of_Inr:
  "authority_of hk en u event = Inr authority \<longleftrightarrow>
     (if IsPlatformAdmin u then authority = AuthorityPlatform
      else \<exists>access. organization_role hk en u event access \<and>
        (if aa_Allowed access then authority = AuthorityOrganization access
         else authority = AuthorityEventClient
           \<and> (\<exists>client. ev_ClientID event = Some client \<and> eventClientGrantApplies hk u (ev_ID event) client = Inr True)))"
  by (auto simp: authority_of_def organization_role_def bindE_Inr_iff split: option.splits if_splits)

text \<open>
  C6. The check of a capability on an event is exact: it succeeds if and only if the surface of the request serves
  events, the user and the event exist, the application policy does not exclude the capability in enforce mode, and
  either the level of a platform administrator has it, or the role in the organization of the event has it, is
  entitled and is not narrowed by an event assignment, or there is no such role and an active event-client grant
  covers it.
\<close>

theorem event_capability_is_exact:
  "fst (RequireEventCapability hk en rq eventID capability no_memo) = Inr (u, event) \<longleftrightarrow>
     (TrimSpace (rq_tenant_code rq) = [] \<or> SupportsEventOperations (rq_tenant_code rq))
     \<and> CurrentUser hk rq = Inr u \<and> lookupEventByID hk eventID = Inr event
     \<and> event_permission hk en u event eventID capability"
proof -
  have "one_user hk rq (case CurrentUser hk rq of Inr u \<Rightarrow> u | Inl _ \<Rightarrow> undefined)" by (simp add: one_user_def)
  from computesD [OF RequireEventCapability_computes [OF this] memo_ok_empty]
  have pure: "fst (RequireEventCapability hk en rq eventID capability no_memo) = event_decision hk en rq eventID capability" by blast
  have grant: "\<not> entitlement_blocks en eventClientGrantAccess" by (simp add: entitlement_blocks_def eventClientGrantAccess_def)
  have ceiling: "eventClientHasCapability capability \<longleftrightarrow> capability \<in> set EventClientCapabilities"
    by (simp add: eventClientHasCapability_def eventClientCeiling_def EventClientCapabilities_def)
  have linked: "organization_role hk en u event access \<Longrightarrow> ev_ClientID event \<noteq> None" for access by (auto simp: organization_role_def)
  define Q where "Q a \<longleftrightarrow> authorizeEventView en event a = Inr () \<and> event_capability hk en u event eventID a capability = Inr ()" for a
  have Q: "Q AuthorityPlatform \<longleftrightarrow> platformHasCapability u capability \<and> \<not> policy_excludes en u capability"
      "Q AuthorityEventClient \<longleftrightarrow> capability \<in> set EventClientCapabilities \<and> \<not> policy_excludes en u capability"
    by (auto simp: Q_def event_capability_def authorizeEventView_def finalize_ok enforcePolicyCeiling_ok grant ceiling)
  have QO: "organization_role hk en u event access \<Longrightarrow> Q (AuthorityOrganization access) \<longleftrightarrow>
      RoleHas (aa_Role access) capability \<and> \<not> entitlement_blocks en access \<and> \<not> policy_excludes en u capability
      \<and> member_allows hk u eventID capability = Inr ()" for access
    by (auto simp: Q_def event_capability_def authorizeEventView_def finalize_ok enforceProductEntitlement_ok bindE_Inr_iff dest!: linked)
  have decide: "(\<exists>a. authority_of hk en u event = Inr a \<and> Q a) \<longleftrightarrow> event_permission hk en u event eventID capability"
  proof (cases "IsPlatformAdmin u")
    case True
    then show ?thesis by (auto simp: authority_of_Inr event_permission_def Q)
  next
    case False
    have "(\<exists>a. authority_of hk en u event = Inr a \<and> Q a) \<longleftrightarrow>
        (\<exists>access. organization_role hk en u event access \<and> (if aa_Allowed access then Q (AuthorityOrganization access)
          else Q AuthorityEventClient \<and> (\<exists>client. ev_ClientID event = Some client \<and> eventClientGrantApplies hk u (ev_ID event) client = Inr True)))"
      using False by (auto simp: authority_of_Inr)
    also have "\<dots> \<longleftrightarrow> event_permission hk en u event eventID capability"
      using False unfolding event_permission_def Q by (simp cong: conj_cong add: QO) blast
    finally show ?thesis .
  qed
  show ?thesis
    unfolding pure event_decision_def event_access_def decide [unfolded Q_def, symmetric] by (auto simp: bindE_Inr_iff split: if_splits)
qed

end
