(* ===== verification/AuthzSafety.thy ===== *)
theory AuthzSafety
  imports AuthzProps
begin

text \<open>
  What the authorization checks rule out: a branded tenant acts inside its own tree of organizations only and
  by membership only, an operational administrator grants no role that exceeds its level, and the batch for
  the events of an organization never allows what the single check denies. One path escapes the policy
  ceiling: moments, for platform administrators.
\<close>

subsection \<open>Branded tenants\<close>

definition parent_of :: "(uuid \<Rightarrow> org_client option) \<Rightarrow> uuid \<Rightarrow> uuid \<Rightarrow> bool" where
  "parent_of get i p \<longleftrightarrow> (case get i of None \<Rightarrow> False | Some c \<Rightarrow> cl_ParentID c = Some p)"

lemma tenant_walk_ancestor:
  "tenant_walk get tenant n client \<Longrightarrow> \<exists>a row. (parent_of get)\<^sup>*\<^sup>* client a \<and> get a = Some row \<and> EqualFold (TrimSpace (cl_Code row)) tenant"
proof (induction get tenant n client rule: tenant_walk.induct)
  case (2 get tenant depth current)
  then obtain c where c: "current \<noteq> 0" "get current = Some c" by (auto split: if_splits option.splits)
  show ?case
  proof (cases "EqualFold (TrimSpace (cl_Code c)) tenant")
    case True
    with c show ?thesis by blast
  next
    case False
    with 2(2) c obtain p where p: "cl_ParentID c = Some p" "tenant_walk get tenant depth p" by (auto split: option.splits)
    from 2(1) [OF c False p] obtain a row where
      "(parent_of get)\<^sup>*\<^sup>* p a" "get a = Some row" "EqualFold (TrimSpace (cl_Code row)) tenant" by blast
    moreover have "parent_of get current p" using c(2) p(1) by (simp add: parent_of_def)
    ultimately show ?thesis by (meson converse_rtranclp_into_rtranclp)
  qed
qed simp

lemma no_platform_authority:
  assumes "CurrentUser hk rq = Inr u" "rq_tenant_code rq \<noteq> []" "\<not> AllowsPlatformAuthority (rq_tenant_code rq)"
  shows "\<not> IsPlatformAdmin u" "au_AuthTenantCode u = ToLower (TrimSpace (rq_tenant_code rq))"
  using assms
  by (auto simp: CurrentUser_def bindE_Inr_iff scopeUserToTenant_def stampRequestAuthorization_def Let_def IsPlatformAdmin_def
      EffectiveRootLevel_def RootLevelNone_def split: option.splits prod.splits)

lemma RequireClientCapability_member:
  assumes "fst (RequireClientCapability hk en u client capability no_memo) = Inr ()" "\<not> IsPlatformAdmin u"
  shows "requireTenantClientBoundary hk u client = Inr ()
     \<and> (\<exists>access. organization_access hk en u client False = Inr access \<and> aa_Allowed access \<and> RoleHas (aa_Role access) capability)"
proof -
  obtain r where b: "requireTenantClientBoundary hk u client = r" by blast
  have l: "fst (lookupOrganizationAccess hk en u client ScopeOrganization no_memo) = organization_access hk en u client False"
    using computesD [OF lookup_computes memo_ok_empty, of hk en u client ScopeOrganization] by simp
  show ?thesis
    using assms l unfolding RequireClientCapability_def requireClientCapability_def
    by (cases r; cases "lookupOrganizationAccess hk en u client ScopeOrganization no_memo"; cases "organization_access hk en u client False")
       (auto simp: andThen_def lift_def deny_def b split: if_splits)
qed

text \<open>
  C8. A branded tenant stays inside its tree. When a request comes from a registered product without platform authority,
  a capability on an organization is granted to it only if the organization has an ancestor, or is one itself,
  whose code is that of the tenant, and only by a role of a membership that has the capability; administrators of the platform have
  no authority there.
\<close>

theorem branded_tenant_stays_inside:
  assumes tenant: "ResolveProduct (rq_tenant_code rq) = Some p" "\<not> pr_AllowsPlatformAuthority p"
    and granted: "fst (as_user hk rq (\<lambda>u. RequireClientCapability hk en u client capability) no_memo) = Inr ()"
  shows "\<exists>u get a row access. CurrentUser hk rq = Inr u \<and> \<not> IsPlatformAdmin u
     \<and> hk_GetClientByID hk = Some get \<and> (parent_of get)\<^sup>*\<^sup>* client a \<and> get a = Some row \<and> EqualFold (TrimSpace (cl_Code row)) (pr_Code p)
     \<and> organization_access hk en u client False = Inr access \<and> aa_Allowed access \<and> RoleHas (aa_Role access) capability"
proof -
  from granted obtain u where u: "CurrentUser hk rq = Inr u" "fst (RequireClientCapability hk en u client capability no_memo) = Inr ()"
    by (cases "CurrentUser hk rq") (auto simp: as_user_def andThen_def lift_def)
  have code: "pr_Code p = normalizeCode (rq_tenant_code rq)" "p \<in> set orderedDefinitions"
    using tenant(1) by (auto simp: ResolveProduct_def find_Some_iff)
  have "AllowsPlatformAuthority (rq_tenant_code rq) = False" using tenant by (simp add: AllowsPlatformAuthority_def)
  moreover have p: "pr_Code p = CafettonHouse" using code(2) tenant(2) by (auto simp: orderedDefinitions_def product_definitions)
  moreover have "rq_tenant_code rq \<noteq> []"
  proof
    assume "rq_tenant_code rq = []"
    moreover have "normalizeCode [] = []" by code_simp
    ultimately show False using code(1) p by (simp add: CafettonHouse_def)
  qed
  ultimately have user: "\<not> IsPlatformAdmin u" "au_AuthTenantCode u = pr_Code p"
    using no_platform_authority [OF u(1)] code(1) by (simp_all add: normalizeCode_def)
  have "TrimSpace CafettonHouse \<noteq> [] \<and> NormalizeOrDefault CafettonHouse \<noteq> DefaultCode" by code_simp
  then obtain get where get: "hk_GetClientByID hk = Some get" "tenant_walk get (pr_Code p) maximumLevels client"
    using RequireClientCapability_member [OF u(2) user(1)] user(2) p
    by (auto simp: requireTenantClientBoundary_def bindE_Inr_iff hook_def split: if_splits option.splits)
  from tenant_walk_ancestor [OF get(2)] RequireClientCapability_member [OF u(2) user(1)] u(1) user(1) get(1) show ?thesis by blast
qed

subsection \<open>Granting roles\<close>

lemma RoleHas_known:
  "RoleHas role c \<longleftrightarrow>
     (let code = NormalizeRole role
      in code \<noteq> [] \<and> (if code \<in> {''OWNER'', ''ADMIN''} then c \<in> set allCapabilities
         else case map_of roleCapabilities code of Some known \<Rightarrow> c \<in> set known | None \<Rightarrow> c = CapView))"
  by (simp add: RoleHas_def RoleCapabilities_def Let_def split: option.splits)

lemma RoleHas_all: "RoleHas role c \<Longrightarrow> c \<in> set allCapabilities"
  by (auto simp: RoleHas_known Let_def roleCapabilities_def allCapabilities_def split: if_splits)

text \<open>What a role needs from an operational administrator.\<close>

definition operational :: "capability list" where
  "operational = [CapView, CapGuestManage, CapCheckin, CapAnalyticsView, CapMetricsView, CapMembersManage]"

lemma operational_roles:
  "(\<forall>c. RoleHas role c \<longrightarrow> c \<in> set operational) \<longleftrightarrow>
     NormalizeRole role \<notin> {''OWNER'', ''ADMIN'', ''EVENT_MANAGER'', ''EDITOR''}"
proof (cases "NormalizeRole role \<in> {''OWNER'', ''ADMIN''}")
  case True
  then have "RoleHas role CapEventCreate" by (auto simp: RoleHas_known allCapabilities_def Let_def)
  moreover have "CapEventCreate \<notin> set operational" by code_simp
  ultimately show ?thesis using True by auto
next
  case False
  have m: "CapEventManage \<notin> set operational" by code_simp
  show ?thesis
  proof (cases "NormalizeRole role \<in> {''EVENT_MANAGER'', ''EDITOR''}")
    case True
    then have "RoleHas role CapEventManage" by (auto simp: RoleHas_known roleCapabilities_def Let_def)
    with m True show ?thesis by auto
  next
    case no: False
    have "c \<in> set operational" if "RoleHas role c" for c
      using that False no by (auto simp: RoleHas_known roleCapabilities_def operational_def Let_def split: if_splits)
    with False no show ?thesis by auto
  qed
qed

lemma platformHas_operational:
  "\<not> IsPrimaryRoot u \<Longrightarrow> platformHasCapability u c \<longleftrightarrow> EffectiveRootLevel u = RootLevelOperational \<and> c \<in> set operational"
  by (simp add: platformHasCapability_def operational_def)

lemma MayGrant_iff: "PlatformRootMayGrantRole u role \<longleftrightarrow> IsPlatformAdmin u \<and> (\<forall>c. RoleHas role c \<longrightarrow> platformHasCapability u c)"
  using RoleHas_all by (auto simp: PlatformRootMayGrantRole_def list_all_iff)

text \<open>
  Granting is exact. A platform administrator may hand out a role through member management if and only if the
  administrator is primary, or is operational and the role is none of owner, administrator, event manager and editor,
  direct or inherited, or the role is empty; so no administrator hands out a capability that it lacks.
\<close>

theorem granted_roles_are_exact:
  "(PlatformRootMayGrantRole u role \<longleftrightarrow>
      IsPlatformAdmin u \<and> (IsPrimaryRoot u \<or> NormalizeRole role = []
        \<or> EffectiveRootLevel u = RootLevelOperational \<and> NormalizeRole role \<notin> {''OWNER'', ''ADMIN'', ''EVENT_MANAGER'', ''EDITOR''}))
   \<and> (PlatformRootMayGrantRole u role \<longrightarrow> (\<forall>c. RoleHas role c \<longrightarrow> platformHasCapability u c))"
proof -
  have view: "NormalizeRole role \<noteq> [] \<Longrightarrow> RoleHas role CapView"
    by (auto simp: RoleHas_known Let_def roleCapabilities_def allCapabilities_def split: option.splits if_splits)
  have none: "NormalizeRole role = [] \<Longrightarrow> \<not> RoleHas role c" for c by (simp add: RoleHas_known)
  show ?thesis
  proof (cases "IsPrimaryRoot u")
    case True
    then show ?thesis by (auto simp: MayGrant_iff platformHasCapability_def)
  next
    case False
    then show ?thesis
      using view none operational_roles [of role] by (auto simp: MayGrant_iff platformHas_operational)
  qed
qed

subsection \<open>Many events\<close>

definition many_pure ::
  "auth_hooks \<Rightarrow> enforcement \<Rightarrow> auth_user \<Rightarrow> uuid \<Rightarrow> uuid list \<Rightarrow> capability \<Rightarrow> failure + (uuid \<times> bool) list" where
  "many_pure hk en u org eventIDs capability = fst (EventCapabilityForOrganizationEvents hk en u org eventIDs capability no_memo)"

lemma finalAuthorityAllows_Inr: "finalAuthorityAllows r = Inr b \<Longrightarrow> b = (r = Inr ())"
  by (auto simp: finalAuthorityAllows_def split: sum.splits if_splits)

lemma many_allows:
  assumes "many_pure hk en u org eventIDs capability = Inr results" "(i, True) \<in> set results"
  shows "i \<in> set eventIDs \<and> requireTenantClientBoundary hk u org = Inr () \<and> \<not> policy_excludes en u capability
     \<and> (if IsPlatformAdmin u then platformHasCapability u capability
        else \<exists>access roles_of roles. organization_access hk en u org (en_entitlement en \<noteq> ModeOff) = Inr access \<and> aa_Allowed access
          \<and> RoleHas (aa_Role access) capability \<and> \<not> entitlement_blocks en access
          \<and> hk_GetEventMemberRoles hk = Some roles_of \<and> roles_of eventIDs (au_ID u) = Inr roles
          \<and> (\<forall>role. map_of roles i = Some role \<longrightarrow> eventRoleHasCapability role capability))"
proof -
  have l: "fst (lookupOrganizationAccess hk en u org ScopeEventResource no_memo) = organization_access hk en u org (en_entitlement en \<noteq> ModeOff)"
    using computesD [OF lookup_computes memo_ok_empty, of hk en u org ScopeEventResource] by simp
  have b: "requireTenantClientBoundary hk u org = Inr ()"
    using assms by (cases "requireTenantClientBoundary hk u org") (auto simp: many_pure_def EventCapabilityForOrganizationEvents_def give_def)
  show ?thesis
  proof (cases "IsPlatformAdmin u")
    case True
    with assms b show ?thesis
      by (auto simp: many_pure_def EventCapabilityForOrganizationEvents_def give_def andThen_def lift_def enforcePolicyCeiling_ok
          split: if_splits sum.splits dest!: finalAuthorityAllows_Inr)
  next
    case False
    obtain r m where lm: "lookupOrganizationAccess hk en u org ScopeEventResource no_memo = (r, m)" by fastforce
    with l have r: "organization_access hk en u org (en_entitlement en \<noteq> ModeOff) = r" by simp
    with assms b False lm show ?thesis
      by (auto simp: many_pure_def EventCapabilityForOrganizationEvents_def give_def deny_def andThen_def lift_def hook_def finalize_ok
          split: if_splits sum.splits option.splits dest!: finalAuthorityAllows_Inr)
  qed
qed

text \<open>
  The batch never allows what the single check denies. If \<open>EventCapabilityForOrganizationEvents\<close> says that the current
  user has a capability on one of many events of an organization, then \<open>RequireEventCapability\<close> grants it on that event,
  given that the event belongs to the organization, that the surface serves events, and that the two hooks that read event
  assignments agree.
\<close>

theorem batch_never_exceeds_single_check:
  assumes u: "CurrentUser hk rq = Inr u" and surface: "TrimSpace (rq_tenant_code rq) = [] \<or> SupportsEventOperations (rq_tenant_code rq)"
    and event: "lookupEventByID hk i = Inr event" "ev_ClientID event = Some org"
    and hooks: "\<And>roles_of roles. hk_GetEventMemberRoles hk = Some roles_of \<Longrightarrow> roles_of eventIDs (au_ID u) = Inr roles \<Longrightarrow>
        case hk_GetEventMemberRole hk of None \<Rightarrow> True | Some role_of \<Rightarrow> role_of i (au_ID u) = Inr (map_of roles i)"
    and many: "fst (EventCapabilityForOrganizationEvents hk en u org eventIDs capability no_memo) = Inr results" "(i, True) \<in> set results"
  shows "fst (RequireEventCapability hk en rq i capability no_memo) = Inr (u, event)"
proof -
  note facts = many_allows [unfolded many_pure_def, OF many]
  have "event_permission hk en u event i capability"
  proof (cases "IsPlatformAdmin u")
    case True
    with facts show ?thesis by (simp add: event_permission_def)
  next
    case False
    with facts obtain access roles_of roles where a: "organization_access hk en u org (en_entitlement en \<noteq> ModeOff) = Inr access" "aa_Allowed access"
      "RoleHas (aa_Role access) capability" "\<not> entitlement_blocks en access"
      and roles: "hk_GetEventMemberRoles hk = Some roles_of" "roles_of eventIDs (au_ID u) = Inr roles"
      "\<forall>role. map_of roles i = Some role \<longrightarrow> eventRoleHasCapability role capability" by auto
    have "member_allows hk u i capability = Inr ()"
      using hooks [OF roles(1,2)] roles(3) by (auto simp: member_allows_def split: option.splits)
    moreover have "organization_role hk en u event access" using facts a(1) event(2) by (auto simp: organization_role_def)
    ultimately show ?thesis using False facts a by (auto simp: event_permission_def)
  qed
  with u surface event(1) show ?thesis by (simp add: event_capability_is_exact)
qed

subsection \<open>Moments\<close>

text \<open>
  C34. Moments escape the policy ceiling. Where the application policy of a platform administrator excludes a capability in
  enforce mode, the check on an event denies it, but the check on a moment of that event grants it.
\<close>

theorem moments_skip_the_policy_ceiling:
  assumes u: "CurrentUser hk rq = Inr u" "IsPlatformAdmin u" "platformHasCapability u capability" "policy_excludes en u capability"
    and moment: "fetch ''GetMomentByID'' ''Moment'' (hk_GetMomentByID hk) momentID = Inr (Some eventID)"
  shows "fst (RequireMomentCapability hk en rq momentID capability no_memo) = Inr (u, Some eventID)
     \<and> \<not> isOk (fst (RequireEventCapability hk en rq eventID capability no_memo))"
proof -
  have "fst (RequireEventCapability hk en rq eventID capability no_memo) \<noteq> Inr (v, event)" for v event
    using u by (auto simp: event_capability_is_exact event_permission_def)
  then have "\<not> isOk (fst (RequireEventCapability hk en rq eventID capability no_memo))" by (auto simp: isOk_iff)
  with u moment show ?thesis
    by (simp add: RequireMomentCapability_def RequireMomentAccess_def EnsureMomentAccess_def andThen_def lift_def give_def)
qed

end
