(* ===== verification/OrgTreeProps.thy ===== *)
theory OrgTreeProps
  imports OrgTree
begin

text \<open>
  The two readings of the tree of organizations. A check by identity walks up from an organization to the
  nearest membership, a list walks down from the memberships of a user. What a check allows is listed,
  unless the portal of another application lies in between; the converse does not hold, since the nearest
  membership may be a weak one.
\<close>

subsection \<open>The walk up\<close>

lemma living_mem: "living cs i = Some c \<Longrightarrow> c \<in> set cs \<and> cl_ID c = i \<and> \<not> cl_Deleted c"
  by (auto simp: living_def find_Some_iff)

lemma ancestry_head: "j < length (ancestry cs n i) \<Longrightarrow> cl_ID (ancestry cs n i ! 0) = i"
  by (cases n) (auto dest: living_mem split: option.splits)

lemma ancestry_mem: "c \<in> set (ancestry cs n i) \<Longrightarrow> c \<in> set cs \<and> \<not> cl_Deleted c"
proof (induction cs n i rule: ancestry.induct)
  case (2 cs n i)
  then obtain d where d: "living cs i = Some d" by (cases "living cs i") auto
  from living_mem [OF d] 2 d show ?case by (cases "cl_ParentID d") auto
qed simp

lemma ancestry_parent: "Suc j < length (ancestry cs n i) \<Longrightarrow> cl_ParentID (ancestry cs n i ! j) = Some (cl_ID (ancestry cs n i ! Suc j))"
proof (induction cs n i arbitrary: j rule: ancestry.induct)
  case (2 cs n i)
  then obtain c where c: "living cs i = Some c" by (auto split: option.splits)
  with 2(2) obtain p where p: "cl_ParentID c = Some p" by (auto split: option.splits)
  have a: "ancestry cs (Suc n) i = c # ancestry cs n p" by (simp add: c p)
  show ?case
  proof (cases j)
    case 0
    with 2(2) a have "0 < length (ancestry cs n p)" by simp
    from ancestry_head [OF this] 0 a p show ?thesis by simp
  next
    case (Suc j')
    with 2(2) a have "Suc j' < length (ancestry cs n p)" by simp
    from 2(1) [OF c p this] Suc a show ?thesis by simp
  qed
qed simp

lemma ancestry_length: "length (ancestry cs n i) \<le> n"
  by (induction cs n i rule: ancestry.induct) (auto split: option.splits)

text \<open>The nearest membership: the first row, at the first level that has one.\<close>

lemma first_row:
  assumes "membership_rows scan t user cs = (m, code, level) # rest"
  shows "level < length cs \<and> (m, code) \<in> set (memberships_at scan t user (cs ! level)) \<and> (\<forall>i < level. memberships_at scan t user (cs ! i) = [])"
proof -
  have "\<exists>j < length cs. level = k + j \<and> (m, code) \<in> set (memberships_at scan t user (cs ! j)) \<and> (\<forall>i < j. memberships_at scan t user (cs ! i) = [])"
    if "concat (map (\<lambda>(level, c). map (\<lambda>(m, code). (m, code, level)) (memberships_at scan t user c)) (List.enumerate k cs)) = (m, code, level) # rest" for k
    using that
  proof (induction cs arbitrary: k)
    case (Cons c cs)
    show ?case
    proof (cases "memberships_at scan t user c")
      case Nil
      with Cons.prems have "concat (map (\<lambda>(level, c). map (\<lambda>(m, code). (m, code, level)) (memberships_at scan t user c)) (List.enumerate (Suc k) cs)) = (m, code, level) # rest" by simp
      from Cons.IH [OF this] obtain j where "j < length cs" "level = Suc k + j" "(m, code) \<in> set (memberships_at scan t user (cs ! j))"
        "\<forall>i < j. memberships_at scan t user (cs ! i) = []" by blast
      with Nil show ?thesis by (intro exI [of _ "Suc j"]) (auto simp: nth_Cons split: nat.splits)
    next
      case (Cons x xs)
      with Cons.prems show ?thesis by (intro exI [of _ 0]) (cases x, simp)
    qed
  qed simp
  from this [of 0] assms show ?thesis by (auto simp: membership_rows_def)
qed

subsection \<open>The walk down\<close>

lemma reachable_start: "x \<in> set rows \<Longrightarrow> x \<in> set (reachable_rows t app n rows)"
  by (cases n) simp_all

lemma reachable_child:
  "x \<in> set (reachable_rows t app n rows) \<Longrightarrow> y \<in> set (child_rows t app x) \<Longrightarrow> y \<in> set (reachable_rows t app (Suc n) rows)"
proof (induction n arbitrary: rows)
  case (Suc n)
  show ?case
  proof (cases "x \<in> set rows")
    case True
    with Suc.prems(2) have "y \<in> set (concat (map (child_rows t app) rows))" by auto
    then have "y \<in> set (reachable_rows t app (Suc n) (concat (map (child_rows t app) rows)))" by (rule reachable_start)
    then show ?thesis by (simp only: reachable_rows.simps(2) [of t app "Suc n" rows]) simp
  next
    case False
    with Suc.prems(1) have "x \<in> set (reachable_rows t app n (concat (map (child_rows t app) rows)))" by simp
    from Suc.IH [OF this Suc.prems(2)] show ?thesis by simp
  qed
qed auto

lemma reachable_mono: "x \<in> set (reachable_rows t app n rows) \<Longrightarrow> n \<le> m \<Longrightarrow> x \<in> set (reachable_rows t app m rows)"
proof (induction n arbitrary: m rows)
  case 0
  then show ?case by (simp add: reachable_start)
next
  case (Suc n)
  then obtain k where "m = Suc k" "n \<le> k" by (cases m) auto
  with Suc show ?case by auto
qed

text \<open>The row of a membership descends along the path up, unless a foreign portal lies on it.\<close>

lemma row_descends:
  assumes level: "level < length (anc t client)" and role: "ToUpper code \<in> {''OWNER'', ''ADMIN''}"
    and open_path: "\<And>j. j < level \<Longrightarrow> \<not> foreign_portal t app (anc t client ! j)"
    and start: "(cl_ID (anc t client ! level), code, 0) \<in> set rows"
    and k: "k \<le> level"
  shows "(cl_ID (anc t client ! (level - k)), code, k) \<in> set (reachable_rows t app k rows)"
  using k
proof (induction k)
  case 0
  with start show ?case by (simp add: reachable_start)
next
  case (Suc k)
  let ?j = "level - Suc k" and ?cs = "anc t client"
  have j: "Suc ?j = level - k" "Suc ?j < length ?cs" "?j < level" using Suc.prems level by auto
  have "cl_ParentID (?cs ! ?j) = Some (cl_ID (?cs ! (level - k)))"
    using ancestry_parent j(1,2) unfolding anc_def by metis
  moreover have "?cs ! ?j \<in> set (ot_clients t)" "\<not> cl_Deleted (?cs ! ?j)"
    using ancestry_mem [OF nth_mem, of ?j] j(2) by (auto simp: anc_def)
  ultimately have "(cl_ID (?cs ! ?j), code, Suc k) \<in> set (child_rows t app (cl_ID (?cs ! (level - k)), code, k))"
    using role open_path [OF j(3)] by (auto simp: child_rows_def)
  with Suc show ?case by (intro reachable_child [of "(cl_ID (?cs ! (level - k)), code, k)"]) auto
qed

text \<open>The levels below the first membership.\<close>

lemma below_membership:
  assumes "level < length cs" "\<forall>i < level. memberships_at scan t user (cs ! i) = []" "j < level"
  shows "cs ! j \<in> set (takeWhile (\<lambda>c. memberships_at scan t user c = []) cs)"
proof -
  have "level \<le> length (takeWhile (\<lambda>c. memberships_at scan t user c = []) cs)"
    using assms by (intro length_takeWhile_less_P_nth) auto
  with assms(3) have "j < length (takeWhile (\<lambda>c. memberships_at scan t user c = []) cs)" by simp
  from nth_mem [OF this] takeWhile_nth [OF this] show ?thesis by simp
qed

lemma membership_is_direct:
  assumes "(m, code) \<in> set (memberships_at scan t user c)" "set (scan (ot_members t)) \<subseteq> set (ot_members t)"
  shows "(cl_ID c, code, 0) \<in> set (direct_rows t user)"
  using assms by (force simp: memberships_at_def direct_rows_def)

text \<open>
  C33. What a check by identity allows is listed. If the check that walks up from an organization allows a user some role, then the
  query that walks down from the memberships of the user reaches the organization, for every application none of whose foreign
  portals lies between the organization and the membership; so the reach of a session takes nothing else away.
\<close>

theorem checked_access_is_listed:
  assumes allowed: "checkAccessRecursiveE scan t user client = (True, role)"
    and rows: "set (scan (ot_members t)) \<subseteq> set (ot_members t)"
    and app: "ToLower (TrimSpace applicationCode) \<noteq> []"
    and no_portal: "list_all (\<lambda>c. \<not> foreign_portal t (ToLower (TrimSpace applicationCode)) c)
      (takeWhile (\<lambda>c. memberships_at scan t user c = []) (anc t client))"
    and listed: "client \<in> set ids"
  shows "ReachableClientIDsInApplication t user applicationCode ids client"
proof -
  let ?app = "ToLower (TrimSpace applicationCode)"
  obtain m code level rest where first: "membership_rows scan t user (anc t client) = (m, code, level) # rest"
    and resolved: "resolveOrganizationRole code level = (True, role)"
    using allowed by (auto simp: checkAccessRecursiveE_def resolveOrganizationRole_def split: list.splits)
  note row = first_row [OF first]
  have ne: "0 < length (anc t client)" using row by linarith
  have head: "cl_ID (anc t client ! 0) = client" using ancestry_head ne unfolding anc_def .
  have len: "length (anc t client) \<le> 32" using ancestry_length [of _ maximumLevels] by (simp add: anc_def maximumLevels_def)
  have start: "(cl_ID (anc t client ! level), code, 0) \<in> set (direct_rows t user)"
    using membership_is_direct rows row by blast
  have "(client, code, level) \<in> set (reachable_rows t ?app level (direct_rows t user))"
  proof (cases "level = 0")
    case True
    with start head show ?thesis by (simp add: reachable_start)
  next
    case False
    then have "ToUpper code \<in> {''OWNER'', ''ADMIN''}" using resolved by (auto simp: resolveOrganizationRole_def Let_def split: if_splits)
    then have "(cl_ID (anc t client ! (level - level)), code, level) \<in> set (reachable_rows t ?app level (direct_rows t user))"
      using row start no_portal below_membership [of level "anc t client" scan t user]
      by (intro row_descends) (auto simp: list_all_iff)
    with head show ?thesis by simp
  qed
  then have "(client, code, level) \<in> set (scopedAccess t user applicationCode)"
    using reachable_mono [of _ t ?app level _ 31] row len app by (auto simp: scopedAccess_def Let_def)
  moreover have "anc t client ! 0 \<in> set (ot_clients t)" "\<not> cl_Deleted (anc t client ! 0)"
    using ancestry_mem [OF nth_mem, of 0] ne by (auto simp: anc_def)
  ultimately show ?thesis
    using listed head by (force simp: ReachableClientIDsInApplication_def list_ex_iff)
qed

end
