(* ===== verification/AuthzRun.thy ===== *)
theory AuthzRun
  imports AuthzSafety OrgTreeProps
begin

text \<open>
  A small platform on which the checks run: the tree of organizations eventiapp, below it the portal
  cafettonhouse and the organization boda, below them an organization each; members, administrators, events
  with assignments, and the hooks that read these tables. The properties of the checks apply to it.
\<close>

subsection \<open>Tables\<close>

definition tree :: org_tables where
  "tree =
     \<lparr>ot_clients =
        [\<lparr>cl_ID = 1, cl_Code = ''eventiapp'', cl_IsActive = True, cl_ParentID = None, cl_Deleted = False,
          cl_Name = ''EventiApp'', cl_Logo = []\<rparr>,
         \<lparr>cl_ID = 2, cl_Code = ''cafettonhouse'', cl_IsActive = True, cl_ParentID = Some 1, cl_Deleted = False,
          cl_Name = ''Cafetton House'', cl_Logo = []\<rparr>,
         \<lparr>cl_ID = 3, cl_Code = ''norte'', cl_IsActive = True, cl_ParentID = Some 2, cl_Deleted = False,
          cl_Name = ''Norte'', cl_Logo = []\<rparr>,
         \<lparr>cl_ID = 4, cl_Code = ''boda'', cl_IsActive = True, cl_ParentID = Some 1, cl_Deleted = False,
          cl_Name = ''Boda'', cl_Logo = []\<rparr>,
         \<lparr>cl_ID = 5, cl_Code = ''salon'', cl_IsActive = True, cl_ParentID = Some 4, cl_Deleted = False,
          cl_Name = ''Salon'', cl_Logo = []\<rparr>],
      ot_members =
        [\<lparr>cm_ID = 1, cm_ClientID = 2, cm_UserID = 7, cm_ClientRoleID = 1, cm_IsActive = True\<rparr>,
         \<lparr>cm_ID = 2, cm_ClientID = 4, cm_UserID = 8, cm_ClientRoleID = 1, cm_IsActive = True\<rparr>,
         \<lparr>cm_ID = 3, cm_ClientID = 1, cm_UserID = 9, cm_ClientRoleID = 1, cm_IsActive = True\<rparr>,
         \<lparr>cm_ID = 4, cm_ClientID = 4, cm_UserID = 9, cm_ClientRoleID = 2, cm_IsActive = True\<rparr>],
      ot_roles = [\<lparr>cr_ID = 1, cr_Code = ''OWNER''\<rparr>, \<lparr>cr_ID = 2, cr_Code = ''VIEWER''\<rparr>],
      ot_applications =
        [\<lparr>ap_ID = 1, ap_Code = ''eventiapp'', ap_IsActive = True, ap_Name = ''EventiApp'', ap_Modules = [''home'', ''events'', ''metrics''],
          ap_AllowsPlatformAdmin = True\<rparr>,
         \<lparr>ap_ID = 2, ap_Code = ''cafettonhouse'', ap_IsActive = True, ap_Name = ''Cafetton House'',
          ap_Modules = [''home'', ''users'', ''organizations'', ''metrics''], ap_AllowsPlatformAdmin = False\<rparr>],
      ot_client_applications = [\<lparr>ca_ClientID = 1, ca_ApplicationID = 1, ca_IsActive = True\<rparr>],
      ot_member_applications = [\<lparr>cma_ClientMemberID = 2, cma_ApplicationID = 1, cma_IsActive = True\<rparr>]\<rparr>"

definition account :: "uuid \<Rightarrow> int \<Rightarrow> auth_user" where
  "account i level =
     \<lparr>au_ID = i, au_RootLevel = level, au_IsRoot = False, au_AuthTenantCode = [], au_AuthApplicationCode = [],
      au_AuthPolicyRestricted = False, au_AuthPolicyCapabilities = [], au_SessionApplicationCode = [], au_HasMemo = False,
      au_CognitoSub = [], au_Email = [], au_FirstName = [], au_LastName = [], au_ProfileImage = [], au_IsActive = True\<rparr>"

definition accounts :: "(string \<times> auth_user) list" where
  "accounts = [(''ana'', account 7 0), (''luis'', account 8 0), (''eva'', account 9 0), (''ops'', account 10 2)]"

text \<open>Event 20 belongs to organization 5; the moment 30 to the event.\<close>

definition platform :: auth_hooks where
  "platform =
     \<lparr>hk_SyncUser = Some (\<lambda>sub. case map_of accounts sub of None \<Rightarrow> Inl ''record not found'' | Some u \<Rightarrow> Inr u),
      hk_CheckAccessRecursive = None,
      hk_CheckAccessRecursiveE = Some (\<lambda>user client. Inr (checkAccessRecursiveE id tree user client)),
      hk_CheckApplicationAccessRecursive = Some (\<lambda>user client app. Inr (checkApplicationAccessRecursive id tree user client app)),
      hk_GetClientByID = Some (living (ot_clients tree)),
      hk_GetEventByIDRaw = Some (\<lambda>i. if i \<in> {20, 21} then Inr \<lparr>ev_ID = i, ev_ClientID = Some 5\<rparr> else Inl (RecordNotFound ''record not found'')),
      hk_GetEventSectionByID = None,
      hk_GetMomentByID = Some (\<lambda>i. if i = 30 then Inr (Some 20) else Inl (RecordNotFound ''record not found'')),
      hk_GetGuestByID = None, hk_GetInvitationByIDLite = None, hk_GetResourceByID = None,
      hk_GetEventMemberRole = Some (\<lambda>event user. Inr (if event = 21 then Some ''CHECKIN'' else None)),
      hk_HasEventClientGrant = None, hk_ResolveClientProduct = None,
      hk_GetEventMemberRoles = Some (\<lambda>events user. Inr [(21, ''CHECKIN'')]),
      hk_ReachableClientIDsInApplication = Some (\<lambda>user app ids. Inr (ReachableClientIDsInApplication tree user app ids))\<rparr>"

definition enforced :: enforcement where
  "enforced = \<lparr>en_entitlement = ModeEnforce, en_ceiling = ModeEnforce\<rparr>"

definition ask :: "string \<Rightarrow> string \<Rightarrow> request" where
  "ask tenant sub = \<lparr>rq_tenant_code = tenant, rq_cognito_sub = sub, rq_session = None\<rparr>"

subsection \<open>The two readings of the tree\<close>

theorem checked_access_is_listed_witness:
  "ReachableClientIDsInApplication tree 7 ''cafettonhouse'' [3, 5] 3"
proof (rule checked_access_is_listed)
  show "checkAccessRecursiveE id tree 7 3 = (True, ''INHERITED_OWNER'')" by code_simp
  show "list_all (\<lambda>c. \<not> foreign_portal tree (ToLower (TrimSpace ''cafettonhouse'')) c)
      (takeWhile (\<lambda>c. memberships_at id tree 7 c = []) (anc tree 3))" by code_simp
  show "ToLower (TrimSpace ''cafettonhouse'') \<noteq> []" by code_simp
qed simp_all

text \<open>A weaker role nearer to an organization: the list shows what the check by identity denies.\<close>

lemma listed_but_denied:
  "access_role (scopedAccess tree 9 ''eventiapp'') 5 = Some ''INHERITED_OWNER'' \<and> checkAccessRecursiveE id tree 9 5 = (False, [])"
  by (rule conjI; code_simp)

subsection \<open>Branded tenants and roles\<close>

theorem branded_tenant_stays_inside_witness:
  "\<exists>u get a row access. CurrentUser platform (ask ''cafettonhouse'' ''ana'') = Inr u \<and> \<not> IsPlatformAdmin u
     \<and> hk_GetClientByID platform = Some get \<and> (parent_of get)\<^sup>*\<^sup>* 3 a \<and> get a = Some row
     \<and> EqualFold (TrimSpace (cl_Code row)) (pr_Code (the (ResolveProduct ''cafettonhouse'')))
     \<and> organization_access platform enforced u 3 False = Inr access \<and> aa_Allowed access \<and> RoleHas (aa_Role access) CapEventManage"
proof -
  have code: "rq_tenant_code (ask ''cafettonhouse'' ''ana'') = ''cafettonhouse''" by (simp add: ask_def)
  have "ResolveProduct ''cafettonhouse'' = Some (the (ResolveProduct ''cafettonhouse''))" by code_simp
  moreover have "\<not> pr_AllowsPlatformAuthority (the (ResolveProduct ''cafettonhouse''))" by code_simp
  moreover have "fst (as_user platform (ask ''cafettonhouse'' ''ana'') (\<lambda>u. RequireClientCapability platform enforced u 3 CapEventManage) no_memo) = Inr ()"
    by code_simp
  ultimately show ?thesis by (rule branded_tenant_stays_inside [where rq = "ask ''cafettonhouse'' ''ana''", unfolded code])
qed

theorem granted_roles_are_exact_witness:
  "PlatformRootMayGrantRole (account 10 2) ''CHECKIN'' \<and> \<not> PlatformRootMayGrantRole (account 10 2) ''INHERITED_ADMIN''"
proof -
  have n: "NormalizeRole ''CHECKIN'' = ''CHECKIN''" "NormalizeRole ''INHERITED_ADMIN'' = ''ADMIN''" by code_simp+
  have l: "IsPlatformAdmin (account 10 2)" "\<not> IsPrimaryRoot (account 10 2)" "EffectiveRootLevel (account 10 2) = RootLevelOperational" by code_simp+
  show ?thesis using granted_roles_are_exact [of "account 10 2"] by (simp add: n l)
qed

subsection \<open>Events and moments\<close>

definition scoped :: "request \<Rightarrow> auth_user" where
  "scoped rq = (case CurrentUser platform rq of Inr u \<Rightarrow> u | Inl _ \<Rightarrow> account 0 0)"

theorem batch_never_exceeds_single_check_witness:
  "fst (RequireEventCapability platform enforced (ask [] ''luis'') 21 CapCheckin no_memo)
     = Inr (scoped (ask [] ''luis''), \<lparr>ev_ID = 21, ev_ClientID = Some 5\<rparr>)"
proof (rule batch_never_exceeds_single_check)
  show "CurrentUser platform (ask [] ''luis'') = Inr (scoped (ask [] ''luis''))" by code_simp
  show "TrimSpace (rq_tenant_code (ask [] ''luis'')) = [] \<or> SupportsEventOperations (rq_tenant_code (ask [] ''luis''))" by code_simp
  show "lookupEventByID platform 21 = Inr \<lparr>ev_ID = 21, ev_ClientID = Some 5\<rparr>" by code_simp
  show "fst (EventCapabilityForOrganizationEvents platform enforced (scoped (ask [] ''luis'')) 5 [20, 21] CapCheckin no_memo) = Inr [(20, True), (21, True)]"
    by code_simp
qed (auto simp: platform_def)

definition restricted :: request where
  "restricted = \<lparr>rq_tenant_code = [], rq_cognito_sub = ''ops'', rq_session = Some (''eventiapp'', [], True)\<rparr>"

theorem moments_skip_the_policy_ceiling_witness:
  "fst (RequireMomentCapability platform enforced restricted 30 CapGuestManage no_memo) = Inr (scoped restricted, Some 20)
     \<and> \<not> isOk (fst (RequireEventCapability platform enforced restricted 20 CapGuestManage no_memo))"
proof (rule moments_skip_the_policy_ceiling)
  show "CurrentUser platform restricted = Inr (scoped restricted)" by code_simp
  show "IsPlatformAdmin (scoped restricted)" by code_simp
  show "platformHasCapability (scoped restricted) CapGuestManage" by code_simp
  show "policy_excludes enforced (scoped restricted) CapGuestManage"
    unfolding policy_excludes_def by (intro conjI exI [of _ "the (SessionName CapGuestManage)"]; code_simp)
  show "fetch ''GetMomentByID'' ''Moment'' (hk_GetMomentByID platform) 30 = Inr (Some 20)" by (simp add: fetch_def hook_def platform_def)
qed

end
