(* ===== verification/GoCrypto.thy ===== *)
theory GoCrypto
  imports GoHash
begin

text \<open>
  Packages encoding/base64 (\<open>RawURLEncoding\<close>) and crypto/hmac over SHA-256, as the signed tokens use
  them. A decoder that ignores line breaks and the unused bits of the last character reads back what the
  encoder writes. Nothing is assumed about the difficulty of a forgery.
\<close>

subsection \<open>Base 64\<close>

definition b64_char :: "nat \<Rightarrow> char" where
  "b64_char n =
     (if n < 26 then char_of (65 + n) else if n < 52 then char_of (71 + n) else if n < 62 then char_of (n - 4)
      else if n = 62 then CHR ''-'' else CHR ''_'')"

definition b64_value :: "char \<Rightarrow> nat option" where
  "b64_value c =
     (let n = of_char c
      in if 65 \<le> n \<and> n \<le> 90 then Some (n - 65) else if 97 \<le> n \<and> n \<le> 122 then Some (n - 71)
         else if 48 \<le> n \<and> n \<le> 57 then Some (n + 4) else if n = 45 then Some 62 else if n = 95 then Some 63 else None)"

text \<open>Groups of three bytes are groups of four digits.\<close>

fun sextets :: "nat list \<Rightarrow> nat list" where
  "sextets (a # b # c # bs) = [a div 4, a mod 4 * 16 + b div 16, b mod 16 * 4 + c div 64, c mod 64] @ sextets bs"
| "sextets [a, b] = [a div 4, a mod 4 * 16 + b div 16, b mod 16 * 4]"
| "sextets [a] = [a div 4, a mod 4 * 16]"
| "sextets [] = []"

fun octets :: "nat list \<Rightarrow> nat list option" where
  "octets (w # x # y # z # ss) =
     map_option ((@) [w * 4 + x div 16, x mod 16 * 16 + y div 4, y mod 4 * 64 + z]) (octets ss)"
| "octets [w, x, y] = Some [w * 4 + x div 16, x mod 16 * 16 + y div 4]"
| "octets [w, x] = Some [w * 4 + x div 16]"
| "octets [w] = None"
| "octets [] = Some []"

definition EncodeToString :: "string \<Rightarrow> string" where
  "EncodeToString s = map b64_char (sextets (map of_char s))"

definition DecodeString :: "string \<Rightarrow> string option" where
  "DecodeString s =
     (case those (map b64_value (filter (\<lambda>c. c \<noteq> CHR 0x0A \<and> c \<noteq> CHR 0x0D) s)) of
        None \<Rightarrow> None
      | Some ds \<Rightarrow> map_option (map char_of) (octets ds))"

lemma parts16: "q < 16 \<Longrightarrow> (p * 16 + q) div 16 = p \<and> (p * 16 + q) mod 16 = (q::nat)"
  and parts4: "q < 4 \<Longrightarrow> (p * 4 + q) div 4 = p \<and> (p * 4 + q) mod 4 = (q::nat)"
  by simp_all

lemma joined64: "p < 4 \<Longrightarrow> q < 16 \<Longrightarrow> p * 16 + q < (64::nat)" "p < 16 \<Longrightarrow> q < 4 \<Longrightarrow> p * 4 + q < (64::nat)"
  by simp_all

lemma sextets_bound: "list_all (\<lambda>b. b < 256) bs \<Longrightarrow> list_all (\<lambda>d. d < 64) (sextets bs)"
proof (induction bs rule: sextets.induct)
  case (1 a b c bs)
  then have "a div 4 < 64" "b div 16 < 16" "c div 64 < 4" by auto
  with 1 joined64(1) [of "a mod 4" "b div 16"] joined64(2) [of "b mod 16" "c div 64"] show ?case by simp
next
  case (2 a b)
  then have "a div 4 < 64" "b div 16 < 16" by auto
  with joined64(1) [of "a mod 4" "b div 16"] joined64(2) [of "b mod 16" 0] show ?case by simp
next
  case (3 a)
  then have "a div 4 < 64" by auto
  with joined64(1) [of "a mod 4" 0] show ?case by simp
qed simp

lemma octets_sextets: "list_all (\<lambda>b. b < 256) bs \<Longrightarrow> octets (sextets bs) = Some bs"
proof (induction bs rule: sextets.induct)
  case (1 a b c bs)
  then have "b div 16 < 16" "c div 64 < 4" by auto
  with 1 show ?case by (simp add: parts16 parts4)
next
  case (2 a b)
  then have "b div 16 < 16" by auto
  then show ?case by (simp add: parts16)
qed simp_all

lemma b64_code: "n < 64 \<Longrightarrow> of_char (b64_char n) =
    (if n < 26 then 65 + n else if n < 52 then 71 + n else if n < 62 then n - 4 else if n = 62 then 45 else 95)"
  by (auto simp: b64_char_def)

lemma b64_digit:
  assumes "n < 64"
  shows "b64_value (b64_char n) = Some n" "b64_char n \<noteq> CHR 0x0A" "b64_char n \<noteq> CHR 0x0D" "graph_char (b64_char n)" "b64_char n \<noteq> CHR ''.''"
proof -
  have code: "b64_char n \<noteq> c" if "(of_char (b64_char n) :: nat) \<noteq> of_char c" for c using that by auto
  show "b64_value (b64_char n) = Some n" using assms b64_code [OF assms] by (auto simp: b64_value_def Let_def)
  show "b64_char n \<noteq> CHR 0x0A" "b64_char n \<noteq> CHR 0x0D" "b64_char n \<noteq> CHR ''.''"
    by (rule code; use assms b64_code [OF assms] in \<open>auto split: if_splits\<close>)+
  show "graph_char (b64_char n)" using assms b64_code [OF assms] by (auto simp: graph_char_def less_char_def less_eq_char_def)
qed

lemma those_map_Some: "those (map Some xs) = Some xs"
  by (induction xs) simp_all

lemma bytes_bound: "list_all (\<lambda>b. b < 256) (map of_char s :: nat list)"
  by (simp add: list_all_iff)

lemma DecodeString_EncodeToString: "DecodeString (EncodeToString s) = Some s"
proof -
  let ?ds = "sextets (map of_char s)"
  have d: "d < 64" if "d \<in> set ?ds" for d using sextets_bound [OF bytes_bound] that by (simp add: list_all_iff)
  have "filter (\<lambda>c. c \<noteq> CHR 0x0A \<and> c \<noteq> CHR 0x0D) (map b64_char ?ds) = map b64_char ?ds"
    by (rule filter_True) (use d b64_digit in auto)
  moreover have "map b64_value (map b64_char ?ds) = map Some ?ds" using d b64_digit(1) by simp
  ultimately show ?thesis
    by (simp only: DecodeString_def EncodeToString_def those_map_Some octets_sextets [OF bytes_bound] option.case option.map) (simp add: o_def)
qed

lemma EncodeToString_graph: "list_all (\<lambda>c. graph_char c \<and> c \<noteq> CHR ''.'') (EncodeToString s)"
  using sextets_bound [OF bytes_bound, of s] b64_digit(4,5) by (simp add: EncodeToString_def list_all_iff)

lemma sextets_length: "length (sextets bs) = (4 * length bs + 2) div 3"
  by (induction bs rule: sextets.induct) simp_all

lemma EncodeToString_length: "length (EncodeToString s) = (4 * length s + 2) div 3"
  by (simp add: EncodeToString_def sextets_length)

subsection \<open>Keyed digests\<close>

definition word_bytes :: "w32 \<Rightarrow> string" where
  "word_bytes w = map (\<lambda>i. char_of (unat w div 256 ^ i mod 256)) [3, 2, 1, 0]"

fun state_bytes :: "sha_state \<Rightarrow> string" where
  "state_bytes (Sha a b c d e f g h) =
     word_bytes a @ word_bytes b @ word_bytes c @ word_bytes d @ word_bytes e @ word_bytes f @ word_bytes g @ word_bytes h"

definition sha256_bytes :: "string \<Rightarrow> string" where
  "sha256_bytes s = state_bytes (sha_blocks sha_init (sha_words (sha_pad (map of_char s))))"

definition mask_key :: "nat \<Rightarrow> string \<Rightarrow> string" where
  "mask_key pad key = map (\<lambda>c. char_of ((of_char c :: nat) XOR pad)) (key @ replicate (64 - length key) (CHR 0x00))"

definition hmac_sha256 :: "string \<Rightarrow> string \<Rightarrow> string" where
  "hmac_sha256 secret message =
     (let key = (if 64 < length secret then sha256_bytes secret else secret)
      in sha256_bytes (mask_key 0x5C key @ sha256_bytes (mask_key 0x36 key @ message)))"

lemma hmac_length: "length (hmac_sha256 secret message) = 32"
proof -
  have "length (state_bytes st) = 32" for st by (cases st) (simp add: word_bytes_def)
  then show ?thesis by (simp add: hmac_sha256_def sha256_bytes_def Let_def)
qed

text \<open>The signature that all tokens carry: the keyed digest of a text, in base 64.\<close>

definition signature :: "string \<Rightarrow> string \<Rightarrow> string" where
  "signature payload secret = EncodeToString (hmac_sha256 secret payload)"

lemma signature_length: "length (signature payload secret) = 43"
  by (simp add: signature_def EncodeToString_length hmac_length)

end
