(* ===== verification/SignedTokens.thy ===== *)
theory SignedTokens
  imports GoCrypto GoJson
begin

text \<open>
  The three kinds of signed tokens: the context of an organization (organizationcontext/token.go), the proof
  that a visitor knows the password of an event (publicaccessproof.go) and the preview of an event
  (previewtoken.go). \<open>os.Getenv\<close> and the printer of package uuid are arguments, the clock is one too.
\<close>

text \<open>\<open>strings.Cut\<close> at a one-byte separator, \<open>Time.Unix\<close> and \<open>strconv.ParseInt\<close> to base 10 in 64 bits.\<close>

fun Cut :: "string \<Rightarrow> char \<Rightarrow> string \<times> string \<times> bool" where
  "Cut [] sep = ([], [], False)"
| "Cut (c # cs) sep = (if c = sep then ([], cs, True) else (let (before, after, found) = Cut cs sep in (c # before, after, found)))"

definition Unix :: "gotime \<Rightarrow> int" where
  "Unix t = t div second"

definition ParseInt :: "string \<Rightarrow> int option" where
  "ParseInt s = int_literal (if HasPrefix s ''+'' \<and> \<not> HasPrefix s ''+-'' then tl s else s)"

type_synonym environment = "string \<Rightarrow> string"

subsection \<open>The context of an organization\<close>

record context_claims =
  oc_Purpose :: string
  oc_Subject :: string
  oc_ApplicationCode :: string
  oc_OrganizationID :: string
  oc_ExpiresAt :: int

definition context_purpose :: string where "context_purpose = ''organization-context''"
definition MaxTTL :: duration where "MaxTTL = 10 * minute"
definition MaxTokenLength :: nat where "MaxTokenLength = 2048"

definition signingSecret :: "environment \<Rightarrow> string" where
  "signingSecret getenv = TrimSpace (getenv ''ORGANIZATION_CONTEXT_SECRET'')"

definition previousSigningSecret :: "environment \<Rightarrow> string" where
  "previousSigningSecret getenv = TrimSpace (getenv ''ORGANIZATION_CONTEXT_SECRET_PREVIOUS'')"

definition normalize_text :: "string \<Rightarrow> string" where
  "normalize_text s = ToLower (TrimSpace s)"

definition context_json :: "context_claims \<Rightarrow> json" where
  "context_json c =
     JObj [(''purpose'', JStr (oc_Purpose c)), (''sub'', JStr (oc_Subject c)), (''applicationCode'', JStr (oc_ApplicationCode c)),
       (''organizationId'', JStr (oc_OrganizationID c)), (''expiresAt'', JInt (oc_ExpiresAt c))]"

definition context_zero :: context_claims where
  "context_zero = \<lparr>oc_Purpose = [], oc_Subject = [], oc_ApplicationCode = [], oc_OrganizationID = [], oc_ExpiresAt = 0\<rparr>"

definition context_fields :: "context_claims field_decoders" where
  "context_fields =
     [(''purpose'', in_field oc_Purpose (\<lambda>x. oc_Purpose_update (\<lambda>_. x)) un_string),
      (''sub'', in_field oc_Subject (\<lambda>x. oc_Subject_update (\<lambda>_. x)) un_string),
      (''applicationCode'', in_field oc_ApplicationCode (\<lambda>x. oc_ApplicationCode_update (\<lambda>_. x)) un_string),
      (''organizationId'', in_field oc_OrganizationID (\<lambda>x. oc_OrganizationID_update (\<lambda>_. x)) un_string),
      (''expiresAt'', in_field oc_ExpiresAt (\<lambda>x. oc_ExpiresAt_update (\<lambda>_. x)) un_int)]"

definition decode_context :: "string \<Rightarrow> context_claims option" where
  "decode_context payload = json_unmarshal (un_struct False context_fields) context_zero payload"

datatype token_error =
    SecretNotConfigured
  | SubjectRequired
  | ApplicationRequired
  | OrganizationRequired
  | TTLOutOfRange

definition GenerateContext ::
  "environment \<Rightarrow> (uuid \<Rightarrow> string) \<Rightarrow> gotime \<Rightarrow> string \<Rightarrow> string \<Rightarrow> uuid \<Rightarrow> duration \<Rightarrow> token_error + string \<times> gotime" where
  "GenerateContext getenv uuidString now subject0 applicationCode0 organizationID ttl =
     (let secret = signingSecret getenv; subject = TrimSpace subject0; applicationCode = normalize_text applicationCode0;
          expiresAt = now + ttl
      in if secret = [] then Inl SecretNotConfigured
         else if subject = [] then Inl SubjectRequired
         else if applicationCode = [] then Inl ApplicationRequired
         else if organizationID = 0 then Inl OrganizationRequired
         else if ttl \<le> 0 \<or> MaxTTL < ttl then Inl TTLOutOfRange
         else let encoded = EncodeToString (json_encode (context_json
                \<lparr>oc_Purpose = context_purpose, oc_Subject = subject, oc_ApplicationCode = applicationCode,
                 oc_OrganizationID = uuidString organizationID, oc_ExpiresAt = Unix expiresAt\<rparr>))
              in Inr (encoded @ ''.'' @ signature encoded secret, expiresAt))"

definition hasValidSignature :: "string \<Rightarrow> string \<Rightarrow> string list \<Rightarrow> bool" where
  "hasValidSignature payload sig secrets = list_ex (\<lambda>secret. secret \<noteq> [] \<and> signature payload secret = sig) secrets"

definition ValidateContext ::
  "environment \<Rightarrow> (uuid \<Rightarrow> string) \<Rightarrow> gotime \<Rightarrow> string \<Rightarrow> string \<Rightarrow> string \<Rightarrow> uuid \<Rightarrow> bool" where
  "ValidateContext getenv uuidString now token0 subject0 applicationCode0 organizationID =
     (let token = TrimSpace token0; subject = TrimSpace subject0; applicationCode = normalize_text applicationCode0
      in if token = [] \<or> MaxTokenLength < length token \<or> subject = [] \<or> applicationCode = [] \<or> organizationID = 0 then False
         else let secret = signingSecret getenv; (payloadPart, sig, found) = Cut token (CHR ''.'')
         in if secret = [] \<or> \<not> found \<or> payloadPart = [] \<or> length sig \<noteq> 32 * 4 div 3 + 1 \<or> CHR ''.'' \<in> set sig
               \<or> \<not> hasValidSignature payloadPart sig [secret, previousSigningSecret getenv] then False
            else case DecodeString payloadPart of
                None \<Rightarrow> False
              | Some payload \<Rightarrow>
                  (case decode_context payload of
                     None \<Rightarrow> False
                   | Some c \<Rightarrow> oc_Purpose c = context_purpose \<and> oc_Subject c = subject \<and> oc_ApplicationCode c = applicationCode
                       \<and> oc_OrganizationID c = uuidString organizationID \<and> Unix now \<le> oc_ExpiresAt c))"

subsection \<open>The proof of a password\<close>

record proof_claims =
  pc_Purpose :: string
  pc_EventID :: string
  pc_AccessVersion :: string
  pc_ExpiresAt :: int

definition proof_purpose :: string where "proof_purpose = ''event-password-access''"

definition accessSecret :: "environment \<Rightarrow> string" where
  "accessSecret getenv = TrimSpace (getenv ''EVENT_ACCESS_SECRET'')"

definition proof_json :: "proof_claims \<Rightarrow> json" where
  "proof_json c =
     JObj [(''purpose'', JStr (pc_Purpose c)), (''eventId'', JStr (pc_EventID c)), (''accessVersion'', JStr (pc_AccessVersion c)),
       (''expiresAt'', JInt (pc_ExpiresAt c))]"

definition proof_zero :: proof_claims where
  "proof_zero = \<lparr>pc_Purpose = [], pc_EventID = [], pc_AccessVersion = [], pc_ExpiresAt = 0\<rparr>"

definition proof_fields :: "proof_claims field_decoders" where
  "proof_fields =
     [(''purpose'', in_field pc_Purpose (\<lambda>x. pc_Purpose_update (\<lambda>_. x)) un_string),
      (''eventId'', in_field pc_EventID (\<lambda>x. pc_EventID_update (\<lambda>_. x)) un_string),
      (''accessVersion'', in_field pc_AccessVersion (\<lambda>x. pc_AccessVersion_update (\<lambda>_. x)) un_string),
      (''expiresAt'', in_field pc_ExpiresAt (\<lambda>x. pc_ExpiresAt_update (\<lambda>_. x)) un_int)]"

definition decode_proof :: "string \<Rightarrow> proof_claims option" where
  "decode_proof payload = json_unmarshal (un_struct False proof_fields) proof_zero payload"

definition GenerateProof ::
  "environment \<Rightarrow> (uuid \<Rightarrow> string) \<Rightarrow> gotime \<Rightarrow> uuid \<Rightarrow> string \<Rightarrow> duration \<Rightarrow> token_error + string \<times> gotime" where
  "GenerateProof getenv uuidString now eventID accessVersion ttl =
     (let secret = accessSecret getenv; expiresAt = now + ttl
      in if secret = [] then Inl SecretNotConfigured
         else let encoded = EncodeToString (json_encode (proof_json
                \<lparr>pc_Purpose = proof_purpose, pc_EventID = uuidString eventID, pc_AccessVersion = accessVersion, pc_ExpiresAt = Unix expiresAt\<rparr>))
              in Inr (encoded @ ''.'' @ signature encoded secret, expiresAt))"

definition ValidateProof :: "environment \<Rightarrow> (uuid \<Rightarrow> string) \<Rightarrow> gotime \<Rightarrow> string \<Rightarrow> uuid \<Rightarrow> string \<Rightarrow> bool" where
  "ValidateProof getenv uuidString now token0 eventID accessVersion =
     (let secret = accessSecret getenv; token = TrimSpace token0
      in if token = [] \<or> secret = [] then False
         else case Split token (CHR ''.'') of
             [payloadPart, sig] \<Rightarrow>
               if signature payloadPart secret \<noteq> sig then False
               else (case DecodeString payloadPart of
                   None \<Rightarrow> False
                 | Some payload \<Rightarrow>
                     (case decode_proof payload of
                        None \<Rightarrow> False
                      | Some c \<Rightarrow>
                          if pc_Purpose c \<noteq> proof_purpose \<or> pc_EventID c \<noteq> uuidString eventID \<or> pc_AccessVersion c \<noteq> accessVersion
                          then False else Unix now \<le> pc_ExpiresAt c))
           | _ \<Rightarrow> False)"

definition passwordVersionPurpose :: string where "passwordVersionPurpose = ''event-password-version''"

definition PasswordVersion :: "environment \<Rightarrow> (uuid \<Rightarrow> string) \<Rightarrow> uuid \<Rightarrow> string \<Rightarrow> string" where
  "PasswordVersion getenv uuidString eventID password0 =
     (let secret = accessSecret getenv; password = TrimSpace password0
      in if secret = [] \<or> password = [] then []
         else ''pw1.'' @ take 22 (EncodeToString (hmac_sha256 secret
                (passwordVersionPurpose @ [CHR 0x00] @ uuidString eventID @ [CHR 0x00] @ password))))"

subsection \<open>The preview of an event\<close>

definition previewSecret :: "environment \<Rightarrow> string" where
  "previewSecret getenv = TrimSpace (getenv ''EVENT_PREVIEW_SECRET'')"

definition GenerateWithExpiry ::
  "environment \<Rightarrow> (uuid \<Rightarrow> string) \<Rightarrow> gotime \<Rightarrow> uuid \<Rightarrow> duration \<Rightarrow> token_error + string \<times> gotime" where
  "GenerateWithExpiry getenv uuidString now eventID ttl =
     (let secret = previewSecret getenv; expiresAt = now + ttl
      in if secret = [] then Inl SecretNotConfigured
         else let payload = uuidString eventID @ ''.'' @ show_int (Unix expiresAt)
              in Inr (EncodeToString (payload @ ''.'' @ signature payload secret), expiresAt))"

definition GeneratePreview ::
  "environment \<Rightarrow> (uuid \<Rightarrow> string) \<Rightarrow> gotime \<Rightarrow> uuid \<Rightarrow> duration \<Rightarrow> token_error + string" where
  "GeneratePreview getenv uuidString now eventID ttl = map_sum id fst (GenerateWithExpiry getenv uuidString now eventID ttl)"

definition ValidatePreview :: "environment \<Rightarrow> (uuid \<Rightarrow> string) \<Rightarrow> gotime \<Rightarrow> string \<Rightarrow> uuid \<Rightarrow> bool" where
  "ValidatePreview getenv uuidString now token0 eventID =
     (let secret = previewSecret getenv; token = TrimSpace token0
      in if token = [] \<or> secret = [] then False
         else case DecodeString token of
             None \<Rightarrow> False
           | Some decoded \<Rightarrow>
               (case Split decoded (CHR ''.'') of
                  [event, expiry, sig] \<Rightarrow>
                    if event \<noteq> uuidString eventID then False
                    else (case ParseInt expiry of
                        None \<Rightarrow> False
                      | Some expiresAt \<Rightarrow> if expiresAt < Unix now then False else signature (event @ ''.'' @ expiry) secret = sig)
                | _ \<Rightarrow> False))"

end
