(* ===== verification/PasswordGate.thy ===== *)
theory PasswordGate
  imports SignedTokens StepSystem "HOL-Library.AList"
begin

text \<open>
  The password of an event: the limiter of wrong guesses (publicaccessproof/attempts.go), in the memory of the
  process, and the part of \<open>VerifyEventAccess\<close> (controllers/events/events.go) that uses it. Handlers run
  concurrently; the mutex of the limiter makes each of its calls one step. The Redis scripts that replace the memory
  when a client is configured are not modelled; \<open>ClientKey\<close>, which parses an address with package net, is an argument.
\<close>

subsection \<open>The limiter\<close>

definition PasswordAttemptsPerIP :: int where "PasswordAttemptsPerIP = 10"
definition PasswordAttemptsPerIPWindow :: duration where "PasswordAttemptsPerIPWindow = 10 * minute"
definition PasswordFailuresPerIPUnderAttack :: int where "PasswordFailuresPerIPUnderAttack = 3"
definition PasswordFailuresPerEvent :: int where "PasswordFailuresPerEvent = 100"
definition PasswordFailuresEventWindow :: duration where "PasswordFailuresEventWindow = 15 * minute"

record memory_window =
  mw_count :: int
  mw_expiresAt :: gotime

type_synonym limiter = "(string \<times> memory_window) list"

definition PasswordMatches :: "string \<Rightarrow> string \<Rightarrow> bool" where
  "PasswordMatches stored candidate = (sha256_bytes (TrimSpace stored) = sha256_bytes (TrimSpace candidate))"

definition attemptKey :: "string \<Rightarrow> string \<Rightarrow> string" where
  "attemptKey name identifier = ''security:rate-limit:'' @ name @ '':'' @ sha256_hex identifier"

definition ipFailureIdentifier :: "(uuid \<Rightarrow> string) \<Rightarrow> (string \<Rightarrow> string) \<Rightarrow> uuid \<Rightarrow> string \<Rightarrow> string" where
  "ipFailureIdentifier uuidString clientKey eventID ip = uuidString eventID @ ''|'' @ clientKey ip"

text \<open>A window that has not expired.\<close>

definition open_window :: "gotime \<Rightarrow> limiter \<Rightarrow> string \<Rightarrow> memory_window option" where
  "open_window now memory key =
     (case map_of memory key of None \<Rightarrow> None | Some w \<Rightarrow> if now < mw_expiresAt w then Some w else None)"

definition pruned :: "gotime \<Rightarrow> limiter \<Rightarrow> limiter" where
  "pruned now memory = (if 50000 < length memory then filter (\<lambda>(k, w). now < mw_expiresAt w) memory else memory)"

definition addMemory :: "gotime \<Rightarrow> string \<Rightarrow> int \<Rightarrow> duration \<Rightarrow> limiter \<Rightarrow> (int \<times> duration) \<times> limiter" where
  "addMemory now key delta window memory0 =
     (let memory = pruned now memory0; current = open_window now memory key
      in if current = None \<and> delta = 0 then ((0, 0), memory)
         else let w = (case current of None \<Rightarrow> \<lparr>mw_count = 0, mw_expiresAt = now + window\<rparr> | Some w \<Rightarrow> w);
                  w' = w\<lparr>mw_count := mw_count w + delta\<rparr>
              in ((mw_count w', mw_expiresAt w' - now), AList.update key w' memory))"

definition refundMemory :: "gotime \<Rightarrow> string \<Rightarrow> limiter \<Rightarrow> limiter" where
  "refundMemory now key memory =
     (case open_window now memory key of
        None \<Rightarrow> memory
      | Some w \<Rightarrow> if mw_count w \<le> 0 then memory else AList.update key (w\<lparr>mw_count := mw_count w - 1\<rparr>) memory)"

record limiter_env =
  le_uuidString :: "uuid \<Rightarrow> string"
  le_clientKey :: "string \<Rightarrow> string"

definition ip_key :: "limiter_env \<Rightarrow> uuid \<Rightarrow> string \<Rightarrow> string" where
  "ip_key env eventID ip = attemptKey ''event-password-ip'' (ipFailureIdentifier (le_uuidString env) (le_clientKey env) eventID ip)"

definition event_key :: "limiter_env \<Rightarrow> uuid \<Rightarrow> string" where
  "event_key env eventID = attemptKey ''event-password-fail'' (le_uuidString env eventID)"

definition attempt_limit :: "bool \<Rightarrow> int" where
  "attempt_limit underAttack = (if underAttack then PasswordFailuresPerIPUnderAttack else PasswordAttemptsPerIP)"

definition ReserveIPFailure :: "limiter_env \<Rightarrow> gotime \<Rightarrow> uuid \<Rightarrow> string \<Rightarrow> bool \<Rightarrow> limiter \<Rightarrow> (bool \<times> duration) \<times> limiter" where
  "ReserveIPFailure env now eventID ip underAttack memory =
     (let key = ip_key env eventID ip; ((cnt, retry), memory') = addMemory now key 1 PasswordAttemptsPerIPWindow memory
      in if cnt \<le> attempt_limit underAttack then ((True, retry), memory') else ((False, retry), refundMemory now key memory'))"

definition RefundIPFailure :: "limiter_env \<Rightarrow> gotime \<Rightarrow> uuid \<Rightarrow> string \<Rightarrow> limiter \<Rightarrow> limiter" where
  "RefundIPFailure env now eventID ip memory = refundMemory now (ip_key env eventID ip) memory"

definition EventFailuresExceeded :: "limiter_env \<Rightarrow> gotime \<Rightarrow> uuid \<Rightarrow> limiter \<Rightarrow> (bool \<times> duration) \<times> limiter" where
  "EventFailuresExceeded env now eventID memory =
     (let ((cnt, retry), memory') = addMemory now (event_key env eventID) 0 PasswordFailuresEventWindow memory
      in ((PasswordFailuresPerEvent \<le> cnt, retry), memory'))"

definition RecordFailure :: "limiter_env \<Rightarrow> gotime \<Rightarrow> uuid \<Rightarrow> limiter \<Rightarrow> limiter" where
  "RecordFailure env now eventID memory = snd (addMemory now (event_key env eventID) 1 PasswordFailuresEventWindow memory)"

subsection \<open>The handler\<close>

record event_config =
  ec_ID :: uuid
  ec_AuthPasswordPreview :: string

definition NormalizedAuthPasswordPreview :: "event_config \<Rightarrow> string" where
  "NormalizedAuthPasswordPreview cfg = TrimSpace (ec_AuthPasswordPreview cfg)"

definition HasAuthPasswordPreview :: "event_config \<Rightarrow> bool" where
  "HasAuthPasswordPreview cfg = (NormalizedAuthPasswordPreview cfg \<noteq> [])"

definition EventConfigAccessVersion :: "environment \<Rightarrow> (uuid \<Rightarrow> string) \<Rightarrow> event_config \<Rightarrow> string" where
  "EventConfigAccessVersion getenv uuidString cfg =
     (if HasAuthPasswordPreview cfg then PasswordVersion getenv uuidString (ec_ID cfg) (NormalizedAuthPasswordPreview cfg) else [])"

definition eventPasswordAccessTTL :: duration where "eventPasswordAccessTTL = 12 * hour"

datatype access_response =
    NotProtected
  | TooManyAttempts duration
  | PasswordWrong
  | TokenFailed
  | AccessGranted string string gotime

text \<open>The handler alone, from the point where the event is known to be public.\<close>

definition verify_password ::
  "limiter_env \<Rightarrow> environment \<Rightarrow> gotime \<Rightarrow> uuid \<Rightarrow> event_config \<Rightarrow> string \<Rightarrow> string \<Rightarrow> limiter \<Rightarrow> access_response \<times> limiter" where
  "verify_password env getenv now eventID cfg ip password memory =
     (if \<not> HasAuthPasswordPreview cfg then (NotProtected, memory)
      else let ((underAttack, _), m1) = EventFailuresExceeded env now eventID memory;
               ((ok, retry), m2) = ReserveIPFailure env now eventID ip underAttack m1
           in if \<not> ok then (TooManyAttempts retry, m2)
              else if \<not> PasswordMatches (NormalizedAuthPasswordPreview cfg) password then (PasswordWrong, RecordFailure env now eventID m2)
              else let m3 = RefundIPFailure env now eventID ip m2;
                       version = EventConfigAccessVersion getenv (le_uuidString env) cfg
                   in case GenerateProof getenv (le_uuidString env) now eventID version eventPasswordAccessTTL of
                        Inl _ \<Rightarrow> (TokenFailed, m3)
                      | Inr (token, expiresAt) \<Rightarrow> (AccessGranted token version expiresAt, m3))"

subsection \<open>Concurrent handlers\<close>

text \<open>
  An attempt has looked at the failures of the event, holds a slot since some moment, or was refused and has still to give its
  slot back. It remembers the end of the window in which it took the slot. A wrong guess is logged with the moment it took its
  slot and that end, a slot given back with that end and the moment it is given back. The clock runs freely: an attempt may
  outlive the window it took its slot in.
\<close>

datatype attempt_phase = Looked bool | Holds gotime gotime | Refused gotime

record attempt =
  at_EventID :: uuid
  at_IP :: string
  at_Password :: string
  at_Phase :: attempt_phase

record gate_state =
  gs_now :: gotime
  gs_memory :: limiter
  gs_attempts :: "attempt list"
  gs_wrong :: "(string \<times> gotime \<times> gotime) list"
  gs_refunds :: "(string \<times> gotime \<times> gotime) list"

definition in_flight_until :: "attempt \<Rightarrow> gotime option" where
  "in_flight_until a = (case at_Phase a of Looked _ \<Rightarrow> None | Holds taken e \<Rightarrow> Some e | Refused e \<Rightarrow> Some e)"

inductive gate_step :: "limiter_env \<Rightarrow> (uuid \<Rightarrow> event_config) \<Rightarrow> gate_state \<Rightarrow> gate_state \<Rightarrow> bool"
  for env cfg where
  tick: "gs_now s \<le> t \<Longrightarrow> gate_step env cfg s (s\<lparr>gs_now := t\<rparr>)"
| look: "EventFailuresExceeded env (gs_now s) eventID (gs_memory s) = ((underAttack, retry), m) \<Longrightarrow>
     gate_step env cfg s (s\<lparr>gs_memory := m,
       gs_attempts := \<lparr>at_EventID = eventID, at_IP = ip, at_Password = password, at_Phase = Looked underAttack\<rparr> # gs_attempts s\<rparr>)"
| reserve: "gs_attempts s = before @ a # after \<Longrightarrow> at_Phase a = Looked underAttack \<Longrightarrow>
     addMemory (gs_now s) (ip_key env (at_EventID a) (at_IP a)) 1 PasswordAttemptsPerIPWindow (gs_memory s) = ((cnt, retry), m) \<Longrightarrow>
     gate_step env cfg s (s\<lparr>gs_memory := m,
       gs_attempts := before @ a\<lparr>at_Phase := (if cnt \<le> attempt_limit underAttack then Holds (gs_now s) else Refused) (gs_now s + retry)\<rparr> # after\<rparr>)"
| give_back: "gs_attempts s = before @ a # after \<Longrightarrow> at_Phase a = Refused e \<Longrightarrow>
     gate_step env cfg s (s\<lparr>gs_memory := refundMemory (gs_now s) (ip_key env (at_EventID a) (at_IP a)) (gs_memory s), gs_attempts := before @ after,
       gs_refunds := (ip_key env (at_EventID a) (at_IP a), e, gs_now s) # gs_refunds s\<rparr>)"
| wrong: "gs_attempts s = before @ a # after \<Longrightarrow> at_Phase a = Holds taken e \<Longrightarrow>
     \<not> PasswordMatches (NormalizedAuthPasswordPreview (cfg (at_EventID a))) (at_Password a) \<Longrightarrow>
     gate_step env cfg s (s\<lparr>gs_memory := RecordFailure env (gs_now s) (at_EventID a) (gs_memory s), gs_attempts := before @ after,
       gs_wrong := (ip_key env (at_EventID a) (at_IP a), taken, e) # gs_wrong s\<rparr>)"
| right: "gs_attempts s = before @ a # after \<Longrightarrow> at_Phase a = Holds taken e \<Longrightarrow>
     PasswordMatches (NormalizedAuthPasswordPreview (cfg (at_EventID a))) (at_Password a) \<Longrightarrow>
     gate_step env cfg s (s\<lparr>gs_memory := RefundIPFailure env (gs_now s) (at_EventID a) (at_IP a) (gs_memory s), gs_attempts := before @ after,
       gs_refunds := (ip_key env (at_EventID a) (at_IP a), e, gs_now s) # gs_refunds s\<rparr>)"

definition gate_start :: "gotime \<Rightarrow> gate_state" where
  "gate_start t = \<lparr>gs_now = t, gs_memory = [], gs_attempts = [], gs_wrong = [], gs_refunds = []\<rparr>"

end
