(* ===== verification/SignedTokensProps.thy ===== *)
theory SignedTokensProps
  imports SignedTokens
begin

text \<open>
  Tokens and their validators. An issued token is accepted for exactly what it was issued for, until it expires,
  and no validator accepts a token of another kind, whatever the keys are. Both rest on the laws of the text
  encoding and of the signatures, stated once as a locale.
\<close>

subsection \<open>Texts\<close>

lemma Cut_found: "sep \<notin> set s \<Longrightarrow> Cut (s @ sep # t) sep = (s, t, True)"
  by (induction s) auto

lemma Cut_missing: "sep \<notin> set s \<Longrightarrow> Cut s sep = (s, [], False)"
  by (induction s) auto

lemma Split_missing: "sep \<notin> set s \<Longrightarrow> Split s sep = [s]"
  by (induction s) auto

lemma Split_found: "sep \<notin> set s \<Longrightarrow> Split (s @ sep # t) sep = s # Split t sep"
  by (induction s) auto

lemma those_Some_set: "those (map f xs) = Some ys \<Longrightarrow> x \<in> set xs \<Longrightarrow> f x \<noteq> None"
  by (induction xs arbitrary: ys) (auto split: option.splits)

lemma DecodeString_no_dot: "DecodeString s = Some t \<Longrightarrow> CHR ''.'' \<notin> set s"
proof
  assume "DecodeString s = Some t" "CHR ''.'' \<in> set s"
  then obtain ds where "those (map b64_value (filter (\<lambda>c. c \<noteq> CHR 0x0A \<and> c \<noteq> CHR 0x0D) s)) = Some ds"
    and "CHR ''.'' \<in> set (filter (\<lambda>c. c \<noteq> CHR 0x0A \<and> c \<noteq> CHR 0x0D) s)"
    by (auto simp: DecodeString_def split: option.splits)
  from those_Some_set [OF this] show False by (simp add: b64_value_def)
qed

subsection \<open>Signed texts\<close>

locale signed_text =
  fixes encode :: "string \<Rightarrow> string" and decode :: "string \<Rightarrow> string option" and sign :: "string \<Rightarrow> string \<Rightarrow> string"
  assumes reads_back: "decode (encode s) = Some s"
    and encode_plain: "list_all (\<lambda>c. graph_char c \<and> c \<noteq> CHR ''.'') (encode s)"
    and sign_plain: "list_all (\<lambda>c. graph_char c \<and> c \<noteq> CHR ''.'') (sign p k)"
    and decode_plain: "decode s = Some t \<Longrightarrow> CHR ''.'' \<notin> set s"
begin

lemma no_dot: "CHR ''.'' \<notin> set (encode s)" "CHR ''.'' \<notin> set (sign p k)"
  using encode_plain [of s] sign_plain [of p k] unfolding list_all_iff by blast+

lemma trimmed: "TrimSpace (encode s) = encode s" "TrimSpace (encode s @ CHR ''.'' # sign p k) = encode s @ CHR ''.'' # sign p k"
proof -
  have "graph_char (CHR ''.'')" by code_simp
  moreover have "list_all graph_char (encode s)" "list_all graph_char (sign p k)"
    using encode_plain [of s] sign_plain [of p k] unfolding list_all_iff by blast+
  ultimately show "TrimSpace (encode s) = encode s" "TrimSpace (encode s @ CHR ''.'' # sign p k) = encode s @ CHR ''.'' # sign p k"
    by (simp_all add: TrimSpace_all_graph)
qed

lemma parts:
  "Cut (encode s @ CHR ''.'' # sign p k) (CHR ''.'') = (encode s, sign p k, True)"
  "Split (encode s @ CHR ''.'' # sign p k) (CHR ''.'') = [encode s, sign p k]"
  "Cut (encode s) (CHR ''.'') = (encode s, [], False)" "Split (encode s) (CHR ''.'') = [encode s]"
  by (simp_all add: Cut_found Cut_missing Split_found Split_missing no_dot)

lemma not_decoded: "decode (encode s @ CHR ''.'' # sign p k) = None"
  using decode_plain [of "encode s @ CHR ''.'' # sign p k"] by (cases "decode (encode s @ CHR ''.'' # sign p k)") auto

end

interpretation raw: signed_text EncodeToString DecodeString signature
proof unfold_locales
  show "list_all (\<lambda>c. graph_char c \<and> c \<noteq> CHR ''.'') (signature p k)" for p k
    unfolding signature_def by (rule EncodeToString_graph)
qed (rule DecodeString_EncodeToString EncodeToString_graph DecodeString_no_dot | assumption)+

lemma EncodeToString_empty: "EncodeToString s = [] \<longleftrightarrow> s = []"
  using EncodeToString_length [of s] by (cases s) (auto simp: EncodeToString_def)

subsection \<open>Claims\<close>

definition int64_range :: "int \<Rightarrow> bool" where
  "int64_range i \<longleftrightarrow> - MaxInt64 - 1 \<le> i \<and> i \<le> MaxInt64"

lemma un_int_shown: "int64_range i \<Longrightarrow> un_int (VNum (show_int i)) old = Some i"
  by (simp add: un_int_def int64_range_def int_literal_show)

lemma json_object_nonempty: "json_encode (JObj fs) \<noteq> []"
  by simp

lemma context_names_valid:
  "list_all utf8_valid [''purpose'', ''sub'', ''applicationCode'', ''organizationId'', ''expiresAt'', ''eventId'', ''accessVersion'',
     context_purpose, proof_purpose]"
  by code_simp

lemma decode_context_written:
  assumes "utf8_valid (oc_Purpose c)" "utf8_valid (oc_Subject c)" "utf8_valid (oc_ApplicationCode c)" "utf8_valid (oc_OrganizationID c)"
    and "int64_range (oc_ExpiresAt c)"
  shows "decode_context (json_encode (context_json c)) = Some c"
proof -
  have "json_document (json_encode (context_json c)) = Some (read_as (context_json c))"
    using assms context_names_valid by (intro json_document_written) (simp_all add: context_json_def maxNestingDepth_def)
  then show ?thesis
    using assms(5) by (simp add: decode_context_def json_unmarshal_def context_json_def un_struct_def context_fields_def field_named_def
        in_field_def context_zero_def un_int_shown)
qed

lemma decode_proof_written:
  assumes "utf8_valid (pc_Purpose c)" "utf8_valid (pc_EventID c)" "utf8_valid (pc_AccessVersion c)" "int64_range (pc_ExpiresAt c)"
  shows "decode_proof (json_encode (proof_json c)) = Some c"
proof -
  have "json_document (json_encode (proof_json c)) = Some (read_as (proof_json c))"
    using assms context_names_valid by (intro json_document_written) (simp_all add: proof_json_def maxNestingDepth_def)
  then show ?thesis
    using assms(4) by (simp add: decode_proof_def json_unmarshal_def proof_json_def un_struct_def proof_fields_def field_named_def
        in_field_def proof_zero_def un_int_shown)
qed

subsection \<open>What a token is accepted for\<close>

lemma issued_context:
  assumes "GenerateContext getenv uuidString now subject applicationCode organizationID ttl = Inr (token, expiresAt)"
  obtains c where "oc_Purpose c = context_purpose" "oc_Subject c = TrimSpace subject" "oc_ApplicationCode c = normalize_text applicationCode"
    "oc_OrganizationID c = uuidString organizationID" "oc_ExpiresAt c = Unix expiresAt"
    and "token = EncodeToString (json_encode (context_json c)) @ CHR ''.'' # signature (EncodeToString (json_encode (context_json c))) (signingSecret getenv)"
    and "signingSecret getenv \<noteq> []" "TrimSpace subject \<noteq> []" "normalize_text applicationCode \<noteq> []" "organizationID \<noteq> 0"
  using assms by (intro that [of "\<lparr>oc_Purpose = context_purpose, oc_Subject = TrimSpace subject, oc_ApplicationCode = normalize_text applicationCode,
      oc_OrganizationID = uuidString organizationID, oc_ExpiresAt = Unix expiresAt\<rparr>"])
    (auto simp: GenerateContext_def Let_def split: if_splits)

lemma issued_proof:
  assumes "GenerateProof getenv uuidString now eventID accessVersion ttl = Inr (token, expiresAt)"
  obtains c where "pc_Purpose c = proof_purpose" "pc_EventID c = uuidString eventID" "pc_AccessVersion c = accessVersion" "pc_ExpiresAt c = Unix expiresAt"
    and "token = EncodeToString (json_encode (proof_json c)) @ CHR ''.'' # signature (EncodeToString (json_encode (proof_json c))) (accessSecret getenv)"
    and "accessSecret getenv \<noteq> []"
  using assms by (intro that [of "\<lparr>pc_Purpose = proof_purpose, pc_EventID = uuidString eventID, pc_AccessVersion = accessVersion, pc_ExpiresAt = Unix expiresAt\<rparr>"])
    (auto simp: GenerateProof_def Let_def split: if_splits)

text \<open>The printer of package uuid: different identities have different texts, in ASCII.\<close>

definition uuid_printer :: "(uuid \<Rightarrow> string) \<Rightarrow> bool" where
  "uuid_printer uuidString \<longleftrightarrow> inj uuidString \<and> (\<forall>i. utf8_valid (uuidString i) \<and> CHR ''.'' \<notin> set (uuidString i))"

text \<open>
  The context token of an organization is exact. A token that was issued is accepted if and only if it comes with the
  subject, the application and the organization it was issued for and has not expired, by every process one of whose two secrets
  is the one it was signed with, so that a secret can be rotated; it has to fit the bound on the length of a header.
\<close>

lemma context_token_is_exact:
  assumes issued: "GenerateContext getenv uuidString now subject applicationCode organizationID ttl = Inr (token, expiresAt)"
    and texts: "utf8_valid (TrimSpace subject)" "utf8_valid (normalize_text applicationCode)" "uuid_printer uuidString"
    and secret: "signingSecret getenv \<in> {signingSecret getenv', previousSigningSecret getenv'}" "signingSecret getenv' \<noteq> []"
    and size: "length token \<le> MaxTokenLength" and time: "int64_range (Unix expiresAt)"
  shows "ValidateContext getenv' uuidString later token subject' applicationCode' organizationID' \<longleftrightarrow>
     TrimSpace subject' = TrimSpace subject \<and> normalize_text applicationCode' = normalize_text applicationCode
     \<and> organizationID' = organizationID \<and> Unix later \<le> Unix expiresAt"
proof -
  from issued obtain c where cs: "oc_Purpose c = context_purpose" "oc_Subject c = TrimSpace subject" "oc_ApplicationCode c = normalize_text applicationCode"
    "oc_OrganizationID c = uuidString organizationID" "oc_ExpiresAt c = Unix expiresAt"
    and token: "token = EncodeToString (json_encode (context_json c)) @ CHR ''.'' # signature (EncodeToString (json_encode (context_json c))) (signingSecret getenv)"
    and given: "signingSecret getenv \<noteq> []" "TrimSpace subject \<noteq> []" "normalize_text applicationCode \<noteq> []" "organizationID \<noteq> 0"
    by (rule issued_context)
  have "utf8_valid context_purpose" using context_names_valid by simp
  then have claims: "decode_context (json_encode (context_json c)) = Some c"
    using texts time by (intro decode_context_written) (simp_all add: cs uuid_printer_def)
  have nonempty: "EncodeToString (json_encode (context_json c)) \<noteq> []" by (simp add: EncodeToString_empty context_json_def)
  have signed: "hasValidSignature (EncodeToString (json_encode (context_json c))) (signature (EncodeToString (json_encode (context_json c))) (signingSecret getenv))
      [signingSecret getenv', previousSigningSecret getenv']"
    using secret given by (auto simp: hasValidSignature_def)
  have same: "uuidString organizationID = uuidString organizationID' \<longleftrightarrow> organizationID = organizationID'"
    using texts(3) by (auto simp: uuid_printer_def dest: injD)
  show ?thesis
    using size given secret(2) unfolding ValidateContext_def token
    by (auto simp: Let_def raw.trimmed raw.parts raw.reads_back nonempty signed claims signature_length raw.no_dot cs same)
qed

text \<open>
  C35. The proof of a password is exact. A proof that was issued is accepted, by a process with the same secret, if and only if it comes
  with the event and the version of the password it was issued for and has not expired; so a new password, which has a new
  version, revokes it.
\<close>

theorem password_proof_is_exact:
  assumes issued: "GenerateProof getenv uuidString now eventID accessVersion ttl = Inr (token, expiresAt)"
    and texts: "utf8_valid accessVersion" "uuid_printer uuidString"
    and secret: "accessSecret getenv' = accessSecret getenv" and time: "int64_range (Unix expiresAt)"
  shows "ValidateProof getenv' uuidString later token eventID' accessVersion' \<longleftrightarrow>
     eventID' = eventID \<and> accessVersion' = accessVersion \<and> Unix later \<le> Unix expiresAt"
proof -
  from issued obtain c where cs: "pc_Purpose c = proof_purpose" "pc_EventID c = uuidString eventID" "pc_AccessVersion c = accessVersion" "pc_ExpiresAt c = Unix expiresAt"
    and token: "token = EncodeToString (json_encode (proof_json c)) @ CHR ''.'' # signature (EncodeToString (json_encode (proof_json c))) (accessSecret getenv)"
    and given: "accessSecret getenv \<noteq> []"
    by (rule issued_proof)
  have "utf8_valid proof_purpose" using context_names_valid by simp
  then have claims: "decode_proof (json_encode (proof_json c)) = Some c"
    using texts time by (intro decode_proof_written) (simp_all add: cs uuid_printer_def)
  have same: "uuidString eventID = uuidString eventID' \<longleftrightarrow> eventID = eventID'"
    using texts(2) by (auto simp: uuid_printer_def dest: injD)
  show ?thesis
    using given secret unfolding ValidateProof_def token
    by (auto simp: Let_def raw.trimmed raw.parts raw.reads_back claims cs same)
qed

subsection \<open>Previews\<close>

lemma ParseInt_shown: "int64_range i \<Longrightarrow> ParseInt (show_int i) = Some i"
proof -
  assume i: "int64_range i"
  have "\<not> HasPrefix (show_int i) ''+''"
    using show_int_start [of i] by (auto simp: decimal_def less_eq_char_def)
  with i show ?thesis by (simp add: ParseInt_def int64_range_def int_literal_show)
qed

lemma show_int_no_dot: "CHR ''.'' \<notin> set (show_int i)"
proof -
  have "CHR ''.'' \<notin> set (show_nat n)" for n
    using show_nat_shape [of n] by (auto simp: list_all_iff decimal_def less_eq_char_def)
  then show ?thesis by (simp add: show_int_def)
qed

text \<open>
  A preview token is exact: it is accepted, by a process with the same secret, if and only if it comes with the event it
  was issued for and has not expired.
\<close>

lemma preview_token_is_exact:
  assumes issued: "GenerateWithExpiry getenv uuidString now eventID ttl = Inr (token, expiresAt)"
    and texts: "uuid_printer uuidString" and secret: "previewSecret getenv' = previewSecret getenv" and time: "int64_range (Unix expiresAt)"
  shows "ValidatePreview getenv' uuidString later token eventID' \<longleftrightarrow> eventID' = eventID \<and> Unix later \<le> Unix expiresAt"
proof -
  let ?payload = "uuidString eventID @ CHR ''.'' # show_int (Unix expiresAt)"
  have token: "token = EncodeToString (?payload @ CHR ''.'' # signature ?payload (previewSecret getenv))" and given: "previewSecret getenv \<noteq> []"
    using issued by (auto simp: GenerateWithExpiry_def Let_def split: if_splits)
  have dot: "CHR ''.'' \<notin> set (uuidString eventID)" using texts by (simp add: uuid_printer_def)
  have same: "uuidString eventID = uuidString eventID' \<longleftrightarrow> eventID = eventID'"
    using texts by (auto simp: uuid_printer_def dest: injD)
  have parts: "Split (uuidString eventID @ CHR ''.'' # show_int (Unix expiresAt) @ CHR ''.'' # signature ?payload (previewSecret getenv)) (CHR ''.'')
      = [uuidString eventID, show_int (Unix expiresAt), signature ?payload (previewSecret getenv)]"
    by (simp add: Split_found Split_missing dot show_int_no_dot raw.no_dot)
  show ?thesis
    using given secret unfolding ValidatePreview_def token
    by (auto simp: Let_def raw.trimmed raw.reads_back parts EncodeToString_empty ParseInt_shown [OF time] same)
qed

subsection \<open>Kinds of tokens\<close>

lemma other_names:
  "list_all (\<lambda>key. list_all (\<lambda>name. \<not> EqualFold name key) [''purpose'', ''eventId'', ''accessVersion'', ''expiresAt''])
     [''sub'', ''applicationCode'', ''organizationId'']"
  "list_all (\<lambda>key. list_all (\<lambda>name. \<not> EqualFold name key) [''purpose'', ''sub'', ''applicationCode'', ''organizationId'', ''expiresAt''])
     [''eventId'', ''accessVersion'']"
  by code_simp+

lemma context_read_as_proof:
  assumes "utf8_valid (oc_Purpose c)" "utf8_valid (oc_Subject c)" "utf8_valid (oc_ApplicationCode c)" "utf8_valid (oc_OrganizationID c)"
    and "decode_proof (json_encode (context_json c)) = Some p"
  shows "pc_Purpose p = oc_Purpose c"
proof -
  have "json_document (json_encode (context_json c)) = Some (read_as (context_json c))"
    using assms context_names_valid by (intro json_document_written) (simp_all add: context_json_def maxNestingDepth_def)
  with assms(5) other_names(1) show ?thesis
    by (auto simp: decode_proof_def json_unmarshal_def context_json_def un_struct_def proof_fields_def field_named_def
        in_field_def proof_zero_def split: option.splits)
qed

lemma proof_read_as_context:
  assumes "utf8_valid (pc_Purpose c)" "utf8_valid (pc_EventID c)" "utf8_valid (pc_AccessVersion c)"
    and "decode_context (json_encode (proof_json c)) = Some p"
  shows "oc_Purpose p = pc_Purpose c"
proof -
  have "json_document (json_encode (proof_json c)) = Some (read_as (proof_json c))"
    using assms context_names_valid by (intro json_document_written) (simp_all add: proof_json_def maxNestingDepth_def)
  with assms(4) other_names(2) show ?thesis
    by (auto simp: decode_context_def json_unmarshal_def proof_json_def un_struct_def context_fields_def field_named_def
        in_field_def context_zero_def split: option.splits)
qed

lemma purposes_differ: "context_purpose \<noteq> proof_purpose"
  by (simp add: context_purpose_def proof_purpose_def)

text \<open>
  C36. The kinds of tokens do not mix. Whatever the secrets of the issuing and of the checking process are, even if one secret serves all
  three kinds, a context token is neither a proof nor a preview token, a proof is neither a context token nor a preview token, and a preview
  token is neither of the others.
\<close>

theorem token_kinds_do_not_mix:
  assumes texts: "uuid_printer uuidString" "utf8_valid (TrimSpace subject)" "utf8_valid (normalize_text applicationCode)" "utf8_valid accessVersion"
  shows "(GenerateContext getenv uuidString now subject applicationCode organizationID ttl = Inr (token, expiresAt) \<longrightarrow>
            \<not> ValidateProof getenv' uuidString' later token eventID' version' \<and> \<not> ValidatePreview getenv' uuidString' later token eventID')
     \<and> (GenerateProof getenv uuidString now eventID accessVersion ttl = Inr (token, expiresAt) \<longrightarrow>
            \<not> ValidateContext getenv' uuidString' later token subject' application' organization' \<and> \<not> ValidatePreview getenv' uuidString' later token eventID')
     \<and> (GenerateWithExpiry getenv uuidString now eventID ttl = Inr (token, expiresAt) \<longrightarrow>
            \<not> ValidateContext getenv' uuidString' later token subject' application' organization' \<and> \<not> ValidateProof getenv' uuidString' later token eventID' version')"
proof (intro conjI [OF impI conjI] impI, goal_cases)
  have valid: "utf8_valid context_purpose" "utf8_valid proof_purpose" using context_names_valid by simp_all
  {
    case 1
    then obtain c where cs: "oc_Purpose c = context_purpose" "oc_Subject c = TrimSpace subject" "oc_ApplicationCode c = normalize_text applicationCode"
    "oc_OrganizationID c = uuidString organizationID" "oc_ExpiresAt c = Unix expiresAt"
      and t: "token = EncodeToString (json_encode (context_json c)) @ CHR ''.'' # signature (EncodeToString (json_encode (context_json c))) (signingSecret getenv)"
      by (rule issued_context)
    have u: "utf8_valid (oc_Subject c)" "utf8_valid (oc_ApplicationCode c)" "utf8_valid (oc_OrganizationID c)"
      using texts by (simp_all add: cs uuid_printer_def)
    have "pc_Purpose p \<noteq> proof_purpose" if "decode_proof (json_encode (context_json c)) = Some p" for p
      using context_read_as_proof [OF _ u that] valid cs(1) purposes_differ by simp
    then show ?case using purposes_differ
      by (auto simp: t ValidateProof_def ValidatePreview_def Let_def raw.trimmed raw.parts raw.reads_back raw.not_decoded split: option.splits)
  next
    case 2
    then obtain c where cs: "pc_Purpose c = proof_purpose" "pc_EventID c = uuidString eventID" "pc_AccessVersion c = accessVersion" "pc_ExpiresAt c = Unix expiresAt"
      and t: "token = EncodeToString (json_encode (proof_json c)) @ CHR ''.'' # signature (EncodeToString (json_encode (proof_json c))) (accessSecret getenv)"
      by (rule issued_proof)
    have u: "utf8_valid (pc_EventID c)" "utf8_valid (pc_AccessVersion c)"
      using texts by (simp_all add: cs uuid_printer_def)
    have "oc_Purpose p \<noteq> context_purpose" if "decode_context (json_encode (proof_json c)) = Some p" for p
      using proof_read_as_context [OF _ u that] valid cs(1) purposes_differ by simp
    then show ?case
      by (auto simp: t ValidateContext_def ValidatePreview_def Let_def raw.trimmed raw.parts raw.reads_back raw.not_decoded split: option.splits)
  next
    case 3
    then obtain body where "token = EncodeToString body" by (auto simp: GenerateWithExpiry_def Let_def split: if_splits)
    then show ?case by (auto simp: ValidateContext_def ValidateProof_def Let_def raw.trimmed raw.parts)
  }
qed

end
