(* ===== verification/PasswordGateProps.thy ===== *)
theory PasswordGateProps
  imports PasswordGate SignedTokensProps
begin

text \<open>
  Wrong guesses are bounded. Whatever handlers run concurrently, and however long they take, the count of an open window and the
  slots given back into it after their own window had ended cover the attempts that hold or return a slot of the window and the wrong
  guesses made with one. So an address makes at most ten wrong guesses of one password with the slots of a window, plus one for each
  such late return, and windows of one address do not overlap.
\<close>

subsection \<open>The limiter\<close>

lemma open_window_Some: "open_window now m k = Some w \<longleftrightarrow> map_of m k = Some w \<and> now < mw_expiresAt w"
  by (auto simp: open_window_def split: option.splits if_splits)

lemma open_window_alive: "open_window now m k = Some w \<Longrightarrow> now < mw_expiresAt w"
  by (simp add: open_window_Some)

lemma open_pruned: "distinct (map fst m) \<Longrightarrow> open_window now (pruned now m) k = open_window now m k"
proof (rule option.expand)
  assume d: "distinct (map fst m)"
  have f: "open_window now (pruned now m) k = Some w \<longleftrightarrow> open_window now m k = Some w" for w
    using d by (auto simp: open_window_Some pruned_def distinct_map_filter map_of_eq_Some_iff)
  show "(open_window now (pruned now m) k = None) = (open_window now m k = None)" using f by (metis not_None_eq)
  show "open_window now (pruned now m) k \<noteq> None \<Longrightarrow> open_window now m k \<noteq> None \<Longrightarrow>
      the (open_window now (pruned now m) k) = the (open_window now m k)" using f by (metis option.collapse)
qed

lemma distinct_pruned: "distinct (map fst m) \<Longrightarrow> distinct (map fst (pruned now m))"
  by (simp add: pruned_def distinct_map_filter)

lemma open_update: "open_window now (AList.update key w m) k = (if k = key then (if now < mw_expiresAt w then Some w else None) else open_window now m k)"
  by (simp add: open_window_def update_conv')

lemma open_add:
  assumes "addMemory now key delta window m = ((cnt, retry), m')" "distinct (map fst m)" "0 < window"
  shows "distinct (map fst m')"
    and "k \<noteq> key \<Longrightarrow> open_window now m' k = open_window now m k"
    and "delta \<noteq> 0 \<Longrightarrow> open_window now m key = None \<Longrightarrow>
      open_window now m' key = Some \<lparr>mw_count = delta, mw_expiresAt = now + window\<rparr> \<and> cnt = delta \<and> now + retry = now + window"
    and "open_window now m key = Some w \<Longrightarrow>
      open_window now m' key = Some (w\<lparr>mw_count := mw_count w + delta\<rparr>) \<and> cnt = mw_count w + delta \<and> now + retry = mw_expiresAt w"
  using assms distinct_pruned [OF assms(2), of now]
  by (auto simp: addMemory_def Let_def open_update open_pruned distinct_update split: option.splits if_splits dest: open_window_alive)

lemma open_refund:
  assumes "distinct (map fst m)"
  shows "distinct (map fst (refundMemory now key m))"
    and "k \<noteq> key \<Longrightarrow> open_window now (refundMemory now key m) k = open_window now m k"
    and "open_window now (refundMemory now key m) key =
      map_option (\<lambda>w. w\<lparr>mw_count := (if mw_count w \<le> 0 then mw_count w else mw_count w - 1)\<rparr>) (open_window now m key)"
  using assms by (auto simp: refundMemory_def open_update distinct_update split: option.splits dest: open_window_alive)

lemma open_later:
  "now \<le> t \<Longrightarrow> open_window t m k = (case open_window now m k of None \<Rightarrow> None | Some w \<Rightarrow> if t < mw_expiresAt w then Some w else None)"
  by (auto simp: open_window_def split: option.splits)

lemma keys_differ: "ip_key env eventID ip \<noteq> event_key env eventID'"
  by (simp add: ip_key_def event_key_def attemptKey_def)

lemma windows_positive: "0 < PasswordAttemptsPerIPWindow" "0 < PasswordFailuresEventWindow"
  by (simp_all add: PasswordAttemptsPerIPWindow_def PasswordFailuresEventWindow_def)

lemma limit_le: "attempt_limit underAttack \<le> 10" "1 \<le> attempt_limit underAttack"
  by (simp_all add: attempt_limit_def PasswordAttemptsPerIP_def PasswordFailuresPerIPUnderAttack_def)

subsection \<open>Counting\<close>

definition attempt_key :: "limiter_env \<Rightarrow> attempt \<Rightarrow> string" where
  "attempt_key env a = ip_key env (at_EventID a) (at_IP a)"

definition guess_log :: "gate_state \<Rightarrow> string \<Rightarrow> (gotime \<times> gotime) list" where
  "guess_log s k = map snd (filter (\<lambda>(k', _). k' = k) (gs_wrong s))"

definition refund_log :: "gate_state \<Rightarrow> string \<Rightarrow> (gotime \<times> gotime) list" where
  "refund_log s k = map snd (filter (\<lambda>(k', _). k' = k) (gs_refunds s))"

definition failed :: "gate_state \<Rightarrow> string \<Rightarrow> gotime \<Rightarrow> nat" where
  "failed s k e = length (filter (\<lambda>(taken, e'). e' = e) (guess_log s k))"

text \<open>The slots given back while the window that ends at a moment was open, after their own window had ended.\<close>

definition late :: "gate_state \<Rightarrow> string \<Rightarrow> gotime \<Rightarrow> nat" where
  "late s k e = length (filter (\<lambda>(e', t). e' \<le> t \<and> e - PasswordAttemptsPerIPWindow \<le> t \<and> t < e) (refund_log s k))"

text \<open>The slots of a window that are in use or were spent on a wrong guess, and those among them that were granted.\<close>

definition spent :: "limiter_env \<Rightarrow> gate_state \<Rightarrow> string \<Rightarrow> gotime \<Rightarrow> nat" where
  "spent env s k e = length (filter (\<lambda>a. attempt_key env a = k \<and> in_flight_until a = Some e) (gs_attempts s)) + failed s k e"

definition granted :: "limiter_env \<Rightarrow> gate_state \<Rightarrow> string \<Rightarrow> gotime \<Rightarrow> nat" where
  "granted env s k e = length (filter (\<lambda>a. attempt_key env a = k \<and> (\<exists>taken. at_Phase a = Holds taken e)) (gs_attempts s)) + failed s k e"

lemma granted_le: "granted env s k e \<le> spent env s k e"
proof -
  have mono: "length (filter P xs) \<le> length (filter Q xs)" if "\<And>x. P x \<Longrightarrow> Q x" for P Q :: "attempt \<Rightarrow> bool" and xs
    using that by (induction xs) auto
  show ?thesis unfolding granted_def spent_def by (intro add_right_mono mono) (auto simp: in_flight_until_def)
qed

lemma failed_le: "failed s k e \<le> granted env s k e" "failed s k e \<le> spent env s k e"
  by (simp_all add: granted_def spent_def)

lemma spent_pos: "a \<in> set (gs_attempts s) \<Longrightarrow> in_flight_until a = Some e \<Longrightarrow> 0 < spent env s (attempt_key env a) e"
  by (auto simp: spent_def length_greater_0_conv filter_empty_conv)

subsection \<open>The invariant\<close>

definition win :: "gate_state \<Rightarrow> string \<Rightarrow> memory_window option" where
  "win s k = open_window (gs_now s) (gs_memory s) k"

text \<open>The count of the open window and the late returns into it cover its slots.\<close>

definition accounted :: "limiter_env \<Rightarrow> string \<Rightarrow> gate_state \<Rightarrow> bool" where
  "accounted env k s \<longleftrightarrow>
     (\<forall>w. win s k = Some w \<longrightarrow> int (spent env s k (mw_expiresAt w)) \<le> mw_count w + int (late s k (mw_expiresAt w))
        \<and> mw_expiresAt w \<le> gs_now s + PasswordAttemptsPerIPWindow)
     \<and> (\<forall>e. granted env s k e \<le> 10 + late s k e)"

text \<open>The windows with slots have ended or are the open one, and lie apart.\<close>

definition windows_apart :: "limiter_env \<Rightarrow> string \<Rightarrow> gate_state \<Rightarrow> bool" where
  "windows_apart env k s \<longleftrightarrow>
     (\<forall>e. 0 < spent env s k e \<longrightarrow> e \<le> gs_now s \<or> (\<exists>w. win s k = Some w \<and> mw_expiresAt w = e))
     \<and> (\<forall>w e. win s k = Some w \<longrightarrow> 0 < spent env s k e \<longrightarrow> e \<noteq> mw_expiresAt w \<longrightarrow> e + PasswordAttemptsPerIPWindow \<le> mw_expiresAt w)
     \<and> (\<forall>e e'. 0 < spent env s k e \<longrightarrow> 0 < spent env s k e' \<longrightarrow> e < e' \<longrightarrow> e + PasswordAttemptsPerIPWindow \<le> e')"

definition key_inv :: "limiter_env \<Rightarrow> string \<Rightarrow> gate_state \<Rightarrow> bool" where
  "key_inv env k s \<longleftrightarrow> accounted env k s \<and> windows_apart env k s"

text \<open>A slot is taken while its window is open.\<close>

definition in_window :: "gotime \<Rightarrow> gotime \<Rightarrow> bool" where
  "in_window taken e \<longleftrightarrow> e - PasswordAttemptsPerIPWindow \<le> taken \<and> taken < e"

definition timely :: "gate_state \<Rightarrow> bool" where
  "timely s \<longleftrightarrow> (\<forall>a \<in> set (gs_attempts s). \<forall>taken e. at_Phase a = Holds taken e \<longrightarrow> in_window taken e)
     \<and> (\<forall>(k, taken, e) \<in> set (gs_wrong s). in_window taken e)"

definition gate_inv :: "limiter_env \<Rightarrow> gate_state \<Rightarrow> bool" where
  "gate_inv env s \<longleftrightarrow> distinct (map fst (gs_memory s)) \<and> timely s \<and> (\<forall>eventID ip. key_inv env (ip_key env eventID ip) s)"

lemmas key_inv_parts = key_inv_def accounted_def windows_apart_def

text \<open>A step that leaves the window of a key and the number of its slots alone.\<close>

lemma key_inv_neutral:
  assumes "key_inv env k s" "gs_now s' = gs_now s" "win s' k = win s k" "refund_log s' k = refund_log s k"
    and "\<And>e. spent env s' k e = spent env s k e" "\<And>e. granted env s' k e = granted env s k e"
  shows "key_inv env k s'"
  using assms unfolding key_inv_parts late_def by simp

lemma key_inv_tick:
  assumes inv: "key_inv env k s" and t: "gs_now s \<le> t"
  shows "key_inv env k (s\<lparr>gs_now := t\<rparr>)"
proof -
  let ?s = "s\<lparr>gs_now := t\<rparr>"
  have same: "spent env ?s = spent env s" "granted env ?s = granted env s" "late ?s = late s"
    by (simp_all add: fun_eq_iff spent_def granted_def failed_def guess_log_def late_def refund_log_def)
  have w: "win ?s k = Some w \<longleftrightarrow> win s k = Some w \<and> t < mw_expiresAt w" for w
    using open_later [OF t(1), of "gs_memory s" k] by (auto simp: win_def split: option.splits)
  have "accounted env k ?s" using inv t unfolding key_inv_parts same w by force
  moreover have "windows_apart env k ?s"
    unfolding windows_apart_def same w
  proof (intro conjI allI impI)
    fix e assume "0 < spent env s k e"
    with inv consider "e \<le> gs_now s" | v where "win s k = Some v" "mw_expiresAt v = e" unfolding key_inv_parts by blast
    then show "e \<le> gs_now ?s \<or> (\<exists>v. (win s k = Some v \<and> t < mw_expiresAt v) \<and> mw_expiresAt v = e)"
      using t(1) by cases (auto simp: linorder_not_less)
  qed (use inv in \<open>unfold key_inv_parts, blast\<close>)+
  ultimately show ?thesis by (simp add: key_inv_def)
qed

text \<open>An attempt takes a slot: it opens a window, or it is counted in the open one.\<close>

lemma key_inv_opens:
  assumes inv: "key_inv env k s" and closed: "win s k = None"
    and s': "gs_now s' = gs_now s" "refund_log s' k = refund_log s k"
      "win s' k = Some \<lparr>mw_count = 1, mw_expiresAt = gs_now s + PasswordAttemptsPerIPWindow\<rparr>"
      "\<And>e. spent env s' k e = spent env s k e + (if e = gs_now s + PasswordAttemptsPerIPWindow then 1 else 0)"
      "\<And>e. granted env s' k e \<le> granted env s k e + (if e = gs_now s + PasswordAttemptsPerIPWindow then 1 else 0)"
  shows "key_inv env k s'"
proof -
  let ?E = "gs_now s + PasswordAttemptsPerIPWindow"
  have l: "late s' k = late s k" using s'(2) by (simp add: fun_eq_iff late_def)
  have past: "0 < spent env s k e \<Longrightarrow> e \<le> gs_now s" for e using inv closed unfolding key_inv_parts by (metis option.distinct(1))
  have new: "spent env s k ?E = 0" using past [of ?E] windows_positive by (cases "spent env s k ?E") auto
  have "granted env s' k e \<le> 10 + late s k e" for e
  proof (cases "e = ?E")
    case True
    with granted_le [of env s' k e] new s'(4) [of e] show ?thesis by simp
  next
    case False
    moreover have "granted env s k e \<le> 10 + late s k e" using inv unfolding key_inv_parts by blast
    ultimately show ?thesis using s'(5) [of e] by simp
  qed
  then have "accounted env k s'" using new unfolding accounted_def s'(1,3,4) l by simp
  moreover have "windows_apart env k s'"
  proof -
    have pos: "0 < spent env s' k e \<longleftrightarrow> e = ?E \<or> 0 < spent env s k e" for e by (simp add: s'(4))
    have apart: "0 < spent env s k e \<Longrightarrow> 0 < spent env s k e' \<Longrightarrow> e < e' \<Longrightarrow> e + PasswordAttemptsPerIPWindow \<le> e'" for e e'
      using inv unfolding key_inv_parts by blast
    show ?thesis
      unfolding windows_apart_def s'(1,3) pos
    proof (intro conjI allI impI)
      fix e e' assume "e = ?E \<or> 0 < spent env s k e" "e' = ?E \<or> 0 < spent env s k e'" "e < e'"
      then show "e + PasswordAttemptsPerIPWindow \<le> e'" using past [of e] past [of e'] apart [of e e'] windows_positive(1) by auto
    qed (use past in auto)
  qed
  ultimately show ?thesis by (simp add: key_inv_def)
qed

lemma key_inv_counts:
  assumes inv: "key_inv env k s" and w: "win s k = Some w"
    and s': "gs_now s' = gs_now s" "refund_log s' k = refund_log s k" "win s' k = Some (w\<lparr>mw_count := mw_count w + 1\<rparr>)"
      "\<And>e. spent env s' k e = spent env s k e + (if e = mw_expiresAt w then 1 else 0)"
      "\<And>e. granted env s' k e = granted env s k e + (if e = mw_expiresAt w \<and> mw_count w + 1 \<le> limit then 1 else 0)"
    and limit: "limit \<le> 10"
  shows "key_inv env k s'"
proof -
  have l: "late s' k = late s k" using s'(2) by (simp add: fun_eq_iff late_def)
  have c: "int (spent env s k (mw_expiresAt w)) \<le> mw_count w + int (late s k (mw_expiresAt w))"
    using inv w unfolding key_inv_parts by blast
  have "granted env s' k e \<le> 10 + late s k e" for e
  proof (cases "e = mw_expiresAt w \<and> mw_count w + 1 \<le> limit")
    case True
    with c limit granted_le [of env s k e] s'(5) [of e] show ?thesis by simp
  next
    case False
    with inv s'(5) [of e] show ?thesis unfolding key_inv_parts by auto
  qed
  then have "accounted env k s'" using inv w c unfolding key_inv_parts s'(1,3,4) l by auto
  moreover have "windows_apart env k s'"
  proof -
    have pos: "0 < spent env s' k e \<longleftrightarrow> e = mw_expiresAt w \<or> 0 < spent env s k e" for e by (simp add: s'(4))
    have before: "0 < spent env s k e \<Longrightarrow> e \<noteq> mw_expiresAt w \<Longrightarrow> e \<le> gs_now s \<and> e + PasswordAttemptsPerIPWindow \<le> mw_expiresAt w" for e
      using inv w unfolding key_inv_parts by (metis option.inject)
    have apart: "0 < spent env s k e \<Longrightarrow> 0 < spent env s k e' \<Longrightarrow> e < e' \<Longrightarrow> e + PasswordAttemptsPerIPWindow \<le> e'" for e e'
      using inv unfolding key_inv_parts by blast
    show ?thesis
      unfolding windows_apart_def s'(1,3) pos
    proof (intro conjI allI impI)
      fix e e' assume "e = mw_expiresAt w \<or> 0 < spent env s k e" "e' = mw_expiresAt w \<or> 0 < spent env s k e'" "e < e'"
      then show "e + PasswordAttemptsPerIPWindow \<le> e'" using before [of e] before [of e'] apart [of e e'] windows_positive(1) by fastforce
    qed (use before in auto)
  qed
  ultimately show ?thesis by (simp add: key_inv_def)
qed

text \<open>A slot is given back, perhaps after its window.\<close>

lemma key_inv_returns:
  assumes inv: "key_inv env k s" and a: "0 < spent env s k e"
    and s': "gs_now s' = gs_now s" "refund_log s' k = (e, gs_now s) # refund_log s k"
      "win s' k = map_option (\<lambda>w. w\<lparr>mw_count := (if mw_count w \<le> 0 then mw_count w else mw_count w - 1)\<rparr>) (win s k)"
      "\<And>i. spent env s k i = spent env s' k i + (if i = e then 1 else 0)" "\<And>i. granted env s' k i \<le> granted env s k i"
  shows "key_inv env k s'"
proof -
  have more: "late s k i \<le> late s' k i" for i by (simp add: late_def s'(2))
  have fewer: "0 < spent env s' k i \<Longrightarrow> 0 < spent env s k i" for i using s'(4) [of i] by simp
  have open_w: "win s' k = Some v \<longleftrightarrow> (\<exists>w. win s k = Some w \<and> v = w\<lparr>mw_count := (if mw_count w \<le> 0 then mw_count w else mw_count w - 1)\<rparr>)" for v
    unfolding s'(3) map_option_eq_Some by metis
  have "int (spent env s' k (mw_expiresAt w)) \<le> (if mw_count w \<le> 0 then mw_count w else mw_count w - 1) + int (late s' k (mw_expiresAt w))"
    if w: "win s k = Some w" for w
  proof -
    have c: "int (spent env s k (mw_expiresAt w)) \<le> mw_count w + int (late s k (mw_expiresAt w))"
        "mw_expiresAt w \<le> gs_now s + PasswordAttemptsPerIPWindow" using inv w unfolding key_inv_parts by blast+
    show ?thesis
    proof (cases "e = mw_expiresAt w")
      case True
      with c(1) more [of e] s'(4) [of e] show ?thesis by (auto split: if_splits)
    next
      case False
      with inv a w have "e \<le> gs_now s" unfolding key_inv_parts by (metis option.inject)
      then have "late s' k (mw_expiresAt w) = late s k (mw_expiresAt w) + 1"
        using c(2) w by (auto simp: late_def s'(2) win_def dest: open_window_alive)
      with c(1) False s'(4) [of "mw_expiresAt w"] show ?thesis by (auto split: if_splits)
    qed
  qed
  moreover have "granted env s' k i \<le> 10 + late s' k i" for i
    using inv s'(5) [of i] more [of i] unfolding key_inv_parts by (meson add_left_mono order_trans)
  moreover have "mw_expiresAt w \<le> gs_now s + PasswordAttemptsPerIPWindow" if "win s k = Some w" for w
    using inv that unfolding key_inv_parts by blast
  ultimately have "accounted env k s'" unfolding accounted_def open_w s'(1) by fastforce
  moreover have "windows_apart env k s'"
  proof -
    have 1: "e' \<le> gs_now s \<or> (\<exists>w. win s k = Some w \<and> mw_expiresAt w = e')" if "0 < spent env s k e'" for e'
      using inv that unfolding key_inv_parts by blast
    have 2: "win s k = Some w \<Longrightarrow> 0 < spent env s k e' \<Longrightarrow> e' \<noteq> mw_expiresAt w \<Longrightarrow> e' + PasswordAttemptsPerIPWindow \<le> mw_expiresAt w" for w e'
      using inv unfolding key_inv_parts by blast
    have 3: "0 < spent env s k i \<Longrightarrow> 0 < spent env s k i' \<Longrightarrow> i < i' \<Longrightarrow> i + PasswordAttemptsPerIPWindow \<le> i'" for i i'
      using inv unfolding key_inv_parts by blast
    show ?thesis
      unfolding windows_apart_def s'(1)
    proof (intro conjI allI impI)
      fix e' assume "0 < spent env s' k e'"
      from 1 [OF fewer [OF this]] consider "e' \<le> gs_now s" | w where "win s k = Some w" "mw_expiresAt w = e'" by blast
      then show "e' \<le> gs_now s \<or> (\<exists>w. win s' k = Some w \<and> mw_expiresAt w = e')"
      proof cases
        case (2 w)
        then have "win s' k = Some (w\<lparr>mw_count := (if mw_count w \<le> 0 then mw_count w else mw_count w - 1)\<rparr>)" by (simp only: s'(3) option.map)
        with 2(2) show ?thesis by (intro disjI2 exI conjI) (assumption, simp)
      qed simp
    next
      fix w e' assume "win s' k = Some w" and u: "0 < spent env s' k e'" "e' \<noteq> mw_expiresAt w"
      then obtain v where "win s k = Some v" "mw_expiresAt w = mw_expiresAt v" by (auto simp: s'(3))
      with 2 [OF _ fewer [OF u(1)]] u(2) show "e' + PasswordAttemptsPerIPWindow \<le> mw_expiresAt w" by simp
    qed (use 3 fewer in blast)
  qed
  ultimately show ?thesis by (simp add: key_inv_def)
qed

subsection \<open>Steps of handlers\<close>

lemma look_keeps:
  assumes "gate_inv env s" "EventFailuresExceeded env (gs_now s) eventID (gs_memory s) = ((underAttack, retry), m)"
  shows "gate_inv env (s\<lparr>gs_memory := m,
     gs_attempts := \<lparr>at_EventID = eventID, at_IP = ip, at_Password = password, at_Phase = Looked underAttack\<rparr> # gs_attempts s\<rparr>)" (is "gate_inv env ?s")
proof -
  have d: "distinct (map fst (gs_memory s))" using assms(1) by (simp add: gate_inv_def)
  obtain cnt where add: "addMemory (gs_now s) (event_key env eventID) 0 PasswordFailuresEventWindow (gs_memory s) = ((cnt, retry), m)"
    using assms(2) by (auto simp: EventFailuresExceeded_def Let_def split: prod.splits)
  note m = open_add [OF add d windows_positive(2)]
  have same: "spent env ?s k e = spent env s k e" "granted env ?s k e = granted env s k e" "refund_log ?s k = refund_log s k" for k e
    by (simp_all add: spent_def granted_def failed_def in_flight_until_def guess_log_def refund_log_def)
  have "key_inv env (ip_key env i ip') ?s" if k: "key_inv env (ip_key env i ip') s" for i ip'
    by (rule key_inv_neutral [OF k]) (simp_all add: same, simp add: win_def m(2) keys_differ)
  with assms(1) m(1) show ?thesis by (simp add: gate_inv_def timely_def)
qed

lemma split_attempt:
  assumes "gs_attempts s = before @ a # after"
  shows "length (filter P (gs_attempts s)) = length (filter P (before @ after)) + (if P a then 1 else 0)"
    and "length (filter P (before @ b # after)) = length (filter P (before @ after)) + (if P b then 1 else 0)"
  using assms by simp_all

lemma reserve_keeps:
  assumes inv: "gate_inv env s" and a: "gs_attempts s = before @ a # after" "at_Phase a = Looked underAttack"
    and add: "addMemory (gs_now s) (ip_key env (at_EventID a) (at_IP a)) 1 PasswordAttemptsPerIPWindow (gs_memory s) = ((cnt, retry), m)"
  shows "gate_inv env (s\<lparr>gs_memory := m,
     gs_attempts := before @ a\<lparr>at_Phase := (if cnt \<le> attempt_limit underAttack then Holds (gs_now s) else Refused) (gs_now s + retry)\<rparr> # after\<rparr>)"
    (is "gate_inv env ?s")
proof -
  let ?k = "attempt_key env a"
  have d: "distinct (map fst (gs_memory s))" "timely s" and ka: "key_inv env ?k s" using inv by (auto simp: gate_inv_def attempt_key_def)
  note m = open_add [OF add d(1) windows_positive(1), folded attempt_key_def]
  have now: "gs_now ?s = gs_now s" "refund_log ?s = refund_log s" "guess_log ?s = guess_log s"
    by (simp_all add: refund_log_def guess_log_def fun_eq_iff)
  have spent: "spent env ?s k e = spent env s k e + (if k = ?k \<and> e = gs_now s + retry then 1 else 0)" for k e
    using a unfolding spent_def split_attempt(1) [OF a(1)] failed_def now by (auto simp: in_flight_until_def attempt_key_def)
  have granted: "granted env ?s k e = granted env s k e + (if k = ?k \<and> e = gs_now s + retry \<and> cnt \<le> attempt_limit underAttack then 1 else 0)" for k e
    using a unfolding granted_def split_attempt(1) [OF a(1)] failed_def now by (auto simp: attempt_key_def)
  have "in_window (gs_now s) (gs_now s + retry)"
  proof (cases "win s ?k")
    case None
    with m(3) windows_positive show ?thesis by (simp add: win_def in_window_def)
  next
    case (Some w)
    with ka have "mw_expiresAt w \<le> gs_now s + PasswordAttemptsPerIPWindow" unfolding key_inv_parts by blast
    with m(4) Some open_window_alive show ?thesis by (fastforce simp: win_def in_window_def)
  qed
  with d(2) a have "timely ?s" by (auto simp: timely_def)
  moreover have "key_inv env k ?s" if k: "key_inv env k s" for k
  proof (cases "k = ?k")
    case False
    show ?thesis by (rule key_inv_neutral [OF k]) (use False m(2) spent granted now in \<open>auto simp: win_def\<close>)
  next
    case True
    show ?thesis
    proof (cases "win s k")
      case None
      then show ?thesis using m(3) True now spent granted by (intro key_inv_opens [OF k None]) (auto simp: win_def)
    next
      case (Some w)
      then have w: "win ?s k = Some (w\<lparr>mw_count := mw_count w + 1\<rparr>) \<and> cnt = mw_count w + 1 \<and> gs_now s + retry = mw_expiresAt w"
        using m(4) True by (simp add: win_def)
      show ?thesis
        by (rule key_inv_counts [OF k Some now(1) _ _ _ _ limit_le(1) [of underAttack]])
          (use w now spent granted True in \<open>auto simp: fun_eq_iff\<close>)
    qed
  qed
  ultimately show ?thesis using inv m(1) by (simp add: gate_inv_def)
qed

text \<open>An attempt that ends gives its slot back, or was a wrong guess.\<close>

lemma return_keeps:
  assumes inv: "gate_inv env s" and a: "gs_attempts s = before @ a # after" "in_flight_until a = Some e"
  shows "gate_inv env (s\<lparr>gs_memory := refundMemory (gs_now s) (attempt_key env a) (gs_memory s), gs_attempts := before @ after,
     gs_refunds := (attempt_key env a, e, gs_now s) # gs_refunds s\<rparr>)" (is "gate_inv env ?s")
proof -
  let ?k = "attempt_key env a"
  have d: "distinct (map fst (gs_memory s))" "timely s" using inv by (auto simp: gate_inv_def)
  note m = open_refund [OF d(1), where now = "gs_now s" and key = ?k]
  have now: "gs_now ?s = gs_now s" "guess_log ?s = guess_log s" by (simp_all add: guess_log_def fun_eq_iff)
  have log: "refund_log ?s k = (if k = ?k then [(e, gs_now s)] else []) @ refund_log s k" for k by (simp add: refund_log_def)
  have spent: "spent env s k i = spent env ?s k i + (if k = ?k \<and> i = e then 1 else 0)" for k i
    using a(2) unfolding spent_def split_attempt(1) [OF a(1)] failed_def now by auto
  have granted: "granted env s k i = granted env ?s k i + (if ?k = k \<and> (\<exists>taken. at_Phase a = Holds taken i) then 1 else 0)" for k i
    unfolding granted_def split_attempt(1) [OF a(1)] failed_def now by simp
  have "key_inv env k ?s" if k: "key_inv env k s" for k
  proof (cases "k = ?k")
    case False
    have "granted env ?s k i = granted env s k i" "spent env ?s k i = spent env s k i" for i
      using False granted [of k i] spent [of k i] by auto
    then show ?thesis by (intro key_inv_neutral [OF k]) (use False m(2) log now in \<open>auto simp: win_def\<close>)
  next
    case True
    have pos: "0 < spent env s k e" using spent_pos [OF _ a(2), of s env] a(1) True by simp
    show ?thesis by (rule key_inv_returns [OF k pos]) (use True m(3) log spent granted now in \<open>auto simp: win_def\<close>)
  qed
  moreover have "timely ?s" using d(2) a(1) by (auto simp: timely_def)
  ultimately show ?thesis using inv m(1) by (simp add: gate_inv_def)
qed

lemma wrong_keeps:
  assumes inv: "gate_inv env s" and a: "gs_attempts s = before @ a # after" "at_Phase a = Holds taken e"
  shows "gate_inv env (s\<lparr>gs_memory := RecordFailure env (gs_now s) (at_EventID a) (gs_memory s), gs_attempts := before @ after,
     gs_wrong := (attempt_key env a, taken, e) # gs_wrong s\<rparr>)" (is "gate_inv env ?s")
proof -
  have d: "distinct (map fst (gs_memory s))" "timely s" using inv by (auto simp: gate_inv_def)
  obtain r m where add: "addMemory (gs_now s) (event_key env (at_EventID a)) 1 PasswordFailuresEventWindow (gs_memory s) = (r, m)" by fastforce
  then have m: "distinct (map fst m)" "\<And>k. k \<noteq> event_key env (at_EventID a) \<Longrightarrow> open_window (gs_now s) m k = open_window (gs_now s) (gs_memory s) k"
    using open_add(1,2) [OF _ d(1) windows_positive(2)] by (metis prod.collapse)+
  have s': "gs_now ?s = gs_now s" "gs_memory ?s = m" by (simp_all add: RecordFailure_def add)
  have log: "refund_log ?s k = refund_log s k" "failed ?s k i = failed s k i + (if k = attempt_key env a \<and> i = e then 1 else 0)" for k i
    by (auto simp: refund_log_def failed_def guess_log_def)
  have same: "spent env ?s k i = spent env s k i" "granted env ?s k i = granted env s k i" for k i
    using a(2) unfolding spent_def granted_def split_attempt(1) [OF a(1)] log(2) by (auto simp: in_flight_until_def)
  have "key_inv env (ip_key env i ip) ?s" if k: "key_inv env (ip_key env i ip) s" for i ip
    by (rule key_inv_neutral [OF k]) (auto simp: same log s' win_def m(2) keys_differ simp del: gate_state.simps)
  moreover have "timely ?s" using d(2) a by (auto simp: timely_def)
  ultimately show ?thesis using inv m(1) by (simp add: gate_inv_def s'(2) del: gate_state.simps)
qed

lemma gate_inv_step: "gate_step env cfg s s' \<Longrightarrow> gate_inv env s \<Longrightarrow> gate_inv env s'"
proof (induction rule: gate_step.induct)
  case (tick s t)
  then show ?case by (auto simp: gate_inv_def timely_def intro!: key_inv_tick)
next
  case (right s before a after taken e)
  then have "in_flight_until a = Some e" by (simp add: in_flight_until_def)
  from return_keeps [OF right(4,1) this] show ?case by (simp add: RefundIPFailure_def attempt_key_def)
next
  case (give_back s before a after e)
  then have "in_flight_until a = Some e" by (simp add: in_flight_until_def)
  from return_keeps [OF give_back(3,1) this] show ?case by (simp add: attempt_key_def)
next
  case (wrong s before a after taken e)
  from wrong_keeps [OF wrong(4,1,2)] show ?case by (simp add: attempt_key_def)
qed (blast intro: look_keeps reserve_keeps)+

interpretation guard: invariant_system "gate_step env cfg" "gate_inv env"
  by unfold_locales (rule gate_inv_step)

lemma gate_start_inv: "gate_inv env (gate_start t)"
  by (simp add: gate_inv_def timely_def key_inv_parts gate_start_def win_def open_window_def spent_def granted_def failed_def guess_log_def)

text \<open>
  C9. Wrong guesses are bounded. In any interleaving of handlers that count in the memory of one process, however long a handler
  takes, every wrong guess of a password from an address uses a slot that it took in a window of ten minutes; the windows of one
  event and address do not overlap; and the wrong guesses with slots of one window are at most ten, plus the number of slots that
  handlers gave back while that window was open although they had taken them in an earlier one, which the limiter
  subtracts from the new window. Handlers that finish within their window therefore leave at most ten.
\<close>

theorem wrong_guesses_are_bounded:
  assumes "(gate_step env cfg)\<^sup>*\<^sup>* (gate_start t0) s"
  shows "(\<forall>e. length (filter (\<lambda>(taken, e'). e' = e) (guess_log s (ip_key env eventID ip)))
        \<le> 10 + length (filter (\<lambda>(e', t). e' \<le> t \<and> e - PasswordAttemptsPerIPWindow \<le> t \<and> t < e) (refund_log s (ip_key env eventID ip))))
     \<and> (\<forall>(taken, e) \<in> set (guess_log s (ip_key env eventID ip)). e - PasswordAttemptsPerIPWindow \<le> taken \<and> taken < e)
     \<and> (\<forall>(taken, e) \<in> set (guess_log s (ip_key env eventID ip)). \<forall>(taken', e') \<in> set (guess_log s (ip_key env eventID ip)).
          e < e' \<longrightarrow> e + PasswordAttemptsPerIPWindow \<le> e')"
proof -
  let ?k = "ip_key env eventID ip"
  have inv: "key_inv env ?k s" "timely s" using guard.inv_run [OF assms gate_start_inv] by (simp_all add: gate_inv_def)
  have few: "failed s ?k e \<le> 10 + late s ?k e" for e
    using inv(1) failed_le(1) [of s ?k e env] unfolding key_inv_parts by (meson order_trans)
  have pos: "(taken, e) \<in> set (guess_log s ?k) \<Longrightarrow> 0 < spent env s ?k e" for e taken
  proof -
    assume "(taken, e) \<in> set (guess_log s ?k)"
    then have "0 < failed s ?k e" by (force simp: failed_def filter_empty_conv)
    with failed_le(2) [of s ?k e env] show "0 < spent env s ?k e" by simp
  qed
  have apart: "0 < spent env s ?k e \<Longrightarrow> 0 < spent env s ?k e' \<Longrightarrow> e < e' \<Longrightarrow> e + PasswordAttemptsPerIPWindow \<le> e'" for e e'
    using inv(1) unfolding key_inv_parts by blast
  have "\<forall>(taken, e) \<in> set (guess_log s ?k). e - PasswordAttemptsPerIPWindow \<le> taken \<and> taken < e"
    using inv(2) by (fastforce simp: timely_def guess_log_def in_window_def)
  with few apart pos show ?thesis unfolding failed_def late_def by blast
qed

end
