(* ===== verification/CallbackAuth.thy ===== *)
theory CallbackAuth
  imports SignedTokensProps
begin

text \<open>
  The signatures of callbacks from agent machines (agentcallbackauth/signature.go), and what a signature stands for: the
  signed message determines the machine, the request and the digest of its body, callbacks and enrolments are never
  mistaken for each other, and keys have one text. The parser and printer of package uuid, the parser of package net/url and
  Ed25519 are arguments; their laws are named where a property rests on them.
\<close>

subsection \<open>Messages\<close>

record callback_env =
  cb_FromString :: "string \<Rightarrow> uuid option"
  cb_String :: "uuid \<Rightarrow> string"
  cb_ParseRequestURI :: "string \<Rightarrow> bool"
  cb_Sign :: "string \<Rightarrow> string \<Rightarrow> string"
  cb_Verify :: "string \<Rightarrow> string \<Rightarrow> string \<Rightarrow> bool"

definition ProtocolVersion :: string where "ProtocolVersion = ''ITBEM-AGENT-CALLBACK-V1''"
definition EnrollmentProtocolVersion :: string where "EnrollmentProtocolVersion = ''ITBEM-AGENT-INSTANCE-ENROLL-V1''"
definition MaxClockSkew :: duration where "MaxClockSkew = 90 * second"

text \<open>The sizes of package ed25519.\<close>

definition PublicKeySize :: nat where "PublicKeySize = 32"
definition PrivateKeySize :: nat where "PrivateKeySize = 64"
definition SignatureSize :: nat where "SignatureSize = 64"

definition newline :: string where "newline = [CHR 0x0A]"

definition canonicalRequest ::
  "callback_env \<Rightarrow> string \<Rightarrow> string \<Rightarrow> string \<Rightarrow> int \<Rightarrow> string \<Rightarrow> string \<Rightarrow> string option" where
  "canonicalRequest env instanceID method0 requestURI timestamp nonce body =
     (case cb_FromString env (TrimSpace instanceID) of
        None \<Rightarrow> None
      | Some parsedInstanceID \<Rightarrow>
          if parsedInstanceID = uuid_Nil \<or> timestamp \<le> 0 \<or> ContainsAny (instanceID @ method0 @ requestURI @ nonce) [CHR 0x0D, CHR 0x0A] then None
          else let method = ToUpper (TrimSpace method0)
          in if method = [] \<or> 16 < length method \<or> requestURI = [] \<or> 8192 < length requestURI \<or> \<not> HasPrefix requestURI ''/'' then None
             else if \<not> list_all upper_letter method then None
             else if \<not> cb_ParseRequestURI env requestURI then None
             else case cb_FromString env (TrimSpace nonce) of
                 None \<Rightarrow> None
               | Some parsedNonce \<Rightarrow>
                   if parsedNonce = uuid_Nil then None
                   else Some (join_with newline
                     [ProtocolVersion, method, cb_String env parsedInstanceID, requestURI, show_int timestamp, cb_String env parsedNonce, sha256_hex body]))"

definition SignRequest ::
  "callback_env \<Rightarrow> string \<Rightarrow> string \<Rightarrow> string \<Rightarrow> string \<Rightarrow> int \<Rightarrow> string \<Rightarrow> string \<Rightarrow> string option" where
  "SignRequest env privateKey instanceID method requestURI timestamp nonce body =
     (if length privateKey \<noteq> PrivateKeySize then None
      else map_option (cb_Sign env privateKey) (canonicalRequest env instanceID method requestURI timestamp nonce body))"

definition VerifyRequest ::
  "callback_env \<Rightarrow> string \<Rightarrow> string \<Rightarrow> string \<Rightarrow> string \<Rightarrow> string \<Rightarrow> int \<Rightarrow> string \<Rightarrow> string \<Rightarrow> gotime \<Rightarrow> bool" where
  "VerifyRequest env publicKey sig instanceID method requestURI timestamp nonce body now =
     (case canonicalRequest env instanceID method requestURI timestamp nonce body of
        None \<Rightarrow> False
      | Some canonical \<Rightarrow>
          if length publicKey \<noteq> PublicKeySize \<or> length sig \<noteq> SignatureSize then False
          else let requestTime = timestamp * second
          in if timestamp \<le> 0 \<or> requestTime < now - MaxClockSkew \<or> now + MaxClockSkew < requestTime then False
             else cb_Verify env publicKey canonical sig)"

definition EncodePublicKey :: "string \<Rightarrow> string option" where
  "EncodePublicKey publicKey = (if length publicKey \<noteq> PublicKeySize then None else Some (EncodeToString publicKey))"

definition canonical_decode :: "nat \<Rightarrow> string \<Rightarrow> string option" where
  "canonical_decode bytes value0 =
     (let text0 = TrimSpace value0
      in if text0 = [] \<or> CHR ''='' \<in> set text0 then None
         else case DecodeString text0 of
             None \<Rightarrow> None
           | Some decoded \<Rightarrow> if length decoded \<noteq> bytes \<or> EncodeToString decoded \<noteq> text0 then None else Some decoded)"

definition DecodePublicKey :: "string \<Rightarrow> string option" where
  "DecodePublicKey text0 = canonical_decode PublicKeySize text0"

definition EncodeSignature :: "string \<Rightarrow> string option" where
  "EncodeSignature sig = (if length sig \<noteq> SignatureSize then None else Some (EncodeToString sig))"

definition DecodeSignature :: "string \<Rightarrow> string option" where
  "DecodeSignature text0 = canonical_decode SignatureSize text0"

definition PublicKeyFingerprint :: "string \<Rightarrow> string option" where
  "PublicKeyFingerprint publicKey = (if length publicKey \<noteq> PublicKeySize then None else Some (''sha256:'' @ sha256_hex publicKey))"

definition AgentInstanceEnrollmentMessage :: "string \<Rightarrow> string \<Rightarrow> string \<Rightarrow> string option" where
  "AgentInstanceEnrollmentMessage agentKey machineID publicKey =
     (let parts = [TrimSpace agentKey, TrimSpace machineID, TrimSpace publicKey]
      in if list_ex (\<lambda>f. f = [] \<or> ContainsAny f [CHR 0x0D, CHR 0x0A]) parts then None
         else Some (join_with newline (EnrollmentProtocolVersion # parts)))"

definition VerifyAgentInstanceEnrollment :: "callback_env \<Rightarrow> string \<Rightarrow> string \<Rightarrow> string \<Rightarrow> string \<Rightarrow> string \<Rightarrow> bool" where
  "VerifyAgentInstanceEnrollment env publicKey sig agentKey machineID encodedPublicKey =
     (case AgentInstanceEnrollmentMessage agentKey machineID encodedPublicKey of
        None \<Rightarrow> False
      | Some message \<Rightarrow> length publicKey = PublicKeySize \<and> length sig = SignatureSize \<and> cb_Verify env publicKey message sig)"

subsection \<open>Lines\<close>

text \<open>A message of lines determines its lines, and their number.\<close>

lemma Split_joined:
  "xs \<noteq> [] \<Longrightarrow> \<forall>x \<in> set xs. CHR 0x0A \<notin> set x \<Longrightarrow> Split (join_with newline xs) (CHR 0x0A) = xs"
proof (induction xs rule: induct_list012)
  case (3 x y zs)
  then show ?case by (simp add: newline_def Split_found)
qed (simp_all add: Split_missing)

lemma joined_inj:
  assumes "join_with newline xs = join_with newline ys" "xs \<noteq> []" "ys \<noteq> []"
    and "\<forall>x \<in> set xs. CHR 0x0A \<notin> set x" "\<forall>y \<in> set ys. CHR 0x0A \<notin> set y"
  shows "xs = ys"
proof -
  have "Split (join_with newline ys) (CHR 0x0A) = xs" using Split_joined [OF assms(2,4)] unfolding assms(1) .
  from trans [OF sym [OF this] Split_joined [OF assms(3,5)]] show ?thesis .
qed

lemma plain_lines:
  "CHR 0x0A \<notin> set ProtocolVersion" "CHR 0x0A \<notin> set EnrollmentProtocolVersion" "ProtocolVersion \<noteq> EnrollmentProtocolVersion"
  "list_all upper_letter m \<Longrightarrow> CHR 0x0A \<notin> set m" "CHR 0x0A \<notin> set (show_int i)" "CHR 0x0A \<notin> set (sha256_hex b)"
proof -
  show "CHR 0x0A \<notin> set ProtocolVersion" "CHR 0x0A \<notin> set EnrollmentProtocolVersion" "ProtocolVersion \<noteq> EnrollmentProtocolVersion"
    by code_simp+
  have other: "CHR 0x0A \<notin> set s" if "list_all P s" "\<not> P (CHR 0x0A)" for P s using that unfolding list_all_iff by blast
  show "list_all upper_letter m \<Longrightarrow> CHR 0x0A \<notin> set m" by (rule other) (assumption, code_simp)
  have "CHR 0x0A \<notin> set (show_nat n)" for n by (rule other [of decimal]) (use show_nat_shape [of n] in simp, code_simp)
  then show "CHR 0x0A \<notin> set (show_int i)" by (simp add: show_int_def)
  show "CHR 0x0A \<notin> set (sha256_hex b)"
    by (rule other [of lower_hex_char]) (use sha256_hex_digest_match [of b] in \<open>simp add: digest_match_def\<close>, code_simp)
qed

text \<open>The laws of package uuid that the messages rest on: texts are different for different identities and stand on one line.\<close>

definition uuid_lines :: "callback_env \<Rightarrow> bool" where
  "uuid_lines env \<longleftrightarrow> inj (cb_String env) \<and> (\<forall>i. CHR 0x0A \<notin> set (cb_String env i))"

lemma canonicalRequest_lines:
  assumes "canonicalRequest env instanceID method requestURI timestamp nonce body = Some message" "uuid_lines env"
  obtains i n where "cb_FromString env (TrimSpace instanceID) = Some i" "cb_FromString env (TrimSpace nonce) = Some n"
    and "message = join_with newline [ProtocolVersion, ToUpper (TrimSpace method), cb_String env i, requestURI, show_int timestamp, cb_String env n, sha256_hex body]"
    and "\<forall>x \<in> set [ProtocolVersion, ToUpper (TrimSpace method), cb_String env i, requestURI, show_int timestamp, cb_String env n, sha256_hex body].
      CHR 0x0A \<notin> set x"
    and "0 < timestamp"
proof -
  have "CHR 0x0A \<notin> set requestURI" using assms(1)
    by (auto simp: canonicalRequest_def Let_def ContainsAny_def list_ex_iff split: option.splits if_splits)
  then show thesis
    using assms that by (auto simp: canonicalRequest_def Let_def uuid_lines_def plain_lines split: option.splits if_splits)
qed

lemma enrollment_lines:
  assumes "AgentInstanceEnrollmentMessage agentKey machineID publicKey = Some message"
  shows "message = join_with newline [EnrollmentProtocolVersion, TrimSpace agentKey, TrimSpace machineID, TrimSpace publicKey]"
    and "\<forall>x \<in> set [EnrollmentProtocolVersion, TrimSpace agentKey, TrimSpace machineID, TrimSpace publicKey]. CHR 0x0A \<notin> set x"
proof -
  let ?parts = "[TrimSpace agentKey, TrimSpace machineID, TrimSpace publicKey]"
  have ok: "\<not> list_ex (\<lambda>f. f = [] \<or> ContainsAny f [CHR 0x0D, CHR 0x0A]) ?parts"
    using assms unfolding AgentInstanceEnrollmentMessage_def Let_def by (rule contrapos_pn) simp
  with assms show "message = join_with newline [EnrollmentProtocolVersion, TrimSpace agentKey, TrimSpace machineID, TrimSpace publicKey]"
    unfolding AgentInstanceEnrollmentMessage_def Let_def by (simp only: if_False option.inject)
  have "CHR 0x0A \<notin> set f" if "f \<in> set ?parts" for f
    using ok that unfolding list_ex_iff ContainsAny_def by (metis list.set_intros(1,2))
  with plain_lines(2) show "\<forall>x \<in> set [EnrollmentProtocolVersion, TrimSpace agentKey, TrimSpace machineID, TrimSpace publicKey]. CHR 0x0A \<notin> set x"
    by (simp only: list.set) blast
qed

lemma show_int_inj:
  assumes "show_int i = show_int j" "0 < i" "0 < j"
  shows "i = j"
proof -
  have "decimal_value (show_nat (nat i)) = decimal_value (show_nat (nat j))" using assms by (simp add: show_int_def)
  then show ?thesis using assms(2,3) by (simp add: decimal_value_show)
qed

subsection \<open>What a signature stands for\<close>

text \<open>
  C37. A signed message stands for one request. Two callbacks have the same message only if they come from the same machine with the same method,
  target, time and nonce and their bodies have the same digest; and the message of a callback is never the message of an enrolment, so a
  signature of one cannot be replayed as the other.
\<close>

theorem callback_message_binds_request:
  assumes "canonicalRequest env instanceID method requestURI timestamp nonce body = Some message" "uuid_lines env"
  shows "(canonicalRequest env instanceID' method' requestURI' timestamp' nonce' body' = Some message \<longrightarrow>
      cb_FromString env (TrimSpace instanceID') = cb_FromString env (TrimSpace instanceID)
      \<and> ToUpper (TrimSpace method') = ToUpper (TrimSpace method) \<and> requestURI' = requestURI \<and> timestamp' = timestamp
      \<and> cb_FromString env (TrimSpace nonce') = cb_FromString env (TrimSpace nonce) \<and> sha256_hex body' = sha256_hex body)
    \<and> AgentInstanceEnrollmentMessage agentKey machineID publicKey \<noteq> Some message"
proof (intro conjI impI)
  from assms obtain i n where l: "cb_FromString env (TrimSpace instanceID) = Some i" "cb_FromString env (TrimSpace nonce) = Some n"
    "message = join_with newline [ProtocolVersion, ToUpper (TrimSpace method), cb_String env i, requestURI, show_int timestamp, cb_String env n, sha256_hex body]"
    "\<forall>x \<in> set [ProtocolVersion, ToUpper (TrimSpace method), cb_String env i, requestURI, show_int timestamp, cb_String env n, sha256_hex body].
      CHR 0x0A \<notin> set x" "0 < timestamp"
    by (rule canonicalRequest_lines)
  {
    assume "canonicalRequest env instanceID' method' requestURI' timestamp' nonce' body' = Some message"
    from this assms(2) obtain i' n' where l': "cb_FromString env (TrimSpace instanceID') = Some i'" "cb_FromString env (TrimSpace nonce') = Some n'"
      "message = join_with newline [ProtocolVersion, ToUpper (TrimSpace method'), cb_String env i', requestURI', show_int timestamp', cb_String env n', sha256_hex body']"
      "\<forall>x \<in> set [ProtocolVersion, ToUpper (TrimSpace method'), cb_String env i', requestURI', show_int timestamp', cb_String env n', sha256_hex body'].
        CHR 0x0A \<notin> set x" "0 < timestamp'"
      by (rule canonicalRequest_lines)
    have same: "[ProtocolVersion, ToUpper (TrimSpace method'), cb_String env i', requestURI', show_int timestamp', cb_String env n', sha256_hex body']
        = [ProtocolVersion, ToUpper (TrimSpace method), cb_String env i, requestURI, show_int timestamp, cb_String env n, sha256_hex body]"
      by (rule joined_inj [OF trans [OF sym [OF l'(3)] l(3)] _ _ l'(4) l(4)]) simp_all
    then have "i' = i" "n' = n" using assms(2) by (auto simp: uuid_lines_def dest: injD)
    then show "cb_FromString env (TrimSpace instanceID') = cb_FromString env (TrimSpace instanceID)"
      "cb_FromString env (TrimSpace nonce') = cb_FromString env (TrimSpace nonce)" by (simp_all add: l l')
    from same show "ToUpper (TrimSpace method') = ToUpper (TrimSpace method)" "requestURI' = requestURI" "sha256_hex body' = sha256_hex body" by simp_all
    from same show "timestamp' = timestamp" using show_int_inj l(5) l'(5) by simp
  }
  show "AgentInstanceEnrollmentMessage agentKey machineID publicKey \<noteq> Some message"
  proof
    assume "AgentInstanceEnrollmentMessage agentKey machineID publicKey = Some message"
    note m = enrollment_lines(1) [OF this] and no = enrollment_lines(2) [OF this]
    have "[ProtocolVersion, ToUpper (TrimSpace method), cb_String env i, requestURI, show_int timestamp, cb_String env n, sha256_hex body]
        = [EnrollmentProtocolVersion, TrimSpace agentKey, TrimSpace machineID, TrimSpace publicKey]"
      by (rule joined_inj [OF trans [OF sym [OF l(3)] m] _ _ l(4) no]) simp_all
    then show False by simp
  qed
qed

subsection \<open>Signing and checking\<close>

text \<open>The law of Ed25519 that round trips rest on: a signature has 64 bytes and is accepted for its message under the public key.\<close>

definition key_pair :: "callback_env \<Rightarrow> string \<Rightarrow> string \<Rightarrow> bool" where
  "key_pair env privateKey publicKey \<longleftrightarrow> length publicKey = PublicKeySize
     \<and> (\<forall>m. length (cb_Sign env privateKey m) = SignatureSize \<and> cb_Verify env publicKey m (cb_Sign env privateKey m))"

lemma canonical_decode_encoded:
  "s \<noteq> [] \<Longrightarrow> canonical_decode n (EncodeToString s) = (if length s = n then Some s else None)"
proof -
  assume s: "s \<noteq> []"
  have "b64_char d \<noteq> CHR ''=''" if "d < 64" for d
  proof
    assume "b64_char d = CHR ''=''"
    then have "(of_char (b64_char d) :: nat) = 61" by simp
    with b64_code [OF that] show False using that by (simp split: if_splits)
  qed
  then have "CHR ''='' \<notin> set (EncodeToString s)"
    using sextets_bound [OF bytes_bound, of s] unfolding EncodeToString_def list_all_iff by (metis (no_types, lifting) imageE list.set_map)
  with s show ?thesis by (simp add: canonical_decode_def Let_def raw.trimmed raw.reads_back EncodeToString_empty)
qed

text \<open>
  A signed callback verifies exactly while its time lies within ninety seconds of the clock of the server; key and signature
  survive their transport as text, and a key is accepted in no other text than its own.
\<close>

theorem signed_callback_verifies:
  assumes signed: "SignRequest env privateKey instanceID method requestURI timestamp nonce body = Some sig" and keys: "key_pair env privateKey publicKey"
  shows "(VerifyRequest env publicKey sig instanceID method requestURI timestamp nonce body now
        \<longleftrightarrow> now - MaxClockSkew \<le> timestamp * second \<and> timestamp * second \<le> now + MaxClockSkew)
     \<and> Option.bind (EncodeSignature sig) DecodeSignature = Some sig \<and> Option.bind (EncodePublicKey publicKey) DecodePublicKey = Some publicKey
     \<and> (DecodePublicKey text0 = Some publicKey \<longrightarrow> EncodePublicKey publicKey = Some (TrimSpace text0))"
proof -
  from signed obtain m where m: "canonicalRequest env instanceID method requestURI timestamp nonce body = Some m" "sig = cb_Sign env privateKey m"
    by (auto simp: SignRequest_def split: if_splits)
  have "0 < timestamp" using m(1) by (auto simp: canonicalRequest_def Let_def split: option.splits if_splits)
  moreover have l: "length sig = SignatureSize" "length publicKey = PublicKeySize" "cb_Verify env publicKey m sig"
    using keys by (simp_all add: key_pair_def m(2))
  moreover have "sig \<noteq> []" "publicKey \<noteq> []" using l by (auto simp: SignatureSize_def PublicKeySize_def)
  ultimately show ?thesis
    by (auto simp: VerifyRequest_def m(1) Let_def EncodeSignature_def DecodeSignature_def EncodePublicKey_def DecodePublicKey_def canonical_decode_encoded)
      (auto simp: canonical_decode_def Let_def split: if_splits option.splits)
qed

end
