(* ===== verification/TokensRun.thy ===== *)
theory TokensRun
  imports PasswordGateProps CallbackAuth
begin

text \<open>
  Concrete tokens, a guess of a password and a signed callback, to which the properties of the tokens, of the limiter
  and of the signatures are applied. Digests stay symbolic.
\<close>

subsection \<open>Tokens\<close>

definition printed :: "uuid \<Rightarrow> string" where
  "printed u = show_nat (unat u)"

lemma printed_inj: "inj printed"
proof (rule injI)
  fix u v assume "printed u = printed v"
  then have "decimal_value (show_nat (unat u)) = decimal_value (show_nat (unat v))" by (simp add: printed_def)
  then have "unat u = unat v" unfolding decimal_value_show of_nat_eq_iff .
  then show "u = v" by (simp add: word_unat_eq_iff)
qed

lemma decimals_valid: "list_all decimal s \<Longrightarrow> utf8_valid s"
proof (induction s)
  case (Cons c s)
  have "c < CHR 0x80" using Cons.prems by (simp add: decimal_def less_eq_char_def less_char_def)
  then have "utf8_width (c # s) = 1" by simp
  with Cons show ?case by (simp add: Let_def del: utf8_width.simps)
qed simp

lemma printed_decimal: "list_all decimal (printed u)"
  using show_nat_shape [of "unat u"] by (auto simp: printed_def list_all_iff)

lemma printed_without: "\<not> decimal c \<Longrightarrow> c \<notin> set (printed u)"
  using printed_decimal [of u] unfolding list_all_iff by blast

lemma not_decimal: "\<not> decimal (CHR ''.'')" "\<not> decimal (CHR 0x0A)"
  by code_simp+

lemma uuid_printer_printed: "uuid_printer printed"
  unfolding uuid_printer_def using printed_inj decimals_valid [OF printed_decimal] printed_without [OF not_decimal(1)] by blast

definition one_secret :: environment where
  "one_secret name = ''one secret for all''"

lemma one_secret_used:
  "signingSecret one_secret = ''one secret for all''" "previousSigningSecret one_secret = ''one secret for all''"
  "accessSecret one_secret = ''one secret for all''" "previewSecret one_secret = ''one secret for all''"
  by code_simp+

lemma proof_issued: "\<exists>token. GenerateProof one_secret printed 0 5 ''pw1.v'' (12 * hour) = Inr (token, 12 * hour)"
  by (simp add: GenerateProof_def one_secret_used Let_def)

theorem password_proof_is_exact_witness:
  "\<exists>token. GenerateProof one_secret printed 0 5 ''pw1.v'' (12 * hour) = Inr (token, 12 * hour)
     \<and> ValidateProof one_secret printed (11 * hour) token 5 ''pw1.v'' \<and> \<not> ValidateProof one_secret printed (11 * hour) token 5 ''pw1.w''
     \<and> \<not> ValidateProof one_secret printed (13 * hour) token 5 ''pw1.v''"
proof -
  from proof_issued obtain token where t: "GenerateProof one_secret printed 0 5 ''pw1.v'' (12 * hour) = Inr (token, 12 * hour)" by blast
  have "utf8_valid ''pw1.v''" "int64_range (Unix (12 * hour))" by (code_simp, simp add: int64_range_def Unix_def)
  from password_proof_is_exact [OF t this(1) uuid_printer_printed refl this(2)] t
  show ?thesis by (intro exI [of _ token]) (simp add: Unix_def)
qed

theorem token_kinds_do_not_mix_witness:
  "\<exists>token. GenerateProof one_secret printed 0 5 ''pw1.v'' (12 * hour) = Inr (token, 12 * hour)
     \<and> \<not> ValidateContext one_secret printed 0 token ''ana'' ''eventiapp'' 5 \<and> \<not> ValidatePreview one_secret printed 0 token 5"
proof -
  from proof_issued obtain token where t: "GenerateProof one_secret printed 0 5 ''pw1.v'' (12 * hour) = Inr (token, 12 * hour)" by blast
  have "utf8_valid (TrimSpace ''ana'')" "utf8_valid (normalize_text ''eventiapp'')" "utf8_valid ''pw1.v''" by code_simp+
  from token_kinds_do_not_mix [OF uuid_printer_printed this] t show ?thesis by blast
qed

subsection \<open>A guess\<close>

definition limiting :: limiter_env where
  "limiting = \<lparr>le_uuidString = printed, le_clientKey = id\<rparr>"

definition guessed :: attempt where
  "guessed = \<lparr>at_EventID = 5, at_IP = ''10.0.0.1'', at_Password = ''guess'', at_Phase = Looked False\<rparr>"

theorem wrong_guesses_are_bounded_witness:
  "\<exists>s. (gate_step limiting (\<lambda>e. \<lparr>ec_ID = e, ec_AuthPasswordPreview = ''boda''\<rparr>))\<^sup>*\<^sup>* (gate_start 0) s
     \<and> gs_attempts s = [guessed\<lparr>at_Phase := Holds 0 (10 * minute)\<rparr>]
     \<and> (\<forall>e. length (filter (\<lambda>(taken, e'). e' = e) (guess_log s (ip_key limiting 5 ''10.0.0.1'')))
          \<le> 10 + length (filter (\<lambda>(e', t). e' \<le> t \<and> e - PasswordAttemptsPerIPWindow \<le> t \<and> t < e) (refund_log s (ip_key limiting 5 ''10.0.0.1''))))"
proof -
  let ?cfg = "\<lambda>e. \<lparr>ec_ID = e, ec_AuthPasswordPreview = ''boda''\<rparr>"
  let ?a = "(gate_start 0)\<lparr>gs_memory := [], gs_attempts := [guessed]\<rparr>"
  let ?key = "ip_key limiting 5 ''10.0.0.1''"
  let ?b = "?a\<lparr>gs_memory := [(?key, \<lparr>mw_count = 1, mw_expiresAt = 10 * minute\<rparr>)], gs_attempts := [] @ guessed\<lparr>at_Phase := Holds 0 (10 * minute)\<rparr> # []\<rparr>"
  have "EventFailuresExceeded limiting 0 5 [] = ((False, 0), [])"
    by (simp add: EventFailuresExceeded_def addMemory_def pruned_def open_window_def PasswordFailuresPerEvent_def)
  then have one: "gate_step limiting ?cfg (gate_start 0) ?a"
    using gate_step.look [of limiting "gate_start 0" 5 False 0 "[]" ?cfg "''10.0.0.1''" "''guess''"] by (simp add: gate_start_def guessed_def)
  have "addMemory 0 ?key 1 PasswordAttemptsPerIPWindow [] = ((1, 10 * minute), [(?key, \<lparr>mw_count = 1, mw_expiresAt = 10 * minute\<rparr>)])"
    by (simp add: addMemory_def pruned_def open_window_def PasswordAttemptsPerIPWindow_def)
  then have two: "gate_step limiting ?cfg ?a ?b"
    using gate_step.reserve [of ?a "[]" guessed "[]" False limiting 1 "10 * minute" "[(?key, \<lparr>mw_count = 1, mw_expiresAt = 10 * minute\<rparr>)]" ?cfg]
    by (simp add: gate_start_def guessed_def attempt_limit_def PasswordAttemptsPerIP_def)
  have run: "(gate_step limiting ?cfg)\<^sup>*\<^sup>* (gate_start 0) ?b" by (rule rtranclp.rtrancl_into_rtrancl [of _ _ ?a], rule r_into_rtranclp, rule one, rule two)
  have "gs_attempts ?b = [guessed\<lparr>at_Phase := Holds 0 (10 * minute)\<rparr>]" by simp
  with run wrong_guesses_are_bounded [OF run, of 5 "''10.0.0.1''"] show ?thesis by blast
qed

subsection \<open>A signed callback\<close>

text \<open>A signature scheme that signs with a constant: it has the sizes of Ed25519 and verifies what it signed.\<close>

definition machine_room :: callback_env where
  "machine_room =
     \<lparr>cb_FromString = (\<lambda>s. if s = ''7'' then Some 7 else if s = ''9'' then Some 9 else None), cb_String = printed, cb_ParseRequestURI = (\<lambda>u. True),
      cb_Sign = (\<lambda>key m. replicate 64 (CHR ''s'')), cb_Verify = (\<lambda>key m sig. sig = replicate 64 (CHR ''s''))\<rparr>"

lemma machine_room_lines: "uuid_lines machine_room"
  using printed_inj printed_without [OF not_decimal(2)] by (simp add: uuid_lines_def machine_room_def)

lemma callback_message:
  "\<exists>m. canonicalRequest machine_room ''7'' ''post'' ''/api/automation/runs'' 1000 ''9'' ''{}'' = Some m"
proof -
  have "\<not> ContainsAny (''7'' @ ''post'' @ ''/api/automation/runs'' @ ''9'') [CHR 0x0D, CHR 0x0A]" "ToUpper (TrimSpace ''post'') = ''POST''"
    "TrimSpace ''7'' = ''7''" "TrimSpace ''9'' = ''9''" "HasPrefix ''/api/automation/runs'' ''/''" "list_all upper_letter ''POST''"
    by code_simp+
  then show ?thesis by (simp add: canonicalRequest_def machine_room_def)
qed

theorem callback_message_binds_request_witness:
  "\<exists>m. canonicalRequest machine_room ''7'' ''post'' ''/api/automation/runs'' 1000 ''9'' ''{}'' = Some m
     \<and> canonicalRequest machine_room ''7'' ''post'' ''/api/automation/other'' 1000 ''9'' ''{}'' \<noteq> Some m"
proof -
  obtain m where m: "canonicalRequest machine_room ''7'' ''post'' ''/api/automation/runs'' 1000 ''9'' ''{}'' = Some m" using callback_message by blast
  from callback_message_binds_request [OF m machine_room_lines] have
    "canonicalRequest machine_room ''7'' ''post'' ''/api/automation/other'' 1000 ''9'' ''{}'' = Some m \<Longrightarrow> ''/api/automation/other'' = ''/api/automation/runs''"
    by blast
  with m show ?thesis by auto
qed

theorem signed_callback_verifies_witness:
  "\<exists>sig. SignRequest machine_room (replicate 64 (CHR ''k'')) ''7'' ''post'' ''/api/automation/runs'' 1000 ''9'' ''{}'' = Some sig
     \<and> VerifyRequest machine_room (replicate 32 (CHR ''p'')) sig ''7'' ''post'' ''/api/automation/runs'' 1000 ''9'' ''{}'' (1090 * second)
     \<and> \<not> VerifyRequest machine_room (replicate 32 (CHR ''p'')) sig ''7'' ''post'' ''/api/automation/runs'' 1000 ''9'' ''{}'' (1091 * second)"
proof -
  obtain sig where s: "SignRequest machine_room (replicate 64 (CHR ''k'')) ''7'' ''post'' ''/api/automation/runs'' 1000 ''9'' ''{}'' = Some sig"
    using callback_message by (auto simp: SignRequest_def PrivateKeySize_def)
  have "key_pair machine_room (replicate 64 (CHR ''k'')) (replicate 32 (CHR ''p''))"
    by (simp add: key_pair_def machine_room_def PublicKeySize_def SignatureSize_def)
  from signed_callback_verifies [OF s this] s show ?thesis by (intro exI [of _ sig]) (simp add: MaxClockSkew_def)
qed

end
