(* ===== verification/Sessions.thy ===== *)
theory Sessions
  imports Authz
begin

text \<open>
  Application sessions (services/applications: SessionService.go and session.go): which workspaces and which
  capabilities an identity has in a product, the cache of sessions, and the entitlement of members to applications.
  The order of the rows of a table is the order in which the database returns them where a query leaves it open; the
  collation of the database maps a name to its sort key. Queries of the database do not fail here. What the service is
  configured with (\<open>SyncUser\<close>, the presenter of images, the local bootstrap, the count of event grants) is an argument.
\<close>

subsection \<open>Tables\<close>

record application_policy =
  up_ID :: uuid
  up_UserID :: uuid
  up_ApplicationID :: uuid
  up_IsActive :: bool
  up_Capabilities :: "string list"

record session_db =
  db_org :: org_tables
  db_users :: "auth_user list"
  db_policies :: "application_policy list"

text \<open>\<open>First\<close> orders by the primary key.\<close>

definition first_by :: "('a \<Rightarrow> uuid) \<Rightarrow> ('a \<Rightarrow> bool) \<Rightarrow> 'a list \<Rightarrow> 'a option" where
  "first_by key P rows = (case sort_key key (filter P rows) of [] \<Rightarrow> None | r # _ \<Rightarrow> Some r)"

subsection \<open>Sessions\<close>

record organization_access =
  oa_ID :: uuid
  oa_Name :: string
  oa_Code :: string
  oa_Logo :: string
  oa_AccessRole :: string
  oa_Capabilities :: "string list"

record event_access =
  ea_AssignedEvents :: int
  ea_Capabilities :: "string list"

record user_profile =
  pf_ID :: uuid
  pf_Email :: string
  pf_FirstName :: string
  pf_LastName :: string
  pf_ProfileImage :: string
  pf_IsActive :: bool
  pf_IsRoot :: bool
  pf_RootLevel :: int

definition NewUserProfileResponse :: "auth_user \<Rightarrow> string \<Rightarrow> user_profile" where
  "NewUserProfileResponse u profileImageURL =
     \<lparr>pf_ID = au_ID u, pf_Email = au_Email u, pf_FirstName = au_FirstName u, pf_LastName = au_LastName u, pf_ProfileImage = profileImageURL,
      pf_IsActive = au_IsActive u, pf_IsRoot = IsPlatformAdmin u, pf_RootLevel = EffectiveRootLevel u\<rparr>"

record session =
  sn_Application :: application
  sn_User :: user_profile
  sn_Organizations :: "organization_access list"
  sn_Capabilities :: "string list"
  sn_EventAccess :: "event_access option"
  sn_policyRestricted :: bool
  sn_policyCapabilities :: "string list"

record session_service =
  ss_syncUser :: "(session_db \<Rightarrow> string \<Rightarrow> auth_user option) option"
  ss_profileImageURL :: "(auth_user \<Rightarrow> string) option"
  ss_localBootstrap :: "(session_db \<Rightarrow> string \<Rightarrow> string \<Rightarrow> session_db option) option"
  ss_eventAccess :: "(session_db \<Rightarrow> uuid \<Rightarrow> int option) option"
  ss_policyCeiling :: rollout_mode
  ss_eventClientCapability :: bool
  ss_collation :: "string \<Rightarrow> string"

datatype session_error =
    ServiceNotConfigured
  | ApplicationAccessDenied string
  | EventAccessUnavailable

definition AllowsOrganization :: "session \<Rightarrow> uuid \<Rightarrow> bool" where
  "AllowsOrganization s organizationID =
     (if organizationID = uuid_Nil then False else list_ex (\<lambda>w. oa_ID w = organizationID) (sn_Organizations s))"

definition HasAnyCapability :: "session \<Rightarrow> string list \<Rightarrow> bool" where
  "HasAnyCapability s expected = list_ex (\<lambda>actual. list_ex (\<lambda>candidate. actual = candidate) expected) (sn_Capabilities s)"

definition ApplicationCode :: "session \<Rightarrow> string" where
  "ApplicationCode s = ToLower (TrimSpace (ap_Code (sn_Application s)))"

definition PolicyCeiling :: "session \<Rightarrow> string list \<times> bool" where
  "PolicyCeiling s = (if \<not> sn_policyRestricted s then ([], False) else (sn_policyCapabilities s, True))"

subsection \<open>Sets of capabilities\<close>

definition set_add :: "string list \<Rightarrow> string list \<Rightarrow> string list" where
  "set_add s names = fold (\<lambda>name0 s. let name = TrimSpace name0 in if name \<noteq> [] then List.insert name s else s) names s"

definition newCapabilitySet :: "string list \<Rightarrow> string list" where
  "newCapabilitySet names = set_add [] names"

definition set_remove :: "string list \<Rightarrow> string list \<Rightarrow> string list" where
  "set_remove s names = filter (\<lambda>name. name \<notin> set names) s"

definition set_values :: "string list \<Rightarrow> string list" where
  "set_values s = sort s"

definition moduleEnabled :: "string list \<Rightarrow> string \<Rightarrow> bool" where
  "moduleEnabled modules expected = list_ex (\<lambda>module. EqualFold (TrimSpace module) expected) modules"

definition intersectCapabilities :: "string list \<Rightarrow> string list \<Rightarrow> string list" where
  "intersectCapabilities base permitted = filter (\<lambda>capability. capability \<in> set permitted) base"

subsection \<open>Capabilities of a role in a product\<close>

definition organizationCapabilities :: "string \<Rightarrow> string list" where
  "organizationCapabilities role =
     (let result = newCapabilitySet [''organizations:view'']
      in if \<not> IsKnownRole role then set_values result
         else let named = fold (\<lambda>capability result.
                    if capability = CapEventClientsManage then result
                    else case SessionName capability of Some name \<Rightarrow> set_add result [name] | None \<Rightarrow> result) (RoleCapabilities role) result;
                  all = (if RoleHas role CapAnalyticsView then set_add named [''metrics:view''] else named)
              in set_values all)"

definition event_module_names :: "string list" where
  "event_module_names =
     [''events:view'', ''events:create'', ''events:manage'', ''events:delete'', ''guests:manage'', ''checkin:run'', ''analytics:view'']"

text \<open>The names that go with a module the product does not have.\<close>

definition remove_disabled :: "string list \<Rightarrow> string list \<Rightarrow> string list" where
  "remove_disabled modules s0 =
     (let s1 = (if \<not> moduleEnabled modules ''events'' then set_remove s0 event_module_names else s0);
          s2 = (if \<not> moduleEnabled modules ''organizations'' then set_remove s1 [''organizations:view'', ''organizations:manage''] else s1);
          s3 = (if \<not> moduleEnabled modules ''metrics'' then set_remove s2 [''metrics:view''] else s2)
      in if \<not> moduleEnabled modules ''automation'' then set_remove s3 [''automation:view'', ''automation:manage''] else s3)"

definition isOrganizationAdminRole :: "string \<Rightarrow> bool" where
  "isOrganizationAdminRole role = IsOrganizationAdmin role"

definition applicationOrganizationCapabilities :: "application \<Rightarrow> string \<Rightarrow> string list" where
  "applicationOrganizationCapabilities app role =
     (let s = remove_disabled (ap_Modules app) (newCapabilitySet (organizationCapabilities role))
      in set_values (if ModuleRequiresOrganizationAdmin (ap_Code app) ''metrics'' \<and> \<not> isOrganizationAdminRole role
                     then set_remove s [''metrics:view''] else s))"

definition withEventClientCapability :: "application \<Rightarrow> string \<Rightarrow> string list \<Rightarrow> string list" where
  "withEventClientCapability app role current =
     (if \<not> moduleEnabled (ap_Modules app) ''events'' \<or> \<not> IsKnownRole role \<or> \<not> RoleHas role CapEventClientsManage then current
      else let name = (case SessionName CapEventClientsManage of Some n \<Rightarrow> n | None \<Rightarrow> [])
           in set_values (set_add (newCapabilitySet current) [name]))"

definition capGovernedCapabilities :: "string \<Rightarrow> string list \<Rightarrow> string list \<Rightarrow> string list" where
  "capGovernedCapabilities app current ceiling = filter (\<lambda>name. \<not> (PolicyAllows app name \<and> name \<notin> set ceiling)) current"

definition eventClientCapabilities :: "string list" where
  "eventClientCapabilities = [''analytics:view'', ''checkin:run'', ''events:manage'', ''events:view'', ''guests:manage'']"

text \<open>The names that platform authority gives, in a product that allows it.\<close>

definition platform_names :: "application \<Rightarrow> auth_user \<Rightarrow> string list" where
  "platform_names app u =
     (if IsPrimaryRoot u then [''audit:view''] else [])
     @ (if moduleEnabled (ap_Modules app) ''metrics'' then [''metrics:view''] else [])
     @ (if moduleEnabled (ap_Modules app) ''events''
        then [''events:view'', ''guests:manage'', ''checkin:run'', ''analytics:view'', ''members:manage'']
          @ (if IsPrimaryRoot u then [''events:create'', ''events:manage'', ''events:delete''] else []) else [])
     @ (if moduleEnabled (ap_Modules app) ''automation'' then [''automation:view'', ''automation:manage''] else [])
     @ (if moduleEnabled (ap_Modules app) ''users''
        then [''platform:users:view'', ''platform:users:support'']
          @ (if IsPrimaryRoot u then [''platform:users:manage'', ''platform:users:root-manage''] else []) else [])
     @ (if moduleEnabled (ap_Modules app) ''organizations''
        then ''organizations:view''
          # (if IsPrimaryRoot u then [''organizations:manage'', ''members:manage'', ''applications:manage''] else [''members:manage'']) else [])"

definition platform_authority :: "application \<Rightarrow> auth_user \<Rightarrow> bool" where
  "platform_authority app u = (ap_AllowsPlatformAdmin app \<and> IsPlatformAdmin u)"

definition effectiveApplicationCapabilities :: "application \<Rightarrow> auth_user \<Rightarrow> organization_access list \<Rightarrow> string list" where
  "effectiveApplicationCapabilities app u organizations =
     (let s0 = newCapabilitySet [''session:view''];
          s1 = (if moduleEnabled (ap_Modules app) ''home'' then set_add s0 [''dashboard:view''] else s0);
          s2 = (if platform_authority app u then set_add s1 (platform_names app u) else s1);
          s3 = set_add s2 (concat (map oa_Capabilities organizations))
      in set_values (remove_disabled (ap_Modules app) s3))"

subsection \<open>Workspaces\<close>

text \<open>Another application, by identity, whose code is that of an organization.\<close>

definition other_portal :: "org_tables \<Rightarrow> uuid \<Rightarrow> org_client \<Rightarrow> bool" where
  "other_portal t applicationID c = list_ex (\<lambda>a. ToLower (ap_Code a) = ToLower (cl_Code c) \<and> ap_ID a \<noteq> applicationID) (ot_applications t)"

definition direct_access :: "org_tables \<Rightarrow> uuid \<Rightarrow> uuid \<Rightarrow> reach_row list" where
  "direct_access t userID applicationID =
     [(cm_ClientID m, cr_Code r, 0).
        access \<leftarrow> ot_member_applications t, cma_ApplicationID access = applicationID \<and> cma_IsActive access,
        m \<leftarrow> ot_members t, cm_ID m = cma_ClientMemberID access \<and> cm_IsActive m \<and> cm_UserID m = userID,
        r \<leftarrow> ot_roles t, cr_ID r = cm_ClientRoleID m,
        seed \<leftarrow> ot_clients t, cl_ID seed = cm_ClientID m \<and> \<not> cl_Deleted seed \<and> cl_IsActive seed]"

definition workspace_children :: "org_tables \<Rightarrow> uuid \<Rightarrow> reach_row \<Rightarrow> reach_row list" where
  "workspace_children t applicationID = (\<lambda>(client, role, depth).
     [(cl_ID c, role, Suc depth).
        c \<leftarrow> ot_clients t, cl_ParentID c = Some client \<and> \<not> cl_Deleted c \<and> cl_IsActive c \<and> ToUpper role \<in> {''OWNER'', ''ADMIN''}
          \<and> depth < 31 \<and> \<not> other_portal t applicationID c])"

text \<open>A recursive query with \<open>UNION ALL\<close>, for at most that many levels.\<close>

fun unroll :: "('r \<Rightarrow> 'r list) \<Rightarrow> nat \<Rightarrow> 'r list \<Rightarrow> 'r list" where
  "unroll children 0 rows = rows"
| "unroll children (Suc n) rows = rows @ unroll children n (concat (map children rows))"

definition workspace_rows :: "org_tables \<Rightarrow> uuid \<Rightarrow> uuid \<Rightarrow> reach_row list" where
  "workspace_rows t userID applicationID = unroll (workspace_children t applicationID) 31 (direct_access t userID applicationID)"

definition workspace :: "org_client \<Rightarrow> string \<Rightarrow> organization_access" where
  "workspace c role =
     \<lparr>oa_ID = cl_ID c, oa_Name = cl_Name c, oa_Code = cl_Code c, oa_Logo = cl_Logo c, oa_AccessRole = role, oa_Capabilities = []\<rparr>"

definition organizationAccess :: "(string \<Rightarrow> string) \<Rightarrow> org_tables \<Rightarrow> uuid \<Rightarrow> uuid \<Rightarrow> organization_access list" where
  "organizationAccess collation t userID applicationID =
     sort_key (\<lambda>w. collation (oa_Name w))
       [workspace c role. c \<leftarrow> ot_clients t, \<not> cl_Deleted c \<and> cl_IsActive c,
          role \<leftarrow> (case access_role (workspace_rows t userID applicationID) (cl_ID c) of None \<Rightarrow> [] | Some r \<Rightarrow> [r])]"

definition platformOrganizationAccess :: "(string \<Rightarrow> string) \<Rightarrow> org_tables \<Rightarrow> organization_access list" where
  "platformOrganizationAccess collation t =
     sort_key (\<lambda>w. collation (oa_Name w)) [workspace c ''PLATFORM''. c \<leftarrow> ot_clients t, \<not> cl_Deleted c \<and> cl_IsActive c]"

definition userApplicationPolicy :: "application_policy list \<Rightarrow> uuid \<Rightarrow> uuid \<Rightarrow> application_policy option" where
  "userApplicationPolicy policies userID applicationID =
     first_by up_ID (\<lambda>p. up_UserID p = userID \<and> up_ApplicationID p = applicationID) policies"

subsection \<open>Resolving a session\<close>

text \<open>The capabilities of one workspace, before and under the ceiling of a policy.\<close>

definition workspace_capabilities :: "session_service \<Rightarrow> application \<Rightarrow> application_policy option \<Rightarrow> organization_access \<Rightarrow> organization_access" where
  "workspace_capabilities sv app policy w =
     (let plain = applicationOrganizationCapabilities app (oa_AccessRole w);
          clients = (if ss_eventClientCapability sv then withEventClientCapability app (oa_AccessRole w) plain else plain)
      in w\<lparr>oa_Capabilities :=
             (case policy of
                None \<Rightarrow> clients
              | Some p \<Rightarrow> if ss_policyCeiling sv = ModeEnforce then capGovernedCapabilities (ap_Code app) clients (up_Capabilities p) else clients)\<rparr>)"

definition build_session ::
  "session_service \<Rightarrow> application \<Rightarrow> auth_user \<Rightarrow> organization_access list \<Rightarrow> application_policy option \<Rightarrow> event_access option \<Rightarrow> session" where
  "build_session sv app u organizations0 policy access0 =
     (let organizations = map (workspace_capabilities sv app policy) organizations0;
          profileImage = (case ss_profileImageURL sv of None \<Rightarrow> au_ProfileImage u | Some f \<Rightarrow> f u);
          own = effectiveApplicationCapabilities app u organizations;
          access = map_option (\<lambda>a. case policy of
              None \<Rightarrow> a
            | Some p \<Rightarrow> if ss_policyCeiling sv = ModeEnforce
                then a\<lparr>ea_Capabilities := capGovernedCapabilities (ap_Code app) (ea_Capabilities a) (up_Capabilities p)\<rparr> else a) access0;
          all = (case access of None \<Rightarrow> own | Some a \<Rightarrow> set_values (set_add (newCapabilitySet own) (ea_Capabilities a)));
          permitted = (case policy of None \<Rightarrow> all | Some p \<Rightarrow> intersectCapabilities all (up_Capabilities p))
      in \<lparr>sn_Application = app, sn_User = NewUserProfileResponse u profileImage, sn_Organizations = organizations,
          sn_Capabilities = permitted, sn_EventAccess = access, sn_policyRestricted = (policy \<noteq> None),
          sn_policyCapabilities = (case policy of None \<Rightarrow> [] | Some p \<Rightarrow> up_Capabilities p)\<rparr>)"

text \<open>The session of a known product, calculated from the tables.\<close>

definition load_session :: "session_service \<Rightarrow> session_db \<Rightarrow> (session_db \<Rightarrow> string \<Rightarrow> auth_user option) \<Rightarrow> string \<Rightarrow> string \<Rightarrow> session_error + session" where
  "load_session sv db syncUser code cognitoSub =
     (case first_by ap_ID (\<lambda>a. ToLower (ap_Code a) = code \<and> ap_IsActive a) (ot_applications (db_org db)) of
        None \<Rightarrow> Inl (ApplicationAccessDenied ''application is disabled'')
      | Some app \<Rightarrow>
          (case syncUser db cognitoSub of
             None \<Rightarrow> Inl (ApplicationAccessDenied ''user is unavailable'')
           | Some u \<Rightarrow>
               if \<not> au_IsActive u then Inl (ApplicationAccessDenied ''user is unavailable'')
               else let organizations = (if platform_authority app u then platformOrganizationAccess (ss_collation sv) (db_org db)
                          else organizationAccess (ss_collation sv) (db_org db) (au_ID u) (ap_ID app));
                        policy = userApplicationPolicy (db_policies db) (au_ID u) (ap_ID app)
                    in if (case policy of None \<Rightarrow> False | Some p \<Rightarrow> \<not> up_IsActive p)
                       then Inl (ApplicationAccessDenied ''application policy is inactive'')
                       else let assigned = (case ss_eventAccess sv of
                                    Some events \<Rightarrow> if moduleEnabled (ap_Modules app) ''events'' \<and> \<not> platform_authority app u
                                      then events db (au_ID u) else Some 0
                                  | None \<Rightarrow> Some 0)
                            in (case assigned of
                                  None \<Rightarrow> Inl EventAccessUnavailable
                                | Some n \<Rightarrow>
                                    let access = (if 0 < n then Some \<lparr>ea_AssignedEvents = n, ea_Capabilities = eventClientCapabilities\<rparr> else None)
                                    in if \<not> platform_authority app u \<and> organizations = [] \<and> access = None
                                       then Inl (ApplicationAccessDenied ''no eligible organization'')
                                       else Inr (build_session sv app u organizations policy access))))"

subsection \<open>The cache\<close>

type_synonym session_cache = "(string \<times> session \<times> gotime) list"

definition sessionCacheTTL :: duration where "sessionCacheTTL = 15 * second"

definition applicationSessionCacheKey :: "string \<Rightarrow> string \<Rightarrow> string" where
  "applicationSessionCacheKey productCode cognitoSub = ''v1:application-session:'' @ productCode @ '':subject:'' @ TrimSpace cognitoSub"

definition cached :: "gotime \<Rightarrow> string \<Rightarrow> session_cache \<Rightarrow> session option \<times> session_cache" where
  "cached now key cache =
     (case map_of cache key of
        None \<Rightarrow> (None, cache)
      | Some (s, expiresAt) \<Rightarrow> if expiresAt < now then (None, AList.delete key cache) else (Some s, cache))"

definition invalidateCognitoSub :: "string \<Rightarrow> session_cache \<Rightarrow> session_cache" where
  "invalidateCognitoSub cognitoSub cache =
     (if TrimSpace cognitoSub = [] then cache else filter (\<lambda>(key, _). \<not> HasSuffix key ('':'' @ cognitoSub)) cache)"

text \<open>\<open>Resolve\<close>, with the times of the lookup and of the store.\<close>

definition ResolveSession ::
  "session_service \<Rightarrow> gotime \<Rightarrow> gotime \<Rightarrow> session_db \<Rightarrow> session_cache \<Rightarrow> string \<Rightarrow> string \<Rightarrow> (session_error + session) \<times> session_cache" where
  "ResolveSession sv now stored db cache cognitoSub tenantCode =
     (case ss_syncUser sv of
        None \<Rightarrow> (Inl ServiceNotConfigured, cache)
      | Some syncUser \<Rightarrow>
          (case ResolveProduct tenantCode of
             None \<Rightarrow> (Inl (ApplicationAccessDenied ''unknown product''), cache)
           | Some p \<Rightarrow>
               let key = applicationSessionCacheKey (pr_Code p) cognitoSub
               in (case cached now key cache of
                     (Some s, cache') \<Rightarrow> (Inr s, cache')
                   | (None, cache') \<Rightarrow>
                       (case load_session sv db syncUser (pr_Code p) cognitoSub of
                          Inl e \<Rightarrow> (Inl e, cache')
                        | Inr s \<Rightarrow> (Inr s, AList.update key (s, stored + sessionCacheTTL) cache')))))"

text \<open>The bootstrap may add a user to the tables.\<close>

definition ResolveWithLocalBootstrap ::
  "session_service \<Rightarrow> gotime \<Rightarrow> gotime \<Rightarrow> session_db \<Rightarrow> session_cache \<Rightarrow> string \<Rightarrow> string \<Rightarrow> string
     \<Rightarrow> (session_error + session) \<times> session_db \<times> session_cache" where
  "ResolveWithLocalBootstrap sv now stored db cache cognitoSub tenantCode email =
     (case ss_localBootstrap sv of
        None \<Rightarrow> (Inl (ApplicationAccessDenied ''local bootstrap is unavailable''), db, cache)
      | Some bootstrap \<Rightarrow>
          if TrimSpace email = [] then (Inl (ApplicationAccessDenied ''local bootstrap is unavailable''), db, cache)
          else (case bootstrap db cognitoSub email of
                  None \<Rightarrow> (Inl (ApplicationAccessDenied ''local bootstrap denied''), db, cache)
                | Some db' \<Rightarrow>
                    let (r, cache') = ResolveSession sv now stored db' (invalidateCognitoSub cognitoSub cache) cognitoSub tenantCode
                    in (r, db', cache')))"

subsection \<open>Entitlements of members\<close>

datatype member_error = MembershipNotFound | ApplicationNotEnabled

record member_application_access =
  ma_Code :: string
  ma_Name :: string
  ma_IsActive :: bool
  ma_IsEnabled :: bool

definition active_member :: "org_tables \<Rightarrow> uuid \<Rightarrow> uuid \<Rightarrow> client_member option" where
  "active_member t clientID userID =
     first_by cm_ID (\<lambda>m. cm_ClientID m = clientID \<and> cm_UserID m = userID \<and> cm_IsActive m) (ot_members t)"

text \<open>Active applications that the organization or an ancestor has enabled.\<close>

definition enabled_applications :: "org_tables \<Rightarrow> uuid \<Rightarrow> application list" where
  "enabled_applications t clientID =
     [a. c \<leftarrow> anc t clientID, ca \<leftarrow> ot_client_applications t, ca_ClientID ca = cl_ID c \<and> ca_IsActive ca,
         a \<leftarrow> ot_applications t, ap_ID a = ca_ApplicationID ca \<and> ap_IsActive a]"

definition ListMemberApplications :: "org_tables \<Rightarrow> uuid \<Rightarrow> uuid \<Rightarrow> member_error + member_application_access list" where
  "ListMemberApplications t clientID userID =
     (case active_member t clientID userID of
        None \<Rightarrow> Inl MembershipNotFound
      | Some m \<Rightarrow>
          Inr (map (\<lambda>a. \<lparr>ma_Code = ap_Code a, ma_Name = ap_Name a,
                   ma_IsActive = (case find (\<lambda>cma. cma_ApplicationID cma = ap_ID a \<and> cma_ClientMemberID cma = cm_ID m) (ot_member_applications t) of
                       None \<Rightarrow> False | Some cma \<Rightarrow> cma_IsActive cma),
                   ma_IsEnabled = True\<rparr>)
                (sort_key ap_ID (remdups (enabled_applications t clientID)))))"

text \<open>\<open>Create\<close> with the conflict clause on member and application; a new row has a fresh identity, which nothing reads.\<close>

definition upsert_member_application :: "uuid \<Rightarrow> uuid \<Rightarrow> bool \<Rightarrow> member_application list \<Rightarrow> member_application list" where
  "upsert_member_application member applicationID active rows =
     (if list_ex (\<lambda>r. cma_ClientMemberID r = member \<and> cma_ApplicationID r = applicationID) rows
      then map (\<lambda>r. if cma_ClientMemberID r = member \<and> cma_ApplicationID r = applicationID then r\<lparr>cma_IsActive := active\<rparr> else r) rows
      else rows @ [\<lparr>cma_ClientMemberID = member, cma_ApplicationID = applicationID, cma_IsActive = active\<rparr>])"

definition SetMemberApplicationAccess ::
  "session_db \<Rightarrow> session_cache \<Rightarrow> uuid \<Rightarrow> uuid \<Rightarrow> string \<Rightarrow> bool \<Rightarrow> (member_error + unit) \<times> session_db \<times> session_cache" where
  "SetMemberApplicationAccess db cache clientID userID applicationCode active =
     (case active_member (db_org db) clientID userID of
        None \<Rightarrow> (Inl MembershipNotFound, db, cache)
      | Some m \<Rightarrow>
          (case find (\<lambda>a. ToLower (ap_Code a) = ToLower (TrimSpace applicationCode)) (enabled_applications (db_org db) clientID) of
             None \<Rightarrow> (Inl ApplicationNotEnabled, db, cache)
           | Some a \<Rightarrow>
               if ap_ID a = uuid_Nil then (Inl ApplicationNotEnabled, db, cache)
               else let cognitoSub = (case find (\<lambda>u. au_ID u = userID) (db_users db) of None \<Rightarrow> [] | Some u \<Rightarrow> au_CognitoSub u)
                    in (Inr (), db\<lparr>db_org := (db_org db)\<lparr>ot_member_applications :=
                          upsert_member_application (cm_ID m) (ap_ID a) active (ot_member_applications (db_org db))\<rparr>\<rparr>,
                        invalidateCognitoSub cognitoSub cache)))"

end
