(* ===== verification/LocalBootstrap.thy ===== *)
theory LocalBootstrap
  imports Sessions SignedTokens
begin

text \<open>
  The bootstrap of the first developer (services/users/UserService.go: \<open>BootstrapConfiguredLocalRoot\<close>), which
  internal/app/app.go attaches to the session service in every environment. It makes the subject of a verified token a primary
  administrator, but only where \<open>ENV\<close> is local and the email is on the configured list. The identity of a new row, what other requests
  commit between its lookup and its insert, and the subjects that only a deleted row holds, are arguments.
\<close>

record bootstrap_env =
  be_getenv :: environment
  be_LocalBootstrapRootEmails :: string
  be_newID :: "session_db \<Rightarrow> uuid"
  be_meanwhile :: "session_db \<Rightarrow> session_db"
  be_deletedSubject :: "session_db \<Rightarrow> string \<Rightarrow> bool"

definition isConfiguredLocalBootstrapRoot :: "bootstrap_env \<Rightarrow> string \<Rightarrow> bool" where
  "isConfiguredLocalBootstrapRoot env email =
     (if \<not> EqualFold (TrimSpace (be_getenv env ''ENV'')) ''local'' then False
      else let normalizedEmail = TrimSpace email
           in if normalizedEmail = [] then False
              else list_ex (\<lambda>candidate. EqualFold normalizedEmail (TrimSpace candidate)) (Split (be_LocalBootstrapRootEmails env) (CHR '','')))"

text \<open>\<open>First\<close> orders by the primary key; a deleted row is not seen.\<close>

definition GetUserByCognitoSub :: "session_db \<Rightarrow> string \<Rightarrow> auth_user option" where
  "GetUserByCognitoSub db sub = first_by au_ID (\<lambda>u. au_CognitoSub u = sub) (db_users db)"

text \<open>The subject is unique among all rows; a row that is not given a field has its zero.\<close>

definition bootstrap_candidate :: "bootstrap_env \<Rightarrow> session_db \<Rightarrow> string \<Rightarrow> string \<Rightarrow> auth_user" where
  "bootstrap_candidate env db cognitoSub email =
     \<lparr>au_ID = be_newID env db, au_RootLevel = RootLevelPrimary, au_IsRoot = True, au_AuthTenantCode = [], au_AuthApplicationCode = [],
      au_AuthPolicyRestricted = False, au_AuthPolicyCapabilities = [], au_SessionApplicationCode = [], au_HasMemo = False,
      au_CognitoSub = cognitoSub, au_Email = TrimSpace email, au_FirstName = [], au_LastName = [], au_ProfileImage = [], au_IsActive = True\<rparr>"

definition CreateUser :: "bootstrap_env \<Rightarrow> session_db \<Rightarrow> auth_user \<Rightarrow> session_db option" where
  "CreateUser env db u =
     (if list_ex (\<lambda>v. au_CognitoSub v = au_CognitoSub u) (db_users db) \<or> be_deletedSubject env db (au_CognitoSub u) then None
      else Some (db\<lparr>db_users := db_users db @ [u]\<rparr>))"

definition promote_user :: "session_db \<Rightarrow> auth_user \<Rightarrow> session_db" where
  "promote_user db u =
     (if IsPrimaryRoot u \<and> au_IsActive u then db
      else db\<lparr>db_users := map (\<lambda>v. if au_ID v = au_ID u
                then v\<lparr>au_IsActive := True, au_IsRoot := True, au_RootLevel := RootLevelPrimary\<rparr> else v) (db_users db)\<rparr>)"

definition BootstrapConfiguredLocalRoot :: "bootstrap_env \<Rightarrow> session_db \<Rightarrow> string \<Rightarrow> string \<Rightarrow> session_db option" where
  "BootstrapConfiguredLocalRoot env db0 cognitoSub0 email =
     (if \<not> isConfiguredLocalBootstrapRoot env email then None
      else let cognitoSub = TrimSpace cognitoSub0
           in if cognitoSub = [] then None
              else (case GetUserByCognitoSub db0 cognitoSub of
                  Some u \<Rightarrow> Some (promote_user db0 u)
                | None \<Rightarrow>
                    let db = be_meanwhile env db0
                    in (case CreateUser env db (bootstrap_candidate env db cognitoSub email) of
                        Some db' \<Rightarrow> Some db'
                      | None \<Rightarrow>
                          (case GetUserByCognitoSub db cognitoSub of None \<Rightarrow> None | Some concurrent \<Rightarrow> Some (promote_user db concurrent)))))"

lemma bootstrap_local:
  assumes "BootstrapConfiguredLocalRoot env db sub email = Some db'"
  shows "isConfiguredLocalBootstrapRoot env email"
  using assms by (simp add: BootstrapConfiguredLocalRoot_def split: if_splits)

lemma not_local: "\<not> EqualFold (TrimSpace (be_getenv env ''ENV'')) ''local'' \<Longrightarrow> BootstrapConfiguredLocalRoot env db sub email = None"
  by (simp add: BootstrapConfiguredLocalRoot_def isConfiguredLocalBootstrapRoot_def)

end
