(* ===== verification/AppAccess.thy ===== *)
theory AppAccess
  imports LocalBootstrap
begin

text \<open>
  The boundary of a product: which request reaches a handler. internal/requestcontext/resolver.go decides the
  workspace a request is in, middleware/applicationaccess/application\_access.go combines it with the session, the
  credential of the organization and the surface of the product, controllers/sessions/sessions.go issues the credential.
  The environment, the clock and the parser and printer of package uuid are arguments.
\<close>

subsection \<open>The workspace of a request\<close>

definition WorkspaceOrganization :: string where "WorkspaceOrganization = ''organization''"
definition WorkspacePlatform :: string where "WorkspacePlatform = ''platform''"

definition HeaderApplicationCode :: string where "HeaderApplicationCode = ''X-Application-Code''"
definition HeaderWorkspaceMode :: string where "HeaderWorkspaceMode = ''X-Workspace-Mode''"
definition HeaderOrganizationID :: string where "HeaderOrganizationID = ''X-Organization-ID''"
definition HeaderOrganizationContext :: string where "HeaderOrganizationContext = ''X-Organization-Context''"

record workspace_input =
  wi_AuthenticatedApplication :: string
  wi_RequestedApplication :: string
  wi_SessionApplication :: string
  wi_RequestedWorkspaceMode :: string
  wi_RequestedOrganizationID :: string
  wi_AllowsPlatformAdmin :: bool
  wi_IsRoot :: bool
  wi_OrganizationAllowed :: "(uuid \<Rightarrow> bool) option"

text \<open>The mode, and the organization if the request names one.\<close>

record resolved_workspace =
  rw_WorkspaceMode :: string
  rw_Organization :: "uuid option"

datatype context_error =
    ApplicationHeaderMismatch
  | SessionMismatch
  | UnknownWorkspaceMode
  | PlatformWithOrganization
  | PlatformNotEnabled
  | OrganizationNotUUID
  | OrganizationNotEnabled
  | ContextTokenRequired
  | ContextTokenInvalid
  | ContextTokenWithoutOrganization

definition ResolveContext :: "(string \<Rightarrow> uuid option) \<Rightarrow> workspace_input \<Rightarrow> context_error + resolved_workspace" where
  "ResolveContext fromString inp =
     (let authenticatedApplication = normalize_text (wi_AuthenticatedApplication inp);
          requestedApplication = normalize_text (wi_RequestedApplication inp)
      in if requestedApplication \<noteq> [] \<and> requestedApplication \<noteq> authenticatedApplication then Inl ApplicationHeaderMismatch
         else if normalize_text (wi_SessionApplication inp) \<noteq> authenticatedApplication then Inl SessionMismatch
         else let mode0 = normalize_text (wi_RequestedWorkspaceMode inp);
                  workspaceMode = (if mode0 = [] then WorkspaceOrganization else mode0);
                  organizationValue = TrimSpace (wi_RequestedOrganizationID inp)
              in if workspaceMode \<noteq> WorkspaceOrganization \<and> workspaceMode \<noteq> WorkspacePlatform then Inl UnknownWorkspaceMode
                 else if workspaceMode = WorkspacePlatform then
                   (if organizationValue \<noteq> [] then Inl PlatformWithOrganization
                    else if \<not> wi_AllowsPlatformAdmin inp \<or> \<not> wi_IsRoot inp then Inl PlatformNotEnabled
                    else Inr \<lparr>rw_WorkspaceMode = WorkspacePlatform, rw_Organization = None\<rparr>)
                 else if organizationValue = [] then Inr \<lparr>rw_WorkspaceMode = WorkspaceOrganization, rw_Organization = None\<rparr>
                 else (case fromString organizationValue of
                     None \<Rightarrow> Inl OrganizationNotUUID
                   | Some organizationID \<Rightarrow>
                       if (\<not> wi_AllowsPlatformAdmin inp \<or> \<not> wi_IsRoot inp)
                          \<and> (case wi_OrganizationAllowed inp of None \<Rightarrow> True | Some allowed \<Rightarrow> \<not> allowed organizationID)
                       then Inl OrganizationNotEnabled
                       else Inr \<lparr>rw_WorkspaceMode = WorkspaceOrganization, rw_Organization = Some organizationID\<rparr>))"

subsection \<open>Requests\<close>

record http_request =
  hq_Method :: string
  hq_Path :: string
  hq_Header :: "string \<Rightarrow> string"
  hq_CognitoSub :: string
  hq_TenantCode :: string
  hq_UserEmail :: string

record credential_env =
  ce_getenv :: environment
  ce_uuidString :: "uuid \<Rightarrow> string"
  ce_FromString :: "string \<Rightarrow> uuid option"

definition route_path :: "string \<Rightarrow> string" where
  "route_path path = TrimSuffix (ToLower (TrimSpace path)) ''/''"

definition route_method :: "string \<Rightarrow> string" where
  "route_method m = ToUpper (TrimSpace m)"

definition requiresOrganizationCredential :: "string \<Rightarrow> string \<Rightarrow> bool" where
  "requiresOrganizationCredential method0 path0 =
     (let path = route_path path0; verb = route_method method0
      in if verb = ''GET'' \<and> path = ''/api/clients'' then False
         else path \<noteq> ''/api/session'' \<and> path \<noteq> ''/api/session/organization-context'')"

text \<open>The capabilities of which a surface needs one; none is needed where the list is empty.\<close>

definition requiredSurfaceCapability :: "string \<Rightarrow> string \<Rightarrow> string list" where
  "requiredSurfaceCapability method0 path0 =
     (let path = route_path path0; verb = route_method method0
      in if path = ''/api/session'' \<or> path = ''/api/users'' \<or> HasPrefix path ''/api/users/avatar'' then []
         else if HasPrefix path ''/api/metrics'' then [''metrics:view'']
         else if HasPrefix path ''/api/users/'' \<or> path = ''/api/users/all'' then [''platform:users:view'']
         else if HasPrefix path ''/api/catalogs/roles'' then [''members:manage'', ''applications:manage'']
         else if HasPrefix path ''/api/catalogs/client-types'' then [''organizations:manage'']
         else if HasPrefix path ''/api/clients'' then
           (if Contains path ''/members'' \<or> Contains path ''/member-applications'' \<or> HasSuffix path ''/invite''
            then [''members:manage'', ''applications:manage'']
            else if verb = ''GET'' then [''organizations:view'', ''members:manage'', ''events:manage'']
            else [''organizations:manage''])
         else if RequiresEventOperationsPath path then [''events:view'']
         else if RequiresAutomationPath path then [''automation:view'', ''automation:manage'']
         else [])"

definition context_input :: "http_request \<Rightarrow> session \<Rightarrow> workspace_input" where
  "context_input rq s =
     \<lparr>wi_AuthenticatedApplication = hq_TenantCode rq, wi_RequestedApplication = hq_Header rq HeaderApplicationCode,
      wi_SessionApplication = ap_Code (sn_Application s), wi_RequestedWorkspaceMode = hq_Header rq HeaderWorkspaceMode,
      wi_RequestedOrganizationID = hq_Header rq HeaderOrganizationID, wi_AllowsPlatformAdmin = ap_AllowsPlatformAdmin (sn_Application s),
      wi_IsRoot = pf_IsRoot (sn_User s), wi_OrganizationAllowed = Some (AllowsOrganization s)\<rparr>"

definition validateRequestContext ::
  "credential_env \<Rightarrow> gotime \<Rightarrow> http_request \<Rightarrow> session \<Rightarrow> context_error + resolved_workspace" where
  "validateRequestContext env now rq s =
     bindE (ResolveContext (ce_FromString env) (context_input rq s)) (\<lambda>resolved.
       case rw_Organization resolved of
         Some organizationID \<Rightarrow>
           let contextToken = TrimSpace (hq_Header rq HeaderOrganizationContext)
           in if contextToken = [] \<and> requiresOrganizationCredential (hq_Method rq) (hq_Path rq) then Inl ContextTokenRequired
              else if contextToken \<noteq> []
                \<and> \<not> ValidateContext (ce_getenv env) (ce_uuidString env) now contextToken (hq_CognitoSub rq) (hq_TenantCode rq) organizationID
              then Inl ContextTokenInvalid
              else Inr resolved
       | None \<Rightarrow> if TrimSpace (hq_Header rq HeaderOrganizationContext) \<noteq> [] then Inl ContextTokenWithoutOrganization else Inr resolved)"

subsection \<open>The middleware\<close>

datatype refusal =
    SessionUnavailable session_error
  | AccessDenied
  | ContextDenied context_error
  | EventSurfaceDenied
  | AutomationSurfaceDenied
  | CapabilityDenied

fun refusal_status :: "refusal \<Rightarrow> nat" where
  "refusal_status (SessionUnavailable _) = 503"
| "refusal_status AccessDenied = 403"
| "refusal_status (ContextDenied _) = 403"
| "refusal_status EventSurfaceDenied = 403"
| "refusal_status AutomationSurfaceDenied = 403"
| "refusal_status CapabilityDenied = 403"

text \<open>The session a request gets; a denial is tried again through the bootstrap if the token has an email.\<close>

definition request_session ::
  "session_service \<Rightarrow> gotime \<Rightarrow> gotime \<Rightarrow> session_db \<Rightarrow> session_cache \<Rightarrow> http_request \<Rightarrow> (session_error + session) \<times> session_db \<times> session_cache" where
  "request_session sv now stored db cache rq =
     (case ResolveSession sv now stored db cache (hq_CognitoSub rq) (hq_TenantCode rq) of
        (Inl (ApplicationAccessDenied reason), cache') \<Rightarrow>
          if TrimSpace (hq_UserEmail rq) \<noteq> []
          then ResolveWithLocalBootstrap sv now stored db cache' (hq_CognitoSub rq) (hq_TenantCode rq) (hq_UserEmail rq)
          else (Inl (ApplicationAccessDenied reason), db, cache')
      | (r, cache') \<Rightarrow> (r, db, cache'))"

definition admit :: "credential_env \<Rightarrow> gotime \<Rightarrow> http_request \<Rightarrow> session_error + session \<Rightarrow> refusal + session \<times> resolved_workspace" where
  "admit env now rq resolved =
     (case resolved of
        Inl (ApplicationAccessDenied _) \<Rightarrow> Inl AccessDenied
      | Inl e \<Rightarrow> Inl (SessionUnavailable e)
      | Inr s \<Rightarrow>
          (case validateRequestContext env now rq s of
             Inl e \<Rightarrow> Inl (ContextDenied e)
           | Inr w \<Rightarrow>
               if RequiresEventOperationsPath (hq_Path rq) \<and> \<not> SupportsEventOperations (hq_TenantCode rq) then Inl EventSurfaceDenied
               else if RequiresAutomationPath (hq_Path rq) \<and> \<not> SupportsAutomation (hq_TenantCode rq) then Inl AutomationSurfaceDenied
               else let required = requiredSurfaceCapability (hq_Method rq) (hq_Path rq)
                    in if required \<noteq> [] \<and> \<not> HasAnyCapability s required then Inl CapabilityDenied else Inr (s, w)))"

definition RequireAccess ::
  "session_service \<Rightarrow> credential_env \<Rightarrow> gotime \<Rightarrow> gotime \<Rightarrow> session_db \<Rightarrow> session_cache \<Rightarrow> http_request
     \<Rightarrow> (refusal + session \<times> resolved_workspace) \<times> session_db \<times> session_cache" where
  "RequireAccess sv env now stored db cache rq =
     (let (r, db', cache') = request_session sv now stored db cache rq in (admit env now rq r, db', cache'))"

subsection \<open>Issuing the credential of an organization\<close>

definition DefaultTTL :: duration where "DefaultTTL = 5 * minute"

datatype issue_error = OrganizationIDInvalid | OrganizationDenied | CredentialUnavailable token_error

definition IssueOrganizationContext ::
  "credential_env \<Rightarrow> gotime \<Rightarrow> session \<Rightarrow> string \<Rightarrow> string \<Rightarrow> issue_error + string \<times> gotime \<times> uuid" where
  "IssueOrganizationContext env now s sub organization =
     (case ce_FromString env organization of
        None \<Rightarrow> Inl OrganizationIDInvalid
      | Some organizationID \<Rightarrow>
          if \<not> AllowsOrganization s organizationID then Inl OrganizationDenied
          else (case GenerateContext (ce_getenv env) (ce_uuidString env) now sub (ap_Code (sn_Application s)) organizationID DefaultTTL of
              Inl e \<Rightarrow> Inl (CredentialUnavailable e)
            | Inr (token, expiresAt) \<Rightarrow> Inr (token, expiresAt, organizationID)))"

end
