(* ===== verification/SessionsProps.thy ===== *)
theory SessionsProps
  imports Sessions StepSystem
begin

text \<open>
  What a session grants: its capabilities, and that they agree with the authorization checks; its workspaces; and how
  old a session of the cache can be.
\<close>

subsection \<open>Sets of capabilities\<close>

lemma set_add_set: "set (set_add s names) = set s \<union> {TrimSpace n | n. n \<in> set names \<and> TrimSpace n \<noteq> []}"
  unfolding set_add_def by (induction names arbitrary: s) (auto simp: Let_def)

lemma set_remove_set: "set (set_remove s names) = set s - set names"
  by (auto simp: set_remove_def)

lemma set_values_set: "set (set_values s) = set s"
  by (simp add: set_values_def)

lemmas capability_sets = set_add_set set_remove_set set_values_set newCapabilitySet_def

definition trimmed_name :: "string \<Rightarrow> bool" where
  "trimmed_name n \<longleftrightarrow> TrimSpace n = n \<and> n \<noteq> []"

lemma set_add_trimmed: "list_all trimmed_name names \<Longrightarrow> set (set_add s names) = set s \<union> set names"
  unfolding set_add_set list_all_iff trimmed_name_def by force

lemma set_add_members: "x \<in> set (set_add s names) \<Longrightarrow> list_all trimmed_name names \<Longrightarrow> x \<in> set s \<or> x \<in> set names"
  by (simp add: set_add_trimmed)

lemma event_names_trimmed:
  "list_all trimmed_name [''organizations:view'', ''metrics:view'', ''session:view'', ''dashboard:view'', ''events:clients:manage'']"
  "list_all trimmed_name (map snd sessionNames)" "list_all trimmed_name eventClientCapabilities"
  by code_simp+

lemma platform_names_trimmed: "list_all trimmed_name (platform_names app u)"
proof -
  have "list_all trimmed_name [''audit:view'', ''metrics:view'', ''events:view'', ''guests:manage'', ''checkin:run'', ''analytics:view'',
      ''members:manage'', ''events:create'', ''events:manage'', ''events:delete'', ''automation:view'', ''automation:manage'',
      ''platform:users:view'', ''platform:users:support'', ''platform:users:manage'', ''platform:users:root-manage'', ''organizations:view'',
      ''organizations:manage'', ''applications:manage'']"
    by code_simp
  then show ?thesis by (simp add: platform_names_def)
qed

text \<open>What a module that is off removes.\<close>

definition module_names :: "(string \<times> string list) list" where
  "module_names =
     [(''events'', event_module_names), (''organizations'', [''organizations:view'', ''organizations:manage'']),
      (''metrics'', [''metrics:view'']), (''automation'', [''automation:view'', ''automation:manage''])]"

lemma remove_disabled_set:
  "set (remove_disabled modules s) = {x \<in> set s. list_all (\<lambda>(m, names). moduleEnabled modules m \<or> x \<notin> set names) module_names}"
  by (auto simp: remove_disabled_def Let_def module_names_def set_remove_set)

subsection \<open>Roles\<close>

lemma session_name_trimmed: "SessionName c = Some n \<Longrightarrow> trimmed_name n"
  using event_names_trimmed(2) unfolding SessionName_def list_all_iff by (force dest: map_of_SomeD)

lemma organizationCapabilities_set:
  "set (organizationCapabilities role) =
     {''organizations:view''} \<union> (if IsKnownRole role
       then {n. \<exists>c \<in> set (RoleCapabilities role). c \<noteq> CapEventClientsManage \<and> SessionName c = Some n}
         \<union> (if RoleHas role CapAnalyticsView then {''metrics:view''} else {}) else {})"
proof -
  have fold: "set (fold (\<lambda>capability result. if capability = CapEventClientsManage then result
                 else case SessionName capability of Some name \<Rightarrow> set_add result [name] | None \<Rightarrow> result) cs s)
      = set s \<union> {n. \<exists>c \<in> set cs. c \<noteq> CapEventClientsManage \<and> SessionName c = Some n}" for cs s
    by (induction cs arbitrary: s) (auto simp: set_add_trimmed session_name_trimmed split: option.splits)
  show ?thesis using event_names_trimmed(1)
    by (simp add: organizationCapabilities_def Let_def set_values_set newCapabilitySet_def set_add_trimmed fold insert_commute)
qed

lemma organizationCapabilities_names:
  "set (organizationCapabilities role) \<subseteq> {''organizations:view'', ''metrics:view''} \<union> set (map snd sessionNames)"
  unfolding organizationCapabilities_set SessionName_def by (force dest: map_of_SomeD split: if_splits)

definition workspace_names :: "string list" where
  "workspace_names = [''organizations:view'', ''metrics:view'', ''events:clients:manage''] @ map snd sessionNames"

lemma workspace_names_trimmed: "list_all trimmed_name workspace_names"
  using event_names_trimmed by (simp add: workspace_names_def)

lemma applicationOrganizationCapabilities_set:
  "set (applicationOrganizationCapabilities app role) =
     {x \<in> set (organizationCapabilities role). list_all (\<lambda>(m, names). moduleEnabled (ap_Modules app) m \<or> x \<notin> set names) module_names
        \<and> (ModuleRequiresOrganizationAdmin (ap_Code app) ''metrics'' \<and> \<not> IsOrganizationAdmin role \<longrightarrow> x \<noteq> ''metrics:view'')}"
proof -
  have "list_all trimmed_name (organizationCapabilities role)"
    using workspace_names_trimmed organizationCapabilities_names [of role] unfolding list_all_iff workspace_names_def by fastforce
  then have "set (newCapabilitySet (organizationCapabilities role)) = set (organizationCapabilities role)"
    by (simp add: newCapabilitySet_def set_add_trimmed)
  then show ?thesis
    by (auto simp: applicationOrganizationCapabilities_def Let_def set_values_set set_remove_set remove_disabled_set isOrganizationAdminRole_def)
qed

lemma client_capability_name: "SessionName CapEventClientsManage = Some ''events:clients:manage''"
  by code_simp

lemma withEventClientCapability_set:
  assumes "list_all trimmed_name current"
  shows "set (withEventClientCapability app role current) =
     set current \<union> (if moduleEnabled (ap_Modules app) ''events'' \<and> IsKnownRole role \<and> RoleHas role CapEventClientsManage
       then {''events:clients:manage''} else {})"
  using assms event_names_trimmed(1)
  by (simp add: withEventClientCapability_def client_capability_name set_values_set newCapabilitySet_def set_add_trimmed)

lemma application_names:
  "set (applicationOrganizationCapabilities app role) \<subseteq> set workspace_names"
  "set (withEventClientCapability app role (applicationOrganizationCapabilities app role)) \<subseteq> set workspace_names"
proof -
  show a: "set (applicationOrganizationCapabilities app role) \<subseteq> set workspace_names"
    using organizationCapabilities_names [of role] unfolding applicationOrganizationCapabilities_set workspace_names_def by auto
  then have "list_all trimmed_name (applicationOrganizationCapabilities app role)"
    using workspace_names_trimmed unfolding list_all_iff by blast
  from withEventClientCapability_set [OF this, of app role] a
  show "set (withEventClientCapability app role (applicationOrganizationCapabilities app role)) \<subseteq> set workspace_names"
    by (auto simp: workspace_names_def)
qed

subsection \<open>What is shown and what is granted\<close>

definition capability_module :: "capability \<Rightarrow> string option" where
  "capability_module c =
     (if c \<in> {CapOrgManage} then Some ''organizations'' else if c = CapMetricsView then Some ''metrics''
      else if c = CapMembersManage then None else Some ''events'')"

lemma module_table:
  "list_all (\<lambda>c. c = CapEventClientsManage \<or> list_all (\<lambda>(m, names). the (SessionName c) \<in> set names \<longleftrightarrow> capability_module c = Some m) module_names)
     allCapabilities"
  "list_all (\<lambda>c. SessionName c \<noteq> None \<and> the (SessionName c) \<noteq> ''organizations:view''
      \<and> (the (SessionName c) = ''metrics:view'' \<longleftrightarrow> c = CapMetricsView)
      \<and> (the (SessionName c) = ''events:clients:manage'' \<longleftrightarrow> c = CapEventClientsManage)) allCapabilities"
  "distinct (map snd sessionNames)" "set (map fst sessionNames) = set allCapabilities"
  by code_simp+

lemma session_name_inj: "SessionName c = Some n \<Longrightarrow> SessionName d = Some n \<Longrightarrow> c = d"
  using module_table(3) unfolding SessionName_def by (metis map_of_SomeD distinct_map inj_onD prod.sel(1,2))

text \<open>The names a role has in a product, where the capability for event clients is one of them only with its flag.\<close>

lemma role_names:
  assumes "c \<in> set allCapabilities" "SessionName c = Some n"
  shows "n \<in> set (if flag then withEventClientCapability app role (applicationOrganizationCapabilities app role)
                  else applicationOrganizationCapabilities app role) \<longleftrightarrow>
     IsKnownRole role \<and> (case capability_module c of None \<Rightarrow> True | Some m \<Rightarrow> moduleEnabled (ap_Modules app) m)
     \<and> (if c = CapMetricsView then (RoleHas role c \<or> RoleHas role CapAnalyticsView)
           \<and> (ModuleRequiresOrganizationAdmin (ap_Code app) ''metrics'' \<longrightarrow> IsOrganizationAdmin role)
        else RoleHas role c)
     \<and> (c = CapEventClientsManage \<longrightarrow> flag)"
proof -
  have t: "n \<noteq> ''organizations:view''" "n = ''metrics:view'' \<longleftrightarrow> c = CapMetricsView" "n = ''events:clients:manage'' \<longleftrightarrow> c = CapEventClientsManage"
    using module_table(2) assms(1,2) unfolding list_all_iff by force+
  have "list_all trimmed_name (applicationOrganizationCapabilities app role)"
    using application_names(1) workspace_names_trimmed unfolding list_all_iff by blast
  note shown = withEventClientCapability_set [OF this, of app role]
  have own: "n \<in> {n. \<exists>d \<in> set (RoleCapabilities role). d \<noteq> CapEventClientsManage \<and> SessionName d = Some n} \<longleftrightarrow> RoleHas role c \<and> c \<noteq> CapEventClientsManage"
    using assms(2) session_name_inj by (auto simp: RoleHas_def)
  show ?thesis
  proof (cases "c = CapEventClientsManage")
    case True
    then have "c \<noteq> CapMetricsView" "capability_module c = Some ''events''" "n \<noteq> ''metrics:view''" "n = ''events:clients:manage''"
      using t by (simp_all, code_simp+)
    then show ?thesis
      using True t(1) own by (auto simp: shown applicationOrganizationCapabilities_set organizationCapabilities_set)
  next
    case False
    then have "list_all (\<lambda>(m, names). n \<in> set names \<longleftrightarrow> capability_module c = Some m) module_names"
      using bspec [OF module_table(1) [unfolded list_all_iff [of _ allCapabilities]] assms(1)] assms(2) by simp
    then have modules: "list_all (\<lambda>(m, names). moduleEnabled (ap_Modules app) m \<or> n \<notin> set names) module_names \<longleftrightarrow>
        (case capability_module c of None \<Rightarrow> True | Some m \<Rightarrow> moduleEnabled (ap_Modules app) m)"
      by (auto simp: list_all_iff module_names_def capability_module_def split: if_splits)
    show ?thesis
      using False t own modules by (auto simp: shown applicationOrganizationCapabilities_set organizationCapabilities_set)
  qed
qed

subsection \<open>What a session holds\<close>

lemma first_by_mem: "first_by key P rows = Some r \<Longrightarrow> r \<in> set rows \<and> P r"
proof -
  assume "first_by key P rows = Some r"
  then obtain rs where "sort_key key (filter P rows) = r # rs" by (auto simp: first_by_def split: list.splits)
  then have "r \<in> set (sort_key key (filter P rows))" by (metis list.set_intros(1))
  then show ?thesis by simp
qed

definition session_user :: "session_db \<Rightarrow> (session_db \<Rightarrow> string \<Rightarrow> auth_user option) \<Rightarrow> string \<Rightarrow> session \<Rightarrow> auth_user \<Rightarrow> bool" where
  "session_user db syncUser sub s u \<longleftrightarrow>
     syncUser db sub = Some u \<and> au_IsActive u \<and> ap_IsActive (sn_Application s) \<and> sn_Application s \<in> set (ot_applications (db_org db))"

lemma load_session_result:
  assumes "load_session sv db syncUser code sub = Inr s"
  obtains u organizations policy access where
    "session_user db syncUser sub s u" "ToLower (ap_Code (sn_Application s)) = code"
    "s = build_session sv (sn_Application s) u organizations policy access"
    "organizations = (if platform_authority (sn_Application s) u then platformOrganizationAccess (ss_collation sv) (db_org db)
       else organizationAccess (ss_collation sv) (db_org db) (au_ID u) (ap_ID (sn_Application s)))"
    "policy = userApplicationPolicy (db_policies db) (au_ID u) (ap_ID (sn_Application s))" "\<forall>p. policy = Some p \<longrightarrow> up_IsActive p"
    "access = None \<or> (\<not> platform_authority (sn_Application s) u \<and> (\<exists>n > 0. access = Some \<lparr>ea_AssignedEvents = n, ea_Capabilities = eventClientCapabilities\<rparr>))"
proof -
  from assms obtain app u where app: "first_by ap_ID (\<lambda>a. ToLower (ap_Code a) = code \<and> ap_IsActive a) (ot_applications (db_org db)) = Some app"
    and u: "syncUser db sub = Some u" "au_IsActive u"
    by (auto simp: load_session_def split: option.splits if_splits)
  have same: "sn_Application (build_session sv app u os pol acc) = app" for os pol acc
    by (simp add: build_session_def Let_def)
  note r = assms [unfolded load_session_def, simplified app u option.simps if_False simp_thms Let_def]
  have active: "\<not> (case userApplicationPolicy (db_policies db) (au_ID u) (ap_ID app) of None \<Rightarrow> False | Some p \<Rightarrow> \<not> up_IsActive p)"
    using r by (auto split: if_splits)
  from r active obtain n where n: "(case ss_eventAccess sv of
        Some events \<Rightarrow> if moduleEnabled (ap_Modules app) ''events'' \<and> \<not> platform_authority app u then events db (au_ID u) else Some 0
      | None \<Rightarrow> Some 0) = Some n"
    by (auto split: if_splits option.splits)
  have authority: "0 < n \<Longrightarrow> \<not> platform_authority app u" using n by (auto split: option.splits if_splits)
  define organizations where "organizations = (if platform_authority app u then platformOrganizationAccess (ss_collation sv) (db_org db)
       else organizationAccess (ss_collation sv) (db_org db) (au_ID u) (ap_ID app))"
  define access where "access = (if 0 < n then Some \<lparr>ea_AssignedEvents = n, ea_Capabilities = eventClientCapabilities\<rparr> else None)"
  have s: "s = build_session sv app u organizations (userApplicationPolicy (db_policies db) (au_ID u) (ap_ID app)) access"
    using r active n by (simp add: organizations_def access_def split: if_splits)
  have sa: "sn_Application s = app" by (simp add: s same)
  show thesis
  proof (rule that [of u organizations "userApplicationPolicy (db_policies db) (au_ID u) (ap_ID app)" access])
    show "session_user db syncUser sub s u" "ToLower (ap_Code (sn_Application s)) = code"
      using first_by_mem [OF app] u by (auto simp: session_user_def sa)
    show "s = build_session sv (sn_Application s) u organizations (userApplicationPolicy (db_policies db) (au_ID u) (ap_ID app)) access"
      using s sa by simp
    show "access = None \<or> (\<not> platform_authority (sn_Application s) u \<and> (\<exists>n > 0. access = Some \<lparr>ea_AssignedEvents = n, ea_Capabilities = eventClientCapabilities\<rparr>))"
      using authority by (auto simp: access_def sa)
  qed (use active in \<open>auto simp: organizations_def sa split: option.splits\<close>)
qed


lemma workspace_capabilities_names: "set (oa_Capabilities (workspace_capabilities sv app policy w)) \<subseteq> set workspace_names"
  using application_names [of app "oa_AccessRole w"]
  by (auto simp: workspace_capabilities_def Let_def capGovernedCapabilities_def split: option.splits if_splits)

lemma effective_names:
  assumes "\<forall>w \<in> set organizations. set (oa_Capabilities w) \<subseteq> set workspace_names"
    and "c \<in> set (effectiveApplicationCapabilities app u organizations)"
  shows "c \<in> {''session:view'', ''dashboard:view''} \<or> (platform_authority app u \<and> c \<in> set (platform_names app u))
     \<or> (\<exists>w \<in> set organizations. c \<in> set (oa_Capabilities w))"
proof -
  have "list_all trimmed_name (concat (map oa_Capabilities organizations))"
    using assms(1) workspace_names_trimmed unfolding list_all_iff by auto
  then show ?thesis
    using assms(2) event_names_trimmed(1) platform_names_trimmed [of app u]
    by (auto simp: effectiveApplicationCapabilities_def Let_def set_values_set remove_disabled_set newCapabilitySet_def set_add_trimmed split: if_splits)
qed

lemma session_capability:
  assumes "c \<in> set (sn_Capabilities (build_session sv app u organizations policy access))"
    and "access = None \<or> (\<exists>n. access = Some \<lparr>ea_AssignedEvents = n, ea_Capabilities = eventClientCapabilities\<rparr>)"
  shows "(\<forall>p. policy = Some p \<longrightarrow> c \<in> set (up_Capabilities p))
     \<and> (c \<in> {''session:view'', ''dashboard:view''} \<or> (platform_authority app u \<and> c \<in> set (platform_names app u))
        \<or> (\<exists>w \<in> set organizations. c \<in> set (oa_Capabilities (workspace_capabilities sv app policy w)))
        \<or> (access \<noteq> None \<and> c \<in> set eventClientCapabilities))"
proof -
  let ?ws = "map (workspace_capabilities sv app policy) organizations"
  let ?own = "effectiveApplicationCapabilities app u ?ws"
  have ws: "\<forall>w \<in> set ?ws. set (oa_Capabilities w) \<subseteq> set workspace_names" using workspace_capabilities_names by auto
  have own: "list_all trimmed_name ?own"
    using effective_names [OF ws, of _ app u] platform_names_trimmed [of app u] event_names_trimmed(1) ws workspace_names_trimmed
    unfolding list_all_iff by fastforce
  have governed: "set (capGovernedCapabilities code eventClientCapabilities ceiling) \<subseteq> set eventClientCapabilities" for code ceiling
    by (auto simp: capGovernedCapabilities_def)
  then have client: "list_all trimmed_name (capGovernedCapabilities code eventClientCapabilities ceiling)" for code ceiling
    using event_names_trimmed(3) unfolding list_all_iff by blast
  have "c \<in> set ?own \<or> (access \<noteq> None \<and> c \<in> set eventClientCapabilities)" "\<forall>p. policy = Some p \<longrightarrow> c \<in> set (up_Capabilities p)"
    using assms own client event_names_trimmed(3)
    by (auto dest: governed [THEN subsetD] simp: build_session_def Let_def set_values_set newCapabilitySet_def set_add_trimmed intersectCapabilities_def
        split: option.splits if_splits)
  with effective_names [OF ws, of c app u] show ?thesis by auto
qed

definition platform_only :: "string list" where
  "platform_only =
     [''audit:view'', ''automation:view'', ''automation:manage'', ''platform:users:view'', ''platform:users:support'', ''platform:users:manage'',
      ''platform:users:root-manage'', ''applications:manage'']"

definition primary_only :: "string list" where
  "primary_only =
     [''audit:view'', ''platform:users:manage'', ''platform:users:root-manage'', ''applications:manage'', ''organizations:manage'', ''events:create'',
      ''events:manage'', ''events:delete'']"

lemma platform_only_names:
  "list_all (\<lambda>c. c \<notin> set workspace_names \<and> c \<notin> set eventClientCapabilities \<and> c \<notin> {''session:view'', ''dashboard:view''}) platform_only"
  "list_all (\<lambda>c. c \<notin> {''session:view'', ''dashboard:view'', ''organizations:view''}) primary_only"
  by code_simp+

lemma platform_role: "IsKnownRole ''PLATFORM'' = False" "RoleHas ''PLATFORM'' CapEventClientsManage = False"
  by code_simp+

lemma platform_workspaces:
  assumes "w \<in> set (platformOrganizationAccess collation t)" "c \<in> set (oa_Capabilities (workspace_capabilities sv app policy w))"
  shows "c = ''organizations:view''"
proof -
  have "oa_AccessRole w = ''PLATFORM''" using assms(1) by (auto simp: platformOrganizationAccess_def workspace_def)
  with assms(2) show ?thesis
    by (auto simp: workspace_capabilities_def Let_def capGovernedCapabilities_def withEventClientCapability_def platform_role
        applicationOrganizationCapabilities_set organizationCapabilities_set split: option.splits if_splits)
qed

lemma operational_names: "\<not> IsPrimaryRoot u \<Longrightarrow> c \<in> set primary_only \<Longrightarrow> c \<notin> set (platform_names app u)"
  by (auto simp: platform_names_def primary_only_def)

text \<open>
  C11. The capabilities of a session are bounded. A session exists only for an active user in an active application; no capability of it exceeds
  the policy of the user, if there is one, which then is active; what concerns the platform needs an administrator of the platform
  in a product that allows platform authority, and an operational administrator never has what is kept to the primary ones.
\<close>

theorem session_capabilities_are_bounded:
  assumes "load_session sv db syncUser code sub = Inr s" "c \<in> set (sn_Capabilities s)"
  shows "\<exists>u. session_user db syncUser sub s u
     \<and> (\<forall>p. userApplicationPolicy (db_policies db) (au_ID u) (ap_ID (sn_Application s)) = Some p \<longrightarrow> up_IsActive p \<and> c \<in> set (up_Capabilities p))
     \<and> (c \<in> set platform_only \<longrightarrow> platform_authority (sn_Application s) u)
     \<and> (platform_authority (sn_Application s) u \<and> c \<in> set primary_only \<longrightarrow> IsPrimaryRoot u)"
proof -
  from assms(1) obtain u organizations policy access where u: "session_user db syncUser sub s u"
    and "ToLower (ap_Code (sn_Application s)) = code"
    and s: "s = build_session sv (sn_Application s) u organizations policy access"
    and organizations: "organizations = (if platform_authority (sn_Application s) u then platformOrganizationAccess (ss_collation sv) (db_org db)
       else organizationAccess (ss_collation sv) (db_org db) (au_ID u) (ap_ID (sn_Application s)))"
    and policy: "policy = userApplicationPolicy (db_policies db) (au_ID u) (ap_ID (sn_Application s))" "\<forall>p. policy = Some p \<longrightarrow> up_IsActive p"
    and access: "access = None \<or> (\<not> platform_authority (sn_Application s) u \<and> (\<exists>n > 0. access = Some \<lparr>ea_AssignedEvents = n, ea_Capabilities = eventClientCapabilities\<rparr>))"
    by (rule load_session_result)
  let ?app = "sn_Application s"
  let ?shown = "\<exists>w \<in> set organizations. c \<in> set (oa_Capabilities (workspace_capabilities sv ?app policy w))"
  have "c \<in> set (sn_Capabilities (build_session sv ?app u organizations policy access))" using assms(2) s by simp
  from session_capability [OF this] access
  have c: "\<forall>p. policy = Some p \<longrightarrow> c \<in> set (up_Capabilities p)"
    "c \<in> {''session:view'', ''dashboard:view''} \<or> (platform_authority ?app u \<and> c \<in> set (platform_names ?app u)) \<or> ?shown
      \<or> (access \<noteq> None \<and> c \<in> set eventClientCapabilities)"
    by blast+
  have "?shown \<Longrightarrow> c \<in> set workspace_names" using workspace_capabilities_names by blast
  then have "c \<in> set platform_only \<Longrightarrow> platform_authority ?app u"
    using c(2) platform_only_names(1) unfolding list_all_iff by blast
  moreover have "IsPrimaryRoot u" if "platform_authority ?app u" "c \<in> set primary_only"
  proof (rule ccontr)
    assume "\<not> IsPrimaryRoot u"
    from operational_names [OF this that(2)] have "c \<notin> set (platform_names ?app u)" .
    moreover have "?shown \<Longrightarrow> c = ''organizations:view''"
      using that(1) unfolding organizations by (auto dest: platform_workspaces)
    moreover have "access = None" using access that(1) by blast
    ultimately show False using c(2) that(2) platform_only_names(2) unfolding list_all_iff by blast
  qed
  ultimately show ?thesis using u policy c(1) by auto
qed

end
