(* ===== verification/WorkspaceProps.thy ===== *)
theory WorkspaceProps
  imports SessionsProps
begin

text \<open>
  The workspaces of a session, against a specification without queries, and how old a session of the cache can be.
\<close>

subsection \<open>Unrolled queries\<close>

lemma unroll_set: "set (unroll children n rows) = {y. \<exists>x \<in> set rows. \<exists>k \<le> n. ((\<lambda>x y. y \<in> set (children x)) ^^ k) x y}"
proof (induction n arbitrary: rows)
  case (Suc n)
  let ?R = "\<lambda>x y. y \<in> set (children x)"
  have "(\<exists>x \<in> set (concat (map children rows)). \<exists>k \<le> n. (?R ^^ k) x y) \<longleftrightarrow> (\<exists>x \<in> set rows. \<exists>k \<le> n. (?R ^^ Suc k) x y)" for y
  proof -
    have "(?R ^^ Suc k) x y \<longleftrightarrow> (\<exists>z. ?R x z \<and> (?R ^^ k) z y)" for x k
      by (blast intro: relpowp_Suc_I2 dest: relpowp_Suc_D2)
    then show ?thesis by (simp only: set_concat set_map) blast
  qed
  moreover have "(\<exists>k \<le> Suc n. (?R ^^ k) x y) \<longleftrightarrow> x = y \<or> (\<exists>k \<le> n. (?R ^^ Suc k) x y)" for x y
  proof
    assume "\<exists>k \<le> Suc n. (?R ^^ k) x y"
    then obtain k where "k \<le> Suc n" "(?R ^^ k) x y" by blast
    then show "x = y \<or> (\<exists>k \<le> n. (?R ^^ Suc k) x y)" by (cases k) auto
  next
    assume "x = y \<or> (\<exists>k \<le> n. (?R ^^ Suc k) x y)"
    then show "\<exists>k \<le> Suc n. (?R ^^ k) x y"
    proof (elim disjE exE conjE)
      show "x = y \<Longrightarrow> ?thesis" by (intro exI [of _ 0]) simp
      show "k \<le> n \<Longrightarrow> (?R ^^ Suc k) x y \<Longrightarrow> ?thesis" for k by (rule exI [of _ "Suc k"]) (simp only: Suc_le_mono simp_thms)
    qed
  qed
  ultimately show ?case using Suc by auto
qed auto

subsection \<open>Inherited workspaces\<close>

text \<open>An organization that hands its owners and administrators down to a child: a living, active one that is not the portal of another application.\<close>

definition hands_down :: "org_tables \<Rightarrow> uuid \<Rightarrow> uuid \<Rightarrow> uuid \<Rightarrow> bool" where
  "hands_down t applicationID p i \<longleftrightarrow>
     (\<exists>c \<in> set (ot_clients t). cl_ID c = i \<and> cl_ParentID c = Some p \<and> \<not> cl_Deleted c \<and> cl_IsActive c \<and> \<not> other_portal t applicationID c)"

definition admin_role :: "string \<Rightarrow> bool" where
  "admin_role role \<longleftrightarrow> ToUpper role \<in> {''OWNER'', ''ADMIN''}"

lemma workspace_child:
  "(i, role', d') \<in> set (workspace_children t applicationID (p, role, d)) \<longleftrightarrow>
     hands_down t applicationID p i \<and> role' = role \<and> d' = Suc d \<and> d < 31 \<and> admin_role role"
  by (auto simp: workspace_children_def hands_down_def admin_role_def)

lemma workspace_chain:
  "((\<lambda>x y. y \<in> set (workspace_children t applicationID x)) ^^ k) (p, role, 0) (i, role', d) \<longleftrightarrow>
     (hands_down t applicationID ^^ k) p i \<and> role' = role \<and> d = k \<and> k \<le> 31 \<and> (k = 0 \<or> admin_role role)"
proof (induction k arbitrary: i role' d)
  case (Suc k)
  show ?case (is "?lhs \<longleftrightarrow> ?rhs")
  proof
    assume ?lhs
    then obtain j r e where "((\<lambda>x y. y \<in> set (workspace_children t applicationID x)) ^^ k) (p, role, 0) (j, r, e)"
      "(i, role', d) \<in> set (workspace_children t applicationID (j, r, e))" by auto
    then show ?rhs using Suc.IH by (auto simp: workspace_child)
  next
    assume r: ?rhs
    then obtain j where j: "(hands_down t applicationID ^^ k) p j" "hands_down t applicationID j i" by auto
    with r have "((\<lambda>x y. y \<in> set (workspace_children t applicationID x)) ^^ k) (p, role, 0) (j, role, k)" using Suc.IH by auto
    moreover have "(i, role', d) \<in> set (workspace_children t applicationID (j, role, k))" using r j by (auto simp: workspace_child)
    ultimately show ?lhs by auto
  qed
qed auto

text \<open>A membership of the user that is entitled to the application, in a living and active organization.\<close>

definition entitled_seed :: "org_tables \<Rightarrow> uuid \<Rightarrow> uuid \<Rightarrow> uuid \<Rightarrow> string \<Rightarrow> bool" where
  "entitled_seed t userID applicationID p role \<longleftrightarrow>
     (\<exists>access \<in> set (ot_member_applications t). \<exists>m \<in> set (ot_members t). \<exists>r \<in> set (ot_roles t). \<exists>seed \<in> set (ot_clients t).
        cma_ApplicationID access = applicationID \<and> cma_IsActive access \<and> cm_ID m = cma_ClientMemberID access \<and> cm_IsActive m
        \<and> cm_UserID m = userID \<and> cr_ID r = cm_ClientRoleID m \<and> cl_ID seed = cm_ClientID m \<and> \<not> cl_Deleted seed \<and> cl_IsActive seed
        \<and> p = cm_ClientID m \<and> role = cr_Code r)"

lemma direct_access_set: "(p, role, d) \<in> set (direct_access t userID applicationID) \<longleftrightarrow> entitled_seed t userID applicationID p role \<and> d = 0"
  by (simp add: direct_access_def entitled_seed_def) blast

definition reaches :: "org_tables \<Rightarrow> uuid \<Rightarrow> uuid \<Rightarrow> uuid \<Rightarrow> string \<Rightarrow> nat \<Rightarrow> bool" where
  "reaches t userID applicationID i role d \<longleftrightarrow>
     (\<exists>p. entitled_seed t userID applicationID p role \<and> (hands_down t applicationID ^^ d) p i \<and> d \<le> 31 \<and> (d = 0 \<or> admin_role role))"

lemma workspace_rows_set: "(i, role, d) \<in> set (workspace_rows t userID applicationID) \<longleftrightarrow> reaches t userID applicationID i role d"
proof
  assume "(i, role, d) \<in> set (workspace_rows t userID applicationID)"
  then obtain p r k where "(p, r, 0) \<in> set (direct_access t userID applicationID)"
    "((\<lambda>x y. y \<in> set (workspace_children t applicationID x)) ^^ k) (p, r, 0) (i, role, d)"
    unfolding workspace_rows_def unroll_set by (auto simp: direct_access_set)
  then show "reaches t userID applicationID i role d" by (auto simp: workspace_chain direct_access_set reaches_def)
next
  assume "reaches t userID applicationID i role d"
  then obtain p where "(p, role, 0) \<in> set (direct_access t userID applicationID)" "d \<le> 31"
    "((\<lambda>x y. y \<in> set (workspace_children t applicationID x)) ^^ d) (p, role, 0) (i, role, d)"
    by (auto simp: workspace_chain direct_access_set reaches_def)
  then show "(i, role, d) \<in> set (workspace_rows t userID applicationID)" unfolding workspace_rows_def unroll_set by blast
qed

lemma access_role_nearest:
  assumes "access_role rows i = Some name"
  shows "\<exists>role d. (i, role, d) \<in> set rows \<and> (\<forall>role' d'. (i, role', d') \<in> set rows \<longrightarrow> d \<le> d')
     \<and> name = (if d = 0 then role else ''INHERITED_'' @ role)"
proof -
  let ?depth = "\<lambda>(_, _, depth). depth :: nat"
  from assms obtain x rest where x: "sort_key ?depth (filter (\<lambda>(c, _, _). c = i) rows) = x # rest"
    by (auto simp: access_role_def split: list.splits)
  obtain c role d where row: "x = (c, role, d)" by (cases x)
  have eq: "set (x # rest) = set (filter (\<lambda>(c, _, _). c = i) rows)" unfolding x [symmetric] by simp
  have all: "(i, r, e) \<in> set (x # rest)" if "(i, r, e) \<in> set rows" for r e unfolding eq using that by simp
  have "x \<in> set (filter (\<lambda>(c, _, _). c = i) rows)" unfolding eq [symmetric] by simp
  then have mem: "(c, role, d) \<in> set rows" "c = i" by (auto simp: row)
  have "sorted (map ?depth (x # rest))" unfolding x [symmetric] by (rule sorted_sort_key)
  then have "\<And>y. y \<in> set (x # rest) \<Longrightarrow> d \<le> ?depth y" by (auto simp: row)
  from this [OF all] have "\<forall>r e. (i, r, e) \<in> set rows \<longrightarrow> d \<le> e" by simp
  moreover have "name = (if d = 0 then role else ''INHERITED_'' @ role)" using assms x row by (auto simp: access_role_def)
  ultimately show ?thesis using mem by blast
qed

lemma access_role_none: "access_role rows i = None \<longleftrightarrow> (\<forall>role d. (i, role, d) \<notin> set rows)"
proof -
  have "access_role rows i = None \<longleftrightarrow> filter (\<lambda>(c, _, _). c = i) rows = []"
    by (cases "filter (\<lambda>(c, _, _). c = i) rows = []")
      (auto simp: access_role_def simp flip: length_0_conv [of "sort_key _ _"] split: list.splits)
  then show ?thesis by (auto simp: filter_empty_conv)
qed

lemma workspaces_exact:
  "(i \<in> oa_ID ` set (organizationAccess collation t userID applicationID) \<longleftrightarrow>
       (\<exists>c \<in> set (ot_clients t). cl_ID c = i \<and> \<not> cl_Deleted c \<and> cl_IsActive c) \<and> (\<exists>role d. reaches t userID applicationID i role d))
     \<and> (\<forall>w \<in> set (organizationAccess collation t userID applicationID). \<exists>role d. reaches t userID applicationID (oa_ID w) role d
          \<and> (\<forall>role' d'. reaches t userID applicationID (oa_ID w) role' d' \<longrightarrow> d \<le> d')
          \<and> oa_AccessRole w = (if d = 0 then role else ''INHERITED_'' @ role))"
proof
  let ?rows = "workspace_rows t userID applicationID"
  let ?os = "organizationAccess collation t userID applicationID"
  have mem: "w \<in> set ?os \<longleftrightarrow>
      (\<exists>c \<in> set (ot_clients t). \<exists>role. \<not> cl_Deleted c \<and> cl_IsActive c \<and> access_role ?rows (cl_ID c) = Some role \<and> w = workspace c role)" for w
  proof -
    have "x \<in> set (case m of None \<Rightarrow> [] | Some r \<Rightarrow> [r]) \<longleftrightarrow> m = Some x" for x :: string and m by (cases m) auto
    then show ?thesis unfolding organizationAccess_def by (simp add: image_iff) blast
  qed
  have reached: "(\<exists>role d. reaches t userID applicationID i role d) \<longleftrightarrow> (\<exists>role. access_role ?rows i = Some role)" for i
    unfolding workspace_rows_set [symmetric] using access_role_none [of ?rows i] by auto
  show "i \<in> oa_ID ` set ?os \<longleftrightarrow>
      (\<exists>c \<in> set (ot_clients t). cl_ID c = i \<and> \<not> cl_Deleted c \<and> cl_IsActive c) \<and> (\<exists>role d. reaches t userID applicationID i role d)"
  proof -
    have id: "oa_ID (workspace c role) = cl_ID c" for c role by (simp add: workspace_def)
    have "i \<in> oa_ID ` set ?os \<longleftrightarrow> (\<exists>w. w \<in> set ?os \<and> oa_ID w = i)" by auto
    also have "\<dots> \<longleftrightarrow> (\<exists>c \<in> set (ot_clients t). \<exists>role. \<not> cl_Deleted c \<and> cl_IsActive c \<and> access_role ?rows (cl_ID c) = Some role \<and> cl_ID c = i)"
      unfolding mem using id by metis
    finally show ?thesis unfolding reached by auto
  qed
  show "\<forall>w \<in> set ?os. \<exists>role d. reaches t userID applicationID (oa_ID w) role d
      \<and> (\<forall>role' d'. reaches t userID applicationID (oa_ID w) role' d' \<longrightarrow> d \<le> d')
      \<and> oa_AccessRole w = (if d = 0 then role else ''INHERITED_'' @ role)"
  proof
    fix w
    assume "w \<in> set ?os"
    then obtain c name where "access_role ?rows (cl_ID c) = Some name" "w = workspace c name" unfolding mem by blast
    with access_role_nearest [of ?rows "cl_ID c" name]
    show "\<exists>role d. reaches t userID applicationID (oa_ID w) role d
      \<and> (\<forall>role' d'. reaches t userID applicationID (oa_ID w) role' d' \<longrightarrow> d \<le> d')
      \<and> oa_AccessRole w = (if d = 0 then role else ''INHERITED_'' @ role)"
      unfolding workspace_rows_set by (auto simp: workspace_def)
  qed
qed


subsection \<open>The age of a cached session\<close>

text \<open>
  Concurrent requests: the tables at a time are \<open>world\<close>; a request looks a session up, or loads it from the tables as they are and stores it
  later, at most \<open>slow\<close> after the load; a change of an entitlement drops sessions at any time.
\<close>

record session_state =
  sx_cache :: session_cache
  sx_loading :: "(string \<times> session \<times> gotime) list"
  sx_now :: gotime

definition session_start :: "gotime \<Rightarrow> session_state" where
  "session_start now = \<lparr>sx_cache = [], sx_loading = [], sx_now = now\<rparr>"

inductive session_step :: "session_service \<Rightarrow> (gotime \<Rightarrow> session_db) \<Rightarrow> duration \<Rightarrow> session_state \<Rightarrow> session_state \<Rightarrow> bool"
  for sv world slow where
  look: "sx_now s \<le> t \<Longrightarrow> cached t key (sx_cache s) = (r, cache') \<Longrightarrow> session_step sv world slow s (s\<lparr>sx_cache := cache', sx_now := t\<rparr>)"
| load: "sx_now s \<le> t \<Longrightarrow> ss_syncUser sv = Some syncUser \<Longrightarrow> ResolveProduct tenant = Some p \<Longrightarrow>
    load_session sv (world t) syncUser (pr_Code p) sub = Inr sn \<Longrightarrow>
    session_step sv world slow s (s\<lparr>sx_loading := (applicationSessionCacheKey (pr_Code p) sub, sn, t) # sx_loading s, sx_now := t\<rparr>)"
| store: "sx_now s \<le> t \<Longrightarrow> (key, sn, t0) \<in> set (sx_loading s) \<Longrightarrow> t \<le> t0 + slow \<Longrightarrow>
    session_step sv world slow s (s\<lparr>sx_now := t, sx_cache := AList.update key (sn, t + sessionCacheTTL) (sx_cache s),
      sx_loading := remove1 (key, sn, t0) (sx_loading s)\<rparr>)"
| forget: "session_step sv world slow s (s\<lparr>sx_cache := invalidateCognitoSub sub (sx_cache s)\<rparr>)"

text \<open>A session that was calculated from the tables at a time, under the key of its product and identity.\<close>

definition computed :: "session_service \<Rightarrow> (gotime \<Rightarrow> session_db) \<Rightarrow> gotime \<Rightarrow> string \<Rightarrow> session \<Rightarrow> bool" where
  "computed sv world t key sn \<longleftrightarrow>
     (\<exists>syncUser p sub. ss_syncUser sv = Some syncUser \<and> p \<in> set orderedDefinitions \<and> key = applicationSessionCacheKey (pr_Code p) sub
        \<and> load_session sv (world t) syncUser (pr_Code p) sub = Inr sn)"

definition session_inv :: "session_service \<Rightarrow> (gotime \<Rightarrow> session_db) \<Rightarrow> duration \<Rightarrow> session_state \<Rightarrow> bool" where
  "session_inv sv world slow s \<longleftrightarrow>
     (\<forall>(key, sn, expiresAt) \<in> set (sx_cache s). \<exists>t. computed sv world t key sn \<and> t \<le> sx_now s \<and> expiresAt \<le> t + slow + sessionCacheTTL)
     \<and> (\<forall>(key, sn, t) \<in> set (sx_loading s). computed sv world t key sn \<and> t \<le> sx_now s)"

lemma update_set: "set (AList.update k v xs) \<subseteq> insert (k, v) (set xs)"
  by (induction xs) (auto split: if_splits)

lemma cached_keeps: "set (snd (cached t key cache)) \<subseteq> set cache"
  by (auto simp: cached_def AList.delete_eq split: option.splits)

lemma cached_entry: "fst (cached t key cache) = Some sn \<Longrightarrow> \<exists>expiresAt. (key, sn, expiresAt) \<in> set cache \<and> t \<le> expiresAt"
  using map_of_SomeD [of cache key] by (fastforce simp: cached_def split: option.splits if_splits)

lemma invalidate_keeps: "set (invalidateCognitoSub sub cache) \<subseteq> set cache"
  by (auto simp: invalidateCognitoSub_def)

lemma product_known: "ResolveProduct tenant = Some p \<Longrightarrow> p \<in> set orderedDefinitions"
  by (auto simp: ResolveProduct_def find_Some_iff)

lemma session_inv_added:
  assumes "session_inv sv world slow s" "computed sv world t key sn" "t \<le> sx_now s" "expiresAt \<le> t + slow + sessionCacheTTL"
    and "set cache \<subseteq> insert (key, sn, expiresAt) (set (sx_cache s))" "set loading \<subseteq> set (sx_loading s)"
  shows "session_inv sv world slow (s\<lparr>sx_cache := cache, sx_loading := loading\<rparr>)"
proof -
  have "\<exists>t. computed sv world t k n \<and> t \<le> sx_now s \<and> e \<le> t + slow + sessionCacheTTL" if "(k, n, e) \<in> set cache" for k n e
  proof (cases "(k, n, e) = (key, sn, expiresAt)")
    case True
    with assms(2-4) show ?thesis by blast
  next
    case False
    with that assms(5) have "(k, n, e) \<in> set (sx_cache s)" by auto
    with assms(1) show ?thesis by (auto simp: session_inv_def)
  qed
  with assms(1,6) show ?thesis by (auto simp: session_inv_def)
qed

lemma session_inv_older:
  assumes "session_inv sv world slow s" "sx_now s \<le> t" "set cache \<subseteq> set (sx_cache s)"
  shows "session_inv sv world slow (s\<lparr>sx_cache := cache, sx_now := t\<rparr>)"
  using assms unfolding session_inv_def by (fastforce dest: subsetD)

lemma session_inv_step: "session_step sv world slow s s' \<Longrightarrow> session_inv sv world slow s \<Longrightarrow> session_inv sv world slow s'"
proof (induction rule: session_step.induct)
  case (look s t key r cache')
  then show ?case using cached_keeps [of t key "sx_cache s"] by (intro session_inv_older) simp_all
next
  case (load s t syncUser tenant p sub sn)
  then have "computed sv world t (applicationSessionCacheKey (pr_Code p) sub) sn" using product_known by (auto simp: computed_def)
  then show ?case using load by (fastforce simp: session_inv_def)
next
  case (store s t key sn t0)
  then have "computed sv world t0 key sn" "t0 \<le> t" by (auto simp: session_inv_def)
  moreover have "session_inv sv world slow (s\<lparr>sx_cache := sx_cache s, sx_now := t\<rparr>)" using store by (intro session_inv_older) simp_all
  ultimately show ?case
    using store(3) session_inv_added [of sv world slow "s\<lparr>sx_now := t\<rparr>" t0 key sn "t + sessionCacheTTL"
        "AList.update key (sn, t + sessionCacheTTL) (sx_cache s)" "remove1 (key, sn, t0) (sx_loading s)"]
      update_set [of key "(sn, t + sessionCacheTTL)" "sx_cache s"] set_remove1_subset [of "(key, sn, t0)" "sx_loading s"]
    by simp
next
  case (forget s sub)
  then show ?case using session_inv_older [OF forget order_refl invalidate_keeps [of sub "sx_cache s"]] by simp
qed

interpretation sessions: invariant_system "session_step sv world slow" "session_inv sv world slow" for sv world slow
  by unfold_locales (rule session_inv_step)

lemma separated_inj: "c \<notin> set a \<Longrightarrow> c \<notin> set b \<Longrightarrow> a @ c # x = b @ c # y \<Longrightarrow> a = b \<and> x = y"
proof (induction a arbitrary: b)
  case Nil
  then show ?case by (cases b) auto
next
  case (Cons e a)
  then show ?case by (cases b) auto
qed

lemma cache_key_inj:
  assumes "p \<in> set orderedDefinitions" "q \<in> set orderedDefinitions"
    and "applicationSessionCacheKey (pr_Code p) sub = applicationSessionCacheKey (pr_Code q) sub'"
  shows "p = q \<and> TrimSpace sub = TrimSpace sub'"
proof -
  have "pr_Code p @ '':subject:'' @ TrimSpace sub = pr_Code q @ '':subject:'' @ TrimSpace sub'"
    using assms(3) by (simp only: applicationSessionCacheKey_def same_append_eq)
  moreover have codes: "list_all (\<lambda>p. CHR '':'' \<notin> set (pr_Code p)) orderedDefinitions" "distinct (map pr_Code orderedDefinitions)" by code_simp+
  ultimately have "pr_Code p = pr_Code q \<and> ''subject:'' @ TrimSpace sub = ''subject:'' @ TrimSpace sub'"
    using assms(1,2) unfolding list_all_iff by (intro separated_inj [of "CHR '':''"]) simp_all
  moreover from codes(2) have "inj_on pr_Code (set orderedDefinitions)" by (simp only: distinct_map)
  ultimately show ?thesis using assms(1,2) by (auto dest: inj_onD)
qed

text \<open>
  A cached session is fresh and its own. Whatever requests run concurrently, a session that \<open>Resolve\<close> returns was calculated for the same
  product and the same identity, from the tables as they were at most fifteen seconds, and the time a load takes, before.
\<close>

lemma resolved_fresh:
  assumes "(session_step sv world slow)\<^sup>*\<^sup>* (session_start start) s" "sx_now s \<le> t" "0 \<le> slow"
    and "ResolveSession sv t stored (world t) (sx_cache s) sub tenant = (Inr sn, cache')"
  shows "\<exists>syncUser p sub' t0. ss_syncUser sv = Some syncUser \<and> ResolveProduct tenant = Some p \<and> TrimSpace sub' = TrimSpace sub
     \<and> t0 \<le> t \<and> t \<le> t0 + slow + sessionCacheTTL \<and> load_session sv (world t0) syncUser (pr_Code p) sub' = Inr sn"
proof -
  have "session_inv sv world slow (session_start start)" by (simp add: session_inv_def session_start_def)
  with assms(1) have inv: "session_inv sv world slow s" by (rule sessions.inv_run)
  from assms(4) obtain syncUser p where p: "ss_syncUser sv = Some syncUser" "ResolveProduct tenant = Some p"
    by (auto simp: ResolveSession_def split: option.splits)
  let ?key = "applicationSessionCacheKey (pr_Code p) sub"
  obtain r c where c: "cached t ?key (sx_cache s) = (r, c)" by fastforce
  show ?thesis
  proof (cases r)
    case (Some sn')
    then have "sn' = sn" using assms(4) p c by (simp add: ResolveSession_def Let_def)
    with Some c obtain expiresAt where e: "(?key, sn, expiresAt) \<in> set (sx_cache s)" "t \<le> expiresAt"
      using cached_entry [of t ?key "sx_cache s" sn] by auto
    with inv obtain t0 where t0: "computed sv world t0 ?key sn" "t0 \<le> sx_now s" "expiresAt \<le> t0 + slow + sessionCacheTTL"
      by (auto simp: session_inv_def)
    then obtain q sub' where q: "q \<in> set orderedDefinitions" "?key = applicationSessionCacheKey (pr_Code q) sub'"
      "load_session sv (world t0) syncUser (pr_Code q) sub' = Inr sn" using p(1) by (auto simp: computed_def)
    from cache_key_inj [OF product_known [OF p(2)] q(1,2)] q(3) show ?thesis using p t0 e(2) assms(2) by (intro exI conjI) auto
  next
    case None
    then have "load_session sv (world t) syncUser (pr_Code p) sub = Inr sn"
      using assms(4) p c by (simp add: ResolveSession_def Let_def split: sum.splits)
    then show ?thesis using p assms(3) by (intro exI [of _ syncUser] exI [of _ p] exI [of _ sub] exI [of _ t]) (simp add: sessionCacheTTL_def)
  qed
qed

end
