(* ===== verification/AppAccessProps.thy ===== *)
theory AppAccessProps
  imports AppAccess WorkspaceProps SignedTokensProps
begin

text \<open>
  The boundary of a product, from the credential of an organization to the request that uses it: what a credential
  opens, where an admitted organization comes from, and how a change of an entitlement takes effect.
\<close>

subsection \<open>Credentials\<close>

lemma issued_credential:
  assumes "IssueOrganizationContext env now s sub organization = Inr (token, expiresAt, org)"
  shows "AllowsOrganization s org" "GenerateContext (ce_getenv env) (ce_uuidString env) now sub (ap_Code (sn_Application s)) org DefaultTTL = Inr (token, expiresAt)"
  using assms by (auto simp: IssueOrganizationContext_def split: option.splits if_splits sum.splits prod.splits)

lemma context_token_trimmed:
  assumes "GenerateContext getenv uuidString now subject applicationCode organizationID ttl = Inr (token, expiresAt)"
  shows "TrimSpace token = token \<and> token \<noteq> []"
  using assms by (auto elim!: issued_context simp: raw.trimmed)

text \<open>
  C12. A credential opens one workspace. A request that carries a credential which was issued for an identity, a product and an organization gets
  past the check of its context if and only if it is a request of that identity to that product that selects that organization, which
  its session allows, before the credential expires.
\<close>

theorem credential_opens_one_workspace:
  assumes issued: "IssueOrganizationContext env now s sub organization = Inr (token, expiresAt, org)"
    and carried: "hq_Header rq HeaderOrganizationContext = token"
    and texts: "utf8_valid (TrimSpace sub)" "utf8_valid (normalize_text (ap_Code (sn_Application s)))" "uuid_printer (ce_uuidString env)"
    and process: "ce_uuidString env' = ce_uuidString env" "signingSecret (ce_getenv env') \<noteq> []"
      "signingSecret (ce_getenv env) \<in> {signingSecret (ce_getenv env'), previousSigningSecret (ce_getenv env')}"
    and size: "length token \<le> MaxTokenLength" and time: "int64_range (Unix expiresAt)"
  shows "validateRequestContext env' later rq s' = Inr w \<longleftrightarrow>
     ResolveContext (ce_FromString env') (context_input rq s') = Inr w \<and> rw_Organization w = Some org
     \<and> TrimSpace (hq_CognitoSub rq) = TrimSpace sub \<and> normalize_text (hq_TenantCode rq) = normalize_text (ap_Code (sn_Application s))
     \<and> Unix later \<le> Unix expiresAt"
proof -
  note g = issued_credential(2) [OF issued]
  have t: "TrimSpace token = token" "token \<noteq> []" using context_token_trimmed [OF g] by simp_all
  have v: "ValidateContext (ce_getenv env') (ce_uuidString env') later token subject' application' organization' \<longleftrightarrow>
      TrimSpace subject' = TrimSpace sub \<and> normalize_text application' = normalize_text (ap_Code (sn_Application s))
      \<and> organization' = org \<and> Unix later \<le> Unix expiresAt" for subject' application' organization'
    unfolding process(1) by (rule context_token_is_exact [OF g texts process(3,2) size time])
  show ?thesis
    by (cases "ResolveContext (ce_FromString env') (context_input rq s')")
      (auto simp: validateRequestContext_def bindE_def carried t v Let_def split: option.splits)
qed

subsection \<open>Admitted requests\<close>

lemma admitted:
  assumes "admit env t rq r = Inr (sn, w)"
  shows "r = Inr sn" "validateRequestContext env t rq sn = Inr w"
  using assms by (auto simp: admit_def Let_def split: sum.splits session_error.splits if_splits)

lemma validated_organization:
  assumes "validateRequestContext env t rq sn = Inr w" "rw_Organization w = Some org"
  shows "normalize_text (hq_TenantCode rq) = normalize_text (ap_Code (sn_Application sn))"
    and "AllowsOrganization sn org \<or> (ap_AllowsPlatformAdmin (sn_Application sn) \<and> pf_IsRoot (sn_User sn))"
    and "requiresOrganizationCredential (hq_Method rq) (hq_Path rq) \<Longrightarrow>
      ValidateContext (ce_getenv env) (ce_uuidString env) t (TrimSpace (hq_Header rq HeaderOrganizationContext)) (hq_CognitoSub rq) (hq_TenantCode rq) org"
proof -
  have r: "ResolveContext (ce_FromString env) (context_input rq sn) = Inr w"
    using assms(1) by (auto simp: validateRequestContext_def bindE_def Let_def split: sum.splits option.splits if_splits)
  show "normalize_text (hq_TenantCode rq) = normalize_text (ap_Code (sn_Application sn))"
    using r by (simp add: ResolveContext_def Let_def context_input_def split: if_splits)
  show "AllowsOrganization sn org \<or> (ap_AllowsPlatformAdmin (sn_Application sn) \<and> pf_IsRoot (sn_User sn))"
    using r assms(2) by (auto simp: ResolveContext_def Let_def context_input_def split: if_splits option.splits)
  show "requiresOrganizationCredential (hq_Method rq) (hq_Path rq) \<Longrightarrow>
      ValidateContext (ce_getenv env) (ce_uuidString env) t (TrimSpace (hq_Header rq HeaderOrganizationContext)) (hq_CognitoSub rq) (hq_TenantCode rq) org"
    using assms r by (auto simp: validateRequestContext_def bindE_def Let_def split: if_splits)
qed

text \<open>A session that is resolved after a denial is loaded from the tables: there is none in the cache.\<close>

lemma denied_then_loaded:
  assumes denied: "ResolveSession sv now stored db cache sub tenant = (Inl (ApplicationAccessDenied reason), cache')"
    and resolved: "ResolveSession sv now stored db' (invalidateCognitoSub sub cache') sub tenant = (Inr sn, cache'')"
  obtains syncUser p where "ss_syncUser sv = Some syncUser" "ResolveProduct tenant = Some p" "load_session sv db' syncUser (pr_Code p) sub = Inr sn"
proof -
  from resolved obtain syncUser p where p: "ss_syncUser sv = Some syncUser" "ResolveProduct tenant = Some p"
    by (auto simp: ResolveSession_def split: option.splits)
  let ?key = "applicationSessionCacheKey (pr_Code p) sub"
  have "map_of cache' ?key = None"
    using denied p by (auto simp: ResolveSession_def cached_def Let_def AList.delete_eq map_of_eq_None_iff split: option.splits sum.splits if_splits)
  then have "map_of (invalidateCognitoSub sub cache') ?key = None"
    by (auto simp: invalidateCognitoSub_def map_of_eq_None_iff)
  with resolved p have "load_session sv db' syncUser (pr_Code p) sub = Inr sn"
    by (simp add: ResolveSession_def cached_def Let_def split: sum.splits)
  with p show thesis by (rule that)
qed

lemma request_session_cases:
  assumes "request_session sv t stored db cache rq = (Inr sn, db', cache')"
    and attached: "ss_localBootstrap sv = Some bootstrap"
  obtains (resolved) c where "ResolveSession sv t stored db cache (hq_CognitoSub rq) (hq_TenantCode rq) = (Inr sn, c)"
  | (bootstrapped) db0 syncUser p where "bootstrap db (hq_CognitoSub rq) (hq_UserEmail rq) = Some db0"
      "ss_syncUser sv = Some syncUser" "ResolveProduct (hq_TenantCode rq) = Some p"
      "load_session sv db0 syncUser (pr_Code p) (hq_CognitoSub rq) = Inr sn"
proof -
  obtain r c where r: "ResolveSession sv t stored db cache (hq_CognitoSub rq) (hq_TenantCode rq) = (r, c)" by fastforce
  show thesis
  proof (cases "\<exists>reason. r = Inl (ApplicationAccessDenied reason)")
    case True
    then obtain reason where d: "r = Inl (ApplicationAccessDenied reason)" by blast
    with assms(1) r have "TrimSpace (hq_UserEmail rq) \<noteq> []"
      and b: "ResolveWithLocalBootstrap sv t stored db c (hq_CognitoSub rq) (hq_TenantCode rq) (hq_UserEmail rq) = (Inr sn, db', cache')"
      by (simp_all add: request_session_def split: if_splits)
    from b attached obtain db0 where db0: "bootstrap db (hq_CognitoSub rq) (hq_UserEmail rq) = Some db0"
      and again: "ResolveSession sv t stored db0 (invalidateCognitoSub (hq_CognitoSub rq) c) (hq_CognitoSub rq) (hq_TenantCode rq) = (Inr sn, cache')"
      by (auto simp: ResolveWithLocalBootstrap_def split: if_splits option.splits prod.splits)
    from r d have "ResolveSession sv t stored db cache (hq_CognitoSub rq) (hq_TenantCode rq) = (Inl (ApplicationAccessDenied reason), c)" by simp
    from this again show thesis by (rule denied_then_loaded) (rule bootstrapped [OF db0])
  next
    case False
    with assms(1) r have "r = Inr sn" by (cases r) (auto simp: request_session_def split: session_error.splits)
    with r show thesis by (intro resolved) simp
  qed
qed

lemma session_organizations:
  assumes "load_session sv db syncUser code sub = Inr sn"
  obtains u where "session_user db syncUser sub sn u" "pf_IsRoot (sn_User sn) = IsPlatformAdmin u"
    "\<not> platform_authority (sn_Application sn) u \<Longrightarrow>
      oa_ID ` set (sn_Organizations sn) = oa_ID ` set (organizationAccess (ss_collation sv) (db_org db) (au_ID u) (ap_ID (sn_Application sn)))"
proof -
  from assms obtain u organizations policy access where u: "session_user db syncUser sub sn u"
    and "ToLower (ap_Code (sn_Application sn)) = code"
    and s: "sn = build_session sv (sn_Application sn) u organizations policy access"
    and organizations: "organizations = (if platform_authority (sn_Application sn) u then platformOrganizationAccess (ss_collation sv) (db_org db)
       else organizationAccess (ss_collation sv) (db_org db) (au_ID u) (ap_ID (sn_Application sn)))"
    and "policy = userApplicationPolicy (db_policies db) (au_ID u) (ap_ID (sn_Application sn))" "\<forall>p. policy = Some p \<longrightarrow> up_IsActive p"
    and "access = None \<or> (\<not> platform_authority (sn_Application sn) u \<and> (\<exists>n > 0. access = Some \<lparr>ea_AssignedEvents = n, ea_Capabilities = eventClientCapabilities\<rparr>))"
    by (rule load_session_result)
  have "sn_Organizations (build_session sv app u organizations policy access) = map (workspace_capabilities sv app policy) organizations"
    "pf_IsRoot (sn_User (build_session sv app u organizations policy access)) = IsPlatformAdmin u" for app
    by (simp_all add: build_session_def Let_def NewUserProfileResponse_def)
  with s have o: "sn_Organizations sn = map (workspace_capabilities sv (sn_Application sn) policy) organizations" "pf_IsRoot (sn_User sn) = IsPlatformAdmin u"
    by metis+
  have "oa_ID (workspace_capabilities sv app policy w) = oa_ID w" for app w by (simp add: workspace_capabilities_def Let_def)
  then have "oa_ID ` set (sn_Organizations sn) = oa_ID ` set organizations" by (simp add: o image_image)
  then show thesis using that [OF u o(2)] organizations by simp
qed

text \<open>
  C3. An organization in which a request is admitted was reachable. Whatever requests run concurrently, a request that gets past the middleware with an
  organization belongs to an active user who was an administrator of the platform in a product that allows it, or reached the organization
  from an entitled membership, in the tables as they were at most fifteen seconds and the time of a load before; and unless the
  route serves to open a session, the request carries a valid credential for the organization. The bootstrap of a first developer, which
  the program always attaches, is the one exception as to the tables: after a denial, and only where the environment is local and
  the email of the token is on the configured list, they are those that the bootstrap leaves.
\<close>

theorem admitted_organization_was_reachable:
  assumes run: "(session_step sv world slow)\<^sup>*\<^sup>* (session_start start) s" "sx_now s \<le> t" "0 \<le> slow"
    and attached: "ss_localBootstrap sv = Some (BootstrapConfiguredLocalRoot benv)"
    and admitted: "RequireAccess sv env t stored (world t) (sx_cache s) rq = (Inr (sn, w), db', cache')" "rw_Organization w = Some org"
  shows "\<exists>syncUser sub db0 u. ss_syncUser sv = Some syncUser \<and> TrimSpace sub = TrimSpace (hq_CognitoSub rq)
     \<and> ((\<exists>t0 \<le> t. t \<le> t0 + slow + sessionCacheTTL \<and> db0 = world t0)
        \<or> isConfiguredLocalBootstrapRoot benv (hq_UserEmail rq)
          \<and> BootstrapConfiguredLocalRoot benv (world t) (hq_CognitoSub rq) (hq_UserEmail rq) = Some db0)
     \<and> session_user db0 syncUser sub sn u
     \<and> normalize_text (hq_TenantCode rq) = normalize_text (ap_Code (sn_Application sn))
     \<and> (platform_authority (sn_Application sn) u \<or> (\<exists>role d. reaches (db_org db0) (au_ID u) (ap_ID (sn_Application sn)) org role d))
     \<and> (requiresOrganizationCredential (hq_Method rq) (hq_Path rq) \<longrightarrow>
          ValidateContext (ce_getenv env) (ce_uuidString env) t (TrimSpace (hq_Header rq HeaderOrganizationContext)) (hq_CognitoSub rq) (hq_TenantCode rq) org)"
proof -
  from admitted(1) have r: "fst (request_session sv t stored (world t) (sx_cache s) rq) = Inr sn" "validateRequestContext env t rq sn = Inr w"
    using AppAccessProps.admitted [of env t rq] by (auto simp: RequireAccess_def split: prod.splits)
  then obtain db2 c2 where q: "request_session sv t stored (world t) (sx_cache s) rq = (Inr sn, db2, c2)" by (metis prod.collapse)
  obtain syncUser sub db0 and p :: product where sync: "ss_syncUser sv = Some syncUser" "TrimSpace sub = TrimSpace (hq_CognitoSub rq)"
    and tables: "(\<exists>t0 \<le> t. t \<le> t0 + slow + sessionCacheTTL \<and> db0 = world t0)
        \<or> isConfiguredLocalBootstrapRoot benv (hq_UserEmail rq)
          \<and> BootstrapConfiguredLocalRoot benv (world t) (hq_CognitoSub rq) (hq_UserEmail rq) = Some db0"
    and loaded: "load_session sv db0 syncUser (pr_Code p) sub = Inr sn"
    using q attached
  proof (cases rule: request_session_cases)
    case (resolved c)
    from resolved_fresh [OF run resolved] that show ?thesis by blast
  next
    case (bootstrapped db0 syncUser p)
    with bootstrap_local [OF bootstrapped(1)] that show ?thesis by blast
  qed
  obtain u where u: "session_user db0 syncUser sub sn u" "pf_IsRoot (sn_User sn) = IsPlatformAdmin u"
    and os: "\<not> platform_authority (sn_Application sn) u \<Longrightarrow>
      oa_ID ` set (sn_Organizations sn) = oa_ID ` set (organizationAccess (ss_collation sv) (db_org db0) (au_ID u) (ap_ID (sn_Application sn)))"
    using session_organizations [OF loaded] by blast
  note v = validated_organization [OF r(2) admitted(2)]
  have "platform_authority (sn_Application sn) u \<or> (\<exists>role d. reaches (db_org db0) (au_ID u) (ap_ID (sn_Application sn)) org role d)"
  proof (cases "platform_authority (sn_Application sn) u")
    case False
    with v(2) u(2) have "AllowsOrganization sn org" by (auto simp: platform_authority_def)
    then have "org \<in> oa_ID ` set (sn_Organizations sn)" by (auto simp: AllowsOrganization_def list_ex_iff split: if_splits)
    with os [OF False] show ?thesis using workspaces_exact by blast
  qed simp
  with sync tables u(1) v(1,3) show ?thesis by blast
qed

subsection \<open>A change of an entitlement\<close>

lemma upsert_rows:
  "(\<exists>r \<in> set (upsert_member_application m a active rows). cma_ClientMemberID r = m \<and> cma_ApplicationID r = a \<and> cma_IsActive r) \<longleftrightarrow> active"
  "(m', a') \<noteq> (m, a) \<Longrightarrow>
     filter (\<lambda>r. cma_ClientMemberID r = m' \<and> cma_ApplicationID r = a') (upsert_member_application m a active rows)
       = filter (\<lambda>r. cma_ClientMemberID r = m' \<and> cma_ApplicationID r = a') rows"
proof -
  show "(\<exists>r \<in> set (upsert_member_application m a active rows). cma_ClientMemberID r = m \<and> cma_ApplicationID r = a \<and> cma_IsActive r) \<longleftrightarrow> active"
  proof (cases "list_ex (\<lambda>r. cma_ClientMemberID r = m \<and> cma_ApplicationID r = a) rows")
    case True
    then obtain r where "r \<in> set rows" "cma_ClientMemberID r = m" "cma_ApplicationID r = a" by (auto simp: list_ex_iff)
    then show ?thesis using True by (auto simp: upsert_member_application_def image_iff intro: bexI [of _ "r\<lparr>cma_IsActive := active\<rparr>"])
  qed (auto simp: upsert_member_application_def list_ex_iff)
  assume n: "(m', a') \<noteq> (m, a)"
  have "filter (\<lambda>r. cma_ClientMemberID r = m' \<and> cma_ApplicationID r = a')
      (map (\<lambda>r. if cma_ClientMemberID r = m \<and> cma_ApplicationID r = a then r\<lparr>cma_IsActive := active\<rparr> else r) rows)
      = filter (\<lambda>r. cma_ClientMemberID r = m' \<and> cma_ApplicationID r = a') rows"
    using n by (induction rows) auto
  with n show "filter (\<lambda>r. cma_ClientMemberID r = m' \<and> cma_ApplicationID r = a') (upsert_member_application m a active rows)
      = filter (\<lambda>r. cma_ClientMemberID r = m' \<and> cma_ApplicationID r = a') rows"
    by (auto simp: upsert_member_application_def)
qed

lemma key_suffix: "TrimSpace sub = TrimSpace sub' \<Longrightarrow> HasSuffix (applicationSessionCacheKey code sub') ('':'' @ TrimSpace sub)"
proof -
  assume "TrimSpace sub = TrimSpace sub'"
  then have "rev (applicationSessionCacheKey code sub') = rev ('':'' @ TrimSpace sub) @ rev (''v1:application-session:'' @ code @ '':subject'')"
    by (simp add: applicationSessionCacheKey_def)
  then show ?thesis unfolding HasSuffix_def by (simp only: HasPrefix_def) simp
qed

lemma invalidated:
  assumes "TrimSpace sub = sub" "sub \<noteq> []" "TrimSpace sub' = sub"
  shows "cached now (applicationSessionCacheKey code sub') (invalidateCognitoSub sub cache) = (None, invalidateCognitoSub sub cache)"
proof -
  let ?key = "applicationSessionCacheKey code sub'"
  have "HasSuffix ?key ('':'' @ sub)" using key_suffix [of sub sub' code] assms(1,3) by simp
  then have "?key \<notin> fst ` set (invalidateCognitoSub sub cache)" using assms(1,2) by (auto simp: invalidateCognitoSub_def)
  then have "map_of (invalidateCognitoSub sub cache) ?key = None" by (rule iffD2 [OF map_of_eq_None_iff])
  then show ?thesis by (simp add: cached_def)
qed

text \<open>
  C40. A change of an entitlement takes effect at once, in the process that makes it. When it succeeds, the member is entitled to the application
  exactly if that was asked, no other entitlement has changed, the application is enabled for the organization or an ancestor, and no session
  of the identity is in the cache, of whatever product.
\<close>

theorem entitlement_change_takes_effect:
  assumes "SetMemberApplicationAccess db cache clientID userID applicationCode active = (Inr (), db', cache')"
  shows "\<exists>m a. active_member (db_org db) clientID userID = Some m \<and> a \<in> set (enabled_applications (db_org db) clientID)
     \<and> ToLower (ap_Code a) = ToLower (TrimSpace applicationCode)
     \<and> ((\<exists>r \<in> set (ot_member_applications (db_org db')). cma_ClientMemberID r = cm_ID m \<and> cma_ApplicationID r = ap_ID a \<and> cma_IsActive r) \<longleftrightarrow> active)
     \<and> (\<forall>m' a'. (m', a') \<noteq> (cm_ID m, ap_ID a) \<longrightarrow>
          filter (\<lambda>r. cma_ClientMemberID r = m' \<and> cma_ApplicationID r = a') (ot_member_applications (db_org db'))
            = filter (\<lambda>r. cma_ClientMemberID r = m' \<and> cma_ApplicationID r = a') (ot_member_applications (db_org db)))
     \<and> (\<forall>u sub code now. find (\<lambda>u. au_ID u = userID) (db_users db) = Some u \<and> au_CognitoSub u \<noteq> [] \<and> TrimSpace (au_CognitoSub u) = au_CognitoSub u
          \<and> TrimSpace sub = au_CognitoSub u \<longrightarrow> cached now (applicationSessionCacheKey code sub) cache' = (None, cache'))"
proof -
  from assms obtain m a where m: "active_member (db_org db) clientID userID = Some m"
    and a: "find (\<lambda>a. ToLower (ap_Code a) = ToLower (TrimSpace applicationCode)) (enabled_applications (db_org db) clientID) = Some a"
    by (auto simp: SetMemberApplicationAccess_def split: option.splits)
  let ?sub = "case find (\<lambda>u. au_ID u = userID) (db_users db) of None \<Rightarrow> [] | Some u \<Rightarrow> au_CognitoSub u"
  have rows: "ot_member_applications (db_org db') = upsert_member_application (cm_ID m) (ap_ID a) active (ot_member_applications (db_org db))"
    and cache: "cache' = invalidateCognitoSub ?sub cache"
    using assms by (auto simp: SetMemberApplicationAccess_def m a Let_def split: if_splits)
  have app: "a \<in> set (enabled_applications (db_org db) clientID)" "ToLower (ap_Code a) = ToLower (TrimSpace applicationCode)"
    using a by (auto simp: find_Some_iff)
  show ?thesis
  proof (intro exI [of _ m] exI [of _ a] conjI allI impI)
    show "cached now (applicationSessionCacheKey code sub) cache' = (None, cache')"
      if "find (\<lambda>u. au_ID u = userID) (db_users db) = Some u \<and> au_CognitoSub u \<noteq> [] \<and> TrimSpace (au_CognitoSub u) = au_CognitoSub u
          \<and> TrimSpace sub = au_CognitoSub u" for u sub code now
      using that invalidated [of "au_CognitoSub u" sub] by (simp add: cache)
  qed (simp_all add: m app rows upsert_rows)
qed

end
