(* ===== verification/AppAccessRun.thy ===== *)
theory AppAccessRun
  imports AppAccessProps AuthzRun TokensRun
begin

text \<open>
  Sessions on the platform of \<open>AuthzRun\<close>: luis owns the organization boda, below which is salon, and is entitled to EventiApp
  there, under a policy. The properties of sessions and of the boundary apply to him.
\<close>

subsection \<open>The service\<close>

definition luis :: auth_user where
  "luis = (account 8 0)\<lparr>au_CognitoSub := ''luis''\<rparr>"

definition luis_policy :: application_policy where
  "luis_policy =
     \<lparr>up_ID = 40, up_UserID = 8, up_ApplicationID = 1, up_IsActive = True, up_Capabilities = [''session:view'', ''events:view'', ''automation:view'']\<rparr>"

definition day :: session_db where
  "day = \<lparr>db_org = tree, db_users = [luis], db_policies = [luis_policy]\<rparr>"

definition users_of :: "session_db \<Rightarrow> string \<Rightarrow> auth_user option" where
  "users_of db sub = find (\<lambda>u. au_CognitoSub u = sub) (db_users db)"

definition production :: bootstrap_env where
  "production =
     \<lparr>be_getenv = (\<lambda>name. if name = ''ENV'' then ''production'' else []), be_LocalBootstrapRootEmails = ''dev@example.com'',
      be_newID = (\<lambda>db. 99), be_meanwhile = id, be_deletedSubject = (\<lambda>db sub. False)\<rparr>"

lemma production_not_local: "\<not> isConfiguredLocalBootstrapRoot production email"
proof -
  have "\<not> EqualFold (TrimSpace ''production'') ''local''" by code_simp
  then show ?thesis by (simp add: isConfiguredLocalBootstrapRoot_def production_def)
qed

definition service :: session_service where
  "service =
     \<lparr>ss_syncUser = Some users_of, ss_profileImageURL = None, ss_localBootstrap = Some (BootstrapConfiguredLocalRoot production), ss_eventAccess = None, ss_policyCeiling = ModeEnforce,
      ss_eventClientCapability = True, ss_collation = id\<rparr>"

definition event_app :: application where
  "event_app = hd (ot_applications tree)"

definition luis_organizations :: "organization_access list" where
  "luis_organizations = [workspace (ot_clients tree ! 3) ''OWNER'', workspace (ot_clients tree ! 4) ''INHERITED_OWNER'']"

lemma luis_reaches: "organizationAccess id tree 8 1 = luis_organizations"
  by code_simp

definition luis_session :: session where
  "luis_session = build_session service event_app luis luis_organizations (Some luis_policy) None"

lemma luis_parts:
  "sn_Application luis_session = event_app" "pf_IsRoot (sn_User luis_session) = False"
  "map oa_ID (sn_Organizations luis_session) = [4, 5]" "ap_Code event_app = ''eventiapp''" "ap_ID event_app = 1" "\<not> platform_authority event_app luis"
proof -
  show "\<not> platform_authority event_app luis" "ap_Code event_app = ''eventiapp''" "ap_ID event_app = 1" by code_simp+
  have "\<not> IsPlatformAdmin luis" by code_simp
  then show "sn_Application luis_session = event_app" "pf_IsRoot (sn_User luis_session) = False" "map oa_ID (sn_Organizations luis_session) = [4, 5]"
    by (simp_all add: luis_session_def build_session_def Let_def NewUserProfileResponse_def luis_organizations_def workspace_capabilities_def
        workspace_def tree_def)
qed

lemma luis_loaded: "load_session service day users_of ''eventiapp'' ''luis'' = Inr luis_session"
proof -
  have "first_by ap_ID (\<lambda>a. ToLower (ap_Code a) = ''eventiapp'' \<and> ap_IsActive a) (ot_applications tree) = Some event_app"
    "users_of day ''luis'' = Some luis" "au_IsActive luis" "au_ID luis = 8" "userApplicationPolicy [luis_policy] 8 1 = Some luis_policy" "up_IsActive luis_policy"
    by code_simp+
  moreover have "luis_organizations \<noteq> []" "ss_eventAccess service = None" "ss_collation service = id"
    by (simp_all add: luis_organizations_def service_def)
  ultimately show ?thesis
    by (simp add: load_session_def day_def luis_parts(4-6) luis_reaches luis_session_def Let_def)
qed

lemma session_view_shown: "''session:view'' \<in> set (effectiveApplicationCapabilities app u os)"
proof -
  have "TrimSpace ''session:view'' = ''session:view''" "\<And>m names. (m, names) \<in> set module_names \<Longrightarrow> ''session:view'' \<notin> set names"
    using event_names_trimmed(1) by (simp add: trimmed_name_def, auto simp: module_names_def event_module_names_def)
  then show ?thesis
    by (auto simp: effectiveApplicationCapabilities_def Let_def set_values_set remove_disabled_set list_all_iff newCapabilitySet_def set_add_set)
qed

theorem session_capabilities_are_bounded_witness:
  "''session:view'' \<in> set (sn_Capabilities luis_session) \<and> ''automation:view'' \<notin> set (sn_Capabilities luis_session)"
proof
  have "''session:view'' \<in> set (up_Capabilities luis_policy)" by code_simp
  with session_view_shown show "''session:view'' \<in> set (sn_Capabilities luis_session)"
    by (simp add: luis_session_def build_session_def Let_def intersectCapabilities_def)
  show "''automation:view'' \<notin> set (sn_Capabilities luis_session)"
  proof
    assume "''automation:view'' \<in> set (sn_Capabilities luis_session)"
    from session_capabilities_are_bounded [OF luis_loaded this] obtain u where u: "session_user day users_of ''luis'' luis_session u"
      "''automation:view'' \<in> set platform_only \<longrightarrow> platform_authority event_app u" by (auto simp: luis_parts)
    have "users_of day ''luis'' = Some luis" "''automation:view'' \<in> set platform_only" by code_simp+
    with u luis_parts(6) show False by (simp add: session_user_def)
  qed
qed

lemma luis_known: "session_user day users_of ''luis'' luis_session u \<Longrightarrow> u = luis"
  by (auto simp: session_user_def users_of_def day_def split: if_splits)



subsection \<open>The boundary\<close>

definition offices :: credential_env where
  "offices = \<lparr>ce_getenv = one_secret, ce_uuidString = printed, ce_FromString = (\<lambda>s. if s = ''5'' then Some 5 else None)\<rparr>"

text \<open>A request of luis in the organization salon, with a credential.\<close>

definition visit :: "string \<Rightarrow> http_request" where
  "visit credential =
     \<lparr>hq_Method = ''GET'', hq_Path = ''/api/session'', hq_Header = (\<lambda>name. if name = HeaderOrganizationID then ''5'' else if name = HeaderOrganizationContext then credential else []),
      hq_CognitoSub = ''luis'', hq_TenantCode = ''eventiapp'', hq_UserEmail = []\<rparr>"

lemma salon_selected:
  "ResolveContext (ce_FromString offices) (context_input (visit credential) luis_session) = Inr \<lparr>rw_WorkspaceMode = WorkspaceOrganization, rw_Organization = Some 5\<rparr>"
proof -
  have names: "HeaderOrganizationID \<noteq> HeaderApplicationCode" "HeaderOrganizationID \<noteq> HeaderWorkspaceMode" "HeaderOrganizationContext \<noteq> HeaderApplicationCode"
    "HeaderOrganizationContext \<noteq> HeaderWorkspaceMode" "WorkspaceOrganization \<noteq> WorkspacePlatform" "WorkspaceOrganization \<noteq> []"
    "normalize_text [] = []" "TrimSpace ''5'' = ''5''" by code_simp+
  have "AllowsOrganization luis_session 5"
  proof -
    have "5 \<in> set (map oa_ID (sn_Organizations luis_session))" unfolding luis_parts by simp
    then show ?thesis by (auto simp: AllowsOrganization_def list_ex_iff)
  qed
  then show ?thesis
    by (simp add: ResolveContext_def context_input_def visit_def Let_def luis_parts names names(1-4) [symmetric] offices_def)
qed

lemma credential_issued:
  "\<exists>token. IssueOrganizationContext offices 0 luis_session ''luis'' ''5'' = Inr (token, DefaultTTL, 5) \<and> length token \<le> MaxTokenLength"
proof -
  have "5 \<in> set (map oa_ID (sn_Organizations luis_session))" unfolding luis_parts by simp
  then have a: "AllowsOrganization luis_session 5" by (auto simp: AllowsOrganization_def list_ex_iff)
  let ?claims = "\<lparr>oc_Purpose = context_purpose, oc_Subject = ''luis'', oc_ApplicationCode = ''eventiapp'', oc_OrganizationID = printed 5, oc_ExpiresAt = Unix DefaultTTL\<rparr>"
  have t: "TrimSpace ''luis'' = ''luis''" "normalize_text ''eventiapp'' = ''eventiapp''" "\<not> DefaultTTL \<le> 0" "DefaultTTL \<le> MaxTTL" by code_simp+
  have l: "length (json_encode (context_json ?claims)) \<le> 200" by code_simp
  have "n \<le> 200 \<Longrightarrow> Suc (Suc (4 * n)) div 3 \<le> 2004" for n :: nat by presburger
  from this [OF l] show ?thesis
    using a by (simp add: IssueOrganizationContext_def offices_def GenerateContext_def luis_parts t one_secret_used Let_def
        EncodeToString_length signature_length MaxTokenLength_def not_less)
qed

theorem credential_opens_one_workspace_witness:
  "\<exists>token. IssueOrganizationContext offices 0 luis_session ''luis'' ''5'' = Inr (token, DefaultTTL, 5)
     \<and> validateRequestContext offices (4 * minute) (visit token) luis_session = Inr \<lparr>rw_WorkspaceMode = WorkspaceOrganization, rw_Organization = Some 5\<rparr>
     \<and> validateRequestContext offices (6 * minute) (visit token) luis_session \<noteq> Inr \<lparr>rw_WorkspaceMode = WorkspaceOrganization, rw_Organization = Some 5\<rparr>"
proof -
  from credential_issued obtain token where t: "IssueOrganizationContext offices 0 luis_session ''luis'' ''5'' = Inr (token, DefaultTTL, 5)"
    and size: "length token \<le> MaxTokenLength" by blast
  have carried: "hq_Header (visit token) HeaderOrganizationContext = token" by (simp add: visit_def HeaderOrganizationContext_def HeaderOrganizationID_def)
  have texts: "utf8_valid (TrimSpace ''luis'')" "utf8_valid (normalize_text (ap_Code (sn_Application luis_session)))" "uuid_printer (ce_uuidString offices)"
    unfolding luis_parts by (code_simp, code_simp, simp add: offices_def uuid_printer_printed)
  have process: "signingSecret (ce_getenv offices) \<noteq> []" "signingSecret (ce_getenv offices) \<in> {signingSecret (ce_getenv offices), previousSigningSecret (ce_getenv offices)}"
    by (simp_all add: offices_def one_secret_used)
  have time: "int64_range (Unix DefaultTTL)" "Unix (4 * minute) \<le> Unix DefaultTTL" "\<not> Unix (6 * minute) \<le> Unix DefaultTTL"
    by (simp_all add: int64_range_def Unix_def DefaultTTL_def)
  have same: "TrimSpace (hq_CognitoSub (visit token)) = TrimSpace ''luis''"
    "normalize_text (hq_TenantCode (visit token)) = normalize_text (ap_Code (sn_Application luis_session))"
    unfolding luis_parts by (simp_all add: visit_def)
  note opens = credential_opens_one_workspace [OF t carried texts refl process size time(1), of _ luis_session]
  show ?thesis using t opens salon_selected same time(2,3) by (intro exI [of _ token]) simp
qed

lemma luis_resolved: "\<exists>cache'. ResolveSession service 0 0 day [] ''luis'' ''eventiapp'' = (Inr luis_session, cache')"
proof -
  have "ResolveProduct ''eventiapp'' = Some EventiApp_Definition" "pr_Code EventiApp_Definition = ''eventiapp''" by code_simp+
  moreover have sync: "ss_syncUser service = Some users_of" by (simp add: service_def)
  ultimately show ?thesis using luis_loaded by (simp add: ResolveSession_def sync cached_def Let_def)
qed

theorem admitted_organization_was_reachable_witness:
  "(\<exists>w db' cache'. RequireAccess service offices 0 0 day [] (visit []) = (Inr (luis_session, w), db', cache') \<and> rw_Organization w = Some 5)
     \<and> (\<exists>role d. reaches tree 8 1 5 role d)"
proof -
  let ?w = "\<lparr>rw_WorkspaceMode = WorkspaceOrganization, rw_Organization = Some 5\<rparr>"
  from luis_resolved obtain cache' where r: "ResolveSession service 0 0 day [] ''luis'' ''eventiapp'' = (Inr luis_session, cache')" by blast
  have names: "HeaderOrganizationContext \<noteq> HeaderOrganizationID" "\<not> requiresOrganizationCredential ''GET'' ''/api/session''"
    "\<not> RequiresEventOperationsPath ''/api/session''" "\<not> RequiresAutomationPath ''/api/session''" "requiredSurfaceCapability ''GET'' ''/api/session'' = []"
    "TrimSpace [] = []" by code_simp+
  have "validateRequestContext offices 0 (visit []) luis_session = Inr ?w"
    unfolding validateRequestContext_def salon_selected bindE_def by (simp add: visit_def names Let_def)
  then have a: "RequireAccess service offices 0 0 day [] (visit []) = (Inr (luis_session, ?w), day, cache')"
    using r names(3-5) by (simp add: RequireAccess_def request_session_def admit_def visit_def Let_def)
  have run: "(session_step service (\<lambda>t. day) 0)\<^sup>*\<^sup>* (session_start 0) (session_start 0)" by (rule rtranclp.rtrancl_refl)
  have now: "sx_now (session_start 0) \<le> 0" "sx_cache (session_start 0) = []" "ss_localBootstrap service = Some (BootstrapConfiguredLocalRoot production)"
    "ss_syncUser service = Some users_of" by (simp_all add: session_start_def service_def)
  have admitted: "RequireAccess service offices 0 0 day (sx_cache (session_start 0)) (visit []) = (Inr (luis_session, ?w), day, cache')"
    using a now(2) by simp
  have org: "rw_Organization ?w = Some 5" by simp
  have tables: "db_org day = tree" by (simp add: day_def)
  from admitted_organization_was_reachable [OF run now(1) order_refl now(3) admitted org] now(4)
  have "\<exists>sub u. session_user day users_of sub luis_session u \<and> (platform_authority event_app u \<or> (\<exists>role d. reaches tree (au_ID u) 1 5 role d))"
    unfolding luis_parts by (simp add: production_not_local) (metis tables)
  then obtain sub u where
    u: "session_user day users_of sub luis_session u" "platform_authority event_app u \<or> (\<exists>role d. reaches tree (au_ID u) 1 5 role d)" by blast
  then have "u = luis" by (auto simp: session_user_def users_of_def day_def split: if_splits)
  with u(2) luis_parts(6) have "\<exists>role d. reaches tree 8 1 5 role d" by (simp add: luis_def account_def)
  with a org show ?thesis by blast
qed

theorem entitlement_change_takes_effect_witness:
  "\<exists>db' cache'. SetMemberApplicationAccess day [(applicationSessionCacheKey ''eventiapp'' ''luis'', luis_session, minute)] 4 8 '' EventiApp '' False
       = (Inr (), db', cache')
     \<and> cached 0 (applicationSessionCacheKey ''eventiapp'' '' luis'') cache' = (None, cache')"
proof -
  let ?cache = "[(applicationSessionCacheKey ''eventiapp'' ''luis'', luis_session, minute)]"
  have m: "active_member tree 4 8 = Some (ot_members tree ! 1)"
    "find (\<lambda>a. ToLower (ap_Code a) = ToLower (TrimSpace '' EventiApp '')) (enabled_applications tree 4) = Some event_app" "ap_ID event_app \<noteq> 0"
    by code_simp+
  obtain db' cache' where c: "SetMemberApplicationAccess day ?cache 4 8 '' EventiApp '' False = (Inr (), db', cache')"
    using m by (simp add: SetMemberApplicationAccess_def day_def Let_def)
  have l: "find (\<lambda>u. au_ID u = 8) (db_users day) = Some luis" "au_CognitoSub luis \<noteq> []" "TrimSpace (au_CognitoSub luis) = au_CognitoSub luis"
    "TrimSpace '' luis'' = au_CognitoSub luis" by code_simp+
  from entitlement_change_takes_effect [OF c] l c show ?thesis by blast
qed

end
