(* ===== verification/Idempotency.thy ===== *)
theory Idempotency
  imports GoHash StepSystem
begin

text \<open>
  Idempotent mutations (middleware/idempotency/idempotency.go): a request with an idempotency key reserves a record before its handler
  runs, and a later request with the same key gets the stored response. Every statement of the database is one step, so that
  requests interleave. Identities of records come from a supply; where a query of the database would fail the middleware
  answers 503 before the handler runs, which is not modelled.
\<close>

subsection \<open>Requests\<close>

definition maxKeyLength :: nat where "maxKeyLength = 128"
definition maxBodyBytes :: nat where "maxBodyBytes = 2 ^ 20"
definition maxResponseBytes :: nat where "maxResponseBytes = 8 * 2 ^ 20"
definition recordTTL :: duration where "recordTTL = 24 * hour"
definition staleAfter :: duration where "staleAfter = 2 * minute"

definition protectedRoutes :: "string list" where
  "protectedRoutes =
     [''POST /api/events'', ''POST /api/events/:id/duplicate'', ''POST /api/invitations/:id/resend'', ''POST /api/guests'',
      ''POST /api/guests/batch'', ''POST /api/clients/invite'', ''POST /api/clients/members'', ''POST /api/users/invite'',
      ''PUT /api/clients/:id/member-applications/:user_id/:application_code'']"

text \<open>The route is the pattern of the path; the parameters in the path of a request are \<open>im_Parameters\<close>.\<close>

record mutation =
  im_Method :: string
  im_Route :: string
  im_Parameters :: "string list"
  im_RawQuery :: string
  im_Key :: string
  im_Body :: string
  im_TenantCode :: string
  im_CognitoSub :: string

record response =
  re_Status :: int
  re_ContentType :: string
  re_Body :: string

record idempotency_record =
  ir_ID :: uuid
  ir_TenantCode :: string
  ir_ActorSub :: string
  ir_Method :: string
  ir_Route :: string
  ir_Key :: string
  ir_RequestHash :: string
  ir_State :: string
  ir_Response :: response
  ir_UpdatedAt :: gotime
  ir_ExpiresAt :: gotime

definition contextString :: "string \<Rightarrow> string" where
  "contextString s = ToLower (TrimSpace s)"

definition no_response :: response where
  "no_response = \<lparr>re_Status = 0, re_ContentType = [], re_Body = []\<rparr>"

definition candidate_record :: "mutation \<Rightarrow> gotime \<Rightarrow> uuid \<Rightarrow> idempotency_record" where
  "candidate_record m now newID =
     \<lparr>ir_ID = newID, ir_TenantCode = contextString (im_TenantCode m), ir_ActorSub = contextString (im_CognitoSub m),
      ir_Method = ToUpper (im_Method m), ir_Route = im_Route m, ir_Key = TrimSpace (im_Key m),
      ir_RequestHash = sha256_hex (im_RawQuery m @ [CHR 0x0A] @ im_Body m), ir_State = ''processing'', ir_Response = no_response,
      ir_UpdatedAt = now, ir_ExpiresAt = now + recordTTL\<rparr>"

datatype admission = Unprotected | Bypassed | KeyTooLong | BodyTooLarge | Reserving idempotency_record

definition CriticalMutations :: "mutation \<Rightarrow> gotime \<Rightarrow> uuid \<Rightarrow> admission" where
  "CriticalMutations m now newID =
     (if ToUpper (im_Method m) @ '' '' @ im_Route m \<notin> set protectedRoutes then Unprotected
      else if TrimSpace (im_Key m) = [] then Bypassed
      else if maxKeyLength < length (TrimSpace (im_Key m)) then KeyTooLong
      else if maxBodyBytes < length (im_Body m) then BodyTooLarge
      else Reserving (candidate_record m now newID))"

subsection \<open>The records\<close>

text \<open>The columns of the unique index.\<close>

definition idem_scope :: "idempotency_record \<Rightarrow> string \<times> string \<times> string \<times> string \<times> string" where
  "idem_scope r = (ir_TenantCode r, ir_ActorSub r, ir_Method r, ir_Route r, ir_Key r)"

definition delete_expired :: "gotime \<Rightarrow> idempotency_record list \<Rightarrow> idempotency_record list" where
  "delete_expired now db = filter (\<lambda>r. \<not> ir_ExpiresAt r < now) db"

text \<open>\<open>Create\<close> that does nothing on a conflict: whether a row was affected. The database sets the time of the update.\<close>

definition insert_record :: "gotime \<Rightarrow> idempotency_record \<Rightarrow> idempotency_record list \<Rightarrow> bool \<times> idempotency_record list" where
  "insert_record now candidate db =
     (if list_ex (\<lambda>r. idem_scope r = idem_scope candidate) db then (False, db) else (True, db @ [candidate\<lparr>ir_UpdatedAt := now\<rparr>]))"

definition existing_record :: "idempotency_record \<Rightarrow> idempotency_record list \<Rightarrow> idempotency_record option" where
  "existing_record candidate db = find (\<lambda>r. idem_scope r = idem_scope candidate) db"

definition is_stale :: "gotime \<Rightarrow> idempotency_record \<Rightarrow> idempotency_record \<Rightarrow> bool" where
  "is_stale now candidate existing =
     (ir_RequestHash existing = ir_RequestHash candidate \<and> ir_State existing = ''processing'' \<and> ir_UpdatedAt existing < now - staleAfter)"

definition take_over :: "gotime \<Rightarrow> idempotency_record \<Rightarrow> idempotency_record \<Rightarrow> idempotency_record list \<Rightarrow> bool \<times> idempotency_record list" where
  "take_over now candidate existing db =
     (let matches = (\<lambda>r. ir_ID r = ir_ID existing \<and> ir_State r = ''processing'' \<and> ir_UpdatedAt r = ir_UpdatedAt existing)
      in (list_ex matches db,
          map (\<lambda>r. if matches r then r\<lparr>ir_RequestHash := ir_RequestHash candidate, ir_ExpiresAt := ir_ExpiresAt candidate, ir_UpdatedAt := now\<rparr> else r) db))"

definition finalize_record :: "gotime \<Rightarrow> uuid \<Rightarrow> response \<Rightarrow> idempotency_record list \<Rightarrow> idempotency_record list" where
  "finalize_record now i resp db =
     map (\<lambda>r. if ir_ID r = i then r\<lparr>ir_State := ''completed'', ir_Response := resp, ir_UpdatedAt := now, ir_ExpiresAt := now + recordTTL\<rparr> else r) db"

definition release_record :: "uuid \<Rightarrow> idempotency_record list \<Rightarrow> idempotency_record list" where
  "release_record i db = filter (\<lambda>r. ir_ID r \<noteq> i) db"

text \<open>\<open>reserve\<close>, without other requests in between: reserved with the identity of a record, or the record that exists.\<close>

definition reserve :: "gotime \<Rightarrow> idempotency_record \<Rightarrow> idempotency_record list \<Rightarrow> (idempotency_record + uuid) option \<times> idempotency_record list" where
  "reserve now candidate db0 =
     (case insert_record now candidate (delete_expired now db0) of
        (True, db) \<Rightarrow> (Some (Inr (ir_ID candidate)), db)
      | (False, db) \<Rightarrow>
          (case existing_record candidate db of
             None \<Rightarrow> (None, db)
           | Some existing \<Rightarrow>
               if is_stale now candidate existing then
                 (case take_over now candidate existing db of
                    (True, db') \<Rightarrow> (Some (Inr (ir_ID existing)), db')
                  | (False, db') \<Rightarrow> (Some (Inl existing), db'))
               else (Some (Inl existing), db)))"

text \<open>The answer to a request whose key is taken.\<close>

datatype refused = KeyReused | Replayed response | InProgress

definition answer_existing :: "idempotency_record \<Rightarrow> idempotency_record \<Rightarrow> refused" where
  "answer_existing candidate existing =
     (if ir_RequestHash existing \<noteq> ir_RequestHash candidate then KeyReused
      else if ir_State existing = ''completed'' then Replayed (ir_Response existing) else InProgress)"

subsection \<open>The captured response\<close>

record capture =
  cw_body :: string
  cw_overflow :: bool

definition no_capture :: capture where
  "no_capture = \<lparr>cw_body = [], cw_overflow = False\<rparr>"

definition capture_write :: "capture \<Rightarrow> string \<Rightarrow> capture" where
  "capture_write w chunk =
     (if length (cw_body w) < maxResponseBytes then
        let remaining = maxResponseBytes - length (cw_body w)
        in if remaining < length chunk then \<lparr>cw_body = cw_body w @ take remaining chunk, cw_overflow = True\<rparr>
           else w\<lparr>cw_body := cw_body w @ chunk\<rparr>
      else if chunk \<noteq> [] then w\<lparr>cw_overflow := True\<rparr> else w)"

definition captured :: "string list \<Rightarrow> capture" where
  "captured chunks = foldl capture_write no_capture chunks"

text \<open>What happens to the record when the handler returns: released, left as it is, or completed with the response.\<close>

datatype completion = Release | Abandon | Complete response

definition completion_of :: "bool \<Rightarrow> int \<Rightarrow> string \<Rightarrow> string list \<Rightarrow> completion" where
  "completion_of handlerErr status contentType chunks =
     (let w = captured chunks
      in if handlerErr \<or> status < 200 \<or> 400 \<le> status then Release
         else if cw_overflow w then Abandon
         else Complete \<lparr>re_Status = status, re_ContentType = contentType, re_Body = cw_body w\<rparr>)"

subsection \<open>Concurrent requests\<close>

text \<open>
  A request in progress since the time its reservation read the clock: reserving, about to take a stale record over, or
  running its handler on a record. The clock runs freely, so that a handler may take any time. \<open>id_used\<close> are the identities
  that were taken, with the scope of their record; \<open>id_done\<close> logs the successes that were recorded; \<open>id_overtaken\<close> logs each handler
  that was still running when another request took its record over or purged it, with the time since when it was in progress.
\<close>

datatype idem_phase =
    Purging idempotency_record gotime
  | Inserting idempotency_record gotime
  | Reading idempotency_record gotime
  | Taking idempotency_record gotime idempotency_record
  | Running idempotency_record gotime

record idem_state =
  id_now :: gotime
  id_db :: "idempotency_record list"
  id_requests :: "idem_phase list"
  id_used :: "uuid \<rightharpoonup> string \<times> string \<times> string \<times> string \<times> string"
  id_done :: "(idempotency_record \<times> gotime \<times> response) list"
  id_overtaken :: "((string \<times> string \<times> string \<times> string \<times> string) \<times> gotime \<times> gotime) list"

fun phase_since :: "idem_phase \<Rightarrow> gotime" where
  "phase_since (Purging c t) = t"
| "phase_since (Inserting c t) = t"
| "phase_since (Reading c t) = t"
| "phase_since (Taking c t e) = t"
| "phase_since (Running c t) = t"

text \<open>The handlers that run on a record that is taken from them.\<close>

definition interrupted ::
  "gotime \<Rightarrow> (uuid \<Rightarrow> bool) \<Rightarrow> idem_phase list \<Rightarrow> ((string \<times> string \<times> string \<times> string \<times> string) \<times> gotime \<times> gotime) list" where
  "interrupted now gone requests =
     concat (map (\<lambda>p. case p of Running c t \<Rightarrow> if gone (ir_ID c) then [(idem_scope c, t, now)] else [] | _ \<Rightarrow> []) requests)"

inductive idem_step :: "idem_state \<Rightarrow> idem_state \<Rightarrow> bool" where
  tick: "id_now s \<le> t \<Longrightarrow> idem_step s (s\<lparr>id_now := t\<rparr>)"
| arrive: "CriticalMutations m (id_now s) newID = Reserving c \<Longrightarrow> newID \<notin> dom (id_used s) \<Longrightarrow>
    idem_step s (s\<lparr>id_used := (id_used s)(newID \<mapsto> idem_scope c), id_requests := Purging c (id_now s) # id_requests s\<rparr>)"
| purge: "id_requests s = before @ Purging c t # after \<Longrightarrow>
    idem_step s (s\<lparr>id_db := delete_expired t (id_db s), id_requests := before @ Inserting c t # after,
      id_overtaken := interrupted (id_now s) (\<lambda>i. list_ex (\<lambda>r. ir_ID r = i \<and> ir_ExpiresAt r < t) (id_db s)) (id_requests s) @ id_overtaken s\<rparr>)"
| insert_row: "id_requests s = before @ Inserting c t # after \<Longrightarrow> insert_record (id_now s) c (id_db s) = (affected, db) \<Longrightarrow>
    idem_step s (s\<lparr>id_db := db, id_requests := before @ (if affected then Running c t else Reading c t) # after\<rparr>)"
| read: "id_requests s = before @ Reading c t # after \<Longrightarrow>
    idem_step s (s\<lparr>id_requests := before @ (case existing_record c (id_db s) of
        None \<Rightarrow> [] | Some e \<Rightarrow> if is_stale t c e then [Taking c t e] else []) @ after\<rparr>)"
| take_row: "id_requests s = before @ Taking c t e # after \<Longrightarrow> take_over t c e (id_db s) = (affected, db) \<Longrightarrow>
    idem_step s (s\<lparr>id_db := db, id_requests := before @ (if affected then [Running (c\<lparr>ir_ID := ir_ID e\<rparr>) t] else []) @ after,
      id_overtaken := interrupted (id_now s) (\<lambda>i. affected \<and> i = ir_ID e) (id_requests s) @ id_overtaken s\<rparr>)"
| finish: "id_requests s = before @ Running c t # after \<Longrightarrow> completion_of handlerErr status contentType chunks = Complete resp \<Longrightarrow>
    idem_step s (s\<lparr>id_db := finalize_record (id_now s) (ir_ID c) resp (id_db s), id_requests := before @ after,
      id_done := (c, id_now s, resp) # id_done s\<rparr>)"
| fail: "id_requests s = before @ Running c t # after \<Longrightarrow> completion_of handlerErr status contentType chunks = Release \<Longrightarrow>
    idem_step s (s\<lparr>id_db := release_record (ir_ID c) (id_db s), id_requests := before @ after\<rparr>)"
| lose: "id_requests s = before @ Running c t # after \<Longrightarrow> idem_step s (s\<lparr>id_requests := before @ after\<rparr>)"

definition idem_start :: "gotime \<Rightarrow> idem_state" where
  "idem_start t = \<lparr>id_now = t, id_db = [], id_requests = [], id_used = Map.empty, id_done = [], id_overtaken = []\<rparr>"

end
