(* ===== verification/IdempotencyProps.thy ===== *)
theory IdempotencyProps
  imports Idempotency
begin

text \<open>
  Concurrent requests with one key run their handler one after the other, and a success that was recorded is not repeated
  for a day: later requests get its response. Both hold of a key until the record of a handler that is still running is taken over,
  which happens only to a handler that has been running for more than two minutes.
\<close>

subsection \<open>The captured response\<close>

lemma captured_exact:
  "cw_body (captured chunks) = take maxResponseBytes (concat chunks) \<and> (cw_overflow (captured chunks) \<longleftrightarrow> maxResponseBytes < length (concat chunks))"
proof -
  have "cw_body (foldl capture_write w chunks) = take maxResponseBytes (cw_body w @ concat chunks)
      \<and> (cw_overflow (foldl capture_write w chunks) \<longleftrightarrow> cw_overflow w \<or> maxResponseBytes < length (cw_body w @ concat chunks))"
    if "length (cw_body w) \<le> maxResponseBytes" for w
    using that
  proof (induction chunks arbitrary: w)
    case (Cons c cs)
    let ?w = "capture_write w c"
    have w: "cw_body ?w = take maxResponseBytes (cw_body w @ c)" "cw_overflow ?w \<longleftrightarrow> cw_overflow w \<or> maxResponseBytes < length (cw_body w @ c)"
      using Cons.prems by (auto simp: capture_write_def Let_def)
    then have "length (cw_body ?w) \<le> maxResponseBytes" by simp
    from Cons.IH [OF this] have "cw_body (foldl capture_write ?w cs) = take maxResponseBytes (take maxResponseBytes (cw_body w @ c) @ concat cs)"
      "cw_overflow (foldl capture_write ?w cs) \<longleftrightarrow> cw_overflow ?w \<or> maxResponseBytes < length (take maxResponseBytes (cw_body w @ c) @ concat cs)"
      unfolding w(1) by blast+
    moreover have "take n (take n x @ y) = take n (x @ y)" "n < length x \<or> n < length (take n x @ y) \<longleftrightarrow> n < length (x @ y)" for n and x y :: string
      by (simp_all add: min_def)
    ultimately show ?case unfolding w(2) by (simp del: take_append length_append)
  qed simp
  from this [of no_capture] show ?thesis by (simp add: captured_def no_capture_def)
qed

subsection \<open>The invariant\<close>

definition owned :: "idem_state \<Rightarrow> uuid \<Rightarrow> idempotency_record \<Rightarrow> bool" where
  "owned s i c \<longleftrightarrow> id_used s i = Some (idem_scope c)"

definition db_ok :: "idem_state \<Rightarrow> bool" where
  "db_ok s \<longleftrightarrow> distinct (map idem_scope (id_db s)) \<and> (\<forall>r \<in> set (id_db s). owned s (ir_ID r) r)"

fun phase_ok :: "idem_state \<Rightarrow> idem_phase \<Rightarrow> bool" where
  "phase_ok s (Purging c t) = (owned s (ir_ID c) c \<and> ir_ExpiresAt c = t + recordTTL \<and> ir_State c = ''processing'')"
| "phase_ok s (Inserting c t) = (owned s (ir_ID c) c \<and> ir_ExpiresAt c = t + recordTTL \<and> ir_State c = ''processing'')"
| "phase_ok s (Reading c t) = (owned s (ir_ID c) c \<and> ir_ExpiresAt c = t + recordTTL)"
| "phase_ok s (Taking c t e) =
     (owned s (ir_ID e) e \<and> idem_scope e = idem_scope c \<and> ir_UpdatedAt e < t - staleAfter \<and> ir_RequestHash e = ir_RequestHash c \<and> ir_ExpiresAt c = t + recordTTL)"
| "phase_ok s (Running c t) = owned s (ir_ID c) c"

text \<open>The record a handler runs on, and the record of a success.\<close>

definition held_record :: "idem_state \<Rightarrow> idempotency_record \<Rightarrow> gotime \<Rightarrow> idempotency_record \<Rightarrow> bool" where
  "held_record s c t r \<longleftrightarrow>
     r \<in> set (id_db s) \<and> ir_ID r = ir_ID c \<and> idem_scope r = idem_scope c \<and> ir_RequestHash r = ir_RequestHash c \<and> ir_State r = ''processing''
     \<and> t \<le> ir_UpdatedAt r \<and> ir_ExpiresAt r = t + recordTTL"

definition recorded :: "idem_state \<Rightarrow> idempotency_record \<Rightarrow> gotime \<Rightarrow> response \<Rightarrow> bool" where
  "recorded s c t resp \<longleftrightarrow>
     (\<exists>r \<in> set (id_db s). idem_scope r = idem_scope c \<and> ir_RequestHash r = ir_RequestHash c \<and> ir_State r = ''completed'' \<and> ir_Response r = resp
        \<and> ir_ExpiresAt r = t + recordTTL)"

fun runs_on :: "string \<times> string \<times> string \<times> string \<times> string \<Rightarrow> idem_phase \<Rightarrow> bool" where
  "runs_on k (Running c t) = (idem_scope c = k)"
| "runs_on k _ = False"

text \<open>What holds of a key, unless a handler of it was overtaken that had been in progress for more than two minutes.\<close>

definition scope_ok :: "idem_state \<Rightarrow> string \<times> string \<times> string \<times> string \<times> string \<Rightarrow> bool" where
  "scope_ok s k \<longleftrightarrow> length (filter (runs_on k) (id_requests s)) \<le> 1
     \<and> (\<forall>c t. Running c t \<in> set (id_requests s) \<longrightarrow> idem_scope c = k \<longrightarrow> (\<exists>r. held_record s c t r))
     \<and> (\<forall>(c, t, resp) \<in> set (id_done s). idem_scope c = k \<longrightarrow> id_now s \<le> t + recordTTL \<longrightarrow> recorded s c t resp)"

definition overdue :: "idem_state \<Rightarrow> string \<times> string \<times> string \<times> string \<times> string \<Rightarrow> bool" where
  "overdue s k \<longleftrightarrow> (\<exists>since at. (k, since, at) \<in> set (id_overtaken s) \<and> since + staleAfter < at)"

definition idem_inv :: "idem_state \<Rightarrow> bool" where
  "idem_inv s \<longleftrightarrow> db_ok s \<and> (\<forall>p \<in> set (id_requests s). phase_ok s p \<and> phase_since p \<le> id_now s) \<and> (\<forall>k. overdue s k \<or> scope_ok s k)"

lemma times: "staleAfter = 120000000000" "recordTTL = 86400000000000"
  by (simp_all add: staleAfter_def recordTTL_def)

lemma same_scope_same_record: "db_ok s \<Longrightarrow> r \<in> set (id_db s) \<Longrightarrow> r' \<in> set (id_db s) \<Longrightarrow> idem_scope r = idem_scope r' \<Longrightarrow> r = r'"
  by (auto simp: db_ok_def distinct_map dest: inj_onD)

lemma record_with_id: "db_ok s \<Longrightarrow> r \<in> set (id_db s) \<Longrightarrow> owned s (ir_ID r) c \<Longrightarrow> idem_scope r = idem_scope c"
  by (auto simp: db_ok_def owned_def)

lemma held_while_running:
  assumes "scope_ok s k" "Running c t \<in> set (id_requests s)" "idem_scope c = k"
  obtains r where "held_record s c t r"
  using assms unfolding scope_ok_def by blast

lemma runs_on_Running: "runs_on k p \<longleftrightarrow> (\<exists>c t. p = Running c t \<and> idem_scope c = k)"
  by (cases p) auto

text \<open>A step that replaces one request and changes the records.\<close>

lemma idem_inv_replaced:
  assumes inv: "idem_inv s" and old: "id_requests s = before @ p # after"
    and new: "id_requests s' = before @ new @ after" "id_now s' = id_now s" "id_used s' = id_used s"
      "set (id_overtaken s) \<subseteq> set (id_overtaken s')"
    and db: "db_ok s'" and fresh: "\<forall>q \<in> set new. phase_ok s' q \<and> phase_since q \<le> id_now s"
    and scopes: "\<And>k. \<not> overdue s' k \<Longrightarrow> scope_ok s k \<Longrightarrow> scope_ok s' k"
  shows "idem_inv s'"
proof -
  have "phase_ok s' q = phase_ok s q" for q using new(3) by (cases q) (simp_all add: owned_def)
  with inv old new(1,2) fresh have "\<forall>q \<in> set (id_requests s'). phase_ok s' q \<and> phase_since q \<le> id_now s'" by (auto simp: idem_inv_def)
  moreover have "overdue s k \<Longrightarrow> overdue s' k" for k using new(4) by (auto simp: overdue_def)
  ultimately show ?thesis using inv db scopes unfolding idem_inv_def by blast
qed

lemma scope_ok_replaced:
  assumes ok: "scope_ok s k" and old: "id_requests s = before @ p # after"
    and new: "id_requests s' = before @ new @ after" "id_now s' = id_now s"
    and one: "length (filter (runs_on k) new) \<le> length (filter (runs_on k) [p])
      \<or> length (filter (runs_on k) new) \<le> 1 \<and> (\<forall>q \<in> set before \<union> set after. \<not> runs_on k q)"
    and fresh: "\<And>c t. Running c t \<in> set new \<Longrightarrow> idem_scope c = k \<Longrightarrow> \<exists>r. held_record s' c t r"
    and others: "\<And>c t r. Running c t \<in> set before \<union> set after \<Longrightarrow> idem_scope c = k \<Longrightarrow> held_record s c t r \<Longrightarrow> \<exists>r'. held_record s' c t r'"
    and log: "id_done s' = d @ id_done s" "\<And>c t resp. (c, t, resp) \<in> set d \<Longrightarrow> idem_scope c = k \<Longrightarrow> recorded s' c t resp"
      "\<And>c t resp. idem_scope c = k \<Longrightarrow> recorded s c t resp \<Longrightarrow> id_now s \<le> t + recordTTL \<Longrightarrow> recorded s' c t resp"
  shows "scope_ok s' k"
proof -
  have "length (filter (runs_on k) (id_requests s')) \<le> 1"
    using one
  proof
    assume "length (filter (runs_on k) new) \<le> 1 \<and> (\<forall>q \<in> set before \<union> set after. \<not> runs_on k q)"
    then show ?thesis by (simp add: new(1) filter_empty_conv)
  next
    assume "length (filter (runs_on k) new) \<le> length (filter (runs_on k) [p])"
    moreover have "length (filter (runs_on k) (id_requests s)) \<le> 1" using ok by (simp add: scope_ok_def)
    ultimately show ?thesis unfolding old new(1) by (simp split: if_splits)
  qed
  moreover have "\<exists>r. held_record s' c t r" if "Running c t \<in> set (id_requests s')" "idem_scope c = k" for c t
  proof (cases "Running c t \<in> set new")
    case False
    with that(1) new(1) have "Running c t \<in> set before \<union> set after" by auto
    moreover from this held_while_running [OF ok _ that(2), of t] old obtain r where "held_record s c t r" by auto
    ultimately show ?thesis using others that(2) by blast
  qed (use fresh that in blast)
  moreover have "recorded s' c t resp"
    if "(c, t, resp) \<in> set (id_done s')" "idem_scope c = k" "id_now s' \<le> t + recordTTL" for c t resp
  proof (cases "(c, t, resp) \<in> set d")
    case False
    with that log(1) ok new(2) have "recorded s c t resp" by (fastforce simp: scope_ok_def)
    with log(3) that new(2) show ?thesis by simp
  qed (use log(2) that in blast)
  ultimately show ?thesis unfolding scope_ok_def by blast
qed

lemma db_ok_filter: "db_ok s \<Longrightarrow> id_db s' = filter P (id_db s) \<Longrightarrow> id_used s' = id_used s \<Longrightarrow> db_ok s'"
  by (simp add: db_ok_def owned_def distinct_map_filter)

lemma db_ok_map:
  assumes "db_ok s" "id_db s' = map f (id_db s)" "id_used s' = id_used s" "\<And>r. idem_scope (f r) = idem_scope r \<and> ir_ID (f r) = ir_ID r"
  shows "db_ok s'"
proof -
  have "map idem_scope (map f rs) = map idem_scope rs" for rs using assms(4) by simp
  with assms show ?thesis by (simp add: db_ok_def owned_def del: map_map)
qed

lemma idem_inv_db: "idem_inv s \<Longrightarrow> db_ok s"
  by (simp add: idem_inv_def)

lemma idem_inv_request: "idem_inv s \<Longrightarrow> p \<in> set (id_requests s) \<Longrightarrow> phase_ok s p \<and> phase_since p \<le> id_now s"
  by (simp add: idem_inv_def)

text \<open>A handler whose record is taken from it is logged.\<close>

lemma interrupted_overdue:
  assumes "Running c t \<in> set (id_requests s)" "gone (ir_ID c)" "t + staleAfter < id_now s"
    and "id_overtaken s' = interrupted (id_now s) gone (id_requests s) @ id_overtaken s"
  shows "overdue s' (idem_scope c)"
proof -
  have "(idem_scope c, t, id_now s) \<in> set (interrupted (id_now s) gone (id_requests s))"
    unfolding interrupted_def using assms(1,2) by (auto intro!: bexI [of _ "Running c t"])
  with assms(3,4) show ?thesis by (auto simp: overdue_def)
qed

text \<open>The one handler of a key.\<close>

lemma alone:
  assumes ok: "scope_ok s (idem_scope c)" and p: "id_requests s = before @ Running c t # after"
  shows "\<exists>r. held_record s c t r" and "q \<in> set before \<union> set after \<Longrightarrow> \<not> runs_on (idem_scope c) q"
proof -
  show "\<exists>r. held_record s c t r" using held_while_running [OF ok, of c t] p by auto
  have "length (filter (runs_on (idem_scope c)) before) + length (filter (runs_on (idem_scope c)) after) = 0"
    using ok p by (simp add: scope_ok_def)
  then show "q \<in> set before \<union> set after \<Longrightarrow> \<not> runs_on (idem_scope c) q" by (auto simp: filter_empty_conv)
qed

text \<open>A completed record is not the one a handler runs on.\<close>

lemma no_success_yet:
  assumes "db_ok s" "held_record s c t r" "recorded s c' t' resp" "idem_scope c' = idem_scope c"
  shows False
proof -
  from assms(3) obtain r' where r': "r' \<in> set (id_db s)" "idem_scope r' = idem_scope c'" "ir_State r' = ''completed''" by (auto simp: recorded_def)
  with assms(2,4) have "r' = r" by (intro same_scope_same_record [OF assms(1)]) (auto simp: held_record_def)
  with assms(2) r'(3) show False by (simp add: held_record_def)
qed

subsection \<open>Every step keeps it\<close>

lemma inv_tick:
  assumes "idem_inv s" "id_now s \<le> t"
  shows "idem_inv (s\<lparr>id_now := t\<rparr>)"
proof -
  have same: "held_record (s\<lparr>id_now := t\<rparr>) = held_record s" "recorded (s\<lparr>id_now := t\<rparr>) = recorded s" "overdue (s\<lparr>id_now := t\<rparr>) = overdue s"
    by (simp_all add: fun_eq_iff held_record_def recorded_def overdue_def)
  have "phase_ok (s\<lparr>id_now := t\<rparr>) p = phase_ok s p" for p by (cases p) (simp_all add: owned_def)
  moreover have "scope_ok s k \<Longrightarrow> scope_ok (s\<lparr>id_now := t\<rparr>) k" for k using assms(2) by (fastforce simp: scope_ok_def same)
  ultimately show ?thesis using assms by (fastforce simp: idem_inv_def db_ok_def owned_def same)
qed

lemma inv_arrive:
  assumes inv: "idem_inv s" and c: "CriticalMutations m (id_now s) newID = Reserving c" and new: "newID \<notin> dom (id_used s)"
  shows "idem_inv (s\<lparr>id_used := (id_used s)(newID \<mapsto> idem_scope c), id_requests := Purging c (id_now s) # id_requests s\<rparr>)" (is "idem_inv ?s")
proof -
  have cs: "c = candidate_record m (id_now s) newID" using c by (simp add: CriticalMutations_def split: if_splits)
  have owned: "owned s i x \<Longrightarrow> owned ?s i x" for i x using new by (auto simp: owned_def)
  have same: "held_record ?s = held_record s" "recorded ?s = recorded s" "overdue ?s = overdue s"
    by (simp_all add: fun_eq_iff held_record_def recorded_def overdue_def)
  have "phase_ok s p \<Longrightarrow> phase_ok ?s p" for p using owned by (cases p) simp_all
  moreover have "phase_ok ?s (Purging c (id_now s))" by (simp add: owned_def cs candidate_record_def)
  moreover have "scope_ok s k \<Longrightarrow> scope_ok ?s k" for k by (simp add: scope_ok_def same)
  moreover have "db_ok ?s" using inv owned by (auto simp: idem_inv_def db_ok_def)
  moreover have "\<forall>p \<in> set (id_requests s). phase_ok s p \<and> phase_since p \<le> id_now s" using inv by (simp add: idem_inv_def)
  ultimately have "\<forall>p \<in> set (id_requests ?s). phase_ok ?s p \<and> phase_since p \<le> id_now ?s" by simp
  moreover have "\<forall>k. overdue s k \<or> scope_ok ?s k"
    using inv \<open>\<And>k. scope_ok s k \<Longrightarrow> scope_ok ?s k\<close> unfolding idem_inv_def by blast
  ultimately show ?thesis using \<open>db_ok ?s\<close> unfolding idem_inv_def same by blast
qed

lemma inv_purge:
  assumes inv: "idem_inv s" and p: "id_requests s = before @ Purging c t # after"
  shows "idem_inv (s\<lparr>id_db := delete_expired t (id_db s), id_requests := before @ Inserting c t # after,
      id_overtaken := interrupted (id_now s) (\<lambda>i. list_ex (\<lambda>r. ir_ID r = i \<and> ir_ExpiresAt r < t) (id_db s)) (id_requests s) @ id_overtaken s\<rparr>)" (is "idem_inv ?s")
proof (rule idem_inv_replaced [OF inv p, of _ "[Inserting c t]"])
  have c: "phase_ok s (Purging c t)" "t \<le> id_now s" using idem_inv_request [OF inv, of "Purging c t"] p by simp_all
  then show "\<forall>q \<in> set [Inserting c t]. phase_ok ?s q \<and> phase_since q \<le> id_now s" by (simp add: owned_def)
  show "db_ok ?s" by (rule db_ok_filter [OF idem_inv_db [OF inv]]) (simp_all add: delete_expired_def)
  fix k assume calm: "\<not> overdue ?s k" and ok: "scope_ok s k"
  show "scope_ok ?s k"
  proof (rule scope_ok_replaced [OF ok p, of _ "[Inserting c t]" "[]"])
    fix c' t' r assume run: "Running c' t' \<in> set before \<union> set after" "idem_scope c' = k" and held: "held_record s c' t' r"
    have "\<not> ir_ExpiresAt r < t"
    proof
      assume gone: "ir_ExpiresAt r < t"
      have "overdue ?s (idem_scope c')"
        by (rule interrupted_overdue [where gone = "\<lambda>i. list_ex (\<lambda>r. ir_ID r = i \<and> ir_ExpiresAt r < t) (id_db s)" and s = s])
          (use run(1) p held gone c(2) in \<open>auto simp: held_record_def list_ex_iff times\<close>)
      with calm run(2) show False by simp
    qed
    with held show "\<exists>r'. held_record ?s c' t' r'" by (intro exI [of _ r]) (simp add: held_record_def delete_expired_def)
  next
    show "recorded ?s c' t' resp" if "recorded s c' t' resp" "id_now s \<le> t' + recordTTL" for c' t' resp
      using that c(2) by (force simp: recorded_def delete_expired_def)
  qed simp_all
qed auto

lemma inv_insert:
  assumes inv: "idem_inv s" and p: "id_requests s = before @ Inserting c t # after" and ins: "insert_record (id_now s) c (id_db s) = (affected, db)"
  shows "idem_inv (s\<lparr>id_db := db, id_requests := before @ (if affected then Running c t else Reading c t) # after\<rparr>)" (is "idem_inv ?s")
proof (rule idem_inv_replaced [OF inv p, of _ "[if affected then Running c t else Reading c t]"])
  let ?r = "c\<lparr>ir_UpdatedAt := id_now s\<rparr>" and ?new = "[if affected then Running c t else Reading c t]"
  have c: "phase_ok s (Inserting c t)" "t \<le> id_now s" using idem_inv_request [OF inv, of "Inserting c t"] p by simp_all
  have db: "db = id_db s \<and> \<not> affected \<or> db = id_db s @ [?r] \<and> affected \<and> (\<forall>r \<in> set (id_db s). idem_scope r \<noteq> idem_scope c)"
    using ins by (auto simp: insert_record_def list_ex_iff split: if_splits)
  have scope: "idem_scope ?r = idem_scope c" by (simp add: idem_scope_def)
  show "\<forall>q \<in> set ?new. phase_ok ?s q \<and> phase_since q \<le> id_now s" using c by (auto simp: owned_def)
  show "db_ok ?s"
  proof (cases affected)
    case True
    with db have "db = id_db s @ [?r]" "idem_scope c \<notin> idem_scope ` set (id_db s)" by auto
    then show ?thesis using inv c scope by (simp add: idem_inv_def db_ok_def owned_def)
  qed (use inv db in \<open>simp add: idem_inv_def db_ok_def owned_def\<close>)
  fix k assume ok: "scope_ok s k"
  show "scope_ok ?s k"
  proof (rule scope_ok_replaced [OF ok p, of _ ?new "[]"])
    have "\<not> runs_on k q" if "q \<in> set before \<union> set after" "affected" "idem_scope c = k" for q
    proof
      assume "runs_on k q"
      then obtain c' t' where q: "q = Running c' t'" "idem_scope c' = k" by (auto simp: runs_on_Running)
      with held_while_running [OF ok, of c' t'] p that(1) obtain r where "held_record s c' t' r" by auto
      with db that q show False by (auto simp: held_record_def)
    qed
    then show "length (filter (runs_on k) ?new) \<le> length (filter (runs_on k) [Inserting c t])
      \<or> length (filter (runs_on k) ?new) \<le> 1 \<and> (\<forall>q \<in> set before \<union> set after. \<not> runs_on k q)"
      by (cases "affected \<and> idem_scope c = k") auto
    show "\<exists>r. held_record ?s c' t' r" if "Running c' t' \<in> set ?new" for c' t'
      using that c db scope by (intro exI [of _ ?r]) (auto simp: held_record_def split: if_splits)
    show "\<exists>r'. held_record ?s c' t' r'" if "held_record s c' t' r" for c' t' r
      using that db by (intro exI [of _ r]) (auto simp: held_record_def)
    show "recorded ?s c' t' resp" if "recorded s c' t' resp" for c' t' resp
      using that db by (auto simp: recorded_def)
  qed simp_all
qed simp_all

lemma inv_read:
  assumes inv: "idem_inv s" and p: "id_requests s = before @ Reading c t # after"
  shows "idem_inv (s\<lparr>id_requests := before @ (case existing_record c (id_db s) of
        None \<Rightarrow> [] | Some e \<Rightarrow> if is_stale t c e then [Taking c t e] else []) @ after\<rparr>)" (is "idem_inv (s\<lparr>id_requests := before @ ?new @ after\<rparr>)")
proof (rule idem_inv_replaced [OF inv p, of _ ?new])
  let ?s = "s\<lparr>id_requests := before @ ?new @ after\<rparr>"
  have c: "phase_ok s (Reading c t)" "t \<le> id_now s" using idem_inv_request [OF inv, of "Reading c t"] p by simp_all
  show "\<forall>q \<in> set ?new. phase_ok ?s q \<and> phase_since q \<le> id_now s"
  proof
    fix q assume "q \<in> set ?new"
    then obtain e where e: "existing_record c (id_db s) = Some e" "is_stale t c e" "q = Taking c t e" by (cases "existing_record c (id_db s)") (auto split: if_splits)
    then have "e \<in> set (id_db s)" "idem_scope e = idem_scope c" by (auto simp: existing_record_def find_Some_iff)
    moreover have "db_ok s" using inv by (simp add: idem_inv_def)
    ultimately show "phase_ok ?s q \<and> phase_since q \<le> id_now s" using c e(2,3) by (auto simp: db_ok_def owned_def is_stale_def)
  qed
  show "db_ok ?s" using idem_inv_db [OF inv] by (simp add: db_ok_def owned_def)
  fix k assume ok: "scope_ok s k"
  have quiet: "q \<in> set ?new \<Longrightarrow> \<not> runs_on k q" "Running c' t' \<notin> set ?new" for q c' t'
    by (auto split: option.splits if_splits)
  show "scope_ok ?s k"
  proof (rule scope_ok_replaced [OF ok p, of _ ?new "[]"])
    have "filter (runs_on k) ?new = []" using quiet(1) unfolding filter_empty_conv by blast
    then show "length (filter (runs_on k) ?new) \<le> length (filter (runs_on k) [Reading c t])
      \<or> length (filter (runs_on k) ?new) \<le> 1 \<and> (\<forall>q \<in> set before \<union> set after. \<not> runs_on k q)" by (metis le0 list.size(3))
    show "\<exists>r. held_record ?s c' t' r" if "Running c' t' \<in> set ?new" for c' t' using that quiet(2) by blast
    show "\<exists>r'. held_record ?s c' t' r'" if "held_record s c' t' r" for c' t' r
      using that by (intro exI [of _ r]) (simp add: held_record_def)
  qed (simp_all add: recorded_def)
qed simp_all

lemma inv_take:
  assumes inv: "idem_inv s" and p: "id_requests s = before @ Taking c t e # after" and take: "take_over t c e (id_db s) = (affected, db)"
  shows "idem_inv (s\<lparr>id_db := db, id_requests := before @ (if affected then [Running (c\<lparr>ir_ID := ir_ID e\<rparr>) t] else []) @ after,
      id_overtaken := interrupted (id_now s) (\<lambda>i. affected \<and> i = ir_ID e) (id_requests s) @ id_overtaken s\<rparr>)"
    (is "idem_inv ?s")
proof (rule idem_inv_replaced [OF inv p, of _ "if affected then [Running (c\<lparr>ir_ID := ir_ID e\<rparr>) t] else []"])
  let ?c = "c\<lparr>ir_ID := ir_ID e\<rparr>"
  let ?new = "if affected then [Running ?c t] else []"
  let ?m = "\<lambda>r. ir_ID r = ir_ID e \<and> ir_State r = ''processing'' \<and> ir_UpdatedAt r = ir_UpdatedAt e"
  let ?f = "\<lambda>r. if ?m r then r\<lparr>ir_RequestHash := ir_RequestHash c, ir_ExpiresAt := ir_ExpiresAt c, ir_UpdatedAt := t\<rparr> else r"
  have c: "phase_ok s (Taking c t e)" "t \<le> id_now s" using idem_inv_request [OF inv, of "Taking c t e"] p by simp_all
  have ok: "db_ok s" using inv by (simp add: idem_inv_def)
  have db: "db = map ?f (id_db s)" "affected \<longleftrightarrow> (\<exists>r \<in> set (id_db s). ?m r)" using take by (auto simp: take_over_def Let_def list_ex_iff)
  have f: "idem_scope (?f r) = idem_scope r \<and> ir_ID (?f r) = ir_ID r" for r by (simp add: idem_scope_def)
  have scope: "idem_scope ?c = idem_scope c" "idem_scope e = idem_scope c" using c by (simp_all add: idem_scope_def)
  show "\<forall>q \<in> set ?new. phase_ok ?s q \<and> phase_since q \<le> id_now s" using c scope by (auto simp: owned_def)
  show "db_ok ?s" by (rule db_ok_map [OF ok, of _ ?f]) (simp_all only: db(1) f, simp_all)
  fix k assume calm: "\<not> overdue ?s k" and sk: "scope_ok s k"
  have old: "\<not> ?m r" if "Running c' t' \<in> set before \<union> set after" "idem_scope c' = k" "held_record s c' t' r" for c' t' r
  proof
    assume m: "?m r"
    with db(2) that(3) have "affected" by (auto simp: held_record_def)
    with m that p c have "overdue ?s (idem_scope c')"
      by (intro interrupted_overdue [where gone = "\<lambda>i. affected \<and> i = ir_ID e" and s = s and t = t']) (auto simp: held_record_def)
    with calm that(2) show False by simp
  qed
  show "scope_ok ?s k"
  proof (rule scope_ok_replaced [OF sk p, of _ ?new "[]"])
    have "\<not> runs_on k q" if aff: "affected" "idem_scope ?c = k" and q: "q \<in> set before \<union> set after" for q
    proof
      assume "runs_on k q"
      then obtain c' t' where run: "q = Running c' t'" "idem_scope c' = k" by (auto simp: runs_on_Running)
      with held_while_running [OF sk, of c' t'] p q obtain r' where r': "held_record s c' t' r'" by auto
      from aff(1) db(2) obtain r where r: "r \<in> set (id_db s)" "?m r" by blast
      have "owned s (ir_ID r) e" using c(1) r(2) by simp
      from record_with_id [OF ok r(1) this] have "idem_scope r' = idem_scope r" using r' run aff(2) scope by (simp add: held_record_def)
      then have "r' = r" using r' r(1) by (intro same_scope_same_record [OF ok]) (simp_all add: held_record_def)
      with old [OF q [unfolded run(1)] run(2) r'] r(2) show False by blast
    qed
    then show "length (filter (runs_on k) ?new) \<le> length (filter (runs_on k) [Taking c t e])
      \<or> length (filter (runs_on k) ?new) \<le> 1 \<and> (\<forall>q \<in> set before \<union> set after. \<not> runs_on k q)"
      by (cases "affected \<and> idem_scope ?c = k") auto
  next
    fix c' t' assume "Running c' t' \<in> set ?new"
    then have new: "affected" "c' = ?c" "t' = t" by (simp_all split: if_splits)
    from new(1) db(2) obtain r where r: "r \<in> set (id_db s)" "?m r" by blast
    have "owned s (ir_ID r) e" using c(1) r(2) by simp
    from record_with_id [OF ok r(1) this] have "idem_scope (?f r) = idem_scope ?c" using f scope by metis
    moreover have "?f r \<in> set db" unfolding db(1) set_map using r(1) by (rule imageI)
    ultimately show "\<exists>r. held_record ?s c' t' r" using r c new(2,3) by (intro exI [of _ "?f r"]) (simp add: held_record_def)
  next
    fix c' t' r assume run: "Running c' t' \<in> set before \<union> set after" "idem_scope c' = k" and held: "held_record s c' t' r"
    have "?f r = r" using old [OF run held] by (rule if_not_P)
    moreover have "?f r \<in> set db" unfolding db(1) set_map using held by (intro imageI) (simp add: held_record_def)
    ultimately show "\<exists>r'. held_record ?s c' t' r'" using held by (intro exI [of _ r]) (simp add: held_record_def)
  next
    show "recorded ?s c' t' resp" if "recorded s c' t' resp" for c' t' resp
      using that by (fastforce simp: recorded_def db(1))
  qed simp_all
qed auto

text \<open>A handler ends: the records of other keys stay.\<close>

lemma inv_ends:
  assumes inv: "idem_inv s" and p: "id_requests s = before @ Running c t # after"
    and s': "id_requests s' = before @ after" "id_now s' = id_now s" "id_used s' = id_used s" "id_overtaken s' = id_overtaken s"
      "id_done s' = d @ id_done s" "db_ok s'"
    and kept: "\<And>r. r \<in> set (id_db s) \<Longrightarrow> idem_scope r \<noteq> idem_scope c \<Longrightarrow> r \<in> set (id_db s')"
    and log: "\<And>c' t' resp r. (c', t', resp) \<in> set d \<Longrightarrow> idem_scope c' = idem_scope c \<and> (held_record s c t r \<longrightarrow> recorded s' c' t' resp)"
  shows "idem_inv s'"
proof (rule idem_inv_replaced [OF inv p, of _ "[]"])
  fix k assume ok: "scope_ok s k"
  show "scope_ok s' k"
  proof (cases "idem_scope c = k")
    case True
    with alone [of s c] ok p obtain r where r: "held_record s c t r" "\<forall>q \<in> set before \<union> set after. \<not> runs_on k q" by blast
    show ?thesis
    proof (rule scope_ok_replaced [OF ok p, of _ "[]" d])
      show "\<exists>r'. held_record s' c' t' r'" if "Running c' t' \<in> set before \<union> set after" "idem_scope c' = k" for c' t'
      proof -
        from that(1) r(2) have "\<not> runs_on k (Running c' t')" by blast
        with that(2) show ?thesis by simp
      qed
      show "recorded s' c' t' resp" if "idem_scope c' = k" "recorded s c' t' resp" for c' t' resp
        using no_success_yet [OF idem_inv_db [OF inv] r(1) that(2)] that(1) True by simp
    qed (use s' log r(1) in auto)
  next
    case False
    show ?thesis
    proof (rule scope_ok_replaced [OF ok p, of _ "[]" d])
      show "\<exists>r'. held_record s' c' t' r'" if "idem_scope c' = k" "held_record s c' t' r" for c' t' r
        using that kept [of r] False by (intro exI [of _ r]) (auto simp: held_record_def)
      show "recorded s' c' t' resp" if "idem_scope c' = k" "recorded s c' t' resp" for c' t' resp
        using that kept False by (force simp: recorded_def)
    qed (use s' log False in auto)
  qed
qed (use s' in simp_all)

lemma record_of_handler:
  assumes "idem_inv s" "id_requests s = before @ Running c t # after" "r \<in> set (id_db s)" "ir_ID r = ir_ID c"
  shows "idem_scope r = idem_scope c"
  using record_with_id [OF idem_inv_db [OF assms(1)] assms(3), of c] idem_inv_request [OF assms(1), of "Running c t"] assms(2,4) by simp

lemma inv_finish:
  assumes inv: "idem_inv s" and p: "id_requests s = before @ Running c t # after"
  shows "idem_inv (s\<lparr>id_db := finalize_record (id_now s) (ir_ID c) resp (id_db s), id_requests := before @ after,
      id_done := (c, id_now s, resp) # id_done s\<rparr>)" (is "idem_inv ?s")
proof (rule inv_ends [OF inv p, of _ "[(c, id_now s, resp)]"])
  let ?f = "\<lambda>r. if ir_ID r = ir_ID c then r\<lparr>ir_State := ''completed'', ir_Response := resp, ir_UpdatedAt := id_now s, ir_ExpiresAt := id_now s + recordTTL\<rparr> else r"
  have db: "id_db ?s = map ?f (id_db s)" by (simp add: finalize_record_def)
  have mem: "x \<in> set (id_db s) \<Longrightarrow> ?f x \<in> set (id_db ?s)" for x unfolding db set_map by (rule imageI)
  show "db_ok ?s" by (rule db_ok_map [OF idem_inv_db [OF inv] db]) (simp_all add: idem_scope_def)
  show "r \<in> set (id_db ?s)" if "r \<in> set (id_db s)" "idem_scope r \<noteq> idem_scope c" for r
    using mem [OF that(1)] record_of_handler [OF inv p that(1)] that(2) by (auto split: if_splits)
  show "idem_scope c' = idem_scope c \<and> (held_record s c t r \<longrightarrow> recorded ?s c' t' resp')" if "(c', t', resp') \<in> set [(c, id_now s, resp)]" for c' t' resp' r
    using that mem [of r] by (auto simp: recorded_def held_record_def idem_scope_def intro!: bexI [of _ "?f r"])
qed simp_all

lemma inv_fail:
  assumes inv: "idem_inv s" and p: "id_requests s = before @ Running c t # after"
  shows "idem_inv (s\<lparr>id_db := release_record (ir_ID c) (id_db s), id_requests := before @ after\<rparr>)" (is "idem_inv ?s")
proof (rule inv_ends [OF inv p, of _ "[]"])
  show "db_ok ?s" by (rule db_ok_filter [OF idem_inv_db [OF inv]]) (simp_all add: release_record_def)
  show "r \<in> set (id_db ?s)" if "r \<in> set (id_db s)" "idem_scope r \<noteq> idem_scope c" for r
    using that record_of_handler [OF inv p that(1)] by (auto simp: release_record_def)
qed simp_all

lemma inv_lose:
  assumes inv: "idem_inv s" and p: "id_requests s = before @ Running c t # after"
  shows "idem_inv (s\<lparr>id_requests := before @ after\<rparr>)" (is "idem_inv ?s")
proof (rule idem_inv_replaced [OF inv p, of _ "[]"])
  show "db_ok ?s" using idem_inv_db [OF inv] by (simp add: db_ok_def owned_def)
  show "scope_ok ?s k" if "scope_ok s k" for k
    by (rule scope_ok_replaced [OF that p, of _ "[]" "[]"]) (auto simp: held_record_def recorded_def)
qed simp_all

lemma idem_inv_step: "idem_step s s' \<Longrightarrow> idem_inv s \<Longrightarrow> idem_inv s'"
  by (induction rule: idem_step.induct)
    (blast intro: inv_tick inv_arrive inv_purge inv_insert inv_read inv_take inv_finish inv_fail inv_lose)+

interpretation idempotent: invariant_system idem_step idem_inv
  by unfold_locales (rule idem_inv_step)

lemma idem_start_inv: "idem_inv (idem_start t)"
  by (simp add: idem_inv_def idem_start_def db_ok_def scope_ok_def)

text \<open>
  C10. A recorded success is not repeated. In any interleaving of requests, however long their handlers take: either a handler
  for the key (of one caller, method and route) was still running when another request took its record over, and then it had
  been in progress for more than two minutes; or at most one handler runs for the key, and for a day after a success was recorded
  none does: a request with the same query and body gets the recorded response, any other one is refused. The log
  of overtaken handlers is part of the step relation and has no effect on the program.
\<close>

theorem recorded_success_is_not_repeated:
  assumes "idem_step\<^sup>*\<^sup>* (idem_start t0) s"
  shows "(\<exists>since at. (k, since, at) \<in> set (id_overtaken s) \<and> since + staleAfter < at)
     \<or> length (filter (runs_on k) (id_requests s)) \<le> 1
       \<and> (\<forall>(c, t, resp) \<in> set (id_done s). idem_scope c = k \<longrightarrow> id_now s \<le> t + recordTTL \<longrightarrow>
            (\<forall>p \<in> set (id_requests s). \<not> runs_on k p)
            \<and> (\<forall>c'. idem_scope c' = k \<longrightarrow>
                 (\<exists>r. existing_record c' (id_db s) = Some r
                    \<and> answer_existing c' r = (if ir_RequestHash c' = ir_RequestHash c then Replayed resp else KeyReused))))"
proof (cases "overdue s k")
  case False
  have inv: "idem_inv s" using assms idem_start_inv by (rule idempotent.inv_run)
  with False have ok: "scope_ok s k" unfolding idem_inv_def by blast
  have "(\<forall>p \<in> set (id_requests s). \<not> runs_on k p) \<and> (\<exists>r. existing_record c' (id_db s) = Some r
           \<and> answer_existing c' r = (if ir_RequestHash c' = ir_RequestHash c then Replayed resp else KeyReused))"
    if d: "(c, t, resp) \<in> set (id_done s)" "idem_scope c = k" "id_now s \<le> t + recordTTL" and c': "idem_scope c' = k" for c c' t resp
  proof -
    have rec: "recorded s c t resp" using ok d by (fastforce simp: scope_ok_def)
    then obtain r where r: "r \<in> set (id_db s)" "idem_scope r = idem_scope c" "ir_RequestHash r = ir_RequestHash c" "ir_State r = ''completed''"
      "ir_Response r = resp" by (auto simp: recorded_def)
    have "\<not> runs_on k p" if "p \<in> set (id_requests s)" for p
    proof
      assume "runs_on k p"
      then obtain c0 t0 where p: "p = Running c0 t0" "idem_scope c0 = k" by (auto simp: runs_on_Running)
      with held_while_running [OF ok, of c0 t0] that obtain r0 where "held_record s c0 t0 r0" by auto
      from no_success_yet [OF idem_inv_db [OF inv] this rec] d(2) p(2) show False by simp
    qed
    moreover from r(1,2) d(2) c' obtain r' where e: "existing_record c' (id_db s) = Some r'" by (fastforce simp: existing_record_def find_None_iff)
    then have "r' \<in> set (id_db s)" "idem_scope r' = idem_scope c'" by (auto simp: existing_record_def find_Some_iff)
    with r d(2) c' same_scope_same_record [OF idem_inv_db [OF inv], of r' r] have "r' = r" by simp
    ultimately show ?thesis using e r by (auto simp: answer_existing_def)
  qed
  moreover have "length (filter (runs_on k) (id_requests s)) \<le> 1" using ok by (simp add: scope_ok_def)
  ultimately show ?thesis by blast
qed (simp add: overdue_def)

end
