(* ===== verification/IdempotencyRun.thy ===== *)
theory IdempotencyRun
  imports IdempotencyProps
begin

text \<open>
  A request whose statements are not interleaved with those of others is \<open>reserve\<close>. A run in which a success is recorded, and
  the runs in which the handler of a request is still running when the request is sent again.
\<close>

lemma overtaken_first: "s\<lparr>id_db := db, id_requests := ps, id_overtaken := ov\<rparr> = s\<lparr>id_overtaken := ov, id_db := db, id_requests := ps\<rparr>"
  by simp

lemma reserve_runs:
  assumes p: "id_requests s = before @ Purging c (id_now s) # after" and r: "reserve (id_now s) c (id_db s) = (result, db)"
  shows "\<exists>ov. idem_step\<^sup>*\<^sup>* s (s\<lparr>id_db := db, id_requests := before @
      (case result of Some (Inr i) \<Rightarrow> [Running (c\<lparr>ir_ID := i\<rparr>) (id_now s)] | _ \<Rightarrow> []) @ after, id_overtaken := ov @ id_overtaken s\<rparr>)
    \<and> (before = [] \<and> after = [] \<longrightarrow> ov = [])" (is "\<exists>ov. idem_step\<^sup>*\<^sup>* s (?final result ov) \<and> ?quiet ov")
proof -
  let ?now = "id_now s" and ?purged = "delete_expired (id_now s) (id_db s)"
  let ?gone = "\<lambda>i. list_ex (\<lambda>r. ir_ID r = i \<and> ir_ExpiresAt r < ?now) (id_db s)"
  define ov1 where "ov1 = interrupted ?now ?gone (id_requests s)"
  have quiet1: "?quiet ov1" using p by (simp add: ov1_def interrupted_def)
  let ?s1 = "s\<lparr>id_db := ?purged, id_requests := before @ Inserting c ?now # after, id_overtaken := ov1 @ id_overtaken s\<rparr>"
  have s1: "idem_step\<^sup>*\<^sup>* s ?s1" unfolding ov1_def by (rule r_into_rtranclp) (rule purge [OF p])
  obtain affected db1 where ins: "insert_record ?now c ?purged = (affected, db1)" by (cases "insert_record ?now c ?purged")
  have s2: "idem_step ?s1 (s\<lparr>id_db := db1, id_requests := before @ (if affected then Running c ?now else Reading c ?now) # after,
      id_overtaken := ov1 @ id_overtaken s\<rparr>)"
    using insert_row [of ?s1 before c ?now after affected db1] ins by (cases affected) (simp_all only: overtaken_first, simp_all)
  note run = rtranclp.rtrancl_into_rtrancl [OF s1 s2]
  show ?thesis
  proof (cases affected)
    case True
    with r ins have "result = Some (Inr (ir_ID c))" "db = db1" by (simp_all add: reserve_def)
    with run True quiet1 show ?thesis by (intro exI [of _ ov1]) simp
  next
    case False
    let ?s2 = "s\<lparr>id_db := db1, id_requests := before @ Reading c ?now # after, id_overtaken := ov1 @ id_overtaken s\<rparr>"
    have s2: "idem_step\<^sup>*\<^sup>* s ?s2" using run False by simp
    have s3: "idem_step ?s2 (s\<lparr>id_db := db1, id_requests := before @ (case existing_record c db1 of
        None \<Rightarrow> [] | Some e \<Rightarrow> if is_stale ?now c e then [Taking c ?now e] else []) @ after, id_overtaken := ov1 @ id_overtaken s\<rparr>)"
      using read [of ?s2 before c ?now after] by (simp only: overtaken_first) simp
    show ?thesis
    proof (cases "\<exists>e. existing_record c db1 = Some e \<and> is_stale ?now c e")
      case False
      let ?r = "existing_record c db1"
      have "?r = None \<or> (\<exists>e. ?r = Some e \<and> \<not> is_stale ?now c e)" using False by (cases ?r) auto
      then have "(case ?r of None \<Rightarrow> [] | Some e \<Rightarrow> if is_stale ?now c e then [Taking c ?now e] else []) = []" by auto
      moreover have "db = db1 \<and> result = map_option Inl ?r" using r ins \<open>\<not> affected\<close> False by (cases ?r) (simp_all add: reserve_def)
      ultimately show ?thesis using rtranclp.rtrancl_into_rtrancl [OF s2 s3] quiet1 by (intro exI [of _ ov1], cases ?r) simp_all
    next
      case True
      then obtain e where e: "existing_record c db1 = Some e" "is_stale ?now c e" by blast
      let ?s3 = "s\<lparr>id_db := db1, id_requests := before @ Taking c ?now e # after, id_overtaken := ov1 @ id_overtaken s\<rparr>"
      have s3: "idem_step\<^sup>*\<^sup>* s ?s3" using rtranclp.rtrancl_into_rtrancl [OF s2 s3] e by simp
      obtain taken db2 where take: "take_over ?now c e db1 = (taken, db2)" by (cases "take_over ?now c e db1")
      define ov2 where "ov2 = interrupted ?now (\<lambda>i. taken \<and> i = ir_ID e) (id_requests ?s3)"
      have quiet2: "?quiet (ov2 @ ov1)" using quiet1 by (simp add: ov2_def interrupted_def)
      have s4: "idem_step ?s3 (s\<lparr>id_db := db2, id_requests := before @ (if taken then [Running (c\<lparr>ir_ID := ir_ID e\<rparr>) ?now] else []) @ after,
          id_overtaken := (ov2 @ ov1) @ id_overtaken s\<rparr>)"
        using take_row [of ?s3 before c ?now e after taken db2] take unfolding ov2_def by (simp only: overtaken_first append_assoc) simp
      have "db = db2 \<and> result = Some (if taken then Inr (ir_ID e) else Inl e)"
        using r ins \<open>\<not> affected\<close> e take by (cases taken) (simp_all add: reserve_def)
      with rtranclp.rtrancl_into_rtrancl [OF s3 s4] quiet2 show ?thesis by (intro exI [of _ "ov2 @ ov1"], cases taken) simp_all
    qed
  qed
qed

subsection \<open>A success is recorded\<close>

definition sample_mutation :: mutation where
  "sample_mutation = \<lparr>im_Method = ''POST'', im_Route = ''/api/guests'', im_Parameters = [], im_RawQuery = [], im_Key = ''k'',
     im_Body = ''{}'', im_TenantCode = ''acme'', im_CognitoSub = ''sub''\<rparr>"

definition sample_response :: response where
  "sample_response = \<lparr>re_Status = 201, re_ContentType = [], re_Body = ''ok''\<rparr>"

lemma sample_admitted: "CriticalMutations sample_mutation 0 1 = Reserving (candidate_record sample_mutation 0 1)"
proof -
  have "ToUpper ''POST'' @ '' '' @ ''/api/guests'' \<in> set protectedRoutes" "TrimSpace ''k'' = ''k''" by code_simp+
  then show ?thesis by (simp add: CriticalMutations_def sample_mutation_def maxKeyLength_def maxBodyBytes_def)
qed

definition sample_after :: idem_state where
  "sample_after =
     (let c = candidate_record sample_mutation 0 1
      in (idem_start 0)\<lparr>id_used := [1 \<mapsto> idem_scope c],
           id_db := [c\<lparr>ir_State := ''completed'', ir_Response := sample_response\<rparr>], id_done := [(c, 0, sample_response)]\<rparr>)"

lemma sample_completion: "completion_of False 201 [] [''ok''] = Complete sample_response"
  by (simp add: completion_of_def captured_def capture_write_def no_capture_def maxResponseBytes_def sample_response_def)

lemma sample_steps: "idem_step\<^sup>*\<^sup>* (idem_start 0) sample_after"
proof -
  let ?c = "candidate_record sample_mutation 0 1"
  let ?s1 = "(idem_start 0)\<lparr>id_used := [1 \<mapsto> idem_scope ?c], id_requests := [Purging ?c 0]\<rparr>"
  let ?s2 = "(idem_start 0)\<lparr>id_used := [1 \<mapsto> idem_scope ?c], id_db := [?c], id_requests := [Running ?c 0]\<rparr>"
  have "idem_step (idem_start 0) ?s1"
    using arrive [of sample_mutation "idem_start 0" 1] sample_admitted by (simp add: idem_start_def)
  also have "idem_step\<^sup>*\<^sup>* ?s1 ?s2"
    using reserve_runs [of ?s1 "[]" ?c "[]" "Some (Inr 1)" "[?c]"]
    by (auto simp: idem_start_def reserve_def insert_record_def delete_expired_def candidate_record_def)
  also have "idem_step ?s2 sample_after"
    using finish [of ?s2 "[]" ?c 0 "[]" False 201 "[]" "[''ok'']" sample_response] sample_completion
    by (simp add: idem_start_def sample_after_def finalize_record_def candidate_record_def Let_def)
  finally show ?thesis by simp
qed

theorem recorded_success_is_not_repeated_witness:
  "\<exists>r. existing_record (candidate_record sample_mutation 0 2) (id_db sample_after) = Some r
     \<and> answer_existing (candidate_record sample_mutation 0 2) r = Replayed sample_response"
proof -
  have "(candidate_record sample_mutation 0 1, 0, sample_response) \<in> set (id_done sample_after)" "id_now sample_after \<le> 0 + recordTTL"
    by (simp_all add: sample_after_def idem_start_def recordTTL_def Let_def)
  moreover have "idem_scope (candidate_record sample_mutation 0 2) = idem_scope (candidate_record sample_mutation 0 1)"
    "ir_RequestHash (candidate_record sample_mutation 0 2) = ir_RequestHash (candidate_record sample_mutation 0 1)"
    by (simp_all add: idem_scope_def candidate_record_def)
  ultimately show ?thesis using recorded_success_is_not_repeated [OF sample_steps, of "idem_scope (candidate_record sample_mutation 0 1)"]
    by (fastforce simp: sample_after_def idem_start_def Let_def)
qed

subsection \<open>A slow handler\<close>

lemma admitted_again:
  assumes "CriticalMutations m now i = Reserving c"
  shows "c = candidate_record m now i" "CriticalMutations m now' i' = Reserving (candidate_record m now' i')"
  using assms by (auto simp: CriticalMutations_def split: if_splits)

lemma same_request:
  "idem_scope (candidate_record m now i) = idem_scope (candidate_record m now' i')"
  "ir_RequestHash (candidate_record m now i) = ir_RequestHash (candidate_record m now' i')"
  by (simp_all add: idem_scope_def candidate_record_def)

text \<open>
  A slow handler is run a second time. When a request is sent again more than two minutes (and less than a day) after it was
  reserved and its handler is still running, which the server allows for five minutes, the record is taken over and the handler runs
  again: two handlers run for the same key, query and body, which is what the record exists to prevent.
\<close>

theorem slow_handler_runs_twice:
  assumes admitted: "CriticalMutations m t0 i = Reserving c" and ids: "i \<noteq> j" and slow: "t0 + staleAfter < t" "t \<le> t0 + recordTTL"
  shows "\<exists>s. idem_step\<^sup>*\<^sup>* (idem_start t0) s \<and> id_now s = t
    \<and> id_requests s = [Running (candidate_record m t i) t, Running c t0]
    \<and> length (filter (runs_on (idem_scope c)) (id_requests s)) = 2"
proof -
  let ?d = "candidate_record m t j"
  have c: "c = candidate_record m t0 i" using admitted_again(1) [OF admitted] .
  let ?s1 = "(idem_start t0)\<lparr>id_used := [i \<mapsto> idem_scope c], id_requests := [Purging c t0]\<rparr>"
  let ?s2 = "(idem_start t0)\<lparr>id_used := [i \<mapsto> idem_scope c], id_db := [c], id_requests := [Running c t0]\<rparr>"
  let ?s4 = "?s2\<lparr>id_now := t, id_used := [i \<mapsto> idem_scope c, j \<mapsto> idem_scope ?d], id_requests := [] @ Purging ?d t # [Running c t0]\<rparr>"
  have "idem_step (idem_start t0) ?s1" using arrive [of m "idem_start t0" i c] admitted by (simp add: idem_start_def)
  also have "idem_step\<^sup>*\<^sup>* ?s1 ?s2"
    using reserve_runs [of ?s1 "[]" c "[]" "Some (Inr i)" "[c]"]
    by (auto simp: idem_start_def reserve_def insert_record_def delete_expired_def candidate_record_def c)
  also have "idem_step ?s2 (?s2\<lparr>id_now := t\<rparr>)" using tick [of ?s2 t] slow(1) by (simp add: idem_start_def times)
  also have "idem_step (?s2\<lparr>id_now := t\<rparr>) ?s4"
    using arrive [of m "?s2\<lparr>id_now := t\<rparr>" j ?d] admitted_again(2) [OF admitted] ids by (simp add: idem_start_def)
  finally have before: "idem_step\<^sup>*\<^sup>* (idem_start t0) ?s4" by simp
  have now: "id_now ?s4 = t" by simp
  define x where "x = c\<lparr>ir_RequestHash := ir_RequestHash ?d, ir_ExpiresAt := ir_ExpiresAt ?d, ir_UpdatedAt := t\<rparr>"
  have "reserve t ?d [c] = (Some (Inr i), [x])"
    using slow same_request [of m t0 i t j]
    by (simp add: reserve_def delete_expired_def insert_record_def existing_record_def is_stale_def take_over_def Let_def c x_def)
      (simp add: candidate_record_def)
  then have "reserve (id_now ?s4) ?d (id_db ?s4) = (Some (Inr i), [x])" by simp
  from reserve_runs [of ?s4 "[]" ?d "[Running c t0]", OF _ this] obtain ov where
    "idem_step\<^sup>*\<^sup>* ?s4 (?s4\<lparr>id_db := [x], id_requests := [Running (?d\<lparr>ir_ID := i\<rparr>) t, Running c t0], id_overtaken := ov\<rparr>)" (is "idem_step\<^sup>*\<^sup>* ?s4 ?s5")
    by (auto simp: idem_start_def)
  with before have run: "idem_step\<^sup>*\<^sup>* (idem_start t0) ?s5" by (rule rtranclp_trans)
  have d: "?d\<lparr>ir_ID := i\<rparr> = candidate_record m t i" by (simp add: candidate_record_def)
  show ?thesis
    using run same_request(1) [of m t i t0 i] by (intro exI [of _ ?s5]) (simp add: d c)
qed

theorem slow_handler_runs_twice_witness:
  "\<exists>s. idem_step\<^sup>*\<^sup>* (idem_start 0) s \<and> id_now s = 3 * minute
     \<and> length (filter (runs_on (idem_scope (candidate_record sample_mutation 0 1))) (id_requests s)) = 2"
  using slow_handler_runs_twice [OF sample_admitted, of 2 "3 * minute"] by (auto simp: staleAfter_def recordTTL_def)

end
