(* ===== verification/OrgScope.thy ===== *)
theory OrgScope
  imports OrgTree
begin

text \<open>
  The organizations below an organization (organizationscope/clients.go). The recursive query uses \<open>UNION\<close>, which drops the rows it has already
  found: it returns on every table, also when the hierarchy has a cycle, with each organization once.
\<close>

definition scope_children :: "org_client list \<Rightarrow> uuid list \<Rightarrow> uuid list" where
  "scope_children cs parents = [cl_ID child. child \<leftarrow> cs, (\<exists>p \<in> set parents. cl_ParentID child = Some p) \<and> \<not> cl_Deleted child]"

definition scope_new :: "org_client list \<Rightarrow> uuid list \<Rightarrow> uuid list \<Rightarrow> uuid list" where
  "scope_new cs found work = remdups (filter (\<lambda>i. i \<notin> set found) (scope_children cs work))"

lemma scope_new_set: "set (scope_new cs found work) = set (scope_children cs work) - set found"
  by (auto simp: scope_new_def)

lemma scope_children_in: "set (scope_children cs work) \<subseteq> set (map cl_ID cs)"
  by (auto simp: scope_children_def)

text \<open>One round of the query joins the rows that the last round added; every further round finds a row that is new.\<close>

function organization_clients :: "org_client list \<Rightarrow> uuid list \<Rightarrow> uuid list \<Rightarrow> uuid list" where
  "organization_clients cs found work =
     (let new = scope_new cs found work in if new = [] then found else organization_clients cs (found @ new) new)"
  by pat_completeness auto
termination
proof (relation "measure (\<lambda>(cs, found, work). card (set (map cl_ID cs) - set found))", goal_cases)
  case (2 cs found work new)
  obtain x where x: "x \<in> set new" using hd_in_set [OF 2(2)] by blast
  have "set new \<subseteq> set (map cl_ID cs) - set found"
    unfolding 2(1) scope_new_set using scope_children_in [of cs work] by blast
  with x have "x \<in> set (map cl_ID cs) - set found" by (rule subsetD [rotated])
  then have "set (map cl_ID cs) - set (found @ new) \<subset> set (map cl_ID cs) - set found" using x by (intro psubsetI) auto
  then show ?case by (simp add: psubset_card_mono)
qed simp

declare organization_clients.simps [simp del]

datatype scope_error = OrganizationNotFound

definition ClientIDs :: "org_client list \<Rightarrow> uuid \<Rightarrow> scope_error + uuid list" where
  "ClientIDs cs organizationID =
     (if organizationID = uuid_Nil then Inl OrganizationNotFound
      else let start = remdups [cl_ID c. c \<leftarrow> cs, cl_ID c = organizationID \<and> \<not> cl_Deleted c];
               clientIDs = organization_clients cs start start
           in if clientIDs = [] then Inl OrganizationNotFound else Inr clientIDs)"

subsection \<open>What it returns\<close>

definition child_of :: "org_client list \<Rightarrow> uuid \<Rightarrow> uuid \<Rightarrow> bool" where
  "child_of cs p i \<longleftrightarrow> (\<exists>c \<in> set cs. cl_ID c = i \<and> cl_ParentID c = Some p \<and> \<not> cl_Deleted c)"

lemma scope_children_set: "set (scope_children cs work) = {i. \<exists>p \<in> set work. child_of cs p i}"
  by (auto simp: scope_children_def child_of_def)

text \<open>Rows that are no longer in work have all their children among the rows found.\<close>

lemma organization_clients_closed:
  assumes "distinct found" "set work \<subseteq> set found" "\<And>p i. p \<in> set found \<Longrightarrow> p \<notin> set work \<Longrightarrow> child_of cs p i \<Longrightarrow> i \<in> set found"
  shows "distinct (organization_clients cs found work) \<and> set found \<subseteq> set (organization_clients cs found work)
     \<and> (\<forall>p i. p \<in> set (organization_clients cs found work) \<longrightarrow> child_of cs p i \<longrightarrow> i \<in> set (organization_clients cs found work))
     \<and> (\<forall>i \<in> set (organization_clients cs found work). \<exists>p \<in> set found. (child_of cs)\<^sup>*\<^sup>* p i)"
  using assms
proof (induction cs found work rule: organization_clients.induct)
  case (1 cs found work)
  define new where "new = scope_new cs found work"
  have new: "set new = {i. \<exists>p \<in> set work. child_of cs p i} - set found" "distinct new"
    by (simp_all add: new_def scope_new_set scope_children_set) (simp add: scope_new_def)
  show ?case
  proof (cases "new = []")
    case True
    then have "organization_clients cs found work = found" by (subst organization_clients.simps) (simp add: new_def)
    moreover have "child_of cs p i \<Longrightarrow> p \<in> set found \<Longrightarrow> i \<in> set found" for p i using new(1) True "1.prems"(3) by (cases "p \<in> set work") auto
    ultimately show ?thesis using "1.prems"(1) by auto
  next
    case False
    have step: "organization_clients cs found work = organization_clients cs (found @ new) new"
      using False by (subst organization_clients.simps) (simp add: new_def Let_def)
    have "distinct (found @ new)" "set new \<subseteq> set (found @ new)" using new "1.prems"(1) by auto
    moreover have "i \<in> set (found @ new)" if "p \<in> set (found @ new)" "p \<notin> set new" "child_of cs p i" for p i
      using that new(1) "1.prems"(3) by (cases "p \<in> set work") auto
    ultimately have IH: "distinct (organization_clients cs (found @ new) new) \<and> set (found @ new) \<subseteq> set (organization_clients cs (found @ new) new)
       \<and> (\<forall>p i. p \<in> set (organization_clients cs (found @ new) new) \<longrightarrow> child_of cs p i \<longrightarrow> i \<in> set (organization_clients cs (found @ new) new))
       \<and> (\<forall>i \<in> set (organization_clients cs (found @ new) new). \<exists>p \<in> set (found @ new). (child_of cs)\<^sup>*\<^sup>* p i)"
      using "1.IH" [OF new_def False] by blast
    have "\<exists>q \<in> set found. (child_of cs)\<^sup>*\<^sup>* q p" if "p \<in> set (found @ new)" for p
      using that new(1) "1.prems"(2) by (auto intro: r_into_rtranclp)
    with IH show ?thesis unfolding step by (auto; meson rtranclp_trans)
  qed
qed

text \<open>
  C38. The scope of an organization is computed on every table. \<open>ClientIDs\<close> returns without a bound on the depth, even if the parents of organizations
  form a cycle: an error exactly when the organization is nil or does not exist, and otherwise each organization at or below it
  exactly once, deleted ones and what hangs below them left out.
\<close>

theorem organization_scope_is_complete:
  "ClientIDs cs i =
     (if i \<noteq> uuid_Nil \<and> (\<exists>c \<in> set cs. cl_ID c = i \<and> \<not> cl_Deleted c)
      then Inr (organization_clients cs [i] [i]) else Inl OrganizationNotFound)
   \<and> distinct (organization_clients cs [i] [i]) \<and> set (organization_clients cs [i] [i]) = {j. (child_of cs)\<^sup>*\<^sup>* i j}
   \<and> length (organization_clients cs [i] [i]) \<le> Suc (length cs)"
proof -
  let ?r = "organization_clients cs [i] [i]"
  have start: "remdups [cl_ID c. c \<leftarrow> cs, cl_ID c = i \<and> \<not> cl_Deleted c] = (if \<exists>c \<in> set cs. cl_ID c = i \<and> \<not> cl_Deleted c then [i] else [])"
    by (induction cs) (auto split: if_splits)
  have none: "organization_clients cs [] [] = []"
    by (subst organization_clients.simps) (simp add: scope_new_def scope_children_def)
  have closed: "distinct ?r" "i \<in> set ?r" "\<And>p j. p \<in> set ?r \<Longrightarrow> child_of cs p j \<Longrightarrow> j \<in> set ?r"
    "\<And>j. j \<in> set ?r \<Longrightarrow> (child_of cs)\<^sup>*\<^sup>* i j"
    using organization_clients_closed [of "[i]" "[i]" cs] by auto
  have "(child_of cs)\<^sup>*\<^sup>* i j \<Longrightarrow> j \<in> set ?r" for j by (induction rule: rtranclp_induct) (use closed in auto)
  then have all: "set ?r = {j. (child_of cs)\<^sup>*\<^sup>* i j}" using closed(4) by auto
  have "(child_of cs)\<^sup>*\<^sup>* i j \<Longrightarrow> j \<in> insert i (set (map cl_ID cs))" for j
    by (induction rule: rtranclp_induct) (auto simp: child_of_def)
  then have "set ?r \<subseteq> insert i (set (map cl_ID cs))" unfolding all by auto
  then have "card (set ?r) \<le> card (insert i (set (map cl_ID cs)))" by (intro card_mono) auto
  also have "\<dots> \<le> Suc (length cs)" using card_length [of "map cl_ID cs"] by (auto intro: order_trans [OF card_insert_le_m1] simp: card_insert_if)
  finally have "length ?r \<le> Suc (length cs)" using closed(1) by (simp add: distinct_card)
  moreover have "?r \<noteq> []" using closed(2) by auto
  ultimately show ?thesis using all closed(1) by (auto simp: ClientIDs_def start none Let_def)
qed

end
