(* ===== verification/Spec2Isabelle.thy ===== *)
theory Spec2Isabelle
  imports
    DeliveryWorkflow
    PlanNormalize
    PlanInputProps
    StepLeaseProps
    PlanExecutionRun
    DeliveryPolicyRun
    PolicyLedgerRun
    AutomationCostRun
    OutboxRun
    AuthzRun
    TokensRun
    AppAccessRun
    IdempotencyRun
    OrgScope
begin

text \<open>
  A verification of the delivery control plane of the events backend: the code that decides what
  work an automation agent may do, in which order, by which machine, and what may be merged and
  released, how its tasks reach the queues and what its calls of language models cost; and of the
  authorization checks, sessions, credentials and signed tokens that this part shares with the event product. The
  backend is a Go service over PostgreSQL; the event product itself and most of the HTTP layer are outside this
  development.

  \<^bold>\<open>The parts and how they interact.\<close> A work item walks through the gates of
  services/deliveryworkflow. Its approved plan is split into steps by services/deliveryplansteps,
  which stores a graph of rows (steps.go), seals it with a content hash (plan\_hash.go), freezes an
  execution and assigns ready steps to machines (orchestration.go), leases single steps to workers
  (claim.go) and judges whether all assigned steps came back (fan\_in.go). A change set that results
  from the work is merged or released when internal/releasegate allows it, on evidence that
  includes a policy which internal/deliverypolicy resolves from approved layers. These layers are
  rows of an append-only ledger: controllers/delivery appends proposals and independent decisions to
  it, internal/deliverypolicystore selects the rows that are in force. Tasks are handed to workers through
  a transactional outbox: repositories/outboxrepository stores events under the routes of
  internal/runtimeroute and leases them fairly, services/outbox publishes them. The tokens that a worker
  reports are validated, priced and added up by services/automationcost. Who may do what is decided by
  internal/authz, from the level of a platform administrator, the role in an organization, an assignment
  to an event or a grant, over the capabilities of internal/capabilities, the products of
  internal/products and the queries of repositories/clientrepository. A request comes that far through
  middleware/applicationaccess: it needs a session of its product from services/applications, a workspace that
  internal/requestcontext accepts, and for an organization the credential of internal/organizationcontext, which
  controllers/sessions issues. Mutations that must not be repeated pass middleware/idempotency. Visitors of an event prove a password with a token of internal/publicaccessproof, behind a
  limiter of guesses; previews carry a token of internal/previewtoken; agent machines sign their callbacks with
  internal/agentcallbackauth.

  \<^bold>\<open>The theories.\<close>
    \<^item> \<open>GoStd\<close>, \<open>GoHash\<close>: the parts of Go's standard library the code uses (strings, time, strconv,
      encoding/json, sort, SHA-256), error results, and the lemmas that all components share.
    \<^item> \<open>StepSystem\<close>: locales for systems that run operations one after the other:
      \<open>invariant_system\<close> (an invariant that every step keeps holds along every run) and
      \<open>forward_system\<close> (a relation between earlier and later states that every step keeps).
      They are interpreted on the workflow, on the leases, on the executions and on the policy
      ledger. \<open>Simulation\<close> adds the locale \<open>simulation\<close>, for a system that implements an abstract one.
    \<^item> \<open>GoJson\<close>: the parser of package encoding/json and the decoding into structs, with the round trip
      from an encoded document.
    \<^item> \<open>DeliveryWorkflow\<close>: workflow.go. \<open>Advance\<close> on a work item with its gates; runs of it.
    \<^item> \<open>PlanRows\<close>: the rows of models/ that the plan services read and write.
    \<^item> \<open>PlanSteps\<close>: steps.go; \<open>PlanGraph\<close>, \<open>PlanIntegration\<close> and \<open>PlanNormalize\<close> show what its depth-first
      search, its integration check and \<open>Normalize\<close> decide and build.
    \<^item> \<open>PlanInput\<close>, \<open>PlanInputProps\<close>: input.go and plan\_hash.go.
    \<^item> \<open>StepLease\<close>, \<open>StepLeaseProps\<close>: claim.go over explicit tables, as a system of claims, renewals and
      transitions by any number of workers.
    \<^item> \<open>Orchestration\<close>, \<open>Allocation\<close>, \<open>PlanExecution\<close>, \<open>PlanExecutionProps\<close>, \<open>PlanExecutionRun\<close>:
      orchestration.go, fan\_in.go and agentprotocol/protocol.go; the last one holds a concrete run.
    \<^item> \<open>ReleaseGate\<close>, \<open>ReleaseGateProps\<close>: releasegate/gate.go and the specification \<open>release_ready\<close>.
    \<^item> \<open>DeliveryPolicy\<close>, \<open>DeliveryPolicyProps\<close>, \<open>DeliveryPolicyRun\<close>: deliverypolicy/policy.go,
      \<open>CanonicalGitHubReference\<close> of projectvault/proposal.go, and the policy evidence that
      releasegatecontrol/evidence.go builds for the gate.
    \<^item> \<open>PolicyStore\<close>, \<open>PolicyStoreProps\<close>: deliverypolicystore/selection.go and management.go.
    \<^item> \<open>PolicyLedger\<close>, \<open>PolicyLedgerProps\<close>, \<open>PolicyLedgerRun\<close>: the transactions of
      controllers/delivery/policy\_management.go and the resolver of effective\_policy.go, as a system
      of proposals and decisions; the last one holds a concrete run.
    \<^item> \<open>AutomationCost\<close>, \<open>AutomationCostProps\<close>, \<open>AutomationCostRun\<close>: automationcost/usage.go and
      ledger.go in 64-bit arithmetic; the last one holds the aggregation and concrete reports.
    \<^item> \<open>Outbox\<close>, \<open>OutboxProps\<close>: runtimeroute/routes.go and OutboxRepository.go, and that claims are a
      fair round robin; \<open>OutboxDispatch\<close>: services/outbox/Dispatcher.go as a system of API processes and
      dispatchers that may stop at any point; \<open>OutboxRun\<close>: concrete runs.
    \<^item> \<open>Access\<close>: internal/products, internal/capabilities and the levels of models/User.go; \<open>OrgTree\<close>: the
      recursive queries of clientrepository (access\_checks.go, clientRepository.go), and \<open>OrgTreeProps\<close>,
      how the walk up the tree and the walk down relate.
    \<^item> \<open>Authz\<close>: authz.go, enforcement.go and event\_authority.go over the hooks of \<open>Hooks\<close>; \<open>AuthzProps\<close>: the
      caches of a request are invisible and the check on an event is exact; \<open>AuthzSafety\<close>: what the checks
      rule out; \<open>AuthzRun\<close>: a small platform on which they run.
    \<^item> \<open>OrgScope\<close>: organizationscope/clients.go, a query that ends on cyclic tables too.
    \<^item> \<open>GoCrypto\<close>: unpadded base64 for URLs and HMAC-SHA-256 of the standard library, computed; \<open>SignedTokens\<close>: token.go of
      organizationcontext, publicaccessproof.go and previewtoken.go; \<open>SignedTokensProps\<close>: the locale \<open>signed\_text\<close> of an encoding and
      a signature, interpreted on these, and what each token is accepted for.
    \<^item> \<open>PasswordGate\<close>, \<open>PasswordGateProps\<close>: attempts.go in the memory of the process and the end of \<open>VerifyEventAccess\<close>, as a
      system of handlers that interleave; \<open>CallbackAuth\<close>: agentcallbackauth/signature.go; \<open>TokensRun\<close>: concrete tokens.
    \<^item> \<open>Sessions\<close>: services/applications; \<open>SessionsProps\<close>: what the capabilities of a session are; \<open>WorkspaceProps\<close>: its
      workspaces, and the cache as a system of concurrent requests.
    \<^item> \<open>LocalBootstrap\<close>: the bootstrap of the first developer in services/users/UserService.go, which the wiring of
      app.go attaches to the sessions and which acts only where the environment is local.
    \<^item> \<open>AppAccess\<close>: requestcontext/resolver.go, applicationaccess/application\_access.go and the issue of a credential in
      controllers/sessions; \<open>AppAccessProps\<close>: from the credential to the admitted request; \<open>AppAccessRun\<close>: a concrete session.
    \<^item> \<open>Idempotency\<close>, \<open>IdempotencyProps\<close>, \<open>IdempotencyRun\<close>: middleware/idempotency, each statement of the database a step of
      requests that interleave; the last one holds \<open>reserve\<close> as a run of these steps, and a concrete run.

  \<^bold>\<open>What is shown.\<close> No work item is released without its four gates, and closed work stays closed. The
  stored graph of a plan has no cycle and ends in its integration step; the two graph checks are
  exact, and map iteration order does not matter. Steps run in dependency order under concurrent
  workers, live leases are not stolen, a later claim raises the fence and shuts out the former one unless it is the holder's
  own with the lease still live, leases are bounded and the
  audit trail replays every status. Executions are created once, keep their concurrency limit and
  the slots of machines, allocate whenever slots suffice, and change hands only after expiry. The
  gate allows exactly the releases its specification calls ready, in whatever order evidence is
  listed, and only where the very policy resolved for each revision permits the action, the branch and the rest; the
  narrowest approved and sealed layer decides it. The
  policy ledger only grows, implements a deterministic life of each revision that ends with its revocation as long as the
  clock moves on, reads back what was proposed, and a policy rests on exactly the latest decisions of its scopes. No event of
  the outbox is lost, no lane starves, a claim picks what the reference round robin picks, and rows stay
  well-formed and routed. Provider usage is accepted exactly when it is consistent, prices are exact
  within 64 bits, a hold covers its call up to one micro-dollar of rounding, and aggregates are exact sums.
  A capability on an event is granted exactly when its specification says so, whatever the request asked
  before; a branded tenant stays inside its own organizations, the batch of checks grants no more than the
  single check, administrators hand out no role above their level, and what an access check allows is
  also listed. A session shows what the checks grant, cut by the flag of client
  management and an enforced policy, stays within the policy of its user and lists exactly the
  workspaces the user reaches; a credential opens one workspace; an organization in which a request is admitted was
  reachable at most fifteen seconds and a load before, in the tables of that moment or in those the bootstrap of a local
  environment leaves; a change of an entitlement takes effect at once. The scope of
  an organization is complete on every table. Proofs are exact, no kind of token passes for another, wrong guesses of a
  password are bounded under concurrency up to the slots that stragglers give back into a later window, which the theory
  counts, and a signed callback stands for one request. A recorded success of a mutation with a key is replayed for a
  day and at most one handler runs for the key, unless a handler is still in progress after two minutes; then a second one runs, as
  \<open>slow_handler_runs_twice\<close> shows.

  \<^bold>\<open>How the code is translated.\<close>
    \<^item> Every operation that runs in a database transaction is a function from tables to an error or
      to new tables and a result; an error leaves the tables as they were, as the aborted
      transaction does. Failures of the database itself are not modelled. Row locks make the
      operations of one plan run one after the other; \<open>SKIP LOCKED\<close> is the argument \<open>ce_locked\<close>, the
      rows that other transactions hold. In the outbox the set of locked rows may change with every claim,
      and the collation of the database is any permutation.
    \<^item> The clock is an argument, an integer number of nanoseconds; an instant in the database and one
      in memory are the same value. New identities come from a supply that is an argument.
    \<^item> A Go map that the code ranges over is an association list in an arbitrary order.
    \<^item> \<open>int64\<close> fences are integers with their bound written out; other counts are integers.
    \<^item> \<open>strings.ToLower\<close>, \<open>ToUpper\<close> and \<open>EqualFold\<close> act on ASCII letters.
    \<^item> A slice whose nil and empty values the code treats alike is a list.
    \<^item> The authorization hooks are functions that answer the same within one request and return a row when
      they succeed; a hook that is not configured is \<open>None\<close>. The mutex of a cache makes its reads and writes
      one after the other. Panics of hooks and the log of shadow denials are left out.
    \<^item> A recursive query is unrolled level by level, up to the bound it states; with \<open>UNION\<close> it ends by itself.
    \<^item> The tables that requests read over time are a function of the time; what a request loads and stores later is stored
      within a bound that is an argument.
    \<^item> The clock of the limiter of guesses and of the idempotency middleware moves on by any amount between two steps.
    \<^item> The parser of package net/url, the printer of package uuid and the decoding of JSON columns other than policy
      patches are arguments.
    \<^item> The depth-first search takes a depth bound, one more than the number of steps; the exactness of
      the check shows that the bound never rejects a sound plan.

  \<^bold>\<open>What the tokens rest on.\<close> HMAC is computed, not idealised: the properties of tokens say what a validator accepts
  of issued tokens and of tokens of another kind, not that a signature cannot be forged. Ed25519 is an argument with
  the law that it verifies what it signed. The environment and the printer and parser of package uuid are arguments;
  the printer is injective and prints no dot and no line end.

  \<^bold>\<open>What is not modelled.\<close> The response conversion \<open>DTOs\<close> of steps.go, the strict JSON decoder \<open>DecodeInput\<close>
  of the gate, the database loaders of releasegatecontrol, the listing and snapshot views of the policy
  endpoints, the floating-point percentages of automationcost/profile.go, the list and search queries of clientrepository, the
  Redis scripts of the limiter of guesses and \<open>ClientKey\<close>, which parses an address, the handlers that list and change the
  applications of a member, and everything outside: other HTTP controllers, other repositories, the event product, the agent that drives models
  and containers, configuration and wiring.
\<close>

end
